(* ===== verification/Prelude.thy ===== *)
theory Prelude
  imports Main "HOL-Library.Sublist" "HOL-Library.List_Lexorder" "HOL-Library.Char_ord"
begin

text \<open>
  What every component shares: the result type of fallible Go code with its sequencing,
  the loops over tables and slices, and the list lemmas the component proofs rest on.

  A Go function that returns \<open>(T, error)\<close> is a function into \<open>'e + 'a\<close>, \<open>Inl\<close> the error;
  one that returns only \<open>error\<close> is a function into \<open>'e option\<close>, \<open>None\<close> the nil error.  A
  transaction body takes the database and returns \<open>'e + 'a \<times> 'db\<close>: on \<open>Inl\<close> nothing of the
  new database survives, which is the rollback.
\<close>

named_theorems model_defs \<open>definitions of the model, to evaluate it\<close>
named_theorems const_defs \<open>string and number constants of the source\<close>
named_theorems inv_intros \<open>preservation of the components' invariants\<close>

subsection \<open>Sequencing of fallible steps\<close>

fun bindR :: "'e + 'a \<Rightarrow> ('a \<Rightarrow> 'e + 'b) \<Rightarrow> 'e + 'b" where
  "bindR (Inl e) f = Inl e"
| "bindR (Inr x) f = f x"

lemma bindR_Inr: "bindR m f = Inr y \<longleftrightarrow> (\<exists>x. m = Inr x \<and> f x = Inr y)"
  by (cases m) auto

lemma bindR_Inl: "bindR m f = Inl e \<longleftrightarrow> m = Inl e \<or> (\<exists>x. m = Inr x \<and> f x = Inl e)"
  by (cases m) auto

lemma bindR_assoc: "bindR (bindR m f) g = bindR m (\<lambda>x. bindR (f x) g)"
  by (cases m) auto

lemma bindR_cong [fundef_cong]:
  "m = m' \<Longrightarrow> (\<And>x. m' = Inr x \<Longrightarrow> f x = f' x) \<Longrightarrow> bindR m f = bindR m' f'"
  by (cases m') auto

text \<open>\<open>failIf\<close> is an early return of an error; \<open>orNil\<close> runs checks in order, the first error wins.\<close>

definition failIf :: "'e option \<Rightarrow> 'e + unit" where
  "failIf e = (case e of None \<Rightarrow> Inr () | Some x \<Rightarrow> Inl x)"

lemma failIf_simps [simp]: "failIf None = Inr ()" "failIf (Some e) = Inl e"
  by (simp_all add: failIf_def)

lemma failIf_Inr: "failIf c = Inr u \<longleftrightarrow> c = None"
  by (cases c) auto

lemma failIf_Inl: "failIf c = Inl e \<longleftrightarrow> c = Some e"
  by (cases c) auto

fun orNil :: "'e option \<Rightarrow> 'e option \<Rightarrow> 'e option" where
  "orNil (Some e) _ = Some e"
| "orNil None c = c"

lemma orNil_None: "orNil a b = None \<longleftrightarrow> a = None \<and> b = None"
  by (cases a) auto

text \<open>A loop of checks over a slice: the first failing element's error.\<close>

fun firstErr :: "('a \<Rightarrow> 'e option) \<Rightarrow> 'a list \<Rightarrow> 'e option" where
  "firstErr c [] = None"
| "firstErr c (x # xs) = (case c x of Some e \<Rightarrow> Some e | None \<Rightarrow> firstErr c xs)"

lemma firstErr_None: "firstErr c xs = None \<longleftrightarrow> (\<forall>x \<in> set xs. c x = None)"
  by (induction xs) (auto split: option.splits)

lemma firstErr_Some: "firstErr c xs = Some e \<Longrightarrow> \<exists>x \<in> set xs. c x = Some e"
  by (induction xs) (auto split: option.splits)

text \<open>A loop of state-changing steps over a slice, stopping at the first error.\<close>

fun forEach :: "('a \<Rightarrow> 's \<Rightarrow> 'e + 's) \<Rightarrow> 'a list \<Rightarrow> 's \<Rightarrow> 'e + 's" where
  "forEach f [] s = Inr s"
| "forEach f (x # xs) s = bindR (f x s) (forEach f xs)"

lemma forEach_inv:
  assumes "forEach f xs s = Inr t" and "P s"
    and "\<And>x s t. x \<in> set xs \<Longrightarrow> P s \<Longrightarrow> f x s = Inr t \<Longrightarrow> P t"
  shows "P t"
  using assms by (induction xs arbitrary: s) (auto simp: bindR_Inr)

lemma forEach_rel:
  assumes "forEach f xs s = Inr t" and "\<And>s. R s s"
    and "\<And>s t u. R s t \<Longrightarrow> R t u \<Longrightarrow> R s u"
    and "\<And>x s t. x \<in> set xs \<Longrightarrow> f x s = Inr t \<Longrightarrow> R s t"
  shows "R s t"
  using assms(1,4)
proof (induction xs arbitrary: s)
  case Nil
  then show ?case by (simp add: assms(2))
next
  case (Cons x xs)
  then obtain u where "f x s = Inr u" and "forEach f xs u = Inr t"
    by (auto simp: bindR_Inr)
  then show ?case
    using Cons.IH [of u] Cons.prems(2) by (auto intro: assms(3) [of s u t])
qed

lemma forEach_field:
  assumes "forEach f xs s = Inr t"
    and "\<And>x s t. x \<in> set xs \<Longrightarrow> f x s = Inr t \<Longrightarrow> g t = g s"
  shows "g t = g s"
  using assms(1) by (rule forEach_rel [where R = "\<lambda>s t. g t = g s"]) (auto simp: assms(2))

text \<open>An optional pair that is no pair is absent.\<close>

lemma option_pair_None [simp]: "(\<forall>a b. x \<noteq> Some (a, b)) \<longleftrightarrow> x = None"
  by (cases x) auto

subsection \<open>Transition systems\<close>

text \<open>
  A component's step relation with an invariant its steps keep.  Inside: the invariant holds in
  every reachable state, and what each step keeps (given the invariant), every run keeps.
\<close>

locale transition_system =
  fixes step :: "'s \<Rightarrow> 's \<Rightarrow> bool" and inv :: "'s \<Rightarrow> bool"
  assumes inv_step: "inv s \<Longrightarrow> step s t \<Longrightarrow> inv t"
begin

lemma inv_reachable: "step\<^sup>*\<^sup>* s t \<Longrightarrow> inv s \<Longrightarrow> inv t"
  by (induction rule: rtranclp_induct) (auto intro: inv_step)

lemma stable_reachable:
  assumes "step\<^sup>*\<^sup>* s t" and "inv s" and "P s"
    and "\<And>s t. inv s \<Longrightarrow> step s t \<Longrightarrow> P s \<Longrightarrow> P t"
  shows "P t"
  using assms(1)
proof (induction rule: rtranclp_induct)
  case base
  show ?case by (rule assms(3))
next
  case (step t u)
  then show ?case using assms(4) inv_reachable [OF step.hyps(1) assms(2)] by blast
qed

lemma relation_reachable:
  assumes "step\<^sup>*\<^sup>* s t" and "inv s" and "R s s"
    and "\<And>a b. inv a \<Longrightarrow> step a b \<Longrightarrow> R s a \<Longrightarrow> R s b"
  shows "R s t"
  using assms by (rule stable_reachable [where P = "R s"])

end

subsection \<open>Tables\<close>

text \<open>
  A table is the list of its rows, oldest first.  \<open>rowBy key k\<close> is \<open>SELECT ... WHERE key = k\<close>
  of at most one row; \<open>updWhere\<close> is \<open>UPDATE ... WHERE\<close>.
\<close>

definition rowBy :: "('r \<Rightarrow> 'k) \<Rightarrow> 'k \<Rightarrow> 'r list \<Rightarrow> 'r option" where
  "rowBy key k t = List.find (\<lambda>r. key r = k) t"

definition updWhere :: "('r \<Rightarrow> bool) \<Rightarrow> ('r \<Rightarrow> 'r) \<Rightarrow> 'r list \<Rightarrow> 'r list" where
  "updWhere p f t = map (\<lambda>r. if p r then f r else r) t"

abbreviation uniqueBy :: "('r \<Rightarrow> 'k) \<Rightarrow> 'r list \<Rightarrow> bool" where
  "uniqueBy key t \<equiv> distinct (map key t)"

lemma rowBy_Nil [simp]: "rowBy key k [] = None"
  by (simp add: rowBy_def)

lemma rowBy_Cons [simp]: "rowBy key k (r # t) = (if key r = k then Some r else rowBy key k t)"
  by (simp add: rowBy_def)

lemma rowBy_append:
  "rowBy key k (t @ u) = (case rowBy key k t of None \<Rightarrow> rowBy key k u | Some r \<Rightarrow> Some r)"
  by (induction t) auto

lemma rowBy_Some: "rowBy key k t = Some r \<Longrightarrow> r \<in> set t \<and> key r = k"
  by (induction t) (auto split: if_splits)

lemma rowBy_None: "rowBy key k t = None \<longleftrightarrow> k \<notin> key ` set t"
  by (induction t) auto

lemma rowBy_eq:
  "uniqueBy key t \<Longrightarrow> r \<in> set t \<Longrightarrow> rowBy key (key r) t = Some r"
  by (induction t) auto

lemma updWhere_Nil [simp]: "updWhere p f [] = []"
  by (simp add: updWhere_def)

lemma updWhere_Cons [simp]:
  "updWhere p f (r # t) = (if p r then f r else r) # updWhere p f t"
  by (simp add: updWhere_def)

lemma length_updWhere [simp]: "length (updWhere p f t) = length t"
  by (simp add: updWhere_def)

lemma set_updWhere: "set (updWhere p f t) = {r \<in> set t. \<not> p r} \<union> f ` {r \<in> set t. p r}"
  by (auto simp: updWhere_def)

lemma map_updWhere: "(\<And>r. p r \<Longrightarrow> g (f r) = g r) \<Longrightarrow> map g (updWhere p f t) = map g t"
  by (simp add: updWhere_def)

lemma updWhere_none: "(\<And>r. r \<in> set t \<Longrightarrow> \<not> p r) \<Longrightarrow> updWhere p f t = t"
  by (induction t) auto

lemma filter_updWhere_other:
  "(\<And>r. r \<in> set t \<Longrightarrow> p r \<Longrightarrow> \<not> q r \<and> \<not> q (f r)) \<Longrightarrow> filter q (updWhere p f t) = filter q t"
  by (induction t) auto

lemma rowBy_updWhere:
  "(\<And>r. p r \<Longrightarrow> key (f r) = key r) \<Longrightarrow>
     rowBy key k (updWhere p f t) = map_option (\<lambda>r. if p r then f r else r) (rowBy key k t)"
  by (induction t) auto

lemma uniqueBy_filter: "uniqueBy key t \<Longrightarrow> uniqueBy key (filter p t)"
  by (induction t) auto

lemma uniqueBy_inj:
  "uniqueBy key t \<Longrightarrow> r \<in> set t \<Longrightarrow> q \<in> set t \<Longrightarrow> key r = key q \<Longrightarrow> r = q"
  by (auto simp: distinct_map dest: inj_onD)

lemma rowBy_filter:
  "uniqueBy key t \<Longrightarrow> rowBy key k (filter p t) =
     (case rowBy key k t of None \<Rightarrow> None | Some r \<Rightarrow> if p r then Some r else None)"
  by (induction t) (auto simp: rowBy_None dest!: rowBy_Some split: option.splits)

subsection \<open>Finding\<close>

lemma find_append:
  "List.find p (xs @ ys) = (case List.find p xs of None \<Rightarrow> List.find p ys | Some x \<Rightarrow> Some x)"
  by (induction xs) auto

lemma find_filter: "List.find p (filter q xs) = List.find (\<lambda>x. q x \<and> p x) xs"
  by (induction xs) auto

lemma find_SomeD: "List.find p xs = Some x \<Longrightarrow> x \<in> set xs \<and> p x"
  by (induction xs) (auto split: if_splits)

lemma sorted_wrt_uniqueBy: "sorted_wrt (\<lambda>a b. f a \<noteq> f b) xs \<Longrightarrow> uniqueBy f xs"
  by (induction xs) auto

end
