(* ===== verification/GoText.thy ===== *)
theory GoText
  imports Prelude
begin

text \<open>
  The parts of Go's \<open>strings\<close>, \<open>strconv\<close>, \<open>slices\<close> and \<open>utf16\<close> packages the server uses.  A Go
  string is its UTF-8 bytes, and so is a \<open>string\<close> here: one \<open>char\<close> per byte.  The order of
  strings is the byte-wise lexicographic one, which is Go's.
\<close>

subsection \<open>Searching and splitting\<close>

text \<open>\<open>strings.Cut\<close>: the text before and after the first separator, and whether there was one.\<close>

definition cut :: "char \<Rightarrow> string \<Rightarrow> string \<times> string \<times> bool" where
  "cut c s = (if c \<in> set s then (takeWhile ((\<noteq>) c) s, tl (dropWhile ((\<noteq>) c) s), True)
              else (s, '''', False))"

text \<open>Slicing at \<open>strings.LastIndex\<close>: \<open>None\<close> is index -1.\<close>

definition splitLast :: "char \<Rightarrow> string \<Rightarrow> (string \<times> string) option" where
  "splitLast c s = (if c \<in> set s
     then Some (rev (tl (dropWhile ((\<noteq>) c) (rev s))), rev (takeWhile ((\<noteq>) c) (rev s)))
     else None)"

lemma dropWhile_split:
  "c \<in> set s \<Longrightarrow> s = takeWhile ((\<noteq>) c) s @ c # tl (dropWhile ((\<noteq>) c) s)"
  by (induction s) auto

lemma cut_append: "c \<notin> set a \<Longrightarrow> cut c (a @ c # b) = (a, b, True)"
proof -
  assume "c \<notin> set a"
  then have "takeWhile ((\<noteq>) c) (a @ c # b) = a" "dropWhile ((\<noteq>) c) (a @ c # b) = c # b"
    by (induction a) auto
  then show ?thesis by (simp add: cut_def)
qed

lemma cut_True: "cut c s = (a, b, True) \<Longrightarrow> s = a @ c # b \<and> c \<notin> set a"
  using dropWhile_split [of c s] by (auto simp: cut_def dest: set_takeWhileD split: if_splits)

lemma cut_False: "cut c s = (a, b, False) \<longleftrightarrow> c \<notin> set s \<and> a = s \<and> b = ''''"
  by (auto simp: cut_def)

lemma splitLast_append: "c \<notin> set b \<Longrightarrow> splitLast c (a @ c # b) = Some (a, b)"
proof -
  assume "c \<notin> set b"
  then have n: "\<forall>x \<in> set (rev b). c \<noteq> x" by auto
  have "takeWhile ((\<noteq>) c) (rev b @ c # rev a) = rev b"
    "dropWhile ((\<noteq>) c) (rev b @ c # rev a) = c # rev a"
    using n by (simp_all add: takeWhile_append dropWhile_append)
  then show ?thesis by (simp add: splitLast_def)
qed

lemma splitLast_Some: "splitLast c s = Some (a, b) \<Longrightarrow> s = a @ c # b \<and> c \<notin> set b"
proof -
  assume h: "splitLast c s = Some (a, b)"
  then have c: "c \<in> set s" and a: "a = rev (tl (dropWhile ((\<noteq>) c) (rev s)))"
    and b: "b = rev (takeWhile ((\<noteq>) c) (rev s))"
    by (auto simp: splitLast_def split: if_splits)
  from c have "rev s = takeWhile ((\<noteq>) c) (rev s) @ c # tl (dropWhile ((\<noteq>) c) (rev s))"
    by (intro dropWhile_split) simp
  then have "rev (rev s) = rev (rev b @ c # rev a)" by (simp add: a b)
  then show ?thesis using b by (auto dest: set_takeWhileD)
qed

lemma splitLast_None: "splitLast c s = None \<longleftrightarrow> c \<notin> set s"
  by (simp add: splitLast_def)

text \<open>\<open>strings.Split\<close> and \<open>strings.Join\<close> at one character.\<close>

fun splitOn :: "char \<Rightarrow> string \<Rightarrow> string list" where
  "splitOn c [] = [[]]"
| "splitOn c (x # s) = (if x = c then [] # splitOn c s
     else (case splitOn c s of [] \<Rightarrow> [[x]] | w # ws \<Rightarrow> (x # w) # ws))"

fun joinOn :: "char \<Rightarrow> string list \<Rightarrow> string" where
  "joinOn c [] = ''''"
| "joinOn c [w] = w"
| "joinOn c (w # v # ws) = w @ c # joinOn c (v # ws)"

lemma splitOn_nonempty [simp]: "splitOn c s \<noteq> []"
  by (induction s) (auto split: list.splits)

lemma splitOn_word: "c \<notin> set w \<Longrightarrow> splitOn c w = [w]"
  by (induction w) auto

lemma splitOn_append: "c \<notin> set w \<Longrightarrow> splitOn c (w @ c # s) = w # splitOn c s"
  by (induction w) auto

lemma splitOn_joinOn:
  "ws \<noteq> [] \<Longrightarrow> \<forall>w \<in> set ws. c \<notin> set w \<Longrightarrow> splitOn c (joinOn c ws) = ws"
  by (induction c ws rule: joinOn.induct) (auto simp: splitOn_word splitOn_append)

lemma joinOn_Cons: "ws \<noteq> [] \<Longrightarrow> joinOn c (w # ws) = w @ c # joinOn c ws"
  by (cases ws) auto

lemma joinOn_Cons_char: "joinOn c ((x # w) # ws) = x # joinOn c (w # ws)"
  by (cases ws) auto

lemma joinOn_splitOn: "joinOn c (splitOn c s) = s"
proof (induction s)
  case (Cons x s)
  then show ?case
    by (cases "splitOn c s") (auto simp: joinOn_Cons joinOn_Cons_char)
qed simp

subsection \<open>White space\<close>

text \<open>
  \<open>strings.TrimSpace\<close> strips the code points of \<open>unicode.IsSpace\<close>: their UTF-8 encodings, at
  either end.  Every one is at least a byte long, so the length of the text bounds the strips.
\<close>

definition goSpaces :: "string list" where
  "goSpaces = [[CHR 0x09], [CHR 0x0A], [CHR 0x0B], [CHR 0x0C], [CHR 0x0D], [CHR 0x20],
     [CHR 0xC2, CHR 0x85], [CHR 0xC2, CHR 0xA0], [CHR 0xE1, CHR 0x9A, CHR 0x80],
     [CHR 0xE2, CHR 0x80, CHR 0x80], [CHR 0xE2, CHR 0x80, CHR 0x81], [CHR 0xE2, CHR 0x80, CHR 0x82],
     [CHR 0xE2, CHR 0x80, CHR 0x83], [CHR 0xE2, CHR 0x80, CHR 0x84], [CHR 0xE2, CHR 0x80, CHR 0x85],
     [CHR 0xE2, CHR 0x80, CHR 0x86], [CHR 0xE2, CHR 0x80, CHR 0x87], [CHR 0xE2, CHR 0x80, CHR 0x88],
     [CHR 0xE2, CHR 0x80, CHR 0x89], [CHR 0xE2, CHR 0x80, CHR 0x8A], [CHR 0xE2, CHR 0x80, CHR 0xA8],
     [CHR 0xE2, CHR 0x80, CHR 0xA9], [CHR 0xE2, CHR 0x80, CHR 0xAF], [CHR 0xE2, CHR 0x81, CHR 0x9F],
     [CHR 0xE3, CHR 0x80, CHR 0x80]]"

fun trimPrefixes :: "nat \<Rightarrow> string list \<Rightarrow> string \<Rightarrow> string" where
  "trimPrefixes 0 ws s = s"
| "trimPrefixes (Suc n) ws s = (case List.find (\<lambda>w. prefix w s) ws of
     None \<Rightarrow> s | Some w \<Rightarrow> trimPrefixes n ws (drop (length w) s))"

definition trimLeftSpace :: "string \<Rightarrow> string" where
  "trimLeftSpace s = trimPrefixes (length s) goSpaces s"

definition trimRightSpace :: "string \<Rightarrow> string" where
  "trimRightSpace s = rev (trimPrefixes (length s) (map rev goSpaces) (rev s))"

definition trimSpace :: "string \<Rightarrow> string" where
  "trimSpace s = trimRightSpace (trimLeftSpace s)"

lemma trimPrefixes_suffix: "\<exists>u. s = u @ trimPrefixes n ws s"
proof (induction n arbitrary: s)
  case (Suc n)
  show ?case
  proof (cases "List.find (\<lambda>w. prefix w s) ws")
    case (Some w)
    obtain u where "drop (length w) s = u @ trimPrefixes n ws (drop (length w) s)"
      using Suc by blast
    then have "s = (take (length w) s @ u) @ trimPrefixes n ws (drop (length w) s)"
      by (metis append_assoc append_take_drop_id)
    with Some show ?thesis by (metis option.simps(5) trimPrefixes.simps(2))
  qed auto
qed auto

lemma set_trimPrefixes: "set (trimPrefixes n ws s) \<subseteq> set s"
  using trimPrefixes_suffix [of s n ws] by (metis set_append sup_ge2)

lemma set_trimSpace: "set (trimSpace s) \<subseteq> set s"
proof -
  have "set (trimSpace s) \<subseteq> set (trimLeftSpace s)"
    unfolding trimSpace_def trimRightSpace_def by (metis set_rev set_trimPrefixes)
  also have "\<dots> \<subseteq> set s"
    unfolding trimLeftSpace_def by (rule set_trimPrefixes)
  finally show ?thesis .
qed

text \<open>Enough fuel: once no encoding is a prefix, more rounds change nothing.\<close>

lemma trimPrefixes_done:
  assumes "\<forall>w \<in> set ws. w \<noteq> []" and "length s \<le> n"
  shows "List.find (\<lambda>w. prefix w (trimPrefixes n ws s)) ws = None"
  using assms(2)
proof (induction n arbitrary: s)
  case 0
  with assms(1) show ?case by (auto simp: find_None_iff)
next
  case (Suc n)
  show ?case
  proof (cases "List.find (\<lambda>w. prefix w s) ws")
    case None
    then show ?thesis by simp
  next
    case (Some w)
    then have "w \<in> set ws" "prefix w s" by (auto simp: find_Some_iff)
    with assms(1) have "0 < length w" "length w \<le> length s"
      by (auto dest: prefix_length_le)
    with Suc.prems have "length (drop (length w) s) \<le> n" unfolding length_drop by arith
    with Suc.IH Some show ?thesis by simp
  qed
qed

text \<open>Trimming twice is trimming once.\<close>

lemma trimPrefixes_none: "List.find (\<lambda>w. prefix w s) ws = None \<Longrightarrow> trimPrefixes n ws s = s"
  by (cases n) auto

lemma trimSpace_idem [simp]: "trimSpace (trimSpace s) = trimSpace s"
proof -
  let ?l = "trimLeftSpace s" and ?t = "trimSpace s"
  have ne: "\<forall>w \<in> set goSpaces. w \<noteq> []" "\<forall>w \<in> set (map rev goSpaces). w \<noteq> []" by (simp_all add: goSpaces_def)
  have left: "\<forall>w \<in> set goSpaces. \<not> prefix w ?l"
    using trimPrefixes_done [OF ne(1), of s "length s"] by (simp add: trimLeftSpace_def find_None_iff)
  obtain u where "rev ?l = u @ rev ?t"
    using trimPrefixes_suffix [of "rev ?l" "length ?l" "map rev goSpaces"] by (auto simp: trimSpace_def trimRightSpace_def)
  then have "?l = ?t @ rev u" by (metis rev_append rev_rev_ident)
  then have "\<forall>w \<in> set goSpaces. \<not> prefix w ?t" using left prefix_order.trans by (metis prefixI)
  then have "trimLeftSpace ?t = ?t" unfolding trimLeftSpace_def by (intro trimPrefixes_none) (simp add: find_None_iff)
  moreover have "List.find (\<lambda>w. prefix w (rev ?t)) (map rev goSpaces) = None"
    using trimPrefixes_done [OF ne(2), of "rev ?l" "length ?l"] by (simp add: trimSpace_def trimRightSpace_def)
  then have "trimRightSpace ?t = ?t" unfolding trimRightSpace_def by (simp add: trimPrefixes_none)
  ultimately show ?thesis by (simp add: trimSpace_def [of ?t])
qed

subsection \<open>Decimal numbers\<close>

fun digits :: "nat \<Rightarrow> string" where
  "digits n = (if n < 10 then [char_of (48 + n)] else digits (n div 10) @ [char_of (48 + n mod 10)])"

declare digits.simps [simp del]

definition isDigit :: "char \<Rightarrow> bool" where
  "isDigit c \<longleftrightarrow> 48 \<le> (of_char c :: nat) \<and> (of_char c :: nat) \<le> 57"

definition digitVal :: "char \<Rightarrow> nat" where
  "digitVal c = of_char c - 48"

definition decVal :: "string \<Rightarrow> nat" where
  "decVal s = foldl (\<lambda>n c. 10 * n + digitVal c) 0 s"

lemma of_char_digit [simp]: "(d::nat) < 10 \<Longrightarrow> (of_char (char_of (48 + d) :: char) :: nat) = 48 + d"
  by (simp add: of_char_of)

lemma digitVal_digit [simp]: "d < 10 \<Longrightarrow> digitVal (char_of (48 + d)) = d"
  by (simp add: digitVal_def)

lemma isDigit_digit [simp]: "(d::nat) < 10 \<Longrightarrow> isDigit (char_of (48 + d))"
  by (simp add: isDigit_def)

lemma decVal_append: "decVal (s @ [c]) = 10 * decVal s + digitVal c"
  by (simp add: decVal_def)

lemma decVal_digits [simp]: "decVal (digits n) = n"
proof (induction n rule: digits.induct)
  case (1 n)
  show ?case
  proof (cases "n < 10")
    case True
    then show ?thesis by (simp add: digits.simps [of n] decVal_def)
  next
    case False
    with 1 have "decVal (digits (n div 10)) = n div 10" by simp
    with False show ?thesis by (simp add: digits.simps [of n] decVal_append)
  qed
qed

lemma digits_isDigit: "c \<in> set (digits n) \<Longrightarrow> isDigit c"
proof (induction n rule: digits.induct)
  case (1 n)
  then show ?case by (subst (asm) (2) digits.simps) (auto split: if_splits)
qed

lemma digits_nonempty [simp]: "digits n \<noteq> []"
  by (subst digits.simps) simp

lemma decVal_pad: "decVal (replicate k (CHR ''0'') @ s) = decVal s"
proof -
  have "foldl (\<lambda>n c. 10 * n + digitVal c) 0 (replicate k (CHR ''0'')) = 0"
    by (induction k) (simp_all add: digitVal_def)
  then show ?thesis by (simp add: decVal_def)
qed

text \<open>\<open>padDec w n\<close>: decimal with at least \<open>w\<close> digits, zeros in front.\<close>

definition padDec :: "nat \<Rightarrow> nat \<Rightarrow> string" where
  "padDec w n = replicate (w - length (digits n)) (CHR ''0'') @ digits n"

lemma decVal_padDec [simp]: "decVal (padDec w n) = n"
  by (simp add: padDec_def decVal_pad)

lemma padDec_inj: "padDec w m = padDec w n \<longleftrightarrow> m = n"
  by (metis decVal_padDec)

lemma length_digits_2: "n < 100 \<Longrightarrow> length (digits n) \<le> 2"
  by (auto simp: digits.simps [of n] digits.simps [of "n div 10"])

lemma length_padDec_2: "n < 100 \<Longrightarrow> length (padDec 2 n) = 2"
  using length_digits_2 [of n] by (simp add: padDec_def)

text \<open>\<open>strconv.Itoa\<close> and \<open>strconv.Atoi\<close>: an optional sign, then digits, within 64 bits.\<close>

definition itoa :: "int \<Rightarrow> string" where
  "itoa i = (if i < 0 then CHR ''-'' # digits (nat (- i)) else digits (nat i))"

definition atoi :: "string \<Rightarrow> int option" where
  "atoi s = (let neg = (s \<noteq> [] \<and> hd s = CHR ''-'');
                 ds = (if s \<noteq> [] \<and> (hd s = CHR ''-'' \<or> hd s = CHR ''+'') then tl s else s);
                 v = int (decVal ds)
     in if ds = [] \<or> \<not> list_all isDigit ds then None
        else if neg then (if v \<le> 2 ^ 63 then Some (- v) else None)
        else (if v < 2 ^ 63 then Some v else None))"

lemma digits_hd_sign: "hd (digits n) \<noteq> CHR ''-''" "hd (digits n) \<noteq> CHR ''+''"
  using digits_isDigit [of "hd (digits n)" n] by (auto simp: isDigit_def)

lemma atoi_itoa: "- (2 ^ 63) \<le> i \<Longrightarrow> i < 2 ^ 63 \<Longrightarrow> atoi (itoa i) = Some i"
  using digits_hd_sign [of "nat i"] digits_hd_sign [of "nat (- i)"]
  by (auto simp: atoi_def itoa_def Let_def list_all_iff dest: digits_isDigit)

text \<open>\<open>strconv.ParseUint(s, 10, 64)\<close>: digits only, within 64 bits.\<close>

definition parseUint64 :: "string \<Rightarrow> nat option" where
  "parseUint64 s = (if s = [] \<or> \<not> list_all isDigit s \<or> 2 ^ 64 \<le> decVal s then None else Some (decVal s))"

lemma parseUint64_digits: "n < 2 ^ 64 \<Longrightarrow> parseUint64 (digits n) = Some n"
  by (auto simp: parseUint64_def list_all_iff dest: digits_isDigit)

subsection \<open>Sorting\<close>

text \<open>\<open>sort.Strings\<close>, \<open>slices.IsSorted\<close> and \<open>slices.Compact\<close>.\<close>

definition sortStrings :: "string list \<Rightarrow> string list" where
  "sortStrings xs = sort xs"

definition isSortedStrings :: "string list \<Rightarrow> bool" where
  "isSortedStrings xs = sorted xs"

definition compact :: "'a list \<Rightarrow> 'a list" where
  "compact xs = remdups_adj xs"

lemma set_sortStrings [simp]: "set (sortStrings xs) = set xs"
  by (simp add: sortStrings_def)

lemma sorted_sortStrings [simp]: "sorted (sortStrings xs)"
  by (simp add: sortStrings_def)

lemma sortStrings_id: "sorted xs \<Longrightarrow> sortStrings xs = xs"
  by (simp add: sortStrings_def sorted_sort_id)

lemma distinct_sortStrings [simp]: "distinct (sortStrings xs) = distinct xs"
  by (simp add: sortStrings_def)

lemma remdups_adj_length_distinct:
  "sorted xs \<Longrightarrow> length (remdups_adj xs) = length xs \<longleftrightarrow> distinct xs"
proof (induction xs rule: remdups_adj.induct)
  case (3 x y xs)
  show ?case
  proof (cases "x = y")
    case True
    have "length (remdups_adj (x # xs)) \<le> length (x # xs)"
      by (rule remdups_adj_length)
    with True show ?thesis by simp
  next
    case False
    with 3 show ?thesis by fastforce
  qed
qed auto

lemma compact_distinct: "sorted xs \<Longrightarrow> length (compact xs) = length xs \<longleftrightarrow> distinct xs"
  by (simp add: compact_def remdups_adj_length_distinct)

subsection \<open>UTF-8 and UTF-16\<close>

text \<open>
  \<open>runeWidth\<close> is the number of bytes of the first rune, 0 when the bytes there are not valid
  UTF-8 (Go's decoder then yields the replacement rune for one byte).
\<close>

definition contByte :: "nat \<Rightarrow> bool" where
  "contByte b \<longleftrightarrow> 0x80 \<le> b \<and> b \<le> 0xBF"

fun runeWidth :: "nat list \<Rightarrow> nat" where
  "runeWidth [] = 0"
| "runeWidth (b # bs) =
     (if b < 0x80 then 1
      else if 0xC2 \<le> b \<and> b \<le> 0xDF then
        (case bs of b1 # _ \<Rightarrow> if contByte b1 then 2 else 0 | _ \<Rightarrow> 0)
      else if 0xE0 \<le> b \<and> b \<le> 0xEF then
        (case bs of b1 # b2 # _ \<Rightarrow>
           if contByte b1 \<and> contByte b2 \<and> (b = 0xE0 \<longrightarrow> 0xA0 \<le> b1) \<and> (b = 0xED \<longrightarrow> b1 \<le> 0x9F)
           then 3 else 0
         | _ \<Rightarrow> 0)
      else if 0xF0 \<le> b \<and> b \<le> 0xF4 then
        (case bs of b1 # b2 # b3 # _ \<Rightarrow>
           if contByte b1 \<and> contByte b2 \<and> contByte b3 \<and> (b = 0xF0 \<longrightarrow> 0x90 \<le> b1) \<and> (b = 0xF4 \<longrightarrow> b1 \<le> 0x8F)
           then 4 else 0
         | _ \<Rightarrow> 0)
      else 0)"

declare runeWidth.simps [simp del]

function utf16Units :: "nat list \<Rightarrow> nat" where
  "utf16Units [] = 0"
| "utf16Units (b # bs) = (let w = runeWidth (b # bs) in
     (if w = 4 then 2 else 1) + utf16Units (drop (max 1 w - 1) bs))"
  by pat_completeness auto
termination
  by (relation "measure length") auto

text \<open>\<open>len(utf16.Encode([]rune(s)))\<close>, and \<open>utf8.ValidString\<close>.\<close>

definition utf16Length :: "string \<Rightarrow> nat" where
  "utf16Length s = utf16Units (map of_char s)"

function validUtf8Bytes :: "nat list \<Rightarrow> bool" where
  "validUtf8Bytes [] = True"
| "validUtf8Bytes (b # bs) = (let w = runeWidth (b # bs) in
     0 < w \<and> validUtf8Bytes (drop (max 1 w - 1) bs))"
  by pat_completeness auto
termination
  by (relation "measure length") auto

definition validUtf8 :: "string \<Rightarrow> bool" where
  "validUtf8 s = validUtf8Bytes (map of_char s)"

lemma utf16Units_le: "utf16Units bs \<le> 2 * length bs"
proof (induction bs rule: utf16Units.induct)
  case (2 b bs)
  let ?w = "runeWidth (b # bs)"
  have "utf16Units (drop (max 1 ?w - 1) bs) \<le> 2 * length (drop (max 1 ?w - 1) bs)"
    using 2 by simp
  also have "\<dots> \<le> 2 * length bs" by simp
  finally show ?case by (cases "?w = 4") (simp_all add: Let_def)
qed simp

end
