(* ===== verification/GoTime.thy ===== *)
theory GoTime
  imports GoText
begin

text \<open>
  Go's \<open>time.Time\<close> in UTC: nanoseconds since the zero time, 0001-01-01T00:00:00Z.  Durations
  are signed nanoseconds.  \<open>signedTime\<close> is \<open>identity.go\<close>'s rendering of a signed timestamp:
  RFC 3339, whole seconds, proleptic Gregorian calendar.
\<close>

type_synonym gotime = nat

definition second :: nat where "second = 1000000000"
definition minute :: nat where "minute = 60 * second"
definition hour :: nat where "hour = 60 * minute"

lemmas time_units = second_def minute_def hour_def

text \<open>\<open>t.Truncate(time.Second)\<close>, \<open>t.IsZero()\<close>, \<open>t.Sub(u)\<close> and \<open>t.Unix()\<close>.\<close>

definition truncateSecond :: "gotime \<Rightarrow> gotime" where
  "truncateSecond t = t - t mod second"

definition isZeroTime :: "gotime \<Rightarrow> bool" where
  "isZeroTime t \<longleftrightarrow> t = 0"

definition timeSub :: "gotime \<Rightarrow> gotime \<Rightarrow> int" where
  "timeSub t u = int t - int u"

definition wholeSecond :: "gotime \<Rightarrow> bool" where
  "wholeSecond t \<longleftrightarrow> t mod second = 0"

lemma wholeSecond_truncate [simp]: "wholeSecond (truncateSecond t)"
  by (simp add: wholeSecond_def truncateSecond_def minus_mod_eq_mult_div)

lemma truncateSecond_le: "truncateSecond t \<le> t"
  by (simp add: truncateSecond_def)

lemma truncateSecond_gt: "t < truncateSecond t + second"
proof -
  have "t mod second < second" by (simp add: second_def)
  then show ?thesis unfolding truncateSecond_def by linarith
qed

lemma truncateSecond_id: "wholeSecond t \<Longrightarrow> truncateSecond t = t"
  by (simp add: wholeSecond_def truncateSecond_def)

lemma truncate_truncate [simp]: "truncateSecond (truncateSecond t) = truncateSecond t"
  by (rule truncateSecond_id) simp

text \<open>Seconds from the zero time to the Unix epoch; \<open>unixOrZero\<close> and \<open>timeFromUnix\<close> of
  \<open>protowire.go\<close> carry a time as a 32-bit count of seconds, 0 for the zero time.\<close>

definition unixEpoch :: nat where "unixEpoch = 62135596800"

definition unixOrZero :: "gotime \<Rightarrow> nat" where
  "unixOrZero t = (if isZeroTime t then 0
     else nat ((int (t div second) - int unixEpoch) mod 2 ^ 32))"

definition timeFromUnix :: "nat \<Rightarrow> gotime" where
  "timeFromUnix s = (if s = 0 then 0 else (unixEpoch + s) * second)"

lemma unixOrZero_timeFromUnix: "s < 2 ^ 32 \<Longrightarrow> unixOrZero (timeFromUnix s) = s"
  by (simp add: unixOrZero_def timeFromUnix_def isZeroTime_def second_def unixEpoch_def
      nat_mod_distrib)

subsection \<open>The calendar\<close>

definition leapYear :: "nat \<Rightarrow> bool" where
  "leapYear y \<longleftrightarrow> y mod 4 = 0 \<and> (y mod 100 \<noteq> 0 \<or> y mod 400 = 0)"

definition yearDays :: "nat \<Rightarrow> nat" where
  "yearDays y = (if leapYear y then 366 else 365)"

definition monthDays :: "nat \<Rightarrow> nat list" where
  "monthDays y = [31, if leapYear y then 29 else 28, 31, 30, 31, 30, 31, 31, 30, 31, 30, 31]"

lemma yearDays_pos [simp]: "0 < yearDays y"
  by (simp add: yearDays_def)

function civilYear :: "nat \<Rightarrow> nat \<Rightarrow> nat \<times> nat" where
  "civilYear y d = (if d < yearDays y then (y, d) else civilYear (Suc y) (d - yearDays y))"
  by pat_completeness auto
termination
  by (relation "measure snd") (auto simp: yearDays_def)

declare civilYear.simps [simp del]

fun civilMonth :: "nat list \<Rightarrow> nat \<Rightarrow> nat \<Rightarrow> nat \<times> nat" where
  "civilMonth [] m d = (m, d)"
| "civilMonth (l # ls) m d = (if d < l then (m, d) else civilMonth ls (Suc m) (d - l))"

lemma civilYear_back:
  "civilYear y d = (y', d') \<Longrightarrow> y \<le> y' \<and> d = sum yearDays {y..<y'} + d' \<and> d' < yearDays y'"
proof (induction y d rule: civilYear.induct)
  case (1 y d)
  show ?case
  proof (cases "d < yearDays y")
    case True
    with 1 show ?thesis by (simp add: civilYear.simps [of y d])
  next
    case False
    with 1 have "Suc y \<le> y' \<and> d - yearDays y = sum yearDays {Suc y..<y'} + d' \<and> d' < yearDays y'"
      by (simp add: civilYear.simps [of y d])
    with False show ?thesis
      by (auto simp: sum.atLeast_Suc_lessThan)
  qed
qed

lemma civilYear_inj: "civilYear y d = civilYear y e \<Longrightarrow> d = e"
  by (metis civilYear_back prod.exhaust)

lemma sum_monthDays: "sum_list (monthDays y) = yearDays y"
  by (simp add: monthDays_def yearDays_def)

lemma civilMonth_back:
  "civilMonth ls m d = (m', d') \<Longrightarrow> m \<le> m' \<and> d = sum_list (take (m' - m) ls) + d' \<and> m' \<le> m + length ls"
proof (induction ls m d rule: civilMonth.induct)
  case (2 l ls m d)
  show ?case
  proof (cases "d < l")
    case True
    with 2 show ?thesis by simp
  next
    case False
    with 2 have h: "Suc m \<le> m' \<and> d - l = sum_list (take (m' - Suc m) ls) + d' \<and> m' \<le> Suc m + length ls"
      by simp
    then obtain k where "m' = Suc m + k" using le_Suc_ex by blast
    with False h show ?thesis by (auto simp: Suc_diff_le)
  qed
qed simp

lemma civilMonth_inj: "civilMonth ls m d = civilMonth ls m e \<Longrightarrow> d = e"
  by (metis civilMonth_back prod.exhaust)

lemma civilMonth_bound:
  "civilMonth ls m d = (m', d') \<Longrightarrow> d < sum_list ls \<Longrightarrow>
     m' < m + length ls \<and> d' < ls ! (m' - m)"
proof (induction ls m d rule: civilMonth.induct)
  case (2 l ls m d)
  show ?case
  proof (cases "d < l")
    case True
    with 2 show ?thesis by simp
  next
    case False
    with 2 have h: "m' < Suc m + length ls \<and> d' < ls ! (m' - Suc m)"
      and r: "civilMonth ls (Suc m) (d - l) = (m', d')"
      by simp_all
    from r have "Suc m \<le> m'" using civilMonth_back by blast
    then obtain k where "m' = Suc m + k" using le_Suc_ex by blast
    with h show ?thesis by (simp add: Suc_diff_le)
  qed
qed simp

text \<open>Year, month and day of the month of a day counted from 0001-01-01.\<close>

definition civil :: "nat \<Rightarrow> nat \<times> nat \<times> nat" where
  "civil d = (let (y, yd) = civilYear 1 d; (m, md) = civilMonth (monthDays y) 1 yd in (y, m, Suc md))"

lemma civil_inj: "civil d = civil e \<Longrightarrow> d = e"
  by (auto simp: civil_def Let_def split: prod.splits dest!: civilMonth_inj)
     (metis civilYear_inj civilMonth_inj)

lemma civil_bounds:
  assumes "civil d = (y, m, k)"
  shows "1 \<le> m \<and> m \<le> 12 \<and> 1 \<le> k \<and> k \<le> 31"
proof -
  obtain yd md where y: "civilYear 1 d = (y, yd)"
    and m: "civilMonth (monthDays y) 1 yd = (m, md)" and k: "k = Suc md"
    using assms by (auto simp: civil_def Let_def split: prod.splits)
  from y have "yd < sum_list (monthDays y)"
    by (auto simp: sum_monthDays dest: civilYear_back)
  with civilMonth_bound [OF m] civilMonth_back [OF m] show ?thesis
    by (auto simp: k monthDays_def nth_Cons' split: if_splits)
qed

text \<open>\<open>signedTime\<close>: \<open>t.UTC().Format(time.RFC3339)\<close>.\<close>

definition signedTime :: "gotime \<Rightarrow> string" where
  "signedTime t = (let s = t div second; (y, m, d) = civil (s div 86400); r = s mod 86400 in
     padDec 4 y @ ''-'' @ padDec 2 m @ ''-'' @ padDec 2 d @ ''T'' @
     padDec 2 (r div 3600) @ '':'' @ padDec 2 (r mod 3600 div 60) @ '':'' @ padDec 2 (r mod 60) @ ''Z'')"

lemma padDec_nonempty [simp]: "padDec w n \<noteq> []"
  by (simp add: padDec_def)

lemma signedTime_nonempty [simp]: "signedTime t \<noteq> ''''"
  by (simp add: signedTime_def Let_def split: prod.splits)

lemma append_inj_tail:
  "length u = length v \<Longrightarrow> x @ u = y @ v \<longleftrightarrow> x = y \<and> (u::'a list) = v"
  by auto

lemma seconds_split:
  assumes "(r::nat) div 3600 = s div 3600" "r mod 3600 div 60 = s mod 3600 div 60" "r mod 60 = s mod 60"
  shows "r = s"
proof -
  have "r mod 3600 mod 60 = s mod 3600 mod 60"
    using assms(3) by (simp add: mod_mod_cancel)
  with assms(2) have "r mod 3600 = s mod 3600" by (metis div_mult_mod_eq)
  with assms(1) show ?thesis by (metis div_mult_mod_eq)
qed

lemma signedTime_seconds:
  assumes eq: "signedTime t = signedTime u"
  shows "t div second = u div second"
proof -
  define s s' where "s = t div second" and "s' = u div second"
  obtain y m d where c: "civil (s div 86400) = (y, m, d)" by (metis prod_cases3)
  obtain y' m' d' where c': "civil (s' div 86400) = (y', m', d')" by (metis prod_cases3)
  define r r' where "r = s mod 86400" and "r' = s' mod 86400"
  have b: "m < 100" "d < 100" "m' < 100" "d' < 100"
    using civil_bounds [OF c] civil_bounds [OF c'] by auto
  have "r < 86400" "r' < 86400" by (simp_all add: r_def r'_def)
  then have t: "r div 3600 < 100" "r' div 3600 < 100" "r mod 3600 div 60 < 100" "r' mod 3600 div 60 < 100"
      "r mod 60 < 100" "r' mod 60 < 100"
    by (simp_all add: less_mult_imp_div_less)
  note len = length_padDec_2 [OF b(1)] length_padDec_2 [OF b(2)] length_padDec_2 [OF b(3)]
    length_padDec_2 [OF b(4)] length_padDec_2 [OF t(1)] length_padDec_2 [OF t(2)]
    length_padDec_2 [OF t(3)] length_padDec_2 [OF t(4)] length_padDec_2 [OF t(5)]
    length_padDec_2 [OF t(6)]
  from eq have "civil (s div 86400) = civil (s' div 86400) \<and> r div 3600 = r' div 3600 \<and>
      r mod 3600 div 60 = r' mod 3600 div 60 \<and> r mod 60 = r' mod 60"
    by (simp add: signedTime_def Let_def s_def [symmetric] s'_def [symmetric] c c'
        r_def [symmetric] r'_def [symmetric] append_inj_tail len padDec_inj)
  then have "s div 86400 = s' div 86400" and "r = r'"
    by (auto dest: civil_inj intro: seconds_split)
  then have "s = s'"
    unfolding r_def r'_def by (metis div_mult_mod_eq)
  then show ?thesis by (simp add: s_def s'_def)
qed

lemma signedTime_inj:
  "wholeSecond t \<Longrightarrow> wholeSecond u \<Longrightarrow> signedTime t = signedTime u \<Longrightarrow> t = u"
  by (drule signedTime_seconds) (metis add_0_right div_mult_mod_eq wholeSecond_def)

end
