(* ===== verification/Identity.thy ===== *)
theory Identity
  imports GoText
begin

text \<open>
  Identity ids, roles and mention claims: \<open>identity_id.go\<close>, \<open>roles.go\<close>, \<open>mentions.go\<close>, the reed
  references of \<open>services.go\<close> and the small validators of \<open>utils.go\<close>, \<open>crypto.go\<close> and
  \<open>vouches.go\<close>.  A user is \<open>userID@serverID\<close>; a key or reed of theirs adds \<open>/entityID\<close>.
\<close>

subsection \<open>Identity ids\<close>

definition idSeparator :: char where "idSeparator = CHR ''@''"
definition idAlphabet :: string where
  "idAlphabet = ''abcdefghijklmnopqrstuvwxyzABCDEFGHIJKLMNOPQRSTUVWXYZ0123456789''"
definition idLength :: nat where "idLength = 8"
definition rootUserID :: string where "rootUserID = ''1''"

lemmas [const_defs] = idSeparator_def idAlphabet_def idLength_def rootUserID_def

text \<open>The variadic \<open>canonicalID\<close>: \<open>None\<close> is its panic.  Every call passes at most one entity.\<close>

definition canonicalIDs :: "string \<Rightarrow> string \<Rightarrow> string list \<Rightarrow> string option" where
  "canonicalIDs serverID userID entityID =
     (if 1 < length entityID then None
      else let i = userID @ [idSeparator] @ serverID in
        Some (if length entityID = 1 \<and> hd entityID \<noteq> '''' then i @ ''/'' @ hd entityID else i))"

definition canonicalID :: "string \<Rightarrow> string \<Rightarrow> string" where
  "canonicalID serverID userID = userID @ idSeparator # serverID"

lemma canonicalIDs_simps:
  "canonicalIDs s u [] = Some (canonicalID s u)"
  "canonicalIDs s u [e] = Some (if e = '''' then canonicalID s u else canonicalID s u @ CHR ''/'' # e)"
  by (simp_all add: canonicalIDs_def canonicalID_def Let_def)

definition parseIdentityID :: "string \<Rightarrow> (string \<times> string) option" where
  "parseIdentityID s = (case splitLast idSeparator s of
     None \<Rightarrow> None
   | Some (u, v) \<Rightarrow> if u = '''' \<or> v = '''' then None else Some (u, v))"

definition parseKeyFingerprint :: "string \<Rightarrow> (string \<times> string \<times> string) option" where
  "parseKeyFingerprint s = (case splitLast (CHR ''/'') s of
     None \<Rightarrow> None
   | Some (i, f) \<Rightarrow> if f = '''' then None
       else (case parseIdentityID i of None \<Rightarrow> None | Some (u, v) \<Rightarrow> Some (u, v, f)))"

definition appendEntity :: "string \<Rightarrow> string \<Rightarrow> string" where
  "appendEntity userIdentity entityID = userIdentity @ ''/'' @ entityID"

definition authorOf :: "string \<Rightarrow> string option" where
  "authorOf s = (case parseKeyFingerprint s of None \<Rightarrow> None | Some (u, v, _) \<Rightarrow> Some (canonicalID v u))"

text \<open>The methods \<open>UserID()\<close> and \<open>ServerID()\<close> panic on a malformed id: \<open>None\<close>.\<close>

definition identityUserID :: "string \<Rightarrow> string option" where
  "identityUserID i = map_option fst (parseIdentityID i)"

definition identityServerID :: "string \<Rightarrow> string option" where
  "identityServerID i = map_option snd (parseIdentityID i)"

definition isValidCryptoID :: "string \<Rightarrow> bool" where
  "isValidCryptoID i \<longleftrightarrow> length i = idLength \<and> list_all (\<lambda>c. c \<in> set idAlphabet) i"

lemma parseIdentityID_canonicalID:
  assumes "u \<noteq> ''''" "v \<noteq> ''''" "idSeparator \<notin> set v"
  shows "parseIdentityID (canonicalID v u) = Some (u, v)"
  using assms by (simp add: parseIdentityID_def canonicalID_def splitLast_append)

lemma parseIdentityID_Some:
  "parseIdentityID s = Some (u, v) \<Longrightarrow>
     s = canonicalID v u \<and> u \<noteq> '''' \<and> v \<noteq> '''' \<and> idSeparator \<notin> set v"
  by (auto simp: parseIdentityID_def canonicalID_def dest!: splitLast_Some
      split: option.splits if_splits)

lemma parseKeyFingerprint_Some:
  assumes "parseKeyFingerprint s = Some (u, v, f)"
  shows "s = appendEntity (canonicalID v u) f \<and> CHR ''/'' \<notin> set f \<and> f \<noteq> '''' \<and>
     parseIdentityID (canonicalID v u) = Some (u, v)"
proof -
  obtain i where i: "splitLast (CHR ''/'') s = Some (i, f)" and f: "f \<noteq> ''''"
    and p: "parseIdentityID i = Some (u, v)"
    using assms by (auto simp: parseKeyFingerprint_def split: option.splits if_splits)
  have "i = canonicalID v u" using parseIdentityID_Some [OF p] by simp
  with splitLast_Some [OF i] f p show ?thesis by (simp add: appendEntity_def)
qed

lemma parseKeyFingerprint_appendEntity:
  assumes "u \<noteq> ''''" "v \<noteq> ''''" "idSeparator \<notin> set v" "f \<noteq> ''''" "CHR ''/'' \<notin> set f"
  shows "parseKeyFingerprint (appendEntity (canonicalID v u) f) = Some (u, v, f)"
  using assms
  by (simp add: parseKeyFingerprint_def appendEntity_def splitLast_append parseIdentityID_canonicalID)

lemma authorOf_Some:
  "authorOf s = Some a \<Longrightarrow> \<exists>f. s = appendEntity a f \<and> f \<noteq> '''' \<and> CHR ''/'' \<notin> set f"
  by (auto simp: authorOf_def dest!: parseKeyFingerprint_Some split: option.splits)

lemma appendEntity_inj:
  assumes "CHR ''/'' \<notin> set f" "CHR ''/'' \<notin> set g" "appendEntity a f = appendEntity b g"
  shows "a = b \<and> f = g"
proof -
  have "splitLast (CHR ''/'') (a @ CHR ''/'' # f) = Some (a, f)"
    "splitLast (CHR ''/'') (b @ CHR ''/'' # g) = Some (b, g)"
    using assms(1,2) by (simp_all add: splitLast_append)
  moreover have "a @ CHR ''/'' # f = b @ CHR ''/'' # g"
    using assms(3) by (simp only: appendEntity_def append_Cons append_Nil)
  ultimately have "Some (a, f) = Some (b, g)" by metis
  then show ?thesis by (simp only: option.inject prod.inject)
qed

lemma alphabet_no_separator: "c \<in> set idAlphabet \<Longrightarrow> c \<noteq> idSeparator \<and> c \<noteq> CHR ''/'' \<and> c \<noteq> CHR ''!''"
  by (auto simp: idAlphabet_def idSeparator_def)

lemma isValidCryptoID_no_separator:
  assumes "isValidCryptoID i"
  shows "idSeparator \<notin> set i \<and> CHR ''/'' \<notin> set i \<and> i \<noteq> ''''"
proof -
  have h: "length i = idLength \<and> (\<forall>c \<in> set i. c \<in> set idAlphabet)"
    using assms unfolding isValidCryptoID_def list_all_iff .
  then have "i \<noteq> ''''" by (auto simp: idLength_def)
  moreover from h have "\<forall>c \<in> set i. c \<in> set idAlphabet" by blast
  ultimately show ?thesis using alphabet_no_separator by blast
qed

subsection \<open>Reed references\<close>

record reedRef =
  ref_author :: string
  ref_server :: string
  ref_reed :: string

definition canonicalAuthorID :: "reedRef \<Rightarrow> string" where
  "canonicalAuthorID r = canonicalID (ref_server r) (ref_author r)"

definition parseReedRef :: "string \<Rightarrow> reedRef option" where
  "parseReedRef raw = (case parseKeyFingerprint (trimSpace raw) of
     None \<Rightarrow> None
   | Some (u, v, e) \<Rightarrow> Some \<lparr>ref_author = u, ref_server = v, ref_reed = e\<rparr>)"

definition formatReedRef :: "reedRef \<Rightarrow> string" where
  "formatReedRef r = the (canonicalIDs (ref_server r) (ref_author r) [ref_reed r])"

lemma formatReedRef_eq:
  "formatReedRef r = (if ref_reed r = '''' then canonicalAuthorID r
     else appendEntity (canonicalAuthorID r) (ref_reed r))"
  by (simp add: formatReedRef_def canonicalIDs_simps canonicalAuthorID_def appendEntity_def)

lemma formatReedRef_parseReedRef: "parseReedRef s = Some r \<Longrightarrow> formatReedRef r = trimSpace s"
  by (auto simp: parseReedRef_def formatReedRef_eq canonicalAuthorID_def
      dest!: parseKeyFingerprint_Some split: option.splits)

subsection \<open>Keys and peers\<close>

definition requesterKeyBelongsTo :: "string \<Rightarrow> string \<Rightarrow> string \<Rightarrow> bool" where
  "requesterKeyBelongsTo keyID userID peerServerID = (case parseKeyFingerprint keyID of
     None \<Rightarrow> False
   | Some (owner, serverID, _) \<Rightarrow> serverID = peerServerID \<and> canonicalID serverID owner = userID)"

definition keyBelongsTo :: "string \<Rightarrow> string \<Rightarrow> bool" where
  "keyBelongsTo keyID userID = prefix (userID @ ''/'') keyID"

text \<open>\<open>foreignServerOf\<close>: the peer an id names, \<open>None\<close> when it is local or malformed.\<close>

definition foreignServerOf :: "string \<Rightarrow> string \<Rightarrow> string option" where
  "foreignServerOf self i =
     (let s = (case parseKeyFingerprint i of
                 Some (_, v, _) \<Rightarrow> Some v
               | None \<Rightarrow> map_option snd (parseIdentityID i))
      in case s of None \<Rightarrow> None | Some v \<Rightarrow> if v = self then None else Some v)"

lemma requesterKeyBelongsTo_owner:
  "requesterKeyBelongsTo k u p \<Longrightarrow> authorOf k = Some u \<and> keyBelongsTo k u"
  by (auto simp: requesterKeyBelongsTo_def authorOf_def keyBelongsTo_def appendEntity_def
      dest!: parseKeyFingerprint_Some split: option.splits)

subsection \<open>Roles\<close>

definition roleRoot :: string where "roleRoot = ''root''"
definition roleAdmin :: string where "roleAdmin = ''admin''"
definition roleUser :: string where "roleUser = ''user''"

lemmas [const_defs] = roleRoot_def roleAdmin_def roleUser_def

definition isAdmin :: "string \<Rightarrow> bool" where
  "isAdmin role \<longleftrightarrow> role = roleRoot \<or> role = roleAdmin"

definition isRootIdentity :: "string \<Rightarrow> string \<Rightarrow> bool" where
  "isRootIdentity userID serverID \<longleftrightarrow>
     (if userID = canonicalID serverID rootUserID then True else userID = rootUserID)"

definition isRoot :: "string \<Rightarrow> string \<Rightarrow> string \<Rightarrow> bool" where
  "isRoot userID role serverID \<longleftrightarrow> isRootIdentity userID serverID \<and> role = roleRoot"

definition roleForSignup :: "string \<Rightarrow> string \<Rightarrow> string" where
  "roleForSignup userID serverID = (if isRootIdentity userID serverID then roleRoot else roleUser)"

definition roleFromInviteGrant :: "string \<Rightarrow> string" where
  "roleFromInviteGrant grantedRole = (if grantedRole = roleAdmin then roleAdmin else roleUser)"

definition signupRole :: "string \<Rightarrow> string \<Rightarrow> bool \<Rightarrow> string \<Rightarrow> string" where
  "signupRole userID inviteGrantedRole hasInvite serverID =
     (if isRootIdentity userID serverID then roleRoot
      else if hasInvite then roleFromInviteGrant inviteGrantedRole
      else roleUser)"

datatype roleError = AdminRequired | InvalidRole

definition requireAdmin :: "string \<Rightarrow> roleError option" where
  "requireAdmin role = (if \<not> isAdmin role then Some AdminRequired else None)"

definition validateProfileRole :: "string \<Rightarrow> string \<Rightarrow> string \<Rightarrow> roleError option" where
  "validateProfileRole userID role0 serverID = (let role = trimSpace role0 in
     if role \<notin> {roleRoot, roleAdmin, roleUser} then Some InvalidRole
     else if isRootIdentity userID serverID
       then (if role \<noteq> roleRoot then Some InvalidRole else None)
     else if role = roleRoot then Some InvalidRole
     else None)"

lemma trimSpace_role [simp]:
  "trimSpace roleRoot = roleRoot" "trimSpace roleAdmin = roleAdmin" "trimSpace roleUser = roleUser"
  by (simp_all add: trimSpace_def trimLeftSpace_def trimRightSpace_def goSpaces_def const_defs)

lemma role_distinct [simp]:
  "roleRoot \<noteq> roleAdmin" "roleRoot \<noteq> roleUser" "roleAdmin \<noteq> roleUser"
  "roleAdmin \<noteq> roleRoot" "roleUser \<noteq> roleRoot" "roleUser \<noteq> roleAdmin"
  by (simp_all add: const_defs)

lemma signupRole_root: "signupRole u g h s = roleRoot \<longleftrightarrow> isRootIdentity u s"
  by (auto simp: signupRole_def roleFromInviteGrant_def)

lemma signupRole_valid: "validateProfileRole u (signupRole u g h s) s = None"
  by (auto simp: validateProfileRole_def signupRole_def roleFromInviteGrant_def Let_def)

lemma roleForSignup_valid: "validateProfileRole u (roleForSignup u s) s = None"
  by (auto simp: validateProfileRole_def roleForSignup_def Let_def)

lemma isRootIdentity_foreign:
  assumes p: "parseIdentityID u = Some (b, v)" and "v \<noteq> s" and s: "idSeparator \<notin> set s"
  shows "\<not> isRootIdentity u s"
proof -
  have u: "u = b @ idSeparator # v" using parseIdentityID_Some [OF p] by (simp add: canonicalID_def)
  then have "u \<noteq> rootUserID"
    by (auto simp: rootUserID_def idSeparator_def append_eq_Cons_conv)
  moreover have "splitLast idSeparator (canonicalID s rootUserID) = Some (rootUserID, s)"
    unfolding canonicalID_def using s by (rule splitLast_append)
  then have "parseIdentityID (canonicalID s rootUserID) \<noteq> Some (b, v)"
    using \<open>v \<noteq> s\<close> by (simp add: parseIdentityID_def)
  ultimately show ?thesis using p by (auto simp: isRootIdentity_def)
qed

subsection \<open>Mention claims\<close>

definition adminsHandle :: string where "adminsHandle = ''!admins''"

lemmas [const_defs] = adminsHandle_def

definition adminsMentionServer :: "string \<Rightarrow> string \<times> bool" where
  "adminsMentionServer claim = (let (handle, serverID, ok) = cut idSeparator (trimSpace claim) in
     (serverID, ok \<and> handle = adminsHandle \<and> serverID \<noteq> ''''))"

text \<open>The loop of \<open>ValidateMentionClaims\<close>: \<open>seen\<close> holds what \<open>out\<close> holds, and an empty result is nil.\<close>

fun mentionLoop :: "string \<Rightarrow> string list \<Rightarrow> reedRef list \<Rightarrow> reedRef list \<Rightarrow> reedRef list" where
  "mentionLoop authorID [] seen out = out"
| "mentionLoop authorID (claim # claims) seen out =
     (let (userID, serverID, ok) = cut idSeparator (trimSpace claim);
          ref = \<lparr>ref_author = userID, ref_server = serverID, ref_reed = ''''\<rparr>
      in if \<not> ok \<or> userID = '''' \<or> serverID = '''' then mentionLoop authorID claims seen out
         else if canonicalAuthorID ref = authorID then mentionLoop authorID claims seen out
         else if ref \<in> set seen then mentionLoop authorID claims seen out
         else mentionLoop authorID claims (ref # seen) (out @ [ref]))"

definition validateMentionClaims :: "string list \<Rightarrow> string \<Rightarrow> reedRef list" where
  "validateMentionClaims claims authorID = mentionLoop authorID claims [] []"

definition mentionOK :: "string \<Rightarrow> reedRef \<Rightarrow> bool" where
  "mentionOK authorID r \<longleftrightarrow> ref_author r \<noteq> '''' \<and> ref_server r \<noteq> '''' \<and> ref_reed r = '''' \<and>
     idSeparator \<notin> set (ref_author r) \<and> canonicalAuthorID r \<noteq> authorID"

text \<open>The reference a claim names, when it is well formed.\<close>

definition claimRef :: "string \<Rightarrow> reedRef option" where
  "claimRef claim = (let (u, v, ok) = cut idSeparator (trimSpace claim) in
     if ok \<and> u \<noteq> '''' \<and> v \<noteq> '''' then Some \<lparr>ref_author = u, ref_server = v, ref_reed = ''''\<rparr> else None)"

lemma mentionLoop_step:
  "mentionLoop a (c # cs) seen out = (case claimRef c of None \<Rightarrow> mentionLoop a cs seen out
     | Some r \<Rightarrow> if canonicalAuthorID r = a \<or> r \<in> set seen then mentionLoop a cs seen out
                else mentionLoop a cs (r # seen) (out @ [r]))"
  by (auto simp: claimRef_def Let_def split: prod.splits)

lemma claimRef_OK: "claimRef c = Some r \<Longrightarrow> canonicalAuthorID r \<noteq> a \<Longrightarrow> mentionOK a r"
  by (auto simp: claimRef_def mentionOK_def Let_def split: prod.splits if_splits dest: cut_True)

declare mentionLoop.simps(2) [simp del]

lemma set_mentionLoop:
  "set seen = set out \<Longrightarrow> set (mentionLoop a cs seen out) =
     set out \<union> {r. \<exists>c \<in> set cs. claimRef c = Some r \<and> canonicalAuthorID r \<noteq> a}"
  by (induction cs arbitrary: seen out)
     (auto simp: mentionLoop_step split: option.splits if_splits)

lemma distinct_mentionLoop:
  "set seen = set out \<Longrightarrow> distinct out \<Longrightarrow> distinct (mentionLoop a cs seen out)"
  by (induction cs arbitrary: seen out)
     (auto simp: mentionLoop_step split: option.splits)

lemma validateMentionClaims_set:
  "set (validateMentionClaims cs a) =
     {r. \<exists>c \<in> set cs. claimRef c = Some r \<and> canonicalAuthorID r \<noteq> a}"
  by (simp add: validateMentionClaims_def set_mentionLoop)

lemma validateMentionClaims_distinct: "distinct (validateMentionClaims cs a)"
  by (simp add: validateMentionClaims_def distinct_mentionLoop)

subsection \<open>Small validators\<close>

text \<open>\<open>longTextFits\<close>: \<open>graphemes\<close> is the grapheme-cluster count of the \<open>uniseg\<close> package.\<close>

definition maxLongTextChars :: nat where "maxLongTextChars = 420"
definition maxLongTextRawChars :: nat where "maxLongTextRawChars = 1400"

definition longTextFits :: "(string \<Rightarrow> nat) \<Rightarrow> string \<Rightarrow> bool" where
  "longTextFits graphemes s \<longleftrightarrow> graphemes s \<le> maxLongTextChars \<and> utf16Length s \<le> maxLongTextRawChars"

definition validRealtimeAuthNonce :: "string \<Rightarrow> bool" where
  "validRealtimeAuthNonce nonce \<longleftrightarrow>
     \<not> (length nonce < 16 \<or> length nonce > 64) \<and>
     list_all (\<lambda>c. c \<in> set idAlphabet \<or> c = CHR ''-'' \<or> c = CHR ''_'') nonce"

definition vouchPageDefault :: int where "vouchPageDefault = 50"
definition vouchPageMax :: int where "vouchPageMax = 100"

definition vouchPageLimit :: "string \<Rightarrow> int" where
  "vouchPageLimit raw = (case atoi raw of
     None \<Rightarrow> vouchPageDefault
   | Some l \<Rightarrow> if l \<le> 0 then vouchPageDefault else if l > vouchPageMax then vouchPageMax else l)"

lemma vouchPageLimit_bounds: "1 \<le> vouchPageLimit raw \<and> vouchPageLimit raw \<le> vouchPageMax"
  by (auto simp: vouchPageLimit_def vouchPageDefault_def vouchPageMax_def split: option.splits)

end
