(* ===== verification/Payloads.thy ===== *)
theory Payloads
  imports GoTime Identity
begin

text \<open>
  The bytes users and the server sign: \<open>canonicalJSON\<close> of \<open>utils.go\<close> and every payload builder
  of \<open>identity.go\<close>, in the file's order.  \<open>jcs\<close> stands for \<open>json.Marshal\<close> followed by the
  \<open>gowebpki/jcs\<close> canonicalisation (RFC 8785) of the fields that are kept, a third-party library:
  it is an argument of every builder.  A Go map literal is the list of its entries.
\<close>

subsection \<open>Field sets\<close>

datatype signedValue = SStr string | SNum nat | SBool bool | SList "string list" | SNil

type_synonym signedFields = "(string \<times> signedValue) list"

fun isEmptySignedValue :: "signedValue \<Rightarrow> bool" where
  "isEmptySignedValue SNil = True"
| "isEmptySignedValue (SStr s) = (s = '''')"
| "isEmptySignedValue (SList xs) = (length xs = 0)"
| "isEmptySignedValue (SNum n) = False"
| "isEmptySignedValue (SBool b) = False"

definition keptFields :: "signedFields \<Rightarrow> signedFields" where
  "keptFields fs = filter (\<lambda>(k, v). \<not> isEmptySignedValue v) fs"

definition canonicalJSON :: "(signedFields \<Rightarrow> 'b) \<Rightarrow> signedFields \<Rightarrow> 'b" where
  "canonicalJSON jcs fs = jcs (keptFields fs)"

lemma map_of_keptFields:
  "distinct (map fst fs) \<Longrightarrow> map_of (keptFields fs) k =
     (case map_of fs k of None \<Rightarrow> None | Some v \<Rightarrow> if isEmptySignedValue v then None else Some v)"
proof (induction fs)
  case (Cons x fs)
  have "k \<notin> fst ` set fs \<Longrightarrow> map_of (keptFields fs) k = None"
    by (auto simp: keptFields_def map_of_eq_None_iff)
  with Cons show ?case
    by (cases x) (auto simp: keptFields_def map_of_eq_None_iff split: option.splits)
qed (simp add: keptFields_def)

lemma keptFields_keys: "fst ` set (keptFields fs) \<subseteq> fst ` set fs"
  by (auto simp: keptFields_def)

lemma distinct_keptFields: "distinct (map fst fs) \<Longrightarrow> distinct (map fst (keptFields fs))"
  by (induction fs) (auto simp: keptFields_def)

subsection \<open>Record types\<close>

definition identityTypeReed :: string where "identityTypeReed = ''reed''"
definition identityTypeThread :: string where "identityTypeThread = ''thread''"
definition identityTypeThreadRemoval :: string where "identityTypeThreadRemoval = ''thread_removal''"
definition identityTypeReedLike :: string where "identityTypeReedLike = ''reed_like''"
definition identityTypeBlock :: string where "identityTypeBlock = ''block''"
definition identityTypeFollow :: string where "identityTypeFollow = ''follow''"
definition identityTypeServerKeyRevocation :: string where "identityTypeServerKeyRevocation = ''server-key-revocation''"
definition identityTypePeerRecord :: string where "identityTypePeerRecord = ''peer-record''"
definition identityTypeAccount :: string where "identityTypeAccount = ''account''"
definition identityTypeInviteUser :: string where "identityTypeInviteUser = ''invite-user''"
definition identityTypeInviteServer :: string where "identityTypeInviteServer = ''invite-server''"
definition identityTypeRealtimeAuth :: string where "identityTypeRealtimeAuth = ''realtime-auth''"
definition identityTypeAdminRequest :: string where "identityTypeAdminRequest = ''admin-request''"
definition identityTypeAdminDecision :: string where "identityTypeAdminDecision = ''admin-decision''"
definition identityTypeAdminRequestServer :: string where "identityTypeAdminRequestServer = ''admin-request-server''"
definition identityTypeAdminRequestOpened :: string where "identityTypeAdminRequestOpened = ''admin-request-opened''"
definition identityTypeLedgerEntry :: string where "identityTypeLedgerEntry = ''ledger-entry''"
definition identityTypeAccountKick :: string where "identityTypeAccountKick = ''account-kick''"
definition identityTypeAdminRevocation :: string where "identityTypeAdminRevocation = ''admin-revocation''"
definition keyRevocationReasonLost :: string where "keyRevocationReasonLost = ''lost''"
definition identityTypeReedFlag :: string where "identityTypeReedFlag = ''reed-flag''"
definition identityTypeFlagDismissal :: string where "identityTypeFlagDismissal = ''flag-dismissal''"
definition identityTypeFlagWithdrawal :: string where "identityTypeFlagWithdrawal = ''flag-withdrawal''"

lemmas identity_types [const_defs] =
  identityTypeReed_def identityTypeThread_def identityTypeThreadRemoval_def identityTypeReedLike_def identityTypeBlock_def identityTypeFollow_def identityTypeServerKeyRevocation_def identityTypePeerRecord_def identityTypeAccount_def identityTypeInviteUser_def identityTypeInviteServer_def identityTypeRealtimeAuth_def identityTypeAdminRequest_def identityTypeAdminDecision_def identityTypeAdminRequestServer_def identityTypeAdminRequestOpened_def identityTypeLedgerEntry_def identityTypeAccountKick_def identityTypeAdminRevocation_def keyRevocationReasonLost_def identityTypeReedFlag_def identityTypeFlagDismissal_def identityTypeFlagWithdrawal_def

subsection \<open>Peerings\<close>

datatype 't peering = Peering
  (pPeerID: string) (pName: string) (pBaseURL: string) (pFrontendURL: string) (pKeyID: string)
  (pInvitedBy: string) (pInvitedAt: "'t option") (pApprovedBy: string) (pApprovedAt: "'t option")
  (pPeerApprovedAt: "'t option") (pDisconnectRequestedBy: string)
  (pDisconnectRequestedAt: "'t option") (pDisconnectReason: string) (pRevokedBy: string)
  (pRevokedAt: "'t option") (pRevokedReason: string) (pPurgedAt: "'t option")

definition signedTimeOrAbsent :: "gotime option \<Rightarrow> string" where
  "signedTimeOrAbsent t = (case t of None \<Rightarrow> [] | Some u \<Rightarrow> signedTime u)"

subsection \<open>The builders\<close>

definition buildUserIdentityPayload :: "(signedFields \<Rightarrow> 'b) \<Rightarrow> string
     \<Rightarrow> string \<Rightarrow>
    string \<Rightarrow> 'b" where
  "buildUserIdentityPayload jcs username keyID bio =
     canonicalJSON jcs
       [(''type'', SStr ''identity-user''),
        (''username'', SStr username),
        (''keyID'', SStr keyID),
        (''bio'', SStr bio)]"

definition buildProfilePayload :: "(signedFields \<Rightarrow> 'b) \<Rightarrow> string
     \<Rightarrow> string \<Rightarrow>
    string \<Rightarrow> string \<Rightarrow> string \<Rightarrow> string \<Rightarrow>
    string \<Rightarrow> string \<Rightarrow> string list \<Rightarrow>
    string \<Rightarrow> gotime \<Rightarrow> gotime \<Rightarrow> 'b" where
  "buildProfilePayload jcs userID username keyID serverID serverKeyFingerprint userSignature
     inviteID role permissions bio memberSince signedAt =
     canonicalJSON jcs
       [(''type'', SStr ''identity-server''),
        (''userID'', SStr userID),
        (''username'', SStr username),
        (''keyID'', SStr keyID),
        (''memberSince'', SStr (signedTime memberSince)),
        (''role'', SStr role),
        (''permissions'', SList permissions),
        (''serverID'', SStr serverID),
        (''serverKeyFingerprint'', SStr serverKeyFingerprint),
        (''signedAt'', SStr (signedTime signedAt)),
        (''userSignature'', SStr userSignature),
        (''inviteID'', SStr inviteID),
        (''bio'', SStr bio)]"

definition buildReedPayload :: "(signedFields \<Rightarrow> 'b) \<Rightarrow> string
     \<Rightarrow> string \<Rightarrow>
    string \<Rightarrow> string \<Rightarrow> string \<Rightarrow> gotime \<Rightarrow> 'b" where
  "buildReedPayload jcs serverID reedID fingerprint authorKeyID userSignature timestamp =
     canonicalJSON jcs
       [(''authorKeyID'', SStr authorKeyID),
        (''fingerprint'', SStr fingerprint),
        (''serverID'', SStr serverID),
        (''reedID'', SStr reedID),
        (''timestamp'', SStr (signedTime timestamp)),
        (''userSignature'', SStr userSignature)]"

definition buildPublicKeyPayload :: "(signedFields \<Rightarrow> 'b) \<Rightarrow> string
     \<Rightarrow> string \<Rightarrow>
    string \<Rightarrow> string \<Rightarrow> string \<Rightarrow> gotime \<Rightarrow> 'b" where
  "buildPublicKeyPayload jcs serverID userID userKeyID serverFingerprint armor timestamp =
     canonicalJSON jcs
       [(''keyID'', SStr userKeyID),
        (''serverID'', SStr serverID),
        (''serverKeyFingerprint'', SStr serverFingerprint),
        (''signedAt'', SStr (signedTime timestamp)),
        (''userID'', SStr userID),
        (''armor'', SStr armor)]"

definition buildUserRevocationPayload :: "(signedFields \<Rightarrow> 'b) \<Rightarrow> string
     \<Rightarrow> string \<Rightarrow>
    string \<Rightarrow> 'b" where
  "buildUserRevocationPayload jcs userID keyID reason =
     canonicalJSON jcs
       [(''type'', SStr ''revocation''),
        (''userID'', SStr userID),
        (''keyID'', SStr keyID),
        (''reason'', SStr reason)]"

definition buildServerRevocationPayload :: "(signedFields \<Rightarrow> 'b) \<Rightarrow> string
     \<Rightarrow> string \<Rightarrow>
    string \<Rightarrow> string \<Rightarrow> string \<Rightarrow> string \<Rightarrow>
    gotime \<Rightarrow> 'b" where
  "buildServerRevocationPayload jcs userID keyID reason serverID serverKeyFingerprint
     userSignature signedAt =
     canonicalJSON jcs
       [(''type'', SStr ''revocation''),
        (''userID'', SStr userID),
        (''keyID'', SStr keyID),
        (''signedAt'', SStr (signedTime signedAt)),
        (''serverID'', SStr serverID),
        (''serverKeyFingerprint'', SStr serverKeyFingerprint),
        (''userSignature'', SStr userSignature),
        (''reason'', SStr reason)]"

definition buildReedRemovalUserPayload :: "(signedFields \<Rightarrow> 'b) \<Rightarrow> string
     \<Rightarrow> string \<Rightarrow> 'b" where
  "buildReedRemovalUserPayload jcs serverID reedID =
     canonicalJSON jcs
       [(''type'', SStr identityTypeReed),
        (''serverID'', SStr serverID),
        (''reedID'', SStr reedID)]"

definition buildReedRemovalServerPayload :: "(signedFields \<Rightarrow> 'b) \<Rightarrow>
     string \<Rightarrow> string \<Rightarrow>
    string \<Rightarrow> string \<Rightarrow> string \<Rightarrow> gotime \<Rightarrow> 'b" where
  "buildReedRemovalServerPayload jcs serverID reedID authorKeyID serverKeyFingerprint
     userSignature signedAt =
     canonicalJSON jcs
       [(''type'', SStr identityTypeReed),
        (''serverID'', SStr serverID),
        (''reedID'', SStr reedID),
        (''authorKeyID'', SStr authorKeyID),
        (''signedAt'', SStr (signedTime signedAt)),
        (''serverKeyFingerprint'', SStr serverKeyFingerprint),
        (''userSignature'', SStr userSignature)]"

definition buildThreadUserPayload :: "(signedFields \<Rightarrow> 'b) \<Rightarrow> string
     \<Rightarrow> string \<Rightarrow>
    string list \<Rightarrow> 'b" where
  "buildThreadUserPayload jcs serverID threadID reedIDs =
     canonicalJSON jcs
       [(''type'', SStr identityTypeThread),
        (''serverID'', SStr serverID),
        (''threadID'', SStr threadID),
        (''reedIDs'', SList reedIDs)]"

definition buildThreadServerPayload :: "(signedFields \<Rightarrow> 'b) \<Rightarrow> string
     \<Rightarrow> string \<Rightarrow>
    string \<Rightarrow> string \<Rightarrow> string \<Rightarrow> gotime \<Rightarrow> 'b" where
  "buildThreadServerPayload jcs serverID threadID authorKeyID serverKeyFingerprint userSignature
     signedAt =
     canonicalJSON jcs
       [(''type'', SStr identityTypeThread),
        (''serverID'', SStr serverID),
        (''threadID'', SStr threadID),
        (''authorKeyID'', SStr authorKeyID),
        (''signedAt'', SStr (signedTime signedAt)),
        (''serverKeyFingerprint'', SStr serverKeyFingerprint),
        (''userSignature'', SStr userSignature)]"

definition buildThreadRemovalUserPayload :: "(signedFields \<Rightarrow> 'b) \<Rightarrow>
     string \<Rightarrow> string \<Rightarrow>
    string \<Rightarrow> 'b" where
  "buildThreadRemovalUserPayload jcs serverID threadID threadSignature =
     canonicalJSON jcs
       [(''type'', SStr identityTypeThreadRemoval),
        (''serverID'', SStr serverID),
        (''threadID'', SStr threadID),
        (''threadSignature'', SStr threadSignature)]"

definition buildThreadRemovalServerPayload :: "(signedFields \<Rightarrow> 'b) \<Rightarrow>
     string \<Rightarrow> string \<Rightarrow>
    string \<Rightarrow> string \<Rightarrow> string \<Rightarrow> gotime \<Rightarrow> 'b" where
  "buildThreadRemovalServerPayload jcs serverID threadID authorKeyID serverKeyFingerprint
     userSignature signedAt =
     canonicalJSON jcs
       [(''type'', SStr identityTypeThreadRemoval),
        (''serverID'', SStr serverID),
        (''threadID'', SStr threadID),
        (''authorKeyID'', SStr authorKeyID),
        (''signedAt'', SStr (signedTime signedAt)),
        (''serverKeyFingerprint'', SStr serverKeyFingerprint),
        (''userSignature'', SStr userSignature)]"

definition buildReedLikeUserPayload :: "(signedFields \<Rightarrow> 'b) \<Rightarrow> string
     \<Rightarrow> string \<Rightarrow> 'b" where
  "buildReedLikeUserPayload jcs reedID keyID =
     canonicalJSON jcs
       [(''type'', SStr identityTypeReedLike),
        (''reedID'', SStr reedID),
        (''keyID'', SStr keyID)]"

definition buildReedLikeServerPayload :: "(signedFields \<Rightarrow> 'b) \<Rightarrow> string
     \<Rightarrow> string \<Rightarrow>
    string \<Rightarrow> gotime \<Rightarrow> 'b" where
  "buildReedLikeServerPayload jcs reedID serverKeyFingerprint userSignature signedAt =
     canonicalJSON jcs
       [(''type'', SStr identityTypeReedLike),
        (''reedID'', SStr reedID),
        (''signedAt'', SStr (signedTime signedAt)),
        (''serverKeyFingerprint'', SStr serverKeyFingerprint),
        (''userSignature'', SStr userSignature)]"

definition buildBlockUserPayload :: "(signedFields \<Rightarrow> 'b) \<Rightarrow> string
     \<Rightarrow> string \<Rightarrow>
    string \<Rightarrow> 'b" where
  "buildBlockUserPayload jcs userID blockedUserID keyID =
     canonicalJSON jcs
       [(''type'', SStr identityTypeBlock),
        (''userID'', SStr userID),
        (''blockedUserID'', SStr blockedUserID),
        (''keyID'', SStr keyID)]"

definition buildBlockServerPayload :: "(signedFields \<Rightarrow> 'b) \<Rightarrow> string
     \<Rightarrow> string \<Rightarrow>
    string \<Rightarrow> string \<Rightarrow> gotime \<Rightarrow> 'b" where
  "buildBlockServerPayload jcs userID blockedUserID serverKeyFingerprint userSignature signedAt =
     canonicalJSON jcs
       [(''type'', SStr identityTypeBlock),
        (''userID'', SStr userID),
        (''blockedUserID'', SStr blockedUserID),
        (''signedAt'', SStr (signedTime signedAt)),
        (''serverKeyFingerprint'', SStr serverKeyFingerprint),
        (''userSignature'', SStr userSignature)]"

definition buildFollowUserPayload :: "(signedFields \<Rightarrow> 'b) \<Rightarrow> string
     \<Rightarrow> string \<Rightarrow>
    string \<Rightarrow> bool \<Rightarrow> 'b" where
  "buildFollowUserPayload jcs followerID followeeID keyID follow =
     canonicalJSON jcs
       [(''type'', SStr identityTypeFollow),
        (''followerID'', SStr followerID),
        (''followeeID'', SStr followeeID),
        (''keyID'', SStr keyID),
        (''follow'', SBool follow)]"

definition buildFollowServerPayload :: "(signedFields \<Rightarrow> 'b) \<Rightarrow> string
     \<Rightarrow> string \<Rightarrow>
    bool \<Rightarrow> string \<Rightarrow> string \<Rightarrow> gotime \<Rightarrow> 'b" where
  "buildFollowServerPayload jcs followerID followeeID follow serverKeyFingerprint userSignature
     signedAt =
     canonicalJSON jcs
       [(''type'', SStr identityTypeFollow),
        (''followerID'', SStr followerID),
        (''followeeID'', SStr followeeID),
        (''follow'', SBool follow),
        (''signedAt'', SStr (signedTime signedAt)),
        (''serverKeyFingerprint'', SStr serverKeyFingerprint),
        (''userSignature'', SStr userSignature)]"

definition buildVouchUserPayload :: "(signedFields \<Rightarrow> 'b) \<Rightarrow> string
     \<Rightarrow> string \<Rightarrow>
    string \<Rightarrow> 'b" where
  "buildVouchUserPayload jcs voucherKeyID subjectKeyID note =
     canonicalJSON jcs
       [(''voucherKeyID'', SStr voucherKeyID),
        (''subjectKeyID'', SStr subjectKeyID),
        (''note'', SStr note)]"

definition buildVouchServerPayload :: "(signedFields \<Rightarrow> 'b) \<Rightarrow> string
     \<Rightarrow> string \<Rightarrow>
    string \<Rightarrow> gotime \<Rightarrow> 'b" where
  "buildVouchServerPayload jcs subjectKeyID serverKeyFingerprint userSignature signedAt =
     canonicalJSON jcs
       [(''subjectKeyID'', SStr subjectKeyID),
        (''signedAt'', SStr (signedTime signedAt)),
        (''serverKeyFingerprint'', SStr serverKeyFingerprint),
        (''userSignature'', SStr userSignature)]"

definition buildVouchWithdrawalUserPayload :: "(signedFields \<Rightarrow> 'b) \<Rightarrow>
     string \<Rightarrow> 'b" where
  "buildVouchWithdrawalUserPayload jcs vouchID =
     canonicalJSON jcs
       [(''vouchID'', SStr vouchID)]"

definition buildVouchWithdrawalServerPayload :: "(signedFields \<Rightarrow> 'b) \<Rightarrow>
     string \<Rightarrow> string \<Rightarrow>
    string \<Rightarrow> gotime \<Rightarrow> 'b" where
  "buildVouchWithdrawalServerPayload jcs vouchID serverKeyFingerprint userSignature signedAt =
     canonicalJSON jcs
       [(''vouchID'', SStr vouchID),
        (''signedAt'', SStr (signedTime signedAt)),
        (''serverKeyFingerprint'', SStr serverKeyFingerprint),
        (''userSignature'', SStr userSignature)]"

definition buildServerKeyRevocationPayload :: "(signedFields \<Rightarrow> 'b) \<Rightarrow>
     string \<Rightarrow> string \<Rightarrow>
    string \<Rightarrow> bool \<Rightarrow> string \<Rightarrow> gotime \<Rightarrow> 'b" where
  "buildServerKeyRevocationPayload jcs serverID keyID successor compromised reason signedAt =
     canonicalJSON jcs
       [(''type'', SStr identityTypeServerKeyRevocation),
        (''serverID'', SStr serverID),
        (''keyID'', SStr keyID),
        (''successor'', SStr successor),
        (''compromised'', SBool compromised),
        (''signedAt'', SStr (signedTime signedAt)),
        (''reason'', SStr reason)]"

definition buildPeerRecordPayload :: "(signedFields \<Rightarrow> 'b) \<Rightarrow> string
     \<Rightarrow>
    gotime peering \<Rightarrow> gotime \<Rightarrow> 'b" where
  "buildPeerRecordPayload jcs serverID p signedAt =
     canonicalJSON jcs
       [(''type'', SStr identityTypePeerRecord),
        (''serverID'', SStr serverID),
        (''peerID'', SStr (pPeerID p)),
        (''name'', SStr (pName p)),
        (''baseURL'', SStr (pBaseURL p)),
        (''frontendURL'', SStr (pFrontendURL p)),
        (''keyID'', SStr (pKeyID p)),
        (''invitedBy'', SStr (pInvitedBy p)),
        (''invitedAt'', SStr (signedTimeOrAbsent (pInvitedAt p))),
        (''approvedBy'', SStr (pApprovedBy p)),
        (''approvedAt'', SStr (signedTimeOrAbsent (pApprovedAt p))),
        (''peerApprovedAt'', SStr (signedTimeOrAbsent (pPeerApprovedAt p))),
        (''disconnectRequestedBy'', SStr (pDisconnectRequestedBy p)),
        (''disconnectRequestedAt'', SStr (signedTimeOrAbsent (pDisconnectRequestedAt p))),
        (''disconnectReason'', SStr (pDisconnectReason p)),
        (''revokedBy'', SStr (pRevokedBy p)),
        (''revokedAt'', SStr (signedTimeOrAbsent (pRevokedAt p))),
        (''revokedReason'', SStr (pRevokedReason p)),
        (''purgedAt'', SStr (signedTimeOrAbsent (pPurgedAt p))),
        (''signedAt'', SStr (signedTime signedAt))]"

definition buildUsernameCollisionPayload :: "(signedFields \<Rightarrow> 'b) \<Rightarrow>
     string \<Rightarrow> string \<Rightarrow>
    string \<Rightarrow> string \<Rightarrow> gotime \<Rightarrow> 'b" where
  "buildUsernameCollisionPayload jcs serverID username winnerID loserID signedAt =
     canonicalJSON jcs
       [(''type'', SStr ''username-collision''),
        (''serverID'', SStr serverID),
        (''username'', SStr username),
        (''winnerID'', SStr winnerID),
        (''loserID'', SStr loserID),
        (''signedAt'', SStr (signedTime signedAt))]"

definition buildAccountRemovalUserPayload :: "(signedFields \<Rightarrow> 'b) \<Rightarrow>
     string \<Rightarrow> string \<Rightarrow>
    string \<Rightarrow> 'b" where
  "buildAccountRemovalUserPayload jcs serverID userID note =
     canonicalJSON jcs
       [(''type'', SStr identityTypeAccount),
        (''serverID'', SStr serverID),
        (''userID'', SStr userID),
        (''note'', SStr note)]"

definition buildAccountRemovalServerPayload :: "(signedFields \<Rightarrow> 'b) \<Rightarrow>
     string \<Rightarrow> string \<Rightarrow>
    string \<Rightarrow> string \<Rightarrow> string \<Rightarrow> gotime \<Rightarrow> 'b" where
  "buildAccountRemovalServerPayload jcs serverID userID note serverKeyFingerprint userSignature
     signedAt =
     canonicalJSON jcs
       [(''type'', SStr identityTypeAccount),
        (''serverID'', SStr serverID),
        (''userID'', SStr userID),
        (''signedAt'', SStr (signedTime signedAt)),
        (''serverKeyFingerprint'', SStr serverKeyFingerprint),
        (''userSignature'', SStr userSignature),
        (''note'', SStr note)]"

definition buildInviteUserPayload :: "(signedFields \<Rightarrow> 'b) \<Rightarrow> string
     \<Rightarrow> string \<Rightarrow>
    string \<Rightarrow> string \<Rightarrow> string \<Rightarrow> gotime \<Rightarrow> 'b" where
  "buildInviteUserPayload jcs serverID userID inviteID tokenHash grantedRole createdAt =
     canonicalJSON jcs
       [(''type'', SStr identityTypeInviteUser),
        (''serverID'', SStr serverID),
        (''userID'', SStr userID),
        (''inviteID'', SStr inviteID),
        (''tokenHash'', SStr tokenHash),
        (''grantedRole'', SStr grantedRole),
        (''createdAt'', SStr (signedTime createdAt))]"

definition buildInviteServerPayload :: "(signedFields \<Rightarrow> 'b) \<Rightarrow> string
     \<Rightarrow> string \<Rightarrow>
    string \<Rightarrow> string \<Rightarrow> string \<Rightarrow> string \<Rightarrow>
    gotime \<Rightarrow> gotime \<Rightarrow> 'b" where
  "buildInviteServerPayload jcs serverID userID inviteID tokenHash serverKeyFingerprint
     userSignature createdAt signedAt =
     canonicalJSON jcs
       [(''type'', SStr identityTypeInviteServer),
        (''serverID'', SStr serverID),
        (''userID'', SStr userID),
        (''inviteID'', SStr inviteID),
        (''tokenHash'', SStr tokenHash),
        (''createdAt'', SStr (signedTime createdAt)),
        (''signedAt'', SStr (signedTime signedAt)),
        (''serverKeyFingerprint'', SStr serverKeyFingerprint),
        (''userSignature'', SStr userSignature)]"

definition buildNewProfilePayload :: "(signedFields \<Rightarrow> 'b) \<Rightarrow> string
     \<Rightarrow> string \<Rightarrow>
    string \<Rightarrow> string \<Rightarrow> string \<Rightarrow> string \<Rightarrow>
    string \<Rightarrow> string \<Rightarrow> string list \<Rightarrow>
    gotime \<Rightarrow> 'b" where
  "buildNewProfilePayload jcs userID username keyID serverID serverKeyFingerprint userSignature
     inviteID role permissions timestamp =
     buildProfilePayload jcs userID username keyID serverID serverKeyFingerprint userSignature
       inviteID role permissions '''' timestamp timestamp"

definition buildFederationInvitationPayload :: "(signedFields \<Rightarrow> 'b) \<Rightarrow>
     string \<Rightarrow> string \<Rightarrow>
    string \<Rightarrow> string \<Rightarrow> string \<Rightarrow> string \<Rightarrow> 'b" where
  "buildFederationInvitationPayload jcs inviteID serverID baseURL frontendURL fingerprint secret =
     canonicalJSON jcs
       [(''baseUrl'', SStr baseURL),
        (''fingerprint'', SStr fingerprint),
        (''frontendUrl'', SStr frontendURL),
        (''inviteId'', SStr inviteID),
        (''secret'', SStr secret),
        (''serverId'', SStr serverID)]"

definition buildFederationConnectPayload :: "(signedFields \<Rightarrow> 'b) \<Rightarrow>
     string \<Rightarrow> string \<Rightarrow>
    string \<Rightarrow> string \<Rightarrow> string \<Rightarrow> 'b" where
  "buildFederationConnectPayload jcs inviteID serverID baseURL frontendURL fingerprint =
     canonicalJSON jcs
       [(''baseUrl'', SStr baseURL),
        (''fingerprint'', SStr fingerprint),
        (''frontendUrl'', SStr frontendURL),
        (''inviteId'', SStr inviteID),
        (''serverId'', SStr serverID)]"

definition buildRippleUserPayload :: "(signedFields \<Rightarrow> 'b) \<Rightarrow> string
     \<Rightarrow> string \<Rightarrow>
    string \<Rightarrow> string \<Rightarrow> string \<Rightarrow> string \<Rightarrow> 'b" where
  "buildRippleUserPayload jcs reedID rippleAuthorID keyID threadID replyingTo content =
     canonicalJSON jcs
       [(''reedID'', SStr reedID),
        (''rippleAuthorID'', SStr rippleAuthorID),
        (''keyID'', SStr keyID),
        (''threadID'', SStr threadID),
        (''replyingTo'', SStr replyingTo),
        (''content'', SStr content)]"

definition buildRippleServerPayload :: "(signedFields \<Rightarrow> 'b) \<Rightarrow> string
     \<Rightarrow> string \<Rightarrow>
    string \<Rightarrow> string \<Rightarrow> string \<Rightarrow> string \<Rightarrow>
    string \<Rightarrow> gotime \<Rightarrow> 'b" where
  "buildRippleServerPayload jcs serverID reedID rippleAuthorID keyID threadID replyingTo
     userSignature timestamp =
     canonicalJSON jcs
       [(''serverID'', SStr serverID),
        (''reedID'', SStr reedID),
        (''rippleAuthorID'', SStr rippleAuthorID),
        (''keyID'', SStr keyID),
        (''threadID'', SStr threadID),
        (''replyingTo'', SStr replyingTo),
        (''timestamp'', SStr (signedTime timestamp)),
        (''userSignature'', SStr userSignature)]"

definition buildRealtimeAuthPayload :: "(signedFields \<Rightarrow> 'b) \<Rightarrow> string
     \<Rightarrow> string \<Rightarrow>
    string \<Rightarrow> string \<Rightarrow> 'b" where
  "buildRealtimeAuthPayload jcs serverID userID timestamp nonce =
     canonicalJSON jcs
       [(''type'', SStr identityTypeRealtimeAuth),
        (''serverID'', SStr serverID),
        (''userID'', SStr userID),
        (''timestamp'', SStr timestamp),
        (''nonce'', SStr nonce)]"

definition buildAdminRequestPayload :: "(signedFields \<Rightarrow> 'b) \<Rightarrow> string
     \<Rightarrow> string \<Rightarrow>
    string \<Rightarrow> string \<Rightarrow> string \<Rightarrow>
    string list \<Rightarrow> string \<Rightarrow> gotime \<Rightarrow> 'b" where
  "buildAdminRequestPayload jcs requestID action requesterID keyID reason targets body createdAt =
     canonicalJSON jcs
       [(''type'', SStr identityTypeAdminRequest),
        (''requestID'', SStr requestID),
        (''action'', SStr action),
        (''requesterID'', SStr requesterID),
        (''keyID'', SStr keyID),
        (''reason'', SStr reason),
        (''targets'', SList targets),
        (''body'', SStr body),
        (''createdAt'', SStr (signedTime createdAt))]"

definition buildAdminDecisionPayload :: "(signedFields \<Rightarrow> 'b) \<Rightarrow> string
     \<Rightarrow> string \<Rightarrow>
    string \<Rightarrow> string \<Rightarrow> string \<Rightarrow> 'b" where
  "buildAdminDecisionPayload jcs requestID decision deciderID keyID requestSignature =
     canonicalJSON jcs
       [(''type'', SStr identityTypeAdminDecision),
        (''requestID'', SStr requestID),
        (''decision'', SStr decision),
        (''deciderID'', SStr deciderID),
        (''keyID'', SStr keyID),
        (''requestSignature'', SStr requestSignature)]"

definition buildAdminRequestOpenedPayload :: "(signedFields \<Rightarrow> 'b) \<Rightarrow>
     string \<Rightarrow> string \<Rightarrow>
    string \<Rightarrow> string \<Rightarrow> gotime \<Rightarrow> 'b" where
  "buildAdminRequestOpenedPayload jcs requestID requestSignature serverID serverKeyFingerprint
     signedAt =
     canonicalJSON jcs
       [(''type'', SStr identityTypeAdminRequestOpened),
        (''requestID'', SStr requestID),
        (''requestSignature'', SStr requestSignature),
        (''serverID'', SStr serverID),
        (''serverKeyFingerprint'', SStr serverKeyFingerprint),
        (''signedAt'', SStr (signedTime signedAt))]"

definition buildAdminRequestServerPayload :: "(signedFields \<Rightarrow> 'b) \<Rightarrow>
     string \<Rightarrow> string \<Rightarrow>
    string \<Rightarrow> string \<Rightarrow> string \<Rightarrow> string \<Rightarrow>
    gotime \<Rightarrow> 'b" where
  "buildAdminRequestServerPayload jcs requestID state requestSignature decisionSignature
     serverID serverKeyFingerprint signedAt =
     canonicalJSON jcs
       [(''type'', SStr identityTypeAdminRequestServer),
        (''requestID'', SStr requestID),
        (''state'', SStr state),
        (''requestSignature'', SStr requestSignature),
        (''decisionSignature'', SStr decisionSignature),
        (''serverID'', SStr serverID),
        (''serverKeyFingerprint'', SStr serverKeyFingerprint),
        (''signedAt'', SStr (signedTime signedAt))]"

definition buildLedgerEntryPayload :: "(signedFields \<Rightarrow> 'b) \<Rightarrow> nat
     \<Rightarrow> nat \<Rightarrow>
    string \<Rightarrow> string \<Rightarrow> string \<Rightarrow> string \<Rightarrow>
    gotime \<Rightarrow> string \<Rightarrow> string \<Rightarrow>
    string list \<Rightarrow> string \<Rightarrow> string \<Rightarrow>
    gotime \<Rightarrow> 'b" where
  "buildLedgerEntryPayload jcs entryID prevID prevSignature kind userID requesterID requestedAt
     message content targets serverID serverKeyFingerprint signedAt =
     canonicalJSON jcs
       [(''type'', SStr identityTypeLedgerEntry),
        (''id'', SNum entryID),
        (''prevID'', (if prevID \<noteq> 0 then SNum prevID else SNil)),
        (''prevSignature'', SStr prevSignature),
        (''kind'', SStr kind),
        (''userID'', SStr userID),
        (''requesterID'', SStr requesterID),
        (''requestedAt'', SStr (if \<not> isZeroTime requestedAt then signedTime requestedAt
     else '''')),
        (''message'', SStr message),
        (''content'', SStr content),
        (''targets'', SList targets),
        (''serverID'', SStr serverID),
        (''serverKeyFingerprint'', SStr serverKeyFingerprint),
        (''signedAt'', SStr (signedTime signedAt))]"

definition buildAccountKickServerPayload :: "(signedFields \<Rightarrow> 'b) \<Rightarrow>
     string \<Rightarrow> string \<Rightarrow>
    string \<Rightarrow> string \<Rightarrow> string \<Rightarrow> string \<Rightarrow>
    gotime \<Rightarrow> 'b" where
  "buildAccountKickServerPayload jcs serverID userID requestID requestSignature
     decisionSignature serverKeyFingerprint signedAt =
     canonicalJSON jcs
       [(''type'', SStr identityTypeAccountKick),
        (''serverID'', SStr serverID),
        (''userID'', SStr userID),
        (''requestID'', SStr requestID),
        (''requestSignature'', SStr requestSignature),
        (''decisionSignature'', SStr decisionSignature),
        (''serverKeyFingerprint'', SStr serverKeyFingerprint),
        (''signedAt'', SStr (signedTime signedAt))]"

definition buildAdminRevocationServerPayload :: "(signedFields \<Rightarrow> 'b) \<Rightarrow>
     string \<Rightarrow> string \<Rightarrow>
    string \<Rightarrow> string \<Rightarrow> string \<Rightarrow> string \<Rightarrow>
    string \<Rightarrow> gotime \<Rightarrow> 'b" where
  "buildAdminRevocationServerPayload jcs userID keyID requestID requestSignature
     decisionSignature serverID serverKeyFingerprint signedAt =
     canonicalJSON jcs
       [(''type'', SStr identityTypeAdminRevocation),
        (''userID'', SStr userID),
        (''keyID'', SStr keyID),
        (''reason'', SStr keyRevocationReasonLost),
        (''requestID'', SStr requestID),
        (''requestSignature'', SStr requestSignature),
        (''decisionSignature'', SStr decisionSignature),
        (''serverID'', SStr serverID),
        (''serverKeyFingerprint'', SStr serverKeyFingerprint),
        (''signedAt'', SStr (signedTime signedAt))]"

definition buildReedFlagPayload :: "(signedFields \<Rightarrow> 'b) \<Rightarrow> string
     \<Rightarrow> string \<Rightarrow>
    string \<Rightarrow> string \<Rightarrow> 'b" where
  "buildReedFlagPayload jcs reedID reporterID keyID note =
     canonicalJSON jcs
       [(''type'', SStr identityTypeReedFlag),
        (''reedID'', SStr reedID),
        (''reporterID'', SStr reporterID),
        (''keyID'', SStr keyID),
        (''note'', SStr note)]"

definition buildReedFlagServerPayload :: "(signedFields \<Rightarrow> 'b) \<Rightarrow> string
     \<Rightarrow> string \<Rightarrow>
    string \<Rightarrow> string \<Rightarrow> string \<Rightarrow> gotime \<Rightarrow> 'b" where
  "buildReedFlagServerPayload jcs reedID reporterID caseID serverKeyFingerprint userSignature
     signedAt =
     canonicalJSON jcs
       [(''type'', SStr identityTypeReedFlag),
        (''reedID'', SStr reedID),
        (''reporterID'', SStr reporterID),
        (''caseID'', SStr caseID),
        (''signedAt'', SStr (signedTime signedAt)),
        (''serverKeyFingerprint'', SStr serverKeyFingerprint),
        (''userSignature'', SStr userSignature)]"

definition buildFlagDismissalPayload :: "(signedFields \<Rightarrow> 'b) \<Rightarrow> string
     \<Rightarrow> string \<Rightarrow>
    string \<Rightarrow> string \<Rightarrow> 'b" where
  "buildFlagDismissalPayload jcs caseID reedID reason keyID =
     canonicalJSON jcs
       [(''type'', SStr identityTypeFlagDismissal),
        (''caseID'', SStr caseID),
        (''reedID'', SStr reedID),
        (''reason'', SStr reason),
        (''keyID'', SStr keyID)]"

definition buildFlagDismissalServerPayload :: "(signedFields \<Rightarrow> 'b) \<Rightarrow>
     string \<Rightarrow> string \<Rightarrow>
    string \<Rightarrow> string \<Rightarrow> gotime \<Rightarrow> 'b" where
  "buildFlagDismissalServerPayload jcs caseID reedID serverKeyFingerprint userSignature signedAt =
     canonicalJSON jcs
       [(''type'', SStr identityTypeFlagDismissal),
        (''caseID'', SStr caseID),
        (''reedID'', SStr reedID),
        (''signedAt'', SStr (signedTime signedAt)),
        (''serverKeyFingerprint'', SStr serverKeyFingerprint),
        (''userSignature'', SStr userSignature)]"

definition buildFlagWithdrawalPayload :: "(signedFields \<Rightarrow> 'b) \<Rightarrow> string
     \<Rightarrow> string \<Rightarrow>
    string \<Rightarrow> string \<Rightarrow> 'b" where
  "buildFlagWithdrawalPayload jcs reedID reporterID keyID flagSignature =
     canonicalJSON jcs
       [(''type'', SStr identityTypeFlagWithdrawal),
        (''reedID'', SStr reedID),
        (''reporterID'', SStr reporterID),
        (''keyID'', SStr keyID),
        (''flagSignature'', SStr flagSignature)]"

definition buildFlagWithdrawalServerPayload :: "(signedFields \<Rightarrow> 'b) \<Rightarrow>
     string \<Rightarrow> string \<Rightarrow>
    string \<Rightarrow> string \<Rightarrow> gotime \<Rightarrow> 'b" where
  "buildFlagWithdrawalServerPayload jcs reedID reporterID serverKeyFingerprint userSignature
     signedAt =
     canonicalJSON jcs
       [(''type'', SStr identityTypeFlagWithdrawal),
        (''reedID'', SStr reedID),
        (''reporterID'', SStr reporterID),
        (''signedAt'', SStr (signedTime signedAt)),
        (''serverKeyFingerprint'', SStr serverKeyFingerprint),
        (''userSignature'', SStr userSignature)]"

lemmas builder_defs =
  buildUserIdentityPayload_def
  buildProfilePayload_def
  buildReedPayload_def
  buildPublicKeyPayload_def
  buildUserRevocationPayload_def
  buildServerRevocationPayload_def
  buildReedRemovalUserPayload_def
  buildReedRemovalServerPayload_def
  buildThreadUserPayload_def
  buildThreadServerPayload_def
  buildThreadRemovalUserPayload_def
  buildThreadRemovalServerPayload_def
  buildReedLikeUserPayload_def
  buildReedLikeServerPayload_def
  buildBlockUserPayload_def
  buildBlockServerPayload_def
  buildFollowUserPayload_def
  buildFollowServerPayload_def
  buildVouchUserPayload_def
  buildVouchServerPayload_def
  buildVouchWithdrawalUserPayload_def
  buildVouchWithdrawalServerPayload_def
  buildServerKeyRevocationPayload_def
  buildPeerRecordPayload_def
  buildUsernameCollisionPayload_def
  buildAccountRemovalUserPayload_def
  buildAccountRemovalServerPayload_def
  buildInviteUserPayload_def
  buildInviteServerPayload_def
  buildNewProfilePayload_def
  buildFederationInvitationPayload_def
  buildFederationConnectPayload_def
  buildRippleUserPayload_def
  buildRippleServerPayload_def
  buildRealtimeAuthPayload_def
  buildAdminRequestPayload_def
  buildAdminDecisionPayload_def
  buildAdminRequestOpenedPayload_def
  buildAdminRequestServerPayload_def
  buildLedgerEntryPayload_def
  buildAccountKickServerPayload_def
  buildAdminRevocationServerPayload_def
  buildReedFlagPayload_def
  buildReedFlagServerPayload_def
  buildFlagDismissalPayload_def
  buildFlagDismissalServerPayload_def
  buildFlagWithdrawalPayload_def
  buildFlagWithdrawalServerPayload_def

end
