(* ===== verification/Store.thy ===== *)
theory Store
  imports Payloads
begin

text \<open>
  The server's state, and what its handlers are given.  The database is a record of the tables
  of \<open>db.go\<close> this development models; a table is the list of its rows, oldest first.  A row that
  points at \<open>user_signatures\<close> or \<open>server_signatures\<close> holds the signature itself (each row of those
  tables belongs to exactly one row), and the satellites of a table with its key
  (\<open>admin_request_content\<close>, \<open>admin_request_targets\<close>, \<open>ledger_entry_targets\<close>) are columns of its row.
\<close>

subsection \<open>Signatures, requests and certificates\<close>

record userSig =
  us_id :: string
  us_armor :: string

record serverSig =
  ss_id :: string
  ss_armor :: string
  ss_at :: gotime

record adminDecision =
  ad_decision :: string
  ad_decider :: string
  ad_sig :: userSig

record adminRequest =
  rq_id :: string
  rq_action :: string
  rq_requester :: string
  rq_reason :: string
  rq_targets :: "string list"
  rq_dropped :: "string list"
  rq_body :: string
  rq_created :: gotime
  rq_sig :: userSig
  rq_opened :: serverSig
  rq_state :: string
  rq_decision :: "adminDecision option"
  rq_closed :: "serverSig option"

record accountRemovalCert =
  ac_user :: string
  ac_note :: string
  ac_user_sig :: string
  ac_user_key :: string
  ac_server_sig :: string
  ac_server_key :: string
  ac_server_at :: gotime
  ac_request_id :: string
  ac_admin :: "adminRequest option"

record key =
  key_id :: string
  key_user :: string
  key_armor :: string
  key_revoked :: bool
  key_restricted :: bool

subsection \<open>Rows\<close>

record usersRow =
  u_id :: string
  u_username :: "string option"
  u_role :: string
  u_bio :: "string option"
  u_created :: gotime
  u_active_key :: "string option"
  u_user_sig :: "userSig option"
  u_server_sig :: "serverSig option"
  u_invite :: "string option"
  u_suspended :: "string option"

text \<open>A request with its content and targets; each target with its \<open>dropped\<close> mark.\<close>

record requestRow =
  rr_id :: string
  rr_action :: string
  rr_requester :: string
  rr_reason :: "string option"
  rr_created :: gotime
  rr_sig :: userSig
  rr_opened :: serverSig
  rr_state :: string
  rr_body :: "string option"
  rr_targets :: "(string \<times> bool) list"
  rr_closed_by :: "(string \<times> userSig) option"
  rr_server_sig :: "serverSig option"

record removalRow =
  rm_user :: string
  rm_note :: string
  rm_user_sig :: "userSig option"
  rm_request :: "string option"
  rm_authorization :: "adminRequest option"
  rm_server_sig :: serverSig

text \<open>An invite with its \<open>invite_permissions\<close>.\<close>

record inviteRow =
  iv_id :: string
  iv_by :: string
  iv_token :: string
  iv_created :: gotime
  iv_role :: string
  iv_claimed_at :: "gotime option"
  iv_claimed_by :: "string option"
  iv_revoked_at :: "gotime option"
  iv_sig :: userSig
  iv_server_sig :: serverSig
  iv_permissions :: "string list"

record keyRow =
  pk_id :: string
  pk_owner :: "string option"
  pk_armor :: string
  pk_created :: gotime
  pk_server_sig :: "serverSig option"
  pk_predecessor :: "string option"
  pk_restricted :: bool

record keyRevocationRow =
  kr_key :: string
  kr_reason :: "string option"
  kr_user_sig :: "userSig option"
  kr_request :: "string option"
  kr_server_sig :: serverSig
  kr_successor :: "string option"
  kr_successor_sig :: "userSig option"

record deviceRow =
  dv_user :: string
  dv_device :: string
  dv_linked :: gotime
  dv_revoked_at :: "gotime option"

record ledgerRow =
  le_id :: nat
  le_prev :: "nat option"
  le_kind :: string
  le_user :: "string option"
  le_requester :: "string option"
  le_requested_at :: "gotime option"
  le_message :: string
  le_content :: "string option"
  le_targets :: "string list"
  le_sig :: serverSig

record caseRow =
  fc_id :: string
  fc_reed :: string
  fc_opened_at :: gotime
  fc_restored :: bool
  fc_dismissed_by :: "string option"
  fc_reason :: "string option"
  fc_dismissal :: "(userSig \<times> serverSig) option"
  fc_voided_at :: "gotime option"

record flagRow =
  fl_reed :: string
  fl_author :: string
  fl_reporter :: string
  fl_note :: string
  fl_user_sig :: userSig
  fl_server_sig :: serverSig
  fl_created :: gotime
  fl_case :: string
  fl_withdrawal :: "(userSig \<times> serverSig) option"

record reedIdentityRow =
  ri_id :: string
  ri_server :: string
  ri_author :: string

text \<open>A peering, with its server's base URL.\<close>

record meshRow =
  sm_server :: string
  sm_base_url :: string
  sm_revoked_at :: "gotime option"
  sm_down_at :: "gotime option"
  sm_claimed_at :: "gotime option"

record peerEventRow =
  pe_id :: nat
  pe_server :: string
  pe_kind :: string
  pe_subject :: string
  pe_object :: "string option"

subsection \<open>Records the handlers pass around\<close>

record ledgerEntry =
  en_id :: nat
  en_prev :: nat
  en_kind :: string
  en_user :: string
  en_requester :: string
  en_requested_at :: gotime
  en_message :: string
  en_content :: string
  en_targets :: "string list"
  en_sig :: serverSig

record flagDismissal =
  fd_case :: string
  fd_reed :: string
  fd_by :: string
  fd_reason :: string
  fd_sig :: userSig
  fd_server_sig :: serverSig

record reedFlag =
  rf_reed :: string
  rf_author :: string
  rf_reporter :: string
  rf_note :: string
  rf_case :: string
  rf_sig :: userSig
  rf_server_sig :: serverSig
  rf_withdrawal :: "(userSig \<times> serverSig) option"
  rf_dismissal :: "flagDismissal option"

text \<open>\<open>adminRecord\<close>: exactly one of its pointers is set; \<open>DeletedCase\<close> carries the case and its reed.\<close>

datatype adminRecord =
    RecRequest adminRequest
  | RecFlag reedFlag
  | RecDismissal flagDismissal
  | RecDeletedCase string string

subsection \<open>The database\<close>

record db =
  db_users :: "usersRow list"
  db_username_collisions :: "(string \<times> string) list"
  db_permissions :: "(string \<times> string) list"
  db_identities :: "string list"
  db_removals :: "removalRow list"
  db_requests :: "requestRow list"
  db_invites :: "inviteRow list"
  db_keys :: "keyRow list"
  db_key_revocations :: "keyRevocationRow list"
  db_private_keys :: "(string \<times> gotime option) list"
  db_self_key :: string
  db_first_boot :: gotime
  db_ledger :: "ledgerRow list"
  db_ledger_seq :: nat
  db_cases :: "caseRow list"
  db_flags :: "flagRow list"
  db_reed_identities :: "reedIdentityRow list"
  db_mesh :: "meshRow list"
  db_peer_queue :: "peerEventRow list"
  db_peer_seq :: nat
  db_active_users :: int
  db_devices :: "deviceRow list"

subsection \<open>The environment\<close>

text \<open>
  What is not this program's code is an argument: the process's configuration, OpenPGP, the JSON
  canonicalisation, SHA-256, the \<open>uuid\<close> and \<open>uniseg\<close> packages, PostgreSQL's \<open>LOWER\<close>, Unicode's tables
  (\<open>e_fold\<close> is simple case folding rune by rune, \<open>e_printable\<close> keeps the printable runes and spaces),
  and a peer's answer to a key fetch.  \<open>e_uuid\<close> is a parsed UUID's text, \<open>e_key_created\<close> the creation
  time an armored key carries.
  \<open>e_verify message signature key\<close> is the detached-signature check; \<open>e_sign\<close> signs with the
  server's private key, \<open>None\<close> when it can't; \<open>e_fetch_key server keyID\<close> is what that peer answers
  to \<open>GET /api/keys/{keyID}\<close>: \<open>None\<close> for a failed request, \<open>Some None\<close> for a 404.
\<close>

record env =
  e_server_id :: string
  e_fingerprint :: string
  e_recovery_mode :: string
  e_max_invites :: int
  e_jcs :: "signedFields \<Rightarrow> string"
  e_sign :: "string \<Rightarrow> string option"
  e_verify :: "string \<Rightarrow> string \<Rightarrow> string \<Rightarrow> bool"
  e_extract_fingerprint :: "string \<Rightarrow> string option"
  e_uuid_ok :: "string \<Rightarrow> bool"
  e_graphemes :: "string \<Rightarrow> nat"
  e_signup_mode :: string
  e_server_name :: string
  e_hash :: "string \<Rightarrow> string"
  e_uuid :: "string \<Rightarrow> string option"
  e_fold :: "string \<Rightarrow> string"
  e_lower :: "string \<Rightarrow> string"
  e_printable :: "string \<Rightarrow> string"
  e_key_created :: "string \<Rightarrow> gotime"
  e_fetch_key :: "string \<Rightarrow> string \<Rightarrow> (key \<times> serverSig) option option"

subsection \<open>Errors, answers and effects\<close>

text \<open>
  \<open>Refusal\<close> is an \<open>adminRefusal\<close> with its status and reason code (its human text is not kept),
  \<open>Sentinel\<close> one of the named error values, \<open>Internal\<close> any other error.
\<close>

datatype err = Refusal nat string | Sentinel string | Internal string

abbreviation refuse :: "nat \<Rightarrow> string \<Rightarrow> err" where "refuse \<equiv> Refusal"

datatype 'a answer = Fail nat string | Done nat 'a

fun writeAdminError :: "err \<Rightarrow> 'a answer" where
  "writeAdminError (Refusal s r) = Fail s r"
| "writeAdminError e = Fail 500 ''Internal Server Error''"

text \<open>What a handler does to the rest of the process once its transaction has committed.\<close>

datatype effect =
    PushAdminRecord adminRecord
  | PushLedger ledgerEntry
  | AnnounceProfile string
  | NotifyNewAdmin string
  | DeliverMail "string list" string string
  | KickUserDevices string
  | SignOutRemovedUser string
  | AccountRemoved string
  | KeyRevoked string
  | DrainPeers string
  | DropFromAdminRequests string
  | UserUpdated string string string

text \<open>\<open>withAdminTx\<close>: the new database is kept only when the body returns nil.\<close>

definition withAdminTx :: "(db \<Rightarrow> err + 'a \<times> db) \<Rightarrow> db \<Rightarrow> (err + 'a) \<times> db" where
  "withAdminTx fn d = (case fn d of Inl e \<Rightarrow> (Inl e, d) | Inr (x, d') \<Rightarrow> (Inr x, d'))"

lemma withAdminTx_Inl: "withAdminTx fn d = (Inl e, d') \<longleftrightarrow> fn d = Inl e \<and> d' = d"
  by (auto simp: withAdminTx_def split: sum.splits prod.splits)

lemma withAdminTx_Inr: "withAdminTx fn d = (Inr x, d') \<longleftrightarrow> fn d = Inr (x, d')"
  by (auto simp: withAdminTx_def split: sum.splits prod.splits)

lemma withAdminTx_rollback: "fst (withAdminTx fn d) = Inl e \<Longrightarrow> snd (withAdminTx fn d) = d"
  by (auto simp: withAdminTx_def split: sum.splits prod.splits)

text \<open>The zero \<open>ServerSignature\<close>.\<close>

definition noServerSig :: serverSig where
  "noServerSig = \<lparr>ss_id = '''', ss_armor = '''', ss_at = 0\<rparr>"

text \<open>\<open>countersign\<close> of \<open>handlers.go\<close>.\<close>

definition countersign :: "env \<Rightarrow> string \<Rightarrow> gotime \<Rightarrow> err + serverSig" where
  "countersign E payload ts = (case e_sign E payload of
     None \<Rightarrow> Inl (Internal ''sign'')
   | Some armor \<Rightarrow> Inr \<lparr>ss_id = canonicalID (e_server_id E) (e_fingerprint E), ss_armor = armor, ss_at = ts\<rparr>)"

lemma countersign_Inr:
  "countersign E p t = Inr s \<longleftrightarrow> (\<exists>a. e_sign E p = Some a \<and>
     s = \<lparr>ss_id = canonicalID (e_server_id E) (e_fingerprint E), ss_armor = a, ss_at = t\<rparr>)"
  by (auto simp: countersign_def split: option.splits)

subsection \<open>Users and keys\<close>

definition userRow :: "db \<Rightarrow> string \<Rightarrow> usersRow option" where
  "userRow d u = rowBy u_id u (db_users d)"

text \<open>\<open>userRoleQ\<close> and \<open>GetUserRole\<close>: the empty role when there is no row.\<close>

definition userRoleQ :: "db \<Rightarrow> string \<Rightarrow> string" where
  "userRoleQ d u = (case userRow d u of None \<Rightarrow> '''' | Some r \<Rightarrow> u_role r)"

definition updUser :: "string \<Rightarrow> (usersRow \<Rightarrow> usersRow) \<Rightarrow> db \<Rightarrow> db" where
  "updUser u f d = d\<lparr>db_users := updWhere (\<lambda>r. u_id r = u) f (db_users d)\<rparr>"

definition hasAccountRemovalQ :: "db \<Rightarrow> string \<Rightarrow> bool" where
  "hasAccountRemovalQ d u \<longleftrightarrow> u \<in> rm_user ` set (db_removals d)"

definition suspendedByQ :: "db \<Rightarrow> string \<Rightarrow> string" where
  "suspendedByQ d u = (case userRow d u of
     None \<Rightarrow> '''' | Some r \<Rightarrow> (case u_suspended r of None \<Rightarrow> '''' | Some q \<Rightarrow> q))"

text \<open>\<open>GetPublicKey\<close>: the owner column, or for a remote key the owner its id names.\<close>

definition getPublicKey :: "db \<Rightarrow> string \<Rightarrow> key option" where
  "getPublicKey d i = (case rowBy pk_id i (db_keys d) of
     None \<Rightarrow> None
   | Some r \<Rightarrow> Some \<lparr>
       key_id = pk_id r,
       key_user = (case pk_owner r of Some o' \<Rightarrow> o'
         | None \<Rightarrow> (case parseKeyFingerprint (pk_id r) of
             Some (ownerID, ownerServer, _) \<Rightarrow> canonicalID ownerServer ownerID
           | None \<Rightarrow> '''')),
       key_armor = pk_armor r,
       key_revoked = (i \<in> kr_key ` set (db_key_revocations d) \<or>
         (\<exists>p \<in> set (db_private_keys d). fst p = i \<and> snd p \<noteq> None)),
       key_restricted = pk_restricted r\<rparr>)"

text \<open>\<open>GetServerByID\<close>: an approved peer, nil once revoked.\<close>

definition getServerByID :: "db \<Rightarrow> string \<Rightarrow> meshRow option" where
  "getServerByID d s = List.find (\<lambda>m. sm_server m = s \<and> sm_revoked_at m = None) (db_mesh d)"

text \<open>\<open>UpsertRemoteIdentity\<close> and the identity insert of \<open>CachePeerUserKey\<close>.\<close>

definition upsertIdentity :: "string \<Rightarrow> db \<Rightarrow> db" where
  "upsertIdentity u d =
     (if u \<in> set (db_identities d) then d else d\<lparr>db_identities := db_identities d @ [u]\<rparr>)"

definition cachePeerUserKey :: "key \<Rightarrow> serverSig \<Rightarrow> gotime \<Rightarrow> db \<Rightarrow> db" where
  "cachePeerUserKey k sig now d =
     (let d = upsertIdentity (key_user k) d in
      if key_id k \<in> pk_id ` set (db_keys d) then d
      else d\<lparr>db_keys := db_keys d @ [\<lparr>pk_id = key_id k, pk_owner = Some (key_user k),
        pk_armor = key_armor k, pk_created = now, pk_server_sig = Some sig, pk_predecessor = None,
        pk_restricted = False\<rparr>]\<rparr>)"

text \<open>
  \<open>fetchPeerServerKeyArmor\<close> pins a peer's answer to the fingerprint it was asked for;
  \<open>verifyAndCachePeerUserKey\<close> then checks the peer's countersignature over the user key it served.
\<close>

definition fetchPeerServerKeyArmor :: "env \<Rightarrow> string \<Rightarrow> string \<Rightarrow> err + string" where
  "fetchPeerServerKeyArmor E serverID fingerprint =
     (case e_fetch_key E serverID (canonicalID serverID fingerprint) of
        Some (Some (k, _)) \<Rightarrow>
          (case e_extract_fingerprint E (key_armor k) of
             None \<Rightarrow> Inl (Internal ''parse peer server key'')
           | Some actual \<Rightarrow>
               if actual \<noteq> fingerprint then Inl (Internal ''pinned fingerprint'')
               else Inr (key_armor k))
      | _ \<Rightarrow> Inl (Internal ''fetch peer server key''))"

definition verifyAndCachePeerUserKey ::
    "env \<Rightarrow> string \<Rightarrow> key \<times> serverSig \<Rightarrow> gotime \<Rightarrow> db \<Rightarrow> err + key option \<times> db" where
  "verifyAndCachePeerUserKey E peerServerID ks now d =
     (case parseIdentityID (ss_id (snd ks)) of
        None \<Rightarrow> Inl (Internal ''malformed peer key server signature id'')
      | Some (peerKeyServerFingerprint, _) \<Rightarrow>
          bindR (fetchPeerServerKeyArmor E peerServerID peerKeyServerFingerprint) (\<lambda>serverKeyArmor.
            if identityServerID (key_user (fst ks)) \<noteq> Some peerServerID then
              Inl (Internal ''key for a different server'')
            else if \<not> e_verify E
                (buildPublicKeyPayload (e_jcs E) peerServerID (key_user (fst ks)) (key_id (fst ks))
                  peerKeyServerFingerprint (key_armor (fst ks)) (ss_at (snd ks)))
                (ss_armor (snd ks)) serverKeyArmor then
              Inl (Internal ''key countersignature'')
            else Inr (Some (fst ks), cachePeerUserKey (fst ks) (snd ks) now d)))"

text \<open>\<open>resolvePublicKey\<close>: a key this server holds, or one its home peer serves, verified and cached.\<close>

definition resolvePublicKey :: "env \<Rightarrow> gotime \<Rightarrow> string \<Rightarrow> db \<Rightarrow> err + key option \<times> db" where
  "resolvePublicKey E now i d = (case getPublicKey d i of
     Some k \<Rightarrow> Inr (Some k, d)
   | None \<Rightarrow> (case parseKeyFingerprint i of
       None \<Rightarrow> Inr (None, d)
     | Some (_, embeddedServerID, _) \<Rightarrow>
         if embeddedServerID = e_server_id E then Inr (None, d)
         else (case getServerByID d embeddedServerID of
             None \<Rightarrow> Inr (None, d)
           | Some _ \<Rightarrow> (case e_fetch_key E embeddedServerID i of
                 None \<Rightarrow> Inl (Internal ''fetch peer user key'')
               | Some None \<Rightarrow> Inr (None, d)
               | Some (Some ks) \<Rightarrow> verifyAndCachePeerUserKey E embeddedServerID ks now d))))"

lemma userRow_updUser:
  "(\<And>r. u_id (f r) = u_id r) \<Longrightarrow>
     userRow (updUser u f d) v = (if u = v then map_option f (userRow d v) else userRow d v)"
  by (auto simp: userRow_def updUser_def rowBy_updWhere option.map_ident_strong
      dest: rowBy_Some intro!: map_option_cong option.map_ident_strong)

lemma userRow_id: "userRow d u = Some r \<Longrightarrow> u_id r = u"
  by (auto simp: userRow_def dest: rowBy_Some)

end
