(* ===== verification/Permissions.thy ===== *)
theory Permissions
  imports Store
begin

text \<open>
  Admin permissions and the rules on who may act: the constants of \<open>admin.go\<close>, the permission-set
  and invite-count grammars, what a user holds, what an action needs, and the check that an actor
  holds it.  Lemmas: both grammars have exactly one spelling per value; a passed check means the
  actor holds everything the request needs and everything it grants.
\<close>

subsection \<open>Constants\<close>

definition permAdminCreate :: string where "permAdminCreate = ''admin.create''"
definition permAdminDemote :: string where "permAdminDemote = ''admin.demote''"
definition permUserKick :: string where "permUserKick = ''user.kick''"
definition permUserSuspend :: string where "permUserSuspend = ''user.suspend''"
definition permUserRebind :: string where "permUserRebind = ''user.rebind''"
definition permUserInvites :: string where "permUserInvites = ''user.invites''"
definition permMessageUnicast :: string where "permMessageUnicast = ''message.unicast''"
definition permMessageBroadcast :: string where "permMessageBroadcast = ''message.broadcast''"
definition permMeshInvite :: string where "permMeshInvite = ''mesh.invite''"
definition permMeshConnect :: string where "permMeshConnect = ''mesh.connect''"
definition permMeshDisconnect :: string where "permMeshDisconnect = ''mesh.disconnect''"

definition adminPermissions :: "string list" where
  "adminPermissions = [permAdminCreate, permAdminDemote, permUserKick, permUserSuspend,
     permUserRebind, permUserInvites, permMessageUnicast, permMessageBroadcast,
     permMeshInvite, permMeshConnect, permMeshDisconnect]"

definition adminActionSuspend :: string where "adminActionSuspend = ''suspend''"
definition adminActionReinstate :: string where "adminActionReinstate = ''reinstate''"
definition adminActionKick :: string where "adminActionKick = ''kick''"
definition adminActionPromote :: string where "adminActionPromote = ''promote''"
definition adminActionDemote :: string where "adminActionDemote = ''demote''"
definition adminActionPermissions :: string where "adminActionPermissions = ''permissions''"
definition adminActionRebind :: string where "adminActionRebind = ''rebind''"
definition adminActionInvites :: string where "adminActionInvites = ''invites''"
definition adminActionBroadcast :: string where "adminActionBroadcast = ''broadcast''"
definition adminActionUnicast :: string where "adminActionUnicast = ''unicast''"

definition adminStatePending :: string where "adminStatePending = ''pending''"
definition adminStateExecuted :: string where "adminStateExecuted = ''executed''"
definition adminStateRejected :: string where "adminStateRejected = ''rejected''"
definition adminStateWithdrawn :: string where "adminStateWithdrawn = ''withdrawn''"
definition adminStateMoot :: string where "adminStateMoot = ''moot''"

definition adminDecisionApprove :: string where "adminDecisionApprove = ''approve''"
definition adminDecisionReject :: string where "adminDecisionReject = ''reject''"
definition adminDecisionWithdraw :: string where "adminDecisionWithdraw = ''withdraw''"

lemmas perm_defs = permAdminCreate_def permAdminDemote_def permUserKick_def permUserSuspend_def
  permUserRebind_def permUserInvites_def permMessageUnicast_def permMessageBroadcast_def
  permMeshInvite_def permMeshConnect_def permMeshDisconnect_def

lemmas action_defs = adminActionSuspend_def adminActionReinstate_def adminActionKick_def
  adminActionPromote_def adminActionDemote_def adminActionPermissions_def adminActionRebind_def
  adminActionInvites_def adminActionBroadcast_def adminActionUnicast_def

lemmas state_defs = adminStatePending_def adminStateExecuted_def adminStateRejected_def
  adminStateWithdrawn_def adminStateMoot_def

lemmas decision_defs = adminDecisionApprove_def adminDecisionReject_def adminDecisionWithdraw_def

lemmas [const_defs] = perm_defs action_defs state_defs decision_defs

text \<open>\<open>adminActionPermission\<close>: a lookup of an absent action is the empty string.\<close>

definition adminActionPermission :: "string \<Rightarrow> string option" where
  "adminActionPermission action =
     map_of [(adminActionSuspend, permUserSuspend), (adminActionReinstate, permUserSuspend),
       (adminActionKick, permUserKick), (adminActionPromote, permAdminCreate),
       (adminActionDemote, permAdminDemote), (adminActionRebind, permUserRebind),
       (adminActionInvites, permUserInvites), (adminActionBroadcast, permMessageBroadcast),
       (adminActionUnicast, permMessageUnicast)] action"

definition actionPermission :: "string \<Rightarrow> string" where
  "actionPermission action = (case adminActionPermission action of None \<Rightarrow> '''' | Some p \<Rightarrow> p)"

definition mailActions :: "string list" where
  "mailActions = [adminActionBroadcast, adminActionUnicast]"

definition hiddenAdminActions :: "string list \<Rightarrow> string list" where
  "hiddenAdminActions perms = filter (\<lambda>a. actionPermission a \<notin> set perms) mailActions"

definition adminActionNeedsOutsideApprover :: "string \<Rightarrow> bool" where
  "adminActionNeedsOutsideApprover action \<longleftrightarrow>
     action \<in> {adminActionKick, adminActionPromote, adminActionDemote, adminActionPermissions}"

definition decisionForState :: "string \<Rightarrow> string" where
  "decisionForState state =
     (if state = adminStateExecuted then adminDecisionApprove
      else if state = adminStateRejected then adminDecisionReject
      else if state = adminStateWithdrawn then adminDecisionWithdraw
      else '''')"

definition stateForDecision :: "string \<Rightarrow> string" where
  "stateForDecision decision =
     (if decision = adminDecisionApprove then adminStateExecuted
      else if decision = adminDecisionReject then adminStateRejected
      else if decision = adminDecisionWithdraw then adminStateWithdrawn
      else '''')"

lemma decisionForState_stateForDecision:
  "stateForDecision dec \<noteq> '''' \<Longrightarrow> decisionForState (stateForDecision dec) = dec"
  by (auto simp: stateForDecision_def decisionForState_def state_defs split: if_splits)

lemma stateForDecision_closed: "stateForDecision dec \<noteq> adminStatePending"
  by (simp add: stateForDecision_def state_defs)

lemma stateForDecision_executed:
  "stateForDecision dec = adminStateExecuted \<longleftrightarrow> dec = adminDecisionApprove"
  by (auto simp: stateForDecision_def state_defs decision_defs)

lemma stateForDecision_not_moot: "stateForDecision dec \<noteq> adminStateMoot"
  by (simp add: stateForDecision_def state_defs)

subsection \<open>Permission sets\<close>

text \<open>The loop of \<open>parsePermissionSet\<close>; \<open>prev\<close> is \<open>perms[i-1]\<close>.\<close>

fun checkPermissionSet :: "string option \<Rightarrow> string list \<Rightarrow> string option" where
  "checkPermissionSet prev [] = None"
| "checkPermissionSet prev (p # ps) =
     (if p \<notin> set adminPermissions then Some ''unknown permission''
      else if (case prev of None \<Rightarrow> False | Some q \<Rightarrow> p \<le> q) then Some ''permissions must be sorted and unique''
      else checkPermissionSet (Some p) ps)"

definition parsePermissionSet :: "string \<Rightarrow> string + string list" where
  "parsePermissionSet body =
     (if body = '''' then Inr []
      else let perms = splitOn (CHR '','') body in
        case checkPermissionSet None perms of Some e \<Rightarrow> Inl e | None \<Rightarrow> Inr perms)"

definition formatPermissionSet :: "string list \<Rightarrow> string" where
  "formatPermissionSet perms = joinOn (CHR '','') (compact (sortStrings perms))"

lemma adminPermissions_word: "p \<in> set adminPermissions \<Longrightarrow> CHR '','' \<notin> set p \<and> p \<noteq> ''''"
  unfolding adminPermissions_def perm_defs by auto

lemma checkPermissionSet_None:
  "checkPermissionSet prev ps = None \<longleftrightarrow>
     set ps \<subseteq> set adminPermissions \<and> sorted_wrt (<) (case prev of None \<Rightarrow> ps | Some q \<Rightarrow> q # ps)"
proof (induction ps arbitrary: prev)
  case Nil
  then show ?case by (cases prev) auto
next
  case (Cons p ps)
  then show ?case by (cases prev) (auto simp: not_le dest: less_trans)
qed

lemma sorted_wrt_less_iff: "sorted_wrt (<) xs \<longleftrightarrow> sorted xs \<and> distinct (xs :: string list)"
  by (rule strict_sorted_iff)

lemma parsePermissionSet_Inr:
  "parsePermissionSet body = Inr perms \<longleftrightarrow>
     set perms \<subseteq> set adminPermissions \<and> sorted perms \<and> distinct perms \<and> body = joinOn (CHR '','') perms"
  (is "?parsed \<longleftrightarrow> ?spec")
proof
  assume ?parsed
  then show ?spec
    by (auto simp: parsePermissionSet_def Let_def checkPermissionSet_None sorted_wrt_less_iff
        joinOn_splitOn split: if_splits option.splits)
next
  assume spec: ?spec
  show ?parsed
  proof (cases perms)
    case Nil
    with spec show ?thesis by (simp add: parsePermissionSet_def)
  next
    case (Cons p ps)
    have "splitOn (CHR '','') body = perms"
      using spec Cons adminPermissions_word by (simp add: splitOn_joinOn subset_iff)
    moreover have "body \<noteq> ''''"
      using spec Cons adminPermissions_word [of p] by (cases ps; cases p) (auto simp: joinOn_Cons_char)
    moreover have "checkPermissionSet None perms = None"
      using spec by (simp only: checkPermissionSet_None option.case sorted_wrt_less_iff simp_thms)
    ultimately show ?thesis
      by (simp add: parsePermissionSet_def Let_def)
  qed
qed

lemma compact_sorted:
  fixes xs :: "string list"
  assumes "sorted xs"
  shows "sorted (compact xs) \<and> distinct (compact xs) \<and> set (compact xs) = set xs"
  using assms compact_distinct [of "compact xs"]
  by (simp add: compact_def distinct_adj_altdef [THEN iffD1, OF distinct_adj_remdups_adj])

lemma parse_formatPermissionSet:
  assumes "set perms \<subseteq> set adminPermissions"
  shows "parsePermissionSet (formatPermissionSet perms) = Inr (compact (sortStrings perms))"
  using assms compact_sorted [of "sortStrings perms"]
  by (simp add: parsePermissionSet_Inr formatPermissionSet_def)

lemma format_parsePermissionSet:
  "parsePermissionSet body = Inr perms \<Longrightarrow> formatPermissionSet perms = body"
  by (auto simp: parsePermissionSet_Inr formatPermissionSet_def sortStrings_id compact_def
      remdups_adj_distinct)

subsection \<open>Invite counts\<close>

definition maxInviteGrant :: int where "maxInviteGrant = 100"
definition maxInvitesUnlimited :: int where "maxInvitesUnlimited = - 1"

definition parseInviteGrant :: "string \<Rightarrow> int option" where
  "parseInviteGrant body = (case atoi body of
     None \<Rightarrow> None
   | Some n \<Rightarrow> if itoa n \<noteq> body then None else if n < 1 \<or> maxInviteGrant < n then None else Some n)"

lemma parseInviteGrant_Some:
  "parseInviteGrant body = Some n \<longleftrightarrow> 1 \<le> n \<and> n \<le> maxInviteGrant \<and> body = itoa n"
proof
  assume "parseInviteGrant body = Some n"
  then show "1 \<le> n \<and> n \<le> maxInviteGrant \<and> body = itoa n"
    by (auto simp: parseInviteGrant_def split: option.splits if_splits)
next
  assume n: "1 \<le> n \<and> n \<le> maxInviteGrant \<and> body = itoa n"
  then have "atoi body = Some n" by (simp add: atoi_itoa maxInviteGrant_def)
  with n show "parseInviteGrant body = Some n" by (simp add: parseInviteGrant_def)
qed

subsection \<open>The request a signature covers\<close>

definition remainingTargets :: "adminRequest \<Rightarrow> string list" where
  "remainingTargets r = filter (\<lambda>t. t \<notin> set (rq_dropped r)) (rq_targets r)"

definition requestPayload :: "env \<Rightarrow> adminRequest \<Rightarrow> string" where
  "requestPayload E r = buildAdminRequestPayload (e_jcs E) (rq_id r) (rq_action r) (rq_requester r)
     (us_id (rq_sig r)) (rq_reason r) (rq_targets r) (rq_body r) (rq_created r)"

lemma remainingTargets_no_drop: "rq_dropped r = [] \<Longrightarrow> remainingTargets r = rq_targets r"
  by (simp add: remainingTargets_def)

subsection \<open>What a user holds and an action needs\<close>

definition userPermissionsQ :: "db \<Rightarrow> string \<Rightarrow> string \<Rightarrow> string \<Rightarrow> string list" where
  "userPermissionsQ d userID role serverID =
     (if isRoot userID role serverID then sortStrings adminPermissions
      else if role \<noteq> roleAdmin then []
      else sortStrings (map snd (filter (\<lambda>(u, p). u = userID) (db_permissions d))))"

definition getUserPermissions :: "env \<Rightarrow> db \<Rightarrow> string \<Rightarrow> string list" where
  "getUserPermissions E d userID = userPermissionsQ d userID (userRoleQ d userID) (e_server_id E)"

text \<open>The SQL function \<open>invite_creator\<close>: what precedes the last slash.\<close>

definition inviteCreator :: "string \<Rightarrow> string" where
  "inviteCreator i = (case splitLast (CHR ''/'') i of None \<Rightarrow> i | Some (u, _) \<Rightarrow> u)"

definition invitedByQ :: "db \<Rightarrow> string \<Rightarrow> string \<Rightarrow> bool" where
  "invitedByQ d inviterID userID \<longleftrightarrow> (case userRow d userID of
     None \<Rightarrow> False
   | Some r \<Rightarrow> (case u_invite r of None \<Rightarrow> False | Some i \<Rightarrow> inviteCreator i = inviterID))"

definition targetCountFits :: "string \<Rightarrow> nat \<Rightarrow> bool" where
  "targetCountFits action n \<longleftrightarrow>
     (if action = adminActionBroadcast then n = 0
      else if action \<in> {adminActionUnicast, adminActionPromote, adminActionDemote,
        adminActionPermissions, adminActionRebind, adminActionInvites} then n = 1
      else 1 \<le> n)"

definition grantedPermissions :: "adminRequest \<Rightarrow> string + string list" where
  "grantedPermissions req =
     (if rq_action req \<noteq> adminActionPromote \<and> rq_action req \<noteq> adminActionPermissions then Inr []
      else parsePermissionSet (rq_body req))"

text \<open>\<open>req.Targets[0]\<close> of an empty slice panics.\<close>

definition firstTarget :: "adminRequest \<Rightarrow> err + string" where
  "firstTarget req = (case rq_targets req of
     [] \<Rightarrow> Inl (Internal ''panic: index out of range'') | t # _ \<Rightarrow> Inr t)"

definition requiredPermissionsQ :: "db \<Rightarrow> adminRequest \<Rightarrow> string \<Rightarrow> err + string list" where
  "requiredPermissionsQ d req serverID =
     (if rq_action req \<noteq> adminActionPermissions then Inr [actionPermission (rq_action req)]
      else (case grantedPermissions req of
          Inl e \<Rightarrow> Inl (refuse 400 ''bad_permissions'')
        | Inr nxt \<Rightarrow> bindR (firstTarget req) (\<lambda>target.
            let current = userPermissionsQ d target (userRoleQ d target) serverID;
                required = (if list_ex (\<lambda>p. p \<notin> set current) nxt then [permAdminCreate] else []) @
                           (if list_ex (\<lambda>p. p \<notin> set nxt) current then [permAdminDemote] else [])
            in if required = [] then Inl (refuse 409 ''permissions_unchanged'') else Inr required)))"

definition checkActorPermissionsQ ::
    "db \<Rightarrow> adminRequest \<Rightarrow> string \<Rightarrow> string \<Rightarrow> string \<Rightarrow> err option" where
  "checkActorPermissionsQ d req actorID actorRole serverID =
     (case requiredPermissionsQ d req serverID of
        Inl e \<Rightarrow> Some e
      | Inr required \<Rightarrow> (case grantedPermissions req of
          Inl e \<Rightarrow> Some (refuse 400 ''bad_permissions'')
        | Inr granted \<Rightarrow>
            firstErr (\<lambda>p. if p \<notin> set (userPermissionsQ d actorID actorRole serverID)
                then Some (refuse 403 ''missing_permission'') else None) (required @ granted)))"

lemma set_userPermissionsQ:
  "p \<in> set (userPermissionsQ d u role s) \<longleftrightarrow>
     isRoot u role s \<and> p \<in> set adminPermissions \<or>
     \<not> isRoot u role s \<and> role = roleAdmin \<and> (u, p) \<in> set (db_permissions d)"
  by (auto simp: userPermissionsQ_def intro: image_eqI [where x = "(u, p)"])

lemma userPermissionsQ_plain_user: "\<not> isAdmin role \<Longrightarrow> userPermissionsQ d u role s = []"
  by (auto simp: userPermissionsQ_def isAdmin_def isRoot_def)

lemma checkActorPermissionsQ_None:
  "checkActorPermissionsQ d req a role s = None \<longleftrightarrow>
     (\<exists>required granted. requiredPermissionsQ d req s = Inr required \<and>
        grantedPermissions req = Inr granted \<and>
        set required \<union> set granted \<subseteq> set (userPermissionsQ d a role s))"
  by (auto simp: checkActorPermissionsQ_def firstErr_None split: sum.splits if_splits)

lemma checkActorPermissionsQ_granted:
  assumes "checkActorPermissionsQ d req a role s = None"
    and "rq_action req = adminActionPromote \<or> rq_action req = adminActionPermissions"
    and "parsePermissionSet (rq_body req) = Inr perms"
  shows "set perms \<subseteq> set (userPermissionsQ d a role s)"
  using assms by (auto simp: checkActorPermissionsQ_None grantedPermissions_def)

lemma actionPermission_known:
  "adminActionPermission a \<noteq> None \<Longrightarrow> actionPermission a \<in> set adminPermissions"
  by (auto simp: adminActionPermission_def actionPermission_def adminPermissions_def split: if_splits)

lemma checkActorPermissionsQ_admin:
  "checkActorPermissionsQ d req a role s = None \<Longrightarrow> isAdmin role"
proof (rule ccontr)
  assume c: "checkActorPermissionsQ d req a role s = None" and "\<not> isAdmin role"
  then obtain required where "requiredPermissionsQ d req s = Inr required" "required = []"
    by (auto simp: checkActorPermissionsQ_None userPermissionsQ_plain_user)
  then show False
    by (auto simp: requiredPermissionsQ_def bindR_Inr Let_def split: if_splits sum.splits)
qed

subsection \<open>Callers\<close>

text \<open>\<open>adminCaller\<close>: the signed-in caller with their role, or its 401.\<close>

definition adminCaller :: "db \<Rightarrow> string option \<Rightarrow> 'a answer + string \<times> string" where
  "adminCaller d caller = (case caller of
     None \<Rightarrow> Inl (Fail 401 ''Authentication required'')
   | Some u \<Rightarrow> if u = '''' then Inl (Fail 401 ''Authentication required'') else Inr (u, userRoleQ d u))"

text \<open>\<open>callerSigningKey\<close>: one of the caller's own, unrevoked keys.\<close>

definition callerSigningKey :: "db \<Rightarrow> string \<Rightarrow> string \<Rightarrow> err + key" where
  "callerSigningKey d keyID userID = (case getPublicKey d keyID of
     None \<Rightarrow> Inl (refuse 401 ''bad_key'')
   | Some k \<Rightarrow> if key_user k \<noteq> userID \<or> key_revoked k then Inl (refuse 401 ''bad_key'') else Inr k)"

lemma callerSigningKey_Inr:
  "callerSigningKey d i u = Inr k \<longleftrightarrow>
     getPublicKey d i = Some k \<and> key_user k = u \<and> \<not> key_revoked k"
  by (auto simp: callerSigningKey_def split: option.splits)

text \<open>\<open>GET /admin/users/{userID}/permissions\<close>: the role and the permissions.\<close>

definition getUserPermissionsHandler ::
    "env \<Rightarrow> db \<Rightarrow> string option \<Rightarrow> string \<Rightarrow> (string \<times> string list) answer" where
  "getUserPermissionsHandler E d caller userID = (case adminCaller d caller of
     Inl a \<Rightarrow> a
   | Inr (callerID, callerRole) \<Rightarrow>
       if userID \<noteq> callerID \<and> \<not> isAdmin callerRole then Fail 403 ''Admin required''
       else if userRoleQ d userID = '''' then Fail 404 ''User not found''
       else Done 200 (userRoleQ d userID, getUserPermissions E d userID))"

end
