(* ===== verification/Paging.thy ===== *)
theory Paging
  imports Prelude "HOL-Library.Product_Lexorder"
begin

text \<open>
  Keyset pagination as the listings of \<open>admin.go\<close> and \<open>flags.go\<close> do it: the rows below the cursor,
  newest first, one more than the limit read to know whether there is a next page, and the last
  row's key as its cursor.  The lemmas show that following the cursors lists every row once, in
  order.  A cursor is the key itself: its base64 JSON spelling is not modelled.
\<close>

definition keysetOrder :: "('r \<Rightarrow> 'k::linorder) \<Rightarrow> 'r list \<Rightarrow> 'r list" where
  "keysetOrder key rows = rev (sort_key key rows)"

definition keysetPage ::
    "('r \<Rightarrow> 'k::linorder) \<Rightarrow> nat \<Rightarrow> 'k option \<Rightarrow> 'r list \<Rightarrow> 'r list \<times> 'k option" where
  "keysetPage key limit cursor rows =
     (let sel = (case cursor of None \<Rightarrow> rows | Some c \<Rightarrow> filter (\<lambda>r. key r < c) rows);
          got = take (limit + 1) (keysetOrder key sel)
      in if limit < length got then (take limit got, Some (key (got ! (limit - 1))))
         else (got, None))"

text \<open>A client that follows the cursors, for at most \<open>n\<close> pages.\<close>

fun keysetPages :: "('r \<Rightarrow> 'k::linorder) \<Rightarrow> nat \<Rightarrow> 'r list \<Rightarrow> nat \<Rightarrow> 'k option \<Rightarrow> 'r list list" where
  "keysetPages key limit rows 0 cursor = []"
| "keysetPages key limit rows (Suc n) cursor =
     (case keysetPage key limit cursor rows of
        (page, None) \<Rightarrow> [page]
      | (page, Some c) \<Rightarrow> page # keysetPages key limit rows n (Some c))"

lemma set_keysetOrder [simp]: "set (keysetOrder key rows) = set rows"
  by (simp add: keysetOrder_def)

lemma length_keysetOrder [simp]: "length (keysetOrder key rows) = length rows"
  by (simp add: keysetOrder_def)

lemma keysetOrder_filter: "keysetOrder key (filter p rows) = filter p (keysetOrder key rows)"
  by (simp add: keysetOrder_def filter_sort [symmetric] rev_filter)

lemma keysetOrder_decreasing:
  assumes "uniqueBy key rows"
  shows "sorted_wrt (\<lambda>a b. key b < key a) (keysetOrder key rows)"
proof -
  have "distinct (map key (sort_key key rows))"
    using assms by (simp add: distinct_map)
  then have "sorted_wrt (<) (map key (sort_key key rows))"
    by (simp add: strict_sorted_iff)
  then have "sorted_wrt (\<lambda>a b. key a < key b) (sort_key key rows)"
    by (simp add: sorted_wrt_map)
  then show ?thesis by (simp add: keysetOrder_def sorted_wrt_rev)
qed

lemma filter_below:
  assumes "sorted_wrt (\<lambda>a b. key b < key a) (xs @ x # ys)"
  shows "filter (\<lambda>r. key r < (key x :: 'k::linorder)) (xs @ x # ys) = ys"
proof -
  have "\<forall>a \<in> set xs. \<not> key a < key x" "\<forall>b \<in> set ys. key b < key x"
    using assms by (auto simp: sorted_wrt_append)
  then show ?thesis by (simp add: filter_empty_conv)
qed

lemma keysetPage_split:
  assumes S: "keysetOrder key sel = s"
    and sel: "sel = (case cursor of None \<Rightarrow> rows | Some c \<Rightarrow> filter (\<lambda>r. key r < c) rows)"
  shows "keysetPage key limit cursor rows =
     (take limit s, if limit < length s then Some (key (s ! (limit - 1))) else None)"
  unfolding keysetPage_def sel [symmetric] Let_def S
  by (cases "limit = 0") auto

text \<open>The pages after a cursor are what is left of the ordered rows.\<close>

lemma keysetPages_from:
  assumes "uniqueBy key rows" and "0 < limit"
    and "keysetOrder key (case cursor of None \<Rightarrow> rows | Some c \<Rightarrow> filter (\<lambda>r. key r < c) rows) =
           drop m (keysetOrder key rows)"
    and "length rows \<le> m + n * limit" and "0 < n"
  shows "concat (keysetPages key limit rows n cursor) = drop m (keysetOrder key rows)"
  using assms(3-5)
proof (induction n arbitrary: cursor m)
  case (Suc n)
  let ?S = "keysetOrder key rows"
  let ?s = "drop m ?S"
  have page: "keysetPage key limit cursor rows =
     (take limit ?s, if limit < length ?s then Some (key (?s ! (limit - 1))) else None)"
    by (rule keysetPage_split [OF Suc.prems(1) refl])
  show ?case
  proof (cases "limit < length ?s")
    case True
    define x where "x = ?s ! (limit - 1)"
    have "?S = take (m + (limit - 1)) ?S @ x # drop (m + limit) ?S"
      using id_take_nth_drop [of "m + (limit - 1)" ?S] True assms(2)
      by (simp add: x_def)
    then have "filter (\<lambda>r. key r < key x) ?S = drop (m + limit) ?S"
      using filter_below keysetOrder_decreasing [OF assms(1)] by metis
    then have nxt: "keysetOrder key (case Some (key x) of None \<Rightarrow> rows
         | Some c \<Rightarrow> filter (\<lambda>r. key r < c) rows) = drop (m + limit) ?S"
      by (simp add: keysetOrder_filter)
    have n: "0 < n" using Suc.prems(2) True by (cases n) auto
    have "concat (keysetPages key limit rows n (Some (key x))) = drop (m + limit) ?S"
      using Suc.prems(2) n by (intro Suc.IH [OF nxt]) (simp_all add: algebra_simps)
    then show ?thesis
      using True page by (simp add: x_def add.commute append_take_drop_id flip: drop_drop)
  qed (use page in simp)
qed simp

lemma keysetPages_complete:
  assumes "uniqueBy key rows" and "0 < limit" and "length rows \<le> n * limit" and "0 < n"
  shows "concat (keysetPages key limit rows n None) = keysetOrder key rows"
  using keysetPages_from [of key rows limit None 0 n] assms by simp

lemma keysetPage_subset: "set (fst (keysetPage key limit cursor rows)) \<subseteq> set rows"
  by (auto simp: keysetPage_def Let_def split: option.splits dest!: in_set_takeD)

lemma keysetPage_length: "length (fst (keysetPage key limit cursor rows)) \<le> limit"
  by (auto simp: keysetPage_def Let_def)

end
