(* ===== verification/Requests.thy ===== *)
theory Requests
  imports Permissions Paging
begin

text \<open>
  The stored admin requests: scanning, loading, inserting and closing a request (\<open>admin.go\<close>), and
  the listing.  A request's row carries its content and its targets with their dropped marks.
  Lemmas: a stored request reads back as it was opened, a closed one as it was closed, and the
  listing never shows a private message to an admin who may not read it.
\<close>

subsection \<open>Loading\<close>

definition scanAdminRequest :: "requestRow \<Rightarrow> adminRequest" where
  "scanAdminRequest r = \<lparr>rq_id = rr_id r, rq_action = rr_action r, rq_requester = rr_requester r,
     rq_reason = (case rr_reason r of None \<Rightarrow> '''' | Some s \<Rightarrow> s),
     rq_targets = sortStrings (map fst (rr_targets r)),
     rq_dropped = sortStrings (map fst (filter snd (rr_targets r))),
     rq_body = (case rr_body r of None \<Rightarrow> '''' | Some b \<Rightarrow> b),
     rq_created = rr_created r, rq_sig = rr_sig r, rq_opened = rr_opened r, rq_state = rr_state r,
     rq_decision = map_option (\<lambda>(who, sig). \<lparr>ad_decision = decisionForState (rr_state r),
       ad_decider = who, ad_sig = sig\<rparr>) (rr_closed_by r),
     rq_closed = rr_server_sig r\<rparr>"

definition getAdminRequestQ :: "db \<Rightarrow> string \<Rightarrow> adminRequest option" where
  "getAdminRequestQ d i = map_option scanAdminRequest (rowBy rr_id i (db_requests d))"

lemma getAdminRequestQ_Some:
  "getAdminRequestQ d i = Some req \<longleftrightarrow>
     (\<exists>r. rowBy rr_id i (db_requests d) = Some r \<and> req = scanAdminRequest r)"
  by (auto simp: getAdminRequestQ_def)

lemma getAdminRequestQ_id: "getAdminRequestQ d i = Some req \<Longrightarrow> rq_id req = i"
  by (auto simp: getAdminRequestQ_Some scanAdminRequest_def dest: rowBy_Some)

lemma scanAdminRequest_dropped: "set (rq_dropped (scanAdminRequest r)) \<subseteq> set (rq_targets (scanAdminRequest r))"
  by (auto simp: scanAdminRequest_def)

subsection \<open>Opening\<close>

text \<open>The table's \<open>CHECK\<close>s, and the key of the targets table.\<close>

definition adminActions :: "string list" where
  "adminActions = [adminActionSuspend, adminActionReinstate, adminActionKick, adminActionPromote,
     adminActionDemote, adminActionPermissions, adminActionRebind, adminActionInvites,
     adminActionBroadcast, adminActionUnicast]"

definition requestRowFits :: "requestRow \<Rightarrow> bool" where
  "requestRowFits r \<longleftrightarrow> rr_action r \<in> set adminActions \<and>
     (rr_action r \<in> set mailActions \<longleftrightarrow> rr_reason r = None) \<and> distinct (map fst (rr_targets r))"

definition requestRowOf :: "adminRequest \<Rightarrow> requestRow" where
  "requestRowOf req = \<lparr>rr_id = rq_id req, rr_action = rq_action req, rr_requester = rq_requester req,
     rr_reason = (if rq_reason req = '''' then None else Some (rq_reason req)),
     rr_created = rq_created req, rr_sig = rq_sig req, rr_opened = rq_opened req,
     rr_state = adminStatePending,
     rr_body = (if rq_body req = '''' then None else Some (rq_body req)),
     rr_targets = map (\<lambda>t. (t, False)) (rq_targets req), rr_closed_by = None, rr_server_sig = None\<rparr>"

definition insertAdminRequestTx :: "adminRequest \<Rightarrow> db \<Rightarrow> err + unit \<times> db" where
  "insertAdminRequestTx req d =
     (if rq_id req \<in> rr_id ` set (db_requests d) then Inl (Sentinel ''ErrAdminRequestExists'')
      else if \<not> requestRowFits (requestRowOf req) then Inl (Internal ''insert admin request'')
      else Inr ((), d\<lparr>db_requests := db_requests d @ [requestRowOf req]\<rparr>))"

text \<open>A request as \<open>OpenAdminRequest\<close> builds it: pending, undecided, with sorted targets.\<close>

definition freshRequest :: "adminRequest \<Rightarrow> bool" where
  "freshRequest req \<longleftrightarrow> rq_state req = adminStatePending \<and> rq_dropped req = [] \<and>
     rq_decision req = None \<and> rq_closed req = None \<and> sorted (rq_targets req)"

lemma scan_requestRowOf: "freshRequest req \<Longrightarrow> scanAdminRequest (requestRowOf req) = req"
  by (cases req) (simp add: scanAdminRequest_def requestRowOf_def freshRequest_def comp_def
      sortStrings_id filter_map)

lemma insertAdminRequestTx_get:
  assumes "insertAdminRequestTx req d = Inr (u, d')" and "freshRequest req"
  shows "getAdminRequestQ d' (rq_id req) = Some req"
    and "i \<noteq> rq_id req \<Longrightarrow> getAdminRequestQ d' i = getAdminRequestQ d i"
proof -
  have d': "d' = d\<lparr>db_requests := db_requests d @ [requestRowOf req]\<rparr>"
    and new: "rowBy rr_id (rq_id req) (db_requests d) = None"
    using assms(1) by (auto simp: insertAdminRequestTx_def rowBy_None split: if_splits)
  have "rr_id (requestRowOf req) = rq_id req" by (simp add: requestRowOf_def)
  then show "getAdminRequestQ d' (rq_id req) = Some req"
    "i \<noteq> rq_id req \<Longrightarrow> getAdminRequestQ d' i = getAdminRequestQ d i"
    using new scan_requestRowOf [OF assms(2)]
    by (auto simp: getAdminRequestQ_def d' rowBy_append split: option.splits)
qed

subsection \<open>Closing\<close>

definition closeAdminRequestTx ::
    "adminRequest \<Rightarrow> string \<Rightarrow> adminDecision option \<Rightarrow> serverSig \<Rightarrow> db \<Rightarrow> err + adminRequest \<times> db" where
  "closeAdminRequestTx req state decision serverSig d =
     (let cond = (\<lambda>r. rr_id r = rq_id req \<and> rr_state r = adminStatePending) in
      if \<not> list_ex cond (db_requests d) then Inl (refuse 409 ''not_pending'')
      else Inr (req\<lparr>rq_state := state, rq_decision := decision, rq_closed := Some serverSig\<rparr>,
        d\<lparr>db_requests := updWhere cond (\<lambda>r. r\<lparr>rr_state := state,
          rr_closed_by := map_option (\<lambda>x. (ad_decider x, ad_sig x)) decision,
          rr_server_sig := Some serverSig\<rparr>) (db_requests d)\<rparr>))"

lemma closeAdminRequestTx_Inr:
  assumes "closeAdminRequestTx req state decision ss d = Inr (req', d')"
  shows "req' = req\<lparr>rq_state := state, rq_decision := decision, rq_closed := Some ss\<rparr>"
    and "d' = d\<lparr>db_requests := updWhere (\<lambda>r. rr_id r = rq_id req \<and> rr_state r = adminStatePending)
          (\<lambda>r. r\<lparr>rr_state := state, rr_closed_by := map_option (\<lambda>x. (ad_decider x, ad_sig x)) decision,
             rr_server_sig := Some ss\<rparr>) (db_requests d)\<rparr>"
  using assms by (auto simp: closeAdminRequestTx_def Let_def split: if_splits)

text \<open>The decisions that go with a state: the one a handler closes with, or none for a moot close.\<close>

definition decisionFits :: "string \<Rightarrow> adminDecision option \<Rightarrow> bool" where
  "decisionFits state decision \<longleftrightarrow>
     (case decision of None \<Rightarrow> True | Some x \<Rightarrow> ad_decision x = decisionForState state)"

lemma closeAdminRequestTx_get:
  assumes cl: "closeAdminRequestTx req state decision ss d = Inr (req', d')"
    and get: "getAdminRequestQ d (rq_id req) = Some req" and pend: "rq_state req = adminStatePending"
    and fits: "decisionFits state decision"
  shows "getAdminRequestQ d' (rq_id req) = Some req'"
    and "i \<noteq> rq_id req \<Longrightarrow> getAdminRequestQ d' i = getAdminRequestQ d i"
proof -
  note c = closeAdminRequestTx_Inr [OF cl]
  obtain r where r: "rowBy rr_id (rq_id req) (db_requests d) = Some r" "req = scanAdminRequest r"
    using get by (auto simp: getAdminRequestQ_Some)
  have st: "rr_id r = rq_id req" "rr_state r = adminStatePending"
    using r pend by (auto simp: scanAdminRequest_def)
  show "getAdminRequestQ d' (rq_id req) = Some req'"
  proof -
    let ?r = "r\<lparr>rr_state := state, rr_closed_by := map_option (\<lambda>x. (ad_decider x, ad_sig x)) decision,
       rr_server_sig := Some ss\<rparr>"
    have "rowBy rr_id (rq_id req) (db_requests d') = Some ?r"
      using r(1) st by (simp add: c(2) rowBy_updWhere)
    moreover have "scanAdminRequest ?r = req'"
      unfolding c(1) r(2) using fits
      by (cases decision) (simp_all add: scanAdminRequest_def decisionFits_def)
    ultimately show ?thesis by (simp add: getAdminRequestQ_def)
  qed
  show "getAdminRequestQ d' i = getAdminRequestQ d i" if "i \<noteq> rq_id req"
  proof (cases "rowBy rr_id i (db_requests d)")
    case (Some q)
    then have "rr_id q = i" by (auto dest: rowBy_Some)
    then show ?thesis using that Some by (simp add: getAdminRequestQ_def c(2) rowBy_updWhere)
  qed (simp add: getAdminRequestQ_def c(2) rowBy_updWhere)
qed

subsection \<open>Listing\<close>

definition listAdminRequests ::
    "db \<Rightarrow> string \<Rightarrow> (gotime \<times> string) option \<Rightarrow> nat \<Rightarrow> string \<Rightarrow> string list \<Rightarrow>
     adminRequest list \<times> (gotime \<times> string) option" where
  "listAdminRequests d state cursor limit viewerID hidden =
     (let cond = (\<lambda>r. (hidden = [] \<or> rr_action r \<notin> set hidden \<or> rr_requester r = viewerID) \<and>
            (if state = adminStatePending then rr_state r = adminStatePending
             else if state = ''closed'' then rr_state r \<noteq> adminStatePending else True));
          (page, nxt) = keysetPage (\<lambda>r. (rr_created r, rr_id r)) limit cursor
            (filter cond (db_requests d))
      in (map scanAdminRequest page, nxt))"

lemma listAdminRequests_visible:
  assumes "req \<in> set (fst (listAdminRequests d state cursor limit viewer hidden))"
  shows "rq_action req \<notin> set hidden \<or> rq_requester req = viewer"
proof -
  obtain r where r: "r \<in> set (fst (keysetPage (\<lambda>r. (rr_created r, rr_id r)) limit cursor
      (filter (\<lambda>r. (hidden = [] \<or> rr_action r \<notin> set hidden \<or> rr_requester r = viewer) \<and>
            (if state = adminStatePending then rr_state r = adminStatePending
             else if state = ''closed'' then rr_state r \<noteq> adminStatePending else True)) (db_requests d))))"
    and req: "req = scanAdminRequest r"
    using assms by (auto simp: listAdminRequests_def Let_def split: prod.splits)
  from subsetD [OF keysetPage_subset r] req show ?thesis
    by (auto simp: scanAdminRequest_def)
qed

definition listAdminRequestsHandler ::
    "env \<Rightarrow> db \<Rightarrow> string option \<Rightarrow> string \<Rightarrow> (gotime \<times> string) option \<Rightarrow>
     (adminRequest list \<times> (gotime \<times> string) option) answer" where
  "listAdminRequestsHandler E d caller state cursor = (case adminCaller d caller of
     Inl a \<Rightarrow> a
   | Inr (callerID, role) \<Rightarrow>
     if \<not> isAdmin role then Fail 403 ''Admin required''
     else if state \<noteq> '''' \<and> state \<noteq> adminStatePending \<and> state \<noteq> ''closed''
       then Fail 400 ''state must be pending or closed''
     else Done 200 (listAdminRequests d state cursor 50 callerID
       (hiddenAdminActions (userPermissionsQ d callerID role (e_server_id E)))))"

definition getAdminRequestHandler ::
    "env \<Rightarrow> db \<Rightarrow> string option \<Rightarrow> string \<Rightarrow> adminRequest answer" where
  "getAdminRequestHandler E d caller i = (case adminCaller d caller of
     Inl a \<Rightarrow> a
   | Inr (callerID, role) \<Rightarrow>
     if \<not> isAdmin role then Fail 403 ''Admin required''
     else (case getAdminRequestQ d i of
       None \<Rightarrow> Fail 404 ''Request not found''
     | Some req \<Rightarrow>
         if rq_requester req \<noteq> callerID \<and>
            rq_action req \<in> set (hiddenAdminActions (userPermissionsQ d callerID role (e_server_id E)))
         then Fail 404 ''Request not found''
         else Done 200 req))"

end
