(* ===== verification/Flags.thy ===== *)
theory Flags
  imports Permissions Paging
begin

text \<open>
  Flags on reeds and the cases they gather in: \<open>flags.go\<close>.  A reed has at most one open case that
  takes flags; a case ends dismissed by an admin or void once its flags are all withdrawn, and is
  deleted half a year later.  The \<open>flagInv\<close> lemmas show each operation keeps those rules; the
  handlers' own checks come after them.
\<close>

subsection \<open>Wire form and rows\<close>

definition maxFlagNoteChars :: nat where "maxFlagNoteChars = 140"
definition maxDismissalReasonChars :: nat where "maxDismissalReasonChars = 140"

text \<open>\<open>flagCaseRetention\<close> is 183 days, in nanoseconds.\<close>

definition flagCaseRetention :: int where "flagCaseRetention = 183 * 24 * int hour"

definition scanReedFlag :: "flagRow \<Rightarrow> reedFlag" where
  "scanReedFlag r = \<lparr>rf_reed = fl_reed r, rf_author = fl_author r, rf_reporter = fl_reporter r,
     rf_note = fl_note r, rf_case = fl_case r, rf_sig = fl_user_sig r,
     rf_server_sig = fl_server_sig r, rf_withdrawal = fl_withdrawal r, rf_dismissal = None\<rparr>"

text \<open>\<open>reedFlagFromPB\<close> trims the reed id and reads no author.\<close>

definition reedFlagFromPB :: "reedFlag \<Rightarrow> reedFlag" where
  "reedFlagFromPB msg = msg\<lparr>rf_reed := trimSpace (rf_reed msg), rf_author := ''''\<rparr>"

definition withdrawalPayload :: "env \<Rightarrow> reedFlag \<Rightarrow> userSig \<Rightarrow> string" where
  "withdrawalPayload E f w =
     buildFlagWithdrawalPayload (e_jcs E) (rf_reed f) (rf_reporter f) (us_id w) (us_armor (rf_sig f))"

definition dismissalPayload :: "env \<Rightarrow> flagDismissal \<Rightarrow> string" where
  "dismissalPayload E x = buildFlagDismissalPayload (e_jcs E) (fd_case x) (fd_reed x) (fd_reason x) (us_id (fd_sig x))"

definition checkFlag :: "env \<Rightarrow> reedFlag \<Rightarrow> err option" where
  "checkFlag E f =
     (if authorOf (rf_reed f) = None then Some (refuse 400 ''bad_reed_id'')
      else if maxFlagNoteChars < e_graphemes E (rf_note f) then Some (refuse 400 ''bad_note'')
      else if (case parseKeyFingerprint (us_id (rf_sig f)) of
            None \<Rightarrow> True
          | Some (owner, serverID, _) \<Rightarrow>
              canonicalID serverID owner \<noteq> rf_reporter f \<or> us_armor (rf_sig f) = '''')
        then Some (refuse 400 ''bad_key'')
      else None)"

subsection \<open>Cases\<close>

text \<open>The SQL conditions \<open>openCase\<close> and \<open>openFlag\<close>; a case's \<open>dismissed_at\<close> is its dismissal's.\<close>

definition openCase :: "caseRow \<Rightarrow> bool" where
  "openCase c \<longleftrightarrow> fc_dismissal c = None \<and> fc_voided_at c = None"

definition openFlag :: "db \<Rightarrow> flagRow \<Rightarrow> bool" where
  "openFlag d f \<longleftrightarrow> fl_withdrawal f = None \<and> (\<exists>c \<in> set (db_cases d). fc_id c = fl_case f \<and> openCase c)"

definition takesFlags :: "string \<Rightarrow> caseRow \<Rightarrow> bool" where
  "takesFlags reedID c \<longleftrightarrow> fc_reed c = reedID \<and> openCase c \<and> \<not> fc_restored c"

text \<open>\<open>openCaseTx\<close>: the two tries of its loop, each with its own fresh UUID.\<close>

fun openCaseTx :: "string list \<Rightarrow> string \<Rightarrow> gotime \<Rightarrow> db \<Rightarrow> err + string \<times> db" where
  "openCaseTx [] reedID at d = Inl (Internal ''no open case'')"
| "openCaseTx (i # ids) reedID at d =
     (case List.find (takesFlags reedID) (db_cases d) of
        Some c \<Rightarrow> Inr (fc_id c, d)
      | None \<Rightarrow>
          if i \<in> fc_id ` set (db_cases d) then openCaseTx ids reedID at d
          else Inr (i, d\<lparr>db_cases := db_cases d @ [\<lparr>fc_id = i, fc_reed = reedID, fc_opened_at = at,
            fc_restored = False, fc_dismissed_by = None, fc_reason = None, fc_dismissal = None,
            fc_voided_at = None\<rparr>]\<rparr>))"

definition insertReedFlagTx :: "reedFlag \<Rightarrow> string \<Rightarrow> db \<Rightarrow> err + unit \<times> db" where
  "insertReedFlagTx f authorID d =
     (if \<exists>g \<in> set (db_flags d). fl_reed g = rf_reed f \<and> fl_reporter g = rf_reporter f
      then Inl (Internal ''insert flag'')
      else Inr ((), d\<lparr>db_flags := db_flags d @ [\<lparr>fl_reed = rf_reed f, fl_author = authorID,
        fl_reporter = rf_reporter f, fl_note = rf_note f, fl_user_sig = rf_sig f,
        fl_server_sig = rf_server_sig f, fl_created = ss_at (rf_server_sig f), fl_case = rf_case f,
        fl_withdrawal = None\<rparr>]\<rparr>))"

definition reedAuthorQ :: "db \<Rightarrow> string \<Rightarrow> string \<Rightarrow> string option" where
  "reedAuthorQ d reedID serverID =
     map_option ri_author (List.find (\<lambda>r. ri_id r = reedID \<and> ri_server r = serverID) (db_reed_identities d))"

text \<open>\<open>StoreFlag\<close>; \<open>sign\<close> countersigns the flag with the case it went into.\<close>

definition storeFlagTx ::
    "env \<Rightarrow> (string \<Rightarrow> gotime \<Rightarrow> err + serverSig) \<Rightarrow> string list \<Rightarrow> gotime \<Rightarrow> reedFlag \<Rightarrow> db \<Rightarrow>
     err + reedFlag \<times> db" where
  "storeFlagTx E sign ids now f d =
     (case reedAuthorQ d (rf_reed f) (e_server_id E) of
        None \<Rightarrow> Inl (refuse 404 ''reed_not_found'')
      | Some authorID \<Rightarrow>
          if isRootIdentity authorID (e_server_id E) then Inl (refuse 403 ''root_reed'')
          else if authorID = rf_reporter f then Inl (refuse 403 ''own_reed'')
          else if \<exists>g \<in> set (db_flags d). fl_reed g = rf_reed f \<and> fl_reporter g = rf_reporter f
            then Inl (Sentinel ''ErrAlreadyFlagged'')
          else let at = truncateSecond now in
            bindR (openCaseTx ids (rf_reed f) at d) (\<lambda>(caseID, d1).
            bindR (sign caseID at) (\<lambda>sig.
              let f' = f\<lparr>rf_server_sig := sig, rf_case := caseID, rf_author := authorID\<rparr> in
              bindR (insertReedFlagTx f' authorID d1) (\<lambda>(_, d2). Inr (f', d2)))))"

text \<open>\<open>getFlagQ\<close>: the flag, and whether its case is dismissed and whether it was restored.\<close>

definition findFlag :: "db \<Rightarrow> string \<Rightarrow> string \<Rightarrow> flagRow option" where
  "findFlag d reedID reporterID =
     List.find (\<lambda>f. fl_reed f = reedID \<and> fl_reporter f = reporterID) (db_flags d)"

definition getFlagQ :: "db \<Rightarrow> string \<Rightarrow> string \<Rightarrow> (reedFlag \<times> bool \<times> bool) option" where
  "getFlagQ d reedID reporterID =
     (case findFlag d reedID reporterID of
        None \<Rightarrow> None
      | Some f \<Rightarrow> (case rowBy fc_id (fl_case f) (db_cases d) of
          None \<Rightarrow> None
        | Some c \<Rightarrow> Some (scanReedFlag f, fc_dismissal c \<noteq> None, fc_restored c)))"

definition maxTime :: "gotime list \<Rightarrow> gotime option" where
  "maxTime ts = (if ts = [] then None else Some (Max (set ts)))"

definition caseFlags :: "db \<Rightarrow> string \<Rightarrow> flagRow list" where
  "caseFlags d caseID = filter (\<lambda>f. fl_case f = caseID) (db_flags d)"

definition withdrawalTimes :: "flagRow list \<Rightarrow> gotime list" where
  "withdrawalTimes fs = List.map_filter (\<lambda>f. map_option (ss_at \<circ> snd) (fl_withdrawal f)) fs"

definition voidCaseIfDoneTx :: "string \<Rightarrow> db \<Rightarrow> db" where
  "voidCaseIfDoneTx caseID d =
     (let fs = caseFlags d caseID in
      d\<lparr>db_cases := updWhere
        (\<lambda>c. fc_id c = caseID \<and> openCase c \<and> fs \<noteq> [] \<and> list_all (\<lambda>f. fl_withdrawal f \<noteq> None) fs)
        (\<lambda>c. c\<lparr>fc_voided_at := maxTime (withdrawalTimes fs)\<rparr>) (db_cases d)\<rparr>)"

definition setFlagWithdrawalTx ::
    "string \<Rightarrow> string \<Rightarrow> string \<Rightarrow> userSig \<times> serverSig \<Rightarrow> db \<Rightarrow> db" where
  "setFlagWithdrawalTx caseID reedID reporterID w d =
     voidCaseIfDoneTx caseID
       (d\<lparr>db_flags := updWhere (\<lambda>f. fl_reed f = reedID \<and> fl_reporter f = reporterID)
          (\<lambda>f. f\<lparr>fl_withdrawal := Some w\<rparr>) (db_flags d)\<rparr>)"

text \<open>\<open>WithdrawFlag\<close>: the flag as held and whether this call withdrew it.\<close>

definition withdrawFlagTx ::
    "string \<Rightarrow> string \<Rightarrow> userSig \<times> serverSig \<Rightarrow> db \<Rightarrow> err + (reedFlag \<times> bool) \<times> db" where
  "withdrawFlagTx reedID reporterID w d =
     (case getFlagQ d reedID reporterID of
        None \<Rightarrow> Inl (refuse 404 ''no_flag'')
      | Some (held, dismissed, _) \<Rightarrow>
          if dismissed then Inl (Sentinel ''ErrFlagAcknowledged'')
          else if rf_withdrawal held \<noteq> None then Inr ((held, False), d)
          else Inr ((held\<lparr>rf_withdrawal := Some w\<rparr>, True),
                    setFlagWithdrawalTx (rf_case held) reedID reporterID w d))"

text \<open>\<open>setCaseDismissalTx\<close> with its \<open>errCaseClosed\<close>, and \<open>DismissCase\<close>.\<close>

definition setCaseDismissalTx :: "flagDismissal \<Rightarrow> bool \<Rightarrow> db \<Rightarrow> err + unit \<times> db" where
  "setCaseDismissalTx x overVoid d =
     (let cond = (\<lambda>c. fc_id c = fd_case x \<and> (if overVoid then fc_dismissal c = None else openCase c)) in
      if \<not> list_ex cond (db_cases d) then Inl (refuse 409 ''case_closed'')
      else Inr ((), d\<lparr>db_cases := updWhere cond
        (\<lambda>c. c\<lparr>fc_dismissed_by := (if fd_by x = '''' then None else Some (fd_by x)),
           fc_reason := Some (fd_reason x), fc_dismissal := Some (fd_sig x, fd_server_sig x),
           fc_voided_at := None\<rparr>) (db_cases d)\<rparr>))"

definition dismissCaseTx :: "flagDismissal \<Rightarrow> db \<Rightarrow> err + unit \<times> db" where
  "dismissCaseTx x d = setCaseDismissalTx x False d"

text \<open>\<open>COALESCE(dismissed_at, voided_at)\<close>.\<close>

definition closedAt :: "caseRow \<Rightarrow> gotime option" where
  "closedAt c = (case fc_dismissal c of Some (_, s) \<Rightarrow> Some (ss_at s) | None \<Rightarrow> fc_voided_at c)"

definition deleteFlagCaseTx :: "string \<Rightarrow> string \<Rightarrow> gotime \<Rightarrow> db \<Rightarrow> err + string \<times> db" where
  "deleteFlagCaseTx caseID viewerID now d =
     (case rowBy fc_id caseID (db_cases d) of
        None \<Rightarrow> Inl (refuse 404 ''no_case'')
      | Some c \<Rightarrow> (case rowBy ri_id (fc_reed c) (db_reed_identities d) of
          None \<Rightarrow> Inl (refuse 404 ''no_case'')
        | Some ri \<Rightarrow>
            if ri_author ri = viewerID then Inl (refuse 404 ''no_case'')
            else (case closedAt c of
                None \<Rightarrow> Inl (refuse 409 ''case_open'')
              | Some at \<Rightarrow>
                  if timeSub now at < flagCaseRetention then Inl (refuse 409 ''case_too_recent'')
                  else Inr (fc_reed c, d\<lparr>
                    db_cases := filter (\<lambda>c. fc_id c \<noteq> caseID) (db_cases d),
                    db_flags := filter (\<lambda>f. fl_case f \<noteq> caseID) (db_flags d)\<rparr>))))"

subsection \<open>Listings\<close>

record flagCase =
  cs_id :: string
  cs_reed :: string
  cs_author :: string
  cs_opened_at :: gotime
  cs_restored :: bool
  cs_latest :: gotime
  cs_flags :: "reedFlag list"
  cs_dismissal :: "flagDismissal option"
  cs_voided_at :: "gotime option"

text \<open>\<open>queryCaseFlags\<close>: newest first, then by reporter.\<close>

definition queryCaseFlags :: "db \<Rightarrow> string \<Rightarrow> reedFlag list" where
  "queryCaseFlags d caseID =
     map scanReedFlag (sort_key (\<lambda>f. (- int (fl_created f), fl_reporter f)) (caseFlags d caseID))"

text \<open>\<open>COALESCE((SELECT MAX(f.created_at) ...), c.opened_at)\<close>.\<close>

definition caseLatest :: "db \<Rightarrow> caseRow \<Rightarrow> gotime" where
  "caseLatest d c = (case maxTime (map fl_created (caseFlags d (fc_id c))) of
     None \<Rightarrow> fc_opened_at c | Some t \<Rightarrow> t)"

definition scanFlagCase :: "db \<Rightarrow> caseRow \<Rightarrow> string \<Rightarrow> flagCase" where
  "scanFlagCase d c author = \<lparr>cs_id = fc_id c, cs_reed = fc_reed c, cs_author = author,
     cs_opened_at = fc_opened_at c, cs_restored = fc_restored c, cs_latest = caseLatest d c,
     cs_flags = queryCaseFlags d (fc_id c),
     cs_dismissal = map_option (\<lambda>(u, s). \<lparr>fd_case = fc_id c, fd_reed = fc_reed c,
       fd_by = (case fc_dismissed_by c of None \<Rightarrow> '''' | Some b \<Rightarrow> b),
       fd_reason = (case fc_reason c of None \<Rightarrow> '''' | Some r \<Rightarrow> r),
       fd_sig = u, fd_server_sig = s\<rparr>) (fc_dismissal c),
     cs_voided_at = map_option truncateSecond (fc_voided_at c)\<rparr>"

definition caseAuthor :: "db \<Rightarrow> caseRow \<Rightarrow> string option" where
  "caseAuthor d c = map_option ri_author (rowBy ri_id (fc_reed c) (db_reed_identities d))"

definition getFlagCase :: "db \<Rightarrow> string \<Rightarrow> flagCase option" where
  "getFlagCase d caseID = (case rowBy fc_id caseID (db_cases d) of
     None \<Rightarrow> None
   | Some c \<Rightarrow> map_option (scanFlagCase d c) (caseAuthor d c))"

definition flagCasesOpen :: string where "flagCasesOpen = ''open''"
definition flagCasesDismissed :: string where "flagCasesDismissed = ''dismissed''"
definition flagCasesVoid :: string where "flagCasesVoid = ''void''"

lemmas [const_defs] = flagCasesOpen_def flagCasesDismissed_def flagCasesVoid_def

text \<open>The condition and the order each state lists by.\<close>

definition listingOf :: "db \<Rightarrow> string \<Rightarrow> ((caseRow \<Rightarrow> bool) \<times> (caseRow \<Rightarrow> gotime)) option" where
  "listingOf d state =
     (if state = flagCasesOpen then Some (openCase, caseLatest d)
      else if state = flagCasesDismissed then
        Some (\<lambda>c. fc_dismissal c \<noteq> None,
              \<lambda>c. case fc_dismissal c of None \<Rightarrow> 0 | Some (_, s) \<Rightarrow> ss_at s)
      else if state = flagCasesVoid then
        Some (\<lambda>c. fc_voided_at c \<noteq> None, \<lambda>c. case fc_voided_at c of None \<Rightarrow> 0 | Some t \<Rightarrow> t)
      else None)"

text \<open>The rows a listing pages: those in the state, joined to an author that isn't the viewer.\<close>

definition listedCases :: "db \<Rightarrow> string \<Rightarrow> (caseRow \<Rightarrow> bool) \<Rightarrow> caseRow list" where
  "listedCases d viewerID cond =
     filter (\<lambda>c. cond c \<and> (case caseAuthor d c of None \<Rightarrow> False | Some a \<Rightarrow> a \<noteq> viewerID)) (db_cases d)"

definition listFlagCases ::
    "db \<Rightarrow> string \<Rightarrow> string \<Rightarrow> (gotime \<times> string) option \<Rightarrow> nat \<Rightarrow>
     err + flagCase list \<times> (gotime \<times> string) option" where
  "listFlagCases d viewerID state cursor limit =
     (case listingOf d state of
        None \<Rightarrow> Inl (refuse 400 ''bad_state'')
      | Some (cond, ord) \<Rightarrow>
          (let (page, nxt) = keysetPage (\<lambda>c. (ord c, fc_id c)) limit cursor (listedCases d viewerID cond)
           in Inr (map (\<lambda>c. scanFlagCase d c (the (caseAuthor d c))) page, nxt)))"

definition openFlagCount :: "db \<Rightarrow> string \<Rightarrow> nat" where
  "openFlagCount d authorID = length (filter (\<lambda>f. fl_author f = authorID \<and> openFlag d f) (db_flags d))"

definition authorsOpenFlaggedByQ :: "db \<Rightarrow> string \<Rightarrow> string list" where
  "authorsOpenFlaggedByQ d reporterID =
     remdups (map fl_author (filter (\<lambda>f. fl_reporter f = reporterID \<and> openFlag d f) (db_flags d)))"

subsection \<open>The invariant\<close>

text \<open>
  \<open>flagInvUpTo I\<close> is the invariant while the cases \<open>I\<close> are being settled: those may be open without
  an open flag.
\<close>

definition flagInvUpTo :: "string set \<Rightarrow> string \<Rightarrow> db \<Rightarrow> bool" where
  "flagInvUpTo I s d \<longleftrightarrow>
     uniqueBy fc_id (db_cases d) \<and>
     uniqueBy (\<lambda>f. (fl_reed f, fl_reporter f)) (db_flags d) \<and>
     uniqueBy fc_reed (filter (\<lambda>c. openCase c \<and> \<not> fc_restored c) (db_cases d)) \<and>
     (\<forall>c \<in> set (db_cases d). fc_dismissal c = None \<or> fc_voided_at c = None) \<and>
     (\<forall>f \<in> set (db_flags d). (fl_case f, fl_reed f) \<in> (\<lambda>c. (fc_id c, fc_reed c)) ` set (db_cases d)) \<and>
     (\<forall>c \<in> set (db_cases d). openCase c \<and> \<not> fc_restored c \<and> fc_id c \<notin> I \<longrightarrow>
        (\<exists>f \<in> set (db_flags d). fl_case f = fc_id c \<and> fl_withdrawal f = None)) \<and>
     (\<forall>c \<in> set (db_cases d). fc_voided_at c \<noteq> None \<longrightarrow>
        (\<forall>f \<in> set (db_flags d). fl_case f = fc_id c \<longrightarrow> fl_withdrawal f \<noteq> None)) \<and>
     (\<forall>f \<in> set (db_flags d). fl_author f \<noteq> fl_reporter f \<and> \<not> isRootIdentity (fl_author f) s)"

definition flagInv :: "string \<Rightarrow> db \<Rightarrow> bool" where
  "flagInv s d \<longleftrightarrow> flagInvUpTo {} s d"

lemma flagInvUpToI:
  assumes "uniqueBy fc_id (db_cases d)"
    and "uniqueBy (\<lambda>f. (fl_reed f, fl_reporter f)) (db_flags d)"
    and "uniqueBy fc_reed (filter (\<lambda>c. openCase c \<and> \<not> fc_restored c) (db_cases d))"
    and "\<And>c. c \<in> set (db_cases d) \<Longrightarrow> fc_dismissal c = None \<or> fc_voided_at c = None"
    and "\<And>f. f \<in> set (db_flags d) \<Longrightarrow>
           (fl_case f, fl_reed f) \<in> (\<lambda>c. (fc_id c, fc_reed c)) ` set (db_cases d)"
    and "\<And>c. c \<in> set (db_cases d) \<Longrightarrow> openCase c \<Longrightarrow> \<not> fc_restored c \<Longrightarrow> fc_id c \<notin> I \<Longrightarrow>
           \<exists>f \<in> set (db_flags d). fl_case f = fc_id c \<and> fl_withdrawal f = None"
    and "\<And>c f. c \<in> set (db_cases d) \<Longrightarrow> fc_voided_at c \<noteq> None \<Longrightarrow> f \<in> set (db_flags d) \<Longrightarrow>
           fl_case f = fc_id c \<Longrightarrow> fl_withdrawal f \<noteq> None"
    and "\<And>f. f \<in> set (db_flags d) \<Longrightarrow> fl_author f \<noteq> fl_reporter f \<and> \<not> isRootIdentity (fl_author f) s"
  shows "flagInvUpTo I s d"
  using assms by (simp add: flagInvUpTo_def)

lemma flagInvUpToD:
  assumes "flagInvUpTo I s d"
  shows "uniqueBy fc_id (db_cases d)"
    and "uniqueBy (\<lambda>f. (fl_reed f, fl_reporter f)) (db_flags d)"
    and "uniqueBy fc_reed (filter (\<lambda>c. openCase c \<and> \<not> fc_restored c) (db_cases d))"
    and "c \<in> set (db_cases d) \<Longrightarrow> fc_dismissal c = None \<or> fc_voided_at c = None"
    and "f \<in> set (db_flags d) \<Longrightarrow>
           (fl_case f, fl_reed f) \<in> (\<lambda>c. (fc_id c, fc_reed c)) ` set (db_cases d)"
    and "c \<in> set (db_cases d) \<Longrightarrow> openCase c \<Longrightarrow> \<not> fc_restored c \<Longrightarrow> fc_id c \<notin> I \<Longrightarrow>
           \<exists>f \<in> set (db_flags d). fl_case f = fc_id c \<and> fl_withdrawal f = None"
    and "c \<in> set (db_cases d) \<Longrightarrow> fc_voided_at c \<noteq> None \<Longrightarrow> f \<in> set (db_flags d) \<Longrightarrow>
           fl_case f = fc_id c \<Longrightarrow> fl_withdrawal f \<noteq> None"
    and "f \<in> set (db_flags d) \<Longrightarrow> fl_author f \<noteq> fl_reporter f \<and> \<not> isRootIdentity (fl_author f) s"
  using assms by (simp_all add: flagInvUpTo_def)

lemmas flagInvI = flagInvUpToI [where I = "{}", folded flagInv_def]

lemma flagInvD:
  assumes "flagInv s d"
  shows "uniqueBy fc_id (db_cases d)"
    and "uniqueBy (\<lambda>f. (fl_reed f, fl_reporter f)) (db_flags d)"
    and "uniqueBy fc_reed (filter (\<lambda>c. openCase c \<and> \<not> fc_restored c) (db_cases d))"
    and "c \<in> set (db_cases d) \<Longrightarrow> fc_dismissal c = None \<or> fc_voided_at c = None"
    and "f \<in> set (db_flags d) \<Longrightarrow>
           (fl_case f, fl_reed f) \<in> (\<lambda>c. (fc_id c, fc_reed c)) ` set (db_cases d)"
    and "c \<in> set (db_cases d) \<Longrightarrow> openCase c \<Longrightarrow> \<not> fc_restored c \<Longrightarrow>
           \<exists>f \<in> set (db_flags d). fl_case f = fc_id c \<and> fl_withdrawal f = None"
    and "c \<in> set (db_cases d) \<Longrightarrow> fc_voided_at c \<noteq> None \<Longrightarrow> f \<in> set (db_flags d) \<Longrightarrow>
           fl_case f = fc_id c \<Longrightarrow> fl_withdrawal f \<noteq> None"
    and "f \<in> set (db_flags d) \<Longrightarrow> fl_author f \<noteq> fl_reporter f \<and> \<not> isRootIdentity (fl_author f) s"
  using assms unfolding flagInv_def
  by (auto dest: flagInvUpToD(1) flagInvUpToD(2) flagInvUpToD(3) flagInvUpToD(4) flagInvUpToD(5)
      flagInvUpToD(6) flagInvUpToD(7) flagInvUpToD(8))

lemma openCaseTx_Inr:
  "openCaseTx ids reedID at d = Inr (cid, d') \<Longrightarrow>
     (\<exists>c \<in> set (db_cases d). takesFlags reedID c \<and> fc_id c = cid) \<and> d' = d \<or>
     (\<forall>c \<in> set (db_cases d). \<not> takesFlags reedID c) \<and> cid \<notin> fc_id ` set (db_cases d) \<and>
     d' = d\<lparr>db_cases := db_cases d @ [\<lparr>fc_id = cid, fc_reed = reedID, fc_opened_at = at,
       fc_restored = False, fc_dismissed_by = None, fc_reason = None, fc_dismissal = None,
       fc_voided_at = None\<rparr>]\<rparr>"
  by (induction ids) (auto simp: find_None_iff split: option.splits if_splits dest!: find_SomeD)

lemma openCaseTx_case:
  assumes "openCaseTx ids reedID at d = Inr (cid, d')"
  shows "\<exists>c \<in> set (db_cases d'). takesFlags reedID c \<and> fc_id c = cid"
    and "db_flags d' = db_flags d"
  using openCaseTx_Inr [OF assms] by (auto simp: takesFlags_def openCase_def)

text \<open>A fresh UUID always finds or opens a case.\<close>

lemma openCaseTx_total:
  "ids \<noteq> [] \<Longrightarrow> hd ids \<notin> fc_id ` set (db_cases d) \<Longrightarrow> \<exists>cid d'. openCaseTx ids reedID at d = Inr (cid, d')"
  by (cases ids) (auto split: option.splits)

text \<open>After the case is found or opened, all of the invariant holds but that the case has a flag.\<close>

lemma openCaseTx_inv:
  assumes inv: "flagInv s d" and o: "openCaseTx ids reedID at d = Inr (cid, d')"
  shows "uniqueBy fc_id (db_cases d')"
    and "uniqueBy fc_reed (filter (\<lambda>c. openCase c \<and> \<not> fc_restored c) (db_cases d'))"
    and "c \<in> set (db_cases d') \<Longrightarrow> fc_dismissal c = None \<or> fc_voided_at c = None"
    and "f \<in> set (db_flags d) \<Longrightarrow>
           (fl_case f, fl_reed f) \<in> (\<lambda>c. (fc_id c, fc_reed c)) ` set (db_cases d')"
    and "c \<in> set (db_cases d') \<Longrightarrow> openCase c \<Longrightarrow> \<not> fc_restored c \<Longrightarrow> fc_id c = cid \<or>
           (\<exists>f \<in> set (db_flags d). fl_case f = fc_id c \<and> fl_withdrawal f = None)"
    and "c \<in> set (db_cases d') \<Longrightarrow> fc_voided_at c \<noteq> None \<Longrightarrow> f \<in> set (db_flags d) \<Longrightarrow>
           fl_case f = fc_id c \<Longrightarrow> fl_withdrawal f \<noteq> None"
proof -
  note o' = openCaseTx_Inr [OF o]
  show "uniqueBy fc_id (db_cases d')"
    using o' flagInvD(1) [OF inv] by auto
  show "uniqueBy fc_reed (filter (\<lambda>c. openCase c \<and> \<not> fc_restored c) (db_cases d'))"
    using o' flagInvD(3) [OF inv] by (auto simp: takesFlags_def)
  show "fc_dismissal c = None \<or> fc_voided_at c = None" if "c \<in> set (db_cases d')"
    using o' flagInvD(4) [OF inv, of c] that by auto
  show "(fl_case f, fl_reed f) \<in> (\<lambda>c. (fc_id c, fc_reed c)) ` set (db_cases d')" if "f \<in> set (db_flags d)"
    using o' flagInvD(5) [OF inv that] by auto
  show "fc_id c = cid \<or> (\<exists>f \<in> set (db_flags d). fl_case f = fc_id c \<and> fl_withdrawal f = None)"
    if "c \<in> set (db_cases d')" "openCase c" "\<not> fc_restored c"
    using o' flagInvD(6) [OF inv _ that(2,3)] that(1) by fastforce
  show "fl_withdrawal f \<noteq> None"
    if "c \<in> set (db_cases d')" "fc_voided_at c \<noteq> None" "f \<in> set (db_flags d)" "fl_case f = fc_id c"
    using o' flagInvD(7) [OF inv] that by auto
qed

lemma storeFlagTx_Inr:
  assumes "storeFlagTx E sign ids now f d = Inr (f', d')"
  obtains author d1 sig where
    "reedAuthorQ d (rf_reed f) (e_server_id E) = Some author"
    "\<not> isRootIdentity author (e_server_id E)" "author \<noteq> rf_reporter f"
    "\<forall>g \<in> set (db_flags d). fl_reed g = rf_reed f \<longrightarrow> fl_reporter g \<noteq> rf_reporter f"
    "openCaseTx ids (rf_reed f) (truncateSecond now) d = Inr (rf_case f', d1)"
    "sign (rf_case f') (truncateSecond now) = Inr sig"
    "f' = f\<lparr>rf_server_sig := sig, rf_case := rf_case f', rf_author := author\<rparr>"
    "d' = d1\<lparr>db_flags := db_flags d @ [\<lparr>fl_reed = rf_reed f, fl_author = author,
        fl_reporter = rf_reporter f, fl_note = rf_note f, fl_user_sig = rf_sig f,
        fl_server_sig = sig, fl_created = ss_at sig, fl_case = rf_case f', fl_withdrawal = None\<rparr>]\<rparr>"
  using assms
  by (auto simp: storeFlagTx_def bindR_Inr Let_def insertReedFlagTx_def openCaseTx_case(2)
      split: option.splits if_splits)

lemma storeFlagTx_inv:
  assumes inv: "flagInv (e_server_id E) d" and st: "storeFlagTx E sign ids now f d = Inr (f', d')"
  shows "flagInv (e_server_id E) d'"
proof -
  let ?cid = "rf_case f'"
  obtain author d1 sig where root: "\<not> isRootIdentity author (e_server_id E)"
    and own: "author \<noteq> rf_reporter f"
    and new: "\<forall>g \<in> set (db_flags d). fl_reed g = rf_reed f \<longrightarrow> fl_reporter g \<noteq> rf_reporter f"
    and o: "openCaseTx ids (rf_reed f) (truncateSecond now) d = Inr (?cid, d1)"
    and d': "d' = d1\<lparr>db_flags := db_flags d @ [\<lparr>fl_reed = rf_reed f, fl_author = author,
        fl_reporter = rf_reporter f, fl_note = rf_note f, fl_user_sig = rf_sig f,
        fl_server_sig = sig, fl_created = ss_at sig, fl_case = ?cid, fl_withdrawal = None\<rparr>]\<rparr>"
    by (rule storeFlagTx_Inr [OF st])
  obtain c0 where c0: "c0 \<in> set (db_cases d1)" "takesFlags (rf_reed f) c0" "fc_id c0 = ?cid"
    using openCaseTx_case(1) [OF o] by blast
  note inv1 = openCaseTx_inv [OF inv o]
  show ?thesis
  proof (rule flagInvI)
    show "uniqueBy (\<lambda>f. (fl_reed f, fl_reporter f)) (db_flags d')"
      using flagInvD(2) [OF inv] new d' by auto
    show "(fl_case g, fl_reed g) \<in> (\<lambda>c. (fc_id c, fc_reed c)) ` set (db_cases d')"
      if "g \<in> set (db_flags d')" for g
      using that inv1(4) [of g] c0 d'
      by (auto simp: takesFlags_def intro: image_eqI [where x = c0])
    show "\<exists>g \<in> set (db_flags d'). fl_case g = fc_id c \<and> fl_withdrawal g = None"
      if "c \<in> set (db_cases d')" "openCase c" "\<not> fc_restored c" for c
      using that inv1(5) [of c] d' by auto
    show "fl_withdrawal g \<noteq> None"
      if "c \<in> set (db_cases d')" "fc_voided_at c \<noteq> None" "g \<in> set (db_flags d')" "fl_case g = fc_id c"
      for c g
    proof (cases "g \<in> set (db_flags d)")
      case True
      then show ?thesis using inv1(6) that d' by auto
    next
      case False
      then have "fc_id c = fc_id c0" using that d' c0(3) by auto
      then have "c = c0" using that(1) d' c0(1) inv1(1) by (auto dest: uniqueBy_inj)
      then show ?thesis using c0(2) that(2) by (simp add: takesFlags_def openCase_def)
    qed
    show "fl_author g \<noteq> fl_reporter g \<and> \<not> isRootIdentity (fl_author g) (e_server_id E)"
      if "g \<in> set (db_flags d')" for g
      using that flagInvD(8) [OF inv] root own d' by auto
  qed (use inv1 d' in auto)
qed

subsection \<open>Withdrawal, dismissal and deletion keep it\<close>

lemma withdrawalTimes_nonempty:
  "fs \<noteq> [] \<Longrightarrow> list_all (\<lambda>f. fl_withdrawal f \<noteq> None) fs \<Longrightarrow> maxTime (withdrawalTimes fs) \<noteq> None"
  by (cases fs) (auto simp: withdrawalTimes_def maxTime_def List.map_filter_def)

lemma voidCaseIfDoneTx_fields [simp]:
  "db_flags (voidCaseIfDoneTx i d) = db_flags d"
  "map fc_id (db_cases (voidCaseIfDoneTx i d)) = map fc_id (db_cases d)"
  by (simp_all add: voidCaseIfDoneTx_def Let_def map_updWhere)

text \<open>Every case of the new table is one of the old table, or an open one voided by its withdrawals.\<close>

lemma voidCaseIfDoneTx_cases:
  assumes "c \<in> set (db_cases (voidCaseIfDoneTx i d))"
  shows "c \<in> set (db_cases d) \<and> \<not> (fc_id c = i \<and> openCase c \<and> caseFlags d i \<noteq> [] \<and>
           list_all (\<lambda>f. fl_withdrawal f \<noteq> None) (caseFlags d i)) \<or>
     (\<exists>c0 t. c0 \<in> set (db_cases d) \<and> c = c0\<lparr>fc_voided_at := Some t\<rparr> \<and> fc_id c0 = i \<and> openCase c0 \<and>
        list_all (\<lambda>f. fl_withdrawal f \<noteq> None) (caseFlags d i))"
proof -
  let ?fs = "caseFlags d i" and ?t = "maxTime (withdrawalTimes (caseFlags d i))"
  let ?p = "\<lambda>c. fc_id c = i \<and> openCase c \<and> ?fs \<noteq> [] \<and> list_all (\<lambda>f. fl_withdrawal f \<noteq> None) ?fs"
  have "c \<in> {c \<in> set (db_cases d). \<not> ?p c} \<union> (\<lambda>c. c\<lparr>fc_voided_at := ?t\<rparr>) ` {c \<in> set (db_cases d). ?p c}"
    using assms by (simp add: voidCaseIfDoneTx_def Let_def set_updWhere del: not_None_eq)
  then consider "c \<in> set (db_cases d)" "\<not> ?p c"
    | c0 where "c0 \<in> set (db_cases d)" "?p c0" "c = c0\<lparr>fc_voided_at := ?t\<rparr>"
    by blast
  then show ?thesis
  proof cases
    case (2 c0)
    then obtain t where "?t = Some t" using withdrawalTimes_nonempty by blast
    with 2 show ?thesis by (intro disjI2 exI [of _ c0] exI [of _ t]) simp
  qed simp
qed

text \<open>Rewriting rows to closed ones only takes rows out of what a condition on open rows selects.\<close>

lemma uniqueBy_updWhere_filter:
  assumes "uniqueBy k (filter q t)" and "\<And>r. p r \<Longrightarrow> q (f r) \<Longrightarrow> q r \<and> k (f r) = k r"
  shows "uniqueBy k (filter q (updWhere p f t))"
  using assms(1)
proof (induction t)
  case (Cons r t)
  have "k ` {x \<in> set (updWhere p f t). q x} \<subseteq> k ` {x \<in> set t. q x}"
    using assms(2) by (force simp: set_updWhere)
  then show ?case using Cons assms(2) [of r] by (auto split: if_splits)
qed simp

lemma withdrawFlagTx_Inr:
  assumes "withdrawFlagTx reedID reporterID w d = Inr ((f, fresh), d')"
  obtains r c where
    "findFlag d reedID reporterID = Some r" "rowBy fc_id (fl_case r) (db_cases d) = Some c"
    "fc_dismissal c = None"
    "fresh \<longleftrightarrow> fl_withdrawal r = None"
    "f = (if fresh then (scanReedFlag r)\<lparr>rf_withdrawal := Some w\<rparr> else scanReedFlag r)"
    "d' = (if fresh then setFlagWithdrawalTx (fl_case r) reedID reporterID w d else d)"
proof -
  obtain r c where rc: "findFlag d reedID reporterID = Some r"
    "rowBy fc_id (fl_case r) (db_cases d) = Some c"
    using assms by (auto simp: withdrawFlagTx_def getFlagQ_def split: option.splits)
  have "rf_withdrawal (scanReedFlag r) = fl_withdrawal r" "rf_case (scanReedFlag r) = fl_case r"
    by (simp_all add: scanReedFlag_def)
  then show thesis
    using assms rc
    by (intro that [OF rc])
       (auto simp: withdrawFlagTx_def getFlagQ_def simp del: not_None_eq split: if_splits)
qed

lemma findFlag_Some:
  "findFlag d reedID reporterID = Some r \<Longrightarrow>
     r \<in> set (db_flags d) \<and> fl_reed r = reedID \<and> fl_reporter r = reporterID"
  by (auto simp: findFlag_def dest: find_SomeD)

text \<open>\<open>voidCaseIfDoneTx\<close> settles a case that still holds flags.\<close>

lemma voidCaseIfDoneTx_upTo:
  assumes inv: "flagInvUpTo (insert i I) s d" and ne: "caseFlags d i \<noteq> []"
  shows "flagInvUpTo I s (voidCaseIfDoneTx i d)"
proof (rule flagInvUpToI)
  let ?d = "voidCaseIfDoneTx i d"
  note old = flagInvUpToD [OF inv]
  show "uniqueBy fc_id (db_cases ?d)" "uniqueBy (\<lambda>f. (fl_reed f, fl_reporter f)) (db_flags ?d)"
    using old(1,2) by simp_all
  show "uniqueBy fc_reed (filter (\<lambda>c. openCase c \<and> \<not> fc_restored c) (db_cases ?d))"
    using old(3) by (auto simp: voidCaseIfDoneTx_def Let_def openCase_def intro!: uniqueBy_updWhere_filter)
  show "fc_dismissal c = None \<or> fc_voided_at c = None" if "c \<in> set (db_cases ?d)" for c
    using voidCaseIfDoneTx_cases [OF that] old(4) [of c] by (auto simp: openCase_def)
  have "map (\<lambda>c. (fc_id c, fc_reed c)) (db_cases ?d) = map (\<lambda>c. (fc_id c, fc_reed c)) (db_cases d)"
    by (simp add: voidCaseIfDoneTx_def Let_def map_updWhere)
  then show "(fl_case f, fl_reed f) \<in> (\<lambda>c. (fc_id c, fc_reed c)) ` set (db_cases ?d)"
    if "f \<in> set (db_flags ?d)" for f
    using old(5) [of f] that by (metis image_set voidCaseIfDoneTx_fields(1))
  show "\<exists>f \<in> set (db_flags ?d). fl_case f = fc_id c \<and> fl_withdrawal f = None"
    if c: "c \<in> set (db_cases ?d)" "openCase c" "\<not> fc_restored c" "fc_id c \<notin> I" for c
    using voidCaseIfDoneTx_cases [OF c(1)]
  proof (elim disjE conjE exE)
    assume "c \<in> set (db_cases d)"
      "\<not> (fc_id c = i \<and> openCase c \<and> caseFlags d i \<noteq> [] \<and>
           list_all (\<lambda>f. fl_withdrawal f \<noteq> None) (caseFlags d i))"
    then show ?thesis
      using c ne old(6) [of c] by (cases "fc_id c = i") (auto simp: list_all_iff caseFlags_def)
  qed (use c in \<open>simp add: openCase_def\<close>)
  show "fl_withdrawal f \<noteq> None"
    if c: "c \<in> set (db_cases ?d)" "fc_voided_at c \<noteq> None" "f \<in> set (db_flags ?d)" "fl_case f = fc_id c"
    for c f
    using voidCaseIfDoneTx_cases [OF c(1)] c old(7) [of c f]
    by (auto simp: list_all_iff caseFlags_def)
  show "fl_author f \<noteq> fl_reporter f \<and> \<not> isRootIdentity (fl_author f) s" if "f \<in> set (db_flags ?d)" for f
    using old(8) that by simp
qed

lemma setFlagWithdrawalTx_inv:
  assumes inv: "flagInv s d" and r: "findFlag d reedID reporterID = Some r"
  shows "flagInv s (setFlagWithdrawalTx (fl_case r) reedID reporterID w d)"
proof -
  let ?p = "\<lambda>f. fl_reed f = reedID \<and> fl_reporter f = reporterID"
  let ?u = "\<lambda>f :: flagRow. f\<lparr>fl_withdrawal := Some w\<rparr>"
  define d1 where "d1 = d\<lparr>db_flags := updWhere ?p ?u (db_flags d)\<rparr>"
  note old = flagInvD [OF inv]
  have fs: "set (db_flags d1) = {f \<in> set (db_flags d). \<not> ?p f} \<union> ?u ` {f \<in> set (db_flags d). ?p f}"
    by (simp add: d1_def set_updWhere)
  have mine: "f = r" if "f \<in> set (db_flags d)" "?p f" for f
    using that findFlag_Some [OF r] old(2) by (auto dest: uniqueBy_inj)
  have "flagInvUpTo {fl_case r} s d1"
  proof (rule flagInvUpToI)
    show "uniqueBy (\<lambda>f. (fl_reed f, fl_reporter f)) (db_flags d1)"
      using old(2) by (simp add: d1_def map_updWhere)
    show "\<exists>f \<in> set (db_flags d1). fl_case f = fc_id c \<and> fl_withdrawal f = None"
      if c: "c \<in> set (db_cases d1)" "openCase c" "\<not> fc_restored c" "fc_id c \<notin> {fl_case r}" for c
    proof -
      obtain f where "f \<in> set (db_flags d)" "fl_case f = fc_id c" "fl_withdrawal f = None"
        using old(6) [of c] c by (auto simp: d1_def)
      moreover from this have "\<not> ?p f" using mine c(4) by auto
      ultimately show ?thesis using fs by auto
    qed
    show "fl_withdrawal f \<noteq> None"
      if "c \<in> set (db_cases d1)" "fc_voided_at c \<noteq> None" "f \<in> set (db_flags d1)" "fl_case f = fc_id c" for c f
      using that old(7) [of c] fs by (auto simp: d1_def)
    show "(fl_case f, fl_reed f) \<in> (\<lambda>c. (fc_id c, fc_reed c)) ` set (db_cases d1)"
      "fl_author f \<noteq> fl_reporter f \<and> \<not> isRootIdentity (fl_author f) s" if f: "f \<in> set (db_flags d1)" for f
    proof -
      obtain g where g: "g \<in> set (db_flags d)" "fl_case f = fl_case g" "fl_reed f = fl_reed g"
        "fl_author f = fl_author g" "fl_reporter f = fl_reporter g"
        using f fs by auto
      show "(fl_case f, fl_reed f) \<in> (\<lambda>c. (fc_id c, fc_reed c)) ` set (db_cases d1)"
        using old(5) [OF g(1)] by (simp add: g d1_def)
      show "fl_author f \<noteq> fl_reporter f \<and> \<not> isRootIdentity (fl_author f) s"
        using old(8) [OF g(1)] by (simp add: g)
    qed
    show "fc_dismissal c = None \<or> fc_voided_at c = None" if "c \<in> set (db_cases d1)" for c
      using old(4) [of c] that by (simp add: d1_def)
    have "db_cases d1 = db_cases d" by (simp add: d1_def)
    then show "uniqueBy fc_id (db_cases d1)"
      "uniqueBy fc_reed (filter (\<lambda>c. openCase c \<and> \<not> fc_restored c) (db_cases d1))"
      using old(1,3) by simp_all
  qed
  moreover have "caseFlags d1 (fl_case r) \<noteq> []"
  proof -
    have "?u r \<in> set (db_flags d1)" unfolding fs using findFlag_Some [OF r] by blast
    then have "?u r \<in> set (caseFlags d1 (fl_case r))" by (simp add: caseFlags_def)
    then show ?thesis by (metis empty_iff empty_set)
  qed
  ultimately show ?thesis
    by (simp add: setFlagWithdrawalTx_def d1_def flagInv_def voidCaseIfDoneTx_upTo)
qed

lemma withdrawFlagTx_inv:
  assumes "flagInv s d" and "withdrawFlagTx reedID reporterID w d = Inr (r, d')"
  shows "flagInv s d'"
  using assms by (cases r) (auto elim!: withdrawFlagTx_Inr intro: setFlagWithdrawalTx_inv)

lemma setCaseDismissalTx_Inr:
  assumes "setCaseDismissalTx x overVoid d = Inr (u, d')"
  obtains c where "c \<in> set (db_cases d)" "fc_id c = fd_case x" "fc_dismissal c = None"
    "\<not> overVoid \<Longrightarrow> openCase c"
    "d' = d\<lparr>db_cases := updWhere (\<lambda>c. fc_id c = fd_case x \<and>
        (if overVoid then fc_dismissal c = None else openCase c))
      (\<lambda>c. c\<lparr>fc_dismissed_by := (if fd_by x = '''' then None else Some (fd_by x)),
         fc_reason := Some (fd_reason x), fc_dismissal := Some (fd_sig x, fd_server_sig x),
         fc_voided_at := None\<rparr>) (db_cases d)\<rparr>"
  using assms by (auto simp: setCaseDismissalTx_def Let_def list_ex_iff openCase_def split: if_splits)

lemma setCaseDismissalTx_inv:
  assumes inv: "flagInv s d" and x: "setCaseDismissalTx x overVoid d = Inr (u, d')"
  shows "flagInv s d'"
proof -
  define p where "p = (\<lambda>c. fc_id c = fd_case x \<and> (if overVoid then fc_dismissal c = None else openCase c))"
  define f :: "caseRow \<Rightarrow> caseRow" where "f = (\<lambda>c. c\<lparr>fc_dismissed_by := (if fd_by x = '''' then None else Some (fd_by x)),
     fc_reason := Some (fd_reason x), fc_dismissal := Some (fd_sig x, fd_server_sig x), fc_voided_at := None\<rparr>)"
  have d': "d' = d\<lparr>db_cases := updWhere p f (db_cases d)\<rparr>"
    using x unfolding p_def f_def by (auto elim!: setCaseDismissalTx_Inr)
  have f: "fc_id (f c) = fc_id c" "fc_reed (f c) = fc_reed c" "fc_voided_at (f c) = None"
    "\<not> openCase (f c)" for c
    by (simp_all add: f_def openCase_def)
  have cases: "c \<in> set (db_cases d) \<or> (\<exists>c0 \<in> set (db_cases d). c = f c0)" if "c \<in> set (db_cases d')" for c
    using that d' by (auto simp: set_updWhere)
  show ?thesis
  proof (rule flagInvI)
    show "uniqueBy fc_id (db_cases d')" using flagInvD(1) [OF inv] by (simp add: d' map_updWhere f)
    show "uniqueBy fc_reed (filter (\<lambda>c. openCase c \<and> \<not> fc_restored c) (db_cases d'))"
      using flagInvD(3) [OF inv] f by (auto simp: d' intro!: uniqueBy_updWhere_filter)
    show "fc_dismissal c = None \<or> fc_voided_at c = None" if "c \<in> set (db_cases d')" for c
      using cases [OF that] flagInvD(4) [OF inv, of c] f by auto
    show "(fl_case g, fl_reed g) \<in> (\<lambda>c. (fc_id c, fc_reed c)) ` set (db_cases d')"
      if "g \<in> set (db_flags d')" for g
    proof -
      have "(fl_case g, fl_reed g) \<in> set (map (\<lambda>c. (fc_id c, fc_reed c)) (db_cases d))"
        using flagInvD(5) [OF inv, of g] that d' by force
      also have "map (\<lambda>c. (fc_id c, fc_reed c)) (db_cases d) = map (\<lambda>c. (fc_id c, fc_reed c)) (db_cases d')"
        by (simp add: d' map_updWhere f)
      finally show ?thesis by auto
    qed
    show "\<exists>g \<in> set (db_flags d'). fl_case g = fc_id c \<and> fl_withdrawal g = None"
      if "c \<in> set (db_cases d')" "openCase c" "\<not> fc_restored c" for c
      using cases [OF that(1)] that(2,3) f flagInvD(6) [OF inv, of c] d' by auto
    show "fl_withdrawal g \<noteq> None"
      if "c \<in> set (db_cases d')" "fc_voided_at c \<noteq> None" "g \<in> set (db_flags d')" "fl_case g = fc_id c" for c g
      using cases [OF that(1)] that(2-4) f flagInvD(7) [OF inv, of c g] d' by auto
  qed (use flagInvD(2,8) [OF inv] d' in auto)
qed

lemma deleteFlagCaseTx_Inr:
  assumes "deleteFlagCaseTx caseID viewer now d = Inr (reedID, d')"
  obtains c ri at where "rowBy fc_id caseID (db_cases d) = Some c" "fc_reed c = reedID"
    "rowBy ri_id reedID (db_reed_identities d) = Some ri" "ri_author ri \<noteq> viewer"
    "closedAt c = Some at" "flagCaseRetention \<le> timeSub now at"
    "d' = d\<lparr>db_cases := filter (\<lambda>c. fc_id c \<noteq> caseID) (db_cases d),
       db_flags := filter (\<lambda>f. fl_case f \<noteq> caseID) (db_flags d)\<rparr>"
  using assms by (auto simp: deleteFlagCaseTx_def split: option.splits if_splits)

lemma deleteFlagCaseTx_inv:
  assumes inv: "flagInv s d" and "deleteFlagCaseTx caseID viewer now d = Inr (reedID, d')"
  shows "flagInv s d'"
proof -
  have d': "d' = d\<lparr>db_cases := filter (\<lambda>c. fc_id c \<noteq> caseID) (db_cases d),
       db_flags := filter (\<lambda>f. fl_case f \<noteq> caseID) (db_flags d)\<rparr>"
    using assms(2) by (auto elim!: deleteFlagCaseTx_Inr)
  show ?thesis
  proof (rule flagInvI)
    show "uniqueBy fc_reed (filter (\<lambda>c. openCase c \<and> \<not> fc_restored c) (db_cases d'))"
      using uniqueBy_filter [OF flagInvD(3) [OF inv], of "\<lambda>c. fc_id c \<noteq> caseID"]
      by (simp add: d' conj_commute conj_left_commute)
    show "(fl_case g, fl_reed g) \<in> (\<lambda>c. (fc_id c, fc_reed c)) ` set (db_cases d')"
      if "g \<in> set (db_flags d')" for g
      using flagInvD(5) [OF inv, of g] that d' by auto
    show "\<exists>g \<in> set (db_flags d'). fl_case g = fc_id c \<and> fl_withdrawal g = None"
      if "c \<in> set (db_cases d')" "openCase c" "\<not> fc_restored c" for c
      using flagInvD(6) [OF inv, of c] that d' by auto
  qed (use flagInvD(1,2,4,7,8) [OF inv] d' in \<open>auto intro: uniqueBy_filter\<close>)
qed

subsection \<open>Runs of the operations\<close>

inductive flagStep :: "env \<Rightarrow> db \<Rightarrow> db \<Rightarrow> bool" for E where
  storeFlag: "storeFlagTx E sign ids now f d = Inr (f', d') \<Longrightarrow> flagStep E d d'"
| withdrawFlag: "withdrawFlagTx reedID reporterID w d = Inr (r, d') \<Longrightarrow> flagStep E d d'"
| dismissCase: "setCaseDismissalTx x overVoid d = Inr (u, d') \<Longrightarrow> flagStep E d d'"
| deleteFlagCase: "deleteFlagCaseTx caseID viewer now d = Inr (reedID, d') \<Longrightarrow> flagStep E d d'"

inductive_cases flagStepE: "flagStep E d d'"

interpretation flags: transition_system "flagStep E" "flagInv (e_server_id E)" for E
proof
  fix d d'
  assume "flagInv (e_server_id E) d" "flagStep E d d'"
  then show "flagInv (e_server_id E) d'"
    by (auto elim!: flagStepE intro: storeFlagTx_inv withdrawFlagTx_inv setCaseDismissalTx_inv
        deleteFlagCaseTx_inv)
qed

text \<open>A dismissed case and its flags stay as they are, until the whole case is deleted.\<close>

lemma flagStep_dismissed:
  assumes inv: "flagInv (e_server_id E) d" and st: "flagStep E d d'"
    and c: "c \<in> set (db_cases d)" "fc_dismissal c \<noteq> None"
  shows "c \<in> set (db_cases d') \<and> caseFlags d' (fc_id c) = caseFlags d (fc_id c) \<or>
     fc_id c \<notin> fc_id ` set (db_cases d') \<and> caseFlags d' (fc_id c) = []"
  using st
proof (cases rule: flagStep.cases)
  case (storeFlag sign ids now f f')
  then obtain author d1 sig where o: "openCaseTx ids (rf_reed f) (truncateSecond now) d = Inr (rf_case f', d1)"
    and d': "d' = d1\<lparr>db_flags := db_flags d @ [\<lparr>fl_reed = rf_reed f, fl_author = author,
        fl_reporter = rf_reporter f, fl_note = rf_note f, fl_user_sig = rf_sig f,
        fl_server_sig = sig, fl_created = ss_at sig, fl_case = rf_case f', fl_withdrawal = None\<rparr>]\<rparr>"
    by (auto elim: storeFlagTx_Inr)
  have "c \<in> set (db_cases d1)" using openCaseTx_Inr [OF o] c(1) by auto
  moreover obtain c0 where "c0 \<in> set (db_cases d1)" "takesFlags (rf_reed f) c0" "fc_id c0 = rf_case f'"
    using openCaseTx_case(1) [OF o] by blast
  ultimately have "rf_case f' \<noteq> fc_id c"
    using c(2) openCaseTx_inv(1) [OF inv o] uniqueBy_inj [of fc_id "db_cases d1" c c0]
    by (auto simp: takesFlags_def openCase_def)
  then show ?thesis using d' \<open>c \<in> set (db_cases d1)\<close> by (simp add: caseFlags_def)
next
  case (withdrawFlag reedID reporterID w r)
  show ?thesis
  proof (cases "snd r")
    case True
    then obtain q cq where q: "findFlag d reedID reporterID = Some q"
      "rowBy fc_id (fl_case q) (db_cases d) = Some cq" "fc_dismissal cq = None"
      and d': "d' = setFlagWithdrawalTx (fl_case q) reedID reporterID w d"
      using withdrawFlag by (cases r) (auto elim!: withdrawFlagTx_Inr)
    have "fl_case q \<noteq> fc_id c"
      using rowBy_eq [OF flagInvD(1) [OF inv] c(1)] q(2,3) c(2) by auto
    moreover have "fl_case g = fl_case q"
      if "g \<in> set (db_flags d)" "fl_reed g = reedID" "fl_reporter g = reporterID" for g
      using that findFlag_Some [OF q(1)] flagInvD(2) [OF inv] by (auto dest: uniqueBy_inj)
    ultimately have "caseFlags d' (fc_id c) = caseFlags d (fc_id c)"
      unfolding d' setFlagWithdrawalTx_def caseFlags_def voidCaseIfDoneTx_fields
      by (auto intro!: filter_updWhere_other)
    moreover have "c \<in> set (db_cases d')"
      using c \<open>fl_case q \<noteq> fc_id c\<close>
      by (auto simp: d' setFlagWithdrawalTx_def voidCaseIfDoneTx_def Let_def set_updWhere)
    ultimately show ?thesis by simp
  next
    case False
    then show ?thesis using withdrawFlag c by (cases r) (auto elim!: withdrawFlagTx_Inr)
  qed
next
  case (dismissCase x overVoid u)
  then show ?thesis using c
    by (auto elim!: setCaseDismissalTx_Inr simp: set_updWhere openCase_def caseFlags_def)
next
  case (deleteFlagCase caseID viewer now reedID)
  then have d': "d' = d\<lparr>db_cases := filter (\<lambda>c. fc_id c \<noteq> caseID) (db_cases d),
       db_flags := filter (\<lambda>f. fl_case f \<noteq> caseID) (db_flags d)\<rparr>"
    by (auto elim!: deleteFlagCaseTx_Inr)
  show ?thesis
  proof (cases "fc_id c = caseID")
    case False
    then have "(\<lambda>f :: flagRow. fl_case f \<noteq> caseID \<and> fl_case f = fc_id c) = (\<lambda>f. fl_case f = fc_id c)"
      by auto
    then show ?thesis using False c d' by (simp add: caseFlags_def)
  qed (auto simp: d' caseFlags_def filter_empty_conv)
qed

lemma storeFlagTx_once:
  assumes "reedAuthorQ d (rf_reed f) (e_server_id E) = Some a" "\<not> isRootIdentity a (e_server_id E)"
    "a \<noteq> rf_reporter f" "findFlag d (rf_reed f) (rf_reporter f) \<noteq> None"
  shows "storeFlagTx E sign ids now f d = Inl (Sentinel ''ErrAlreadyFlagged'')"
  using assms by (auto simp: storeFlagTx_def dest: findFlag_Some)

lemma storeFlagTx_found:
  assumes "storeFlagTx E sign ids now f d = Inr (f', d')"
  shows "findFlag d' (rf_reed f) (rf_reporter f) \<noteq> None \<and>
     (\<exists>c \<in> set (db_cases d'). fc_id c = rf_case f' \<and> takesFlags (rf_reed f) c)"
proof -
  obtain author d1 sig where o: "openCaseTx ids (rf_reed f) (truncateSecond now) d = Inr (rf_case f', d1)"
    and d': "d' = d1\<lparr>db_flags := db_flags d @ [\<lparr>fl_reed = rf_reed f, fl_author = author,
        fl_reporter = rf_reporter f, fl_note = rf_note f, fl_user_sig = rf_sig f,
        fl_server_sig = sig, fl_created = ss_at sig, fl_case = rf_case f', fl_withdrawal = None\<rparr>]\<rparr>"
    by (rule storeFlagTx_Inr [OF assms])
  have "\<exists>g \<in> set (db_flags d'). fl_reed g = rf_reed f \<and> fl_reporter g = rf_reporter f"
    using d' by simp
  then have "findFlag d' (rf_reed f) (rf_reporter f) \<noteq> None"
    by (auto simp: findFlag_def find_None_iff)
  then show ?thesis using openCaseTx_case(1) [OF o] d' by auto
qed

text \<open>Withdrawing twice is withdrawing once.\<close>

lemma withdrawFlagTx_again:
  assumes inv: "flagInv s d" and w: "withdrawFlagTx reedID reporterID w d = Inr ((f, fresh), d')"
  shows "\<exists>g. withdrawFlagTx reedID reporterID w' d' = Inr ((g, False), d') \<and> rf_withdrawal g = rf_withdrawal f"
proof -
  obtain r c where r: "findFlag d reedID reporterID = Some r" "rowBy fc_id (fl_case r) (db_cases d) = Some c"
    "fc_dismissal c = None"
    and f: "fresh \<longleftrightarrow> fl_withdrawal r = None"
      "f = (if fresh then (scanReedFlag r)\<lparr>rf_withdrawal := Some w\<rparr> else scanReedFlag r)"
    and d': "d' = (if fresh then setFlagWithdrawalTx (fl_case r) reedID reporterID w d else d)"
    by (rule withdrawFlagTx_Inr [OF w])
  define r' where "r' = (if fresh then r\<lparr>fl_withdrawal := Some w\<rparr> else r)"
  have "findFlag d' reedID reporterID = Some r'"
  proof -
    have "List.find (\<lambda>f. fl_reed f = reedID \<and> fl_reporter f = reporterID)
        (updWhere (\<lambda>f. fl_reed f = reedID \<and> fl_reporter f = reporterID) (\<lambda>f. f\<lparr>fl_withdrawal := Some w\<rparr>) t) =
      map_option (\<lambda>f. f\<lparr>fl_withdrawal := Some w\<rparr>)
        (List.find (\<lambda>f. fl_reed f = reedID \<and> fl_reporter f = reporterID) t)" for t :: "flagRow list"
      by (induction t) auto
    then show ?thesis using r(1) by (simp add: findFlag_def d' r'_def setFlagWithdrawalTx_def)
  qed
  moreover have "\<exists>c'. rowBy fc_id (fl_case r') (db_cases d') = Some c' \<and> fc_dismissal c' = None"
  proof (cases fresh)
    case True
    then show ?thesis
      using r(2,3) by (simp add: d' r'_def setFlagWithdrawalTx_def voidCaseIfDoneTx_def Let_def rowBy_updWhere)
  next
    case False
    then show ?thesis using r(2,3) by (simp add: d' r'_def)
  qed
  then obtain c' where "rowBy fc_id (fl_case r') (db_cases d') = Some c'" "fc_dismissal c' = None"
    by blast
  moreover have "fl_withdrawal r' \<noteq> None" using f(1) by (simp add: r'_def)
  ultimately have "withdrawFlagTx reedID reporterID w' d' = Inr ((scanReedFlag r', False), d')"
    by (simp add: withdrawFlagTx_def getFlagQ_def scanReedFlag_def del: not_None_eq)
  then show ?thesis using f by (auto simp: r'_def scanReedFlag_def)
qed

end
