(* ===== verification/PeerQueue.thy ===== *)
theory PeerQueue
  imports Store
begin

text \<open>
  What each peer is owed: the queue writers of \<open>peer_event_queue.go\<close>, the queue rows of
  \<open>services.go\<close>, and the drain of \<open>federation_delivery.go\<close>.  A call takes time, so it is modelled
  with what other transactions do to the database meanwhile.  Lemmas: ids only grow, an enqueue owes
  every peer that isn't revoked exactly one event, a drain sends a peer's events in the order of
  their ids and drops one only once it is answered or has nothing to send.
\<close>

definition peerEventNewReed :: string where "peerEventNewReed = ''new_reed''"
definition peerEventReedRemoval :: string where "peerEventReedRemoval = ''reed_removal''"
definition peerEventThreadRemoval :: string where "peerEventThreadRemoval = ''thread_removal''"
definition peerEventAccountRemoval :: string where "peerEventAccountRemoval = ''account_removal''"
definition peerEventBlock :: string where "peerEventBlock = ''block''"
definition peerEventFollow :: string where "peerEventFollow = ''follow''"
definition peerEventKeyRevocation :: string where "peerEventKeyRevocation = ''key_revocation''"
definition peerEventServerKey :: string where "peerEventServerKey = ''server_key''"

lemmas [const_defs] = peerEventNewReed_def peerEventReedRemoval_def peerEventThreadRemoval_def
  peerEventAccountRemoval_def peerEventBlock_def peerEventFollow_def peerEventKeyRevocation_def
  peerEventServerKey_def

subsection \<open>Writers\<close>

definition eventKey :: "peerEventRow \<Rightarrow> string \<times> string \<times> string \<times> string option" where
  "eventKey e = (pe_server e, pe_kind e, pe_subject e, pe_object e)"

text \<open>The insert of one row, \<open>ON CONFLICT DO NOTHING\<close>.\<close>

definition enqueueRow :: "string \<Rightarrow> string \<Rightarrow> string \<Rightarrow> string option \<Rightarrow> db \<Rightarrow> db" where
  "enqueueRow server kind subject object d =
     (if (server, kind, subject, object) \<in> eventKey ` set (db_peer_queue d) then d
      else d\<lparr>db_peer_queue := db_peer_queue d @ [\<lparr>pe_id = Suc (db_peer_seq d), pe_server = server,
          pe_kind = kind, pe_subject = subject, pe_object = object\<rparr>],
        db_peer_seq := Suc (db_peer_seq d)\<rparr>)"

definition livePeers :: "db \<Rightarrow> string list" where
  "livePeers d = map sm_server (filter (\<lambda>m. sm_revoked_at m = None) (db_mesh d))"

definition enqueuePeerEventTx :: "string \<Rightarrow> string \<Rightarrow> db \<Rightarrow> db" where
  "enqueuePeerEventTx kind subject d = fold (\<lambda>p. enqueueRow p kind subject None) (livePeers d) d"

text \<open>\<open>enqueuePeerEventForTx\<close>: one already waiting moves to the back, under a new id.\<close>

definition enqueuePeerEventForTx :: "string \<Rightarrow> string \<Rightarrow> string \<Rightarrow> string \<Rightarrow> db \<Rightarrow> db" where
  "enqueuePeerEventForTx server kind subject object d =
     (if server \<notin> set (livePeers d) then d
      else if (server, kind, subject, Some object) \<in> eventKey ` set (db_peer_queue d)
        then d\<lparr>db_peer_queue := updWhere (\<lambda>e. eventKey e = (server, kind, subject, Some object))
            (\<lambda>e. e\<lparr>pe_id := Suc (db_peer_seq d)\<rparr>) (db_peer_queue d),
          db_peer_seq := Suc (db_peer_seq d)\<rparr>
      else enqueueRow server kind subject (Some object) d)"

subsection \<open>Claiming and reading a queue\<close>

definition updMesh :: "string \<Rightarrow> (meshRow \<Rightarrow> meshRow) \<Rightarrow> db \<Rightarrow> db" where
  "updMesh p f d = d\<lparr>db_mesh := updWhere (\<lambda>m. sm_server m = p) f (db_mesh d)\<rparr>"

definition claimable :: "gotime \<Rightarrow> meshRow \<Rightarrow> bool" where
  "claimable now m \<longleftrightarrow> sm_revoked_at m = None \<and> sm_down_at m = None \<and>
     (case sm_claimed_at m of None \<Rightarrow> True | Some t \<Rightarrow> t + minute < now)"

definition claimPeerEvents :: "gotime \<Rightarrow> string \<Rightarrow> db \<Rightarrow> bool \<times> db" where
  "claimPeerEvents now p d =
     (list_ex (\<lambda>m. sm_server m = p \<and> claimable now m) (db_mesh d),
      d\<lparr>db_mesh := updWhere (\<lambda>m. sm_server m = p \<and> claimable now m)
        (\<lambda>m. m\<lparr>sm_claimed_at := Some now\<rparr>) (db_mesh d)\<rparr>)"

definition refreshPeerEventsClaim :: "gotime \<Rightarrow> string \<Rightarrow> db \<Rightarrow> db" where
  "refreshPeerEventsClaim now p = updMesh p (\<lambda>m. m\<lparr>sm_claimed_at := Some now\<rparr>)"

definition releasePeerEvents :: "string \<Rightarrow> db \<Rightarrow> db" where
  "releasePeerEvents p = updMesh p (\<lambda>m. m\<lparr>sm_claimed_at := None\<rparr>)"

definition peerUp :: "db \<Rightarrow> string \<Rightarrow> meshRow option" where
  "peerUp d p = List.find (\<lambda>m. sm_server m = p \<and> sm_down_at m = None \<and> sm_revoked_at m = None) (db_mesh d)"

definition peerEvents :: "db \<Rightarrow> string \<Rightarrow> peerEventRow list" where
  "peerEvents d p = sort_key pe_id (filter (\<lambda>e. pe_server e = p) (db_peer_queue d))"

text \<open>\<open>NextPeerEvent\<close>: the oldest event and where to send it.\<close>

definition nextPeerEvent :: "string \<Rightarrow> db \<Rightarrow> (peerEventRow \<times> string) option" where
  "nextPeerEvent p d = (case peerUp d p of
     None \<Rightarrow> None
   | Some m \<Rightarrow> (case peerEvents d p of [] \<Rightarrow> None | e # _ \<Rightarrow> Some (e, sm_base_url m)))"

definition deletePeerEvent :: "nat \<Rightarrow> db \<Rightarrow> db" where
  "deletePeerEvent i d = d\<lparr>db_peer_queue := filter (\<lambda>e. pe_id e \<noteq> i) (db_peer_queue d)\<rparr>"

definition listPeersOwedEvents :: "db \<Rightarrow> string list" where
  "listPeersOwedEvents d = livePeers d"

subsection \<open>Draining\<close>

text \<open>
  \<open>peerEventSender\<close>: \<open>build\<close> reads the payload from the database, \<open>refused\<close> and \<open>settled\<close> run after
  the answer.  \<open>peerEventCall\<close> is the request: whether it failed and its status, and the database
  as other transactions left it by then.
\<close>

datatype 'b built = Gone | BuildFailed | Payload string 'b

record 'b peerEventSender =
  ps_build :: "peerEventRow \<Rightarrow> db \<Rightarrow> 'b built"
  ps_refused :: "peerEventRow \<Rightarrow> 'b \<Rightarrow> db \<Rightarrow> db"
  ps_settled :: "peerEventRow \<Rightarrow> db \<Rightarrow> db"

type_synonym 'b peerEventCall =
  "peerEventRow \<Rightarrow> string \<Rightarrow> string \<Rightarrow> 'b \<Rightarrow> db \<Rightarrow> bool \<times> nat \<times> db"

definition retryLater :: "bool \<Rightarrow> nat \<Rightarrow> bool" where
  "retryLater failed status \<longleftrightarrow> failed \<or> 500 \<le> status \<or> status = 429"

text \<open>
  One turn of the loop: \<open>Inl\<close> the drain stops, \<open>Inr\<close> it goes on; the list is the events called.
\<close>

definition drainTurn ::
    "(string \<Rightarrow> 'b peerEventSender option) \<Rightarrow> 'b peerEventCall \<Rightarrow> gotime \<Rightarrow> string \<Rightarrow> db \<Rightarrow>
     (db + db) \<times> peerEventRow list" where
  "drainTurn senderFor call now p d = (case nextPeerEvent p d of
     None \<Rightarrow> (Inl d, [])
   | Some (ev, baseURL) \<Rightarrow> (case senderFor (pe_kind ev) of
       None \<Rightarrow> (Inr (deletePeerEvent (pe_id ev) d), [])
     | Some sender \<Rightarrow> (case ps_build sender ev d of
         Gone \<Rightarrow> (Inr (deletePeerEvent (pe_id ev) d), [])
       | BuildFailed \<Rightarrow> (Inl d, [])
       | Payload path body \<Rightarrow>
           (let (failed, status, d1) = call ev baseURL path body d in
            if retryLater failed status then (Inl d1, [ev])
            else let d2 = (if 400 \<le> status then ps_refused sender ev body d1 else d1);
                     d3 = ps_settled sender ev (deletePeerEvent (pe_id ev) d2)
                 in (Inr (refreshPeerEventsClaim now p d3), [ev])))))"

fun drainLoop ::
    "(string \<Rightarrow> 'b peerEventSender option) \<Rightarrow> 'b peerEventCall \<Rightarrow> gotime \<Rightarrow> string \<Rightarrow> nat \<Rightarrow> db \<Rightarrow>
     (db \<times> peerEventRow list) option" where
  "drainLoop senderFor call now p 0 d = None"
| "drainLoop senderFor call now p (Suc n) d =
     (case drainTurn senderFor call now p d of
        (Inl d', sent) \<Rightarrow> Some (d', sent)
      | (Inr d', sent) \<Rightarrow>
          map_option (\<lambda>(d'', later). (d'', sent @ later)) (drainLoop senderFor call now p n d'))"

definition drainPeerEventsWith ::
    "(string \<Rightarrow> 'b peerEventSender option) \<Rightarrow> 'b peerEventCall \<Rightarrow> gotime \<Rightarrow> string \<Rightarrow> nat \<Rightarrow> db \<Rightarrow>
     (db \<times> peerEventRow list) option" where
  "drainPeerEventsWith senderFor call now p n d =
     (case claimPeerEvents now p d of
        (False, d') \<Rightarrow> Some (d', [])
      | (True, d') \<Rightarrow> map_option (\<lambda>(d'', sent). (releasePeerEvents p d'', sent))
          (drainLoop senderFor call now p n d'))"

subsection \<open>The queue's keys\<close>

definition queueInv :: "db \<Rightarrow> bool" where
  "queueInv d \<longleftrightarrow> uniqueBy pe_id (db_peer_queue d) \<and> uniqueBy eventKey (db_peer_queue d) \<and>
     (\<forall>e \<in> set (db_peer_queue d). pe_id e \<le> db_peer_seq d)"

lemma queueInv_enqueueRow: "queueInv d \<Longrightarrow> queueInv (enqueueRow p k s ob d)"
  by (auto simp: queueInv_def enqueueRow_def eventKey_def image_iff le_Suc_eq
      dest: bspec [of _ _ "_ :: peerEventRow"])

lemma enqueueRow_mesh [simp]: "db_mesh (enqueueRow p k s ob d) = db_mesh d"
  by (simp add: enqueueRow_def)

lemma fold_inv: "(\<And>x d. P d \<Longrightarrow> P (f x d)) \<Longrightarrow> P d \<Longrightarrow> P (fold f xs d)"
  by (induction xs arbitrary: d) auto

lemma queueInv_enqueue: "queueInv d \<Longrightarrow> queueInv (enqueuePeerEventTx k s d)"
  unfolding enqueuePeerEventTx_def by (rule fold_inv) (auto intro: queueInv_enqueueRow)

lemma eventKey_set_pe_id [simp]: "eventKey (e\<lparr>pe_id := i\<rparr>) = eventKey e"
  by (simp add: eventKey_def)

lemma queueInv_enqueueFor:
  assumes inv: "queueInv d"
  shows "queueInv (enqueuePeerEventForTx p k s ob d)"
proof -
  let ?K = "(p, k, s, Some ob)" and ?n = "Suc (db_peer_seq d)"
  let ?u = "updWhere (\<lambda>e. eventKey e = ?K) (\<lambda>e. e\<lparr>pe_id := ?n\<rparr>)"
  have "uniqueBy pe_id (?u t)"
    if "uniqueBy pe_id t" "uniqueBy eventKey t" "\<forall>e \<in> set t. pe_id e \<noteq> ?n" for t
    using that
  proof (induction t)
    case (Cons e t)
    have "pe_id ` set (?u t) \<subseteq> insert ?n (pe_id ` set t)" by (auto simp: set_updWhere)
    moreover have "?u t = t" if "eventKey e = ?K"
    proof (rule updWhere_none)
      have "?K \<notin> eventKey ` set t" using Cons.prems(2) that by simp
      then show "eventKey r \<noteq> ?K" if "r \<in> set t" for r using that by (metis imageI)
    qed
    ultimately show ?case using Cons by (auto simp: image_iff)
  qed simp
  moreover have "\<forall>e \<in> set (db_peer_queue d). pe_id e \<noteq> ?n" using inv by (auto simp: queueInv_def)
  moreover have "map eventKey (?u (db_peer_queue d)) = map eventKey (db_peer_queue d)"
    by (simp add: map_updWhere)
  ultimately show ?thesis
    using inv queueInv_enqueueRow [OF inv]
    by (auto simp: enqueuePeerEventForTx_def queueInv_def set_updWhere le_Suc_eq)
qed

text \<open>Every live peer is owed the event, once; nobody else gets a new one.\<close>

lemma enqueueRow_keys:
  "eventKey ` set (db_peer_queue (enqueueRow p k s ob d)) =
     insert (p, k, s, ob) (eventKey ` set (db_peer_queue d))"
  by (auto simp: enqueueRow_def eventKey_def)

lemma enqueuePeerEventTx_keys:
  "eventKey ` set (db_peer_queue (enqueuePeerEventTx k s d)) =
     eventKey ` set (db_peer_queue d) \<union> (\<lambda>p. (p, k, s, None)) ` set (livePeers d)"
proof -
  have "eventKey ` set (db_peer_queue (fold (\<lambda>p. enqueueRow p k s None) ps e)) =
     eventKey ` set (db_peer_queue e) \<union> (\<lambda>p. (p, k, s, None)) ` set ps" for ps e
    by (induction ps arbitrary: e) (auto simp: enqueueRow_keys)
  then show ?thesis by (simp add: enqueuePeerEventTx_def)
qed

text \<open>
  An event enqueued again while it is on the wire outlives the answer to the old one: deleting the id
  that was read leaves the pair queued.
\<close>

lemma reenqueue_survives_delete:
  assumes inv: "queueInv d" and live: "p \<in> set (livePeers d)"
    and ev: "ev \<in> set (db_peer_queue d)" "eventKey ev = (p, k, s, Some ob)"
  shows "(p, k, s, Some ob) \<in>
    eventKey ` set (db_peer_queue (deletePeerEvent (pe_id ev) (enqueuePeerEventForTx p k s ob d)))"
proof -
  have "ev\<lparr>pe_id := Suc (db_peer_seq d)\<rparr> \<in>
      set (db_peer_queue (deletePeerEvent (pe_id ev) (enqueuePeerEventForTx p k s ob d)))"
    using inv live ev
    by (force simp: deletePeerEvent_def enqueuePeerEventForTx_def set_updWhere queueInv_def)
  then show ?thesis using ev(2) by (metis eventKey_set_pe_id imageI)
qed

subsection \<open>What a drain does\<close>

text \<open>A turn takes an event off a queue only when it is answered for good or has nothing to send.\<close>

definition answeredFor :: "(string \<Rightarrow> 'b peerEventSender option) \<Rightarrow> 'b peerEventCall \<Rightarrow> string \<Rightarrow> db \<Rightarrow>
    peerEventRow \<Rightarrow> bool" where
  "answeredFor senderFor call url d ev \<longleftrightarrow> (case senderFor (pe_kind ev) of
     None \<Rightarrow> True
   | Some sender \<Rightarrow> (case ps_build sender ev d of
       Gone \<Rightarrow> True
     | BuildFailed \<Rightarrow> False
     | Payload path body \<Rightarrow>
         (let (failed, status, d1) = call ev url path body d in \<not> failed \<and> status < 500 \<and> status \<noteq> 429)))"

lemma drainTurn_answered:
  "drainTurn senderFor call now p d = (Inr d', sent) \<Longrightarrow>
     \<exists>ev url. nextPeerEvent p d = Some (ev, url) \<and> answeredFor senderFor call url d ev"
proof (cases "nextPeerEvent p d")
  case (Some eu)
  assume t: "drainTurn senderFor call now p d = (Inr d', sent)"
  obtain ev url where eu: "eu = (ev, url)" by (cases eu)
  have "answeredFor senderFor call url d ev"
    using t Some eu
    by (auto simp: drainTurn_def answeredFor_def retryLater_def Let_def
        split: option.splits built.splits prod.splits if_splits)
  then show ?thesis using Some eu by blast
qed (simp add: drainTurn_def)

text \<open>
  A call and its hooks that leave the queue alone: then one turn drops exactly the event it read,
  the first of the peer's queue, or stops and drops nothing.
\<close>

definition quietCalls :: "(string \<Rightarrow> 'b peerEventSender option) \<Rightarrow> 'b peerEventCall \<Rightarrow> bool" where
  "quietCalls senderFor call \<longleftrightarrow>
     (\<forall>ev url path body d. db_peer_queue (snd (snd (call ev url path body d))) = db_peer_queue d) \<and>
     (\<forall>kind sender ev body d. senderFor kind = Some sender \<longrightarrow>
        db_peer_queue (ps_refused sender ev body d) = db_peer_queue d \<and>
        db_peer_queue (ps_settled sender ev d) = db_peer_queue d)"

lemma drainTurn_queue:
  assumes quiet: "quietCalls senderFor call" and t: "drainTurn senderFor call now p d = (r, sent)"
  shows "case r of
      Inl d' \<Rightarrow> db_peer_queue d' = db_peer_queue d \<and> (sent = [] \<or> sent = take 1 (peerEvents d p))
    | Inr d' \<Rightarrow> peerEvents d p \<noteq> [] \<and> (sent = [] \<or> sent = take 1 (peerEvents d p)) \<and>
        db_peer_queue d' = filter (\<lambda>e. pe_id e \<noteq> pe_id (hd (peerEvents d p))) (db_peer_queue d)"
proof (cases "nextPeerEvent p d")
  case (Some eu)
  then obtain ev url rest where ev: "peerEvents d p = ev # rest" "eu = (ev, url)"
    by (auto simp: nextPeerEvent_def split: option.splits list.splits)
  have call: "db_peer_queue d1 = db_peer_queue d"
    if "call ev url path body d = (failed, status, d1)" for path body failed status d1
    using quiet that unfolding quietCalls_def by (metis snd_conv)
  have hooks: "db_peer_queue (ps_refused sender ev body e) = db_peer_queue e"
    "db_peer_queue (ps_settled sender ev e) = db_peer_queue e"
    if "senderFor (pe_kind ev) = Some sender" for sender body e
    using quiet that by (auto simp: quietCalls_def)
  show ?thesis
    using t Some ev call hooks
    by (auto simp: drainTurn_def Let_def deletePeerEvent_def refreshPeerEventsClaim_def updMesh_def
        split: option.splits built.splits prod.splits if_splits)
qed (use t in \<open>auto simp: drainTurn_def\<close>)

lemma peerEvents_drop_first:
  assumes "uniqueBy pe_id (db_peer_queue d)" and "peerEvents d p = ev # rest"
    and "db_peer_queue d' = filter (\<lambda>e. pe_id e \<noteq> pe_id ev) (db_peer_queue d)"
  shows "peerEvents d' p = rest" and "length (db_peer_queue d') < length (db_peer_queue d)"
proof -
  have "uniqueBy pe_id (peerEvents d p)"
    using uniqueBy_filter [OF assms(1), of "\<lambda>e. pe_server e = p"] by (simp add: peerEvents_def distinct_map)
  then have "filter (\<lambda>e. pe_id e \<noteq> pe_id ev) (ev # rest) = rest"
    using assms(2) by (auto simp: filter_id_conv image_iff)
  moreover have "peerEvents d' p = filter (\<lambda>e. pe_id e \<noteq> pe_id ev) (peerEvents d p)"
    by (simp add: peerEvents_def assms(3) filter_sort conj_commute)
  ultimately show "peerEvents d' p = rest" using assms(2) by simp
  have "ev \<in> set (peerEvents d p)" using assms(2) by simp
  then have "ev \<in> set (db_peer_queue d)" by (simp add: peerEvents_def)
  then show "length (db_peer_queue d') < length (db_peer_queue d)"
    unfolding assms(3) by (rule length_filter_less) simp
qed

text \<open>
  The whole drain: it ends within as many turns as there are events, what it sends is sent in the
  queue's order, and what is left is a tail of the queue.
\<close>

lemma drainLoop_order:
  assumes quiet: "quietCalls senderFor call"
    and "uniqueBy pe_id (db_peer_queue d)" and "length (peerEvents d p) < n"
  shows "\<exists>d' sent. drainLoop senderFor call now p n d = Some (d', sent) \<and>
     (\<exists>k. peerEvents d' p = drop k (peerEvents d p) \<and> subseq sent (take (Suc k) (peerEvents d p)) \<and>
          (\<forall>q. q \<noteq> p \<longrightarrow> peerEvents d' q = peerEvents d q))"
  using assms(2,3)
proof (induction n arbitrary: d)
  case (Suc n)
  obtain r sent where t: "drainTurn senderFor call now p d = (r, sent)" by fastforce
  note turn = drainTurn_queue [OF quiet t]
  have first: "subseq sent (take 1 (peerEvents d p))" using turn by (cases r) auto
  show ?case
  proof (cases r)
    case (Inl d')
    then have "db_peer_queue d' = db_peer_queue d" using turn by simp
    then have "peerEvents d' q = peerEvents d q" for q by (simp add: peerEvents_def)
    then show ?thesis using t Inl first by (auto intro!: exI [of _ 0])
  next
    case (Inr d')
    then obtain ev rest where ev: "peerEvents d p = ev # rest" by (cases "peerEvents d p") (use turn in auto)
    have q': "db_peer_queue d' = filter (\<lambda>e. pe_id e \<noteq> pe_id ev) (db_peer_queue d)"
      using turn Inr ev by simp
    note drop = peerEvents_drop_first [OF Suc.prems(1) ev q']
    have uni: "uniqueBy pe_id (db_peer_queue d')" using Suc.prems(1) by (simp add: q' uniqueBy_filter)
    have others: "peerEvents d' q = peerEvents d q" if "q \<noteq> p" for q
    proof -
      have "ev \<in> set (peerEvents d p)" using ev by simp
      then have evp: "ev \<in> set (db_peer_queue d)" "pe_server ev = p" by (simp_all add: peerEvents_def)
      have "filter (\<lambda>e. pe_server e = q) (db_peer_queue d') = filter (\<lambda>e. pe_server e = q) (db_peer_queue d)"
        unfolding q' filter_filter using evp that uniqueBy_inj [OF Suc.prems(1) _ evp(1)]
        by (intro filter_cong) auto
      then show ?thesis by (simp add: peerEvents_def)
    qed
    obtain d'' later k where IH: "drainLoop senderFor call now p n d' = Some (d'', later)"
      "peerEvents d'' p = drop k rest" "subseq later (take (Suc k) rest)"
      "\<forall>q. q \<noteq> p \<longrightarrow> peerEvents d'' q = peerEvents d' q"
      using Suc.IH [OF uni] Suc.prems(2) ev drop(1) by auto
    have "subseq (sent @ later) ([ev] @ take (Suc k) rest)"
      using first ev IH(3) by (intro list_emb_append_mono) auto
    then show ?thesis
      using t Inr IH ev others by (auto intro!: exI [of _ "Suc k"])
  qed
qed simp

end
