(* ===== verification/Removal.thy ===== *)
theory Removal
  imports Requests Flags PeerQueue
begin

text \<open>
  Removing an account: the certificate storage of \<open>services.go\<close> a self-removal and a kick share.
  A removal frees the username, drops the user's flags in open cases and owes every peer the news.
  Lemmas: what it leaves of each table, that it keeps the flag and queue invariants, and that a
  second, different certificate is refused.
\<close>

definition maxAccountNoteLen :: nat where "maxAccountNoteLen = 140"

definition validateAccountNote :: "env \<Rightarrow> string \<Rightarrow> err option" where
  "validateAccountNote E note =
     (if maxAccountNoteLen < e_graphemes E note then Some (Internal ''note exceeds'') else None)"

text \<open>\<open>loadAccountCertTx\<close>: a kick here names its request, a peer's kick keeps the approval itself.\<close>

definition loadAccountCertTx :: "db \<Rightarrow> string \<Rightarrow> accountRemovalCert option" where
  "loadAccountCertTx d u = (case rowBy rm_user u (db_removals d) of
     None \<Rightarrow> None
   | Some r \<Rightarrow>
       (let c = \<lparr>ac_user = u, ac_note = rm_note r, ac_user_sig = '''', ac_user_key = '''',
              ac_server_sig = ss_armor (rm_server_sig r), ac_server_key = ss_id (rm_server_sig r),
              ac_server_at = ss_at (rm_server_sig r), ac_request_id = '''', ac_admin = None\<rparr>
        in Some (case rm_request r of
            Some q \<Rightarrow> c\<lparr>ac_request_id := q, ac_admin := getAdminRequestQ d q\<rparr>
          | None \<Rightarrow> (case rm_authorization r of
              Some a \<Rightarrow> c\<lparr>ac_admin := Some a\<rparr>
            | None \<Rightarrow> (case rm_user_sig r of
                Some s \<Rightarrow> c\<lparr>ac_user_sig := us_armor s, ac_user_key := us_id s\<rparr>
              | None \<Rightarrow> c)))))"

text \<open>\<open>settleAccountRemovalTx\<close>.\<close>

definition settleCase :: "string \<Rightarrow> db \<Rightarrow> db" where
  "settleCase caseID d =
     voidCaseIfDoneTx caseID
       (if caseFlags d caseID = [] then d\<lparr>db_cases := filter (\<lambda>c. fc_id c \<noteq> caseID) (db_cases d)\<rparr> else d)"

definition inOpenCase :: "db \<Rightarrow> flagRow \<Rightarrow> bool" where
  "inOpenCase d f \<longleftrightarrow> list_ex (\<lambda>c. fc_id c = fl_case f \<and> openCase c) (db_cases d)"

definition settleAccountRemovalTx :: "string \<Rightarrow> db \<Rightarrow> db" where
  "settleAccountRemovalTx removed d =
     (let gone = filter (\<lambda>f. fl_reporter f = removed \<and> inOpenCase d f) (db_flags d);
          d1 = d\<lparr>db_flags := filter (\<lambda>f. \<not> (fl_reporter f = removed \<and> inOpenCase d f)) (db_flags d)\<rparr>
      in fold settleCase (remdups (map fl_case gone)) d1)"

definition insertAccountRemovalCertTx :: "accountRemovalCert \<Rightarrow> string \<Rightarrow> db \<Rightarrow> err + unit \<times> db" where
  "insertAccountRemovalCertTx cert u d =
     (if u \<in> rm_user ` set (db_removals d) then Inl (Internal ''insert account removal'')
      else Inr ((), d\<lparr>db_removals := db_removals d @ [\<lparr>rm_user = u, rm_note = ac_note cert,
        rm_user_sig = (if ac_request_id cert = '''' \<and> ac_admin cert = None
          then Some \<lparr>us_id = ac_user_key cert, us_armor = ac_user_sig cert\<rparr> else None),
        rm_request = (if ac_request_id cert = '''' then None else Some (ac_request_id cert)),
        rm_authorization = (if ac_request_id cert = '''' then ac_admin cert else None),
        rm_server_sig = \<lparr>ss_id = ac_server_key cert, ss_armor = ac_server_sig cert,
          ss_at = ac_server_at cert\<rparr>\<rparr>]\<rparr>))"

definition sameAccountRemoval :: "accountRemovalCert \<Rightarrow> accountRemovalCert \<Rightarrow> err option" where
  "sameAccountRemoval existing cert =
     (if ac_note existing \<noteq> ac_note cert \<or> ac_user_sig existing \<noteq> ac_user_sig cert \<or>
         ac_user_key existing \<noteq> ac_user_key cert \<or> ac_request_id existing \<noteq> ac_request_id cert \<or>
         (ac_admin existing = None) \<noteq> (ac_admin cert = None) \<or>
         (case (ac_admin existing, ac_admin cert) of
            (Some a, Some b) \<Rightarrow> rq_id a \<noteq> rq_id b | _ \<Rightarrow> False) \<or>
         ac_server_sig existing \<noteq> ac_server_sig cert \<or>
         ac_server_key existing \<noteq> ac_server_key cert \<or> ac_server_at existing \<noteq> ac_server_at cert
      then Some (Sentinel ''errRemovalConflict'') else None)"

definition bumpActiveUsers :: "int \<Rightarrow> db \<Rightarrow> db" where
  "bumpActiveUsers delta d = d\<lparr>db_active_users := max 0 (db_active_users d + delta)\<rparr>"

text \<open>The profile's signature ids are scanned into plain integers, so a row without them is an error.\<close>

definition clearProfile :: "string \<Rightarrow> db \<Rightarrow> err + db" where
  "clearProfile u d = (case userRow d u of
     None \<Rightarrow> Inl (Internal ''load profile signature ids'')
   | Some r \<Rightarrow>
       if u_user_sig r = None \<or> u_server_sig r = None then Inl (Internal ''load profile signature ids'')
       else Inr (updUser u (\<lambda>r. r\<lparr>u_username := None, u_user_sig := None, u_server_sig := None\<rparr>) d))"

definition storeAccountRemovalTx :: "env \<Rightarrow> accountRemovalCert \<Rightarrow> string \<Rightarrow> db \<Rightarrow> err + unit \<times> db" where
  "storeAccountRemovalTx E cert0 selfIdentity d = (case validateAccountNote E (ac_note cert0) of
     Some e \<Rightarrow> Inl e
   | None \<Rightarrow>
     (let cert = cert0\<lparr>ac_server_at := truncateSecond (ac_server_at cert0)\<rparr> in
      case loadAccountCertTx d selfIdentity of
        None \<Rightarrow>
          bindR (insertAccountRemovalCertTx cert selfIdentity d) (\<lambda>(_, d1).
          bindR (clearProfile selfIdentity
              (enqueuePeerEventTx peerEventAccountRemoval selfIdentity (settleAccountRemovalTx selfIdentity d1)))
            (\<lambda>d2. Inr ((), bumpActiveUsers (- 1) d2)))
      | Some existing \<Rightarrow> (case sameAccountRemoval existing cert of
          Some e \<Rightarrow> Inl e | None \<Rightarrow> Inr ((), d))))"

definition insertAccountRemovalCert :: "env \<Rightarrow> accountRemovalCert \<Rightarrow> db \<Rightarrow> (err + unit) \<times> db" where
  "insertAccountRemovalCert E cert d =
     withAdminTx (storeAccountRemovalTx E cert (canonicalID (e_server_id E) (ac_user cert))) d"

subsection \<open>What a removal touches\<close>

text \<open>A frame: overwriting what an operation may write makes it the identity.\<close>

lemma settleCase_frame: "(settleCase i d)\<lparr>db_cases := c\<rparr> = d\<lparr>db_cases := c\<rparr>"
  by (simp add: settleCase_def voidCaseIfDoneTx_def Let_def)

lemma fold_settleCase_frame: "(fold settleCase is d)\<lparr>db_cases := c\<rparr> = d\<lparr>db_cases := c\<rparr>"
  by (induction "is" arbitrary: d) (simp_all add: settleCase_frame)

lemma settleAccountRemovalTx_frame:
  "(settleAccountRemovalTx u d)\<lparr>db_cases := c, db_flags := f\<rparr> = d\<lparr>db_cases := c, db_flags := f\<rparr>"
  by (simp add: settleAccountRemovalTx_def Let_def fold_settleCase_frame)

lemma enqueueRow_frame:
  "(enqueueRow p k s ob d)\<lparr>db_peer_queue := q, db_peer_seq := n\<rparr> = d\<lparr>db_peer_queue := q, db_peer_seq := n\<rparr>"
  by (simp add: enqueueRow_def)

lemma enqueuePeerEventTx_frame:
  "(enqueuePeerEventTx k s d)\<lparr>db_peer_queue := q, db_peer_seq := n\<rparr> = d\<lparr>db_peer_queue := q, db_peer_seq := n\<rparr>"
proof -
  have "(fold (\<lambda>p. enqueueRow p k s None) ps d)\<lparr>db_peer_queue := q, db_peer_seq := n\<rparr> =
     d\<lparr>db_peer_queue := q, db_peer_seq := n\<rparr>" for ps
    by (induction ps arbitrary: d) (simp_all add: enqueueRow_frame)
  then show ?thesis by (simp add: enqueuePeerEventTx_def)
qed

text \<open>\<open>removalCore\<close> is all a removal writes but the profile and the counter.\<close>

definition removalCore :: "removalRow \<Rightarrow> string \<Rightarrow> db \<Rightarrow> db" where
  "removalCore row u d = enqueuePeerEventTx peerEventAccountRemoval u
     (settleAccountRemovalTx u (d\<lparr>db_removals := db_removals d @ [row]\<rparr>))"

lemma removalCore_frame:
  "(removalCore row u d)\<lparr>db_cases := c, db_flags := f, db_peer_queue := q, db_peer_seq := n\<rparr> =
     d\<lparr>db_removals := db_removals d @ [row], db_cases := c, db_flags := f, db_peer_queue := q, db_peer_seq := n\<rparr>"
proof -
  let ?e = "d\<lparr>db_removals := db_removals d @ [row]\<rparr>"
  let ?s = "settleAccountRemovalTx u ?e"
  have "(removalCore row u d)\<lparr>db_cases := c, db_flags := f, db_peer_queue := q, db_peer_seq := n\<rparr> =
      (removalCore row u d)\<lparr>db_peer_queue := q, db_peer_seq := n\<rparr>\<lparr>db_cases := c, db_flags := f\<rparr>" by simp
  also have "\<dots> = ?s\<lparr>db_peer_queue := q, db_peer_seq := n\<rparr>\<lparr>db_cases := c, db_flags := f\<rparr>"
    by (simp only: removalCore_def enqueuePeerEventTx_frame)
  also have "\<dots> = ?s\<lparr>db_cases := c, db_flags := f\<rparr>\<lparr>db_peer_queue := q, db_peer_seq := n\<rparr>" by simp
  also have "\<dots> = ?e\<lparr>db_cases := c, db_flags := f\<rparr>\<lparr>db_peer_queue := q, db_peer_seq := n\<rparr>"
    by (simp only: settleAccountRemovalTx_frame)
  finally show ?thesis by simp
qed

lemma removalCore_fields [simp]:
  "db_users (removalCore row u d) = db_users d" "db_requests (removalCore row u d) = db_requests d"
  "db_permissions (removalCore row u d) = db_permissions d" "db_ledger (removalCore row u d) = db_ledger d"
  "db_ledger_seq (removalCore row u d) = db_ledger_seq d" "db_self_key (removalCore row u d) = db_self_key d"
  "db_keys (removalCore row u d) = db_keys d" "db_invites (removalCore row u d) = db_invites d"
  "db_mesh (removalCore row u d) = db_mesh d" "db_private_keys (removalCore row u d) = db_private_keys d"
  "db_key_revocations (removalCore row u d) = db_key_revocations d"
  "db_reed_identities (removalCore row u d) = db_reed_identities d"
  "db_removals (removalCore row u d) = db_removals d @ [row]"
  "db_active_users (removalCore row u d) = db_active_users d"
  "db_identities (removalCore row u d) = db_identities d"
  "db_username_collisions (removalCore row u d) = db_username_collisions d"
  "db_first_boot (removalCore row u d) = db_first_boot d"
  using arg_cong [OF removalCore_frame, of db_users] arg_cong [OF removalCore_frame, of db_requests]
    arg_cong [OF removalCore_frame, of db_permissions] arg_cong [OF removalCore_frame, of db_ledger]
    arg_cong [OF removalCore_frame, of db_ledger_seq] arg_cong [OF removalCore_frame, of db_self_key]
    arg_cong [OF removalCore_frame, of db_keys] arg_cong [OF removalCore_frame, of db_invites]
    arg_cong [OF removalCore_frame, of db_mesh] arg_cong [OF removalCore_frame, of db_private_keys]
    arg_cong [OF removalCore_frame, of db_key_revocations] arg_cong [OF removalCore_frame, of db_reed_identities]
    arg_cong [OF removalCore_frame, of db_removals] arg_cong [OF removalCore_frame, of db_active_users]
    arg_cong [OF removalCore_frame, of db_identities] arg_cong [OF removalCore_frame, of db_username_collisions]
    arg_cong [OF removalCore_frame, of db_first_boot]
  by simp_all

definition clearedRow :: "usersRow \<Rightarrow> usersRow" where
  "clearedRow r = r\<lparr>u_username := None, u_user_sig := None, u_server_sig := None\<rparr>"

lemma clearedRow_fields [simp]:
  "u_id (clearedRow r) = u_id r" "u_role (clearedRow r) = u_role r" "u_invite (clearedRow r) = u_invite r"
  "u_suspended (clearedRow r) = u_suspended r" "u_active_key (clearedRow r) = u_active_key r"
  "u_username (clearedRow r) = None" "u_user_sig (clearedRow r) = None"
  by (simp_all add: clearedRow_def)

definition removalRowOf :: "accountRemovalCert \<Rightarrow> string \<Rightarrow> removalRow" where
  "removalRowOf cert u = \<lparr>rm_user = u, rm_note = ac_note cert,
     rm_user_sig = (if ac_request_id cert = '''' \<and> ac_admin cert = None
       then Some \<lparr>us_id = ac_user_key cert, us_armor = ac_user_sig cert\<rparr> else None),
     rm_request = (if ac_request_id cert = '''' then None else Some (ac_request_id cert)),
     rm_authorization = (if ac_request_id cert = '''' then ac_admin cert else None),
     rm_server_sig = \<lparr>ss_id = ac_server_key cert, ss_armor = ac_server_sig cert,
       ss_at = truncateSecond (ac_server_at cert)\<rparr>\<rparr>"

lemma hasAccountRemovalQ_load: "loadAccountCertTx d u = None \<longleftrightarrow> \<not> hasAccountRemovalQ d u"
  by (auto simp: loadAccountCertTx_def hasAccountRemovalQ_def Let_def split: option.splits
      simp flip: rowBy_None)

text \<open>A removal that stores a new certificate, and one that finds its own already there.\<close>

lemma storeAccountRemovalTx_new:
  assumes "\<not> hasAccountRemovalQ d u"
  shows "storeAccountRemovalTx E cert u d = Inr (x, d') \<longleftrightarrow>
    validateAccountNote E (ac_note cert) = None \<and>
    (\<exists>r. userRow d u = Some r \<and> u_user_sig r \<noteq> None \<and> u_server_sig r \<noteq> None) \<and>
    d' = bumpActiveUsers (- 1) (updUser u clearedRow (removalCore (removalRowOf cert u) u d))"
proof -
  have none: "loadAccountCertTx d u = None" and ins: "u \<notin> rm_user ` set (db_removals d)"
    using assms by (simp_all add: hasAccountRemovalQ_load hasAccountRemovalQ_def)
  let ?cert = "cert\<lparr>ac_server_at := truncateSecond (ac_server_at cert)\<rparr>"
  let ?d1 = "d\<lparr>db_removals := db_removals d @ [removalRowOf cert u]\<rparr>"
  have users: "userRow (removalCore (removalRowOf cert u) u d) u = userRow d u"
    by (simp add: userRow_def)
  have ins': "insertAccountRemovalCertTx ?cert u d = Inr ((), ?d1)"
    using ins by (simp add: insertAccountRemovalCertTx_def removalRowOf_def)
  have clear: "clearProfile u e = (case userRow e u of
      None \<Rightarrow> Inl (Internal ''load profile signature ids'')
    | Some r \<Rightarrow> if u_user_sig r = None \<or> u_server_sig r = None
        then Inl (Internal ''load profile signature ids'') else Inr (updUser u clearedRow e))" for e
  proof -
    have "clearedRow = (\<lambda>r. r\<lparr>u_username := None, u_user_sig := None, u_server_sig := None\<rparr>)"
      by (rule ext) (simp add: clearedRow_def)
    then show ?thesis by (simp add: clearProfile_def split: option.split)
  qed
  have "storeAccountRemovalTx E cert u d = (case validateAccountNote E (ac_note cert) of
      Some e \<Rightarrow> Inl e
    | None \<Rightarrow> bindR (clearProfile u (removalCore (removalRowOf cert u) u d))
        (\<lambda>d2. Inr ((), bumpActiveUsers (- 1) d2)))"
    by (simp add: storeAccountRemovalTx_def none ins' Let_def removalCore_def split: option.split)
  then show ?thesis
    by (auto simp: clear users split: option.splits if_splits)
qed

lemma storeAccountRemovalTx_again:
  assumes "hasAccountRemovalQ d u" and "storeAccountRemovalTx E cert u d = Inr (x, d')"
  shows "d' = d"
proof -
  obtain c where "loadAccountCertTx d u = Some c"
    using assms(1) hasAccountRemovalQ_load [of d u] by auto
  then show ?thesis using assms(2) by (auto simp: storeAccountRemovalTx_def Let_def split: option.splits)
qed

lemma storeAccountRemovalTx_cases:
  assumes "storeAccountRemovalTx E cert u d = Inr (x, d')"
  obtains "hasAccountRemovalQ d u" "d' = d"
  | r where "\<not> hasAccountRemovalQ d u" "userRow d u = Some r" "u_user_sig r \<noteq> None"
      "d' = bumpActiveUsers (- 1) (updUser u clearedRow (removalCore (removalRowOf cert u) u d))"
  using assms storeAccountRemovalTx_again [OF _ assms] storeAccountRemovalTx_new [of d u E cert x d']
  by blast

lemma storeAccountRemovalTx_fields:
  assumes "storeAccountRemovalTx E cert u d = Inr (x, d')"
  shows "db_requests d' = db_requests d" "db_permissions d' = db_permissions d"
    "db_ledger d' = db_ledger d" "db_ledger_seq d' = db_ledger_seq d" "db_self_key d' = db_self_key d"
    "db_keys d' = db_keys d" "db_invites d' = db_invites d" "db_mesh d' = db_mesh d"
    "map u_id (db_users d') = map u_id (db_users d)" "map u_role (db_users d') = map u_role (db_users d)"
    "db_key_revocations d' = db_key_revocations d" "db_reed_identities d' = db_reed_identities d"
    "hasAccountRemovalQ d' u"
  using assms
  by (cases rule: storeAccountRemovalTx_cases;
      simp add: bumpActiveUsers_def updUser_def map_updWhere hasAccountRemovalQ_def removalRowOf_def)+

subsection \<open>The invariants\<close>

text \<open>Each step of the settlement takes one case off the ones still to settle.\<close>

lemma settleCase_upTo:
  assumes inv: "flagInvUpTo (insert i I) s d"
  shows "flagInvUpTo I s (settleCase i d)"
proof (cases "caseFlags d i = []")
  case False
  then show ?thesis using voidCaseIfDoneTx_upTo [OF inv] by (simp add: settleCase_def)
next
  case True
  let ?d = "d\<lparr>db_cases := filter (\<lambda>c. fc_id c \<noteq> i) (db_cases d)\<rparr>"
  note old = flagInvUpToD [OF inv]
  have none: "fl_case f \<noteq> i" if "f \<in> set (db_flags d)" for f
    using True that by (auto simp: caseFlags_def filter_empty_conv)
  have "flagInvUpTo I s ?d"
  proof (rule flagInvUpToI)
    show "uniqueBy fc_reed (filter (\<lambda>c. openCase c \<and> \<not> fc_restored c) (db_cases ?d))"
      using uniqueBy_filter [OF old(3), of "\<lambda>c. fc_id c \<noteq> i"] by (simp add: conj_commute conj_left_commute)
    show "(fl_case f, fl_reed f) \<in> (\<lambda>c. (fc_id c, fc_reed c)) ` set (db_cases ?d)"
      if "f \<in> set (db_flags ?d)" for f
      using old(5) [of f] none [of f] that by auto
  qed (use old in \<open>auto intro: uniqueBy_filter\<close>)
  moreover have "settleCase i d = ?d"
    using True by (simp add: settleCase_def voidCaseIfDoneTx_def caseFlags_def updWhere_none)
  ultimately show ?thesis by simp
qed

lemma fold_settleCase_upTo: "flagInvUpTo (set is \<union> I) s d \<Longrightarrow> flagInvUpTo I s (fold settleCase is d)"
  by (induction "is" arbitrary: d) (auto intro: settleCase_upTo)

lemma settleAccountRemovalTx_inv:
  assumes inv: "flagInv s d"
  shows "flagInv s (settleAccountRemovalTx u d)"
proof -
  let ?p = "\<lambda>f. fl_reporter f = u \<and> inOpenCase d f"
  let ?ids = "remdups (map fl_case (filter ?p (db_flags d)))"
  let ?d = "d\<lparr>db_flags := filter (\<lambda>f. \<not> ?p f) (db_flags d)\<rparr>"
  note old = flagInvD [OF inv]
  have "flagInvUpTo (set ?ids \<union> {}) s ?d"
  proof (rule flagInvUpToI)
    show "uniqueBy (\<lambda>f. (fl_reed f, fl_reporter f)) (db_flags ?d)"
      using old(2) by (simp add: uniqueBy_filter)
    show "\<exists>f \<in> set (db_flags ?d). fl_case f = fc_id c \<and> fl_withdrawal f = None"
      if c: "c \<in> set (db_cases ?d)" "openCase c" "\<not> fc_restored c" "fc_id c \<notin> set ?ids \<union> {}" for c
    proof -
      obtain f where "f \<in> set (db_flags d)" "fl_case f = fc_id c" "fl_withdrawal f = None"
        using old(6) [of c] c by auto
      moreover from this have "\<not> ?p f"
        using c(4) image_eqI [of "fc_id c" fl_case f "{x \<in> set (db_flags d). ?p x}"] by auto
      ultimately show ?thesis by auto
    qed
  qed (use old in auto)
  then show ?thesis
    using fold_settleCase_upTo [of ?ids "{}" s ?d]
    by (simp add: settleAccountRemovalTx_def Let_def flagInv_def)
qed

lemma flagInv_other:
  "flagInv s d \<Longrightarrow> db_cases d' = db_cases d \<Longrightarrow> db_flags d' = db_flags d \<Longrightarrow> flagInv s d'"
  by (simp add: flagInv_def flagInvUpTo_def)

lemma queueInv_other:
  "queueInv d \<Longrightarrow> db_peer_queue d' = db_peer_queue d \<Longrightarrow> db_peer_seq d' = db_peer_seq d \<Longrightarrow> queueInv d'"
  by (simp add: queueInv_def)

lemma enqueuePeerEventTx_flags [simp]:
  "db_cases (enqueuePeerEventTx k s d) = db_cases d" "db_flags (enqueuePeerEventTx k s d) = db_flags d"
  using arg_cong [OF enqueuePeerEventTx_frame, of db_cases] arg_cong [OF enqueuePeerEventTx_frame, of db_flags]
  by simp_all

lemma settleAccountRemovalTx_queue [simp]:
  "db_peer_queue (settleAccountRemovalTx u d) = db_peer_queue d"
  "db_peer_seq (settleAccountRemovalTx u d) = db_peer_seq d"
  "db_mesh (settleAccountRemovalTx u d) = db_mesh d"
  using arg_cong [OF settleAccountRemovalTx_frame, of db_peer_queue]
    arg_cong [OF settleAccountRemovalTx_frame, of db_peer_seq]
    arg_cong [OF settleAccountRemovalTx_frame, of db_mesh]
  by simp_all

lemma storeAccountRemovalTx_inv:
  assumes "storeAccountRemovalTx E cert u d = Inr (x, d')"
  shows "flagInv s d \<Longrightarrow> flagInv s d'" and "queueInv d \<Longrightarrow> queueInv d'"
proof -
  let ?row = "removalRowOf cert u"
  have core: "flagInv s (removalCore ?row u d)" if "flagInv s d"
    unfolding removalCore_def
    by (rule flagInv_other [OF settleAccountRemovalTx_inv [OF flagInv_other [OF that]]]) simp_all
  have queue: "queueInv (removalCore ?row u d)" if "queueInv d"
    unfolding removalCore_def
    by (rule queueInv_enqueue, rule queueInv_other [OF that]) simp_all
  show "flagInv s d'" if "flagInv s d"
    using assms by (cases rule: storeAccountRemovalTx_cases)
      (use that core [OF that] in \<open>auto intro: flagInv_other simp: bumpActiveUsers_def updUser_def\<close>)
  show "queueInv d'" if "queueInv d"
    using assms by (cases rule: storeAccountRemovalTx_cases)
      (use that queue [OF that] in \<open>auto intro: queueInv_other simp: bumpActiveUsers_def updUser_def\<close>)
qed

text \<open>Nobody's open flag outlives their account.\<close>

lemma settleAccountRemovalTx_flags:
  "set (db_flags (settleAccountRemovalTx u d)) =
     {f \<in> set (db_flags d). \<not> (fl_reporter f = u \<and> inOpenCase d f)}"
proof -
  have fs: "db_flags (fold settleCase is e) = db_flags e" for "is" e
  proof (induction "is" arbitrary: e)
    case (Cons i "is")
    then show ?case by (simp add: settleCase_def)
  qed simp
  show ?thesis by (simp add: settleAccountRemovalTx_def Let_def fs)
qed

text \<open>A removal clears the profile's username and owes every live peer the news.\<close>

lemma storeAccountRemovalTx_profile:
  assumes "storeAccountRemovalTx E cert u d = Inr (x, d')" and "\<not> hasAccountRemovalQ d u"
  shows "\<exists>r. userRow d' u = Some r \<and> u_username r = None \<and> u_user_sig r = None"
    and "p \<in> set (livePeers d) \<Longrightarrow>
       (p, peerEventAccountRemoval, u, None) \<in> eventKey ` set (db_peer_queue d')"
proof -
  obtain r where r: "userRow d u = Some r"
    and d': "d' = bumpActiveUsers (- 1) (updUser u clearedRow (removalCore (removalRowOf cert u) u d))"
    using assms by (auto simp: storeAccountRemovalTx_new)
  have "userRow d' u = map_option clearedRow (userRow d u)"
    using userRow_updUser [of clearedRow u "removalCore (removalRowOf cert u) u d" u]
    by (simp add: d' bumpActiveUsers_def userRow_def updUser_def)
  then show "\<exists>r. userRow d' u = Some r \<and> u_username r = None \<and> u_user_sig r = None"
    using r by simp
  show "(p, peerEventAccountRemoval, u, None) \<in> eventKey ` set (db_peer_queue d')"
    if "p \<in> set (livePeers d)"
    using that by (simp add: d' bumpActiveUsers_def updUser_def removalCore_def enqueuePeerEventTx_keys livePeers_def)
qed

end
