(* ===== verification/Ledger.thy ===== *)
theory Ledger
  imports Permissions
begin

text \<open>
  The public ledger of admin actions: \<open>ledger_chain.go\<close> and \<open>ledger.go\<close>.  Appending takes the
  advisory lock, so it is one atomic step; the table keeps the chain \<open>prev_id\<close> describes.  Lemmas:
  the chain never forks, an append lands at its end and is signed over its predecessor's signature,
  a stored entry reads back as it was appended, and the pages list the chain in order.  The ledger's
  sequence is kept in the database state; only that it exceeds every id in use matters.
\<close>

subsection \<open>Entries\<close>


definition ledgerKindRequest :: string where "ledgerKindRequest = ''request''"
definition ledgerKindAdminInvite :: string where "ledgerKindAdminInvite = ''admin-invite''"
definition ledgerKindMesh :: string where "ledgerKindMesh = ''mesh''"
definition ledgerKindServerKey :: string where "ledgerKindServerKey = ''server-key''"

lemmas [const_defs] = ledgerKindRequest_def ledgerKindAdminInvite_def ledgerKindMesh_def
  ledgerKindServerKey_def


text \<open>\<open>NULLIF(x, '')\<close> on the way in, \<open>COALESCE(x, '')\<close> on the way out.\<close>

definition nullIfEmpty :: "string \<Rightarrow> string option" where
  "nullIfEmpty s = (if s = '''' then None else Some s)"

definition orEmpty :: "string option \<Rightarrow> string" where
  "orEmpty x = (case x of None \<Rightarrow> '''' | Some s \<Rightarrow> s)"

lemma orEmpty_nullIfEmpty [simp]: "orEmpty (nullIfEmpty s) = s"
  by (simp add: orEmpty_def nullIfEmpty_def)

definition scanLedgerEntry :: "ledgerRow \<Rightarrow> ledgerEntry" where
  "scanLedgerEntry r = \<lparr>en_id = le_id r,
     en_prev = (case le_prev r of None \<Rightarrow> 0 | Some p \<Rightarrow> p),
     en_kind = le_kind r, en_user = orEmpty (le_user r), en_requester = orEmpty (le_requester r),
     en_requested_at = (case le_requested_at r of None \<Rightarrow> 0 | Some t \<Rightarrow> t),
     en_message = le_message r, en_content = orEmpty (le_content r),
     en_targets = sortStrings (le_targets r), en_sig = le_sig r\<rparr>"

subsection \<open>Appending\<close>

text \<open>The last entry: the one no other entry names as its predecessor.\<close>

definition ledgerTip :: "ledgerRow list \<Rightarrow> ledgerRow option" where
  "ledgerTip t = List.find (\<lambda>e. Some (le_id e) \<notin> le_prev ` set t) t"

definition ledgerPayload :: "env \<Rightarrow> ledgerEntry \<Rightarrow> string \<Rightarrow> gotime \<Rightarrow> string" where
  "ledgerPayload E e prevSignature now = buildLedgerEntryPayload (e_jcs E) (en_id e) (en_prev e)
     prevSignature (en_kind e) (en_user e) (en_requester e) (en_requested_at e) (en_message e)
     (en_content e) (en_targets e) (e_server_id E) (e_fingerprint E) now"

text \<open>The row an entry is stored as; a zero \<open>PrevID\<close> is a null \<open>prev_id\<close>.\<close>

definition ledgerRowOf :: "nat option \<Rightarrow> ledgerEntry \<Rightarrow> ledgerRow" where
  "ledgerRowOf prevID e = \<lparr>le_id = en_id e, le_prev = prevID, le_kind = en_kind e,
     le_user = nullIfEmpty (en_user e), le_requester = nullIfEmpty (en_requester e),
     le_requested_at = (if isZeroTime (en_requested_at e) then None else Some (en_requested_at e)),
     le_message = en_message e, le_content = nullIfEmpty (en_content e),
     le_targets = en_targets e, le_sig = en_sig e\<rparr>"

text \<open>The table's constraints: its keys and \<open>CHECK\<close>s, and the key of the targets table.\<close>

definition ledgerRowFits :: "ledgerRow list \<Rightarrow> ledgerRow \<Rightarrow> bool" where
  "ledgerRowFits t r \<longleftrightarrow>
     le_id r \<notin> le_id ` set t \<and> le_prev r \<notin> le_prev ` set t \<and>
     le_kind r \<in> {ledgerKindRequest, ledgerKindAdminInvite, ledgerKindMesh, ledgerKindServerKey} \<and>
     (le_requester r = None \<longleftrightarrow> le_requested_at r = None) \<and>
     (le_user r = None \<longleftrightarrow> le_kind r = ledgerKindServerKey) \<and>
     distinct (le_targets r)"

definition appendLedgerEntryTx ::
    "(string \<Rightarrow> gotime \<Rightarrow> err + serverSig) \<Rightarrow> env \<Rightarrow> gotime \<Rightarrow> ledgerEntry \<Rightarrow> db \<Rightarrow>
     err + ledgerEntry \<times> db" where
  "appendLedgerEntryTx sign E now0 e d =
     (if db_self_key d \<noteq> canonicalID (e_server_id E) (e_fingerprint E)
      then Inl (Sentinel ''errLedgerSignerRotated'')
      else let prev = ledgerTip (db_ledger d);
               prevID = map_option le_id prev;
               prevSignature = (case prev of None \<Rightarrow> '''' | Some p \<Rightarrow> ss_armor (le_sig p));
               n = Suc (db_ledger_seq d);
               now = truncateSecond now0;
               e1 = e\<lparr>en_id := n, en_prev := (case prevID of None \<Rightarrow> 0 | Some p \<Rightarrow> p),
                 en_targets := sortStrings (en_targets e)\<rparr>
           in bindR (sign (ledgerPayload E e1 prevSignature now) now) (\<lambda>sig.
             let e2 = e1\<lparr>en_sig := sig\<rparr>; row = ledgerRowOf prevID e2
             in if \<not> ledgerRowFits (db_ledger d) row then Inl (Internal ''insert ledger entry'')
                else Inr (e2, d\<lparr>db_ledger := db_ledger d @ [row], db_ledger_seq := n\<rparr>)))"

definition appendLedgerTx :: "env \<Rightarrow> gotime \<Rightarrow> ledgerEntry \<Rightarrow> db \<Rightarrow> err + ledgerEntry \<times> db" where
  "appendLedgerTx E now e d = appendLedgerEntryTx (countersign E) E now e d"

subsection \<open>The entry of an approved request\<close>

definition ledgerActionNames :: "string \<Rightarrow> string" where
  "ledgerActionNames a = (case map_of [(adminActionSuspend, ''Suspension''),
     (adminActionReinstate, ''Reinstatement''), (adminActionKick, ''Kick''),
     (adminActionPromote, ''Promotion''), (adminActionDemote, ''Demotion''),
     (adminActionPermissions, ''Permission change'')] a of None \<Rightarrow> '''' | Some n \<Rightarrow> n)"

definition ledgerApprovedEntry :: "adminRequest \<Rightarrow> string \<Rightarrow> string \<Rightarrow> ledgerEntry option" where
  "ledgerApprovedEntry req approverID rebindKeyID =
     (let e = \<lparr>en_id = 0, en_prev = 0, en_kind = ledgerKindRequest, en_user = approverID,
            en_requester = rq_requester req, en_requested_at = ss_at (rq_opened req),
            en_message = '''', en_content = '''', en_targets = rq_targets req, en_sig = noServerSig\<rparr>;
          named = ''['' @ rq_id req @ ''] '' @ ledgerActionNames (rq_action req) @ ''. Reason: '' @ rq_reason req
      in if rq_action req = adminActionUnicast then None
         else if rq_action req = adminActionBroadcast then
           Some (e\<lparr>en_message := ''['' @ rq_id req @ ''] Broadcast'', en_content := rq_body req\<rparr>)
         else if rq_action req = adminActionRebind then
           Some (e\<lparr>en_message := ''['' @ rq_id req @ ''] Key rebind to '' @ rebindKeyID @ ''. Reason: '' @ rq_reason req\<rparr>)
         else if rq_action req = adminActionInvites then
           Some (e\<lparr>en_message := ''['' @ rq_id req @ ''] Invite grant: '' @ rq_body req @ '' more. Reason: '' @ rq_reason req\<rparr>)
         else if rq_action req = adminActionPromote \<or> rq_action req = adminActionPermissions then
           Some (e\<lparr>en_message := named, en_content := rq_body req\<rparr>)
         else Some (e\<lparr>en_message := named\<rparr>))"

lemma ledgerApprovedEntry_None:
  "ledgerApprovedEntry req a k = None \<longleftrightarrow> rq_action req = adminActionUnicast"
  by (simp add: ledgerApprovedEntry_def Let_def)

lemma ledgerApprovedEntry_Some:
  "ledgerApprovedEntry req a k = Some e \<Longrightarrow>
     en_kind e = ledgerKindRequest \<and> en_user e = a \<and> en_requester e = rq_requester req \<and>
     en_requested_at e = ss_at (rq_opened req) \<and> en_targets e = rq_targets req"
  by (auto simp: ledgerApprovedEntry_def Let_def split: if_splits)

subsection \<open>Reading\<close>

definition ledgerPageSize :: nat where "ledgerPageSize = 100"

definition getLedgerEntry :: "db \<Rightarrow> nat \<Rightarrow> ledgerEntry option" where
  "getLedgerEntry d i = map_option scanLedgerEntry (rowBy le_id i (db_ledger d))"

definition getLedgerHead :: "db \<Rightarrow> ledgerEntry option" where
  "getLedgerHead d = map_option scanLedgerEntry (rowBy le_prev None (db_ledger d))"

text \<open>
  The recursive query of \<open>GetLedgerTail\<close>, one level per depth: the rows after \<open>afterID\<close>, then the
  rows after those, as long as the depth is below the limit.
\<close>

definition followers :: "ledgerRow list \<Rightarrow> nat \<Rightarrow> ledgerRow list" where
  "followers t p = filter (\<lambda>r. le_prev r = Some p) t"

fun tailLevels :: "ledgerRow list \<Rightarrow> ledgerRow list \<Rightarrow> nat \<Rightarrow> ledgerRow list" where
  "tailLevels t lvl 0 = lvl"
| "tailLevels t lvl (Suc n) =
     (if lvl = [] then [] else lvl @ tailLevels t (concat (map (\<lambda>c. followers t (le_id c)) lvl)) n)"

definition getLedgerTail :: "db \<Rightarrow> nat \<Rightarrow> nat \<Rightarrow> ledgerEntry list" where
  "getLedgerTail d afterID limit =
     map scanLedgerEntry (tailLevels (db_ledger d) (followers (db_ledger d) afterID) (limit - 1))"

definition ledgerReader :: "env \<Rightarrow> string option \<Rightarrow> bool" where
  "ledgerReader E caller \<longleftrightarrow> (case caller of None \<Rightarrow> False | Some u \<Rightarrow>
     (case parseIdentityID u of None \<Rightarrow> False | Some (_, s) \<Rightarrow> s = e_server_id E))"

definition getLedger ::
    "env \<Rightarrow> db \<Rightarrow> string option \<Rightarrow> string \<Rightarrow> (ledgerEntry option \<times> ledgerEntry list) answer" where
  "getLedger E d caller after =
     (if \<not> ledgerReader E caller then Fail 401 ''Authentication required''
      else if after \<noteq> '''' then
        (case parseUint64 after of
           None \<Rightarrow> Fail 400 ''after must be an entry ID''
         | Some i \<Rightarrow> (case getLedgerEntry d i of
             None \<Rightarrow> Fail 404 ''Entry not found''
           | Some _ \<Rightarrow> Done 200 (None, getLedgerTail d i ledgerPageSize)))
      else (case getLedgerHead d of
          None \<Rightarrow> Done 200 (None, [])
        | Some head \<Rightarrow> Done 200 (Some head, getLedgerTail d (en_id head) ledgerPageSize)))"

definition getLedgerEntryHandler ::
    "env \<Rightarrow> db \<Rightarrow> string option \<Rightarrow> string \<Rightarrow> ledgerEntry answer" where
  "getLedgerEntryHandler E d caller raw =
     (if \<not> ledgerReader E caller then Fail 401 ''Authentication required''
      else (case parseUint64 raw of
          None \<Rightarrow> Fail 400 ''id must be an entry ID''
        | Some i \<Rightarrow> (case getLedgerEntry d i of
            None \<Rightarrow> Fail 404 ''Entry not found''
          | Some e \<Rightarrow> Done 200 e)))"

definition requirePermission :: "env \<Rightarrow> db \<Rightarrow> string \<Rightarrow> string \<Rightarrow> bool" where
  "requirePermission E d userID perm \<longleftrightarrow> perm \<in> set (getUserPermissions E d userID)"

subsection \<open>The chain\<close>

fun linked :: "nat option \<Rightarrow> ledgerRow list \<Rightarrow> bool" where
  "linked p [] = True"
| "linked p (r # rs) = (le_prev r = p \<and> linked (Some (le_id r)) rs)"

definition ledgerInv :: "db \<Rightarrow> bool" where
  "ledgerInv d \<longleftrightarrow> linked None (db_ledger d) \<and> sorted_wrt (<) (map le_id (db_ledger d)) \<and>
     (\<forall>r \<in> set (db_ledger d). 0 < le_id r \<and> le_id r \<le> db_ledger_seq d)"

lemma linked_append:
  "linked p (t @ u) \<longleftrightarrow> linked p t \<and> linked (if t = [] then p else Some (le_id (last t))) u"
  by (induction t arbitrary: p) auto

lemma linked_prevs: "linked p t \<Longrightarrow> t \<noteq> [] \<Longrightarrow> map le_prev t = p # map (Some \<circ> le_id) (butlast t)"
  by (induction t arbitrary: p) (auto simp: neq_Nil_conv)

text \<open>What a chain with increasing ids gives: its tip, and who follows whom.\<close>

lemma ledgerTip_chain:
  assumes "linked None t" and "distinct (map le_id t)"
  shows "ledgerTip t = (if t = [] then None else Some (last t))"
proof (cases "t = []")
  case False
  then obtain b l where t: "t = b @ [l]" by (metis append_butlast_last_id)
  then have prevs: "le_prev ` set t = insert None (Some ` le_id ` set b)"
    using arg_cong [OF linked_prevs [OF assms(1) False], of set] by (simp add: image_comp)
  have tip: "List.find P (b @ [l]) = Some l" if "P l" "\<forall>x \<in> set b. \<not> P x" for P
    using that by (induction b) auto
  have "le_id l \<notin> le_id ` set b" using assms(2) t by simp
  then have "List.find (\<lambda>e. Some (le_id e) \<notin> le_prev ` set t) (b @ [l]) = Some l"
    unfolding prevs by (intro tip) auto
  then show ?thesis using t by (simp add: ledgerTip_def)
qed (simp add: ledgerTip_def)

lemma ledgerInv_tip:
  "ledgerInv d \<Longrightarrow> ledgerTip (db_ledger d) = (if db_ledger d = [] then None else Some (last (db_ledger d)))"
  by (simp add: ledgerInv_def ledgerTip_chain strict_sorted_iff)

lemma followers_chain:
  assumes "linked p (xs @ r # ys)" and "distinct (map le_id (xs @ r # ys))"
    and "p \<noteq> Some (le_id r)"
  shows "followers (xs @ r # ys) (le_id r) = take 1 ys"
proof -
  have other: "filter (\<lambda>s. le_prev s = Some i) t = []"
    if "linked q t" "q \<noteq> Some i" "i \<notin> le_id ` set (butlast t)" for q t i
    using that by (induction t arbitrary: q) (auto split: if_splits)
  have xs: "linked p xs" and ys: "linked (Some (le_id r)) ys"
    and r: "le_prev r = (if xs = [] then p else Some (le_id (last xs)))"
    using assms(1) by (simp_all add: linked_append)
  have q: "le_prev r \<noteq> Some (le_id r)"
  proof (cases "xs = []")
    case False
    then have "le_id (last xs) \<in> le_id ` set xs" by simp
    moreover have "le_id r \<notin> le_id ` set xs" using assms(2) by simp
    ultimately have "le_id (last xs) \<noteq> le_id r" by metis
    then show ?thesis using r False by simp
  qed (use r assms(3) in simp)
  have "filter (\<lambda>s. le_prev s = Some (le_id r)) xs = []"
    using other [OF xs assms(3)] assms(2) by (auto dest: in_set_butlastD)
  moreover have "filter (\<lambda>s. le_prev s = Some (le_id r)) ys = take 1 ys"
  proof (cases ys)
    case (Cons y zs)
    then have "linked (Some (le_id y)) zs" "Some (le_id y) \<noteq> Some (le_id r)"
      using ys assms(2) by auto
    from other [OF this] have "filter (\<lambda>s. le_prev s = Some (le_id r)) zs = []"
      using assms(2) Cons by (auto dest: in_set_butlastD)
    with Cons ys show ?thesis by simp
  qed simp
  ultimately show ?thesis using q by (simp add: followers_def)
qed

lemma tailLevels_chain:
  assumes "linked None (xs @ ys)" and "distinct (map le_id (xs @ ys))"
  shows "tailLevels (xs @ ys) (take 1 ys) n = take (Suc n) ys"
  using assms
proof (induction n arbitrary: xs ys)
  case (Suc n)
  show ?case
  proof (cases ys)
    case (Cons y zs)
    have "followers (xs @ y # zs) (le_id y) = take 1 zs"
      using Suc.prems Cons by (intro followers_chain [where p = None]) simp_all
    then show ?thesis using Suc.IH [of "xs @ [y]" zs] Suc.prems Cons by simp
  qed simp
qed simp

lemma getLedgerTail_chain:
  assumes "ledgerInv d" and "db_ledger d = xs @ r # ys" and "0 < limit"
  shows "getLedgerTail d (le_id r) limit = map scanLedgerEntry (take limit ys)"
proof -
  have c: "linked None (xs @ r # ys)" "distinct (map le_id (xs @ r # ys))"
    using assms(1,2) by (simp_all add: ledgerInv_def strict_sorted_iff)
  then have "followers (db_ledger d) (le_id r) = take 1 ys"
    using assms(2) by (simp only: followers_chain [where p = None] option.distinct simp_thms)
  with c tailLevels_chain [of "xs @ [r]" ys "limit - 1"] assms(2,3) show ?thesis
    by (simp add: getLedgerTail_def)
qed

lemma ledgerInv_head:
  assumes "ledgerInv d"
  shows "getLedgerHead d = (case db_ledger d of [] \<Rightarrow> None | r # _ \<Rightarrow> Some (scanLedgerEntry r))"
  using assms by (cases "db_ledger d") (auto simp: getLedgerHead_def ledgerInv_def)

subsection \<open>Appends keep it\<close>

lemma appendLedgerEntryTx_Inr:
  assumes "appendLedgerEntryTx sign E now e d = Inr (e', d')"
  obtains prevID sig where
    "d' = d\<lparr>db_ledger := db_ledger d @ [ledgerRowOf prevID e'], db_ledger_seq := Suc (db_ledger_seq d)\<rparr>"
    "prevID = map_option le_id (ledgerTip (db_ledger d))"
    "ledgerRowFits (db_ledger d) (ledgerRowOf prevID e')"
    "e' = e\<lparr>en_id := Suc (db_ledger_seq d), en_prev := (case prevID of None \<Rightarrow> 0 | Some p \<Rightarrow> p),
       en_targets := sortStrings (en_targets e), en_sig := sig\<rparr>"
    "sign (ledgerPayload E e' (case ledgerTip (db_ledger d) of None \<Rightarrow> '''' | Some p \<Rightarrow> ss_armor (le_sig p))
       (truncateSecond now)) (truncateSecond now) = Inr sig"
    "db_self_key d = canonicalID (e_server_id E) (e_fingerprint E)"
  using assms
  by (auto simp: appendLedgerEntryTx_def Let_def bindR_Inr ledgerPayload_def split: if_splits)

lemma ledgerInv_append:
  assumes inv: "ledgerInv d" and app: "appendLedgerEntryTx sign E now e d = Inr (e', d')"
  shows "ledgerInv d'"
proof -
  obtain sig where d': "d' = d\<lparr>db_ledger := db_ledger d @
       [ledgerRowOf (map_option le_id (ledgerTip (db_ledger d))) e'], db_ledger_seq := Suc (db_ledger_seq d)\<rparr>"
    and e': "en_id e' = Suc (db_ledger_seq d)"
    using app by (auto elim!: appendLedgerEntryTx_Inr)
  show ?thesis
    using inv d' e' ledgerInv_tip [OF inv]
    by (auto simp: ledgerInv_def linked_append sorted_wrt_append ledgerRowOf_def le_Suc_eq less_Suc_eq_le)
qed

lemma ledgerInv_other:
  "ledgerInv d \<Longrightarrow> db_ledger d' = db_ledger d \<Longrightarrow> db_ledger_seq d' = db_ledger_seq d \<Longrightarrow> ledgerInv d'"
  by (simp add: ledgerInv_def)

text \<open>In a well-formed ledger the keys never clash: only an entry's own contents can be refused.\<close>

definition entryFits :: "ledgerEntry \<Rightarrow> bool" where
  "entryFits e \<longleftrightarrow>
     en_kind e \<in> {ledgerKindRequest, ledgerKindAdminInvite, ledgerKindMesh, ledgerKindServerKey} \<and>
     (en_requester e = '''' \<longleftrightarrow> isZeroTime (en_requested_at e)) \<and>
     (en_user e = '''' \<longleftrightarrow> en_kind e = ledgerKindServerKey) \<and> distinct (en_targets e)"

lemma ledgerRowFits_chain:
  assumes inv: "ledgerInv d" and n: "en_id e = Suc (db_ledger_seq d)"
  shows "ledgerRowFits (db_ledger d) (ledgerRowOf (map_option le_id (ledgerTip (db_ledger d))) e)
     \<longleftrightarrow> entryFits e"
proof -
  let ?t = "db_ledger d"
  have "Suc (db_ledger_seq d) \<notin> le_id ` set ?t"
    using inv by (force simp: ledgerInv_def)
  moreover have "map_option le_id (ledgerTip ?t) \<notin> le_prev ` set ?t"
  proof (cases "?t = []")
    case False
    have "ledgerTip ?t = Some (last ?t)" using ledgerInv_tip [OF inv] False by simp
    then have "Some (le_id (last ?t)) \<notin> le_prev ` set ?t"
      by (auto simp: ledgerTip_def find_Some_iff)
    then show ?thesis using \<open>ledgerTip ?t = Some (last ?t)\<close> by simp
  qed simp
  ultimately show ?thesis
    using n by (auto simp: ledgerRowFits_def ledgerRowOf_def entryFits_def nullIfEmpty_def)
qed

lemma appendLedgerEntryTx_total:
  assumes "ledgerInv d" and "db_self_key d = canonicalID (e_server_id E) (e_fingerprint E)"
    and "entryFits e" and "\<And>p. e_sign E p \<noteq> None"
  shows "\<exists>e' d'. appendLedgerTx E now e d = Inr (e', d')"
proof -
  let ?e = "\<lambda>sig. e\<lparr>en_id := Suc (db_ledger_seq d),
     en_prev := (case map_option le_id (ledgerTip (db_ledger d)) of None \<Rightarrow> 0 | Some p \<Rightarrow> p),
     en_targets := sortStrings (en_targets e), en_sig := sig\<rparr>"
  have "ledgerRowFits (db_ledger d) (ledgerRowOf (map_option le_id (ledgerTip (db_ledger d))) (?e sig))" for sig
    using assms(1,3) by (simp add: ledgerRowFits_chain entryFits_def)
  moreover have "\<exists>s. countersign E p t = Inr s" for p t
    using assms(4) [of p] by (auto simp: countersign_Inr)
  ultimately show ?thesis
    using assms(2) by (force simp: appendLedgerTx_def appendLedgerEntryTx_def Let_def bindR_Inr)
qed

lemma scan_ledgerRowOf:
  "sorted (en_targets e) \<Longrightarrow> en_prev e = (case p of None \<Rightarrow> 0 | Some q \<Rightarrow> q) \<Longrightarrow>
     scanLedgerEntry (ledgerRowOf p e) = e"
  by (cases e) (simp add: scanLedgerEntry_def ledgerRowOf_def sortStrings_id isZeroTime_def)

lemma append_reads_back:
  assumes "ledgerInv d" and "appendLedgerEntryTx sign E now e d = Inr (e', d')"
  shows "getLedgerEntry d' (en_id e') = Some e'"
proof -
  obtain p where d': "db_ledger d' = db_ledger d @ [ledgerRowOf p e']"
    and e': "en_id e' = Suc (db_ledger_seq d)" "sorted (en_targets e')"
      "en_prev e' = (case p of None \<Rightarrow> 0 | Some q \<Rightarrow> q)"
    using assms(2) by (auto elim!: appendLedgerEntryTx_Inr)
  have "rowBy le_id (en_id e') (db_ledger d) = None"
    using assms(1) e'(1) by (fastforce simp: rowBy_None ledgerInv_def)
  then have "rowBy le_id (en_id e') (db_ledger d') = Some (ledgerRowOf p e')"
    unfolding d' rowBy_append by (simp add: ledgerRowOf_def)
  with e' show ?thesis by (simp add: getLedgerEntry_def scan_ledgerRowOf)
qed

end
