(* ===== verification/Executors.thy ===== *)
theory Executors
  imports Removal Ledger
begin

text \<open>
  What an approved request does: the executors of \<open>admin_promote.go\<close>, \<open>admin_suspend.go\<close>,
  \<open>admin_kick.go\<close>, \<open>admin_rebind.go\<close>, \<open>admin_invites.go\<close> and \<open>admin_broadcast.go\<close>.  Each has the
  check that the request still fits its targets, the body that runs in the approval transaction and
  what follows the commit.  Lemmas: the effect of each on roles, permissions, suspensions, removals
  and keys, and that none of them touches the requests or the ledger.
\<close>

subsection \<open>Profiles\<close>

definition setUserPermissionsTx :: "string \<Rightarrow> string list \<Rightarrow> db \<Rightarrow> err + db" where
  "setUserPermissionsTx userID perms d =
     (if \<not> distinct perms then Inl (Internal ''insert user permission'')
      else Inr (d\<lparr>db_permissions :=
        filter (\<lambda>(u, p). u \<noteq> userID) (db_permissions d) @ map (\<lambda>p. (userID, p)) perms\<rparr>))"

definition validateProfilePermissions :: "string \<Rightarrow> string list \<Rightarrow> string option" where
  "validateProfilePermissions role perms =
     (if perms = [] then None
      else if role \<noteq> roleAdmin then Some ''only an admin's profile carries permissions''
      else (case parsePermissionSet (joinOn (CHR '','') perms) of Inl e \<Rightarrow> Some e | Inr _ \<Rightarrow> None))"

text \<open>The profile \<open>recountersignProfileTx\<close> loads: no row without the user's signature or a username.\<close>

definition profileUsername :: "db \<Rightarrow> usersRow \<Rightarrow> string option" where
  "profileUsername d r = (case u_username r of
     Some n \<Rightarrow> Some n | None \<Rightarrow> map_of (db_username_collisions d) (u_id r))"

definition recountersignProfileTx ::
    "env \<Rightarrow> gotime \<Rightarrow> string \<Rightarrow> string \<Rightarrow> string list \<Rightarrow> db \<Rightarrow> err + db" where
  "recountersignProfileTx E now userID role perms d = (case userRow d userID of
     None \<Rightarrow> Inl (Internal ''load profile'')
   | Some r \<Rightarrow> (case (u_user_sig r, profileUsername d r) of
       (Some us, Some username) \<Rightarrow>
         (let signedAt = truncateSecond now in
          bindR (countersign E (buildProfilePayload (e_jcs E) userID username (us_id us) (e_server_id E)
              (e_fingerprint E) (us_armor us) (case u_invite r of None \<Rightarrow> '''' | Some i \<Rightarrow> i) role perms
              (case u_bio r of None \<Rightarrow> '''' | Some b \<Rightarrow> b) (u_created r) signedAt) signedAt) (\<lambda>sig.
          setUserPermissionsTx userID perms
            (updUser userID (\<lambda>r. r\<lparr>u_role := role, u_server_sig := Some sig\<rparr>) d)))
     | _ \<Rightarrow> Inl (Internal ''load profile'')))"

definition targetRoleIs :: "db \<Rightarrow> adminRequest \<Rightarrow> string \<Rightarrow> err option" where
  "targetRoleIs d req role =
     firstErr (\<lambda>t. if userRoleQ d t \<noteq> role then Some (refuse 409 ''target_role'') else None) (remainingTargets req)"

text \<open>Members who are neither removed nor suspended; of those, the admins but one.\<close>

definition activeLocalMembers :: "db \<Rightarrow> string list" where
  "activeLocalMembers d = map u_id (filter (\<lambda>r. u_suspended r = None \<and> u_username r \<noteq> None \<and>
     \<not> hasAccountRemovalQ d (u_id r)) (db_users d))"

definition activeLocalAdmins :: "db \<Rightarrow> string \<Rightarrow> string list" where
  "activeLocalAdmins d exclude = map u_id (filter (\<lambda>r. isAdmin (u_role r) \<and> u_id r \<noteq> exclude \<and>
     u_suspended r = None \<and> u_username r \<noteq> None \<and> \<not> hasAccountRemovalQ d (u_id r)) (db_users d))"

text \<open>\<open>notifyAdminsOfNewAdmin\<close>: the recipients and the message.\<close>

definition notifyAdminsOfNewAdmin :: "db \<Rightarrow> string \<Rightarrow> string \<Rightarrow> effect list" where
  "notifyAdminsOfNewAdmin d newAdminID how =
     (case (case userRow d newAdminID of None \<Rightarrow> None | Some r \<Rightarrow> u_username r) of
        None \<Rightarrow> []
      | Some username \<Rightarrow>
          [DeliverMail (activeLocalAdmins d newAdminID) ''new-admin'' (''@'' @ username @ '' '' @ how @ ''.'')])"

subsection \<open>Invites\<close>

definition revokeInvites :: "(inviteRow \<Rightarrow> bool) \<Rightarrow> string \<Rightarrow> gotime \<Rightarrow> db \<Rightarrow> db" where
  "revokeInvites p u now d = d\<lparr>db_invites := updWhere
     (\<lambda>i. iv_by i = u \<and> p i \<and> iv_claimed_at i = None \<and> iv_revoked_at i = None)
     (\<lambda>i. i\<lparr>iv_revoked_at := Some now\<rparr>) (db_invites d)\<rparr>"

text \<open>\<open>grantedInvitesSQL\<close>: the sum of the executed grants; a body that is no number fails its cast.\<close>

definition invitesGrantedTo :: "db \<Rightarrow> string \<Rightarrow> string list" where
  "invitesGrantedTo d u = List.map_filter (\<lambda>r.
     if rr_action r = adminActionInvites \<and> rr_state r = adminStateExecuted \<and> u \<in> fst ` set (rr_targets r)
     then rr_body r else None) (db_requests d)"

definition grantedInvites :: "db \<Rightarrow> string \<Rightarrow> err + int" where
  "grantedInvites d u =
     (if list_ex (\<lambda>b. atoi b = None) (invitesGrantedTo d u) then Inl (Internal ''cast'')
      else Inr (sum_list (map (\<lambda>b. the (atoi b)) (invitesGrantedTo d u))))"

definition inviteLimitQ :: "db \<Rightarrow> string \<Rightarrow> string \<Rightarrow> int \<Rightarrow> err + int" where
  "inviteLimitQ d userID serverID maxInvites =
     (if maxInvites = maxInvitesUnlimited \<or> isRootIdentity userID serverID then Inr maxInvitesUnlimited
      else bindR (grantedInvites d userID) (\<lambda>granted. Inr (maxInvites + granted)))"

definition getInviteQuota :: "env \<Rightarrow> db \<Rightarrow> string option \<Rightarrow> int answer" where
  "getInviteQuota E d caller = (case caller of
     None \<Rightarrow> Fail 401 ''Unauthorized''
   | Some u \<Rightarrow> if u = '''' then Fail 401 ''Unauthorized''
       else (case inviteLimitQ d u (e_server_id E) (e_max_invites E) of
         Inl e \<Rightarrow> Fail 500 ''Internal Server Error'' | Inr l \<Rightarrow> Done 200 l))"

subsection \<open>Executors\<close>

text \<open>\<open>adminExecutor\<close>; a nil \<open>validate\<close> or \<open>after\<close> is one that does nothing.\<close>

record adminExecutor =
  ax_validate :: "db \<Rightarrow> adminRequest \<Rightarrow> err option"
  ax_execute :: "adminRequest \<Rightarrow> db \<Rightarrow> err + db"
  ax_after :: "db \<Rightarrow> adminRequest \<Rightarrow> effect list"

definition promoteExecutor :: "env \<Rightarrow> gotime \<Rightarrow> adminExecutor" where
  "promoteExecutor E now = \<lparr>
     ax_validate = (\<lambda>d req. targetRoleIs d req roleUser),
     ax_execute = (\<lambda>req d. case parsePermissionSet (rq_body req) of
         Inl _ \<Rightarrow> Inl (refuse 400 ''bad_permissions'')
       | Inr perms \<Rightarrow> bindR (firstTarget req) (\<lambda>t. recountersignProfileTx E now t roleAdmin perms d)),
     ax_after = (\<lambda>d req. case firstTarget req of
         Inl _ \<Rightarrow> [] | Inr t \<Rightarrow> AnnounceProfile t # notifyAdminsOfNewAdmin d t ''is now an admin'')\<rparr>"

definition permissionsExecutor :: "env \<Rightarrow> gotime \<Rightarrow> adminExecutor" where
  "permissionsExecutor E now = \<lparr>
     ax_validate = (\<lambda>d req. targetRoleIs d req roleAdmin),
     ax_execute = (\<lambda>req d. case parsePermissionSet (rq_body req) of
         Inl _ \<Rightarrow> Inl (refuse 400 ''bad_permissions'')
       | Inr perms \<Rightarrow> bindR (firstTarget req) (\<lambda>t. recountersignProfileTx E now t roleAdmin perms d)),
     ax_after = (\<lambda>d req. case firstTarget req of Inl _ \<Rightarrow> [] | Inr t \<Rightarrow> [AnnounceProfile t])\<rparr>"

definition demoteExecutor :: "env \<Rightarrow> gotime \<Rightarrow> adminExecutor" where
  "demoteExecutor E now = \<lparr>
     ax_validate = (\<lambda>d req. targetRoleIs d req roleAdmin),
     ax_execute = (\<lambda>req d. bindR (firstTarget req) (\<lambda>t.
       bindR (recountersignProfileTx E now t roleUser [] d) (\<lambda>d1.
         Inr (revokeInvites (\<lambda>i. iv_role i = roleAdmin) t now d1)))),
     ax_after = (\<lambda>d req. case firstTarget req of Inl _ \<Rightarrow> [] | Inr t \<Rightarrow> [AnnounceProfile t])\<rparr>"

definition suspendExecutor :: "adminExecutor" where
  "suspendExecutor = \<lparr>
     ax_validate = (\<lambda>d req. firstErr (\<lambda>t. if suspendedByQ d t \<noteq> ''''
       then Some (refuse 409 ''already_suspended'') else None) (remainingTargets req)),
     ax_execute = (\<lambda>req d. forEach (\<lambda>t d. Inr (updUser t (\<lambda>r. r\<lparr>u_suspended := Some (rq_id req)\<rparr>) d))
       (remainingTargets req) d),
     ax_after = (\<lambda>d req. map KickUserDevices (remainingTargets req))\<rparr>"

definition reinstateExecutor :: "adminExecutor" where
  "reinstateExecutor = \<lparr>
     ax_validate = (\<lambda>d req. firstErr (\<lambda>t. if suspendedByQ d t = ''''
       then Some (refuse 409 ''not_suspended'') else None) (remainingTargets req)),
     ax_execute = (\<lambda>req d. forEach (\<lambda>t d. Inr (updUser t (\<lambda>r. r\<lparr>u_suspended := None\<rparr>) d))
       (remainingTargets req) d),
     ax_after = (\<lambda>d req. [])\<rparr>"

text \<open>\<open>req.Decision.Signature.Armor\<close>: a nil decision would panic.\<close>

definition decisionArmor :: "adminRequest \<Rightarrow> err + string" where
  "decisionArmor req = (case rq_decision req of
     None \<Rightarrow> Inl (Internal ''panic: nil decision'') | Some x \<Rightarrow> Inr (us_armor (ad_sig x)))"

text \<open>One turn of the kick's loop.\<close>

definition kickTarget :: "env \<Rightarrow> gotime \<Rightarrow> adminRequest \<Rightarrow> string \<Rightarrow> db \<Rightarrow> err + db" where
  "kickTarget E now0 req target d =
     (let now = truncateSecond now0 in
      bindR (decisionArmor req) (\<lambda>decisionSig.
      bindR (countersign E (buildAccountKickServerPayload (e_jcs E) (e_server_id E) target (rq_id req)
          (us_armor (rq_sig req)) decisionSig (e_fingerprint E) now) now) (\<lambda>sig.
      bindR (storeAccountRemovalTx E \<lparr>ac_user = target, ac_note = '''', ac_user_sig = '''', ac_user_key = '''',
          ac_server_sig = ss_armor sig, ac_server_key = ss_id sig, ac_server_at = now,
          ac_request_id = rq_id req, ac_admin = None\<rparr> target d) (\<lambda>(_, d1).
        Inr (revokeInvites (\<lambda>_. True) target now d1)))))"

definition kickExecutor :: "env \<Rightarrow> gotime \<Rightarrow> adminExecutor" where
  "kickExecutor E now = \<lparr>
     ax_validate = (\<lambda>d req. None),
     ax_execute = (\<lambda>req d. forEach (kickTarget E now req) (remainingTargets req) d),
     ax_after = (\<lambda>d req. concat (map (\<lambda>t. [SignOutRemovedUser t, AccountRemoved t, DrainPeers '''',
       DropFromAdminRequests t]) (remainingTargets req)))\<rparr>"

definition rebindKeyID :: "env \<Rightarrow> adminRequest \<Rightarrow> string" where
  "rebindKeyID E req =
     (if rq_action req \<noteq> adminActionRebind \<or> length (rq_targets req) \<noteq> 1 then ''''
      else (case e_extract_fingerprint E (rq_body req) of
          None \<Rightarrow> '''' | Some fingerprint \<Rightarrow> appendEntity (hd (rq_targets req)) fingerprint))"

definition rebindValidate :: "env \<Rightarrow> db \<Rightarrow> adminRequest \<Rightarrow> err option" where
  "rebindValidate E d req = (case firstTarget req of
     Inl e \<Rightarrow> Some e
   | Inr target \<Rightarrow>
       if suspendedByQ d target \<noteq> '''' then Some (refuse 409 ''target_suspended'')
       else if rebindKeyID E req = '''' then Some (refuse 400 ''bad_key'')
       else if rebindKeyID E req \<in> pk_id ` set (db_keys d) then Some (refuse 409 ''key_exists'')
       else None)"

definition rebindExecute :: "env \<Rightarrow> gotime \<Rightarrow> adminRequest \<Rightarrow> db \<Rightarrow> err + db" where
  "rebindExecute E now0 req d =
     (let now = truncateSecond now0; newKeyID = rebindKeyID E req in
      bindR (firstTarget req) (\<lambda>target.
      (case (case userRow d target of None \<Rightarrow> None | Some r \<Rightarrow> u_active_key r) of
         None \<Rightarrow> Inl (Internal ''load active key'')
       | Some revokedKeyID \<Rightarrow>
      bindR (decisionArmor req) (\<lambda>decisionSig.
      bindR (countersign E (buildAdminRevocationServerPayload (e_jcs E) target revokedKeyID (rq_id req)
          (us_armor (rq_sig req)) decisionSig (e_server_id E) (e_fingerprint E) now) now) (\<lambda>revocationSig.
      if revokedKeyID \<in> kr_key ` set (db_key_revocations d) then Inl (Internal ''revoke lost key'')
      else let d1 = enqueuePeerEventTx peerEventKeyRevocation revokedKeyID d in
      bindR (countersign E (buildPublicKeyPayload (e_jcs E) (e_server_id E) target newKeyID
          (e_fingerprint E) (rq_body req) now) now) (\<lambda>keySig.
      if newKeyID \<in> pk_id ` set (db_keys d) then Inl (Internal ''bind rebound key'')
      else Inr (revokeInvites (\<lambda>_. True) target now
        (updUser target (\<lambda>r. r\<lparr>u_active_key := Some newKeyID\<rparr>)
          (d1\<lparr>db_key_revocations := db_key_revocations d @ [\<lparr>kr_key = revokedKeyID,
                kr_reason = Some keyRevocationReasonLost, kr_user_sig = None,
                kr_request = Some (rq_id req), kr_server_sig = revocationSig,
                kr_successor = Some newKeyID, kr_successor_sig = None\<rparr>],
              db_keys := db_keys d @ [\<lparr>pk_id = newKeyID, pk_owner = Some target,
                pk_armor = rq_body req, pk_created = now, pk_server_sig = Some keySig,
                pk_predecessor = Some revokedKeyID, pk_restricted = True\<rparr>]\<rparr>)))))))))"

text \<open>\<open>after\<close> names the revoked key: the new key's predecessor.\<close>

definition rebindExecutor :: "env \<Rightarrow> gotime \<Rightarrow> adminExecutor" where
  "rebindExecutor E now = \<lparr>
     ax_validate = rebindValidate E,
     ax_execute = rebindExecute E now,
     ax_after = (\<lambda>d req. case firstTarget req of
         Inl _ \<Rightarrow> []
       | Inr t \<Rightarrow> [KickUserDevices t,
           KeyRevoked (case rowBy pk_id (rebindKeyID E req) (db_keys d) of
             None \<Rightarrow> '''' | Some k \<Rightarrow> (case pk_predecessor k of None \<Rightarrow> '''' | Some p \<Rightarrow> p)),
           DrainPeers ''''])\<rparr>"

definition invitesExecutor :: "env \<Rightarrow> adminExecutor" where
  "invitesExecutor E = \<lparr>
     ax_validate = (\<lambda>d req. if e_max_invites E = maxInvitesUnlimited
       then Some (refuse 409 ''no_invite_limit'') else None),
     ax_execute = (\<lambda>req d. Inr d),
     ax_after = (\<lambda>d req. [])\<rparr>"

definition broadcastExecutor :: "adminExecutor" where
  "broadcastExecutor = \<lparr>
     ax_validate = (\<lambda>d req. None),
     ax_execute = (\<lambda>req d. Inr d),
     ax_after = (\<lambda>d req. [DeliverMail (activeLocalMembers d) ''broadcast'' (rq_body req)])\<rparr>"

definition unicastExecutor :: "adminExecutor" where
  "unicastExecutor = \<lparr>
     ax_validate = (\<lambda>d req. None),
     ax_execute = (\<lambda>req d. Inr d),
     ax_after = (\<lambda>d req. [DeliverMail (remainingTargets req) ''admin-message'' (rq_body req)])\<rparr>"

definition adminExecutorFor :: "env \<Rightarrow> gotime \<Rightarrow> string \<Rightarrow> adminExecutor option" where
  "adminExecutorFor E now action =
     (if action = adminActionSuspend then Some suspendExecutor
      else if action = adminActionReinstate then Some reinstateExecutor
      else if action = adminActionKick then Some (kickExecutor E now)
      else if action = adminActionPromote then Some (promoteExecutor E now)
      else if action = adminActionPermissions then Some (permissionsExecutor E now)
      else if action = adminActionDemote then Some (demoteExecutor E now)
      else if action = adminActionRebind then Some (rebindExecutor E now)
      else if action = adminActionInvites then Some (invitesExecutor E)
      else if action = adminActionBroadcast then Some broadcastExecutor
      else if action = adminActionUnicast then Some unicastExecutor
      else None)"

lemmas executor_defs = suspendExecutor_def reinstateExecutor_def kickExecutor_def promoteExecutor_def
  permissionsExecutor_def demoteExecutor_def rebindExecutor_def invitesExecutor_def
  broadcastExecutor_def unicastExecutor_def

subsection \<open>What no executor touches\<close>

definition adminFrame :: "db \<Rightarrow> db \<Rightarrow> bool" where
  "adminFrame d d' \<longleftrightarrow> db_requests d' = db_requests d \<and> db_ledger d' = db_ledger d \<and>
     db_ledger_seq d' = db_ledger_seq d \<and> db_self_key d' = db_self_key d \<and>
     map u_id (db_users d') = map u_id (db_users d) \<and> db_mesh d' = db_mesh d \<and>
     (\<forall>s. flagInv s d \<longrightarrow> flagInv s d') \<and> (queueInv d \<longrightarrow> queueInv d')"

lemma adminFrame_refl [simp]: "adminFrame d d"
  by (simp add: adminFrame_def)

lemma adminFrame_trans: "adminFrame d e \<Longrightarrow> adminFrame e f \<Longrightarrow> adminFrame d f"
  by (simp add: adminFrame_def)

lemma adminFrame_updUser: "(\<And>r. u_id (f r) = u_id r) \<Longrightarrow> adminFrame d (updUser u f d)"
  by (auto simp: adminFrame_def updUser_def map_updWhere intro: flagInv_other queueInv_other)

lemma adminFrame_revokeInvites: "adminFrame d (revokeInvites p u now d)"
  by (auto simp: adminFrame_def revokeInvites_def intro: flagInv_other queueInv_other)

lemma recountersignProfileTx_Inr:
  assumes "recountersignProfileTx E now u role perms d = Inr d'"
  obtains r sig where "userRow d u = Some r" "u_user_sig r \<noteq> None" "distinct perms"
    "d' = (updUser u (\<lambda>r. r\<lparr>u_role := role, u_server_sig := Some sig\<rparr>) d)\<lparr>db_permissions :=
        filter (\<lambda>(v, p). v \<noteq> u) (db_permissions d) @ map (\<lambda>p. (u, p)) perms\<rparr>"
  using assms
  by (auto simp: recountersignProfileTx_def setUserPermissionsTx_def Let_def bindR_Inr updUser_def
      split: option.splits if_splits)

lemma adminFrame_recountersign:
  assumes "recountersignProfileTx E now u role perms d = Inr d'"
  shows "adminFrame d d'"
  using assms
  by (rule recountersignProfileTx_Inr)
     (auto simp: adminFrame_def updUser_def map_updWhere intro: flagInv_other queueInv_other)

lemma adminFrame_kickTarget:
  assumes "kickTarget E now req t d = Inr d'"
  shows "adminFrame d d'"
proof -
  obtain cert x d1 where st: "storeAccountRemovalTx E cert t d = Inr (x, d1)"
    and d': "d' = revokeInvites (\<lambda>_. True) t (truncateSecond now) d1"
    using assms by (auto simp: kickTarget_def Let_def bindR_Inr)
  have "adminFrame d d1"
    using storeAccountRemovalTx_fields [OF st] storeAccountRemovalTx_inv [OF st]
    by (simp add: adminFrame_def)
  then show ?thesis unfolding d' by (rule adminFrame_trans) (rule adminFrame_revokeInvites)
qed

lemma rebindExecute_Inr:
  assumes "rebindExecute E now req d = Inr d'"
  obtains target r revoked rsig ksig where
    "firstTarget req = Inr target" "userRow d target = Some r" "u_active_key r = Some revoked"
    "revoked \<notin> kr_key ` set (db_key_revocations d)" "rebindKeyID E req \<notin> pk_id ` set (db_keys d)"
    "d' = revokeInvites (\<lambda>_. True) target (truncateSecond now)
        (updUser target (\<lambda>r. r\<lparr>u_active_key := Some (rebindKeyID E req)\<rparr>)
          ((enqueuePeerEventTx peerEventKeyRevocation revoked d)\<lparr>
              db_key_revocations := db_key_revocations d @ [\<lparr>kr_key = revoked,
                kr_reason = Some keyRevocationReasonLost, kr_user_sig = None,
                kr_request = Some (rq_id req), kr_server_sig = rsig,
                kr_successor = Some (rebindKeyID E req), kr_successor_sig = None\<rparr>],
              db_keys := db_keys d @ [\<lparr>pk_id = rebindKeyID E req, pk_owner = Some target,
                pk_armor = rq_body req, pk_created = truncateSecond now, pk_server_sig = Some ksig,
                pk_predecessor = Some revoked, pk_restricted = True\<rparr>]\<rparr>))"
  using assms
  by (auto simp: rebindExecute_def Let_def bindR_Inr split: option.splits if_splits)

lemma enqueuePeerEventTx_fields [simp]:
  "db_requests (enqueuePeerEventTx k s d) = db_requests d" "db_ledger (enqueuePeerEventTx k s d) = db_ledger d"
  "db_ledger_seq (enqueuePeerEventTx k s d) = db_ledger_seq d" "db_self_key (enqueuePeerEventTx k s d) = db_self_key d"
  "db_users (enqueuePeerEventTx k s d) = db_users d" "db_mesh (enqueuePeerEventTx k s d) = db_mesh d"
  using arg_cong [OF enqueuePeerEventTx_frame, of db_requests] arg_cong [OF enqueuePeerEventTx_frame, of db_ledger]
    arg_cong [OF enqueuePeerEventTx_frame, of db_ledger_seq] arg_cong [OF enqueuePeerEventTx_frame, of db_self_key]
    arg_cong [OF enqueuePeerEventTx_frame, of db_users] arg_cong [OF enqueuePeerEventTx_frame, of db_mesh]
  by simp_all

lemma adminFrame_rebind:
  assumes "rebindExecute E now req d = Inr d'"
  shows "adminFrame d d'"
proof -
  obtain target revoked revs ks where
    d': "d' = revokeInvites (\<lambda>_. True) target (truncateSecond now)
        (updUser target (\<lambda>r. r\<lparr>u_active_key := Some (rebindKeyID E req)\<rparr>)
          ((enqueuePeerEventTx peerEventKeyRevocation revoked d)\<lparr>db_key_revocations := revs, db_keys := ks\<rparr>))"
    using assms by (rule rebindExecute_Inr) blast
  have "adminFrame d ((enqueuePeerEventTx peerEventKeyRevocation revoked d)\<lparr>db_key_revocations := revs, db_keys := ks\<rparr>)"
    by (auto simp: adminFrame_def intro: flagInv_other queueInv_other [OF queueInv_enqueue])
  moreover have "adminFrame e (updUser target (\<lambda>r. r\<lparr>u_active_key := Some (rebindKeyID E req)\<rparr>) e)" for e
    by (rule adminFrame_updUser) simp
  ultimately show ?thesis
    unfolding d' by (blast intro: adminFrame_trans adminFrame_revokeInvites)
qed

lemma executor_frame:
  assumes "adminExecutorFor E now a = Some ex" and "ax_execute ex req d = Inr d'"
  shows "adminFrame d d'"
proof -
  have loop: "adminFrame d d'" if "forEach f ts d = Inr d'"
    "\<And>t d d'. f t d = Inr d' \<Longrightarrow> adminFrame d d'" for f :: "string \<Rightarrow> db \<Rightarrow> err + db" and ts
    using that(1) by (rule forEach_rel) (auto intro: adminFrame_trans that(2))
  show ?thesis
    using assms
    by (auto simp: adminExecutorFor_def executor_defs bindR_Inr adminFrame_updUser
        split: if_splits sum.splits
        intro: loop adminFrame_kickTarget adminFrame_recountersign adminFrame_rebind
          adminFrame_trans [OF adminFrame_recountersign adminFrame_revokeInvites])
qed

subsection \<open>What each one does\<close>

lemma userRow_set_role:
  assumes "recountersignProfileTx E now u role perms d = Inr d'"
  shows "userRoleQ d' v = (if v = u then role else userRoleQ d v)"
proof -
  obtain r sig where r: "userRow d u = Some r"
    and d': "d' = (updUser u (\<lambda>r. r\<lparr>u_role := role, u_server_sig := Some sig\<rparr>) d)\<lparr>db_permissions :=
        filter (\<lambda>(v, p). v \<noteq> u) (db_permissions d) @ map (\<lambda>p. (u, p)) perms\<rparr>"
    using assms by (rule recountersignProfileTx_Inr) blast
  have "userRow d' v = userRow (updUser u (\<lambda>r. r\<lparr>u_role := role, u_server_sig := Some sig\<rparr>) d) v"
    by (simp add: d' userRow_def)
  then show ?thesis using r by (simp add: userRoleQ_def userRow_updUser)
qed

lemma permissions_set:
  assumes "recountersignProfileTx E now u role perms d = Inr d'"
  shows "(v, p) \<in> set (db_permissions d') \<longleftrightarrow> (if v = u then p \<in> set perms else (v, p) \<in> set (db_permissions d))"
  using assms by (rule recountersignProfileTx_Inr) auto

lemma forEach_updUser:
  assumes "\<And>r. u_id (f r) = u_id r" and "\<And>r. f (f r) = f r"
    and "forEach (\<lambda>t d. Inr (updUser t f d) :: err + db) ts d = Inr d'"
  shows "userRow d' v = (if v \<in> set ts then map_option f (userRow d v) else userRow d v)"
  using assms(3)
proof (induction ts arbitrary: d)
  case (Cons t ts)
  have "userRow d' v = (if v \<in> set ts then map_option f (userRow (updUser t f d) v) else userRow (updUser t f d) v)"
    using Cons by simp
  then show ?case
    using assms(1,2) by (auto simp: userRow_updUser option.map_comp comp_def)
qed simp

lemma suspend_execute:
  assumes "ax_execute suspendExecutor req d = Inr d'"
  shows "userRow d' v = (if v \<in> set (remainingTargets req)
     then map_option (\<lambda>r. r\<lparr>u_suspended := Some (rq_id req)\<rparr>) (userRow d v) else userRow d v)"
  using forEach_updUser [of "\<lambda>r. r\<lparr>u_suspended := Some (rq_id req)\<rparr>" "remainingTargets req" d d' v] assms
  by (simp add: suspendExecutor_def)

lemma reinstate_execute:
  assumes "ax_execute reinstateExecutor req d = Inr d'"
  shows "userRow d' v = (if v \<in> set (remainingTargets req)
     then map_option (\<lambda>r. r\<lparr>u_suspended := None\<rparr>) (userRow d v) else userRow d v)"
  using forEach_updUser [of "\<lambda>r. r\<lparr>u_suspended := None\<rparr>" "remainingTargets req" d d' v] assms
  by (simp add: reinstateExecutor_def)

lemma kickTarget_removed:
  assumes "kickTarget E now req t d = Inr d'"
  shows "hasAccountRemovalQ d' t" "hasAccountRemovalQ d u \<Longrightarrow> hasAccountRemovalQ d' u"
    "hasAccountRemovalQ d' u \<Longrightarrow> u = t \<or> hasAccountRemovalQ d u"
proof -
  obtain cert x d1 where st: "storeAccountRemovalTx E cert t d = Inr (x, d1)"
    and "d' = revokeInvites (\<lambda>_. True) t (truncateSecond now) d1"
    using assms by (auto simp: kickTarget_def Let_def bindR_Inr)
  then have same: "hasAccountRemovalQ d' u = hasAccountRemovalQ d1 u" for u
    by (simp add: hasAccountRemovalQ_def revokeInvites_def)
  show "hasAccountRemovalQ d' t" using storeAccountRemovalTx_fields(13) [OF st] same by simp
  have "hasAccountRemovalQ d1 u \<longleftrightarrow> u = t \<or> hasAccountRemovalQ d u"
    using st by (cases rule: storeAccountRemovalTx_cases)
      (auto simp: hasAccountRemovalQ_def bumpActiveUsers_def updUser_def removalRowOf_def)
  then show "hasAccountRemovalQ d u \<Longrightarrow> hasAccountRemovalQ d' u"
    "hasAccountRemovalQ d' u \<Longrightarrow> u = t \<or> hasAccountRemovalQ d u"
    using same by auto
qed

lemma kick_execute:
  assumes "ax_execute (kickExecutor E now) req d = Inr d'"
  shows "hasAccountRemovalQ d' u \<longleftrightarrow> u \<in> set (remainingTargets req) \<or> hasAccountRemovalQ d u"
proof -
  have "hasAccountRemovalQ d' u \<longleftrightarrow> u \<in> set ts \<or> hasAccountRemovalQ d u"
    if "forEach (kickTarget E now req) ts d = Inr d'" for ts d
    using that
  proof (induction ts arbitrary: d)
    case (Cons t ts)
    then obtain e where "kickTarget E now req t d = Inr e" "forEach (kickTarget E now req) ts e = Inr d'"
      by (auto simp: bindR_Inr)
    with Cons.IH [of e] kickTarget_removed [of E now req t d e] show ?case by auto
  qed simp
  then show ?thesis using assms by (simp add: kickExecutor_def)
qed

end
