(* ===== verification/FlagHandlers.thy ===== *)
theory FlagHandlers
  imports Flags
begin

text \<open>
  The flag routes of \<open>flags.go\<close> and the admin records of \<open>admin_records.go\<close>: who may flag, withdraw,
  dismiss and delete, what is checked and signed first, and which admins see the result.  A peer's
  answer to a relayed call is an argument: whether the call failed, its status and its body.
\<close>

subsection \<open>Admin records\<close>

definition visibleTo :: "adminRecord \<Rightarrow> string \<Rightarrow> string list \<Rightarrow> bool" where
  "visibleTo rec viewerID hidden =
     (let notTheirs = (\<lambda>reedID. case authorOf reedID of None \<Rightarrow> False | Some a \<Rightarrow> a \<noteq> viewerID) in
      case rec of
        RecRequest r \<Rightarrow> rq_requester r = viewerID \<or> rq_action r \<notin> set hidden
      | RecFlag f \<Rightarrow> notTheirs (rf_reed f)
      | RecDismissal x \<Rightarrow> notTheirs (fd_reed x)
      | RecDeletedCase i reedID \<Rightarrow> notTheirs reedID)"

definition listAdminViewers :: "env \<Rightarrow> db \<Rightarrow> (string \<times> string list) list" where
  "listAdminViewers E d =
     map (\<lambda>u. (u_id u, hiddenAdminActions (userPermissionsQ d (u_id u) (u_role u) (e_server_id E))))
       (filter (\<lambda>u. isAdmin (u_role u)) (db_users d))"

text \<open>The users \<open>pushAdminRecord\<close> sends a record to.\<close>

definition pushAdminRecord :: "env \<Rightarrow> db \<Rightarrow> adminRecord \<Rightarrow> string list" where
  "pushAdminRecord E d rec = map fst (filter (\<lambda>(v, hidden). visibleTo rec v hidden) (listAdminViewers E d))"

lemma pushAdminRecord_admin:
  "v \<in> set (pushAdminRecord E d rec) \<Longrightarrow> \<exists>u \<in> set (db_users d). u_id u = v \<and> isAdmin (u_role u)"
  by (auto simp: pushAdminRecord_def listAdminViewers_def)

lemma pushAdminRecord_not_author:
  assumes "v \<in> set (pushAdminRecord E d rec)"
    and "rec = RecFlag f \<and> reedID = rf_reed f \<or> rec = RecDismissal x \<and> reedID = fd_reed x \<or>
         rec = RecDeletedCase i reedID"
  shows "authorOf reedID \<noteq> Some v"
  using assms by (auto simp: pushAdminRecord_def visibleTo_def split: option.splits)

lemma pushAdminRecord_mail:
  assumes "v \<in> set (pushAdminRecord E d (RecRequest r))" and "rq_action r \<in> set mailActions"
    and "uniqueBy u_id (db_users d)"
  shows "rq_requester r = v \<or> actionPermission (rq_action r) \<in> set (getUserPermissions E d v)"
proof -
  obtain u where u: "u \<in> set (db_users d)" "u_id u = v" "isAdmin (u_role u)"
    and vis: "visibleTo (RecRequest r) v
      (hiddenAdminActions (userPermissionsQ d v (u_role u) (e_server_id E)))"
    using assms(1) by (auto simp: pushAdminRecord_def listAdminViewers_def)
  have "userRoleQ d v = u_role u"
    using rowBy_eq [OF assms(3) u(1)] u(2) by (simp add: userRoleQ_def userRow_def)
  then show ?thesis
    using vis assms(2) by (auto simp: visibleTo_def hiddenAdminActions_def getUserPermissions_def)
qed

subsection \<open>Signature checks\<close>

text \<open>
  The check \<open>verifyFlagSignature\<close>, \<open>checkFlagDismissal\<close> and \<open>withdrawFlag\<close> share: a key that
  resolves and isn't revoked, and its signature over the payload.  Resolving may cache the key.
\<close>

definition checkSignedBy :: "env \<Rightarrow> gotime \<Rightarrow> userSig \<Rightarrow> string \<Rightarrow> db \<Rightarrow> err option \<times> db" where
  "checkSignedBy E now sig payload d =
     (case resolvePublicKey E now (us_id sig) d of
        Inl e \<Rightarrow> (Some e, d)
      | Inr (None, d') \<Rightarrow> (Some (refuse 401 ''bad_key''), d')
      | Inr (Some k, d') \<Rightarrow>
          if key_revoked k then (Some (refuse 401 ''bad_key''), d')
          else if \<not> e_verify E payload (us_armor sig) (key_armor k) then (Some (refuse 401 ''bad_signature''), d')
          else (None, d'))"

definition verifyFlagSignature :: "env \<Rightarrow> gotime \<Rightarrow> reedFlag \<Rightarrow> db \<Rightarrow> err option \<times> db" where
  "verifyFlagSignature E now f d = checkSignedBy E now (rf_sig f)
     (buildReedFlagPayload (e_jcs E) (rf_reed f) (rf_reporter f) (us_id (rf_sig f)) (rf_note f)) d"

lemma checkSignedBy_None:
  "checkSignedBy E now sig payload d = (None, d') \<Longrightarrow>
     \<exists>k. resolvePublicKey E now (us_id sig) d = Inr (Some k, d') \<and> \<not> key_revoked k \<and>
       e_verify E payload (us_armor sig) (key_armor k)"
  by (auto simp: checkSignedBy_def split: sum.splits option.splits prod.splits if_splits)

definition writeFlagError :: "err \<Rightarrow> 'a answer" where
  "writeFlagError e =
     (if e = Sentinel ''ErrAlreadyFlagged'' then Fail 409 ''already-flagged''
      else if e = Sentinel ''ErrFlagAcknowledged'' then Fail 409 ''flag-acknowledged''
      else writeAdminError e)"

subsection \<open>Flagging\<close>

definition storeFlag ::
    "env \<Rightarrow> string list \<Rightarrow> gotime \<Rightarrow> reedFlag \<Rightarrow> db \<Rightarrow> (err + reedFlag) \<times> db \<times> effect list" where
  "storeFlag E ids now f d =
     (let sign = (\<lambda>caseID at. countersign E (buildReedFlagServerPayload (e_jcs E) (rf_reed f)
            (rf_reporter f) caseID (e_fingerprint E) (us_armor (rf_sig f)) at) at)
      in case withAdminTx (storeFlagTx E sign ids now f) d of
        (Inl e, d') \<Rightarrow> (Inl e, d', [])
      | (Inr f', d') \<Rightarrow> (Inr f', d', [PushAdminRecord (RecFlag f')]))"

type_synonym flagRelay = "string \<Rightarrow> string \<Rightarrow> reedFlag \<Rightarrow> bool \<times> nat \<times> reedFlag"

definition relayFlag :: "flagRelay \<Rightarrow> db \<Rightarrow> string \<Rightarrow> reedFlag \<Rightarrow> reedFlag answer" where
  "relayFlag callPeer d homeServerID msg = (case getServerByID d homeServerID of
     None \<Rightarrow> Fail 404 ''Reed not found''
   | Some _ \<Rightarrow>
       (let (failed, status, reply) = callPeer homeServerID ''/api/federation/relay/flag'' msg in
        if \<not> failed \<and> 200 \<le> status \<and> status < 300 then Done 201 reply
        else if status = 409 then Fail 409 ''already-flagged''
        else if status = 403 \<or> status = 404 then Fail status ''The reed's server refused the flag''
        else Fail 502 ''Couldn't reach the reed's server''))"

definition flagReed ::
    "env \<Rightarrow> flagRelay \<Rightarrow> string list \<Rightarrow> gotime \<Rightarrow> string option \<Rightarrow> reedFlag option \<Rightarrow> db \<Rightarrow>
     reedFlag answer \<times> db \<times> effect list" where
  "flagReed E callPeer ids now caller msg d = (case caller of
     None \<Rightarrow> (Fail 401 ''Authentication required'', d, [])
   | Some callerID \<Rightarrow>
     if callerID = '''' then (Fail 401 ''Authentication required'', d, [])
     else (case msg of
       None \<Rightarrow> (Fail 400 ''Invalid request format'', d, [])
     | Some m \<Rightarrow> let f = reedFlagFromPB m in
       if rf_reporter f \<noteq> callerID then (Fail 403 ''reporterID must be the caller'', d, [])
       else (case checkFlag E f of
         Some e \<Rightarrow> (writeFlagError e, d, [])
       | None \<Rightarrow> (case verifyFlagSignature E now f d of
           (Some e, d1) \<Rightarrow> (writeFlagError e, d1, [])
         | (None, d1) \<Rightarrow>
           if authorOf (rf_reed f) = Some callerID then (Fail 403 ''You can't flag your own reed'', d1, [])
           else (case foreignServerOf (e_server_id E) (the (authorOf (rf_reed f))) of
             Some home \<Rightarrow> (relayFlag callPeer d1 home m, d1, [])
           | None \<Rightarrow> (case storeFlag E ids now f d1 of
               (Inl e, d2, fx) \<Rightarrow> (writeFlagError e, d2, fx)
             | (Inr f', d2, fx) \<Rightarrow> (Done 201 f', d2, fx)))))))"

definition flagFromPeer ::
    "env \<Rightarrow> string list \<Rightarrow> gotime \<Rightarrow> string \<Rightarrow> reedFlag option \<Rightarrow> db \<Rightarrow>
     reedFlag answer \<times> db \<times> effect list" where
  "flagFromPeer E ids now peer msg d =
     (if peer = '''' then (Fail 401 ''Unauthorized'', d, [])
      else (case msg of
        None \<Rightarrow> (Fail 400 ''Invalid request body'', d, [])
      | Some m \<Rightarrow> let f = reedFlagFromPB m in
        if identityServerID (rf_reporter f) \<noteq> Some peer then
          (writeFlagError (refuse 400 ''foreign_reporter''), d, [])
        else (case checkFlag E f of
          Some e \<Rightarrow> (writeFlagError e, d, [])
        | None \<Rightarrow> (case verifyFlagSignature E now f d of
            (Some e, d1) \<Rightarrow> (writeFlagError e, d1, [])
          | (None, d1) \<Rightarrow> (case storeFlag E ids now f (upsertIdentity (rf_reporter f) d1) of
              (Inl e, d2, fx) \<Rightarrow> (writeFlagError e, d2, fx)
            | (Inr f', d2, fx) \<Rightarrow> (Done 201 f', d2, fx))))))"

subsection \<open>Dismissing and deleting cases\<close>

definition recoveryModeLockdown :: string where "recoveryModeLockdown = ''lockdown''"
definition recoveryModeOperational :: string where "recoveryModeOperational = ''operational''"

definition recovering :: "string \<Rightarrow> bool" where
  "recovering m \<longleftrightarrow> m = recoveryModeLockdown \<or> m = recoveryModeOperational"

definition caseFrozen :: "env \<Rightarrow> flagCase \<Rightarrow> bool" where
  "caseFrozen E c \<longleftrightarrow> cs_restored c \<and> e_recovery_mode E = recoveryModeLockdown"

definition errFlagFrozen :: err where "errFlagFrozen = refuse 409 ''opened_before_recovery''"

definition checkFlagDismissal ::
    "env \<Rightarrow> gotime \<Rightarrow> flagDismissal \<Rightarrow> string \<Rightarrow> db \<Rightarrow> err option \<times> db" where
  "checkFlagDismissal E now x rawReason d =
     (if fd_reason x = '''' \<or> fd_reason x \<noteq> rawReason \<or>
         maxDismissalReasonChars < e_graphemes E (fd_reason x) then (Some (refuse 400 ''bad_reason''), d)
      else if authorOf (us_id (fd_sig x)) \<noteq> Some (fd_by x) \<or> us_armor (fd_sig x) = ''''
        then (Some (refuse 400 ''bad_key''), d)
      else checkSignedBy E now (fd_sig x) (dismissalPayload E x) d)"

definition dismissCase ::
    "env \<Rightarrow> gotime \<Rightarrow> string option \<Rightarrow> string \<Rightarrow> (string \<times> userSig) option \<Rightarrow> db \<Rightarrow>
     flagDismissal answer \<times> db \<times> effect list" where
  "dismissCase E now caller caseID msg d = (case adminCaller d caller of
     Inl a \<Rightarrow> (a, d, [])
   | Inr (callerID, role) \<Rightarrow>
     if \<not> isAdmin role then (Fail 403 ''Admin required'', d, [])
     else (case msg of
       None \<Rightarrow> (Fail 400 ''Invalid request body'', d, [])
     | Some (reason, sig) \<Rightarrow> (case getFlagCase d caseID of
         None \<Rightarrow> (Fail 404 ''Case not found'', d, [])
       | Some c \<Rightarrow>
         if cs_author c = callerID then (Fail 404 ''Case not found'', d, [])
         else if cs_dismissal c \<noteq> None \<or> cs_voided_at c \<noteq> None then (Fail 409 ''case-closed'', d, [])
         else if caseFrozen E c then (writeAdminError errFlagFrozen, d, [])
         else let x = \<lparr>fd_case = cs_id c, fd_reed = cs_reed c, fd_by = callerID,
                fd_reason = trimSpace reason, fd_sig = sig, fd_server_sig = noServerSig\<rparr> in
           (case checkFlagDismissal E now x reason d of
             (Some e, d1) \<Rightarrow> (writeAdminError e, d1, [])
           | (None, d1) \<Rightarrow> let at = truncateSecond now in
             (case countersign E (buildFlagDismissalServerPayload (e_jcs E) (fd_case x) (fd_reed x)
                 (e_fingerprint E) (us_armor sig) at) at of
               Inl e \<Rightarrow> (writeAdminError e, d1, [])
             | Inr ss \<Rightarrow> let x' = x\<lparr>fd_server_sig := ss\<rparr> in
               (case withAdminTx (dismissCaseTx x') d1 of
                 (Inl e, d2) \<Rightarrow> (writeAdminError e, d2, [])
               | (Inr _, d2) \<Rightarrow> (Done 200 x', d2, [PushAdminRecord (RecDismissal x')])))))))"

definition deleteFlagCase ::
    "gotime \<Rightarrow> string option \<Rightarrow> string \<Rightarrow> db \<Rightarrow> unit answer \<times> db \<times> effect list" where
  "deleteFlagCase now caller caseID d = (case adminCaller d caller of
     Inl a \<Rightarrow> (a, d, [])
   | Inr (callerID, role) \<Rightarrow>
     if \<not> isAdmin role then (Fail 403 ''Admin required'', d, [])
     else (case withAdminTx (deleteFlagCaseTx caseID callerID now) d of
         (Inl e, d') \<Rightarrow> (writeAdminError e, d', [])
       | (Inr reedID, d') \<Rightarrow> (Done 204 (), d', [PushAdminRecord (RecDeletedCase caseID reedID)])))"

definition listFlags ::
    "db \<Rightarrow> string option \<Rightarrow> string \<Rightarrow> (gotime \<times> string) option \<Rightarrow>
     (flagCase list \<times> (gotime \<times> string) option) answer" where
  "listFlags d caller state cursor = (case adminCaller d caller of
     Inl a \<Rightarrow> a
   | Inr (callerID, role) \<Rightarrow>
     if \<not> isAdmin role then Fail 403 ''Admin required''
     else (case listFlagCases d callerID (if state = '''' then flagCasesOpen else state) cursor 50 of
         Inl e \<Rightarrow> writeAdminError e
       | Inr page \<Rightarrow> Done 200 page))"

subsection \<open>A reporter's own flag\<close>

definition relayOwnFlag :: "flagRelay \<Rightarrow> db \<Rightarrow> string \<Rightarrow> string \<Rightarrow> reedFlag \<Rightarrow> reedFlag answer" where
  "relayOwnFlag callPeer d homeServerID path msg = (case getServerByID d homeServerID of
     None \<Rightarrow> Fail 404 ''Reed not found''
   | Some _ \<Rightarrow>
       (let (failed, status, reply) = callPeer homeServerID path msg in
        if \<not> failed \<and> 200 \<le> status \<and> status < 300 then Done 200 reply
        else if status = 409 then Fail 409 ''flag-acknowledged''
        else if status = 404 then Fail 404 ''You haven't flagged that reed''
        else if status = 400 \<or> status = 401 then Fail status ''The reed's server refused the withdrawal''
        else Fail 502 ''Couldn't reach the reed's server''))"

text \<open>\<open>ownFlagRequest\<close>: the caller and the reed, or its refusal.\<close>

definition ownFlagRequest :: "string option \<Rightarrow> string \<Rightarrow> 'a answer + string" where
  "ownFlagRequest caller reedID = (case caller of
     None \<Rightarrow> Inl (Fail 401 ''Authentication required'')
   | Some callerID \<Rightarrow>
       if callerID = '''' then Inl (Fail 401 ''Authentication required'')
       else if authorOf reedID = None then Inl (Fail 400 ''Invalid reed ID'')
       else Inr callerID)"

definition ownFlagMsg :: "string \<Rightarrow> string \<Rightarrow> userSig option \<Rightarrow> reedFlag" where
  "ownFlagMsg reedID callerID w = \<lparr>rf_reed = reedID, rf_author = '''', rf_reporter = callerID,
     rf_note = '''', rf_case = '''', rf_sig = \<lparr>us_id = '''', us_armor = ''''\<rparr>,
     rf_server_sig = noServerSig, rf_withdrawal = map_option (\<lambda>s. (s, noServerSig)) w,
     rf_dismissal = None\<rparr>"

definition getOwnFlag ::
    "env \<Rightarrow> flagRelay \<Rightarrow> db \<Rightarrow> string option \<Rightarrow> string \<Rightarrow> reedFlag answer" where
  "getOwnFlag E callPeer d caller reedID = (case ownFlagRequest caller reedID of
     Inl a \<Rightarrow> a
   | Inr callerID \<Rightarrow>
       (case foreignServerOf (e_server_id E) (the (authorOf reedID)) of
          Some home \<Rightarrow> relayOwnFlag callPeer d home ''/api/federation/relay/flag-lookup''
            (ownFlagMsg reedID callerID None)
        | None \<Rightarrow> (case getFlagQ d reedID callerID of
            None \<Rightarrow> Fail 404 ''You haven't flagged that reed''
          | Some (f, _) \<Rightarrow> Done 200 f)))"

text \<open>\<open>withdrawFlag\<close>: the flag as held once the call is done.\<close>

definition withdrawFlag ::
    "env \<Rightarrow> gotime \<Rightarrow> string \<Rightarrow> string \<Rightarrow> userSig \<Rightarrow> db \<Rightarrow> (err + reedFlag) \<times> db \<times> effect list" where
  "withdrawFlag E now reedID reporterID sig d = (case getFlagQ d reedID reporterID of
     None \<Rightarrow> (Inl (refuse 404 ''no_flag''), d, [])
   | Some (held, dismissed, restored) \<Rightarrow>
     if dismissed then (Inl (Sentinel ''ErrFlagAcknowledged''), d, [])
     else if rf_withdrawal held \<noteq> None then (Inr held, d, [])
     else if restored \<and> e_recovery_mode E = recoveryModeLockdown then (Inl errFlagFrozen, d, [])
     else if (case parseKeyFingerprint (us_id sig) of
           None \<Rightarrow> True
         | Some (owner, serverID, _) \<Rightarrow>
             canonicalID serverID owner \<noteq> reporterID \<or> us_armor sig = '''')
       then (Inl (refuse 400 ''bad_key''), d, [])
     else (case checkSignedBy E now sig (withdrawalPayload E held sig) d of
       (Some e, d1) \<Rightarrow> (Inl e, d1, [])
     | (None, d1) \<Rightarrow> let at = truncateSecond now in
       (case countersign E (buildFlagWithdrawalServerPayload (e_jcs E) reedID reporterID
           (e_fingerprint E) (us_armor sig) at) at of
         Inl e \<Rightarrow> (Inl e, d1, [])
       | Inr ss \<Rightarrow> (case withAdminTx (withdrawFlagTx reedID reporterID (sig, ss)) d1 of
           (Inl e, d2) \<Rightarrow> (Inl e, d2, [])
         | (Inr (f, fresh), d2) \<Rightarrow>
             (Inr f, d2, if fresh then [PushAdminRecord (RecFlag f)] else [])))))"

definition answerFlag ::
    "(err + reedFlag) \<times> db \<times> effect list \<Rightarrow> reedFlag answer \<times> db \<times> effect list" where
  "answerFlag r = (case r of
     (Inl e, d, fx) \<Rightarrow> (writeFlagError e, d, fx) | (Inr f, d, fx) \<Rightarrow> (Done 200 f, d, fx))"

definition withdrawOwnFlag ::
    "env \<Rightarrow> flagRelay \<Rightarrow> gotime \<Rightarrow> string option \<Rightarrow> string \<Rightarrow> userSig option \<Rightarrow> db \<Rightarrow>
     reedFlag answer \<times> db \<times> effect list" where
  "withdrawOwnFlag E callPeer now caller reedID body d = (case ownFlagRequest caller reedID of
     Inl a \<Rightarrow> (a, d, [])
   | Inr callerID \<Rightarrow> (case body of
       None \<Rightarrow> (Fail 400 ''Invalid request body'', d, [])
     | Some sig \<Rightarrow>
       (case foreignServerOf (e_server_id E) (the (authorOf reedID)) of
          Some home \<Rightarrow> (relayOwnFlag callPeer d home ''/api/federation/relay/flag-withdrawal''
            (ownFlagMsg reedID callerID (Some sig)), d, [])
        | None \<Rightarrow> answerFlag (withdrawFlag E now reedID callerID sig d))))"

text \<open>\<open>peerReporterFlag\<close> and the two routes behind it.\<close>

definition peerReporterFlag :: "string \<Rightarrow> reedFlag option \<Rightarrow> 'a answer + reedFlag" where
  "peerReporterFlag peer msg =
     (if peer = '''' then Inl (Fail 401 ''Unauthorized'')
      else (case msg of
        None \<Rightarrow> Inl (Fail 400 ''Invalid request body'')
      | Some m \<Rightarrow>
          if identityServerID (rf_reporter m) \<noteq> Some peer
            then Inl (Fail 400 ''The reporter isn't a member of the calling peer'')
          else if authorOf (rf_reed m) = None then Inl (Fail 400 ''Invalid reed ID'')
          else Inr m))"

definition flagLookupFromPeer :: "db \<Rightarrow> string \<Rightarrow> reedFlag option \<Rightarrow> reedFlag answer" where
  "flagLookupFromPeer d peer msg = (case peerReporterFlag peer msg of
     Inl a \<Rightarrow> a
   | Inr m \<Rightarrow> (case getFlagQ d (rf_reed m) (rf_reporter m) of
       None \<Rightarrow> Fail 404 ''No such flag''
     | Some (f, _) \<Rightarrow> Done 200 f))"

definition flagWithdrawalFromPeer ::
    "env \<Rightarrow> gotime \<Rightarrow> string \<Rightarrow> reedFlag option \<Rightarrow> db \<Rightarrow> reedFlag answer \<times> db \<times> effect list" where
  "flagWithdrawalFromPeer E now peer msg d = (case peerReporterFlag peer msg of
     Inl a \<Rightarrow> (a, d, [])
   | Inr m \<Rightarrow> answerFlag (withdrawFlag E now (rf_reed m) (rf_reporter m)
       (case rf_withdrawal m of None \<Rightarrow> \<lparr>us_id = '''', us_armor = ''''\<rparr> | Some (s, _) \<Rightarrow> s) d))"

end
