(* ===== verification/AdminRequests.thy ===== *)
theory AdminRequests
  imports Executors FlagHandlers
begin

text \<open>
  The two-admin protocol of \<open>admin.go\<close>: opening a request, deciding on it, withdrawing it, dropping
  removed targets and closing it as moot.  A decision is checked before its transaction
  (\<open>prepareDecision\<close>) and again inside it (\<open>commitDecision\<close>), possibly on a database other
  transactions have changed meanwhile; the handler is one after the other.
\<close>

subsection \<open>Opening a request\<close>

definition adminRequestClockSkew :: int where "adminRequestClockSkew = 5 * int minute"

text \<open>The checks on one target.\<close>

definition checkTarget :: "db \<Rightarrow> string \<Rightarrow> string \<Rightarrow> err option" where
  "checkTarget d serverID target =
     (if identityServerID target \<noteq> Some serverID then Some (refuse 400 ''foreign_target'')
      else if isRootIdentity target serverID then Some (refuse 403 ''root_target'')
      else if userRoleQ d target = '''' then Some (refuse 404 ''target_not_found'')
      else if hasAccountRemovalQ d target then Some (refuse 410 ''target_removed'')
      else None)"

text \<open>The switch on the action's body.\<close>

definition checkBody :: "env \<Rightarrow> adminRequest \<Rightarrow> err option" where
  "checkBody E req =
     (let a = rq_action req; body = rq_body req in
      if a \<in> {adminActionBroadcast, adminActionUnicast} then
        (if trimSpace body = '''' \<or> \<not> longTextFits (e_graphemes E) body
         then Some (refuse 400 ''bad_message'') else None)
      else if a \<in> {adminActionPromote, adminActionPermissions} then
        (case parsePermissionSet body of Inl _ \<Rightarrow> Some (refuse 400 ''bad_permissions'') | Inr _ \<Rightarrow> None)
      else if a = adminActionRebind then
        (if trimSpace body = '''' then Some (refuse 400 ''bad_body'') else None)
      else if a = adminActionInvites then
        (case parseInviteGrant body of None \<Rightarrow> Some (refuse 400 ''bad_body'') | Some _ \<Rightarrow> None)
      else if body \<noteq> '''' then Some (refuse 400 ''bad_body'') else None)"

definition validateNewAdminRequest :: "env \<Rightarrow> gotime \<Rightarrow> db \<Rightarrow> adminRequest \<Rightarrow> string \<Rightarrow> err option" where
  "validateNewAdminRequest E now d req requesterRole =
     (let serverID = e_server_id E; a = rq_action req; age = timeSub now (rq_created req);
          noReason = (a = adminActionBroadcast \<or> a = adminActionUnicast) in
      if \<not> e_uuid_ok E (rq_id req) then Some (refuse 400 ''bad_id'')
      else if adminActionPermission a = None \<and> a \<noteq> adminActionPermissions
        then Some (refuse 400 ''unknown_action'')
      else if adminRequestClockSkew < age \<or> age < - adminRequestClockSkew
        then Some (refuse 400 ''clock_skew'')
      else if \<not> isSortedStrings (rq_targets req) \<or> length (compact (rq_targets req)) \<noteq> length (rq_targets req)
        then Some (refuse 400 ''bad_targets'')
      else if \<not> targetCountFits a (length (rq_targets req)) then Some (refuse 400 ''bad_targets'')
      else (case firstErr (checkTarget d serverID) (rq_targets req) of
        Some e \<Rightarrow> Some e
      | None \<Rightarrow>
          if noReason \<and> rq_reason req \<noteq> '''' then Some (refuse 400 ''bad_reason'')
          else if \<not> noReason \<and> (trimSpace (rq_reason req) = '''' \<or> \<not> longTextFits (e_graphemes E) (rq_reason req))
            then Some (refuse 400 ''bad_reason'')
          else (case checkBody E req of
            Some e \<Rightarrow> Some e
          | None \<Rightarrow>
              if \<not> isAdmin requesterRole then Some (refuse 403 ''not_admin'')
              else (case checkActorPermissionsQ d req (rq_requester req) requesterRole serverID of
                Some e \<Rightarrow> Some e
              | None \<Rightarrow> (case adminExecutorFor E now a of
                  None \<Rightarrow> Some (refuse 501 ''unavailable'')
                | Some ex \<Rightarrow> ax_validate ex d req)))))"

text \<open>The body of \<open>POST /admin/requests\<close>; its \<open>createdAt\<close> is a Unix time.\<close>

record openMsg =
  om_id :: string
  om_action :: string
  om_requester :: string
  om_reason :: string
  om_targets :: "string list"
  om_body :: string
  om_created :: nat
  om_sig :: userSig

definition requestFromMsg :: "string \<Rightarrow> openMsg \<Rightarrow> adminRequest" where
  "requestFromMsg callerID m = \<lparr>rq_id = trimSpace (om_id m), rq_action = om_action m,
     rq_requester = callerID, rq_reason = om_reason m, rq_targets = om_targets m, rq_dropped = [],
     rq_body = om_body m, rq_created = timeFromUnix (om_created m), rq_sig = om_sig m,
     rq_opened = noServerSig, rq_state = adminStatePending, rq_decision = None, rq_closed = None\<rparr>"

text \<open>Everything up to the transaction: the request with its countersignature.\<close>

definition prepareOpen ::
    "env \<Rightarrow> gotime \<Rightarrow> string option \<Rightarrow> openMsg option \<Rightarrow> db \<Rightarrow> adminRequest answer + adminRequest" where
  "prepareOpen E now caller msg d = bindR (adminCaller d caller) (\<lambda>(callerID, role).
     if \<not> isAdmin role then Inl (Fail 403 ''Admin required'')
     else (case msg of
       None \<Rightarrow> Inl (Fail 400 ''Invalid request format'')
     | Some m \<Rightarrow>
       if om_requester m \<noteq> callerID then Inl (Fail 403 ''requesterID must be the caller'')
       else let req = requestFromMsg callerID m in
         (case validateNewAdminRequest E now d req role of
           Some e \<Rightarrow> Inl (writeAdminError e)
         | None \<Rightarrow> (case callerSigningKey d (us_id (rq_sig req)) callerID of
             Inl e \<Rightarrow> Inl (writeAdminError e)
           | Inr key \<Rightarrow>
             if \<not> e_verify E (requestPayload E req) (us_armor (rq_sig req)) (key_armor key)
               then Inl (Fail 401 ''signature verification failed'')
             else let at = truncateSecond now in
               (case countersign E (buildAdminRequestOpenedPayload (e_jcs E) (rq_id req)
                   (us_armor (rq_sig req)) (e_server_id E) (e_fingerprint E) at) at of
                 Inl e \<Rightarrow> Inl (Fail 500 ''Internal Server Error'')
               | Inr ss \<Rightarrow> Inr (req\<lparr>rq_opened := ss\<rparr>))))))"

definition openAdminRequest ::
    "env \<Rightarrow> gotime \<Rightarrow> string option \<Rightarrow> openMsg option \<Rightarrow> db \<Rightarrow>
     adminRequest answer \<times> db \<times> effect list" where
  "openAdminRequest E now caller msg d = (case prepareOpen E now caller msg d of
     Inl a \<Rightarrow> (a, d, [])
   | Inr req \<Rightarrow> (case withAdminTx (insertAdminRequestTx req) d of
       (Inl e, d') \<Rightarrow> (if e = Sentinel ''ErrAdminRequestExists''
          then Fail 409 ''A request with that ID already exists'' else writeAdminError e, d', [])
     | (Inr _, d') \<Rightarrow> (Done 201 req, d', [PushAdminRecord (RecRequest req)])))"

subsection \<open>Deciding\<close>

definition checkDeciderQ :: "db \<Rightarrow> adminRequest \<Rightarrow> string \<Rightarrow> string \<Rightarrow> err option" where
  "checkDeciderQ d req deciderID serverID =
     (let role = userRoleQ d deciderID; deciderIsRoot = isRoot deciderID role serverID in
      if \<not> isAdmin role then Some (refuse 403 ''not_admin'')
      else if deciderID = rq_requester req \<and> \<not> deciderIsRoot then Some (refuse 403 ''self_decision'')
      else if deciderID \<in> set (rq_targets req) then Some (refuse 403 ''target_decision'')
      else if adminActionNeedsOutsideApprover (rq_action req) \<and> invitedByQ d (rq_requester req) deciderID
        then Some (refuse 403 ''invitee_decision'')
      else (case checkActorPermissionsQ d req deciderID role serverID of
        Some e \<Rightarrow> Some e
      | None \<Rightarrow>
          if \<not> deciderIsRoot then
            firstErr (\<lambda>t. if userRoleQ d t = roleAdmin then Some (refuse 403 ''root_required'') else None)
              (remainingTargets req)
          else None))"

definition openedBeforeRecovery :: "env \<Rightarrow> db \<Rightarrow> adminRequest \<Rightarrow> bool" where
  "openedBeforeRecovery E d req \<longleftrightarrow>
     recovering (e_recovery_mode E) \<and> rq_created req < truncateSecond (db_first_boot d)"

definition errOpenedBeforeRecovery :: err where
  "errOpenedBeforeRecovery = refuse 409 ''opened_before_recovery''"

text \<open>What the handler carries into the transaction.\<close>

record prepared =
  pr_request :: adminRequest
  pr_decision :: adminDecision
  pr_state :: string
  pr_sig :: serverSig
  pr_executor :: "adminExecutor option"

definition prepareDecision ::
    "env \<Rightarrow> gotime \<Rightarrow> string option \<Rightarrow> string \<Rightarrow> adminDecision option \<Rightarrow> db \<Rightarrow>
     adminRequest answer + prepared" where
  "prepareDecision E now caller reqID msg d = bindR (adminCaller d caller) (\<lambda>(callerID, _).
     case msg of
       None \<Rightarrow> Inl (Fail 400 ''Invalid request format'')
     | Some decision \<Rightarrow> let state = stateForDecision (ad_decision decision) in
       if state = '''' then Inl (Fail 400 ''decision must be approve, reject or withdraw'')
       else if ad_decider decision \<noteq> callerID then Inl (Fail 403 ''deciderID must be the caller'')
       else (case getAdminRequestQ d reqID of
         None \<Rightarrow> Inl (Fail 404 ''Request not found'')
       | Some req \<Rightarrow>
         if rq_state req \<noteq> adminStatePending then Inl (Fail 409 ''Request is no longer pending'')
         else if openedBeforeRecovery E d req then Inl (writeAdminError errOpenedBeforeRecovery)
         else (case callerSigningKey d (us_id (ad_sig decision)) callerID of
           Inl e \<Rightarrow> Inl (writeAdminError e)
         | Inr key \<Rightarrow>
           if \<not> e_verify E (buildAdminDecisionPayload (e_jcs E) (rq_id req) (ad_decision decision) callerID
               (us_id (ad_sig decision)) (us_armor (rq_sig req))) (us_armor (ad_sig decision)) (key_armor key)
             then Inl (Fail 401 ''signature verification failed'')
           else let ex = (if ad_decision decision = adminDecisionApprove
               then adminExecutorFor E now (rq_action req) else None) in
             if ad_decision decision = adminDecisionApprove \<and> ex = None
               then Inl (Fail 501 ''The action isn't available'')
             else let at = truncateSecond now in
               (case countersign E (buildAdminRequestServerPayload (e_jcs E) (rq_id req) state
                   (us_armor (rq_sig req)) (us_armor (ad_sig decision)) (e_server_id E) (e_fingerprint E) at) at of
                 Inl e \<Rightarrow> Inl (Fail 500 ''Internal Server Error'')
               | Inr ss \<Rightarrow> Inr \<lparr>pr_request = req, pr_decision = decision, pr_state = state,
                   pr_sig = ss, pr_executor = ex\<rparr>))))"

text \<open>The transaction: the locked request, checked again, executed, closed and put on the ledger.\<close>

definition lockPending :: "string \<Rightarrow> db \<Rightarrow> err + adminRequest" where
  "lockPending i d = (case getAdminRequestQ d i of
     None \<Rightarrow> Inl (refuse 409 ''not_pending'')
   | Some locked \<Rightarrow>
       if rq_state locked \<noteq> adminStatePending then Inl (refuse 409 ''not_pending'') else Inr locked)"

definition decisionRefused :: "env \<Rightarrow> string \<Rightarrow> prepared \<Rightarrow> adminRequest \<Rightarrow> db \<Rightarrow> err option" where
  "decisionRefused E callerID p locked d =
     (if ad_decision (pr_decision p) = adminDecisionWithdraw
      then (if callerID \<noteq> rq_requester locked then Some (refuse 403 ''not_requester'') else None)
      else checkDeciderQ d locked callerID (e_server_id E))"

definition runExecutor :: "prepared \<Rightarrow> adminRequest \<Rightarrow> db \<Rightarrow> err + adminRequest \<times> db" where
  "runExecutor p locked d = (case pr_executor p of
     None \<Rightarrow> Inr (locked, d)
   | Some ex \<Rightarrow> (let req = locked\<lparr>rq_decision := Some (pr_decision p)\<rparr> in
       bindR (failIf (ax_validate ex d req)) (\<lambda>_.
       bindR (ax_execute ex req d) (\<lambda>d1. Inr (req, d1)))))"

definition recordDecision ::
    "env \<Rightarrow> gotime \<Rightarrow> string \<Rightarrow> prepared \<Rightarrow> adminRequest \<Rightarrow> db \<Rightarrow>
     err + (adminRequest \<times> ledgerEntry option) \<times> db" where
  "recordDecision E now callerID p locked d1 =
     bindR (closeAdminRequestTx locked (pr_state p) (Some (pr_decision p)) (pr_sig p) d1) (\<lambda>(req, d2).
       if pr_state p \<noteq> adminStateExecuted then Inr ((req, None), d2)
       else (case ledgerApprovedEntry req callerID (rebindKeyID E req) of
         None \<Rightarrow> Inr ((req, None), d2)
       | Some entry \<Rightarrow> bindR (appendLedgerTx E now entry d2) (\<lambda>(entry, d3).
           Inr ((req, Some entry), d3))))"

definition commitDecision ::
    "env \<Rightarrow> gotime \<Rightarrow> string \<Rightarrow> prepared \<Rightarrow> db \<Rightarrow> err + (adminRequest \<times> ledgerEntry option) \<times> db" where
  "commitDecision E now callerID p d =
     bindR (lockPending (rq_id (pr_request p)) d) (\<lambda>locked.
     bindR (failIf (decisionRefused E callerID p locked d)) (\<lambda>_.
     bindR (runExecutor p locked d) (\<lambda>(req, d1).
     recordDecision E now callerID p req d1)))"

definition decideAdminRequest ::
    "env \<Rightarrow> gotime \<Rightarrow> string option \<Rightarrow> string \<Rightarrow> adminDecision option \<Rightarrow> db \<Rightarrow>
     adminRequest answer \<times> db \<times> effect list" where
  "decideAdminRequest E now caller reqID msg d = (case prepareDecision E now caller reqID msg d of
     Inl a \<Rightarrow> (a, d, [])
   | Inr p \<Rightarrow> (case withAdminTx (commitDecision E now (ad_decider (pr_decision p)) p) d of
       (Inl e, d') \<Rightarrow> (writeAdminError e, d', [])
     | (Inr (req, entry), d') \<Rightarrow>
         (Done 200 req, d',
          (case entry of None \<Rightarrow> [] | Some e \<Rightarrow> [PushLedger e]) @
          (case pr_executor p of None \<Rightarrow> [] | Some ex \<Rightarrow> ax_after ex d' req) @
          [PushAdminRecord (RecRequest req)])))"

subsection \<open>Dropped targets and moot requests\<close>

definition dropsTarget :: "string \<Rightarrow> requestRow \<Rightarrow> bool" where
  "dropsTarget u r \<longleftrightarrow> rr_state r = adminStatePending \<and> (u, False) \<in> set (rr_targets r)"

definition dropTargets :: "string \<Rightarrow> db \<Rightarrow> string list \<times> db" where
  "dropTargets u d =
     (map rr_id (filter (dropsTarget u) (db_requests d)),
      d\<lparr>db_requests := updWhere (dropsTarget u)
        (\<lambda>r. r\<lparr>rr_targets := map (\<lambda>(t, dr). (t, dr \<or> t = u)) (rr_targets r)\<rparr>) (db_requests d)\<rparr>)"

text \<open>\<open>closeIfMoot\<close>: the checks before its transaction, and the transaction.\<close>

definition prepareMoot :: "env \<Rightarrow> gotime \<Rightarrow> string \<Rightarrow> db \<Rightarrow> err + serverSig option" where
  "prepareMoot E now requestID d = (case getAdminRequestQ d requestID of
     None \<Rightarrow> Inr None
   | Some req \<Rightarrow>
       if rq_state req \<noteq> adminStatePending then Inr None
       else if rq_targets req = [] \<or> remainingTargets req \<noteq> [] then Inr None
       else if openedBeforeRecovery E d req then Inr None
       else let at = truncateSecond now in
         bindR (countersign E (buildAdminRequestServerPayload (e_jcs E) (rq_id req) adminStateMoot
           (us_armor (rq_sig req)) '''' (e_server_id E) (e_fingerprint E) at) at) (\<lambda>ss. Inr (Some ss)))"

definition commitMoot :: "string \<Rightarrow> serverSig \<Rightarrow> db \<Rightarrow> err + adminRequest option \<times> db" where
  "commitMoot requestID ss d = (case getAdminRequestQ d requestID of
     None \<Rightarrow> Inr (None, d)
   | Some locked \<Rightarrow>
       if rq_state locked \<noteq> adminStatePending \<or> remainingTargets locked \<noteq> [] then Inr (None, d)
       else bindR (closeAdminRequestTx locked adminStateMoot None ss d) (\<lambda>(req, d'). Inr (Some req, d')))"

definition closeIfMoot :: "env \<Rightarrow> gotime \<Rightarrow> string \<Rightarrow> db \<Rightarrow> db \<times> effect list" where
  "closeIfMoot E now requestID d = (case prepareMoot E now requestID d of
     Inl e \<Rightarrow> (d, [])
   | Inr None \<Rightarrow> (d, [])
   | Inr (Some ss) \<Rightarrow> (case withAdminTx (commitMoot requestID ss) d of
       (Inr (Some req), d') \<Rightarrow> (d', [PushAdminRecord (RecRequest req)])
     | (_, d') \<Rightarrow> (d', [])))"

definition dropFromAdminRequests :: "env \<Rightarrow> gotime \<Rightarrow> string \<Rightarrow> db \<Rightarrow> db \<times> effect list" where
  "dropFromAdminRequests E now u d =
     (let (ids, d1) = dropTargets u d in
      fold (\<lambda>i (d, fx). let (d', fx') = closeIfMoot E now i d in (d', fx @ fx')) ids (d1, []))"

subsection \<open>A peer's requests\<close>

text \<open>
  \<open>verifyForeignAdminRequest\<close>: both signers of an approval a peer's kick or revocation carries.
  Their keys are resolved in turn, each perhaps cached.
\<close>

definition verifySigner ::
    "env \<Rightarrow> gotime \<Rightarrow> string \<Rightarrow> string \<times> userSig \<times> string \<Rightarrow> db \<Rightarrow> err option \<times> db" where
  "verifySigner E now peerServerID s d = (case s of (userID, sig, bytes) \<Rightarrow>
     if \<not> requesterKeyBelongsTo (us_id sig) userID peerServerID
       then (Some (Internal ''key isn't theirs''), d)
     else (case resolvePublicKey E now (us_id sig) d of
         Inl e \<Rightarrow> (Some (Internal ''resolve key''), d)
       | Inr (None, d') \<Rightarrow> (Some (Internal ''resolve key''), d')
       | Inr (Some key, d') \<Rightarrow>
           if \<not> e_verify E bytes (us_armor sig) (key_armor key) then (Some (Internal ''signature''), d')
           else (None, d')))"

fun verifySigners ::
    "env \<Rightarrow> gotime \<Rightarrow> string \<Rightarrow> (string \<times> userSig \<times> string) list \<Rightarrow> db \<Rightarrow> err option \<times> db" where
  "verifySigners E now peer [] d = (None, d)"
| "verifySigners E now peer (s # ss) d = (case verifySigner E now peer s d of
     (Some e, d') \<Rightarrow> (Some e, d') | (None, d') \<Rightarrow> verifySigners E now peer ss d')"

definition verifyForeignAdminRequest ::
    "env \<Rightarrow> gotime \<Rightarrow> string \<Rightarrow> adminRequest \<Rightarrow> string \<Rightarrow> string \<Rightarrow> db \<Rightarrow> err option \<times> db" where
  "verifyForeignAdminRequest E now peerServerID req action target d =
     (case (rq_decision req, rq_closed req) of
        (Some dec, Some _) \<Rightarrow>
          if rq_action req \<noteq> action \<or> rq_state req \<noteq> adminStateExecuted \<or> ad_decision dec \<noteq> adminDecisionApprove
            then (Some (Internal ''not an approved request''), d)
          else if target \<notin> set (rq_targets req) then (Some (Internal ''not a target''), d)
          else if ad_decider dec = rq_requester req \<and> \<not> isRootIdentity (rq_requester req) peerServerID
            then (Some (Internal ''the requester approved their own request''), d)
          else verifySigners E now peerServerID
            [(rq_requester req, rq_sig req, requestPayload E req),
             (ad_decider dec, ad_sig dec, buildAdminDecisionPayload (e_jcs E) (rq_id req) (ad_decision dec)
                (ad_decider dec) (us_id (ad_sig dec)) (us_armor (rq_sig req)))] d
      | _ \<Rightarrow> (Some (Internal ''not an approved request''), d))"

end
