(* ===== verification/AdminSafety.thy ===== *)
theory AdminSafety
  imports AdminRequests
begin

text \<open>
  What the two-admin protocol guarantees.  The transactions are the steps of a relation, in any
  order and interleaving: a decision's checks may have run on an older database than its
  transaction.  The invariant says of every stored request who may have closed it and how, that its
  targets are local users and never root, and that the ledger has one entry per executed request but
  private messages.
\<close>

subsection \<open>What a successful transaction has checked\<close>

lemma commitDecision_Inr:
  assumes "commitDecision E now callerID p d = Inr ((req, entry), d')"
  obtains locked locked' d1 d2 where
    "getAdminRequestQ d (rq_id (pr_request p)) = Some locked"
    "rq_state locked = adminStatePending"
    "ad_decision (pr_decision p) = adminDecisionWithdraw \<longrightarrow> callerID = rq_requester locked"
    "ad_decision (pr_decision p) \<noteq> adminDecisionWithdraw \<longrightarrow>
       checkDeciderQ d locked callerID (e_server_id E) = None"
    "pr_executor p = None \<longrightarrow> locked' = locked \<and> d1 = d"
    "\<forall>ex. pr_executor p = Some ex \<longrightarrow> locked' = locked\<lparr>rq_decision := Some (pr_decision p)\<rparr> \<and>
       ax_validate ex d locked' = None \<and> ax_execute ex locked' d = Inr d1"
    "closeAdminRequestTx locked' (pr_state p) (Some (pr_decision p)) (pr_sig p) d1 = Inr (req, d2)"
    "entry = None \<longrightarrow> d' = d2 \<and> (pr_state p \<noteq> adminStateExecuted \<or> rq_action req = adminActionUnicast)"
    "\<forall>e. entry = Some e \<longrightarrow> pr_state p = adminStateExecuted \<and>
       (\<exists>e0. ledgerApprovedEntry req callerID (rebindKeyID E req) = Some e0 \<and>
             appendLedgerTx E now e0 d2 = Inr (e, d'))"
proof -
  obtain locked locked' d1 where l: "lockPending (rq_id (pr_request p)) d = Inr locked"
    and ref: "decisionRefused E callerID p locked d = None"
    and ex: "runExecutor p locked d = Inr (locked', d1)"
    and rec: "recordDecision E now callerID p locked' d1 = Inr ((req, entry), d')"
    using assms by (auto simp: commitDecision_def bindR_Inr failIf_Inr)
  obtain d2 where cl: "closeAdminRequestTx locked' (pr_state p) (Some (pr_decision p)) (pr_sig p) d1 = Inr (req, d2)"
    and led: "(if pr_state p \<noteq> adminStateExecuted then Inr ((req, None), d2)
      else (case ledgerApprovedEntry req callerID (rebindKeyID E req) of
        None \<Rightarrow> Inr ((req, None), d2)
      | Some e \<Rightarrow> bindR (appendLedgerTx E now e d2) (\<lambda>(e, d3). Inr ((req, Some e), d3)))) =
      Inr ((req, entry), d')"
    using rec by (auto simp: recordDecision_def bindR_Inr split: if_splits option.splits)
  show thesis
  proof (rule that)
    show "getAdminRequestQ d (rq_id (pr_request p)) = Some locked" "rq_state locked = adminStatePending"
      using l by (auto simp: lockPending_def split: option.splits if_splits)
    show "ad_decision (pr_decision p) = adminDecisionWithdraw \<longrightarrow> callerID = rq_requester locked"
      "ad_decision (pr_decision p) \<noteq> adminDecisionWithdraw \<longrightarrow>
         checkDeciderQ d locked callerID (e_server_id E) = None"
      using ref by (auto simp: decisionRefused_def split: if_splits)
    show "pr_executor p = None \<longrightarrow> locked' = locked \<and> d1 = d"
      using ex by (auto simp: runExecutor_def)
    show "\<forall>e. pr_executor p = Some e \<longrightarrow> locked' = locked\<lparr>rq_decision := Some (pr_decision p)\<rparr> \<and>
       ax_validate e d locked' = None \<and> ax_execute e locked' d = Inr d1"
      using ex by (auto simp: runExecutor_def Let_def bindR_Inr failIf_Inr)
    show "closeAdminRequestTx locked' (pr_state p) (Some (pr_decision p)) (pr_sig p) d1 = Inr (req, d2)"
      by (rule cl)
    show "entry = None \<longrightarrow> d' = d2 \<and> (pr_state p \<noteq> adminStateExecuted \<or> rq_action req = adminActionUnicast)"
      using led by (auto simp: bindR_Inr ledgerApprovedEntry_None split: if_splits option.splits)
    show "\<forall>e. entry = Some e \<longrightarrow> pr_state p = adminStateExecuted \<and>
       (\<exists>e0. ledgerApprovedEntry req callerID (rebindKeyID E req) = Some e0 \<and>
             appendLedgerTx E now e0 d2 = Inr (e, d'))"
      using led by (auto simp: bindR_Inr split: if_splits option.splits)
  qed
qed

lemma checkDeciderQ_None:
  assumes "checkDeciderQ d req deciderID s = None"
  shows "isAdmin (userRoleQ d deciderID)"
    and "deciderID = rq_requester req \<Longrightarrow> isRoot deciderID (userRoleQ d deciderID) s"
    and "deciderID \<notin> set (rq_targets req)"
    and "adminActionNeedsOutsideApprover (rq_action req) \<Longrightarrow> \<not> invitedByQ d (rq_requester req) deciderID"
    and "checkActorPermissionsQ d req deciderID (userRoleQ d deciderID) s = None"
    and "t \<in> set (remainingTargets req) \<Longrightarrow> userRoleQ d t = roleAdmin \<Longrightarrow>
           isRoot deciderID (userRoleQ d deciderID) s"
  using assms
  by (auto simp: checkDeciderQ_def Let_def firstErr_None split: if_splits option.splits)

subsection \<open>Steps\<close>

text \<open>A prepared decision fits the request it names, on any later database.\<close>

definition preparedFor :: "env \<Rightarrow> gotime \<Rightarrow> db \<Rightarrow> prepared \<Rightarrow> bool" where
  "preparedFor E now d p \<longleftrightarrow>
     pr_state p = stateForDecision (ad_decision (pr_decision p)) \<and> pr_state p \<noteq> '''' \<and>
     pr_executor p = (if ad_decision (pr_decision p) = adminDecisionApprove
       then adminExecutorFor E now (rq_action (pr_request p)) else None) \<and>
     (ad_decision (pr_decision p) = adminDecisionApprove \<longrightarrow> pr_executor p \<noteq> None) \<and>
     (\<exists>r \<in> set (db_requests d). rr_id r = rq_id (pr_request p) \<and> rr_action r = rq_action (pr_request p))"

inductive requestStep :: "env \<Rightarrow> db \<Rightarrow> db \<Rightarrow> bool" for E where
  openRequest: "prepareOpen E now caller msg d0 = Inr req \<Longrightarrow>
    insertAdminRequestTx req d = Inr (u, d') \<Longrightarrow> requestStep E d d'"
| decideRequest: "preparedFor E now0 d p \<Longrightarrow>
    commitDecision E now (ad_decider (pr_decision p)) p d = Inr (r, d') \<Longrightarrow> requestStep E d d'"
| dropTarget: "dropTargets u d = (ids, d') \<Longrightarrow> requestStep E d d'"
| mootRequest: "getAdminRequestQ d i = Some req0 \<Longrightarrow> rq_targets req0 \<noteq> [] \<Longrightarrow>
    commitMoot i ss d = Inr (r, d') \<Longrightarrow> requestStep E d d'"
| otherTransaction: "db_requests d' = db_requests d \<Longrightarrow>
    filter (\<lambda>e. le_kind e = ledgerKindRequest) (db_ledger d') =
      filter (\<lambda>e. le_kind e = ledgerKindRequest) (db_ledger d) \<Longrightarrow>
    (ledgerInv d \<Longrightarrow> ledgerInv d') \<Longrightarrow> requestStep E d d'"

subsection \<open>The invariant\<close>

definition closedProperly :: "string \<Rightarrow> requestRow \<Rightarrow> bool" where
  "closedProperly s r \<longleftrightarrow>
     (rr_state r = adminStatePending \<longrightarrow> rr_closed_by r = None \<and> rr_server_sig r = None) \<and>
     (rr_state r \<noteq> adminStatePending \<longrightarrow> rr_server_sig r \<noteq> None) \<and>
     (rr_state r = adminStateMoot \<longrightarrow> rr_closed_by r = None \<and> rr_targets r \<noteq> [] \<and>
        (\<forall>t \<in> set (rr_targets r). snd t)) \<and>
     (rr_state r = adminStateWithdrawn \<longrightarrow> (\<exists>sig. rr_closed_by r = Some (rr_requester r, sig))) \<and>
     (rr_state r \<in> {adminStateExecuted, adminStateRejected} \<longrightarrow>
        (\<exists>who sig. rr_closed_by r = Some (who, sig) \<and>
           (who = rr_requester r \<longrightarrow> isRootIdentity who s) \<and> who \<notin> fst ` set (rr_targets r))) \<and>
     rr_state r \<in> {adminStatePending, adminStateExecuted, adminStateRejected, adminStateWithdrawn, adminStateMoot}"

definition openedProperly :: "string \<Rightarrow> requestRow \<Rightarrow> bool" where
  "openedProperly s r \<longleftrightarrow> rr_action r \<in> set adminActions \<and>
     targetCountFits (rr_action r) (length (rr_targets r)) \<and> distinct (map fst (rr_targets r)) \<and>
     (\<forall>t \<in> fst ` set (rr_targets r). identityServerID t = Some s \<and> \<not> isRootIdentity t s)"

definition onLedger :: "requestRow \<Rightarrow> bool" where
  "onLedger r \<longleftrightarrow> rr_state r = adminStateExecuted \<and> rr_action r \<noteq> adminActionUnicast"

definition requestInv :: "string \<Rightarrow> db \<Rightarrow> bool" where
  "requestInv s d \<longleftrightarrow> uniqueBy rr_id (db_requests d) \<and>
     (\<forall>r \<in> set (db_requests d). closedProperly s r \<and> openedProperly s r) \<and> ledgerInv d \<and>
     length (filter (\<lambda>e. le_kind e = ledgerKindRequest) (db_ledger d)) =
       length (filter onLedger (db_requests d))"

lemma requestInvD:
  assumes "requestInv s d"
  shows "uniqueBy rr_id (db_requests d)" "r \<in> set (db_requests d) \<Longrightarrow> closedProperly s r"
    "r \<in> set (db_requests d) \<Longrightarrow> openedProperly s r" "ledgerInv d"
  using assms by (auto simp: requestInv_def)

text \<open>What the checks on opening give.\<close>

lemma requestFromMsg_fields [simp]:
  "rq_sig (requestFromMsg c m) = om_sig m" "rq_id (requestFromMsg c m) = trimSpace (om_id m)"
  "rq_requester (requestFromMsg c m) = c" "rq_targets (requestFromMsg c m) = om_targets m"
  "rq_state (requestFromMsg c m) = adminStatePending" "rq_dropped (requestFromMsg c m) = []"
  "rq_decision (requestFromMsg c m) = None" "rq_closed (requestFromMsg c m) = None"
  by (simp_all add: requestFromMsg_def)

lemma prepareOpen_Inr:
  assumes "prepareOpen E now caller msg d = Inr req"
  obtains callerID m key at ss where
    "caller = Some callerID" "callerID \<noteq> ''''" "isAdmin (userRoleQ d callerID)" "msg = Some m"
    "om_requester m = callerID"
    "validateNewAdminRequest E now d (requestFromMsg callerID m) (userRoleQ d callerID) = None"
    "callerSigningKey d (us_id (om_sig m)) callerID = Inr key"
    "e_verify E (requestPayload E (requestFromMsg callerID m)) (us_armor (om_sig m)) (key_armor key)"
    "countersign E (buildAdminRequestOpenedPayload (e_jcs E) (trimSpace (om_id m)) (us_armor (om_sig m))
       (e_server_id E) (e_fingerprint E) at) at = Inr ss"
    "req = (requestFromMsg callerID m)\<lparr>rq_opened := ss\<rparr>"
proof -
  obtain c where c: "caller = Some c" "c \<noteq> ''''"
    using assms by (cases caller) (auto simp: prepareOpen_def bindR_Inr adminCaller_def split: if_splits)
  obtain m where m: "msg = Some m" "isAdmin (userRoleQ d c)"
    using assms c by (cases msg) (auto simp: prepareOpen_def bindR_Inr adminCaller_def split: if_splits)
  note step = assms [unfolded prepareOpen_def c(1) m(1)]
  have v: "om_requester m = c"
    "validateNewAdminRequest E now d (requestFromMsg c m) (userRoleQ d c) = None"
    using step c(2) by (auto simp: adminCaller_def Let_def split: if_splits option.splits)
  obtain key where k: "callerSigningKey d (us_id (om_sig m)) c = Inr key"
    "e_verify E (requestPayload E (requestFromMsg c m)) (us_armor (om_sig m)) (key_armor key)"
    using step c(2) v by (auto simp: adminCaller_def Let_def split: if_splits sum.splits)
  obtain ss where "countersign E (buildAdminRequestOpenedPayload (e_jcs E) (trimSpace (om_id m)) (us_armor (om_sig m))
       (e_server_id E) (e_fingerprint E) (truncateSecond now)) (truncateSecond now) = Inr ss"
    "req = (requestFromMsg c m)\<lparr>rq_opened := ss\<rparr>"
    using step c(2) v k by (auto simp: adminCaller_def Let_def split: if_splits sum.splits)
  with c m v k show thesis by (intro that) auto
qed

lemma validateNewAdminRequest_None:
  assumes "validateNewAdminRequest E now d req role = None"
  shows "rq_action req \<in> set adminActions" "sorted (rq_targets req)" "distinct (rq_targets req)"
    "targetCountFits (rq_action req) (length (rq_targets req))"
    "t \<in> set (rq_targets req) \<Longrightarrow> identityServerID t = Some (e_server_id E) \<and>
       \<not> isRootIdentity t (e_server_id E) \<and> userRoleQ d t \<noteq> '''' \<and> \<not> hasAccountRemovalQ d t"
    "isAdmin role" "checkActorPermissionsQ d req (rq_requester req) role (e_server_id E) = None"
    "checkBody E req = None"
    "\<exists>ex. adminExecutorFor E now (rq_action req) = Some ex \<and> ax_validate ex d req = None"
proof -
  note v = assms [unfolded validateNewAdminRequest_def Let_def]
  have a: "\<not> (adminActionPermission (rq_action req) = None \<and> rq_action req \<noteq> adminActionPermissions)"
    using v by (auto split: if_splits)
  then show "rq_action req \<in> set adminActions"
    by (auto simp: adminActionPermission_def adminActions_def split: if_splits)
  show "sorted (rq_targets req)" "distinct (rq_targets req)"
    using v by (auto simp: isSortedStrings_def compact_distinct split: if_splits)
  show "targetCountFits (rq_action req) (length (rq_targets req))"
    using v by (auto split: if_splits)
  have "firstErr (checkTarget d (e_server_id E)) (rq_targets req) = None"
    using v by (auto split: if_splits option.splits)
  then show "identityServerID t = Some (e_server_id E) \<and>
       \<not> isRootIdentity t (e_server_id E) \<and> userRoleQ d t \<noteq> '''' \<and> \<not> hasAccountRemovalQ d t"
    if "t \<in> set (rq_targets req)"
    using that by (force simp: firstErr_None checkTarget_def split: if_splits)
  show "isAdmin role" "checkActorPermissionsQ d req (rq_requester req) role (e_server_id E) = None"
    "checkBody E req = None"
    "\<exists>ex. adminExecutorFor E now (rq_action req) = Some ex \<and> ax_validate ex d req = None"
    using v by (auto split: if_splits option.splits)
qed

subsection \<open>Every step keeps the invariant\<close>

lemma count_updWhere:
  assumes "uniqueBy key t" "r \<in> set t" "p r" "\<And>x. x \<in> set t \<Longrightarrow> p x \<Longrightarrow> key x = key r" "\<not> q r"
  shows "length (filter q (updWhere p f t)) = length (filter q t) + (if q (f r) then 1 else 0)"
  using assms
proof (induction t)
  case (Cons x t)
  show ?case
  proof (cases "x = r")
    case True
    then have "\<not> p y" if "y \<in> set t" for y using Cons.prems(1,4) that by (auto simp: image_iff)
    then show ?thesis using True Cons.prems(3,5) by (simp add: updWhere_none)
  next
    case False
    then have r: "r \<in> set t" and "key x \<noteq> key r" using Cons.prems(1,2) by auto
    then have "\<not> p x" using Cons.prems(4) [of x] by auto
    moreover have "length (filter q (updWhere p f t)) = length (filter q t) + (if q (f r) then 1 else 0)"
    proof (rule Cons.IH)
      show "uniqueBy key t" using Cons.prems(1) by simp
      show "key x = key r" if "x \<in> set t" "p x" for x using Cons.prems(4) that by simp
    qed (use r Cons.prems(3,5) in simp_all)
    ultimately show ?thesis by simp
  qed
qed simp

lemma requestInvI:
  assumes "uniqueBy rr_id (db_requests d)"
    and "\<And>r. r \<in> set (db_requests d) \<Longrightarrow> closedProperly s r"
    and "\<And>r. r \<in> set (db_requests d) \<Longrightarrow> openedProperly s r"
    and "ledgerInv d"
    and "length (filter (\<lambda>e. le_kind e = ledgerKindRequest) (db_ledger d)) =
           length (filter onLedger (db_requests d))"
  shows "requestInv s d"
  using assms by (simp add: requestInv_def)

lemma open_inv:
  assumes inv: "requestInv (e_server_id E) d" and prep: "prepareOpen E now caller msg d0 = Inr req"
    and ins: "insertAdminRequestTx req d = Inr (u, d')"
  shows "requestInv (e_server_id E) d'"
proof -
  obtain callerID m ss where v: "validateNewAdminRequest E now d0 (requestFromMsg callerID m) (userRoleQ d0 callerID) = None"
    and req: "req = (requestFromMsg callerID m)\<lparr>rq_opened := ss\<rparr>"
    using prep by (rule prepareOpen_Inr)
  note ok = validateNewAdminRequest_None [OF v]
  have d': "d' = d\<lparr>db_requests := db_requests d @ [requestRowOf req]\<rparr>" "rq_id req \<notin> rr_id ` set (db_requests d)"
    using ins by (auto simp: insertAdminRequestTx_def split: if_splits)
  have "openedProperly (e_server_id E) (requestRowOf req)"
    using ok(1,3,4,5) by (auto simp: openedProperly_def requestRowOf_def req requestFromMsg_def comp_def)
  moreover have "closedProperly (e_server_id E) (requestRowOf req)" "\<not> onLedger (requestRowOf req)"
    by (auto simp: closedProperly_def onLedger_def requestRowOf_def state_defs)
  moreover have "ledgerInv d'" using requestInvD(4) [OF inv] d' by (simp add: ledgerInv_other)
  ultimately show ?thesis
    using inv d' by (auto simp: requestInv_def requestRowOf_def)
qed

text \<open>Closing the pending row \<open>r\<close>, in a database that has kept the requests and the chain.\<close>

definition closedRow :: "string \<Rightarrow> adminDecision option \<Rightarrow> serverSig \<Rightarrow> requestRow \<Rightarrow> requestRow" where
  "closedRow state decision ss r = r\<lparr>rr_state := state,
     rr_closed_by := map_option (\<lambda>x. (ad_decider x, ad_sig x)) decision, rr_server_sig := Some ss\<rparr>"

lemma closedRow_fields [simp]:
  "rr_id (closedRow st x ss r) = rr_id r" "rr_action (closedRow st x ss r) = rr_action r"
  "rr_targets (closedRow st x ss r) = rr_targets r" "rr_requester (closedRow st x ss r) = rr_requester r"
  "rr_state (closedRow st x ss r) = st" "rr_server_sig (closedRow st x ss r) = Some ss"
  "rr_closed_by (closedRow st x ss r) = map_option (\<lambda>x. (ad_decider x, ad_sig x)) x"
  by (simp_all add: closedRow_def)

lemma close_requests:
  assumes inv: "requestInv s d" and same: "db_requests d1 = db_requests d"
    and r: "r \<in> set (db_requests d)" "rr_id r = rq_id req" "rr_state r = adminStatePending"
    and cl: "closeAdminRequestTx req state decision ss d1 = Inr (req', d2)"
    and ok: "closedProperly s (closedRow state decision ss r)"
  shows "uniqueBy rr_id (db_requests d2)"
    and "q \<in> set (db_requests d2) \<Longrightarrow> closedProperly s q \<and> openedProperly s q"
    and "length (filter onLedger (db_requests d2)) =
      length (filter onLedger (db_requests d)) + (if onLedger (closedRow state decision ss r) then 1 else 0)"
proof -
  let ?p = "\<lambda>q. rr_id q = rq_id req \<and> rr_state q = adminStatePending"
  have "closedRow state decision ss = (\<lambda>r. r\<lparr>rr_state := state,
     rr_closed_by := map_option (\<lambda>x. (ad_decider x, ad_sig x)) decision, rr_server_sig := Some ss\<rparr>)"
    by (rule ext) (simp add: closedRow_def)
  then have d2: "db_requests d2 = updWhere ?p (closedRow state decision ss) (db_requests d)"
    using closeAdminRequestTx_Inr(2) [OF cl] same by simp
  have uni: "uniqueBy rr_id (db_requests d)" by (rule requestInvD(1) [OF inv])
  have only: "q = r" if "q \<in> set (db_requests d)" "?p q" for q
    using uniqueBy_inj [OF uni that(1) r(1)] that(2) r(2) by simp
  show "uniqueBy rr_id (db_requests d2)" using uni by (simp add: d2 map_updWhere)
  show "closedProperly s q \<and> openedProperly s q" if "q \<in> set (db_requests d2)"
  proof -
    obtain q0 where "q0 \<in> set (db_requests d)" "q = (if ?p q0 then closedRow state decision ss q0 else q0)"
      using \<open>q \<in> set (db_requests d2)\<close> unfolding d2 updWhere_def set_map by blast
    then consider "q \<in> set (db_requests d)" | "q = closedRow state decision ss r"
      using only [of q0] by (cases "?p q0") auto
    then show ?thesis
    proof cases
      case 1
      then show ?thesis using requestInvD(2,3) [OF inv] by simp
    next
      case 2
      then show ?thesis using ok requestInvD(3) [OF inv r(1)] by (simp add: openedProperly_def)
    qed
  qed
  show "length (filter onLedger (db_requests d2)) =
      length (filter onLedger (db_requests d)) + (if onLedger (closedRow state decision ss r) then 1 else 0)"
    unfolding d2 using uni r(1)
  proof (rule count_updWhere)
    show "?p r" using r by simp
    show "rr_id x = rr_id r" if "x \<in> set (db_requests d)" "?p x" for x using only [OF that] by simp
    show "\<not> onLedger r" using r(3) by (simp add: onLedger_def state_defs)
  qed
qed

lemma getAdminRequestQ_row:
  assumes "getAdminRequestQ d i = Some req"
  obtains r where "r \<in> set (db_requests d)" "rr_id r = i" "req = scanAdminRequest r"
  using assms by (auto simp: getAdminRequestQ_Some dest: rowBy_Some)

lemma scanAdminRequest_fields [simp]:
  "rq_id (scanAdminRequest r) = rr_id r" "rq_action (scanAdminRequest r) = rr_action r"
  "rq_requester (scanAdminRequest r) = rr_requester r" "rq_state (scanAdminRequest r) = rr_state r"
  "set (rq_targets (scanAdminRequest r)) = fst ` set (rr_targets r)"
  "set (rq_dropped (scanAdminRequest r)) = fst ` {t \<in> set (rr_targets r). snd t}"
  "length (rq_targets (scanAdminRequest r)) = length (rr_targets r)"
  by (auto simp: scanAdminRequest_def sortStrings_def)

lemma scanAdminRequest_no_targets: "rq_targets (scanAdminRequest r) = [] \<longleftrightarrow> rr_targets r = []"
  using scanAdminRequest_fields(7) [of r] by (metis length_0_conv)

lemma decide_inv:
  assumes inv: "requestInv (e_server_id E) d" and prep: "preparedFor E now0 d p"
    and com: "commitDecision E now (ad_decider (pr_decision p)) p d = Inr ((req, entry), d')"
  shows "requestInv (e_server_id E) d'"
proof -
  let ?s = "e_server_id E" and ?who = "ad_decider (pr_decision p)"
  let ?new = "closedRow (pr_state p) (Some (pr_decision p)) (pr_sig p)"
  obtain locked locked' d1 d2 where
    l: "getAdminRequestQ d (rq_id (pr_request p)) = Some locked" "rq_state locked = adminStatePending"
    and w: "ad_decision (pr_decision p) = adminDecisionWithdraw \<longrightarrow> ?who = rq_requester locked"
    and chk: "ad_decision (pr_decision p) \<noteq> adminDecisionWithdraw \<longrightarrow> checkDeciderQ d locked ?who ?s = None"
    and nex: "pr_executor p = None \<longrightarrow> locked' = locked \<and> d1 = d"
    and ex: "\<forall>ex. pr_executor p = Some ex \<longrightarrow> locked' = locked\<lparr>rq_decision := Some (pr_decision p)\<rparr> \<and>
       ax_validate ex d locked' = None \<and> ax_execute ex locked' d = Inr d1"
    and cl: "closeAdminRequestTx locked' (pr_state p) (Some (pr_decision p)) (pr_sig p) d1 = Inr (req, d2)"
    and noentry: "entry = None \<longrightarrow> d' = d2 \<and> (pr_state p \<noteq> adminStateExecuted \<or> rq_action req = adminActionUnicast)"
    and some: "\<forall>e. entry = Some e \<longrightarrow> pr_state p = adminStateExecuted \<and>
       (\<exists>e0. ledgerApprovedEntry req ?who (rebindKeyID E req) = Some e0 \<and> appendLedgerTx E now e0 d2 = Inr (e, d'))"
    by (rule commitDecision_Inr [OF com])
  obtain r where r: "r \<in> set (db_requests d)" "rr_id r = rq_id (pr_request p)" "locked = scanAdminRequest r"
    using l(1) by (rule getAdminRequestQ_row)
  have pend: "rr_state r = adminStatePending" using l(2) r(3) by simp
  have locked': "rq_id locked' = rr_id r" "rq_action locked' = rr_action r"
  proof -
    have "locked' = locked \<or> locked' = locked\<lparr>rq_decision := Some (pr_decision p)\<rparr>"
      using nex ex by (cases "pr_executor p") blast+
    then show "rq_id locked' = rr_id r" "rq_action locked' = rr_action r" using r(3) by auto
  qed
  note l = l and chk = chk [unfolded r(3)] and w = w [unfolded r(3)]
  have frame: "adminFrame d d1"
  proof (cases "pr_executor p")
    case None
    then show ?thesis using nex by (simp add: adminFrame_def)
  next
    case (Some x)
    then have "adminExecutorFor E now0 (rq_action (pr_request p)) = Some x"
      using prep by (simp add: preparedFor_def split: if_splits)
    then show ?thesis using ex [rule_format, OF Some] by (blast intro: executor_frame)
  qed
  have same: "db_requests d1 = db_requests d" "db_ledger d1 = db_ledger d" "db_ledger_seq d1 = db_ledger_seq d"
    using frame by (simp_all add: adminFrame_def)
  have state: "pr_state p = stateForDecision (ad_decision (pr_decision p))" "pr_state p \<noteq> ''''"
    using prep unfolding preparedFor_def by blast+
  have closed: "closedProperly ?s (?new r)"
  proof (cases "ad_decision (pr_decision p) = adminDecisionWithdraw")
    case True
    then have "pr_state p = adminStateWithdrawn" using state by (simp add: stateForDecision_def decision_defs)
    then show ?thesis using w True by (simp add: closedProperly_def state_defs)
  next
    case False
    note c = checkDeciderQ_None [OF chk [rule_format, OF False]]
    have "pr_state p \<in> {adminStateExecuted, adminStateRejected}"
      using state False by (auto simp: stateForDecision_def split: if_splits)
    moreover have "?who = rr_requester r \<longrightarrow> isRootIdentity ?who ?s" "?who \<notin> fst ` set (rr_targets r)"
      using c(2,3) by (simp_all add: isRoot_def)
    ultimately show ?thesis by (elim insertE; simp add: closedProperly_def state_defs)
  qed
  note reqs = close_requests [OF inv same(1) r(1) locked'(1) [symmetric] pend cl closed]
  have ledger2: "db_ledger d2 = db_ledger d" "db_ledger_seq d2 = db_ledger_seq d"
    using closeAdminRequestTx_Inr(2) [OF cl] same by simp_all
  then have linv2: "ledgerInv d2" by (rule ledgerInv_other [OF requestInvD(4) [OF inv]])
  have act: "rq_action req = rr_action r" using closeAdminRequestTx_Inr(1) [OF cl] locked' by simp
  have cnt: "length (filter (\<lambda>e. le_kind e = ledgerKindRequest) (db_ledger d)) =
      length (filter onLedger (db_requests d))"
    using inv by (simp add: requestInv_def)
  show ?thesis
  proof (cases entry)
    case None
    then have no: "d' = d2" "\<not> onLedger (?new r)" using noentry act by (auto simp: onLedger_def)
    show ?thesis unfolding no(1)
      by (rule requestInvI) (use reqs linv2 no(2) in \<open>simp_all add: ledger2 cnt\<close>)
  next
    case (Some e)
    then obtain e0 where e0: "ledgerApprovedEntry req ?who (rebindKeyID E req) = Some e0"
      "appendLedgerTx E now e0 d2 = Inr (e, d')" "pr_state p = adminStateExecuted"
      using some by blast
    obtain pid sig where d': "d' = d2\<lparr>db_ledger := db_ledger d2 @ [ledgerRowOf pid e], db_ledger_seq := Suc (db_ledger_seq d2)\<rparr>"
      and e: "e = e0\<lparr>en_id := Suc (db_ledger_seq d2), en_prev := (case pid of None \<Rightarrow> 0 | Some i \<Rightarrow> i),
        en_targets := sortStrings (en_targets e0), en_sig := sig\<rparr>"
      using e0(2) unfolding appendLedgerTx_def by (rule appendLedgerEntryTx_Inr) (rule that, assumption+)
    have kind: "en_kind e = en_kind e0" by (simp add: e)
    have k: "le_kind (ledgerRowOf pid e) = ledgerKindRequest"
      using kind ledgerApprovedEntry_Some [OF e0(1)] by (simp add: ledgerRowOf_def)
    have on: "onLedger (?new r)"
      using e0(1,3) act ledgerApprovedEntry_None [of req ?who "rebindKeyID E req"] by (auto simp: onLedger_def)
    have linv: "ledgerInv d'" using ledgerInv_append [OF linv2] e0(2) by (auto simp: appendLedgerTx_def)
    have rows: "db_requests d' = db_requests d2" "db_ledger d' = db_ledger d2 @ [ledgerRowOf pid e]"
      by (simp_all add: d')
    show ?thesis
      by (rule requestInvI) (use reqs linv on k in \<open>simp_all add: rows ledger2 cnt\<close>)
  qed
qed

lemma drop_inv:
  assumes inv: "requestInv s d" and "dropTargets u d = (ids, d')"
  shows "requestInv s d'"
proof -
  let ?f = "\<lambda>r. r\<lparr>rr_targets := map (\<lambda>(t, dr). (t, dr \<or> t = u)) (rr_targets r)\<rparr>"
  have d': "d' = d\<lparr>db_requests := updWhere (dropsTarget u) ?f (db_requests d)\<rparr>"
    using assms(2) by (simp add: dropTargets_def)
  have fsts: "map fst (map (\<lambda>(t, dr). (t, dr \<or> t = u)) ts) = map fst ts" for ts :: "(string \<times> bool) list"
    by (induction ts) auto
  have fsts': "fst ` (\<lambda>(t, dr). (t, dr \<or> t = u)) ` T = fst ` T" for T :: "(string \<times> bool) set"
    by force
  have len: "length (filter onLedger (updWhere (dropsTarget u) ?f t)) = length (filter onLedger t)" for t
    by (induction t) (auto simp: onLedger_def dropsTarget_def)
  show ?thesis
  proof (rule requestInvI)
    show "uniqueBy rr_id (db_requests d')" using requestInvD(1) [OF inv] by (simp add: d' map_updWhere)
    show "closedProperly s r" if "r \<in> set (db_requests d')" for r
      using that requestInvD(2) [OF inv]
      by (auto simp: d' set_updWhere dropsTarget_def closedProperly_def state_defs)
    show "openedProperly s r" if "r \<in> set (db_requests d')" for r
    proof -
      have "r \<in> set (updWhere (dropsTarget u) ?f (db_requests d))" using that by (simp add: d')
      then obtain q where q: "q \<in> set (db_requests d)" "r = q \<or> r = ?f q"
        unfolding set_updWhere by blast
      then show ?thesis
        using requestInvD(3) [OF inv q(1)]
        by (elim disjE; simp add: openedProperly_def fsts fsts' del: map_map)
    qed
    show "ledgerInv d'" using requestInvD(4) [OF inv] by (simp add: d' ledgerInv_other)
    show "length (filter (\<lambda>e. le_kind e = ledgerKindRequest) (db_ledger d')) =
        length (filter onLedger (db_requests d'))"
      using inv by (simp add: d' len requestInv_def)
  qed
qed

lemma commitMoot_Some:
  assumes "commitMoot i ss d = Inr (Some req, d')"
  obtains r where "r \<in> set (db_requests d)" "rr_id r = i" "rr_state r = adminStatePending"
    "remainingTargets (scanAdminRequest r) = []"
    "closeAdminRequestTx (scanAdminRequest r) adminStateMoot None ss d = Inr (req, d')"
  using assms
  by (auto simp: commitMoot_def bindR_Inr split: option.splits if_splits elim!: getAdminRequestQ_row)

lemma remainingTargets_scan:
  assumes "distinct (map fst (rr_targets r))"
  shows "remainingTargets (scanAdminRequest r) = [] \<longleftrightarrow> (\<forall>t \<in> set (rr_targets r). snd t)"
proof -
  have "t = u" if "t \<in> set (rr_targets r)" "u \<in> set (rr_targets r)" "fst t = fst u" for t u
    using assms that by (meson distinct_map inj_onD)
  then show ?thesis
    by (fastforce simp: remainingTargets_def filter_empty_conv image_iff)
qed

lemma moot_inv:
  assumes inv: "requestInv s d" and req0: "getAdminRequestQ d i = Some req0" "rq_targets req0 \<noteq> []"
    and com: "commitMoot i ss d = Inr (x, d')"
  shows "requestInv s d'"
proof (cases x)
  case None
  then have "d' = d" using com by (auto simp: commitMoot_def bindR_Inr split: option.splits if_splits)
  then show ?thesis using inv by simp
next
  case (Some req)
  obtain r where r: "r \<in> set (db_requests d)" "rr_id r = i" "rr_state r = adminStatePending"
    "remainingTargets (scanAdminRequest r) = []"
    and cl: "closeAdminRequestTx (scanAdminRequest r) adminStateMoot None ss d = Inr (req, d')"
    using com Some by (auto elim: commitMoot_Some)
  obtain r0 where "r0 \<in> set (db_requests d)" "rr_id r0 = i" "req0 = scanAdminRequest r0"
    using req0(1) by (rule getAdminRequestQ_row)
  then have "rr_targets r \<noteq> []"
    using req0(2) uniqueBy_inj [OF requestInvD(1) [OF inv] r(1)] r(2) scanAdminRequest_no_targets by metis
  then have "closedProperly s (closedRow adminStateMoot None ss r)"
    using r(4) requestInvD(3) [OF inv r(1)]
    by (auto simp: closedProperly_def openedProperly_def remainingTargets_scan state_defs)
  note reqs = close_requests [OF inv refl r(1) _ r(3) cl this]
  have "\<not> onLedger (closedRow adminStateMoot None ss r)" by (simp add: onLedger_def state_defs)
  then show ?thesis
    using reqs closeAdminRequestTx_Inr(2) [OF cl] inv
    by (auto intro!: requestInvI simp: requestInv_def ledgerInv_def)
qed

inductive_cases requestStepE: "requestStep E d d'"

interpretation requests: transition_system "requestStep E" "requestInv (e_server_id E)" for E
proof
  fix d d'
  assume inv: "requestInv (e_server_id E) d" and "requestStep E d d'"
  from this(2) show "requestInv (e_server_id E) d'"
  proof (cases rule: requestStep.cases)
    case (decideRequest now0 p now r)
    then show ?thesis using decide_inv [OF inv] by (cases r) auto
  next
    case otherTransaction
    then show ?thesis using inv by (auto simp: requestInv_def)
  qed (auto intro: open_inv [OF inv] drop_inv [OF inv] moot_inv [OF inv])
qed

subsection \<open>Requests are never deleted, reopened or decided twice\<close>

text \<open>What every step keeps of a request; a closed one is kept whole.\<close>

definition requestKept :: "requestRow \<Rightarrow> requestRow \<Rightarrow> bool" where
  "requestKept r r' \<longleftrightarrow> rr_id r' = rr_id r \<and> rr_action r' = rr_action r \<and>
     rr_requester r' = rr_requester r \<and> rr_reason r' = rr_reason r \<and> rr_created r' = rr_created r \<and>
     rr_sig r' = rr_sig r \<and> rr_opened r' = rr_opened r \<and> rr_body r' = rr_body r \<and>
     map fst (rr_targets r') = map fst (rr_targets r) \<and>
     (\<forall>t. (t, True) \<in> set (rr_targets r) \<longrightarrow> (t, True) \<in> set (rr_targets r')) \<and>
     (rr_state r \<noteq> adminStatePending \<longrightarrow> r' = r)"

lemma requestKept_refl [simp]: "requestKept r r"
  by (simp add: requestKept_def)

lemma requestKept_trans: "requestKept r q \<Longrightarrow> requestKept q p \<Longrightarrow> requestKept r p"
  unfolding requestKept_def by (metis (no_types))

definition requestsKept :: "db \<Rightarrow> db \<Rightarrow> bool" where
  "requestsKept d d' \<longleftrightarrow> (\<forall>r \<in> set (db_requests d). \<exists>r' \<in> set (db_requests d'). requestKept r r')"

lemma requestsKept_subset: "set (db_requests d) \<subseteq> set (db_requests d') \<Longrightarrow> requestsKept d d'"
  unfolding requestsKept_def using requestKept_refl by blast

lemma requestsKept_refl: "db_requests d' = db_requests d \<Longrightarrow> requestsKept d d'"
  by (rule requestsKept_subset) simp

lemma requestsKept_trans: "requestsKept d e \<Longrightarrow> requestsKept e f \<Longrightarrow> requestsKept d f"
  unfolding requestsKept_def by (meson requestKept_trans)

lemma requestsKept_upd:
  assumes "db_requests d' = updWhere p f (db_requests d)" and "\<And>r. p r \<Longrightarrow> requestKept r (f r)"
  shows "requestsKept d d'"
  unfolding requestsKept_def
proof
  fix r assume "r \<in> set (db_requests d)"
  then have "(if p r then f r else r) \<in> set (db_requests d')" by (simp add: assms(1) updWhere_def)
  moreover have "requestKept r (if p r then f r else r)" using assms(2) by simp
  ultimately show "\<exists>r' \<in> set (db_requests d'). requestKept r r'" by blast
qed

lemma requestsKept_close:
  assumes "closeAdminRequestTx req state decision ss d = Inr (req', d')"
  shows "requestsKept d d'"
proof (rule requestsKept_upd)
  let ?f = "\<lambda>r. r\<lparr>rr_state := state, rr_closed_by := map_option (\<lambda>x. (ad_decider x, ad_sig x)) decision,
     rr_server_sig := Some ss\<rparr>"
  show "db_requests d' = updWhere (\<lambda>r. rr_id r = rq_id req \<and> rr_state r = adminStatePending) ?f (db_requests d)"
    by (simp add: closeAdminRequestTx_Inr(2) [OF assms])
  show "requestKept r (?f r)" if "rr_id r = rq_id req \<and> rr_state r = adminStatePending" for r
    using that by (simp add: requestKept_def)
qed

lemma commitDecision_kept:
  assumes prep: "preparedFor E now0 d p" and com: "commitDecision E now c p d = Inr ((req, entry), d')"
  shows "requestsKept d d'"
proof -
  obtain locked locked' d1 d2 where
    nex: "pr_executor p = None \<longrightarrow> locked' = locked \<and> d1 = d"
    and ex: "\<forall>ex. pr_executor p = Some ex \<longrightarrow> locked' = locked\<lparr>rq_decision := Some (pr_decision p)\<rparr> \<and>
       ax_validate ex d locked' = None \<and> ax_execute ex locked' d = Inr d1"
    and cl: "closeAdminRequestTx locked' (pr_state p) (Some (pr_decision p)) (pr_sig p) d1 = Inr (req, d2)"
    and no: "entry = None \<longrightarrow> d' = d2 \<and> (pr_state p \<noteq> adminStateExecuted \<or> rq_action req = adminActionUnicast)"
    and some: "\<forall>e. entry = Some e \<longrightarrow> pr_state p = adminStateExecuted \<and>
       (\<exists>e0. ledgerApprovedEntry req c (rebindKeyID E req) = Some e0 \<and> appendLedgerTx E now e0 d2 = Inr (e, d'))"
    by (rule commitDecision_Inr [OF com])
  have "db_requests d1 = db_requests d"
  proof (cases "pr_executor p")
    case (Some x)
    then have "adminExecutorFor E now0 (rq_action (pr_request p)) = Some x"
      using prep by (simp add: preparedFor_def split: if_splits)
    then show ?thesis using executor_frame ex [rule_format, OF Some] by (blast intro: adminFrame_def [THEN iffD1, THEN conjunct1])
  qed (use nex in simp)
  moreover have "db_requests d' = db_requests d2"
  proof (cases entry)
    case (Some e)
    then obtain e0 where "appendLedgerTx E now e0 d2 = Inr (e, d')" using some by blast
    then show ?thesis unfolding appendLedgerTx_def by (rule appendLedgerEntryTx_Inr) simp
  qed (use no in simp)
  ultimately show ?thesis
    using requestsKept_close [OF cl] by (meson requestsKept_refl requestsKept_trans)
qed

lemma requestStep_kept:
  assumes "requestStep E d d'"
  shows "requestsKept d d'"
  using assms
proof (cases rule: requestStep.cases)
  case (openRequest now caller msg d0 req u)
  then show ?thesis
    by (intro requestsKept_subset) (auto simp: insertAdminRequestTx_def split: if_splits)
next
  case (decideRequest now0 p now r)
  then show ?thesis by (cases r) (auto intro: commitDecision_kept)
next
  case (dropTarget u ids)
  have fsts: "map fst (map (\<lambda>(t, dr). (t, dr \<or> t = u)) ts) = map fst ts" for ts :: "(string \<times> bool) list"
    by (induction ts) auto
  show ?thesis
  proof (rule requestsKept_upd)
    show "db_requests d' = updWhere (dropsTarget u)
        (\<lambda>r. r\<lparr>rr_targets := map (\<lambda>(t, dr). (t, dr \<or> t = u)) (rr_targets r)\<rparr>) (db_requests d)"
      using dropTarget by (auto simp: dropTargets_def)
    show "requestKept r (r\<lparr>rr_targets := map (\<lambda>(t, dr). (t, dr \<or> t = u)) (rr_targets r)\<rparr>)"
      if "dropsTarget u r" for r
      using that fsts [of "rr_targets r"] by (force simp: requestKept_def dropsTarget_def simp del: map_map)
  qed
next
  case (mootRequest i req0 ss r)
  then show ?thesis
    by (auto simp: commitMoot_def bindR_Inr split: option.splits if_splits
        intro: requestsKept_refl requestsKept_close)
qed (rule requestsKept_refl)

lemma preparedFor_kept: "preparedFor E now d p \<Longrightarrow> requestsKept d d' \<Longrightarrow> preparedFor E now d' p"
  unfolding preparedFor_def requestsKept_def requestKept_def by (elim conjE, intro conjI) metis+

lemma reachable_kept:
  assumes "(requestStep E)\<^sup>*\<^sup>* d d'"
  shows "requestsKept d d'"
  using assms by (induction rule: rtranclp_induct)
    (auto intro: requestsKept_refl requestsKept_trans requestStep_kept)

subsection \<open>The handlers are steps\<close>

lemma prepareDecision_Inr:
  assumes "prepareDecision E now caller reqID msg d = Inr p"
  obtains callerID key where
    "caller = Some callerID" "callerID \<noteq> ''''" "msg = Some (pr_decision p)"
    "ad_decider (pr_decision p) = callerID" "getAdminRequestQ d reqID = Some (pr_request p)"
    "rq_state (pr_request p) = adminStatePending" "\<not> openedBeforeRecovery E d (pr_request p)"
    "callerSigningKey d (us_id (ad_sig (pr_decision p))) callerID = Inr key"
    "e_verify E (buildAdminDecisionPayload (e_jcs E) (rq_id (pr_request p)) (ad_decision (pr_decision p)) callerID
       (us_id (ad_sig (pr_decision p))) (us_armor (rq_sig (pr_request p))))
       (us_armor (ad_sig (pr_decision p))) (key_armor key)"
    "pr_state p = stateForDecision (ad_decision (pr_decision p))" "pr_state p \<noteq> ''''"
    "pr_executor p = (if ad_decision (pr_decision p) = adminDecisionApprove
       then adminExecutorFor E now (rq_action (pr_request p)) else None)"
    "ad_decision (pr_decision p) = adminDecisionApprove \<longrightarrow> pr_executor p \<noteq> None"
proof -
  obtain c where c: "caller = Some c" "c \<noteq> ''''"
    using assms by (cases caller) (auto simp: prepareDecision_def bindR_Inr adminCaller_def split: if_splits)
  obtain x where m: "msg = Some x"
    using assms c by (cases msg) (auto simp: prepareDecision_def bindR_Inr adminCaller_def split: if_splits)
  note step = assms [unfolded prepareDecision_def c(1) m]
  obtain req where req: "getAdminRequestQ d reqID = Some req" "rq_state req = adminStatePending"
    "\<not> openedBeforeRecovery E d req" "stateForDecision (ad_decision x) \<noteq> ''''" "ad_decider x = c"
    using step c(2) by (auto simp: adminCaller_def Let_def split: if_splits option.splits)
  obtain key where k: "callerSigningKey d (us_id (ad_sig x)) c = Inr key"
    "e_verify E (buildAdminDecisionPayload (e_jcs E) (rq_id req) (ad_decision x) c
       (us_id (ad_sig x)) (us_armor (rq_sig req))) (us_armor (ad_sig x)) (key_armor key)"
    using step c(2) req by (auto simp: adminCaller_def Let_def split: if_splits sum.splits)
  have "pr_request p = req" "pr_decision p = x" "pr_state p = stateForDecision (ad_decision x)"
    "pr_executor p = (if ad_decision x = adminDecisionApprove
       then adminExecutorFor E now (rq_action req) else None)"
    "ad_decision x = adminDecisionApprove \<longrightarrow> pr_executor p \<noteq> None"
    using step c(2) req k by (auto simp: adminCaller_def Let_def split: if_splits sum.splits)
  with c m req k show thesis by (intro that [of c key]) simp_all
qed

lemma prepareDecision_fits:
  assumes "prepareDecision E now caller reqID msg d = Inr p"
  shows "preparedFor E now d p"
  using assms
proof (rule prepareDecision_Inr)
  fix c key
  assume r: "getAdminRequestQ d reqID = Some (pr_request p)"
    and f: "pr_state p = stateForDecision (ad_decision (pr_decision p))" "pr_state p \<noteq> ''''"
      "pr_executor p = (if ad_decision (pr_decision p) = adminDecisionApprove
         then adminExecutorFor E now (rq_action (pr_request p)) else None)"
      "ad_decision (pr_decision p) = adminDecisionApprove \<longrightarrow> pr_executor p \<noteq> None"
  obtain row where "row \<in> set (db_requests d)" "rr_id row = rq_id (pr_request p)" "rr_action row = rq_action (pr_request p)"
    using r by (rule getAdminRequestQ_row) simp
  then show ?thesis using f unfolding preparedFor_def by blast
qed

lemma adminCaller_Fail: "adminCaller d c = Inl a \<Longrightarrow> \<exists>st re. a = Fail st re"
  by (auto simp: adminCaller_def split: option.splits if_splits)

lemma writeAdminError_Fail: "\<exists>st re. writeAdminError e = Fail st re"
  by (cases e) auto

lemma prepareOpen_Fail: "prepareOpen E now caller msg d = Inl a \<Longrightarrow> \<exists>st re. a = Fail st re"
proof (cases "adminCaller d caller :: adminRequest answer + _")
  case (Inl x)
  then show "prepareOpen E now caller msg d = Inl a \<Longrightarrow> ?thesis"
    using adminCaller_Fail [OF Inl] by (simp add: prepareOpen_def)
next
  case (Inr c)
  then show "prepareOpen E now caller msg d = Inl a \<Longrightarrow> ?thesis"
    by (cases c) (simp add: prepareOpen_def Let_def split: sum.splits option.splits if_splits;
      metis writeAdminError_Fail)
qed

lemma prepareDecision_Fail: "prepareDecision E now caller i msg d = Inl a \<Longrightarrow> \<exists>st re. a = Fail st re"
proof (cases "adminCaller d caller :: adminRequest answer + _")
  case (Inl x)
  then show "prepareDecision E now caller i msg d = Inl a \<Longrightarrow> ?thesis"
    using adminCaller_Fail [OF Inl] by (simp add: prepareDecision_def)
next
  case (Inr c)
  then show "prepareDecision E now caller i msg d = Inl a \<Longrightarrow> ?thesis"
    by (cases c) (simp add: prepareDecision_def Let_def split: sum.splits option.splits if_splits;
      metis writeAdminError_Fail)
qed

lemma openAdminRequest_step:
  assumes "openAdminRequest E now caller msg d = (a, d', fx)"
  shows "(\<exists>st re. a = Fail st re) \<and> d' = d \<and> fx = [] \<or>
     (\<exists>req. prepareOpen E now caller msg d = Inr req \<and> insertAdminRequestTx req d = Inr ((), d') \<and>
        a = Done 201 req \<and> fx = [PushAdminRecord (RecRequest req)])"
proof (cases "prepareOpen E now caller msg d")
  case (Inl x)
  then show ?thesis using assms prepareOpen_Fail [OF Inl] by (simp add: openAdminRequest_def)
next
  case (Inr req)
  show ?thesis
  proof (cases "insertAdminRequestTx req d")
    case (Inl e)
    then show ?thesis using assms Inr
      by (cases e) (auto simp: openAdminRequest_def withAdminTx_def split: if_splits)
  next
    case (Inr r)
    then show ?thesis using assms \<open>prepareOpen E now caller msg d = Inr req\<close>
      by (cases r) (auto simp: openAdminRequest_def withAdminTx_def)
  qed
qed

lemma decideAdminRequest_step:
  assumes "decideAdminRequest E now caller i msg d = (a, d', fx)"
  shows "(\<exists>st re. a = Fail st re) \<and> d' = d \<and> fx = [] \<or>
     (\<exists>p req entry. prepareDecision E now caller i msg d = Inr p \<and>
        commitDecision E now (ad_decider (pr_decision p)) p d = Inr ((req, entry), d') \<and> a = Done 200 req)"
proof (cases "prepareDecision E now caller i msg d")
  case (Inl x)
  then show ?thesis using assms prepareDecision_Fail [OF Inl] by (simp add: decideAdminRequest_def)
next
  case (Inr p)
  show ?thesis
  proof (cases "commitDecision E now (ad_decider (pr_decision p)) p d")
    case (Inl e)
    then show ?thesis using assms Inr
      by (cases e) (auto simp: decideAdminRequest_def withAdminTx_def)
  next
    case (Inr r)
    then show ?thesis using assms \<open>prepareDecision E now caller i msg d = Inr p\<close>
      by (cases r) (auto simp: decideAdminRequest_def withAdminTx_def split: prod.splits)
  qed
qed

lemma closeIfMoot_step:
  assumes "closeIfMoot E now i d = (d', fx)"
  shows "(requestStep E)\<^sup>*\<^sup>* d d'"
proof (cases "\<exists>ss. prepareMoot E now i d = Inr (Some ss)")
  case True
  then obtain ss where ss: "prepareMoot E now i d = Inr (Some ss)" by blast
  then obtain req where req: "getAdminRequestQ d i = Some req" "rq_targets req \<noteq> []"
    by (auto simp: prepareMoot_def split: option.splits if_splits)
  show ?thesis
  proof (cases "commitMoot i ss d")
    case (Inl e)
    then show ?thesis using assms ss by (auto simp: closeIfMoot_def withAdminTx_def)
  next
    case (Inr r)
    then have "commitMoot i ss d = Inr (fst r, d')" using assms ss
      by (cases r; cases "fst r") (auto simp: closeIfMoot_def withAdminTx_def)
    then show ?thesis using req by (blast intro: requestStep.mootRequest)
  qed
next
  case False
  then have "d' = d" using assms by (auto simp: closeIfMoot_def split: sum.splits option.splits)
  then show ?thesis by simp
qed

lemma dropFromAdminRequests_step:
  assumes "dropFromAdminRequests E now u d = (d', fx)"
  shows "(requestStep E)\<^sup>*\<^sup>* d d'"
proof -
  obtain ids d1 where d1: "dropTargets u d = (ids, d1)" by fastforce
  let ?f = "\<lambda>i (d, fx). let (d', fx') = closeIfMoot E now i d in (d', fx @ fx')"
  have loop: "(requestStep E)\<^sup>*\<^sup>* d1 (fst (fold ?f is (d1, fx1)))" for "is" d1 and fx1 :: "effect list"
  proof (induction "is" arbitrary: d1 fx1)
    case (Cons i "is")
    obtain d2 fx2 where c: "closeIfMoot E now i d1 = (d2, fx2)" by fastforce
    have "(requestStep E)\<^sup>*\<^sup>* d2 (fst (fold ?f is (d2, fx1 @ fx2)))" by (rule Cons.IH)
    then show ?case using closeIfMoot_step [OF c] c by simp
  qed simp
  have "d' = fst (fold ?f ids (d1, []))" using assms d1 by (simp add: dropFromAdminRequests_def)
  moreover have "requestStep E d d1" using d1 by (rule requestStep.dropTarget)
  ultimately show ?thesis using loop [of d1 ids "[]"] by (simp add: converse_rtranclp_into_rtranclp)
qed

text \<open>What a client or another handler calls, in any order.\<close>

inductive adminCall :: "env \<Rightarrow> db \<Rightarrow> db \<Rightarrow> bool" for E where
  callOpen: "openAdminRequest E now caller msg d = (a, d', fx) \<Longrightarrow> adminCall E d d'"
| callDecide: "decideAdminRequest E now caller i decision d = (a, d', fx) \<Longrightarrow> adminCall E d d'"
| callDrop: "dropFromAdminRequests E now u d = (d', fx) \<Longrightarrow> adminCall E d d'"

lemma adminCall_steps: "adminCall E d d' \<Longrightarrow> (requestStep E)\<^sup>*\<^sup>* d d'"
proof (induction rule: adminCall.induct)
  case (callOpen now caller msg d a d' fx)
  then show ?case using openAdminRequest_step [OF callOpen] by (blast intro: requestStep.openRequest)
next
  case (callDecide now caller i decision d a d' fx)
  then show ?case using decideAdminRequest_step [OF callDecide]
    by (blast intro: requestStep.decideRequest dest: prepareDecision_fits)
qed (rule dropFromAdminRequests_step)

lemma adminCalls_steps: "(adminCall E)\<^sup>*\<^sup>* d d' \<Longrightarrow> (requestStep E)\<^sup>*\<^sup>* d d'"
  by (induction rule: rtranclp_induct) (auto dest: adminCall_steps)

end
