(* ===== verification/Authority.thy ===== *)
theory Authority
  imports AdminSafety
begin

text \<open>
  What an approval can change of the users' authority.  A permission is only ever given by a promotion
  or a permission change, out of what its approver holds; a role changes only for the target of a
  promotion, a permission change or a demotion, so never for root.
\<close>

subsection \<open>Permissions and roles under the executors\<close>

lemma userRoleQ_of:
  assumes "map u_id (db_users d') = map u_id (db_users d)" "map u_role (db_users d') = map u_role (db_users d)"
  shows "userRoleQ d' v = userRoleQ d v"
proof -
  have "map_option u_role (rowBy u_id v t') = map_option u_role (rowBy u_id v t)"
    if "map u_id t' = map u_id t" "map u_role t' = map u_role t" for t t'
    using that
  proof (induction t arbitrary: t')
    case (Cons r t)
    then show ?case by (cases t') auto
  qed simp
  from this [OF assms] show ?thesis
    by (auto simp: userRoleQ_def userRow_def split: option.splits)
qed

definition sameAuthority :: "db \<Rightarrow> db \<Rightarrow> bool" where
  "sameAuthority d d' \<longleftrightarrow> db_permissions d' = db_permissions d \<and> (\<forall>v. userRoleQ d' v = userRoleQ d v)"

lemma sameAuthority_refl [simp]: "sameAuthority d d"
  by (simp add: sameAuthority_def)

lemma sameAuthority_trans: "sameAuthority d e \<Longrightarrow> sameAuthority e f \<Longrightarrow> sameAuthority d f"
  by (simp add: sameAuthority_def)

lemma sameAuthority_updUser:
  assumes "\<And>r. u_id (f r) = u_id r" "\<And>r. u_role (f r) = u_role r"
  shows "sameAuthority d (updUser t f d)"
  using userRoleQ_of [of "updUser t f d" d] assms
  by (simp add: sameAuthority_def updUser_def map_updWhere)

lemma sameAuthority_revokeInvites: "sameAuthority d (revokeInvites p u now d)"
  by (simp add: sameAuthority_def revokeInvites_def userRoleQ_def userRow_def)

lemma sameAuthority_kickTarget:
  assumes "kickTarget E now req t d = Inr d'"
  shows "sameAuthority d d'"
proof -
  obtain cert x d1 where st: "storeAccountRemovalTx E cert t d = Inr (x, d1)"
    and d': "d' = revokeInvites (\<lambda>_. True) t (truncateSecond now) d1"
    using assms by (auto simp: kickTarget_def Let_def bindR_Inr)
  have "sameAuthority d d1"
    using storeAccountRemovalTx_fields [OF st] userRoleQ_of [of d1 d] by (simp add: sameAuthority_def)
  then show ?thesis unfolding d' by (rule sameAuthority_trans) (rule sameAuthority_revokeInvites)
qed

lemma sameAuthority_forEach:
  assumes "forEach f ts d = Inr d'" and "\<And>t d d'. f t d = Inr d' \<Longrightarrow> sameAuthority d d'"
  shows "sameAuthority d d'"
  using assms(1) by (rule forEach_rel) (auto intro: sameAuthority_trans assms(2))

lemma sameAuthority_rebind:
  assumes "rebindExecute E now req d = Inr d'"
  shows "sameAuthority d d'"
proof -
  obtain target revoked revs ks where
    d': "d' = revokeInvites (\<lambda>_. True) target (truncateSecond now)
        (updUser target (\<lambda>r. r\<lparr>u_active_key := Some (rebindKeyID E req)\<rparr>)
          ((enqueuePeerEventTx peerEventKeyRevocation revoked d)\<lparr>db_key_revocations := revs, db_keys := ks\<rparr>))"
    using assms by (rule rebindExecute_Inr) blast
  have "sameAuthority d ((enqueuePeerEventTx peerEventKeyRevocation revoked d)\<lparr>db_key_revocations := revs, db_keys := ks\<rparr>)"
    using arg_cong [OF enqueuePeerEventTx_frame, of db_permissions]
    by (simp add: sameAuthority_def userRoleQ_def userRow_def)
  moreover have "sameAuthority e (updUser target (\<lambda>r. r\<lparr>u_active_key := Some (rebindKeyID E req)\<rparr>) e)" for e
    by (rule sameAuthority_updUser) simp_all
  ultimately show ?thesis unfolding d' by (blast intro: sameAuthority_trans sameAuthority_revokeInvites)
qed

text \<open>Every executor leaves authority alone but the three that set a profile's role and permissions.\<close>

lemma executor_authority:
  assumes ex: "adminExecutorFor E now a = Some ex" and run: "ax_execute ex req d = Inr d'"
  obtains "sameAuthority d d'"
  | u perms where "a = adminActionPromote \<or> a = adminActionPermissions" "firstTarget req = Inr u"
      "parsePermissionSet (rq_body req) = Inr perms" "recountersignProfileTx E now u roleAdmin perms d = Inr d'"
  | u d1 where "a = adminActionDemote" "firstTarget req = Inr u"
      "recountersignProfileTx E now u roleUser [] d = Inr d1" "sameAuthority d1 d'"
proof -
  consider "a = adminActionPromote" | "a = adminActionPermissions" | "a = adminActionDemote"
    | "a \<noteq> adminActionPromote" "a \<noteq> adminActionPermissions" "a \<noteq> adminActionDemote"
    by blast
  then show thesis
  proof cases
    case 1
    then have "ex = promoteExecutor E now" using ex by (simp add: adminExecutorFor_def action_defs)
    then show ?thesis using run 1 by (auto simp: promoteExecutor_def bindR_Inr split: sum.splits intro: that(2))
  next
    case 2
    then have "ex = permissionsExecutor E now" using ex by (simp add: adminExecutorFor_def action_defs)
    then show ?thesis using run 2 by (auto simp: permissionsExecutor_def bindR_Inr split: sum.splits intro: that(2))
  next
    case 3
    then have "ex = demoteExecutor E now" using ex by (simp add: adminExecutorFor_def action_defs)
    then show ?thesis using run 3
      by (auto simp: demoteExecutor_def bindR_Inr intro!: that(3) sameAuthority_revokeInvites)
  next
    case 4
    have upd: "sameAuthority d d'" if "forEach (\<lambda>t d. Inr (updUser t f d) :: err + db) ts d = Inr d'"
      "\<And>r. u_id (f r) = u_id r" "\<And>r. u_role (f r) = u_role r" for f ts
      using that(1) by (rule sameAuthority_forEach) (auto intro!: sameAuthority_updUser that(2,3))
    have "sameAuthority d d'"
      using ex run 4
      by (auto simp: adminExecutorFor_def suspendExecutor_def reinstateExecutor_def kickExecutor_def
          rebindExecutor_def invitesExecutor_def broadcastExecutor_def unicastExecutor_def
          split: if_splits intro: upd sameAuthority_rebind sameAuthority_forEach [OF _ sameAuthority_kickTarget])
    then show ?thesis by (rule that(1))
  qed
qed

lemma firstTarget_in: "firstTarget req = Inr u \<Longrightarrow> u \<in> set (rq_targets req)"
  by (auto simp: firstTarget_def split: list.splits)

subsection \<open>What a committed decision changes\<close>

text \<open>Closing a request and recording it touch only the requests and the ledger.\<close>

definition onlyRecords :: "db \<Rightarrow> db \<Rightarrow> bool" where
  "onlyRecords d d' \<longleftrightarrow> d' = d\<lparr>db_requests := db_requests d', db_ledger := db_ledger d',
     db_ledger_seq := db_ledger_seq d'\<rparr>"

lemma onlyRecords_refl [simp]: "onlyRecords d d"
  by (simp add: onlyRecords_def)

lemma onlyRecords_trans: "onlyRecords d e \<Longrightarrow> onlyRecords e f \<Longrightarrow> onlyRecords d f"
  unfolding onlyRecords_def by (cases d; cases e; cases f) simp

lemma onlyRecords_fields:
  assumes "onlyRecords d d'"
  shows "db_users d' = db_users d" "db_removals d' = db_removals d" "db_permissions d' = db_permissions d"
    "db_keys d' = db_keys d" "db_key_revocations d' = db_key_revocations d" "db_invites d' = db_invites d"
  using arg_cong [OF assms [unfolded onlyRecords_def], of db_users]
    arg_cong [OF assms [unfolded onlyRecords_def], of db_removals]
    arg_cong [OF assms [unfolded onlyRecords_def], of db_permissions]
    arg_cong [OF assms [unfolded onlyRecords_def], of db_keys]
    arg_cong [OF assms [unfolded onlyRecords_def], of db_key_revocations]
    arg_cong [OF assms [unfolded onlyRecords_def], of db_invites]
  by simp_all

lemma onlyRecords_authority: "onlyRecords d d' \<Longrightarrow> sameAuthority d d'"
  using onlyRecords_fields(1,3) [of d d'] by (simp add: sameAuthority_def userRoleQ_def userRow_def)

lemma close_onlyRecords:
  assumes "closeAdminRequestTx req state x ss d = Inr (req', d')"
  shows "onlyRecords d d'"
  by (simp add: closeAdminRequestTx_Inr(2) [OF assms] onlyRecords_def)

lemma append_onlyRecords:
  assumes "appendLedgerTx E now e0 d = Inr (e, d')"
  shows "onlyRecords d d'"
  using assms unfolding appendLedgerTx_def by (rule appendLedgerEntryTx_Inr) (simp add: onlyRecords_def)

text \<open>The executor a commit runs is that of the stored request's action, on the stored request.\<close>

lemma commit_runs:
  assumes inv: "requestInv s d" and prep: "preparedFor E now0 d p"
    and com: "commitDecision E now c p d = Inr ((req, entry), d')"
  obtains locked where "getAdminRequestQ d (rq_id (pr_request p)) = Some locked"
    "rq_state locked = adminStatePending"
    "ad_decision (pr_decision p) \<noteq> adminDecisionWithdraw \<longrightarrow> checkDeciderQ d locked c (e_server_id E) = None"
    "ad_decision (pr_decision p) \<noteq> adminDecisionApprove \<longrightarrow> onlyRecords d d'"
    "ad_decision (pr_decision p) = adminDecisionApprove \<longrightarrow>
       (\<exists>ex d1. adminExecutorFor E now0 (rq_action locked) = Some ex \<and>
          ax_validate ex d (locked\<lparr>rq_decision := Some (pr_decision p)\<rparr>) = None \<and>
          ax_execute ex (locked\<lparr>rq_decision := Some (pr_decision p)\<rparr>) d = Inr d1 \<and> onlyRecords d1 d')"
proof -
  obtain locked locked' d1 d2 where
    l: "getAdminRequestQ d (rq_id (pr_request p)) = Some locked" "rq_state locked = adminStatePending"
    and chk: "ad_decision (pr_decision p) \<noteq> adminDecisionWithdraw \<longrightarrow> checkDeciderQ d locked c (e_server_id E) = None"
    and nex: "pr_executor p = None \<longrightarrow> locked' = locked \<and> d1 = d"
    and ex: "\<forall>ex. pr_executor p = Some ex \<longrightarrow> locked' = locked\<lparr>rq_decision := Some (pr_decision p)\<rparr> \<and>
       ax_validate ex d locked' = None \<and> ax_execute ex locked' d = Inr d1"
    and cl: "closeAdminRequestTx locked' (pr_state p) (Some (pr_decision p)) (pr_sig p) d1 = Inr (req, d2)"
    and noentry: "entry = None \<longrightarrow> d' = d2 \<and> (pr_state p \<noteq> adminStateExecuted \<or> rq_action req = adminActionUnicast)"
    and some: "\<forall>e. entry = Some e \<longrightarrow> pr_state p = adminStateExecuted \<and>
       (\<exists>e0. ledgerApprovedEntry req c (rebindKeyID E req) = Some e0 \<and> appendLedgerTx E now e0 d2 = Inr (e, d'))"
    by (rule commitDecision_Inr [OF com])
  have "onlyRecords d2 d'"
    using noentry some append_onlyRecords by (cases entry) auto
  then have tail: "onlyRecords d1 d'" by (rule onlyRecords_trans [OF close_onlyRecords [OF cl]])
  obtain r where r: "r \<in> set (db_requests d)" "rr_id r = rq_id (pr_request p)" "locked = scanAdminRequest r"
    using l(1) by (rule getAdminRequestQ_row)
  obtain q where "q \<in> set (db_requests d)" "rr_id q = rq_id (pr_request p)" "rr_action q = rq_action (pr_request p)"
    using prep unfolding preparedFor_def by blast
  then have act: "rq_action locked = rq_action (pr_request p)"
    using uniqueBy_inj [OF requestInvD(1) [OF inv] r(1)] r by auto
  have pex: "pr_executor p = (if ad_decision (pr_decision p) = adminDecisionApprove
       then adminExecutorFor E now0 (rq_action locked) else None)"
    "ad_decision (pr_decision p) = adminDecisionApprove \<longrightarrow> pr_executor p \<noteq> None"
    using prep unfolding preparedFor_def act by blast+
  show thesis
  proof (rule that [OF l chk])
    show "ad_decision (pr_decision p) \<noteq> adminDecisionApprove \<longrightarrow> onlyRecords d d'"
      using pex nex tail by auto
    show "ad_decision (pr_decision p) = adminDecisionApprove \<longrightarrow>
       (\<exists>ex d1. adminExecutorFor E now0 (rq_action locked) = Some ex \<and>
          ax_validate ex d (locked\<lparr>rq_decision := Some (pr_decision p)\<rparr>) = None \<and>
          ax_execute ex (locked\<lparr>rq_decision := Some (pr_decision p)\<rparr>) d = Inr d1 \<and> onlyRecords d1 d')"
    proof
      assume a: "ad_decision (pr_decision p) = adminDecisionApprove"
      then obtain x where x: "pr_executor p = Some x" using pex(2) by auto
      then have "adminExecutorFor E now0 (rq_action locked) = Some x" using pex(1) a by simp
      then show "\<exists>ex d1. adminExecutorFor E now0 (rq_action locked) = Some ex \<and>
          ax_validate ex d (locked\<lparr>rq_decision := Some (pr_decision p)\<rparr>) = None \<and>
          ax_execute ex (locked\<lparr>rq_decision := Some (pr_decision p)\<rparr>) d = Inr d1 \<and> onlyRecords d1 d'"
        using ex [rule_format, OF x] tail by blast
    qed
  qed
qed

text \<open>A commit leaves its request closed in the decision's state.\<close>

lemma commit_closes:
  assumes "commitDecision E now c p d = Inr ((req, entry), d')"
  shows "\<exists>r \<in> set (db_requests d'). rr_id r = rq_id (pr_request p) \<and> rr_state r = pr_state p \<and>
    rr_closed_by r = Some (ad_decider (pr_decision p), ad_sig (pr_decision p))"
proof -
  obtain locked locked' d1 d2 where
    l: "getAdminRequestQ d (rq_id (pr_request p)) = Some locked"
    and nex: "pr_executor p = None \<longrightarrow> locked' = locked \<and> d1 = d"
    and ex: "\<forall>ex. pr_executor p = Some ex \<longrightarrow> locked' = locked\<lparr>rq_decision := Some (pr_decision p)\<rparr> \<and>
       ax_validate ex d locked' = None \<and> ax_execute ex locked' d = Inr d1"
    and cl: "closeAdminRequestTx locked' (pr_state p) (Some (pr_decision p)) (pr_sig p) d1 = Inr (req, d2)"
    and noentry: "entry = None \<longrightarrow> d' = d2 \<and> (pr_state p \<noteq> adminStateExecuted \<or> rq_action req = adminActionUnicast)"
    and some: "\<forall>e. entry = Some e \<longrightarrow> pr_state p = adminStateExecuted \<and>
       (\<exists>e0. ledgerApprovedEntry req c (rebindKeyID E req) = Some e0 \<and> appendLedgerTx E now e0 d2 = Inr (e, d'))"
    by (rule commitDecision_Inr [OF assms])
  have "rq_id locked = rq_id (pr_request p)" using l by (rule getAdminRequestQ_row) simp
  moreover have "locked' = locked \<or> locked' = locked\<lparr>rq_decision := Some (pr_decision p)\<rparr>"
    using nex ex by (cases "pr_executor p") blast+
  ultimately have lid: "rq_id locked' = rq_id (pr_request p)" by auto
  have "db_requests d' = db_requests d2"
  proof (cases entry)
    case (Some e)
    then obtain e0 where "appendLedgerTx E now e0 d2 = Inr (e, d')" using some by blast
    then show ?thesis unfolding appendLedgerTx_def by (rule appendLedgerEntryTx_Inr) simp
  qed (use noentry in simp)
  moreover obtain r where "r \<in> set (db_requests d1)" "rr_id r = rq_id locked'" "rr_state r = adminStatePending"
    using cl by (auto simp: closeAdminRequestTx_def Let_def list_ex_iff split: if_splits)
  ultimately show ?thesis
    using lid unfolding closeAdminRequestTx_Inr(2) [OF cl]
    by (intro bexI [of _ "r\<lparr>rr_state := pr_state p, rr_closed_by := Some (ad_decider (pr_decision p), ad_sig (pr_decision p)),
        rr_server_sig := Some (pr_sig p)\<rparr>"]) (auto simp: set_updWhere image_iff intro!: bexI [of _ r])
qed

text \<open>A permission someone gains is one the approver holds.\<close>

lemma gained_permission:
  assumes inv: "requestInv s d" and prep: "preparedFor E now0 d p"
    and com: "commitDecision E now c p d = Inr ((req, entry), d')"
    and new: "(v, q) \<in> set (db_permissions d')" "(v, q) \<notin> set (db_permissions d)"
  shows "q \<in> set (userPermissionsQ d c (userRoleQ d c) (e_server_id E))"
    and "ad_decision (pr_decision p) = adminDecisionApprove"
    and "\<exists>locked. getAdminRequestQ d (rq_id (pr_request p)) = Some locked \<and> v \<in> set (rq_targets locked)"
proof -
  obtain locked where l: "getAdminRequestQ d (rq_id (pr_request p)) = Some locked"
    and chk: "ad_decision (pr_decision p) \<noteq> adminDecisionWithdraw \<longrightarrow> checkDeciderQ d locked c (e_server_id E) = None"
    and same: "ad_decision (pr_decision p) \<noteq> adminDecisionApprove \<longrightarrow> onlyRecords d d'"
    and run: "ad_decision (pr_decision p) = adminDecisionApprove \<longrightarrow>
       (\<exists>ex d1. adminExecutorFor E now0 (rq_action locked) = Some ex \<and>
          ax_validate ex d (locked\<lparr>rq_decision := Some (pr_decision p)\<rparr>) = None \<and>
          ax_execute ex (locked\<lparr>rq_decision := Some (pr_decision p)\<rparr>) d = Inr d1 \<and> onlyRecords d1 d')"
    by (rule commit_runs [OF inv prep com])
  show appr: "ad_decision (pr_decision p) = adminDecisionApprove"
    using same new onlyRecords_authority by (fastforce simp: sameAuthority_def)
  let ?r = "locked\<lparr>rq_decision := Some (pr_decision p)\<rparr>"
  obtain ex d1 where ex: "adminExecutorFor E now0 (rq_action locked) = Some ex" "ax_execute ex ?r d = Inr d1"
    and tail: "sameAuthority d1 d'"
    using run appr onlyRecords_authority by blast
  have new1: "(v, q) \<in> set (db_permissions d1)" using new(1) tail by (simp add: sameAuthority_def)
  have "checkActorPermissionsQ d locked c (userRoleQ d c) (e_server_id E) = None"
    using checkDeciderQ_None(5) chk appr by (auto simp: decision_defs)
  note act = checkActorPermissionsQ_granted [OF this]
  have "q \<in> set (userPermissionsQ d c (userRoleQ d c) (e_server_id E)) \<and> firstTarget locked = Inr v"
    using ex
  proof (cases rule: executor_authority)
    case 1
    then show ?thesis using new1 new(2) by (simp add: sameAuthority_def)
  next
    case (2 u perms)
    then have "firstTarget locked = Inr u" "parsePermissionSet (rq_body locked) = Inr perms"
      by (simp_all add: firstTarget_def)
    moreover have "v = u \<and> q \<in> set perms"
      using permissions_set [OF 2(4), of v q] new1 new(2) by (auto split: if_splits)
    ultimately show ?thesis using act [of perms] 2(1) by auto
  next
    case (3 u e)
    then show ?thesis using permissions_set [OF 3(3), of v q] new1 new(2) by (auto simp: sameAuthority_def split: if_splits)
  qed
  then show "q \<in> set (userPermissionsQ d c (userRoleQ d c) (e_server_id E))"
    "\<exists>locked. getAdminRequestQ d (rq_id (pr_request p)) = Some locked \<and> v \<in> set (rq_targets locked)"
    using l firstTarget_in by blast+
qed

text \<open>A role changes only for a target of an approved promotion, permission change or demotion.\<close>

lemma changed_role:
  assumes inv: "requestInv s d" and prep: "preparedFor E now0 d p"
    and com: "commitDecision E now c p d = Inr ((req, entry), d')"
    and new: "userRoleQ d' v \<noteq> userRoleQ d v"
  shows "\<exists>locked. getAdminRequestQ d (rq_id (pr_request p)) = Some locked \<and> v \<in> set (rq_targets locked) \<and>
    (rq_action locked \<in> {adminActionPromote, adminActionPermissions} \<and> userRoleQ d' v = roleAdmin \<or>
     rq_action locked = adminActionDemote \<and> userRoleQ d' v = roleUser)"
proof -
  obtain locked where l: "getAdminRequestQ d (rq_id (pr_request p)) = Some locked"
    and same: "ad_decision (pr_decision p) \<noteq> adminDecisionApprove \<longrightarrow> onlyRecords d d'"
    and run: "ad_decision (pr_decision p) = adminDecisionApprove \<longrightarrow>
       (\<exists>ex d1. adminExecutorFor E now0 (rq_action locked) = Some ex \<and>
          ax_validate ex d (locked\<lparr>rq_decision := Some (pr_decision p)\<rparr>) = None \<and>
          ax_execute ex (locked\<lparr>rq_decision := Some (pr_decision p)\<rparr>) d = Inr d1 \<and> onlyRecords d1 d')"
    by (rule commit_runs [OF inv prep com])
  let ?r = "locked\<lparr>rq_decision := Some (pr_decision p)\<rparr>"
  obtain ex d1 where ex: "adminExecutorFor E now0 (rq_action locked) = Some ex" "ax_execute ex ?r d = Inr d1"
    and tail: "sameAuthority d1 d'"
    using run same new onlyRecords_authority by (fastforce simp: sameAuthority_def)
  have new1: "userRoleQ d1 v \<noteq> userRoleQ d v" "userRoleQ d' v = userRoleQ d1 v"
    using new tail by (auto simp: sameAuthority_def)
  have "v \<in> set (rq_targets locked) \<and>
    (rq_action locked \<in> {adminActionPromote, adminActionPermissions} \<and> userRoleQ d' v = roleAdmin \<or>
     rq_action locked = adminActionDemote \<and> userRoleQ d' v = roleUser)"
    using ex
  proof (cases rule: executor_authority)
    case 1
    then show ?thesis using new1 by (simp add: sameAuthority_def)
  next
    case (2 u perms)
    then show ?thesis
      using userRow_set_role [OF 2(4), of v] new1 firstTarget_in [of locked u] by (auto simp: firstTarget_def split: if_splits)
  next
    case (3 u e)
    then show ?thesis
      using userRow_set_role [OF 3(3), of v] new1 firstTarget_in [of locked u]
      by (auto simp: sameAuthority_def firstTarget_def split: if_splits)
  qed
  then show ?thesis using l by blast
qed

subsection \<open>An approval that passes its checks commits\<close>

lemma ledgerApprovedEntry_fits:
  assumes "ledgerApprovedEntry req c k = Some e" and "c \<noteq> ''''" "rq_requester req \<noteq> ''''"
    and "\<not> isZeroTime (ss_at (rq_opened req))" "distinct (rq_targets req)"
  shows "entryFits e"
  using assms
  by (auto simp: ledgerApprovedEntry_def entryFits_def Let_def ledgerKindRequest_def ledgerKindServerKey_def
      split: if_splits)

lemma closeAdminRequestTx_pending:
  assumes "r \<in> set (db_requests d)" "rr_id r = rq_id req" "rr_state r = adminStatePending"
  shows "\<exists>req' d'. closeAdminRequestTx req state x ss d = Inr (req', d')"
  using assms by (auto simp: closeAdminRequestTx_def Let_def list_ex_iff)

lemma commit_total:
  assumes get: "getAdminRequestQ d (rq_id (pr_request p)) = Some locked"
    and pend: "rq_state locked = adminStatePending"
    and ok: "decisionRefused E c p locked d = None"
    and run: "runExecutor p locked d = Inr (locked', d1)"
    and frame: "adminFrame d d1" and self: "db_self_key d = canonicalID (e_server_id E) (e_fingerprint E)"
    and linv: "ledgerInv d" and sign: "\<And>p. e_sign E p \<noteq> None"
    and who: "c \<noteq> ''''" "rq_requester locked \<noteq> ''''" "\<not> isZeroTime (ss_at (rq_opened locked))"
      "distinct (rq_targets locked)"
  shows "\<exists>r d'. commitDecision E now c p d = Inr (r, d')"
proof -
  obtain row where row: "row \<in> set (db_requests d)" "rr_id row = rq_id (pr_request p)" "locked = scanAdminRequest row"
    using get by (rule getAdminRequestQ_row)
  have locked': "locked' = locked \<or> locked' = locked\<lparr>rq_decision := Some (pr_decision p)\<rparr>"
    using run by (auto simp: runExecutor_def Let_def bindR_Inr split: option.splits)
  have "rq_id locked' = rr_id row" using locked' row(3) by auto
  then obtain req d2 where cl:
    "closeAdminRequestTx locked' (pr_state p) (Some (pr_decision p)) (pr_sig p) d1 = Inr (req, d2)"
    using closeAdminRequestTx_pending [of row d1 locked' "pr_state p" "Some (pr_decision p)" "pr_sig p"]
      row pend frame
    by (force simp: adminFrame_def)
  note c = closeAdminRequestTx_Inr [OF cl]
  have linv2: "ledgerInv d2" "db_self_key d2 = canonicalID (e_server_id E) (e_fingerprint E)"
    using frame self by (auto simp: c(2) adminFrame_def intro!: ledgerInv_other [OF linv])
  have req: "rq_requester req = rq_requester locked" "rq_opened req = rq_opened locked" "rq_targets req = rq_targets locked"
    using locked' by (auto simp: c(1))
  have "\<exists>r d'. recordDecision E now c p locked' d1 = Inr (r, d')"
  proof (cases "ledgerApprovedEntry req c (rebindKeyID E req)")
    case (Some e)
    have "\<exists>e' d3. appendLedgerTx E now e d2 = Inr (e', d3)"
      by (rule appendLedgerEntryTx_total [OF linv2 ledgerApprovedEntry_fits [OF Some who(1)] sign])
        (use who req in auto)
    then obtain e' d3 where "appendLedgerTx E now e d2 = Inr (e', d3)" by blast
    then show ?thesis using cl Some by (auto simp: recordDecision_def)
  qed (use cl in \<open>auto simp: recordDecision_def\<close>)
  then show ?thesis
    using get pend ok run by (auto simp: commitDecision_def lockPending_def)
qed

end
