(* ===== verification/SmallServer.thy ===== *)
theory SmallServer
  imports Authority
begin

text \<open>
  A small server the witnesses run on: the root user, two admins with every permission and two
  plain users, each with a key, on a server whose OpenPGP accepts every signature.  Every definition
  of the model computes on it.
\<close>

definition aServer :: env where
  "aServer = \<lparr>e_server_id = ''s'', e_fingerprint = ''f'', e_recovery_mode = '''', e_max_invites = 5,
     e_jcs = (\<lambda>_. ''p''), e_sign = (\<lambda>_. Some ''a''), e_verify = (\<lambda>_ _ _. True),
     e_extract_fingerprint = (\<lambda>_. Some ''n''), e_uuid_ok = (\<lambda>i. i \<noteq> ''''), e_graphemes = length,
     e_signup_mode = ''invite'', e_server_name = ''home'', e_hash = (\<lambda>s. take 32 (s @ replicate 32 CHR 0x30)),
     e_uuid = (\<lambda>s. Some s), e_fold = id, e_lower = id, e_printable = id, e_key_created = (\<lambda>_. 0),
     e_fetch_key = (\<lambda>_ _. None)\<rparr>"

definition aUser :: "string \<Rightarrow> string \<Rightarrow> usersRow" where
  "aUser u role = \<lparr>u_id = u @ ''@s'', u_username = Some u, u_role = role, u_bio = None, u_created = 0,
     u_active_key = Some (u @ ''@s/k''), u_user_sig = Some \<lparr>us_id = u @ ''@s/k'', us_armor = ''a''\<rparr>,
     u_server_sig = Some noServerSig, u_invite = None, u_suspended = None\<rparr>"

definition aKey :: "string \<Rightarrow> keyRow" where
  "aKey u = \<lparr>pk_id = u @ ''@s/k'', pk_owner = Some (u @ ''@s''), pk_armor = ''k'', pk_created = 0,
     pk_server_sig = None, pk_predecessor = None, pk_restricted = False\<rparr>"

definition aDb :: db where
  "aDb = \<lparr>db_users = [aUser ''1'' roleRoot, aUser ''a'' roleAdmin, aUser ''b'' roleAdmin,
        aUser ''u'' roleUser, aUser ''v'' roleUser],
     db_username_collisions = [],
     db_permissions = map (\<lambda>p. (''a@s'', p)) adminPermissions @ map (\<lambda>p. (''b@s'', p)) adminPermissions,
     db_identities = [''1@s'', ''a@s'', ''b@s'', ''u@s'', ''v@s''], db_removals = [], db_requests = [],
     db_invites = [], db_keys = map aKey [''1'', ''a'', ''b'', ''u'', ''v''], db_key_revocations = [],
     db_private_keys = [], db_self_key = ''f@s'', db_first_boot = 0, db_ledger = [], db_ledger_seq = 0,
     db_cases = [], db_flags = [],
     db_reed_identities = [\<lparr>ri_id = ''u@s/r'', ri_server = ''s'', ri_author = ''u@s''\<rparr>],
     db_mesh = [\<lparr>sm_server = ''t'', sm_base_url = ''h'', sm_revoked_at = None, sm_down_at = None,
       sm_claimed_at = None\<rparr>],
     db_peer_queue = [], db_peer_seq = 0, db_active_users = 5, db_devices = []\<rparr>"

text \<open>\<open>a\<close> asks to act on the targets; \<open>b\<close> approves.\<close>

definition askMsg :: "string \<Rightarrow> string \<Rightarrow> string list \<Rightarrow> string \<Rightarrow> openMsg" where
  "askMsg i action targets body = \<lparr>om_id = i, om_action = action, om_requester = ''a@s'',
     om_reason = ''r'', om_targets = targets, om_body = body, om_created = 0,
     om_sig = \<lparr>us_id = ''a@s/k'', us_armor = ''q''\<rparr>\<rparr>"

definition askedDb :: "string \<Rightarrow> string list \<Rightarrow> string \<Rightarrow> db" where
  "askedDb action targets body =
     fst (snd (openAdminRequest aServer second (Some ''a@s'') (Some (askMsg ''i'' action targets body)) aDb))"

definition decisionMsg :: "string \<Rightarrow> string \<Rightarrow> adminDecision" where
  "decisionMsg x who = \<lparr>ad_decision = x, ad_decider = who @ ''@s'',
     ad_sig = \<lparr>us_id = who @ ''@s/k'', us_armor = ''d''\<rparr>\<rparr>"

definition decided :: "string \<Rightarrow> string \<Rightarrow> db \<Rightarrow> adminRequest answer \<times> db \<times> effect list" where
  "decided x who d = decideAdminRequest aServer second (Some (who @ ''@s'')) ''i'' (Some (decisionMsg x who)) d"

lemma aServer_sel [simp]:
  "e_server_id aServer = ''s''" "e_fingerprint aServer = ''f''" "e_recovery_mode aServer = ''''"
  "e_max_invites aServer = 5" "e_sign aServer p = Some ''a''" "e_verify aServer p q k"
  "e_extract_fingerprint aServer k = Some ''n''" "e_uuid_ok aServer ''i''"
  by (simp_all add: aServer_def)

text \<open>The request \<open>a\<close> asks for, once opened.\<close>

definition askedRequest :: "string \<Rightarrow> string list \<Rightarrow> string \<Rightarrow> adminRequest" where
  "askedRequest action targets body = (requestFromMsg ''a@s'' (askMsg ''i'' action targets body))
     \<lparr>rq_opened := \<lparr>ss_id = ''f@s'', ss_armor = ''a'', ss_at = second\<rparr>\<rparr>"

lemma a_caller: "adminCaller aDb (Some ''a@s'') = Inr (''a@s'', roleAdmin)"
proof -
  have "userRoleQ aDb ''a@s'' = roleAdmin" by code_simp
  then show ?thesis by (simp add: adminCaller_def)
qed

lemma a_key: "callerSigningKey aDb ''a@s/k'' ''a@s'' = Inr \<lparr>key_id = ''a@s/k'', key_user = ''a@s'',
    key_armor = ''k'', key_revoked = False, key_restricted = False\<rparr>"
  by code_simp

lemma askMsg_sel [simp]:
  "om_requester (askMsg i a t b) = ''a@s''" "us_id (om_sig (askMsg i a t b)) = ''a@s/k''"
  "rq_sig (requestFromMsg c m) = om_sig m"
  by (simp_all add: askMsg_def requestFromMsg_def)

lemma openAdminRequest_asked:
  assumes "validateNewAdminRequest aServer second aDb (requestFromMsg ''a@s'' (askMsg ''i'' action targets body)) roleAdmin = None"
    and "requestRowFits (requestRowOf (askedRequest action targets body))"
  shows "openAdminRequest aServer second (Some ''a@s'') (Some (askMsg ''i'' action targets body)) aDb =
    (Done 201 (askedRequest action targets body),
     aDb\<lparr>db_requests := [requestRowOf (askedRequest action targets body)]\<rparr>,
     [PushAdminRecord (RecRequest (askedRequest action targets body))])"
proof -
  have "prepareOpen aServer second (Some ''a@s'') (Some (askMsg ''i'' action targets body)) aDb =
      Inr (askedRequest action targets body)"
    using assms(1)
    by (simp add: prepareOpen_def a_caller a_key isAdmin_def Let_def countersign_def canonicalID_def
        canonicalIDs_def idSeparator_def truncateSecond_def second_def askedRequest_def)
  moreover have "db_requests aDb = []" by (simp add: aDb_def)
  ultimately show ?thesis
    using assms(2) by (simp add: openAdminRequest_def withAdminTx_def insertAdminRequestTx_def)
qed

lemma validate_suspend_tail:
  "adminExecutorFor E now adminActionSuspend = Some suspendExecutor"
  "isSortedStrings [t]" "compact [t] = [t]" "targetCountFits adminActionSuspend (Suc 0)"
  "adminActionSuspend \<noteq> adminActionBroadcast" "adminActionSuspend \<noteq> adminActionUnicast"
  "trimSpace ''r'' = ''r''" "longTextFits (e_graphemes aServer) ''r''" "isAdmin roleAdmin"
  "\<not> adminRequestClockSkew < timeSub second 0" "\<not> timeSub second 0 < - adminRequestClockSkew"
proof -
  show "adminExecutorFor E now adminActionSuspend = Some suspendExecutor" by (simp add: adminExecutorFor_def)
  show "\<not> adminRequestClockSkew < timeSub second 0" "\<not> timeSub second 0 < - adminRequestClockSkew"
    by (simp_all add: timeSub_def adminRequestClockSkew_def second_def minute_def)
  show "isSortedStrings [t]" "compact [t] = [t]" by (simp_all add: isSortedStrings_def compact_def)
  show "targetCountFits adminActionSuspend (Suc 0)" "adminActionSuspend \<noteq> adminActionBroadcast"
    "adminActionSuspend \<noteq> adminActionUnicast" "isAdmin roleAdmin"
    by (simp_all add: targetCountFits_def action_defs isAdmin_def)
  show "trimSpace ''r'' = ''r''" "longTextFits (e_graphemes aServer) ''r''" by code_simp+
qed

lemma validate_suspend:
  "validateNewAdminRequest aServer second aDb (requestFromMsg ''a@s'' (askMsg ''i'' adminActionSuspend [''u@s''] '''')) roleAdmin = None"
proof -
  let ?r = "requestFromMsg ''a@s'' (askMsg ''i'' adminActionSuspend [''u@s''] '''')"
  have "checkActorPermissionsQ aDb ?r ''a@s'' roleAdmin ''s'' = None"
    "ax_validate suspendExecutor aDb ?r = None" "checkTarget aDb ''s'' ''u@s'' = None" "checkBody aServer ?r = None"
    "rq_id ?r = ''i''" "rq_action ?r = adminActionSuspend" "rq_targets ?r = [''u@s'']" "rq_requester ?r = ''a@s''"
    "rq_created ?r = 0" "adminActionPermission adminActionSuspend = Some permUserSuspend" "rq_reason ?r = ''r''"
    by code_simp+
  then show ?thesis
    by (simp add: validateNewAdminRequest_def Let_def firstErr_None validate_suspend_tail)
qed

subsection \<open>A request waiting for its approver\<close>

text \<open>The server once \<open>a\<close> has asked, and what \<open>b\<close> brings to the transaction that approves.\<close>

definition waitingDb :: "string \<Rightarrow> string list \<Rightarrow> string \<Rightarrow> db" where
  "waitingDb action targets body = aDb\<lparr>db_requests := [requestRowOf (askedRequest action targets body)]\<rparr>"

definition bApproves :: "string \<Rightarrow> string list \<Rightarrow> string \<Rightarrow> prepared" where
  "bApproves action targets body = \<lparr>pr_request = askedRequest action targets body,
     pr_decision = decisionMsg adminDecisionApprove ''b'', pr_state = adminStateExecuted,
     pr_sig = \<lparr>ss_id = ''f@s'', ss_armor = ''a'', ss_at = second\<rparr>,
     pr_executor = adminExecutorFor aServer second action\<rparr>"

lemma askedRequest_sel [simp]:
  "rq_id (askedRequest a t b) = trimSpace ''i''" "rq_action (askedRequest a t b) = a"
  "rq_targets (askedRequest a t b) = t" "rq_requester (askedRequest a t b) = ''a@s''"
  "rq_state (askedRequest a t b) = adminStatePending" "ss_at (rq_opened (askedRequest a t b)) = second"
  "rq_body (askedRequest a t b) = b" "rq_dropped (askedRequest a t b) = []"
  by (simp_all add: askedRequest_def requestFromMsg_def askMsg_def)

lemma askedRequest_fresh: "sorted t \<Longrightarrow> freshRequest (askedRequest a t b)"
  by (simp add: freshRequest_def askedRequest_def requestFromMsg_def askMsg_def)

lemma waiting_get:
  "sorted t \<Longrightarrow> getAdminRequestQ (waitingDb a t b) (trimSpace ''i'') = Some (askedRequest a t b)"
  using scan_requestRowOf [OF askedRequest_fresh]
  by (simp add: getAdminRequestQ_def waitingDb_def rowBy_def requestRowOf_def)

lemma waiting_inv:
  assumes "openedProperly ''s'' (requestRowOf (askedRequest a t b))"
  shows "requestInv ''s'' (waitingDb a t b)"
proof (rule requestInvI)
  show "uniqueBy rr_id (db_requests (waitingDb a t b))" by (simp add: waitingDb_def)
  show "closedProperly ''s'' r" "openedProperly ''s'' r" if "r \<in> set (db_requests (waitingDb a t b))" for r
    using that assms by (auto simp: waitingDb_def closedProperly_def requestRowOf_def state_defs)
  show "ledgerInv (waitingDb a t b)"
    "length (filter (\<lambda>e. le_kind e = ledgerKindRequest) (db_ledger (waitingDb a t b))) =
      length (filter onLedger (db_requests (waitingDb a t b)))"
    by (simp_all add: waitingDb_def aDb_def ledgerInv_def onLedger_def requestRowOf_def state_defs)
qed

lemma bApproves_for:
  assumes "adminExecutorFor aServer second a \<noteq> None"
  shows "preparedFor aServer second (waitingDb a t b) (bApproves a t b)"
  using assms
  by (auto simp: preparedFor_def bApproves_def decisionMsg_def waitingDb_def requestRowOf_def
      stateForDecision_def state_defs decision_defs)

lemma bApproves_commits:
  assumes t: "sorted t" "distinct t" and ex: "adminExecutorFor aServer second a = Some ex"
    and chk: "checkDeciderQ (waitingDb a t b) (askedRequest a t b) ''b@s'' ''s'' = None"
    and run: "ax_validate ex (waitingDb a t b) ((askedRequest a t b)\<lparr>rq_decision := Some (decisionMsg adminDecisionApprove ''b'')\<rparr>) = None"
      "ax_execute ex ((askedRequest a t b)\<lparr>rq_decision := Some (decisionMsg adminDecisionApprove ''b'')\<rparr>) (waitingDb a t b) = Inr d1"
  shows "\<exists>r d'. commitDecision aServer second ''b@s'' (bApproves a t b) (waitingDb a t b) = Inr (r, d')"
proof (rule commit_total)
  show "getAdminRequestQ (waitingDb a t b) (rq_id (pr_request (bApproves a t b))) = Some (askedRequest a t b)"
    using waiting_get [OF t(1)] by (simp add: bApproves_def)
  show "decisionRefused aServer ''b@s'' (bApproves a t b) (askedRequest a t b) (waitingDb a t b) = None"
    using chk by (simp add: decisionRefused_def bApproves_def decisionMsg_def decision_defs)
  show "runExecutor (bApproves a t b) (askedRequest a t b) (waitingDb a t b) =
      Inr ((askedRequest a t b)\<lparr>rq_decision := Some (decisionMsg adminDecisionApprove ''b'')\<rparr>, d1)"
    using ex run by (simp add: runExecutor_def bApproves_def)
  show "adminFrame (waitingDb a t b) d1" using ex run(2) by (rule executor_frame)
  show "db_self_key (waitingDb a t b) = canonicalID (e_server_id aServer) (e_fingerprint aServer)"
    "ledgerInv (waitingDb a t b)"
    by (simp_all add: waitingDb_def aDb_def canonicalID_def canonicalIDs_def idSeparator_def ledgerInv_def)
qed (use t in \<open>simp_all add: second_def isZeroTime_def\<close>)

text \<open>Its users are those of the server before anyone asked.\<close>

lemma waiting_users:
  "userRoleQ (waitingDb a t b) u = userRoleQ aDb u"
  "userPermissionsQ (waitingDb a t b) u role s = userPermissionsQ aDb u role s"
  "invitedByQ (waitingDb a t b) u v = invitedByQ aDb u v"
  by (simp_all add: waitingDb_def userRoleQ_def userRow_def userPermissionsQ_def invitedByQ_def)

lemma b_may_decide:
  assumes "a \<noteq> adminActionPermissions" "''b@s'' \<notin> set t"
    and "grantedPermissions (askedRequest a t b) = Inr g" "set (actionPermission a # g) \<subseteq> set adminPermissions"
    and "\<forall>u \<in> set t. userRoleQ aDb u \<noteq> roleAdmin"
  shows "checkDeciderQ (waitingDb a t b) (askedRequest a t b) ''b@s'' ''s'' = None"
proof -
  have b: "userRoleQ aDb ''b@s'' = roleAdmin" "\<not> invitedByQ aDb ''a@s'' ''b@s''"
    "set (userPermissionsQ aDb ''b@s'' roleAdmin ''s'') = set adminPermissions" "isAdmin roleAdmin"
    by code_simp+
  have "checkActorPermissionsQ (waitingDb a t b) (askedRequest a t b) ''b@s'' roleAdmin ''s'' = None"
    using assms b(3) by (simp add: checkActorPermissionsQ_None waiting_users requiredPermissionsQ_def)
  moreover have "firstErr (\<lambda>t. if userRoleQ aDb t = roleAdmin then Some (refuse 403 ''root_required'') else None)
      (remainingTargets (askedRequest a t b)) = None"
    using assms(5) by (simp add: firstErr_None remainingTargets_def)
  ultimately show ?thesis
    using assms(2) b by (simp add: checkDeciderQ_def waiting_users Let_def)
qed

subsection \<open>A suspension and a promotion\<close>

abbreviation suspendU :: "db" where "suspendU \<equiv> waitingDb adminActionSuspend [''u@s''] ''''"
abbreviation promoteU :: "db" where "promoteU \<equiv> waitingDb adminActionPromote [''u@s''] permUserKick"

lemma suspendU_checked:
  "checkDeciderQ suspendU (askedRequest adminActionSuspend [''u@s''] '''') ''b@s'' ''s'' = None"
proof -
  have g: "grantedPermissions (askedRequest adminActionSuspend [''u@s''] '''') = Inr []"
    by (simp add: grantedPermissions_def action_defs)
  have "set (actionPermission adminActionSuspend # []) \<subseteq> set adminPermissions"
    "\<forall>u \<in> set [''u@s'']. userRoleQ aDb u \<noteq> roleAdmin" "adminActionSuspend \<noteq> adminActionPermissions"
    by code_simp+
  then show ?thesis by (intro b_may_decide [OF _ _ g]) simp_all
qed

lemma suspendU_runs:
  "ax_validate suspendExecutor suspendU ((askedRequest adminActionSuspend [''u@s''] '''')
      \<lparr>rq_decision := Some (decisionMsg adminDecisionApprove ''b'')\<rparr>) = None"
  "ax_execute suspendExecutor ((askedRequest adminActionSuspend [''u@s''] '''')
      \<lparr>rq_decision := Some (decisionMsg adminDecisionApprove ''b'')\<rparr>) suspendU =
      Inr (updUser ''u@s'' (\<lambda>r. r\<lparr>u_suspended := Some (trimSpace ''i'')\<rparr>) suspendU)"
proof -
  have "suspendedByQ aDb ''u@s'' = ''''" by code_simp
  then show "ax_validate suspendExecutor suspendU ((askedRequest adminActionSuspend [''u@s''] '''')
      \<lparr>rq_decision := Some (decisionMsg adminDecisionApprove ''b'')\<rparr>) = None"
    by (simp add: suspendExecutor_def remainingTargets_def suspendedByQ_def userRow_def waitingDb_def)
  show "ax_execute suspendExecutor ((askedRequest adminActionSuspend [''u@s''] '''')
      \<lparr>rq_decision := Some (decisionMsg adminDecisionApprove ''b'')\<rparr>) suspendU =
      Inr (updUser ''u@s'' (\<lambda>r. r\<lparr>u_suspended := Some (trimSpace ''i'')\<rparr>) suspendU)"
    by (simp add: suspendExecutor_def remainingTargets_def)
qed

lemma suspendU_approved:
  "\<exists>r d'. commitDecision aServer second ''b@s'' (bApproves adminActionSuspend [''u@s''] '''') suspendU = Inr (r, d')"
  by (rule bApproves_commits [OF _ _ validate_suspend_tail(1) suspendU_checked suspendU_runs]) simp_all

lemma countersign_aServer [simp]:
  "countersign aServer p t = Inr \<lparr>ss_id = ''f@s'', ss_armor = ''a'', ss_at = t\<rparr>"
  by (simp add: countersign_def canonicalID_def canonicalIDs_def idSeparator_def)

lemma promoteU_approved:
  "\<exists>r d'. commitDecision aServer second ''b@s'' (bApproves adminActionPromote [''u@s''] permUserKick) promoteU = Inr (r, d')"
proof -
  let ?r = "(askedRequest adminActionPromote [''u@s''] permUserKick)\<lparr>rq_decision := Some (decisionMsg adminDecisionApprove ''b'')\<rparr>"
  have "userRow promoteU ''u@s'' = Some (aUser ''u'' roleUser)"
    by (simp add: userRow_def rowBy_def waitingDb_def aDb_def aUser_def)
  then have "\<exists>d1. recountersignProfileTx aServer second ''u@s'' roleAdmin [permUserKick] promoteU = Inr d1"
    by (simp add: recountersignProfileTx_def profileUsername_def aUser_def setUserPermissionsTx_def Let_def)
  then obtain d1 where d1: "recountersignProfileTx aServer second ''u@s'' roleAdmin [permUserKick] promoteU = Inr d1" ..
  have parse: "parsePermissionSet permUserKick = Inr [permUserKick]" by code_simp
  show ?thesis
  proof (rule bApproves_commits)
    show "adminExecutorFor aServer second adminActionPromote = Some (promoteExecutor aServer second)"
      by (simp add: adminExecutorFor_def action_defs)
    have g: "grantedPermissions (askedRequest adminActionPromote [''u@s''] permUserKick) = Inr [permUserKick]"
      by (simp add: grantedPermissions_def parse)
    have "set (actionPermission adminActionPromote # [permUserKick]) \<subseteq> set adminPermissions"
      "\<forall>u \<in> set [''u@s'']. userRoleQ aDb u \<noteq> roleAdmin" "adminActionPromote \<noteq> adminActionPermissions"
      by code_simp+
    then show "checkDeciderQ promoteU (askedRequest adminActionPromote [''u@s''] permUserKick) ''b@s'' ''s'' = None"
      by (intro b_may_decide [OF _ _ g]) simp_all
    have "userRoleQ aDb ''u@s'' = roleUser" by code_simp
    then have "targetRoleIs promoteU ?r roleUser = None"
      by (simp add: targetRoleIs_def remainingTargets_def waiting_users)
    then show "ax_validate (promoteExecutor aServer second) promoteU ?r = None" by (simp add: promoteExecutor_def)
    show "ax_execute (promoteExecutor aServer second) ?r promoteU = Inr d1"
      using d1 by (simp add: promoteExecutor_def parse firstTarget_def)
  qed simp_all
qed

text \<open>The two users' keys resolve.\<close>

lemma v_getKey: "getPublicKey aDb ''v@s/k'' = Some \<lparr>key_id = ''v@s/k'', key_user = ''v@s'',
    key_armor = ''k'', key_revoked = False, key_restricted = False\<rparr>"
  by code_simp

lemma v_key: "resolvePublicKey aServer now ''v@s/k'' aDb = Inr (Some \<lparr>key_id = ''v@s/k'', key_user = ''v@s'',
    key_armor = ''k'', key_revoked = False, key_restricted = False\<rparr>, aDb)"
  by (simp add: resolvePublicKey_def v_getKey)

lemma second_whole [simp]: "truncateSecond second = second"
  by (simp add: truncateSecond_def second_def)

lemma u_getKey: "getPublicKey aDb ''u@s/k'' = Some \<lparr>key_id = ''u@s/k'', key_user = ''u@s'',
    key_armor = ''k'', key_revoked = False, key_restricted = False\<rparr>"
  by code_simp

lemma u_key: "resolvePublicKey aServer now ''u@s/k'' aDb = Inr (Some \<lparr>key_id = ''u@s/k'', key_user = ''u@s'',
    key_armor = ''k'', key_revoked = False, key_restricted = False\<rparr>, aDb)"
  by (simp add: resolvePublicKey_def u_getKey)

end
