(* ===== verification/Moot.thy ===== *)
theory Moot
  imports AdminSafety
begin

text \<open>
  What happens to the pending requests about a user whose account is removed: every one of them drops
  the user, and those left with no target are closed as moot.
\<close>

text \<open>A request that \<open>closeIfMoot\<close> closes.\<close>

definition mootable :: "requestRow \<Rightarrow> bool" where
  "mootable r \<longleftrightarrow> rr_state r = adminStatePending \<and> rr_targets r \<noteq> [] \<and> (\<forall>t \<in> set (rr_targets r). snd t)"

lemma getAdminRequestQ_unique:
  assumes "uniqueBy rr_id (db_requests d)" and "r \<in> set (db_requests d)"
  shows "getAdminRequestQ d (rr_id r) = Some (scanAdminRequest r)"
proof -
  have "rowBy rr_id (rr_id r) (db_requests d) = Some r"
  proof (cases "rowBy rr_id (rr_id r) (db_requests d)")
    case None
    then show ?thesis using assms(2) by (auto simp: rowBy_None)
  next
    case (Some q)
    then have "q \<in> set (db_requests d)" "rr_id q = rr_id r" by (auto dest: rowBy_Some)
    then show ?thesis using Some uniqueBy_inj [OF assms(1)] assms(2) by metis
  qed
  then show ?thesis by (simp add: getAdminRequestQ_Some)
qed

lemma closeIfMoot_row:
  assumes inv: "requestInv s d" and r: "r \<in> set (db_requests d)" "rr_id r = i"
    and sign: "\<And>p. e_sign E p \<noteq> None" and mode: "\<not> recovering (e_recovery_mode E)"
    and run: "closeIfMoot E now i d = (d', fx)"
  shows "\<exists>ss. (if mootable r then closedRow adminStateMoot None ss r else r) \<in> set (db_requests d')"
proof -
  have get: "getAdminRequestQ d i = Some (scanAdminRequest r)"
    using getAdminRequestQ_unique [OF requestInvD(1) [OF inv] r(1)] r(2) by simp
  have rem: "remainingTargets (scanAdminRequest r) = [] \<longleftrightarrow> (\<forall>t \<in> set (rr_targets r). snd t)"
    using requestInvD(3) [OF inv r(1)] by (intro remainingTargets_scan) (simp add: openedProperly_def)
  have before: "\<not> openedBeforeRecovery E d (scanAdminRequest r)"
    using mode by (simp add: openedBeforeRecovery_def)
  show ?thesis
  proof (cases "mootable r")
    case False
    then have "prepareMoot E now i d = Inr None"
      using rem by (auto simp: prepareMoot_def get mootable_def scanAdminRequest_no_targets)
    then show ?thesis using run r(1) False by (simp add: closeIfMoot_def)
  next
    case True
    obtain ss where ss: "prepareMoot E now i d = Inr (Some ss)"
    proof -
      have "\<exists>a. e_sign E p = Some a" for p using sign [of p] by auto
      then show thesis
        using that True rem before
        by (fastforce simp: prepareMoot_def get mootable_def scanAdminRequest_no_targets bindR_Inr countersign_Inr Let_def)
    qed
    let ?c = "closeAdminRequestTx (scanAdminRequest r) adminStateMoot None ss d"
    have "list_ex (\<lambda>q. rr_id q = rr_id r \<and> rr_state q = adminStatePending) (db_requests d)"
      using r True by (auto simp: list_ex_iff mootable_def)
    then obtain req d2 where cl: "?c = Inr (req, d2)"
      by (auto simp: closeAdminRequestTx_def Let_def)
    have "commitMoot i ss d = Inr (Some req, d2)"
      using True rem cl by (simp add: commitMoot_def get mootable_def)
    then have "d' = d2" using run ss by (simp add: closeIfMoot_def withAdminTx_def)
    then have "closedRow adminStateMoot None ss r \<in> set (db_requests d')"
      using r True unfolding closeAdminRequestTx_Inr(2) [OF cl]
      by (auto simp: set_updWhere closedRow_def mootable_def image_iff intro!: bexI [of _ r])
    then show ?thesis using True by auto
  qed
qed

lemma closeIfMoot_other:
  assumes "r \<in> set (db_requests d)" "rr_id r \<noteq> i \<or> rr_state r \<noteq> adminStatePending" "closeIfMoot E now i d = (d', fx)"
  shows "r \<in> set (db_requests d')"
proof -
  have "d' = d \<or> (\<exists>ss req locked. getAdminRequestQ d i = Some locked \<and>
      closeAdminRequestTx locked adminStateMoot None ss d = Inr (req, d'))"
    using assms(3)
    by (auto simp: closeIfMoot_def withAdminTx_def commitMoot_def bindR_Inr bindR_Inl
        split: sum.splits option.splits if_splits prod.splits)
  then show ?thesis
  proof (elim disjE exE conjE)
    fix ss req locked
    assume "getAdminRequestQ d i = Some locked" and cl: "closeAdminRequestTx locked adminStateMoot None ss d = Inr (req, d')"
    then have "rq_id locked = i" by (auto elim: getAdminRequestQ_row)
    then show ?thesis using assms(1,2) unfolding closeAdminRequestTx_Inr(2) [OF cl] by (auto simp: set_updWhere)
  qed (use assms(1) in simp)
qed

text \<open>The loop of \<open>dropFromAdminRequests\<close> over the requests that lost the user.\<close>

lemma moot_loop:
  assumes "requestInv (e_server_id E) d" and "r \<in> set (db_requests d)"
    and sign: "\<And>p. e_sign E p \<noteq> None" and mode: "\<not> recovering (e_recovery_mode E)"
  shows "\<exists>ss. (if rr_id r \<in> set is \<and> mootable r then closedRow adminStateMoot None ss r else r)
    \<in> set (db_requests (fst (fold (\<lambda>i (d, fx). let (d', fx') = closeIfMoot E now i d in (d', fx @ fx')) is (d, fx))))"
  using assms(1,2)
proof (induction "is" arbitrary: d r fx)
  case (Cons i "is")
  obtain d2 fx2 where c: "closeIfMoot E now i d = (d2, fx2)" by fastforce
  have inv2: "requestInv (e_server_id E) d2"
    using requests.inv_reachable [OF closeIfMoot_step [OF c] Cons.prems(1)] .
  let ?rest = "fst (fold (\<lambda>i (d, fx). let (d', fx') = closeIfMoot E now i d in (d', fx @ fx')) is (d2, fx @ fx2))"
  show ?case
  proof (cases "rr_id r = i \<and> mootable r")
    case True
    then obtain ss where ss: "closedRow adminStateMoot None ss r \<in> set (db_requests d2)"
      using closeIfMoot_row [OF Cons.prems _ sign mode c] by auto
    have "closedRow adminStateMoot None ss r \<in> set (db_requests ?rest)"
      using Cons.IH [OF inv2 ss, of "fx @ fx2"] by (simp add: mootable_def state_defs)
    then show ?thesis using True c by auto
  next
    case False
    then have "r \<in> set (db_requests d2)"
      using closeIfMoot_other [OF Cons.prems(2) _ c] closeIfMoot_row [OF Cons.prems _ sign mode c] by auto
    from Cons.IH [OF inv2 this, of "fx @ fx2"] show ?thesis using False c by auto
  qed
qed simp

lemma drop_settles:
  assumes inv: "requestInv (e_server_id E) d" and r: "r \<in> set (db_requests d)" "dropsTarget u r"
    and sign: "\<And>p. e_sign E p \<noteq> None" and mode: "\<not> recovering (e_recovery_mode E)"
    and run: "dropFromAdminRequests E now u d = (d', fx)"
  shows "\<exists>r' \<in> set (db_requests d'). rr_id r' = rr_id r \<and>
    rr_targets r' = map (\<lambda>(t, dr). (t, dr \<or> t = u)) (rr_targets r) \<and>
    rr_state r' = (if \<forall>(t, dr) \<in> set (rr_targets r). dr \<or> t = u then adminStateMoot else adminStatePending)"
proof -
  obtain ids d1 where d1: "dropTargets u d = (ids, d1)" by fastforce
  let ?f = "\<lambda>r. r\<lparr>rr_targets := map (\<lambda>(t, dr). (t, dr \<or> t = u)) (rr_targets r)\<rparr>"
  have inv1: "requestInv (e_server_id E) d1" using drop_inv [OF inv d1] .
  have mem: "?f r \<in> set (db_requests d1)" "rr_id r \<in> set ids"
    using d1 r by (auto simp: dropTargets_def set_updWhere)
  have d': "d' = fst (fold (\<lambda>i (d, fx). let (d', fx') = closeIfMoot E now i d in (d', fx @ fx')) ids (d1, []))"
    using run d1 by (simp add: dropFromAdminRequests_def)
  obtain ss where ss: "(if mootable (?f r) then closedRow adminStateMoot None ss (?f r) else ?f r) \<in> set (db_requests d')"
    using moot_loop [OF inv1 mem(1) sign mode, of ids now "[]"] mem(2) unfolding d' by auto
  have "mootable (?f r) \<longleftrightarrow> (\<forall>(t, dr) \<in> set (rr_targets r). dr \<or> t = u)"
    using r(2) by (auto simp: mootable_def dropsTarget_def)
  then show ?thesis using ss r(2) by (intro bexI [OF _ ss]) (auto simp: dropsTarget_def)
qed

end
