(* ===== verification/AdminProperties.thy ===== *)
theory AdminProperties
  imports SmallServer Moot
begin

text \<open>
  What the two-admin protocol promises, stated of the handlers, each with an instance on the small
  server.
\<close>

text \<open>A run: \<open>a\<close> opens a suspension of \<open>u\<close>.\<close>

lemma trim_i: "trimSpace ''i'' = ''i''"
  by code_simp

lemma run_open: "adminCall aServer aDb suspendU"
proof (rule adminCall.callOpen)
  have "requestRowFits (requestRowOf (askedRequest adminActionSuspend [''u@s''] ''''))"
    by (simp add: requestRowFits_def requestRowOf_def askedRequest_def requestFromMsg_def askMsg_def
        adminActions_def mailActions_def action_defs)
  then show "openAdminRequest aServer second (Some ''a@s'') (Some (askMsg ''i'' adminActionSuspend [''u@s''] '''')) aDb =
      (Done 201 (askedRequest adminActionSuspend [''u@s''] ''''), suspendU,
       [PushAdminRecord (RecRequest (askedRequest adminActionSuspend [''u@s''] ''''))])"
    using openAdminRequest_asked [OF validate_suspend] by (simp add: waitingDb_def)
qed

lemma aDb_inv: "requestInv ''s'' aDb"
  by (simp add: requestInv_def aDb_def ledgerInv_def)

text \<open>A run: \<open>b\<close> approves it.\<close>

lemma prepare_approve:
  assumes "sorted t" and ex: "adminExecutorFor aServer second a \<noteq> None"
  shows "prepareDecision aServer second (Some ''b@s'') ''i'' (Some (decisionMsg adminDecisionApprove ''b''))
     (waitingDb a t b) = Inr (bApproves a t b)"
proof -
  let ?d = "waitingDb a t b"
  have "userRoleQ aDb ''b@s'' = roleAdmin" by code_simp
  then have caller: "adminCaller ?d (Some ''b@s'') = Inr (''b@s'', roleAdmin)"
    by (simp add: adminCaller_def waiting_users)
  have "callerSigningKey aDb ''b@s/k'' ''b@s'' = Inr \<lparr>key_id = ''b@s/k'', key_user = ''b@s'',
      key_armor = ''k'', key_revoked = False, key_restricted = False\<rparr>"
    by code_simp
  moreover have "db_keys ?d = db_keys aDb" "db_key_revocations ?d = db_key_revocations aDb"
    "db_private_keys ?d = db_private_keys aDb"
    by (simp_all add: waitingDb_def)
  then have "callerSigningKey ?d i u = callerSigningKey aDb i u" for i u
    by (simp only: callerSigningKey_def getPublicKey_def)
  ultimately have key: "callerSigningKey ?d ''b@s/k'' ''b@s'' = Inr \<lparr>key_id = ''b@s/k'', key_user = ''b@s'',
      key_armor = ''k'', key_revoked = False, key_restricted = False\<rparr>"
    by simp
  have get: "getAdminRequestQ ?d ''i'' = Some (askedRequest a t b)"
    using waiting_get [OF assms(1)] by (simp add: trim_i)
  have x: "ad_decision (decisionMsg adminDecisionApprove ''b'') = adminDecisionApprove"
    "ad_decider (decisionMsg adminDecisionApprove ''b'') = ''b@s''"
    "us_id (ad_sig (decisionMsg adminDecisionApprove ''b'')) = ''b@s/k''"
    by (simp_all add: decisionMsg_def)
  have "stateForDecision adminDecisionApprove = adminStateExecuted" "adminStateExecuted \<noteq> ''''"
    by (simp_all add: stateForDecision_def state_defs)
  moreover have "\<not> openedBeforeRecovery aServer ?d (askedRequest a t b)"
    by (simp add: openedBeforeRecovery_def recovering_def recoveryModeLockdown_def recoveryModeOperational_def)
  ultimately show ?thesis
    using ex by (simp add: prepareDecision_def caller get x key Let_def bApproves_def truncateSecond_def second_def)
qed

lemma b_decides:
  assumes "sorted t" "adminExecutorFor aServer second a \<noteq> None"
    and com: "commitDecision aServer second ''b@s'' (bApproves a t b) (waitingDb a t b) = Inr ((req, entry), d')"
  shows "\<exists>fx. decided adminDecisionApprove ''b'' (waitingDb a t b) = (Done 200 req, d', fx)"
proof -
  have "ad_decider (pr_decision (bApproves a t b)) = ''b@s''"
    by (simp add: bApproves_def decisionMsg_def)
  then show ?thesis
    using com by (simp add: decided_def decideAdminRequest_def prepare_approve [OF assms(1,2)] withAdminTx_def)
qed

lemma run_suspend:
  "\<exists>req d' fx. decided adminDecisionApprove ''b'' suspendU = (Done 200 req, d', fx) \<and>
     (\<exists>r \<in> set (db_requests d'). rr_state r = adminStateExecuted)"
proof -
  obtain req entry d' where com:
    "commitDecision aServer second ''b@s'' (bApproves adminActionSuspend [''u@s''] '''') suspendU = Inr ((req, entry), d')"
    using suspendU_approved by auto
  have "\<exists>r \<in> set (db_requests d'). rr_state r = adminStateExecuted"
    using commit_closes [OF com] by (auto simp: bApproves_def)
  then show ?thesis using b_decides [OF _ _ com] by (auto simp: validate_suspend_tail)
qed

lemma suspendU_inv: "requestInv ''s'' suspendU"
proof (rule waiting_inv)
  show "openedProperly ''s'' (requestRowOf (askedRequest adminActionSuspend [''u@s''] ''''))"
    by (simp add: openedProperly_def requestRowOf_def) code_simp
qed

lemma promoteU_inv: "requestInv ''s'' promoteU"
proof (rule waiting_inv)
  show "openedProperly ''s'' (requestRowOf (askedRequest adminActionPromote [''u@s''] permUserKick))"
    by (simp add: openedProperly_def requestRowOf_def) code_simp
qed

lemma run_promote:
  "\<exists>req d' fx. decided adminDecisionApprove ''b'' promoteU = (Done 200 req, d', fx) \<and>
     (''u@s'', permUserKick) \<in> set (db_permissions d') \<and> userRoleQ d' ''u@s'' = roleAdmin"
proof -
  obtain req entry d' where com:
    "commitDecision aServer second ''b@s'' (bApproves adminActionPromote [''u@s''] permUserKick) promoteU = Inr ((req, entry), d')"
    using promoteU_approved by auto
  moreover have "adminExecutorFor aServer second adminActionPromote \<noteq> None"
    by (simp add: adminExecutorFor_def action_defs)
  moreover have "(''u@s'', permUserKick) \<in> set (db_permissions d') \<and> userRoleQ d' ''u@s'' = roleAdmin"
  proof (rule commit_runs [OF promoteU_inv bApproves_for com])
    show "adminExecutorFor aServer second adminActionPromote \<noteq> None"
      by (simp add: adminExecutorFor_def action_defs)
    fix locked
    assume l: "getAdminRequestQ promoteU (rq_id (pr_request (bApproves adminActionPromote [''u@s''] permUserKick))) = Some locked"
      and run: "ad_decision (pr_decision (bApproves adminActionPromote [''u@s''] permUserKick)) = adminDecisionApprove \<longrightarrow>
       (\<exists>ex d1. adminExecutorFor aServer second (rq_action locked) = Some ex \<and>
          ax_validate ex promoteU (locked\<lparr>rq_decision := Some (pr_decision (bApproves adminActionPromote [''u@s''] permUserKick))\<rparr>) = None \<and>
          ax_execute ex (locked\<lparr>rq_decision := Some (pr_decision (bApproves adminActionPromote [''u@s''] permUserKick))\<rparr>) promoteU = Inr d1 \<and>
          onlyRecords d1 d')"
    have lk: "locked = askedRequest adminActionPromote [''u@s''] permUserKick"
      using l waiting_get [of "[''u@s'']" adminActionPromote permUserKick] by (simp add: bApproves_def)
    have "adminExecutorFor aServer second adminActionPromote = Some (promoteExecutor aServer second)"
      "parsePermissionSet permUserKick = Inr [permUserKick]"
      "ad_decision (pr_decision (bApproves adminActionPromote [''u@s''] permUserKick)) = adminDecisionApprove"
      by (simp add: adminExecutorFor_def action_defs, code_simp, simp add: bApproves_def decisionMsg_def)
    then obtain d1 where "recountersignProfileTx aServer second ''u@s'' roleAdmin [permUserKick] promoteU = Inr d1"
      "sameAuthority d1 d'"
      using run onlyRecords_authority by (auto simp: lk promoteExecutor_def firstTarget_def)
    then show ?thesis using permissions_set [of aServer second "''u@s''" roleAdmin "[permUserKick]" promoteU d1]
        userRow_set_role [of aServer second "''u@s''" roleAdmin "[permUserKick]" promoteU d1]
      by (simp add: sameAuthority_def)
  qed
  ultimately show ?thesis using b_decides [OF _ _ com] by auto
qed

text \<open>
  C1.  The handlers of the two-admin protocol, called in any order, keep the invariant of the requests
  table and the ledger: unique ids, targets that are local users and never root, a close that is
  countersigned and made by whoever may make it, and one ledger entry for each executed request that
  is not a private message.
\<close>

theorem requests_invariant:
  assumes "(adminCall E)\<^sup>*\<^sup>* d d'" and "requestInv (e_server_id E) d"
  shows "requestInv (e_server_id E) d'"
  by (rule requests.inv_reachable [OF adminCalls_steps [OF assms(1)] assms(2)])

theorem requests_invariant_witness: "adminCall aServer aDb suspendU \<and> requestInv ''s'' suspendU"
  using run_open requests_invariant [OF r_into_rtranclp [of "adminCall aServer", OF run_open]] aDb_inv by simp

subsection \<open>What a closed request stays\<close>

text \<open>A closed request next to a waiting one, and a run that drops \<open>u\<close>.\<close>

definition closedSuspendU :: db where
  "closedSuspendU = suspendU\<lparr>db_requests := db_requests suspendU @
     [closedRow adminStateWithdrawn (Some (decisionMsg adminDecisionWithdraw ''a'')) noServerSig
       ((requestRowOf (askedRequest adminActionKick [''u@s''] ''''))\<lparr>rr_id := ''j''\<rparr>)]\<rparr>"

text \<open>
  C2.  A request that has been executed, rejected, withdrawn or closed as moot is final: no run of the
  handlers changes its row, so it is never decided twice, reopened or deleted.
\<close>

theorem closed_request_final:
  assumes "(adminCall E)\<^sup>*\<^sup>* d d'" and "r \<in> set (db_requests d)" and "rr_state r \<noteq> adminStatePending"
  shows "r \<in> set (db_requests d')"
proof -
  obtain r' where "r' \<in> set (db_requests d')" "requestKept r r'"
    using reachable_kept [OF adminCalls_steps [OF assms(1)]] assms(2) unfolding requestsKept_def by blast
  then show ?thesis using assms(3) by (simp add: requestKept_def)
qed

theorem closed_request_final_witness:
  "\<exists>r. r \<in> set (db_requests closedSuspendU) \<and>
     r \<in> set (db_requests (fst (dropFromAdminRequests aServer second ''u@s'' closedSuspendU)))"
proof -
  let ?r = "closedRow adminStateWithdrawn (Some (decisionMsg adminDecisionWithdraw ''a'')) noServerSig
       ((requestRowOf (askedRequest adminActionKick [''u@s''] ''''))\<lparr>rr_id := ''j''\<rparr>)"
  have step: "adminCall aServer closedSuspendU (fst (dropFromAdminRequests aServer second ''u@s'' closedSuspendU))"
    by (rule adminCall.callDrop [OF surjective_pairing])
  have r: "?r \<in> set (db_requests closedSuspendU)" "rr_state ?r \<noteq> adminStatePending"
    by (simp_all add: closedSuspendU_def state_defs)
  show ?thesis using closed_request_final [OF r_into_rtranclp [of "adminCall aServer", OF step] r] r(1) by blast
qed

subsection \<open>Dual control\<close>

text \<open>
  C3.  From a server with no requests and an empty ledger, every request that any run leaves executed
  or rejected was closed by someone who isn't its requester unless that is root, and who isn't one of
  its targets; its targets are distinct local users, never root; and a withdrawn one was closed by its
  requester.
\<close>

theorem dual_control:
  assumes "(adminCall E)\<^sup>*\<^sup>* d d'" and "db_requests d = []" "db_ledger d = []" and "r \<in> set (db_requests d')"
  shows "(rr_state r \<in> {adminStateExecuted, adminStateRejected} \<longrightarrow>
      (\<exists>who sig. rr_closed_by r = Some (who, sig) \<and> who \<notin> fst ` set (rr_targets r) \<and>
         (who \<noteq> rr_requester r \<or> isRootIdentity who (e_server_id E)))) \<and>
    (rr_state r = adminStateWithdrawn \<longrightarrow> (\<exists>sig. rr_closed_by r = Some (rr_requester r, sig))) \<and>
    distinct (map fst (rr_targets r)) \<and>
    (\<forall>t \<in> fst ` set (rr_targets r). identityServerID t = Some (e_server_id E) \<and>
      \<not> isRootIdentity t (e_server_id E))"
proof -
  have "requestInv (e_server_id E) d" using assms(2,3) by (simp add: requestInv_def ledgerInv_def)
  then have inv: "requestInv (e_server_id E) d'"
    by (rule requests.inv_reachable [OF adminCalls_steps [OF assms(1)]])
  note c = requestInvD(2) [OF inv assms(4), unfolded closedProperly_def]
  show ?thesis
    using c requestInvD(3) [OF inv assms(4), unfolded openedProperly_def] by blast
qed

theorem dual_control_witness:
  "\<exists>d' r. (adminCall aServer)\<^sup>*\<^sup>* aDb d' \<and> r \<in> set (db_requests d') \<and> rr_state r = adminStateExecuted \<and>
     (\<exists>who sig. rr_closed_by r = Some (who, sig) \<and> who \<notin> fst ` set (rr_targets r))"
proof -
  have none: "db_requests aDb = []" "db_ledger aDb = []" by (simp_all add: aDb_def)
  obtain d' req fx r where dec: "decided adminDecisionApprove ''b'' suspendU = (Done 200 req, d', fx)"
    and r: "r \<in> set (db_requests d')" "rr_state r = adminStateExecuted"
    using run_suspend by blast
  then have "adminCall aServer suspendU d'" unfolding decided_def by (blast intro: adminCall.callDecide)
  then have run: "(adminCall aServer)\<^sup>*\<^sup>* aDb d'" using run_open by (meson rtranclp.simps)
  show ?thesis using dual_control [OF run none r(1)] run r by blast
qed

subsection \<open>What the handlers check\<close>

lemma decided_parts:
  assumes "decideAdminRequest E now caller i msg d = (Done st req, d', fx)"
  obtains p entry c key where "caller = Some c" "c \<noteq> ''''" "msg = Some (pr_decision p)"
    "ad_decider (pr_decision p) = c" "getAdminRequestQ d i = Some (pr_request p)" "rq_id (pr_request p) = i"
    "callerSigningKey d (us_id (ad_sig (pr_decision p))) c = Inr key"
    "e_verify E (buildAdminDecisionPayload (e_jcs E) i (ad_decision (pr_decision p)) c
       (us_id (ad_sig (pr_decision p))) (us_armor (rq_sig (pr_request p))))
       (us_armor (ad_sig (pr_decision p))) (key_armor key)"
    "preparedFor E now d p" "commitDecision E now c p d = Inr ((req, entry), d')"
proof -
  obtain p entry where p: "prepareDecision E now caller i msg d = Inr p"
    and com: "commitDecision E now (ad_decider (pr_decision p)) p d = Inr ((req, entry), d')"
    using decideAdminRequest_step [OF assms] by auto
  show thesis
    using p
  proof (rule prepareDecision_Inr)
    fix c key
    assume "caller = Some c" "c \<noteq> ''''" "msg = Some (pr_decision p)" "ad_decider (pr_decision p) = c"
      "getAdminRequestQ d i = Some (pr_request p)"
      "callerSigningKey d (us_id (ad_sig (pr_decision p))) c = Inr key"
      "e_verify E (buildAdminDecisionPayload (e_jcs E) (rq_id (pr_request p)) (ad_decision (pr_decision p)) c
         (us_id (ad_sig (pr_decision p))) (us_armor (rq_sig (pr_request p))))
         (us_armor (ad_sig (pr_decision p))) (key_armor key)"
    moreover have "rq_id (pr_request p) = i"
      using \<open>getAdminRequestQ d i = Some (pr_request p)\<close> by (rule getAdminRequestQ_row) simp
    ultimately show thesis using com prepareDecision_fits [OF p] by (intro that [of c p key entry]) simp_all
  qed
qed

text \<open>
  C4.  A decision the server accepts is signed by its caller with one of their own unrevoked keys over
  this request, on a pending request; a withdrawal comes from the requester; an approval or a rejection
  comes from an admin who holds every permission the request needs or grants, isn't the requester
  unless root, isn't a target, wasn't invited by the requester for a kick or a change of permissions,
  and is root when a remaining target is an admin.
\<close>

theorem decision_is_checked:
  assumes "decideAdminRequest E now caller i msg d = (Done st req, d', fx)"
  shows "\<exists>c x r key. caller = Some c \<and> msg = Some x \<and> ad_decider x = c \<and>
    getAdminRequestQ d i = Some r \<and> rq_state r = adminStatePending \<and>
    getPublicKey d (us_id (ad_sig x)) = Some key \<and> key_user key = c \<and> \<not> key_revoked key \<and>
    e_verify E (buildAdminDecisionPayload (e_jcs E) i (ad_decision x) c (us_id (ad_sig x)) (us_armor (rq_sig r)))
      (us_armor (ad_sig x)) (key_armor key) \<and>
    (if ad_decision x = adminDecisionWithdraw then c = rq_requester r
     else isAdmin (userRoleQ d c) \<and> c \<notin> set (rq_targets r) \<and>
       checkActorPermissionsQ d r c (userRoleQ d c) (e_server_id E) = None \<and>
       (c = rq_requester r \<longrightarrow> isRoot c (userRoleQ d c) (e_server_id E)) \<and>
       (adminActionNeedsOutsideApprover (rq_action r) \<longrightarrow> \<not> invitedByQ d (rq_requester r) c) \<and>
       ((\<exists>t \<in> set (remainingTargets r). userRoleQ d t = roleAdmin) \<longrightarrow>
          isRoot c (userRoleQ d c) (e_server_id E)))"
proof -
  obtain p entry c key where p: "caller = Some c" "msg = Some (pr_decision p)"
    "ad_decider (pr_decision p) = c" "getAdminRequestQ d i = Some (pr_request p)" "rq_id (pr_request p) = i"
    "callerSigningKey d (us_id (ad_sig (pr_decision p))) c = Inr key"
    "e_verify E (buildAdminDecisionPayload (e_jcs E) i (ad_decision (pr_decision p)) c
       (us_id (ad_sig (pr_decision p))) (us_armor (rq_sig (pr_request p))))
       (us_armor (ad_sig (pr_decision p))) (key_armor key)"
    and com: "commitDecision E now c p d = Inr ((req, entry), d')"
    using assms by (rule decided_parts)
  obtain locked where l: "getAdminRequestQ d (rq_id (pr_request p)) = Some locked" "rq_state locked = adminStatePending"
    and w: "ad_decision (pr_decision p) = adminDecisionWithdraw \<longrightarrow> c = rq_requester locked"
    and chk: "ad_decision (pr_decision p) \<noteq> adminDecisionWithdraw \<longrightarrow>
       checkDeciderQ d locked c (e_server_id E) = None"
    using com by (rule commitDecision_Inr)
  have "locked = pr_request p" using l(1) p(4,5) by simp
  then show ?thesis
    using p(1-4,7) l(2) w chk checkDeciderQ_None [of d "pr_request p" c "e_server_id E"]
      callerSigningKey_Inr [THEN iffD1, OF p(6)]
    by (intro exI [of _ c] exI [of _ "pr_decision p"] exI [of _ "pr_request p"] exI [of _ key]) auto
qed

theorem decision_is_checked_witness:
  "\<exists>req d' fx r key. decided adminDecisionApprove ''b'' suspendU = (Done 200 req, d', fx) \<and>
     getAdminRequestQ suspendU ''i'' = Some r \<and> ''b@s'' \<notin> set (rq_targets r) \<and>
     isAdmin (userRoleQ suspendU ''b@s'') \<and> getPublicKey suspendU ''b@s/k'' = Some key \<and> key_user key = ''b@s''"
proof -
  obtain req d' fx where dec: "decided adminDecisionApprove ''b'' suspendU = (Done 200 req, d', fx)"
    using run_suspend by blast
  have "ad_decision (decisionMsg adminDecisionApprove ''b'') \<noteq> adminDecisionWithdraw"
    "us_id (ad_sig (decisionMsg adminDecisionApprove ''b'')) = ''b@s/k''"
    by (simp_all add: decisionMsg_def decision_defs)
  then show ?thesis
    using decision_is_checked [OF dec [unfolded decided_def]] dec by auto
qed



text \<open>
  C6.  No decision ever changes root's role, and it changes anyone else's only if they are a target of
  an approved promotion or permission change, which makes them an admin, or of an approved demotion,
  which makes them a plain user.
\<close>

theorem role_changes:
  assumes "requestInv (e_server_id E) d" and "decideAdminRequest E now caller i msg d = (a, d', fx)"
    and "userRoleQ d' v \<noteq> userRoleQ d v"
  shows "\<not> isRootIdentity v (e_server_id E) \<and>
    (\<exists>r. getAdminRequestQ d i = Some r \<and> v \<in> set (rq_targets r) \<and>
      (rq_action r \<in> {adminActionPromote, adminActionPermissions} \<and> userRoleQ d' v = roleAdmin \<or>
       rq_action r = adminActionDemote \<and> userRoleQ d' v = roleUser))"
proof -
  obtain st req where a: "decideAdminRequest E now caller i msg d = (Done st req, d', fx)"
    using decideAdminRequest_step [OF assms(2)] assms(2,3) by auto
  obtain p entry c where p: "rq_id (pr_request p) = i" "preparedFor E now d p"
    and com: "commitDecision E now c p d = Inr ((req, entry), d')"
    using a by (rule decided_parts)
  obtain r where r: "getAdminRequestQ d i = Some r" "v \<in> set (rq_targets r)"
    "rq_action r \<in> {adminActionPromote, adminActionPermissions} \<and> userRoleQ d' v = roleAdmin \<or>
       rq_action r = adminActionDemote \<and> userRoleQ d' v = roleUser"
    using changed_role [OF assms(1) p(2) com assms(3)] p(1) by auto
  obtain row where row: "row \<in> set (db_requests d)" "r = scanAdminRequest row"
    using r(1) by (rule getAdminRequestQ_row)
  then have "\<not> isRootIdentity v (e_server_id E)"
    using requestInvD(3) [OF assms(1) row(1)] r(2) by (auto simp: openedProperly_def)
  then show ?thesis using r by blast
qed

theorem role_changes_witness:
  "\<exists>req d' fx. decided adminDecisionApprove ''b'' promoteU = (Done 200 req, d', fx) \<and>
     userRoleQ d' ''u@s'' \<noteq> userRoleQ promoteU ''u@s'' \<and> userRoleQ d' ''u@s'' = roleAdmin"
proof -
  obtain req d' fx where dec: "decided adminDecisionApprove ''b'' promoteU = (Done 200 req, d', fx)"
    and role: "userRoleQ d' ''u@s'' = roleAdmin"
    using run_promote by blast
  have "userRoleQ aDb ''u@s'' = roleUser" by code_simp
  then have "userRoleQ d' ''u@s'' \<noteq> userRoleQ promoteU ''u@s''"
    using role by (simp add: waiting_users roleAdmin_def roleUser_def)
  moreover have "requestInv (e_server_id aServer) promoteU" by (simp add: promoteU_inv)
  ultimately show ?thesis
    using role_changes [of aServer promoteU second "Some (''b'' @ ''@s'')" "''i''"
        "Some (decisionMsg adminDecisionApprove ''b'')" "Done 200 req" d' fx "''u@s''"] dec role
    by (auto simp: decided_def)
qed







subsection \<open>What approvals do\<close>

lemma approved_runs:
  assumes "requestInv (e_server_id E) d" and "decideAdminRequest E now caller i (Some x) d = (Done st req, d', fx)"
    and "ad_decision x = adminDecisionApprove" and "getAdminRequestQ d i = Some r"
  obtains ex d1 where "adminExecutorFor E now (rq_action r) = Some ex"
    "ax_validate ex d (r\<lparr>rq_decision := Some x\<rparr>) = None"
    "ax_execute ex (r\<lparr>rq_decision := Some x\<rparr>) d = Inr d1" "onlyRecords d1 d'"
proof -
  obtain p entry c where p: "x = pr_decision p" "rq_id (pr_request p) = i" "preparedFor E now d p"
    and com: "commitDecision E now c p d = Inr ((req, entry), d')"
    using assms(2) by (rule decided_parts) auto
  show thesis
    by (rule commit_runs [OF assms(1) p(3) com]) (use assms(3,4) p that in auto)
qed

lemma suspended_after:
  assumes "onlyRecords d1 d'" "userRow d1 v = (if v \<in> T then map_option f (userRow d v) else userRow d v)"
  shows "userRow d' v = (if v \<in> T then map_option f (userRow d v) else userRow d v)"
  using assms onlyRecords_fields(1) [OF assms(1)] by (simp add: userRow_def)

text \<open>
  Approving a suspension marks each target left, and nobody else, as suspended by this request;
  approving a reinstatement clears the mark of each target left, and of nobody else.
\<close>

theorem suspension_effect:
  assumes "requestInv (e_server_id E) d" and "decideAdminRequest E now caller i (Some x) d = (Done st req, d', fx)"
    and "ad_decision x = adminDecisionApprove" and "getAdminRequestQ d i = Some r"
    and "rq_action r \<in> {adminActionSuspend, adminActionReinstate}" and "userRow d v \<noteq> None"
  shows "suspendedByQ d' v = (if v \<notin> set (remainingTargets r) then suspendedByQ d v
    else if rq_action r = adminActionSuspend then i else '''')"
proof -
  obtain ex d1 where ex: "adminExecutorFor E now (rq_action r) = Some ex"
    and run: "ax_execute ex (r\<lparr>rq_decision := Some x\<rparr>) d = Inr d1" and tail: "onlyRecords d1 d'"
    using approved_runs [OF assms(1-4)] by metis
  have rem: "remainingTargets (r\<lparr>rq_decision := Some x\<rparr>) = remainingTargets r" "rq_id r = i"
    using assms(4) by (auto simp: remainingTargets_def elim!: getAdminRequestQ_row)
  obtain row where row: "userRow d v = Some row" using assms(6) by auto
  show ?thesis
  proof (cases "rq_action r = adminActionSuspend")
    case True
    then have "ex = suspendExecutor" using ex by (simp add: adminExecutorFor_def)
    then have "userRow d' v = (if v \<in> set (remainingTargets r)
        then map_option (\<lambda>q. q\<lparr>u_suspended := Some i\<rparr>) (userRow d v) else userRow d v)"
      using suspended_after [OF tail suspend_execute] run rem by simp
    then show ?thesis using True row by (simp add: suspendedByQ_def)
  next
    case False
    then have "rq_action r = adminActionReinstate" using assms(5) by simp
    then have "ex = reinstateExecutor" using ex by (simp add: adminExecutorFor_def action_defs)
    then have "userRow d' v = (if v \<in> set (remainingTargets r)
        then map_option (\<lambda>q. q\<lparr>u_suspended := None\<rparr>) (userRow d v) else userRow d v)"
      using suspended_after [OF tail reinstate_execute] run rem by simp
    then show ?thesis using False row by (simp add: suspendedByQ_def)
  qed
qed

theorem suspension_effect_witness:
  "\<exists>req d' fx. decided adminDecisionApprove ''b'' suspendU = (Done 200 req, d', fx) \<and>
     suspendedByQ d' ''u@s'' = ''i'' \<and> suspendedByQ d' ''v@s'' = ''''"
proof -
  obtain req d' fx where dec: "decided adminDecisionApprove ''b'' suspendU = (Done 200 req, d', fx)"
    using run_suspend by blast
  have x: "ad_decision (decisionMsg adminDecisionApprove ''b'') = adminDecisionApprove"
    by (simp add: decisionMsg_def)
  have get: "getAdminRequestQ suspendU ''i'' = Some (askedRequest adminActionSuspend [''u@s''] '''')"
    using waiting_get [of "[''u@s'']" adminActionSuspend "''''"] by (simp add: trim_i)
  have rows: "userRow suspendU ''u@s'' = Some (aUser ''u'' roleUser)" "userRow suspendU ''v@s'' = Some (aUser ''v'' roleUser)"
    by (simp_all add: userRow_def rowBy_def waitingDb_def aDb_def aUser_def)
  have rem: "remainingTargets (askedRequest adminActionSuspend [''u@s''] '''') = [''u@s'']"
    by (simp add: remainingTargets_def)
  have v: "suspendedByQ suspendU ''v@s'' = ''''" using rows(2) by (simp add: suspendedByQ_def aUser_def)
  have inv: "requestInv (e_server_id aServer) suspendU" by (simp add: suspendU_inv)
  note eff = suspension_effect [OF inv dec [unfolded decided_def] x get]
  show ?thesis using eff [of "''u@s''"] eff [of "''v@s''"] rows rem v dec by simp
qed

text \<open>
  C10.  Approving a kick removes the accounts of the targets left and of nobody else.
\<close>

theorem kick_effect:
  assumes "requestInv (e_server_id E) d" and "decideAdminRequest E now caller i (Some x) d = (Done st req, d', fx)"
    and "ad_decision x = adminDecisionApprove" and "getAdminRequestQ d i = Some r"
    and "rq_action r = adminActionKick"
  shows "hasAccountRemovalQ d' v \<longleftrightarrow> v \<in> set (remainingTargets r) \<or> hasAccountRemovalQ d v"
proof -
  obtain ex d1 where ex: "adminExecutorFor E now (rq_action r) = Some ex"
    and run: "ax_execute ex (r\<lparr>rq_decision := Some x\<rparr>) d = Inr d1" and tail: "onlyRecords d1 d'"
    using approved_runs [OF assms(1-4)] by metis
  have "ex = kickExecutor E now" using ex assms(5) by (simp add: adminExecutorFor_def action_defs)
  then have "hasAccountRemovalQ d1 v \<longleftrightarrow> v \<in> set (remainingTargets (r\<lparr>rq_decision := Some x\<rparr>)) \<or> hasAccountRemovalQ d v"
    using kick_execute run by simp
  then show ?thesis
    using onlyRecords_fields(2) [OF tail] by (simp add: hasAccountRemovalQ_def remainingTargets_def)
qed

text \<open>\<open>b\<close> approves the kick of \<open>u\<close>.\<close>

abbreviation kickU :: db where "kickU \<equiv> waitingDb adminActionKick [''u@s''] ''''"

lemma kickU_runs:
  "\<exists>d1. ax_execute (kickExecutor aServer second) ((askedRequest adminActionKick [''u@s''] '''')
     \<lparr>rq_decision := Some (decisionMsg adminDecisionApprove ''b'')\<rparr>) kickU = Inr d1"
proof -
  let ?r = "(askedRequest adminActionKick [''u@s''] '''')\<lparr>rq_decision := Some (decisionMsg adminDecisionApprove ''b'')\<rparr>"
  have row: "userRow kickU ''u@s'' = Some (aUser ''u'' roleUser)"
    by (simp add: userRow_def rowBy_def waitingDb_def aDb_def aUser_def)
  have "\<not> hasAccountRemovalQ kickU ''u@s''" by (simp add: hasAccountRemovalQ_def waitingDb_def aDb_def)
  moreover have "validateAccountNote aServer '''' = None"
    by (simp add: validateAccountNote_def aServer_def maxAccountNoteLen_def)
  ultimately have "\<exists>y. storeAccountRemovalTx aServer \<lparr>ac_user = ''u@s'', ac_note = '''', ac_user_sig = '''',
      ac_user_key = '''', ac_server_sig = ''a'', ac_server_key = ''f@s'', ac_server_at = truncateSecond second,
      ac_request_id = rq_id ?r, ac_admin = None\<rparr> ''u@s'' kickU = Inr ((), y)"
    using row by (simp add: storeAccountRemovalTx_new aUser_def)
  then obtain y where y: "storeAccountRemovalTx aServer \<lparr>ac_user = ''u@s'', ac_note = '''', ac_user_sig = '''',
      ac_user_key = '''', ac_server_sig = ''a'', ac_server_key = ''f@s'', ac_server_at = truncateSecond second,
      ac_request_id = rq_id ?r, ac_admin = None\<rparr> ''u@s'' kickU = Inr ((), y)" ..
  have "kickTarget aServer second ?r ''u@s'' kickU =
      Inr (revokeInvites (\<lambda>_. True) ''u@s'' (truncateSecond second) y)"
    using y by (simp add: kickTarget_def decisionArmor_def Let_def)
  then show ?thesis by (simp add: kickExecutor_def remainingTargets_def)
qed

lemma run_kick: "\<exists>req d' fx. decided adminDecisionApprove ''b'' kickU = (Done 200 req, d', fx)"
proof -
  obtain d1 where run: "ax_execute (kickExecutor aServer second) ((askedRequest adminActionKick [''u@s''] '''')
     \<lparr>rq_decision := Some (decisionMsg adminDecisionApprove ''b'')\<rparr>) kickU = Inr d1"
    using kickU_runs ..
  have ex: "adminExecutorFor aServer second adminActionKick = Some (kickExecutor aServer second)"
    by (simp add: adminExecutorFor_def action_defs)
  have g: "grantedPermissions (askedRequest adminActionKick [''u@s''] '''') = Inr []"
    by (simp add: grantedPermissions_def action_defs)
  have "set (actionPermission adminActionKick # []) \<subseteq> set adminPermissions"
    "\<forall>u \<in> set [''u@s'']. userRoleQ aDb u \<noteq> roleAdmin" "adminActionKick \<noteq> adminActionPermissions"
    by code_simp+
  then have chk: "checkDeciderQ kickU (askedRequest adminActionKick [''u@s''] '''') ''b@s'' ''s'' = None"
    by (intro b_may_decide [OF _ _ g]) simp_all
  have "\<exists>x d'. commitDecision aServer second ''b@s'' (bApproves adminActionKick [''u@s''] '''') kickU = Inr (x, d')"
    by (rule bApproves_commits [OF _ _ ex chk _ run]) (simp_all add: kickExecutor_def)
  then obtain req entry d' where
    "commitDecision aServer second ''b@s'' (bApproves adminActionKick [''u@s''] '''') kickU = Inr ((req, entry), d')"
    by auto
  then show ?thesis using b_decides [of "[''u@s'']" adminActionKick "''''" req entry d'] ex by auto
qed

theorem kick_effect_witness:
  "\<exists>req d' fx. decided adminDecisionApprove ''b'' kickU = (Done 200 req, d', fx) \<and>
     hasAccountRemovalQ d' ''u@s'' \<and> \<not> hasAccountRemovalQ d' ''v@s''"
proof -
  obtain req d' fx where dec: "decided adminDecisionApprove ''b'' kickU = (Done 200 req, d', fx)"
    using run_kick by blast
  have x: "ad_decision (decisionMsg adminDecisionApprove ''b'') = adminDecisionApprove"
    by (simp add: decisionMsg_def)
  have get: "getAdminRequestQ kickU ''i'' = Some (askedRequest adminActionKick [''u@s''] '''')"
    using waiting_get [of "[''u@s'']" adminActionKick "''''"] by (simp add: trim_i)
  have none: "\<not> hasAccountRemovalQ kickU v" for v
    by (simp add: hasAccountRemovalQ_def waitingDb_def aDb_def)
  have "openedProperly ''s'' (requestRowOf (askedRequest adminActionKick [''u@s''] ''''))"
    by (simp add: openedProperly_def requestRowOf_def) code_simp
  then have inv: "requestInv (e_server_id aServer) kickU" by (simp add: waiting_inv)
  note eff = kick_effect [OF inv dec [unfolded decided_def] x get askedRequest_sel(2)]
  show ?thesis using eff [of "''u@s''"] eff [of "''v@s''"] none dec by (simp add: remainingTargets_def)
qed

text \<open>
  When a user's account goes, every pending request that targets them marks them dropped; one
  whose targets are then all dropped is closed as moot, and any other stays pending with its remaining
  targets.
\<close>

theorem removed_target_settles:
  assumes "requestInv (e_server_id E) d" and "r \<in> set (db_requests d)"
    and "rr_state r = adminStatePending" "(u, False) \<in> set (rr_targets r)"
    and "\<And>p. e_sign E p \<noteq> None" and "\<not> recovering (e_recovery_mode E)"
    and "dropFromAdminRequests E now u d = (d', fx)"
  shows "\<exists>r' \<in> set (db_requests d'). rr_id r' = rr_id r \<and>
    rr_targets r' = map (\<lambda>(t, dr). (t, dr \<or> t = u)) (rr_targets r) \<and>
    rr_state r' = (if \<forall>(t, dr) \<in> set (rr_targets r). dr \<or> t = u then adminStateMoot else adminStatePending)"
  by (rule drop_settles [OF assms(1,2) _ assms(5-7)]) (simp add: dropsTarget_def assms(3,4))

theorem removed_target_settles_witness:
  "\<exists>d' fx. dropFromAdminRequests aServer second ''u@s'' suspendU = (d', fx) \<and>
     (\<exists>r' \<in> set (db_requests d'). rr_state r' = adminStateMoot)"
proof -
  let ?r = "requestRowOf (askedRequest adminActionSuspend [''u@s''] '''')"
  obtain d' fx where run: "dropFromAdminRequests aServer second ''u@s'' suspendU = (d', fx)" by fastforce
  have r: "?r \<in> set (db_requests suspendU)" "rr_state ?r = adminStatePending" "(''u@s'', False) \<in> set (rr_targets ?r)"
    by (simp_all add: waitingDb_def requestRowOf_def)
  have inv: "requestInv (e_server_id aServer) suspendU" by (simp add: suspendU_inv)
  have mode: "\<not> recovering (e_recovery_mode aServer)"
    by (simp add: recovering_def recoveryModeLockdown_def recoveryModeOperational_def)
  have all: "\<forall>(t, dr) \<in> set (rr_targets ?r). dr \<or> t = ''u@s''" by (simp add: requestRowOf_def)
  show ?thesis using removed_target_settles [OF inv r _ mode run] all run by auto
qed

subsection \<open>A peer's approval\<close>

lemma verifySigner_None:
  assumes "verifySigner E now peer (u, sig, bytes) d = (None, d')"
  shows "requesterKeyBelongsTo (us_id sig) u peer \<and>
    (\<exists>k. resolvePublicKey E now (us_id sig) d = Inr (Some k, d') \<and> e_verify E bytes (us_armor sig) (key_armor k))"
  using assms by (auto simp: verifySigner_def split: if_splits sum.splits option.splits prod.splits)

text \<open>
  C11.  The approval a peer's kick or revocation carries is taken only when it is an executed, approved
  request for that action with the account among its targets, its requester isn't its approver unless
  they are that peer's root, and both signed it with keys of their own that resolve: the requester the
  request itself, the approver the decision over the requester's signature.
\<close>

theorem foreign_approval_verified:
  assumes "verifyForeignAdminRequest E now peer req action target d = (None, d')"
  shows "\<exists>dec k1 d1 k2. rq_decision req = Some dec \<and> ad_decision dec = adminDecisionApprove \<and>
    rq_state req = adminStateExecuted \<and> rq_closed req \<noteq> None \<and> rq_action req = action \<and> target \<in> set (rq_targets req) \<and>
    (ad_decider dec \<noteq> rq_requester req \<or> isRootIdentity (rq_requester req) peer) \<and>
    requesterKeyBelongsTo (us_id (rq_sig req)) (rq_requester req) peer \<and>
    requesterKeyBelongsTo (us_id (ad_sig dec)) (ad_decider dec) peer \<and>
    resolvePublicKey E now (us_id (rq_sig req)) d = Inr (Some k1, d1) \<and>
    e_verify E (requestPayload E req) (us_armor (rq_sig req)) (key_armor k1) \<and>
    resolvePublicKey E now (us_id (ad_sig dec)) d1 = Inr (Some k2, d') \<and>
    e_verify E (buildAdminDecisionPayload (e_jcs E) (rq_id req) adminDecisionApprove (ad_decider dec)
      (us_id (ad_sig dec)) (us_armor (rq_sig req))) (us_armor (ad_sig dec)) (key_armor k2)"
proof -
  obtain dec where dec: "rq_decision req = Some dec" "rq_closed req \<noteq> None" "ad_decision dec = adminDecisionApprove"
    "rq_state req = adminStateExecuted" "rq_action req = action" "target \<in> set (rq_targets req)"
    "ad_decider dec \<noteq> rq_requester req \<or> isRootIdentity (rq_requester req) peer"
    using assms by (auto simp: verifyForeignAdminRequest_def split: option.splits if_splits)
  let ?s1 = "(rq_requester req, rq_sig req, requestPayload E req)"
  let ?s2 = "(ad_decider dec, ad_sig dec, buildAdminDecisionPayload (e_jcs E) (rq_id req) (ad_decision dec)
     (ad_decider dec) (us_id (ad_sig dec)) (us_armor (rq_sig req)))"
  have "verifySigners E now peer [?s1, ?s2] d = (None, d')"
    using assms dec by (auto simp: verifyForeignAdminRequest_def split: if_splits)
  then obtain d1 where "verifySigner E now peer ?s1 d = (None, d1)" "verifySigner E now peer ?s2 d1 = (None, d')"
    by (auto split: prod.splits option.splits)
  then show ?thesis using verifySigner_None dec by (metis (no_types, lifting))
qed

text \<open>Two users of the peer \<open>t\<close>, their keys known here, and the request one approved of the other.\<close>

definition peerKeysDb :: db where
  "peerKeysDb = aDb\<lparr>db_keys := map (\<lambda>u. (aKey u)\<lparr>pk_id := u @ ''@t/k'', pk_owner := Some (u @ ''@t'')\<rparr>) [''x'', ''y'']\<rparr>"

definition peerRequest :: adminRequest where
  "peerRequest = \<lparr>rq_id = ''j'', rq_action = adminActionKick, rq_requester = ''x@t'', rq_reason = ''r'',
     rq_targets = [''z@t''], rq_dropped = [], rq_body = '''', rq_created = 0,
     rq_sig = \<lparr>us_id = ''x@t/k'', us_armor = ''a''\<rparr>, rq_opened = noServerSig, rq_state = adminStateExecuted,
     rq_decision = Some \<lparr>ad_decision = adminDecisionApprove, ad_decider = ''y@t'',
       ad_sig = \<lparr>us_id = ''y@t/k'', us_armor = ''b''\<rparr>\<rparr>, rq_closed = Some noServerSig\<rparr>"

theorem foreign_approval_verified_witness:
  "verifyForeignAdminRequest aServer 0 ''t'' peerRequest adminActionKick ''z@t'' peerKeysDb = (None, peerKeysDb) \<and>
   (\<exists>k. resolvePublicKey aServer 0 ''x@t/k'' peerKeysDb = Inr (Some k, peerKeysDb))"
proof -
  have keys: "requesterKeyBelongsTo ''x@t/k'' ''x@t'' ''t''" "requesterKeyBelongsTo ''y@t/k'' ''y@t'' ''t''"
    by code_simp+
  have "getPublicKey peerKeysDb ''x@t/k'' \<noteq> None" "getPublicKey peerKeysDb ''y@t/k'' \<noteq> None"
    by code_simp+
  then obtain k1 k2 where "resolvePublicKey aServer 0 ''x@t/k'' peerKeysDb = Inr (Some k1, peerKeysDb)"
    "resolvePublicKey aServer 0 ''y@t/k'' peerKeysDb = Inr (Some k2, peerKeysDb)"
    by (auto simp: resolvePublicKey_def)
  with keys have v: "verifyForeignAdminRequest aServer 0 ''t'' peerRequest adminActionKick ''z@t'' peerKeysDb = (None, peerKeysDb)"
    by (simp add: verifyForeignAdminRequest_def peerRequest_def verifySigner_def)
  then show ?thesis
    using foreign_approval_verified [OF v] \<open>resolvePublicKey aServer 0 ''x@t/k'' peerKeysDb = Inr (Some k1, peerKeysDb)\<close>
    by blast
qed

end
