(* ===== verification/FlagProperties.thy ===== *)
theory FlagProperties
  imports SmallServer FlagHandlers
begin

text \<open>
  What flagging promises, stated of the routes: every route and an account's removal keep the rules of
  the flag tables, a reporter has one flag on a reed, a flag is signed by its reporter, a withdrawal
  counts once, a dismissed case stays as it is until it may be deleted, and a listing shows an admin
  every case but those about themselves.
\<close>

text \<open>Resolving a key may cache it; it touches nothing the flags live in.\<close>

definition sameFlags :: "db \<Rightarrow> db \<Rightarrow> bool" where
  "sameFlags d d' \<longleftrightarrow> db_cases d' = db_cases d \<and> db_flags d' = db_flags d \<and>
     db_reed_identities d' = db_reed_identities d"

lemma sameFlags_refl [simp]: "sameFlags d d"
  by (simp add: sameFlags_def)

lemma sameFlags_trans: "sameFlags d e \<Longrightarrow> sameFlags e f \<Longrightarrow> sameFlags d f"
  by (simp add: sameFlags_def)

lemma sameFlags_upsertIdentity [simp]: "sameFlags d (upsertIdentity u d)"
  by (simp add: sameFlags_def upsertIdentity_def)

lemma sameFlags_cache: "sameFlags d (cachePeerUserKey k sig now d)"
  by (simp add: cachePeerUserKey_def upsertIdentity_def sameFlags_def Let_def)

lemma verifyAndCache_flags:
  "verifyAndCachePeerUserKey E peer ks now d = Inr (k, d') \<Longrightarrow> sameFlags d d'"
  by (auto simp: verifyAndCachePeerUserKey_def bindR_Inr sameFlags_cache split: option.splits if_splits)

lemma resolvePublicKey_flags: "resolvePublicKey E now i d = Inr (k, d') \<Longrightarrow> sameFlags d d'"
  by (auto simp: resolvePublicKey_def dest: verifyAndCache_flags split: option.splits if_splits)

lemma checkSignedBy_flags: "checkSignedBy E now sig payload d = (e, d') \<Longrightarrow> sameFlags d d'"
  by (auto simp: checkSignedBy_def dest: resolvePublicKey_flags
      split: sum.splits option.splits prod.splits if_splits)

lemma sameFlags_inv: "sameFlags d d' \<Longrightarrow> flagInv s d \<Longrightarrow> flagInv s d'"
  by (simp add: sameFlags_def flagInv_def flagInvUpTo_def)

lemma sameFlags_getFlagQ: "sameFlags d d' \<Longrightarrow> getFlagQ d' = getFlagQ d"
  by (intro ext) (simp only: sameFlags_def getFlagQ_def findFlag_def)

text \<open>What each route does to the database: nothing to the flags, or one of the four operations.\<close>

definition flagWrite :: "env \<Rightarrow> db \<Rightarrow> db \<Rightarrow> bool" where
  "flagWrite E d d' \<longleftrightarrow> (\<exists>d1. sameFlags d d1 \<and> (d' = d1 \<or> flagStep E d1 d'))"

lemma flagWrite_same [intro]: "sameFlags d d' \<Longrightarrow> flagWrite E d d'"
  by (auto simp: flagWrite_def)

lemma flagWrite_refl [simp, intro]: "flagWrite E d d"
  by (rule flagWrite_same) simp

lemma flagWrite_step: "sameFlags d d1 \<Longrightarrow> d' = d1 \<or> flagStep E d1 d' \<Longrightarrow> flagWrite E d d'"
  by (auto simp: flagWrite_def)

lemma flagWrite_inv:
  assumes "flagWrite E d d'" and "flagInv (e_server_id E) d"
  shows "flagInv (e_server_id E) d'"
  using assms by (auto simp: flagWrite_def dest: sameFlags_inv flags.inv_step)

lemma storeFlag_write:
  assumes "storeFlag E ids now f d = (r, d', fx)"
  shows "d' = d \<or> flagStep E d d'"
  using assms
  by (auto simp: storeFlag_def Let_def withAdminTx_def split: sum.splits prod.splits
      intro: flagStep.storeFlag)

lemma verifyFlag_flags: "verifyFlagSignature E now f d = (x, d1) \<Longrightarrow> sameFlags d d1"
  by (simp add: verifyFlagSignature_def checkSignedBy_flags)

lemma flagReed_write: "flagReed E callPeer ids now caller msg d = (a, d', fx) \<Longrightarrow> flagWrite E d d'"
  unfolding flagReed_def Let_def
  by (auto dest: verifyFlag_flags flagWrite_step [OF _ storeFlag_write]
      split: option.splits if_splits prod.splits sum.splits)

lemma verifyFlag_upsert:
  "verifyFlagSignature E now f d = (x, d1) \<Longrightarrow> sameFlags d (upsertIdentity u d1)"
  using sameFlags_trans [OF verifyFlag_flags sameFlags_upsertIdentity] .

lemma flagFromPeer_write: "flagFromPeer E ids now peer msg d = (a, d', fx) \<Longrightarrow> flagWrite E d d'"
  unfolding flagFromPeer_def Let_def
  by (auto dest: verifyFlag_flags flagWrite_step [OF verifyFlag_upsert storeFlag_write]
      split: option.splits if_splits prod.splits sum.splits)

lemma dismissCaseTx_write: "withAdminTx (dismissCaseTx x) d = (r, d') \<Longrightarrow> d' = d \<or> flagStep E d d'"
  by (auto simp: withAdminTx_def dismissCaseTx_def split: sum.splits prod.splits
      intro: flagStep.dismissCase)

lemma checkDismissal_flags: "checkFlagDismissal E now x rawReason d = (e, d') \<Longrightarrow> sameFlags d d'"
  by (auto simp: checkFlagDismissal_def dest: checkSignedBy_flags split: if_splits)

lemma dismissCase_write: "dismissCase E now caller caseID msg d = (a, d', fx) \<Longrightarrow> flagWrite E d d'"
  unfolding dismissCase_def Let_def
  by (auto dest: checkDismissal_flags flagWrite_step [OF checkDismissal_flags dismissCaseTx_write]
      split: option.splits if_splits prod.splits sum.splits)

lemma deleteFlagCase_write: "deleteFlagCase now caller caseID d = (a, d', fx) \<Longrightarrow> flagWrite E d d'"
  unfolding deleteFlagCase_def
  by (auto simp: withAdminTx_def split: if_splits prod.splits sum.splits
      intro: flagWrite_step [OF sameFlags_refl] flagStep.deleteFlagCase)

lemma withdrawFlag_write:
  "withdrawFlag E now reedID reporterID sig d = (r, d', fx) \<Longrightarrow> flagWrite E d d'"
  unfolding withdrawFlag_def Let_def
  by (auto simp: withAdminTx_def dest: checkSignedBy_flags
      split: option.splits if_splits prod.splits sum.splits
      intro: flagWrite_step [OF checkSignedBy_flags] flagStep.withdrawFlag)

lemma answerFlag_Pair: "answerFlag p = (a, d', fx) \<Longrightarrow> \<exists>r. p = (r, d', fx)"
  by (auto simp: answerFlag_def split: prod.splits sum.splits)

lemma withdrawOwnFlag_write:
  "withdrawOwnFlag E callPeer now caller reedID body d = (a, d', fx) \<Longrightarrow> flagWrite E d d'"
  unfolding withdrawOwnFlag_def
  by (auto split: sum.splits option.splits dest!: answerFlag_Pair withdrawFlag_write)

lemma flagWithdrawalFromPeer_write:
  "flagWithdrawalFromPeer E now peer msg d = (a, d', fx) \<Longrightarrow> flagWrite E d d'"
  unfolding flagWithdrawalFromPeer_def
  by (auto split: sum.splits dest!: answerFlag_Pair withdrawFlag_write)


subsection \<open>The rules of the flag tables\<close>

inductive flagCall :: "env \<Rightarrow> db \<Rightarrow> db \<Rightarrow> bool" for E where
  callFlag: "flagReed E callPeer ids now caller msg d = (a, d', fx) \<Longrightarrow> flagCall E d d'"
| callFlagFromPeer: "flagFromPeer E ids now peer msg d = (a, d', fx) \<Longrightarrow> flagCall E d d'"
| callWithdraw: "withdrawOwnFlag E callPeer now caller reedID body d = (a, d', fx) \<Longrightarrow> flagCall E d d'"
| callWithdrawFromPeer: "flagWithdrawalFromPeer E now peer msg d = (a, d', fx) \<Longrightarrow> flagCall E d d'"
| callDismiss: "dismissCase E now caller caseID dmsg d = (b, d', fx) \<Longrightarrow> flagCall E d d'"
| callDelete: "deleteFlagCase now caller caseID d = (c, d', fx) \<Longrightarrow> flagCall E d d'"
| callRemoval: "insertAccountRemovalCert E cert d = (r, d') \<Longrightarrow> flagCall E d d'"

lemma flagCall_cases:
  assumes "flagCall E d d'"
  obtains "flagWrite E d d'" | cert where "storeAccountRemovalTx E cert (canonicalID (e_server_id E) (ac_user cert)) d = Inr ((), d')"
  using assms
proof (cases rule: flagCall.cases)
  case (callRemoval cert r)
  then show ?thesis
    using that by (auto simp: insertAccountRemovalCert_def withAdminTx_def split: sum.splits prod.splits)
qed (auto dest: flagReed_write flagFromPeer_write withdrawOwnFlag_write
      flagWithdrawalFromPeer_write dismissCase_write deleteFlagCase_write intro: that(1))

interpretation flagRoutes: transition_system "flagCall E" "flagInv (e_server_id E)" for E
proof
  fix d d'
  assume inv: "flagInv (e_server_id E) d" and "flagCall E d d'"
  from this(2) show "flagInv (e_server_id E) d'"
    by (rule flagCall_cases) (auto intro: flagWrite_inv [OF _ inv] storeAccountRemovalTx_inv(1) [OF _ inv])
qed

text \<open>\<open>v\<close> flags \<open>u\<close>'s reed.\<close>

definition flagMsg :: reedFlag where
  "flagMsg = \<lparr>rf_reed = ''u@s/r'', rf_author = '''', rf_reporter = ''v@s'', rf_note = ''n'', rf_case = '''',
     rf_sig = \<lparr>us_id = ''v@s/k'', us_armor = ''a''\<rparr>, rf_server_sig = noServerSig, rf_withdrawal = None,
     rf_dismissal = None\<rparr>"

definition heldFlag :: reedFlag where
  "heldFlag = flagMsg\<lparr>rf_server_sig := \<lparr>ss_id = ''f@s'', ss_armor = ''a'', ss_at = second\<rparr>,
     rf_case := ''c'', rf_author := ''u@s''\<rparr>"

definition flaggedDb :: db where
  "flaggedDb = aDb\<lparr>db_cases := [\<lparr>fc_id = ''c'', fc_reed = ''u@s/r'', fc_opened_at = second,
       fc_restored = False, fc_dismissed_by = None, fc_reason = None, fc_dismissal = None, fc_voided_at = None\<rparr>],
     db_flags := [\<lparr>fl_reed = ''u@s/r'', fl_author = ''u@s'', fl_reporter = ''v@s'', fl_note = ''n'',
       fl_user_sig = \<lparr>us_id = ''v@s/k'', us_armor = ''a''\<rparr>,
       fl_server_sig = \<lparr>ss_id = ''f@s'', ss_armor = ''a'', ss_at = second\<rparr>, fl_created = second, fl_case = ''c'',
       fl_withdrawal = None\<rparr>]\<rparr>"

lemma storeFlagTx_flagMsg:
  assumes "\<And>c t. sign c t = Inr \<lparr>ss_id = ''f@s'', ss_armor = ''a'', ss_at = t\<rparr>"
  shows "storeFlagTx aServer sign [''c''] second flagMsg aDb = Inr (heldFlag, flaggedDb)"
proof -
  have "reedAuthorQ aDb (rf_reed flagMsg) ''s'' = Some ''u@s''" by code_simp
  moreover have "\<not> isRootIdentity ''u@s'' ''s''" by code_simp
  moreover have "db_flags aDb = []" "db_cases aDb = []" by (simp_all add: aDb_def)
  ultimately show ?thesis
    by (simp add: storeFlagTx_def assms insertReedFlagTx_def heldFlag_def flaggedDb_def flagMsg_def)
qed

lemma v_flags: "flagReed aServer callPeer [''c''] second (Some ''v@s'') (Some flagMsg) aDb =
    (Done 201 heldFlag, flaggedDb, [PushAdminRecord (RecFlag heldFlag)])"
proof -
  have msg: "reedFlagFromPB flagMsg = flagMsg" "rf_reporter flagMsg = ''v@s''" by code_simp+
  have "checkFlag aServer flagMsg = None" by code_simp
  moreover have "verifyFlagSignature aServer second flagMsg aDb = (None, aDb)"
    using v_key [of second] by (simp add: verifyFlagSignature_def checkSignedBy_def flagMsg_def)
  moreover have "authorOf (rf_reed flagMsg) = Some ''u@s''" "foreignServerOf ''s'' ''u@s'' = None" by code_simp+
  moreover have "canonicalID ''s'' ''f'' = ''f@s''" by code_simp
  then have "storeFlag aServer [''c''] second flagMsg aDb = (Inr heldFlag, flaggedDb, [PushAdminRecord (RecFlag heldFlag)])"
    by (simp add: storeFlag_def Let_def withAdminTx_def storeFlagTx_flagMsg countersign_def)
  ultimately show ?thesis by (simp add: flagReed_def msg)
qed


text \<open>
  C12.  From empty flag tables, whatever the flag routes and account removals do: a reporter has one
  flag on a reed, never on their own reed or root's, in a case about that reed; a reed has one case
  that takes flags; a case is never both dismissed and void; an open one has a flag that stands, a
  void one none.
\<close>

theorem flag_rules:
  assumes "(flagCall E)\<^sup>*\<^sup>* d d'" and "db_cases d = []" "db_flags d = []"
  shows "uniqueBy (\<lambda>f. (fl_reed f, fl_reporter f)) (db_flags d') \<and>
    uniqueBy fc_reed (filter (\<lambda>c. openCase c \<and> \<not> fc_restored c) (db_cases d')) \<and>
    (\<forall>c \<in> set (db_cases d'). (fc_dismissal c = None \<or> fc_voided_at c = None) \<and>
      (openCase c \<and> \<not> fc_restored c \<longrightarrow> (\<exists>f \<in> set (caseFlags d' (fc_id c)). fl_withdrawal f = None)) \<and>
      (fc_voided_at c \<noteq> None \<longrightarrow> (\<forall>f \<in> set (caseFlags d' (fc_id c)). fl_withdrawal f \<noteq> None))) \<and>
    (\<forall>f \<in> set (db_flags d'). fl_author f \<noteq> fl_reporter f \<and> \<not> isRootIdentity (fl_author f) (e_server_id E) \<and>
      (\<exists>c \<in> set (db_cases d'). fc_id c = fl_case f \<and> fc_reed c = fl_reed f))"
proof -
  have "flagInv (e_server_id E) d" using assms(2,3) by (simp add: flagInv_def flagInvUpTo_def)
  then have inv: "flagInv (e_server_id E) d'" by (rule flagRoutes.inv_reachable [OF assms(1)])
  have "\<exists>c \<in> set (db_cases d'). fc_id c = fl_case f \<and> fc_reed c = fl_reed f" if "f \<in> set (db_flags d')" for f
    using flagInvD(5) [OF inv that] by auto
  then show ?thesis
    using flagInvD [OF inv] by (simp add: caseFlags_def) blast
qed

theorem flag_rules_witness:
  "(flagCall aServer)\<^sup>*\<^sup>* aDb flaggedDb \<and> (\<exists>f \<in> set (db_flags flaggedDb). fl_author f \<noteq> fl_reporter f)"
proof -
  have none: "db_cases aDb = []" "db_flags aDb = []" by (simp_all add: aDb_def)
  have run: "(flagCall aServer)\<^sup>*\<^sup>* aDb flaggedDb"
    by (rule r_into_rtranclp) (rule flagCall.callFlag [OF v_flags])
  have "db_flags flaggedDb \<noteq> []" by (simp add: flaggedDb_def)
  then obtain f where "f \<in> set (db_flags flaggedDb)" by (metis list.set_intros(1) neq_Nil_conv)
  then show ?thesis using flag_rules [OF run none] run by blast
qed

subsection \<open>Flagging\<close>

lemma storeFlag_Inr:
  assumes "storeFlag E ids now f d = (Inr f', d', fx)"
  shows "(\<exists>sign. storeFlagTx E sign ids now f d = Inr (f', d')) \<and> fx = [PushAdminRecord (RecFlag f')]"
  using assms by (auto simp: storeFlag_def Let_def withAdminTx_def split: sum.splits prod.splits)

text \<open>
  Once a flag is stored, the same reporter's next flag on that reed is refused as already there,
  whatever it says, and changes nothing.
\<close>

theorem one_flag_each:
  assumes "storeFlag E ids now f d = (Inr f', d', fx)"
    and "rf_reed g = rf_reed f" "rf_reporter g = rf_reporter f"
  shows "storeFlag E ids' now' g d' = (Inl (Sentinel ''ErrAlreadyFlagged''), d', [])"
proof -
  obtain sign where st: "storeFlagTx E sign ids now f d = Inr (f', d')"
    using storeFlag_Inr [OF assms(1)] by blast
  from st obtain a d1 where a: "reedAuthorQ d (rf_reed f) (e_server_id E) = Some a"
    "\<not> isRootIdentity a (e_server_id E)" "a \<noteq> rf_reporter f"
    and o: "openCaseTx ids (rf_reed f) (truncateSecond now) d = Inr (rf_case f', d1)"
    and d': "db_reed_identities d' = db_reed_identities d1"
    by (rule storeFlagTx_Inr) simp
  have "db_reed_identities d' = db_reed_identities d" using d' openCaseTx_Inr [OF o] by auto
  then have "reedAuthorQ d' (rf_reed g) (e_server_id E) = Some a"
    using a(1) assms(2) by (simp add: reedAuthorQ_def)
  then have "storeFlagTx E sg ids' now' g d' = Inl (Sentinel ''ErrAlreadyFlagged'')" for sg
    using a assms(2,3) storeFlagTx_found [OF st] by (intro storeFlagTx_once) auto
  then show ?thesis by (simp add: storeFlag_def Let_def withAdminTx_def)
qed

lemma v_stored: "storeFlag aServer [''c''] second flagMsg aDb =
   (Inr heldFlag, flaggedDb, [PushAdminRecord (RecFlag heldFlag)])"
proof -
  have "canonicalID ''s'' ''f'' = ''f@s''" by code_simp
  then show ?thesis
    by (simp add: storeFlag_def Let_def withAdminTx_def storeFlagTx_flagMsg countersign_def)
qed

theorem one_flag_each_witness:
  "storeFlag aServer [''e''] 0 (flagMsg\<lparr>rf_note := ''m''\<rparr>) flaggedDb =
     (Inl (Sentinel ''ErrAlreadyFlagged''), flaggedDb, [])"
  by (rule one_flag_each [OF v_stored]) simp_all

text \<open>
  C27.  A flag is accepted only from its reporter, on somebody else's reed, with a note that fits and a
  signature by one of the reporter's own unrevoked keys over the reed, the reporter and the note; on a
  reed of this server it is then held.
\<close>

theorem accepted_flag_is_signed:
  assumes "flagReed E callPeer ids now caller msg d = (Done st f', d', fx)"
  shows "\<exists>m author owner serverID fp k d1. msg = Some m \<and> caller = Some (rf_reporter m) \<and>
    authorOf (trimSpace (rf_reed m)) = Some author \<and> author \<noteq> rf_reporter m \<and>
    e_graphemes E (rf_note m) \<le> maxFlagNoteChars \<and>
    parseKeyFingerprint (us_id (rf_sig m)) = Some (owner, serverID, fp) \<and> canonicalID serverID owner = rf_reporter m \<and>
    resolvePublicKey E now (us_id (rf_sig m)) d = Inr (Some k, d1) \<and> \<not> key_revoked k \<and>
    e_verify E (buildReedFlagPayload (e_jcs E) (trimSpace (rf_reed m)) (rf_reporter m) (us_id (rf_sig m)) (rf_note m))
      (us_armor (rf_sig m)) (key_armor k) \<and>
    (foreignServerOf (e_server_id E) author = None \<longrightarrow> findFlag d' (trimSpace (rf_reed m)) (rf_reporter m) \<noteq> None)"
proof -
  have err: "writeFlagError e \<noteq> Done st x" for e st and x :: reedFlag
    by (cases e) (simp_all add: writeFlagError_def)
  obtain m d1 where m: "msg = Some m" "caller = Some (rf_reporter m)"
    and chk: "checkFlag E (reedFlagFromPB m) = None" "verifyFlagSignature E now (reedFlagFromPB m) d = (None, d1)"
    and own: "authorOf (trimSpace (rf_reed m)) \<noteq> Some (rf_reporter m)"
    and st: "foreignServerOf (e_server_id E) (the (authorOf (trimSpace (rf_reed m)))) = None \<Longrightarrow>
      \<exists>f'' fx'. storeFlag E ids now (reedFlagFromPB m) d1 = (Inr f'', d', fx')"
    using assms err
    by (auto simp: flagReed_def Let_def reedFlagFromPB_def intro!: that
        split: option.splits if_splits prod.splits sum.splits)
  obtain author where author: "authorOf (trimSpace (rf_reed m)) = Some author"
    using chk(1) by (auto simp: checkFlag_def reedFlagFromPB_def split: if_splits)
  obtain owner serverID fp where key: "parseKeyFingerprint (us_id (rf_sig m)) = Some (owner, serverID, fp)"
    "canonicalID serverID owner = rf_reporter m"
    using chk(1) by (auto simp: checkFlag_def reedFlagFromPB_def split: if_splits option.splits)
  have short: "e_graphemes E (rf_note m) \<le> maxFlagNoteChars"
    using chk(1) by (auto simp: checkFlag_def reedFlagFromPB_def split: if_splits)
  obtain k where k: "resolvePublicKey E now (us_id (rf_sig m)) d = Inr (Some k, d1)" "\<not> key_revoked k"
    "e_verify E (buildReedFlagPayload (e_jcs E) (trimSpace (rf_reed m)) (rf_reporter m) (us_id (rf_sig m)) (rf_note m))
      (us_armor (rf_sig m)) (key_armor k)"
    using checkSignedBy_None [OF chk(2) [unfolded verifyFlagSignature_def]]
    by (auto simp: reedFlagFromPB_def)
  have "foreignServerOf (e_server_id E) author = None \<longrightarrow>
      findFlag d' (trimSpace (rf_reed m)) (rf_reporter m) \<noteq> None"
  proof
    assume "foreignServerOf (e_server_id E) author = None"
    obtain f'' fx' where "storeFlag E ids now (reedFlagFromPB m) d1 = (Inr f'', d', fx')"
      using st author \<open>foreignServerOf (e_server_id E) author = None\<close> by auto
    then obtain sign where "storeFlagTx E sign ids now (reedFlagFromPB m) d1 = Inr (f'', d')"
      using storeFlag_Inr by blast
    then show "findFlag d' (trimSpace (rf_reed m)) (rf_reporter m) \<noteq> None"
      using storeFlagTx_found by (force simp: reedFlagFromPB_def)
  qed
  moreover have "author \<noteq> rf_reporter m" using own author by simp
  ultimately show ?thesis using m author key short k by - (intro exI conjI, assumption+)
qed

theorem accepted_flag_is_signed_witness:
  "\<exists>k d1. resolvePublicKey aServer second ''v@s/k'' aDb = Inr (Some k, d1) \<and> \<not> key_revoked k \<and>
     findFlag flaggedDb ''u@s/r'' ''v@s'' \<noteq> None"
proof -
  have "rf_reed flagMsg = ''u@s/r''" "rf_reporter flagMsg = ''v@s''" "us_id (rf_sig flagMsg) = ''v@s/k''"
    "trimSpace ''u@s/r'' = ''u@s/r''" "authorOf ''u@s/r'' = Some ''u@s''" "foreignServerOf ''s'' ''u@s'' = None"
    by (simp_all add: flagMsg_def) code_simp+
  then show ?thesis using accepted_flag_is_signed [OF v_flags] by auto
qed


subsection \<open>Withdrawing\<close>

lemma withdrawFlagTx_held:
  "withdrawFlagTx reedID reporterID w d = Inr ((g, False), d') \<longleftrightarrow>
     (\<exists>restored. getFlagQ d reedID reporterID = Some (g, False, restored)) \<and> rf_withdrawal g \<noteq> None \<and> d' = d"
  by (auto simp: withdrawFlagTx_def split: option.splits if_splits)

lemma withdrawFlagTx_withdrawn:
  "withdrawFlagTx reedID reporterID w d = Inr ((f, fresh), d') \<Longrightarrow> rf_withdrawal f \<noteq> None"
  by (auto simp: withdrawFlagTx_def split: option.splits if_splits)

text \<open>
  A flag withdrawn stays withdrawn under the first withdrawal's signatures: asked again, by
  whatever signature and at any time, the server answers with it and changes nothing.
\<close>

theorem withdrawal_counts_once:
  assumes "flagInv (e_server_id E) d" and "withdrawFlag E now reedID reporterID sig d = (Inr f, d', fx)"
  shows "\<exists>g. withdrawFlag E now' reedID reporterID sig' d' = (Inr g, d', []) \<and>
     rf_withdrawal g = rf_withdrawal f \<and> rf_withdrawal f \<noteq> None"
proof -
  have again: ?thesis if "getFlagQ d' reedID reporterID = Some (g, False, restored)"
    "rf_withdrawal g \<noteq> None" "rf_withdrawal g = rf_withdrawal f" for g restored
  proof -
    have "withdrawFlag E now' reedID reporterID sig' d' = (Inr g, d', [])"
      using that(1,2) by (simp only: withdrawFlag_def option.case prod.case if_True if_False simp_thms)
    then show ?thesis using that(2,3) by metis
  qed
  consider restored where "getFlagQ d reedID reporterID = Some (f, False, restored)" "rf_withdrawal f \<noteq> None" "d' = d"
    | d1 w fresh where "sameFlags d d1" "withdrawFlagTx reedID reporterID w d1 = Inr ((f, fresh), d')"
    using assms(2) unfolding withdrawFlag_def Let_def
    by (auto simp: withAdminTx_def dest: checkSignedBy_flags split: option.splits if_splits prod.splits sum.splits)
  then show ?thesis
  proof cases
    case (2 d1 w fresh)
    obtain g where g: "withdrawFlagTx reedID reporterID w d' = Inr ((g, False), d')" "rf_withdrawal g = rf_withdrawal f"
      using withdrawFlagTx_again [OF sameFlags_inv [OF 2(1) assms(1)] 2(2)] by blast
    from g(1) obtain restored where "getFlagQ d' reedID reporterID = Some (g, False, restored)" "rf_withdrawal g \<noteq> None"
      unfolding withdrawFlagTx_held by blast
    then show ?thesis using again g(2) by blast
  next
    case (1 restored)
    show ?thesis by (rule again [of f restored]) (simp_all add: 1)
  qed
qed

lemma flaggedDb_inv: "flagInv ''s'' flaggedDb"
proof -
  have "flagInv ''s'' aDb" by (simp add: flagInv_def flagInvUpTo_def aDb_def)
  then show ?thesis
    using flagRoutes.inv_step [of aServer, OF _ flagCall.callFlag [OF v_flags]] by simp
qed

lemma v_withdraws:
  "\<exists>f d'. withdrawFlag aServer second ''u@s/r'' ''v@s'' \<lparr>us_id = ''v@s/k'', us_armor = ''w''\<rparr> flaggedDb =
     (Inr f, d', [PushAdminRecord (RecFlag f)])"
proof -
  let ?sig = "\<lparr>us_id = ''v@s/k'', us_armor = ''w''\<rparr>"
  have held: "getFlagQ flaggedDb ''u@s/r'' ''v@s'' =
      Some (heldFlag\<lparr>rf_author := ''u@s''\<rparr>, False, False)"
    by (simp add: getFlagQ_def findFlag_def flaggedDb_def rowBy_def scanReedFlag_def heldFlag_def flagMsg_def)
  have "db_keys flaggedDb = db_keys aDb" "db_key_revocations flaggedDb = db_key_revocations aDb"
    "db_private_keys flaggedDb = db_private_keys aDb"
    by (simp_all add: flaggedDb_def)
  then have "getPublicKey flaggedDb ''v@s/k'' = getPublicKey aDb ''v@s/k''"
    by (simp only: getPublicKey_def)
  then have "resolvePublicKey aServer second ''v@s/k'' flaggedDb = Inr (Some \<lparr>key_id = ''v@s/k'',
      key_user = ''v@s'', key_armor = ''k'', key_revoked = False, key_restricted = False\<rparr>, flaggedDb)"
    by (simp add: resolvePublicKey_def v_getKey)
  then have "checkSignedBy aServer second ?sig p flaggedDb = (None, flaggedDb)" for p
    by (simp add: checkSignedBy_def)
  moreover have "parseKeyFingerprint ''v@s/k'' = Some (''v'', ''s'', ''k'')" "canonicalID ''s'' ''v'' = ''v@s''"
    by code_simp+
  moreover have "rf_withdrawal heldFlag = None" "rf_case heldFlag = ''c''" by (simp_all add: heldFlag_def flagMsg_def)
  ultimately show ?thesis
    by (simp add: withdrawFlag_def held recoveryModeLockdown_def countersign_def withAdminTx_def withdrawFlagTx_def)
qed

theorem withdrawal_counts_once_witness:
  "\<exists>f d' g. withdrawFlag aServer second ''u@s/r'' ''v@s'' \<lparr>us_id = ''v@s/k'', us_armor = ''w''\<rparr> flaggedDb =
       (Inr f, d', [PushAdminRecord (RecFlag f)]) \<and>
     withdrawFlag aServer 0 ''u@s/r'' ''v@s'' \<lparr>us_id = ''v@s/k'', us_armor = ''x''\<rparr> d' = (Inr g, d', []) \<and>
     rf_withdrawal g = rf_withdrawal f"
proof -
  obtain f d' where w: "withdrawFlag aServer second ''u@s/r'' ''v@s'' \<lparr>us_id = ''v@s/k'', us_armor = ''w''\<rparr> flaggedDb =
       (Inr f, d', [PushAdminRecord (RecFlag f)])"
    using v_withdraws by blast
  have inv: "flagInv (e_server_id aServer) flaggedDb" using flaggedDb_inv by simp
  show ?thesis
    using withdrawal_counts_once [OF inv w, of 0 "\<lparr>us_id = ''v@s/k'', us_armor = ''x''\<rparr>"] w by blast
qed

subsection \<open>Closed cases\<close>

lemma mem_updWhere: "c \<in> set xs \<Longrightarrow> \<not> p c \<Longrightarrow> c \<in> set (updWhere p f xs)"
  by (auto simp: set_updWhere)

lemma settleCase_other:
  assumes "i \<noteq> fc_id c" and "c \<in> set (db_cases d)"
  shows "c \<in> set (db_cases (settleCase i d)) \<and> db_flags (settleCase i d) = db_flags d"
proof -
  have "c \<in> set (db_cases (voidCaseIfDoneTx i e))" if "c \<in> set (db_cases e)" for e
    unfolding voidCaseIfDoneTx_def Let_def using assms(1) that by (simp add: mem_updWhere)
  then show ?thesis using assms by (simp add: settleCase_def)
qed

lemma fold_settleCase_other:
  "fc_id c \<notin> set is \<Longrightarrow> c \<in> set (db_cases d) \<Longrightarrow>
     c \<in> set (db_cases (fold settleCase is d)) \<and> db_flags (fold settleCase is d) = db_flags d"
proof (induction "is" arbitrary: d)
  case (Cons i "is")
  then have "i \<noteq> fc_id c" "fc_id c \<notin> set is" by auto
  then show ?case
    using settleCase_other [OF _ Cons.prems(2), of i] Cons.IH [of "settleCase i d"] by simp
qed simp

lemma removal_keeps_closed:
  assumes inv: "flagInv s d" and rm: "storeAccountRemovalTx E cert u d = Inr (x, d')"
    and c: "c \<in> set (db_cases d)" "\<not> openCase c"
  shows "c \<in> set (db_cases d') \<and> caseFlags d' (fc_id c) = caseFlags d (fc_id c)"
  using rm
proof (cases rule: storeAccountRemovalTx_cases)
  case 1
  then show ?thesis using c(1) by simp
next
  case (2 r)
  let ?e = "d\<lparr>db_removals := db_removals d @ [removalRowOf cert u]\<rparr>"
  let ?gone = "\<lambda>f. fl_reporter f = u \<and> inOpenCase ?e f"
  have open_id: "fl_case f \<noteq> fc_id c" if "?gone f" for f
    using that c flagInvD(1) [OF inv] by (auto simp: inOpenCase_def list_ex_iff dest: uniqueBy_inj)
  then have "fc_id c \<notin> set (remdups (map fl_case (filter ?gone (db_flags ?e))))" by fastforce
  from fold_settleCase_other [OF this, of "?e\<lparr>db_flags := filter (\<lambda>f. \<not> ?gone f) (db_flags ?e)\<rparr>"]
  have settled: "c \<in> set (db_cases (settleAccountRemovalTx u ?e))"
    "db_flags (settleAccountRemovalTx u ?e) = filter (\<lambda>f. \<not> ?gone f) (db_flags d)"
    using c(1) by (simp_all add: settleAccountRemovalTx_def Let_def)
  have d': "db_cases d' = db_cases (settleAccountRemovalTx u ?e)"
    "db_flags d' = db_flags (settleAccountRemovalTx u ?e)"
    by (simp_all add: 2 bumpActiveUsers_def updUser_def removalCore_def)
  have "filter (\<lambda>f. fl_case f = fc_id c) (filter (\<lambda>f. \<not> ?gone f) (db_flags d)) =
      filter (\<lambda>f. fl_case f = fc_id c) (db_flags d)"
    using open_id by (auto intro!: filter_cong)
  then show ?thesis using settled d' by (simp only: caseFlags_def)
qed

text \<open>
  C35.  A case an admin dismissed stays exactly as it is, with exactly its flags, whatever call comes
  next, an account's removal included; only its deletion ends it, and takes all of it.
\<close>

theorem dismissed_case_stays:
  assumes "flagInv (e_server_id E) d" and "flagCall E d d'"
    and "c \<in> set (db_cases d)" "fc_dismissal c \<noteq> None"
  shows "c \<in> set (db_cases d') \<and> caseFlags d' (fc_id c) = caseFlags d (fc_id c) \<or>
     fc_id c \<notin> fc_id ` set (db_cases d') \<and> caseFlags d' (fc_id c) = []"
  using assms(2)
proof (rule flagCall_cases)
  assume "flagWrite E d d'"
  then obtain d1 where d1: "sameFlags d d1" "d' = d1 \<or> flagStep E d1 d'"
    by (auto simp: flagWrite_def)
  have "c \<in> set (db_cases d1)" "caseFlags d1 = caseFlags d"
    using d1(1) assms(3) by (auto simp: sameFlags_def caseFlags_def)
  then show ?thesis
    using d1(2) flagStep_dismissed [OF sameFlags_inv [OF d1(1) assms(1)] _ _ assms(4)] by auto
next
  fix cert
  assume "storeAccountRemovalTx E cert (canonicalID (e_server_id E) (ac_user cert)) d = Inr ((), d')"
  then show ?thesis
    using removal_keeps_closed [OF assms(1)] assms(3,4) by (simp add: openCase_def)
qed

text \<open>The case of \<open>flaggedDb\<close>, dismissed by \<open>a\<close>.\<close>

definition dismissedCase :: caseRow where
  "dismissedCase = \<lparr>fc_id = ''c'', fc_reed = ''u@s/r'', fc_opened_at = second, fc_restored = False,
     fc_dismissed_by = Some ''a@s'', fc_reason = Some ''r'',
     fc_dismissal = Some (\<lparr>us_id = ''a@s/k'', us_armor = ''a''\<rparr>, noServerSig), fc_voided_at = None\<rparr>"

definition dismissedDb :: db where
  "dismissedDb = flaggedDb\<lparr>db_cases := [dismissedCase]\<rparr>"

lemma dismissedDb_inv: "flagInv ''s'' dismissedDb"
proof (rule setCaseDismissalTx_inv [OF flaggedDb_inv])
  show "setCaseDismissalTx \<lparr>fd_case = ''c'', fd_reed = ''u@s/r'', fd_by = ''a@s'', fd_reason = ''r'',
      fd_sig = \<lparr>us_id = ''a@s/k'', us_armor = ''a''\<rparr>, fd_server_sig = noServerSig\<rparr> False flaggedDb =
      Inr ((), dismissedDb)"
    by (simp add: setCaseDismissalTx_def flaggedDb_def dismissedDb_def dismissedCase_def openCase_def)
qed

definition vLeaves :: accountRemovalCert where
  "vLeaves = \<lparr>ac_user = ''v'', ac_note = ''bye'', ac_user_sig = ''a'', ac_user_key = ''v@s/k'',
     ac_server_sig = ''a'', ac_server_key = ''f@s'', ac_server_at = second, ac_request_id = '''', ac_admin = None\<rparr>"

lemma v_leaves:
  assumes "db_removals d = []" "userRow d ''v@s'' = userRow aDb ''v@s''"
  shows "\<exists>d'. insertAccountRemovalCert aServer vLeaves d = (Inr (), d')"
proof -
  have "userRow d ''v@s'' = Some (aUser ''v'' roleUser)"
    unfolding assms(2) by (simp add: userRow_def rowBy_def aDb_def aUser_def)
  moreover have "canonicalID ''s'' ''v'' = ''v@s''" by code_simp
  moreover have "validateAccountNote aServer (ac_note vLeaves) = None"
    by (simp add: validateAccountNote_def vLeaves_def aServer_def maxAccountNoteLen_def)
  moreover have "\<not> hasAccountRemovalQ d ''v@s''" using assms(1) by (simp add: hasAccountRemovalQ_def)
  ultimately have "\<exists>d'. storeAccountRemovalTx aServer vLeaves (canonicalID ''s'' ''v'') d = Inr ((), d')"
    by (simp add: storeAccountRemovalTx_new aUser_def)
  then show ?thesis by (auto simp: insertAccountRemovalCert_def withAdminTx_def vLeaves_def)
qed

theorem dismissed_case_stays_witness:
  "\<exists>d'. insertAccountRemovalCert aServer vLeaves dismissedDb = (Inr (), d') \<and>
     (dismissedCase \<in> set (db_cases d') \<and> caseFlags d' ''c'' = caseFlags dismissedDb ''c'' \<or>
      ''c'' \<notin> fc_id ` set (db_cases d'))"
proof -
  have "db_removals dismissedDb = []" "userRow dismissedDb ''v@s'' = userRow aDb ''v@s''"
    by (simp_all add: dismissedDb_def flaggedDb_def aDb_def userRow_def)
  from v_leaves [OF this] obtain d' where call: "insertAccountRemovalCert aServer vLeaves dismissedDb = (Inr (), d')" ..
  have inv: "flagInv (e_server_id aServer) dismissedDb" using dismissedDb_inv by simp
  have c: "dismissedCase \<in> set (db_cases dismissedDb)" "fc_dismissal dismissedCase \<noteq> None" "fc_id dismissedCase = ''c''"
    by (simp_all add: dismissedDb_def dismissedCase_def)
  show ?thesis
    using dismissed_case_stays [OF inv flagCall.callRemoval [OF call] c(1,2)] call c(3) by auto
qed

text \<open>
  A case is deleted, with exactly its flags, only for an admin who isn't the reed's author, and
  only once it has been closed for the 183 days it is kept.
\<close>

theorem case_deletion_is_due:
  assumes "deleteFlagCase now caller caseID d = (Done st (), d', fx)"
  shows "\<exists>viewer c at. caller = Some viewer \<and> isAdmin (userRoleQ d viewer) \<and>
    rowBy fc_id caseID (db_cases d) = Some c \<and> caseAuthor d c \<notin> {None, Some viewer} \<and>
    closedAt c = Some at \<and> flagCaseRetention \<le> timeSub now at \<and>
    d' = d\<lparr>db_cases := filter (\<lambda>c. fc_id c \<noteq> caseID) (db_cases d),
      db_flags := filter (\<lambda>f. fl_case f \<noteq> caseID) (db_flags d)\<rparr>"
proof -
  have err: "writeAdminError e \<noteq> Done st ()" for e by (cases e) simp_all
  obtain viewer reedID where v: "caller = Some viewer" "isAdmin (userRoleQ d viewer)"
    "deleteFlagCaseTx caseID viewer now d = Inr (reedID, d')"
    using assms err
    by (auto simp: deleteFlagCase_def adminCaller_def withAdminTx_def
        split: option.splits if_splits sum.splits prod.splits)
  from v(3) show ?thesis
    by (rule deleteFlagCaseTx_Inr) (use v(1,2) in \<open>auto simp: caseAuthor_def\<close>)
qed

theorem case_deletion_is_due_witness:
  "\<exists>d' fx. deleteFlagCase (nat flagCaseRetention) (Some ''a@s'') ''c'' dismissedDb = (Done 204 (), d', fx) \<and>
     ''c'' \<notin> fc_id ` set (db_cases d')"
proof -
  have "userRoleQ aDb ''a@s'' = roleAdmin" by code_simp
  moreover have "userRoleQ dismissedDb ''a@s'' = userRoleQ aDb ''a@s''"
    by (simp add: userRoleQ_def userRow_def dismissedDb_def flaggedDb_def)
  ultimately have caller: "adminCaller dismissedDb (Some ''a@s'') = Inr (''a@s'', roleAdmin)"
    by (simp add: adminCaller_def)
  have c: "rowBy fc_id ''c'' (db_cases dismissedDb) = Some dismissedCase" "closedAt dismissedCase = Some 0"
    "fc_reed dismissedCase = ''u@s/r''"
    by (simp_all add: rowBy_def dismissedDb_def dismissedCase_def closedAt_def noServerSig_def)
  have "rowBy ri_id ''u@s/r'' (db_reed_identities dismissedDb) =
      Some \<lparr>ri_id = ''u@s/r'', ri_server = ''s'', ri_author = ''u@s''\<rparr>"
    by (simp add: rowBy_def dismissedDb_def flaggedDb_def aDb_def)
  moreover have "flagCaseRetention \<le> timeSub (nat flagCaseRetention) 0"
    by (simp add: timeSub_def flagCaseRetention_def)
  ultimately obtain d' fx where del: "deleteFlagCase (nat flagCaseRetention) (Some ''a@s'') ''c'' dismissedDb = (Done 204 (), d', fx)"
    by (simp add: deleteFlagCase_def caller isAdmin_def withAdminTx_def deleteFlagCaseTx_def c)
  show ?thesis using case_deletion_is_due [OF del] del by auto
qed


subsection \<open>Listings\<close>

text \<open>An admin's client that follows the cursors of \<open>listFlags\<close>, for at most \<open>n\<close> pages.\<close>

fun followFlagCases :: "db \<Rightarrow> string option \<Rightarrow> string \<Rightarrow> nat \<Rightarrow> (gotime \<times> string) option \<Rightarrow> flagCase list" where
  "followFlagCases d caller state 0 cursor = []"
| "followFlagCases d caller state (Suc n) cursor = (case listFlags d caller state cursor of
     Fail st why \<Rightarrow> []
   | Done st (page, None) \<Rightarrow> page
   | Done st (page, Some c) \<Rightarrow> page @ followFlagCases d caller state n (Some c))"

lemma followFlagCases_pages:
  assumes "caller = Some v" "v \<noteq> ''''" "isAdmin (userRoleQ d v)"
    and "listingOf d (if state = '''' then flagCasesOpen else state) = Some (cond, ord)"
  shows "followFlagCases d caller state n cursor = map (\<lambda>c. scanFlagCase d c (the (caseAuthor d c)))
     (concat (keysetPages (\<lambda>c. (ord c, fc_id c)) 50 (listedCases d v cond) n cursor))"
proof -
  have page: "listFlags d caller state cursor = Done 200
      (map (\<lambda>c. scanFlagCase d c (the (caseAuthor d c))) (fst (keysetPage (\<lambda>c. (ord c, fc_id c)) 50 cursor (listedCases d v cond))),
       snd (keysetPage (\<lambda>c. (ord c, fc_id c)) 50 cursor (listedCases d v cond)))" for cursor
    using assms by (simp add: listFlags_def adminCaller_def listFlagCases_def case_prod_beta)
  show ?thesis
    by (induction n arbitrary: cursor) (simp_all add: page split: prod.split option.split)
qed

text \<open>
  C36.  An admin who follows the cursors sees every case in the state they ask for whose reed somebody
  else wrote, each once, newest first, and none about their own reeds.
\<close>

theorem flag_listing_complete:
  assumes "flagInv (e_server_id E) d" and "v \<noteq> ''''" "isAdmin (userRoleQ d v)"
    and "listingOf d (if state = '''' then flagCasesOpen else state) = Some (cond, ord)"
    and "length (db_cases d) \<le> n * 50" "0 < n"
  shows "\<exists>cs. followFlagCases d (Some v) state n None = map (\<lambda>c. scanFlagCase d c (the (caseAuthor d c))) cs \<and>
    set cs = {c \<in> set (db_cases d). cond c \<and> (\<exists>a. caseAuthor d c = Some a \<and> a \<noteq> v)} \<and>
    sorted_wrt (\<lambda>a b. (ord b, fc_id b) < (ord a, fc_id a)) cs"
proof -
  let ?key = "\<lambda>c. (ord c, fc_id c)"
  let ?rows = "listedCases d v cond"
  have "uniqueBy fc_id ?rows"
    unfolding listedCases_def by (rule uniqueBy_filter) (rule flagInvD(1) [OF assms(1)])
  then have uni: "uniqueBy ?key ?rows" by (auto simp: distinct_map inj_on_def)
  have "length ?rows \<le> length (db_cases d)" by (simp add: listedCases_def)
  then have "concat (keysetPages ?key 50 ?rows n None) = keysetOrder ?key ?rows"
    using assms(5,6) by (intro keysetPages_complete [OF uni]) simp_all
  moreover have "set (keysetOrder ?key ?rows) =
      {c \<in> set (db_cases d). cond c \<and> (\<exists>a. caseAuthor d c = Some a \<and> a \<noteq> v)}"
    by (auto simp: listedCases_def split: option.splits)
  ultimately show ?thesis
    using followFlagCases_pages [OF refl assms(2-4)] keysetOrder_decreasing [OF uni] by auto
qed

theorem flag_listing_complete_witness:
  "\<exists>c. followFlagCases flaggedDb (Some ''a@s'') '''' 1 None = [c] \<and> cs_id c = ''c''"
proof -
  have inv: "flagInv (e_server_id aServer) flaggedDb" using flaggedDb_inv by simp
  have "userRoleQ aDb ''a@s'' = roleAdmin" by code_simp
  moreover have "userRoleQ flaggedDb ''a@s'' = userRoleQ aDb ''a@s''"
    by (simp add: userRoleQ_def userRow_def flaggedDb_def)
  ultimately have admin: "isAdmin (userRoleQ flaggedDb ''a@s'')" by (simp add: isAdmin_def)
  have state: "listingOf flaggedDb (if '''' = '''' then flagCasesOpen else '''') = Some (openCase, caseLatest flaggedDb)"
    by (simp add: listingOf_def)
  have few: "length (db_cases flaggedDb) \<le> 1 * 50" by (simp add: flaggedDb_def)
  obtain cs where cs: "followFlagCases flaggedDb (Some ''a@s'') '''' 1 None =
      map (\<lambda>c. scanFlagCase flaggedDb c (the (caseAuthor flaggedDb c))) cs"
    "set cs = {c \<in> set (db_cases flaggedDb). openCase c \<and> (\<exists>a. caseAuthor flaggedDb c = Some a \<and> a \<noteq> ''a@s'')}"
    "sorted_wrt (\<lambda>a b. (caseLatest flaggedDb b, fc_id b) < (caseLatest flaggedDb a, fc_id a)) cs"
    using flag_listing_complete [OF inv _ admin state few zero_less_one] by blast
  have "\<exists>c0. db_cases flaggedDb = [c0] \<and> openCase c0 \<and> fc_id c0 = ''c'' \<and> caseAuthor flaggedDb c0 = Some ''u@s''"
    by (simp add: flaggedDb_def openCase_def caseAuthor_def rowBy_def aDb_def)
  then obtain c0 where c0: "db_cases flaggedDb = [c0]" "openCase c0" "fc_id c0 = ''c''"
    "caseAuthor flaggedDb c0 = Some ''u@s''" by blast
  have "set cs = {c0}" unfolding cs(2) using c0 by auto
  moreover have "cs = [c0]"
  proof -
    obtain c1 rest where c: "cs = c1 # rest" using \<open>set cs = {c0}\<close> by (cases cs) auto
    then have all: "\<forall>c \<in> set (c1 # rest). c = c0" using \<open>set cs = {c0}\<close> by blast
    have "rest = []"
    proof (cases rest)
      case (Cons c2 more)
      then show ?thesis using cs(3) c all by simp
    qed
    then show ?thesis using c all by simp
  qed
  ultimately show ?thesis using cs(1) c0(3) by (simp add: scanFlagCase_def)
qed

subsection \<open>Leaving\<close>

text \<open>
  C37.  Removing an account that isn't yet removed frees its username and drops its signature, removes
  its flags from open cases and no other flag, takes one off the count of users, and owes every peer
  in the mesh the news.
\<close>

theorem removal_effect:
  assumes "insertAccountRemovalCert E cert d = (Inr (), d')"
    and "u = canonicalID (e_server_id E) (ac_user cert)" and "\<not> hasAccountRemovalQ d u"
  shows "hasAccountRemovalQ d' u \<and> (\<exists>r. userRow d' u = Some r \<and> u_username r = None \<and> u_user_sig r = None) \<and>
    set (db_flags d') = {f \<in> set (db_flags d). \<not> (fl_reporter f = u \<and> inOpenCase d f)} \<and>
    db_active_users d' = max 0 (db_active_users d - 1) \<and>
    (\<forall>p \<in> set (livePeers d). (p, peerEventAccountRemoval, u, None) \<in> eventKey ` set (db_peer_queue d'))"
proof -
  have st: "storeAccountRemovalTx E cert u d = Inr ((), d')"
    using assms(1,2) by (auto simp: insertAccountRemovalCert_def withAdminTx_def split: sum.splits prod.splits)
  then have d': "d' = bumpActiveUsers (- 1) (updUser u clearedRow (removalCore (removalRowOf cert u) u d))"
    using assms(3) by (simp add: storeAccountRemovalTx_new)
  have "set (db_flags d') = {f \<in> set (db_flags d). \<not> (fl_reporter f = u \<and> inOpenCase d f)}"
    by (simp add: d' bumpActiveUsers_def updUser_def removalCore_def settleAccountRemovalTx_flags inOpenCase_def)
  moreover have "db_active_users d' = max 0 (db_active_users d - 1)"
    by (simp add: d' bumpActiveUsers_def updUser_def)
  ultimately show ?thesis
    using storeAccountRemovalTx_profile [OF st assms(3)] storeAccountRemovalTx_fields(13) [OF st] by blast
qed

theorem removal_effect_witness:
  "\<exists>d'. insertAccountRemovalCert aServer vLeaves flaggedDb = (Inr (), d') \<and> db_flags d' = [] \<and>
     (''t'', peerEventAccountRemoval, ''v@s'', None) \<in> eventKey ` set (db_peer_queue d')"
proof -
  have rm: "db_removals flaggedDb = []" "userRow flaggedDb ''v@s'' = userRow aDb ''v@s''"
    by (simp_all add: flaggedDb_def aDb_def userRow_def)
  from v_leaves [OF this] obtain d' where call: "insertAccountRemovalCert aServer vLeaves flaggedDb = (Inr (), d')" ..
  have "canonicalID ''s'' ''v'' = ''v@s''" by code_simp
  then have u: "''v@s'' = canonicalID (e_server_id aServer) (ac_user vLeaves)" by (simp add: vLeaves_def)
  have new: "\<not> hasAccountRemovalQ flaggedDb ''v@s''" using rm(1) by (simp add: hasAccountRemovalQ_def)
  have "set (livePeers flaggedDb) = {''t''}" by (simp add: livePeers_def flaggedDb_def aDb_def)
  moreover have "{f \<in> set (db_flags flaggedDb). \<not> (fl_reporter f = ''v@s'' \<and> inOpenCase flaggedDb f)} = {}"
    by (auto simp: flaggedDb_def inOpenCase_def openCase_def)
  ultimately have "db_flags d' = []"
    "(''t'', peerEventAccountRemoval, ''v@s'', None) \<in> eventKey ` set (db_peer_queue d')"
    using removal_effect [OF call u new] by (simp_all only: set_empty ball_simps)
  then show ?thesis using call by blast
qed

end
