(* ===== verification/RecordProperties.thy ===== *)
theory RecordProperties
  imports SmallServer PeerQueue
begin

text \<open>
  What the records promise: the ledger is one chain in which every entry is signed over its
  predecessor's signature and which a member reads whole and in order, and a peer's queue is drained in
  order without losing an event.
\<close>

subsection \<open>The ledger\<close>

text \<open>
  C23.  An append to a well-formed ledger keeps it one chain with growing ids, puts the entry at its
  end after the last one, reads back as what was appended, and is signed over its predecessor's
  signature.
\<close>

theorem ledger_append_extends:
  assumes "ledgerInv d" and "appendLedgerTx E now e d = Inr (e', d')"
  shows "ledgerInv d' \<and> getLedgerEntry d' (en_id e') = Some e' \<and>
    (\<exists>row. db_ledger d' = db_ledger d @ [row] \<and> le_id row = en_id e' \<and>
       le_prev row = (if db_ledger d = [] then None else Some (le_id (last (db_ledger d))))) \<and>
    e_sign E (ledgerPayload E e'
        (if db_ledger d = [] then '''' else ss_armor (le_sig (last (db_ledger d)))) (truncateSecond now)) =
      Some (ss_armor (en_sig e'))"
proof -
  have app: "appendLedgerEntryTx (countersign E) E now e d = Inr (e', d')"
    using assms(2) by (simp add: appendLedgerTx_def)
  obtain prevID sig where r: "db_ledger d' = db_ledger d @ [ledgerRowOf prevID e']"
    "prevID = map_option le_id (ledgerTip (db_ledger d))" "en_sig e' = sig"
    "countersign E (ledgerPayload E e' (case ledgerTip (db_ledger d) of None \<Rightarrow> '''' | Some p \<Rightarrow> ss_armor (le_sig p))
       (truncateSecond now)) (truncateSecond now) = Inr sig"
    using app by (rule appendLedgerEntryTx_Inr) simp
  then show ?thesis
    using ledgerInv_append [OF assms(1) app] append_reads_back [OF assms(1) app] ledgerInv_tip [OF assms(1)]
    by (auto simp: countersign_Inr ledgerRowOf_def)
qed

text \<open>A first and a second entry on the small server.\<close>

definition anEntry :: ledgerEntry where
  "anEntry = \<lparr>en_id = 0, en_prev = 0, en_kind = ledgerKindMesh, en_user = ''a@s'', en_requester = '''',
     en_requested_at = 0, en_message = ''m'', en_content = '''', en_targets = [], en_sig = noServerSig\<rparr>"

lemma anEntry_appends:
  assumes "ledgerInv d" and "db_self_key d = db_self_key aDb"
  shows "\<exists>e' d'. appendLedgerTx aServer second anEntry d = Inr (e', d')"
proof (rule appendLedgerEntryTx_total [OF assms(1)])
  have "canonicalID ''s'' ''f'' = ''f@s''" by code_simp
  then show "db_self_key d = canonicalID (e_server_id aServer) (e_fingerprint aServer)"
    unfolding assms(2) by (simp add: aDb_def)
  show "entryFits anEntry"
    by (simp add: entryFits_def anEntry_def isZeroTime_def ledgerKindMesh_def ledgerKindServerKey_def)
qed simp

lemma aDb_ledger: "ledgerInv aDb" "db_ledger aDb = []"
  by (simp_all add: ledgerInv_def aDb_def)

theorem ledger_append_extends_witness:
  "\<exists>e' d'. appendLedgerTx aServer second anEntry aDb = Inr (e', d') \<and> getLedgerEntry d' (en_id e') = Some e' \<and>
     length (db_ledger d') = 1"
proof -
  obtain e' d' where app: "appendLedgerTx aServer second anEntry aDb = Inr (e', d')"
    using anEntry_appends [OF aDb_ledger(1)] by auto
  show ?thesis using ledger_append_extends [OF aDb_ledger(1) app] app aDb_ledger(2) by auto
qed

text \<open>
  While the server can sign, an entry is refused only for what it says, never for what is already
  on the ledger: its kind, its user and its request's fields have to agree with each other, and the key
  it is signed with has to be the server's current one.
\<close>

theorem ledger_append_accepts:
  assumes "ledgerInv d" and "\<And>p. e_sign E p \<noteq> None"
  shows "(\<exists>r. appendLedgerTx E now e d = Inr r) \<longleftrightarrow>
    db_self_key d = canonicalID (e_server_id E) (e_fingerprint E) \<and> entryFits e"
proof
  assume "\<exists>r. appendLedgerTx E now e d = Inr r"
  then obtain e' d' where app: "appendLedgerEntryTx (countersign E) E now e d = Inr (e', d')"
    by (auto simp: appendLedgerTx_def)
  obtain prevID sig where fits: "ledgerRowFits (db_ledger d) (ledgerRowOf prevID e')"
    "prevID = map_option le_id (ledgerTip (db_ledger d))"
    "e' = e\<lparr>en_id := Suc (db_ledger_seq d), en_prev := (case prevID of None \<Rightarrow> 0 | Some p \<Rightarrow> p),
       en_targets := sortStrings (en_targets e), en_sig := sig\<rparr>"
    "db_self_key d = canonicalID (e_server_id E) (e_fingerprint E)"
    using app by (rule appendLedgerEntryTx_Inr) (rule that, assumption+)
  have "en_id e' = Suc (db_ledger_seq d)" unfolding fits(3) by simp
  from ledgerRowFits_chain [OF assms(1) this] have "entryFits e'" using fits(1,2) by blast
  then have "entryFits e" unfolding fits(3) by (simp add: entryFits_def)
  then show "db_self_key d = canonicalID (e_server_id E) (e_fingerprint E) \<and> entryFits e"
    using fits(4) by blast
qed (use appendLedgerEntryTx_total [OF assms(1) _ _ assms(2)] in blast)

theorem ledger_append_accepts_witness:
  "\<not> (\<exists>r. appendLedgerTx aServer second (anEntry\<lparr>en_kind := ''x''\<rparr>) aDb = Inr r)"
proof -
  have "\<not> entryFits (anEntry\<lparr>en_kind := ''x''\<rparr>)"
    by (simp add: entryFits_def ledgerKindRequest_def ledgerKindAdminInvite_def ledgerKindMesh_def ledgerKindServerKey_def)
  then show ?thesis using ledger_append_accepts [OF aDb_ledger(1), of aServer] by simp
qed

text \<open>A member that asks for the head and then for what follows the last entry it has.\<close>

fun followLedger :: "env \<Rightarrow> db \<Rightarrow> string option \<Rightarrow> nat \<Rightarrow> string \<Rightarrow> ledgerEntry list" where
  "followLedger E d caller 0 after = []"
| "followLedger E d caller (Suc n) after = (case getLedger E d caller after of
     Fail st why \<Rightarrow> []
   | Done st (head, tail) \<Rightarrow> (let got = (case head of None \<Rightarrow> tail | Some h \<Rightarrow> h # tail)
       in if got = [] then [] else got @ followLedger E d caller n (digits (en_id (last got)))))"

lemma getLedger_after:
  assumes "ledgerInv d" and "db_ledger_seq d < 2 ^ 64" and "ledgerReader E caller"
    and "db_ledger d = xs @ r # ys"
  shows "getLedger E d caller (digits (le_id r)) = Done 200 (None, map scanLedgerEntry (take ledgerPageSize ys))"
proof -
  have "le_id r \<le> db_ledger_seq d" using assms(1,4) by (auto simp: ledgerInv_def)
  then have "parseUint64 (digits (le_id r)) = Some (le_id r)"
    using assms(2) by (intro parseUint64_digits) simp
  moreover have "uniqueBy le_id (db_ledger d)" using assms(1) by (simp add: ledgerInv_def strict_sorted_iff)
  then have "rowBy le_id (le_id r) (db_ledger d) = Some r" using assms(4) by (intro rowBy_eq) simp_all
  moreover have "getLedgerTail d (le_id r) ledgerPageSize = map scanLedgerEntry (take ledgerPageSize ys)"
    by (rule getLedgerTail_chain [OF assms(1,4)]) (simp add: ledgerPageSize_def)
  ultimately show ?thesis using assms(3) by (simp add: getLedger_def getLedgerEntry_def)
qed

lemma scan_id [simp]: "en_id (scanLedgerEntry r) = le_id r"
  by (simp add: scanLedgerEntry_def)

lemma followLedger_after:
  assumes "ledgerInv d" and "db_ledger_seq d < 2 ^ 64" and "ledgerReader E caller"
    and "db_ledger d = xs @ r # ys" and "length ys \<le> n * ledgerPageSize"
  shows "followLedger E d caller n (digits (le_id r)) = map scanLedgerEntry ys"
  using assms(4,5)
proof (induction n arbitrary: xs r ys)
  case (Suc n)
  let ?got = "take ledgerPageSize ys"
  note page = getLedger_after [OF assms(1-3) Suc.prems(1)]
  show ?case
  proof (cases "ys = []")
    case False
    then have got: "?got \<noteq> []" by (simp add: ledgerPageSize_def)
    then obtain b l where bl: "?got = b @ [l]" by (metis append_butlast_last_id)
    then have "db_ledger d = (xs @ r # b) @ l # drop ledgerPageSize ys"
      using Suc.prems(1) append_take_drop_id [of ledgerPageSize ys] by simp
    from Suc.IH [OF this] Suc.prems(2)
    have "followLedger E d caller n (digits (le_id l)) = map scanLedgerEntry (drop ledgerPageSize ys)"
      by simp
    then have "followLedger E d caller (Suc n) (digits (le_id r)) =
        map scanLedgerEntry (?got @ drop ledgerPageSize ys)"
      using page bl by simp
    then show ?thesis by (simp only: append_take_drop_id)
  qed (use page in simp)
qed simp

text \<open>
  C38.  A member of this server who starts without an entry and keeps asking for what follows the last
  one it got reads the whole ledger, each entry once, in the order it was written.
\<close>

theorem ledger_read_whole:
  assumes "ledgerInv d" and "db_ledger_seq d < 2 ^ 64" and "ledgerReader E caller"
    and "length (db_ledger d) \<le> n * ledgerPageSize + 1"
  shows "followLedger E d caller (Suc n) '''' = map scanLedgerEntry (db_ledger d)"
proof (cases "db_ledger d")
  case Nil
  then show ?thesis using ledgerInv_head [OF assms(1)] assms(3) by (simp add: getLedger_def)
next
  case (Cons r ys)
  have got: "getLedger E d caller '''' =
      Done 200 (Some (scanLedgerEntry r), map scanLedgerEntry (take ledgerPageSize ys))"
    using ledgerInv_head [OF assms(1)] getLedgerTail_chain [OF assms(1), of "[]" r ys ledgerPageSize] Cons assms(3)
    by (simp add: getLedger_def ledgerPageSize_def)
  obtain b l where bl: "r # take ledgerPageSize ys = b @ [l]" by (metis append_butlast_last_id list.discI)
  then have whole: "db_ledger d = b @ l # drop ledgerPageSize ys"
    using Cons append_take_drop_id [of ledgerPageSize ys] by (metis append.assoc append_Cons append_Nil)
  have "followLedger E d caller n (digits (le_id l)) = map scanLedgerEntry (drop ledgerPageSize ys)"
    using followLedger_after [OF assms(1-3) whole, of n] assms(4) Cons by simp
  moreover have "en_id (last (map scanLedgerEntry (r # take ledgerPageSize ys))) = le_id l"
    unfolding bl by simp
  ultimately have "followLedger E d caller (Suc n) '''' =
      map scanLedgerEntry (r # take ledgerPageSize ys) @ map scanLedgerEntry (drop ledgerPageSize ys)"
    using got by simp
  then show ?thesis using Cons by (simp flip: map_append)
qed

theorem ledger_read_whole_witness:
  "\<exists>e' d'. appendLedgerTx aServer second anEntry aDb = Inr (e', d') \<and>
     followLedger aServer d' (Some ''u@s'') 1 '''' = [e']"
proof -
  obtain e' d' where app: "appendLedgerTx aServer second anEntry aDb = Inr (e', d')"
    using anEntry_appends [OF aDb_ledger(1)] by auto
  then have tx: "appendLedgerEntryTx (countersign aServer) aServer second anEntry aDb = Inr (e', d')"
    by (simp add: appendLedgerTx_def)
  note inv = ledgerInv_append [OF aDb_ledger(1) tx]
  obtain p where d': "db_ledger d' = [ledgerRowOf p e']" "db_ledger_seq d' = Suc (db_ledger_seq aDb)"
    "le_id (ledgerRowOf p e') = en_id e'"
    using tx aDb_ledger(2) by (auto elim!: appendLedgerEntryTx_Inr simp: ledgerRowOf_def)
  have "scanLedgerEntry (ledgerRowOf p e') = e'"
    using append_reads_back [OF aDb_ledger(1) tx] d'(1,3) by (simp add: getLedgerEntry_def rowBy_def)
  moreover have seq: "db_ledger_seq d' < 2 ^ 64" by (simp add: d'(2) aDb_def)
  have member: "ledgerReader aServer (Some ''u@s'')" by code_simp
  have "length (db_ledger d') \<le> 0 * ledgerPageSize + 1" by (simp add: d'(1))
  from ledger_read_whole [OF inv seq member this] have "followLedger aServer d' (Some ''u@s'') 1 '''' = [scanLedgerEntry (ledgerRowOf p e')]"
    by (simp add: d'(1))
  ultimately show ?thesis using app by auto
qed


subsection \<open>What peers are owed\<close>

text \<open>
  An event enqueued for the mesh is owed, once, to every peer that isn't revoked; what was owed
  before is still owed and nothing else is.
\<close>

theorem every_peer_is_owed:
  assumes "queueInv d"
  shows "queueInv (enqueuePeerEventTx kind subject d) \<and>
    eventKey ` set (db_peer_queue (enqueuePeerEventTx kind subject d)) =
      eventKey ` set (db_peer_queue d) \<union> {(p, kind, subject, None) | p. p \<in> set (livePeers d)} \<and>
    uniqueBy eventKey (db_peer_queue (enqueuePeerEventTx kind subject d))"
  using queueInv_enqueue [OF assms] by (auto simp: enqueuePeerEventTx_keys queueInv_def)

lemma aDb_queue: "queueInv aDb"
  by (simp add: queueInv_def aDb_def)

theorem every_peer_is_owed_witness:
  "eventKey ` set (db_peer_queue (enqueuePeerEventTx peerEventNewReed ''u@s/r'' aDb)) =
     {(''t'', peerEventNewReed, ''u@s/r'', None)}"
proof -
  have "set (livePeers aDb) = {''t''}" by (simp add: livePeers_def aDb_def)
  moreover have "db_peer_queue aDb = []" by (simp add: aDb_def)
  ultimately show ?thesis using every_peer_is_owed [OF aDb_queue] by auto
qed






text \<open>
  An event about an object enqueued again while the old one is on the wire isn't lost: the answer
  to the old one deletes only the row that was read, and the news stays owed.
\<close>

theorem requeued_event_survives:
  assumes "queueInv d" and "p \<in> set (livePeers d)"
    and "ev \<in> set (db_peer_queue d)" "eventKey ev = (p, kind, subject, Some object)"
  shows "(p, kind, subject, Some object) \<in>
    eventKey ` set (db_peer_queue (deletePeerEvent (pe_id ev) (enqueuePeerEventForTx p kind subject object d)))"
  by (rule reenqueue_survives_delete [OF assms])

theorem requeued_event_survives_witness:
  "(''t'', peerEventFollow, ''u@s'', Some ''w@t'') \<in> eventKey ` set (db_peer_queue (deletePeerEvent 1
     (enqueuePeerEventForTx ''t'' peerEventFollow ''u@s'' ''w@t'' (enqueuePeerEventForTx ''t'' peerEventFollow ''u@s'' ''w@t'' aDb))))"
proof -
  let ?d = "enqueuePeerEventForTx ''t'' peerEventFollow ''u@s'' ''w@t'' aDb"
  let ?ev = "\<lparr>pe_id = 1, pe_server = ''t'', pe_kind = peerEventFollow, pe_subject = ''u@s'', pe_object = Some ''w@t''\<rparr>"
  have "?ev \<in> set (db_peer_queue ?d)" "''t'' \<in> set (livePeers ?d)"
    "eventKey ?ev = (''t'', peerEventFollow, ''u@s'', Some ''w@t'')"
    by (simp_all add: enqueuePeerEventForTx_def enqueueRow_def livePeers_def aDb_def eventKey_def)
  with requeued_event_survives [OF queueInv_enqueueFor [OF aDb_queue]] show ?thesis by fastforce
qed

end
