(* ===== verification/PayloadSafety.thy ===== *)
theory PayloadSafety
  imports Payloads
begin

text \<open>
  No two signed records share their bytes.  The records a user's key signs and those a server's
  key signs are two datatypes, one constructor per builder of \<open>identity.go\<close>; their bytes are the
  builders'.  Decoding the field set recovers the record, so equal bytes mean the same record:
  a signature given for one record, or one kind of record, never verifies for another.
\<close>

subsection \<open>Reading a field set back\<close>

definition getS :: "(string \<Rightarrow> signedValue option) \<Rightarrow> string \<Rightarrow> string" where
  "getS m k = (case m k of Some (SStr s) \<Rightarrow> s | _ \<Rightarrow> '''')"

definition getL :: "(string \<Rightarrow> signedValue option) \<Rightarrow> string \<Rightarrow> string list" where
  "getL m k = (case m k of Some (SList s) \<Rightarrow> s | _ \<Rightarrow> [])"

definition getB :: "(string \<Rightarrow> signedValue option) \<Rightarrow> string \<Rightarrow> bool" where
  "getB m k = (case m k of Some (SBool b) \<Rightarrow> b | _ \<Rightarrow> False)"

definition getN :: "(string \<Rightarrow> signedValue option) \<Rightarrow> string \<Rightarrow> nat" where
  "getN m k = (case m k of Some (SNum n) \<Rightarrow> n | _ \<Rightarrow> 0)"

definition getO :: "(string \<Rightarrow> signedValue option) \<Rightarrow> string \<Rightarrow> string option" where
  "getO m k = (if getS m k = '''' then None else Some (getS m k))"

lemmas getters = getS_def getL_def getB_def getN_def getO_def

lemma getters_kept:
  assumes "distinct (map fst fs)"
  shows "getS (map_of (keptFields fs)) k = getS (map_of fs) k"
    and "getL (map_of (keptFields fs)) k = getL (map_of fs) k"
    and "getB (map_of (keptFields fs)) k = getB (map_of fs) k"
    and "getN (map_of (keptFields fs)) k = getN (map_of fs) k"
    and "getO (map_of (keptFields fs)) k = getO (map_of fs) k"
  by (auto simp: getters map_of_keptFields [OF assms] split: option.splits signedValue.splits)

text \<open>
  What is assumed of the canonicalisation, RFC 8785 over \<open>encoding/json\<close>: equal bytes are equal
  objects, as long as every string is valid UTF-8 (\<open>json.Marshal\<close> replaces anything else) and
  every number is an integer a double holds (RFC 8785 writes numbers as doubles).
\<close>

fun wfValue :: "signedValue \<Rightarrow> bool" where
  "wfValue (SStr s) = validUtf8 s"
| "wfValue (SList xs) = list_all validUtf8 xs"
| "wfValue (SNum n) = (n \<le> 2 ^ 53)"
| "wfValue (SBool b) = True"
| "wfValue SNil = True"

definition wfFields :: "signedFields \<Rightarrow> bool" where
  "wfFields fs \<longleftrightarrow> distinct (map fst fs) \<and> list_all (\<lambda>(k, v). wfValue v) fs"

definition jcsFaithful :: "(signedFields \<Rightarrow> 'b) \<Rightarrow> bool" where
  "jcsFaithful jcs \<longleftrightarrow>
     (\<forall>f g. wfFields f \<longrightarrow> wfFields g \<longrightarrow> jcs f = jcs g \<longrightarrow> map_of f = map_of g)"

lemma wfFields_kept: "wfFields fs \<Longrightarrow> wfFields (keptFields fs)"
  unfolding wfFields_def by (auto simp: distinct_keptFields) (simp add: list_all_iff keptFields_def)

text \<open>An optional time is its text, or the empty one.\<close>

definition optText :: "string option \<Rightarrow> string" where
  "optText x = (case x of None \<Rightarrow> '''' | Some t \<Rightarrow> t)"

lemma optText_time: "optText (map_option signedTime x) = signedTimeOrAbsent x"
  by (cases x) (simp_all add: optText_def signedTimeOrAbsent_def)

text \<open>
  A family of records: its field sets, and a decoder that reads them back.  What follows from
  the three laws is the unambiguity of the family's bytes.
\<close>

locale payload_family =
  fixes flds :: "'p \<Rightarrow> signedFields"
    and dec :: "(string \<Rightarrow> signedValue option) \<Rightarrow> 'p"
    and ready :: "'p \<Rightarrow> bool"
  assumes distinct_keys: "distinct (map fst (flds p))"
    and dec_flds: "ready p \<Longrightarrow> dec (map_of (flds p)) = p"
    and dec_kept: "distinct (map fst fs) \<Longrightarrow> dec (map_of (keptFields fs)) = dec (map_of fs)"
begin

lemma dec_signed: "ready p \<Longrightarrow> dec (map_of (keptFields (flds p))) = p"
  by (simp add: dec_kept distinct_keys dec_flds)

lemma bytes_unambiguous:
  assumes "jcsFaithful jcs" and "ready p" and "ready q"
    and "wfFields (flds p)" and "wfFields (flds q)"
    and "canonicalJSON jcs (flds p) = canonicalJSON jcs (flds q)"
  shows "p = q"
proof -
  have "jcs (keptFields (flds p)) = jcs (keptFields (flds q))"
    using assms(6) by (simp only: canonicalJSON_def)
  then have "map_of (keptFields (flds p)) = map_of (keptFields (flds q))"
    using assms(1) wfFields_kept [OF assms(4)] wfFields_kept [OF assms(5)]
    unfolding jcsFaithful_def by blast
  then have "dec (map_of (keptFields (flds p))) = dec (map_of (keptFields (flds q)))"
    by (rule arg_cong)
  then show ?thesis by (simp only: dec_signed assms(2,3))
qed

end

subsection \<open>What users sign\<close>

datatype 't userPayload =
    PUserIdentity string string string
  | PUserRevocation string string string
  | PReedRemovalUser string string
  | PThreadUser string string "string list"
  | PThreadRemovalUser string string string
  | PReedLikeUser string string
  | PBlockUser string string string
  | PFollowUser string string string bool
  | PVouchUser string string string
  | PVouchWithdrawalUser string
  | PAccountRemovalUser string string string
  | PInviteUser string string string string string 't
  | PRippleUser string string string string string string
  | PRealtimeAuth string string string string
  | PAdminRequest string string string string string "string list" string 't
  | PAdminDecision string string string string string
  | PReedFlag string string string string
  | PFlagDismissal string string string string
  | PFlagWithdrawal string string string string

fun userBytes :: "(signedFields \<Rightarrow> 'b) \<Rightarrow> gotime userPayload \<Rightarrow>
       'b" where
  "userBytes jcs (PUserIdentity username keyID bio) = buildUserIdentityPayload jcs username
       keyID bio"
| "userBytes jcs (PUserRevocation userID keyID reason) = buildUserRevocationPayload jcs userID
       keyID reason"
| "userBytes jcs (PReedRemovalUser serverID reedID) = buildReedRemovalUserPayload jcs serverID
       reedID"
| "userBytes jcs (PThreadUser serverID threadID reedIDs) = buildThreadUserPayload jcs serverID
       threadID reedIDs"
| "userBytes jcs (PThreadRemovalUser serverID threadID threadSignature) =
       buildThreadRemovalUserPayload jcs serverID threadID threadSignature"
| "userBytes jcs (PReedLikeUser reedID keyID) = buildReedLikeUserPayload jcs reedID keyID"
| "userBytes jcs (PBlockUser userID blockedUserID keyID) = buildBlockUserPayload jcs userID
       blockedUserID keyID"
| "userBytes jcs (PFollowUser followerID followeeID keyID follow) = buildFollowUserPayload jcs
       followerID followeeID keyID follow"
| "userBytes jcs (PVouchUser voucherKeyID subjectKeyID note) = buildVouchUserPayload jcs
       voucherKeyID subjectKeyID note"
| "userBytes jcs (PVouchWithdrawalUser vouchID) = buildVouchWithdrawalUserPayload jcs vouchID"
| "userBytes jcs (PAccountRemovalUser serverID userID note) = buildAccountRemovalUserPayload jcs
       serverID userID note"
| "userBytes jcs (PInviteUser serverID userID inviteID tokenHash grantedRole createdAt) =
       buildInviteUserPayload jcs serverID userID inviteID tokenHash grantedRole createdAt"
| "userBytes jcs (PRippleUser reedID rippleAuthorID keyID threadID replyingTo content) =
       buildRippleUserPayload jcs reedID rippleAuthorID keyID threadID replyingTo content"
| "userBytes jcs (PRealtimeAuth serverID userID timestamp nonce) = buildRealtimeAuthPayload jcs
       serverID userID timestamp nonce"
| "userBytes jcs (PAdminRequest requestID action requesterID keyID reason targets body
       createdAt) = buildAdminRequestPayload jcs requestID action requesterID keyID reason
       targets body createdAt"
| "userBytes jcs (PAdminDecision requestID decision deciderID keyID requestSignature) =
       buildAdminDecisionPayload jcs requestID decision deciderID keyID requestSignature"
| "userBytes jcs (PReedFlag reedID reporterID keyID note) = buildReedFlagPayload jcs reedID
       reporterID keyID note"
| "userBytes jcs (PFlagDismissal caseID reedID reason keyID) = buildFlagDismissalPayload jcs
       caseID reedID reason keyID"
| "userBytes jcs (PFlagWithdrawal reedID reporterID keyID flagSignature) =
       buildFlagWithdrawalPayload jcs reedID reporterID keyID flagSignature"

fun userFields :: "string userPayload \<Rightarrow> signedFields" where
  "userFields (PUserIdentity username keyID bio) =
     [(''type'', SStr ''identity-user''),
      (''username'', SStr username),
      (''keyID'', SStr keyID),
      (''bio'', SStr bio)]"
| "userFields (PUserRevocation userID keyID reason) =
     [(''type'', SStr ''revocation''),
      (''userID'', SStr userID),
      (''keyID'', SStr keyID),
      (''reason'', SStr reason)]"
| "userFields (PReedRemovalUser serverID reedID) =
     [(''type'', SStr identityTypeReed),
      (''serverID'', SStr serverID),
      (''reedID'', SStr reedID)]"
| "userFields (PThreadUser serverID threadID reedIDs) =
     [(''type'', SStr identityTypeThread),
      (''serverID'', SStr serverID),
      (''threadID'', SStr threadID),
      (''reedIDs'', SList reedIDs)]"
| "userFields (PThreadRemovalUser serverID threadID threadSignature) =
     [(''type'', SStr identityTypeThreadRemoval),
      (''serverID'', SStr serverID),
      (''threadID'', SStr threadID),
      (''threadSignature'', SStr threadSignature)]"
| "userFields (PReedLikeUser reedID keyID) =
     [(''type'', SStr identityTypeReedLike),
      (''reedID'', SStr reedID),
      (''keyID'', SStr keyID)]"
| "userFields (PBlockUser userID blockedUserID keyID) =
     [(''type'', SStr identityTypeBlock),
      (''userID'', SStr userID),
      (''blockedUserID'', SStr blockedUserID),
      (''keyID'', SStr keyID)]"
| "userFields (PFollowUser followerID followeeID keyID follow) =
     [(''type'', SStr identityTypeFollow),
      (''followerID'', SStr followerID),
      (''followeeID'', SStr followeeID),
      (''keyID'', SStr keyID),
      (''follow'', SBool follow)]"
| "userFields (PVouchUser voucherKeyID subjectKeyID note) =
     [(''voucherKeyID'', SStr voucherKeyID),
      (''subjectKeyID'', SStr subjectKeyID),
      (''note'', SStr note)]"
| "userFields (PVouchWithdrawalUser vouchID) =
     [(''vouchID'', SStr vouchID)]"
| "userFields (PAccountRemovalUser serverID userID note) =
     [(''type'', SStr identityTypeAccount),
      (''serverID'', SStr serverID),
      (''userID'', SStr userID),
      (''note'', SStr note)]"
| "userFields (PInviteUser serverID userID inviteID tokenHash grantedRole createdAt) =
     [(''type'', SStr identityTypeInviteUser),
      (''serverID'', SStr serverID),
      (''userID'', SStr userID),
      (''inviteID'', SStr inviteID),
      (''tokenHash'', SStr tokenHash),
      (''grantedRole'', SStr grantedRole),
      (''createdAt'', SStr createdAt)]"
| "userFields (PRippleUser reedID rippleAuthorID keyID threadID replyingTo content) =
     [(''reedID'', SStr reedID),
      (''rippleAuthorID'', SStr rippleAuthorID),
      (''keyID'', SStr keyID),
      (''threadID'', SStr threadID),
      (''replyingTo'', SStr replyingTo),
      (''content'', SStr content)]"
| "userFields (PRealtimeAuth serverID userID timestamp nonce) =
     [(''type'', SStr identityTypeRealtimeAuth),
      (''serverID'', SStr serverID),
      (''userID'', SStr userID),
      (''timestamp'', SStr timestamp),
      (''nonce'', SStr nonce)]"
| "userFields (PAdminRequest requestID action requesterID keyID reason targets body createdAt) =
     [(''type'', SStr identityTypeAdminRequest),
      (''requestID'', SStr requestID),
      (''action'', SStr action),
      (''requesterID'', SStr requesterID),
      (''keyID'', SStr keyID),
      (''reason'', SStr reason),
      (''targets'', SList targets),
      (''body'', SStr body),
      (''createdAt'', SStr createdAt)]"
| "userFields (PAdminDecision requestID decision deciderID keyID requestSignature) =
     [(''type'', SStr identityTypeAdminDecision),
      (''requestID'', SStr requestID),
      (''decision'', SStr decision),
      (''deciderID'', SStr deciderID),
      (''keyID'', SStr keyID),
      (''requestSignature'', SStr requestSignature)]"
| "userFields (PReedFlag reedID reporterID keyID note) =
     [(''type'', SStr identityTypeReedFlag),
      (''reedID'', SStr reedID),
      (''reporterID'', SStr reporterID),
      (''keyID'', SStr keyID),
      (''note'', SStr note)]"
| "userFields (PFlagDismissal caseID reedID reason keyID) =
     [(''type'', SStr identityTypeFlagDismissal),
      (''caseID'', SStr caseID),
      (''reedID'', SStr reedID),
      (''reason'', SStr reason),
      (''keyID'', SStr keyID)]"
| "userFields (PFlagWithdrawal reedID reporterID keyID flagSignature) =
     [(''type'', SStr identityTypeFlagWithdrawal),
      (''reedID'', SStr reedID),
      (''reporterID'', SStr reporterID),
      (''keyID'', SStr keyID),
      (''flagSignature'', SStr flagSignature)]"

definition decodeUser :: "(string \<Rightarrow> signedValue option) \<Rightarrow> string
       userPayload" where
  "decodeUser m = (let ty = getS m ''type'' in
     if ty = ''identity-user'' then PUserIdentity (getS m ''username'') (getS m ''keyID'') (getS
       m ''bio'') else
     if ty = ''revocation'' then PUserRevocation (getS m ''userID'') (getS m ''keyID'') (getS m
       ''reason'') else
     if ty = identityTypeReed then PReedRemovalUser (getS m ''serverID'') (getS m ''reedID'') else
     if ty = identityTypeThread then PThreadUser (getS m ''serverID'') (getS m ''threadID'')
       (getL m ''reedIDs'') else
     if ty = identityTypeThreadRemoval then PThreadRemovalUser (getS m ''serverID'') (getS m
       ''threadID'') (getS m ''threadSignature'') else
     if ty = identityTypeReedLike then PReedLikeUser (getS m ''reedID'') (getS m ''keyID'') else
     if ty = identityTypeBlock then PBlockUser (getS m ''userID'') (getS m ''blockedUserID'')
       (getS m ''keyID'') else
     if ty = identityTypeFollow then PFollowUser (getS m ''followerID'') (getS m ''followeeID'')
       (getS m ''keyID'') (getB m ''follow'') else
     if ty = identityTypeAccount then PAccountRemovalUser (getS m ''serverID'') (getS m
       ''userID'') (getS m ''note'') else
     if ty = identityTypeInviteUser then PInviteUser (getS m ''serverID'') (getS m ''userID'')
       (getS m ''inviteID'') (getS m ''tokenHash'') (getS m ''grantedRole'') (getS m
       ''createdAt'') else
     if ty = identityTypeRealtimeAuth then PRealtimeAuth (getS m ''serverID'') (getS m
       ''userID'') (getS m ''timestamp'') (getS m ''nonce'') else
     if ty = identityTypeAdminRequest then PAdminRequest (getS m ''requestID'') (getS m
       ''action'') (getS m ''requesterID'') (getS m ''keyID'') (getS m ''reason'') (getL m
       ''targets'') (getS m ''body'') (getS m ''createdAt'') else
     if ty = identityTypeAdminDecision then PAdminDecision (getS m ''requestID'') (getS m
       ''decision'') (getS m ''deciderID'') (getS m ''keyID'') (getS m ''requestSignature'')
       else
     if ty = identityTypeReedFlag then PReedFlag (getS m ''reedID'') (getS m ''reporterID'')
       (getS m ''keyID'') (getS m ''note'') else
     if ty = identityTypeFlagDismissal then PFlagDismissal (getS m ''caseID'') (getS m
       ''reedID'') (getS m ''reason'') (getS m ''keyID'') else
     if ty = identityTypeFlagWithdrawal then PFlagWithdrawal (getS m ''reedID'') (getS m
       ''reporterID'') (getS m ''keyID'') (getS m ''flagSignature'') else
     if getS m ''voucherKeyID'' \<noteq> '''' then PVouchUser (getS m ''voucherKeyID'') (getS m
       ''subjectKeyID'') (getS m ''note'') else
     if getS m ''vouchID'' \<noteq> '''' then PVouchWithdrawalUser (getS m ''vouchID'') else
     PRippleUser (getS m ''reedID'') (getS m ''rippleAuthorID'') (getS m ''keyID'') (getS m
       ''threadID'') (getS m ''replyingTo'') (getS m ''content''))"

definition userNamed :: "'t userPayload \<Rightarrow> bool" where
  "userNamed p = (case p of
     PVouchUser voucherKeyID _ _ \<Rightarrow> voucherKeyID \<noteq> ''''
   | PVouchWithdrawalUser vouchID \<Rightarrow> vouchID \<noteq> ''''
   | _ \<Rightarrow> True)"

subsection \<open>What the server signs\<close>

datatype 't serverPayload =
    QProfile string string string string string string string string "string list" string 't 't
  | QReed string string string string string 't
  | QPublicKey string string string string string 't
  | QServerRevocation string string string string string string 't
  | QReedRemovalServer string string string string string 't
  | QThreadServer string string string string string 't
  | QThreadRemovalServer string string string string string 't
  | QReedLikeServer string string string 't
  | QBlockServer string string string string 't
  | QFollowServer string string bool string string 't
  | QVouchServer string string string 't
  | QVouchWithdrawalServer string string string 't
  | QServerKeyRevocation string string string bool string 't
  | QPeerRecord string "'t peering" 't
  | QUsernameCollision string string string string 't
  | QAccountRemovalServer string string string string string 't
  | QInviteServer string string string string string string 't 't
  | QFederationInvitation string string string string string string
  | QFederationConnect string string string string string
  | QRippleServer string string string string string string string 't
  | QAdminRequestOpened string string string string 't
  | QAdminRequestServer string string string string string string 't
  | QLedgerEntry nat nat string string string string "'t option" string string "string list"
       string string 't
  | QAccountKickServer string string string string string string 't
  | QAdminRevocationServer string string string string string string string 't
  | QReedFlagServer string string string string string 't
  | QFlagDismissalServer string string string string 't
  | QFlagWithdrawalServer string string string string 't

fun serverBytes :: "(signedFields \<Rightarrow> 'b) \<Rightarrow> gotime serverPayload
       \<Rightarrow> 'b" where
  "serverBytes jcs (QProfile userID username keyID serverID serverKeyFingerprint userSignature
       inviteID role permissions bio memberSince signedAt) = buildProfilePayload jcs userID
       username keyID serverID serverKeyFingerprint userSignature inviteID role permissions bio
       memberSince signedAt"
| "serverBytes jcs (QReed serverID reedID fingerprint authorKeyID userSignature timestamp) =
       buildReedPayload jcs serverID reedID fingerprint authorKeyID userSignature timestamp"
| "serverBytes jcs (QPublicKey serverID userID userKeyID serverFingerprint armor timestamp) =
       buildPublicKeyPayload jcs serverID userID userKeyID serverFingerprint armor timestamp"
| "serverBytes jcs (QServerRevocation userID keyID reason serverID serverKeyFingerprint
       userSignature signedAt) = buildServerRevocationPayload jcs userID keyID reason serverID
       serverKeyFingerprint userSignature signedAt"
| "serverBytes jcs (QReedRemovalServer serverID reedID authorKeyID serverKeyFingerprint
       userSignature signedAt) = buildReedRemovalServerPayload jcs serverID reedID authorKeyID
       serverKeyFingerprint userSignature signedAt"
| "serverBytes jcs (QThreadServer serverID threadID authorKeyID serverKeyFingerprint
       userSignature signedAt) = buildThreadServerPayload jcs serverID threadID authorKeyID
       serverKeyFingerprint userSignature signedAt"
| "serverBytes jcs (QThreadRemovalServer serverID threadID authorKeyID serverKeyFingerprint
       userSignature signedAt) = buildThreadRemovalServerPayload jcs serverID threadID
       authorKeyID serverKeyFingerprint userSignature signedAt"
| "serverBytes jcs (QReedLikeServer reedID serverKeyFingerprint userSignature signedAt) =
       buildReedLikeServerPayload jcs reedID serverKeyFingerprint userSignature signedAt"
| "serverBytes jcs (QBlockServer userID blockedUserID serverKeyFingerprint userSignature
       signedAt) = buildBlockServerPayload jcs userID blockedUserID serverKeyFingerprint
       userSignature signedAt"
| "serverBytes jcs (QFollowServer followerID followeeID follow serverKeyFingerprint
       userSignature signedAt) = buildFollowServerPayload jcs followerID followeeID follow
       serverKeyFingerprint userSignature signedAt"
| "serverBytes jcs (QVouchServer subjectKeyID serverKeyFingerprint userSignature signedAt) =
       buildVouchServerPayload jcs subjectKeyID serverKeyFingerprint userSignature signedAt"
| "serverBytes jcs (QVouchWithdrawalServer vouchID serverKeyFingerprint userSignature signedAt)
       = buildVouchWithdrawalServerPayload jcs vouchID serverKeyFingerprint userSignature
       signedAt"
| "serverBytes jcs (QServerKeyRevocation serverID keyID successor compromised reason signedAt) =
       buildServerKeyRevocationPayload jcs serverID keyID successor compromised reason signedAt"
| "serverBytes jcs (QPeerRecord serverID p signedAt) = buildPeerRecordPayload jcs serverID p
       signedAt"
| "serverBytes jcs (QUsernameCollision serverID username winnerID loserID signedAt) =
       buildUsernameCollisionPayload jcs serverID username winnerID loserID signedAt"
| "serverBytes jcs (QAccountRemovalServer serverID userID note serverKeyFingerprint
       userSignature signedAt) = buildAccountRemovalServerPayload jcs serverID userID note
       serverKeyFingerprint userSignature signedAt"
| "serverBytes jcs (QInviteServer serverID userID inviteID tokenHash serverKeyFingerprint
       userSignature createdAt signedAt) = buildInviteServerPayload jcs serverID userID inviteID
       tokenHash serverKeyFingerprint userSignature createdAt signedAt"
| "serverBytes jcs (QFederationInvitation inviteID serverID baseURL frontendURL fingerprint
       secret) = buildFederationInvitationPayload jcs inviteID serverID baseURL frontendURL
       fingerprint secret"
| "serverBytes jcs (QFederationConnect inviteID serverID baseURL frontendURL fingerprint) =
       buildFederationConnectPayload jcs inviteID serverID baseURL frontendURL fingerprint"
| "serverBytes jcs (QRippleServer serverID reedID rippleAuthorID keyID threadID replyingTo
       userSignature timestamp) = buildRippleServerPayload jcs serverID reedID rippleAuthorID
       keyID threadID replyingTo userSignature timestamp"
| "serverBytes jcs (QAdminRequestOpened requestID requestSignature serverID serverKeyFingerprint
       signedAt) = buildAdminRequestOpenedPayload jcs requestID requestSignature serverID
       serverKeyFingerprint signedAt"
| "serverBytes jcs (QAdminRequestServer requestID state requestSignature decisionSignature
       serverID serverKeyFingerprint signedAt) = buildAdminRequestServerPayload jcs requestID
       state requestSignature decisionSignature serverID serverKeyFingerprint signedAt"
| "serverBytes jcs (QLedgerEntry entryID prevID prevSignature kind userID requesterID
       requestedAt message content targets serverID serverKeyFingerprint signedAt) =
       buildLedgerEntryPayload jcs entryID prevID prevSignature kind userID requesterID (case
       requestedAt of None \<Rightarrow> 0 | Some t \<Rightarrow> t) message content targets
       serverID serverKeyFingerprint signedAt"
| "serverBytes jcs (QAccountKickServer serverID userID requestID requestSignature
       decisionSignature serverKeyFingerprint signedAt) = buildAccountKickServerPayload jcs
       serverID userID requestID requestSignature decisionSignature serverKeyFingerprint
       signedAt"
| "serverBytes jcs (QAdminRevocationServer userID keyID requestID requestSignature
       decisionSignature serverID serverKeyFingerprint signedAt) =
       buildAdminRevocationServerPayload jcs userID keyID requestID requestSignature
       decisionSignature serverID serverKeyFingerprint signedAt"
| "serverBytes jcs (QReedFlagServer reedID reporterID caseID serverKeyFingerprint userSignature
       signedAt) = buildReedFlagServerPayload jcs reedID reporterID caseID serverKeyFingerprint
       userSignature signedAt"
| "serverBytes jcs (QFlagDismissalServer caseID reedID serverKeyFingerprint userSignature
       signedAt) = buildFlagDismissalServerPayload jcs caseID reedID serverKeyFingerprint
       userSignature signedAt"
| "serverBytes jcs (QFlagWithdrawalServer reedID reporterID serverKeyFingerprint userSignature
       signedAt) = buildFlagWithdrawalServerPayload jcs reedID reporterID serverKeyFingerprint
       userSignature signedAt"

fun serverFields :: "string serverPayload \<Rightarrow> signedFields" where
  "serverFields (QProfile userID username keyID serverID serverKeyFingerprint userSignature
       inviteID role permissions bio memberSince signedAt) =
     [(''type'', SStr ''identity-server''),
      (''userID'', SStr userID),
      (''username'', SStr username),
      (''keyID'', SStr keyID),
      (''memberSince'', SStr memberSince),
      (''role'', SStr role),
      (''permissions'', SList permissions),
      (''serverID'', SStr serverID),
      (''serverKeyFingerprint'', SStr serverKeyFingerprint),
      (''signedAt'', SStr signedAt),
      (''userSignature'', SStr userSignature),
      (''inviteID'', SStr inviteID),
      (''bio'', SStr bio)]"
| "serverFields (QReed serverID reedID fingerprint authorKeyID userSignature timestamp) =
     [(''authorKeyID'', SStr authorKeyID),
      (''fingerprint'', SStr fingerprint),
      (''serverID'', SStr serverID),
      (''reedID'', SStr reedID),
      (''timestamp'', SStr timestamp),
      (''userSignature'', SStr userSignature)]"
| "serverFields (QPublicKey serverID userID userKeyID serverFingerprint armor timestamp) =
     [(''keyID'', SStr userKeyID),
      (''serverID'', SStr serverID),
      (''serverKeyFingerprint'', SStr serverFingerprint),
      (''signedAt'', SStr timestamp),
      (''userID'', SStr userID),
      (''armor'', SStr armor)]"
| "serverFields (QServerRevocation userID keyID reason serverID serverKeyFingerprint
       userSignature signedAt) =
     [(''type'', SStr ''revocation''),
      (''userID'', SStr userID),
      (''keyID'', SStr keyID),
      (''signedAt'', SStr signedAt),
      (''serverID'', SStr serverID),
      (''serverKeyFingerprint'', SStr serverKeyFingerprint),
      (''userSignature'', SStr userSignature),
      (''reason'', SStr reason)]"
| "serverFields (QReedRemovalServer serverID reedID authorKeyID serverKeyFingerprint
       userSignature signedAt) =
     [(''type'', SStr identityTypeReed),
      (''serverID'', SStr serverID),
      (''reedID'', SStr reedID),
      (''authorKeyID'', SStr authorKeyID),
      (''signedAt'', SStr signedAt),
      (''serverKeyFingerprint'', SStr serverKeyFingerprint),
      (''userSignature'', SStr userSignature)]"
| "serverFields (QThreadServer serverID threadID authorKeyID serverKeyFingerprint userSignature
       signedAt) =
     [(''type'', SStr identityTypeThread),
      (''serverID'', SStr serverID),
      (''threadID'', SStr threadID),
      (''authorKeyID'', SStr authorKeyID),
      (''signedAt'', SStr signedAt),
      (''serverKeyFingerprint'', SStr serverKeyFingerprint),
      (''userSignature'', SStr userSignature)]"
| "serverFields (QThreadRemovalServer serverID threadID authorKeyID serverKeyFingerprint
       userSignature signedAt) =
     [(''type'', SStr identityTypeThreadRemoval),
      (''serverID'', SStr serverID),
      (''threadID'', SStr threadID),
      (''authorKeyID'', SStr authorKeyID),
      (''signedAt'', SStr signedAt),
      (''serverKeyFingerprint'', SStr serverKeyFingerprint),
      (''userSignature'', SStr userSignature)]"
| "serverFields (QReedLikeServer reedID serverKeyFingerprint userSignature signedAt) =
     [(''type'', SStr identityTypeReedLike),
      (''reedID'', SStr reedID),
      (''signedAt'', SStr signedAt),
      (''serverKeyFingerprint'', SStr serverKeyFingerprint),
      (''userSignature'', SStr userSignature)]"
| "serverFields (QBlockServer userID blockedUserID serverKeyFingerprint userSignature signedAt) =
     [(''type'', SStr identityTypeBlock),
      (''userID'', SStr userID),
      (''blockedUserID'', SStr blockedUserID),
      (''signedAt'', SStr signedAt),
      (''serverKeyFingerprint'', SStr serverKeyFingerprint),
      (''userSignature'', SStr userSignature)]"
| "serverFields (QFollowServer followerID followeeID follow serverKeyFingerprint userSignature
       signedAt) =
     [(''type'', SStr identityTypeFollow),
      (''followerID'', SStr followerID),
      (''followeeID'', SStr followeeID),
      (''follow'', SBool follow),
      (''signedAt'', SStr signedAt),
      (''serverKeyFingerprint'', SStr serverKeyFingerprint),
      (''userSignature'', SStr userSignature)]"
| "serverFields (QVouchServer subjectKeyID serverKeyFingerprint userSignature signedAt) =
     [(''subjectKeyID'', SStr subjectKeyID),
      (''signedAt'', SStr signedAt),
      (''serverKeyFingerprint'', SStr serverKeyFingerprint),
      (''userSignature'', SStr userSignature)]"
| "serverFields (QVouchWithdrawalServer vouchID serverKeyFingerprint userSignature signedAt) =
     [(''vouchID'', SStr vouchID),
      (''signedAt'', SStr signedAt),
      (''serverKeyFingerprint'', SStr serverKeyFingerprint),
      (''userSignature'', SStr userSignature)]"
| "serverFields (QServerKeyRevocation serverID keyID successor compromised reason signedAt) =
     [(''type'', SStr identityTypeServerKeyRevocation),
      (''serverID'', SStr serverID),
      (''keyID'', SStr keyID),
      (''successor'', SStr successor),
      (''compromised'', SBool compromised),
      (''signedAt'', SStr signedAt),
      (''reason'', SStr reason)]"
| "serverFields (QPeerRecord serverID p signedAt) =
     [(''type'', SStr identityTypePeerRecord),
      (''serverID'', SStr serverID),
      (''peerID'', SStr (pPeerID p)),
      (''name'', SStr (pName p)),
      (''baseURL'', SStr (pBaseURL p)),
      (''frontendURL'', SStr (pFrontendURL p)),
      (''keyID'', SStr (pKeyID p)),
      (''invitedBy'', SStr (pInvitedBy p)),
      (''invitedAt'', SStr (optText (pInvitedAt p))),
      (''approvedBy'', SStr (pApprovedBy p)),
      (''approvedAt'', SStr (optText (pApprovedAt p))),
      (''peerApprovedAt'', SStr (optText (pPeerApprovedAt p))),
      (''disconnectRequestedBy'', SStr (pDisconnectRequestedBy p)),
      (''disconnectRequestedAt'', SStr (optText (pDisconnectRequestedAt p))),
      (''disconnectReason'', SStr (pDisconnectReason p)),
      (''revokedBy'', SStr (pRevokedBy p)),
      (''revokedAt'', SStr (optText (pRevokedAt p))),
      (''revokedReason'', SStr (pRevokedReason p)),
      (''purgedAt'', SStr (optText (pPurgedAt p))),
      (''signedAt'', SStr signedAt)]"
| "serverFields (QUsernameCollision serverID username winnerID loserID signedAt) =
     [(''type'', SStr ''username-collision''),
      (''serverID'', SStr serverID),
      (''username'', SStr username),
      (''winnerID'', SStr winnerID),
      (''loserID'', SStr loserID),
      (''signedAt'', SStr signedAt)]"
| "serverFields (QAccountRemovalServer serverID userID note serverKeyFingerprint userSignature
       signedAt) =
     [(''type'', SStr identityTypeAccount),
      (''serverID'', SStr serverID),
      (''userID'', SStr userID),
      (''signedAt'', SStr signedAt),
      (''serverKeyFingerprint'', SStr serverKeyFingerprint),
      (''userSignature'', SStr userSignature),
      (''note'', SStr note)]"
| "serverFields (QInviteServer serverID userID inviteID tokenHash serverKeyFingerprint
       userSignature createdAt signedAt) =
     [(''type'', SStr identityTypeInviteServer),
      (''serverID'', SStr serverID),
      (''userID'', SStr userID),
      (''inviteID'', SStr inviteID),
      (''tokenHash'', SStr tokenHash),
      (''createdAt'', SStr createdAt),
      (''signedAt'', SStr signedAt),
      (''serverKeyFingerprint'', SStr serverKeyFingerprint),
      (''userSignature'', SStr userSignature)]"
| "serverFields (QFederationInvitation inviteID serverID baseURL frontendURL fingerprint secret) =
     [(''baseUrl'', SStr baseURL),
      (''fingerprint'', SStr fingerprint),
      (''frontendUrl'', SStr frontendURL),
      (''inviteId'', SStr inviteID),
      (''secret'', SStr secret),
      (''serverId'', SStr serverID)]"
| "serverFields (QFederationConnect inviteID serverID baseURL frontendURL fingerprint) =
     [(''baseUrl'', SStr baseURL),
      (''fingerprint'', SStr fingerprint),
      (''frontendUrl'', SStr frontendURL),
      (''inviteId'', SStr inviteID),
      (''serverId'', SStr serverID)]"
| "serverFields (QRippleServer serverID reedID rippleAuthorID keyID threadID replyingTo
       userSignature timestamp) =
     [(''serverID'', SStr serverID),
      (''reedID'', SStr reedID),
      (''rippleAuthorID'', SStr rippleAuthorID),
      (''keyID'', SStr keyID),
      (''threadID'', SStr threadID),
      (''replyingTo'', SStr replyingTo),
      (''timestamp'', SStr timestamp),
      (''userSignature'', SStr userSignature)]"
| "serverFields (QAdminRequestOpened requestID requestSignature serverID serverKeyFingerprint
       signedAt) =
     [(''type'', SStr identityTypeAdminRequestOpened),
      (''requestID'', SStr requestID),
      (''requestSignature'', SStr requestSignature),
      (''serverID'', SStr serverID),
      (''serverKeyFingerprint'', SStr serverKeyFingerprint),
      (''signedAt'', SStr signedAt)]"
| "serverFields (QAdminRequestServer requestID state requestSignature decisionSignature serverID
       serverKeyFingerprint signedAt) =
     [(''type'', SStr identityTypeAdminRequestServer),
      (''requestID'', SStr requestID),
      (''state'', SStr state),
      (''requestSignature'', SStr requestSignature),
      (''decisionSignature'', SStr decisionSignature),
      (''serverID'', SStr serverID),
      (''serverKeyFingerprint'', SStr serverKeyFingerprint),
      (''signedAt'', SStr signedAt)]"
| "serverFields (QLedgerEntry entryID prevID prevSignature kind userID requesterID requestedAt
       message content targets serverID serverKeyFingerprint signedAt) =
     [(''type'', SStr identityTypeLedgerEntry),
      (''id'', SNum entryID),
      (''prevID'', (if prevID \<noteq> 0 then SNum prevID else SNil)),
      (''prevSignature'', SStr prevSignature),
      (''kind'', SStr kind),
      (''userID'', SStr userID),
      (''requesterID'', SStr requesterID),
      (''requestedAt'', SStr (optText requestedAt)),
      (''message'', SStr message),
      (''content'', SStr content),
      (''targets'', SList targets),
      (''serverID'', SStr serverID),
      (''serverKeyFingerprint'', SStr serverKeyFingerprint),
      (''signedAt'', SStr signedAt)]"
| "serverFields (QAccountKickServer serverID userID requestID requestSignature decisionSignature
       serverKeyFingerprint signedAt) =
     [(''type'', SStr identityTypeAccountKick),
      (''serverID'', SStr serverID),
      (''userID'', SStr userID),
      (''requestID'', SStr requestID),
      (''requestSignature'', SStr requestSignature),
      (''decisionSignature'', SStr decisionSignature),
      (''serverKeyFingerprint'', SStr serverKeyFingerprint),
      (''signedAt'', SStr signedAt)]"
| "serverFields (QAdminRevocationServer userID keyID requestID requestSignature
       decisionSignature serverID serverKeyFingerprint signedAt) =
     [(''type'', SStr identityTypeAdminRevocation),
      (''userID'', SStr userID),
      (''keyID'', SStr keyID),
      (''reason'', SStr keyRevocationReasonLost),
      (''requestID'', SStr requestID),
      (''requestSignature'', SStr requestSignature),
      (''decisionSignature'', SStr decisionSignature),
      (''serverID'', SStr serverID),
      (''serverKeyFingerprint'', SStr serverKeyFingerprint),
      (''signedAt'', SStr signedAt)]"
| "serverFields (QReedFlagServer reedID reporterID caseID serverKeyFingerprint userSignature
       signedAt) =
     [(''type'', SStr identityTypeReedFlag),
      (''reedID'', SStr reedID),
      (''reporterID'', SStr reporterID),
      (''caseID'', SStr caseID),
      (''signedAt'', SStr signedAt),
      (''serverKeyFingerprint'', SStr serverKeyFingerprint),
      (''userSignature'', SStr userSignature)]"
| "serverFields (QFlagDismissalServer caseID reedID serverKeyFingerprint userSignature signedAt) =
     [(''type'', SStr identityTypeFlagDismissal),
      (''caseID'', SStr caseID),
      (''reedID'', SStr reedID),
      (''signedAt'', SStr signedAt),
      (''serverKeyFingerprint'', SStr serverKeyFingerprint),
      (''userSignature'', SStr userSignature)]"
| "serverFields (QFlagWithdrawalServer reedID reporterID serverKeyFingerprint userSignature
       signedAt) =
     [(''type'', SStr identityTypeFlagWithdrawal),
      (''reedID'', SStr reedID),
      (''reporterID'', SStr reporterID),
      (''signedAt'', SStr signedAt),
      (''serverKeyFingerprint'', SStr serverKeyFingerprint),
      (''userSignature'', SStr userSignature)]"

definition decodeServer :: "(string \<Rightarrow> signedValue option) \<Rightarrow> string
       serverPayload" where
  "decodeServer m = (let ty = getS m ''type'' in
     if ty = ''identity-server'' then QProfile (getS m ''userID'') (getS m ''username'') (getS m
       ''keyID'') (getS m ''serverID'') (getS m ''serverKeyFingerprint'') (getS m
       ''userSignature'') (getS m ''inviteID'') (getS m ''role'') (getL m ''permissions'') (getS
       m ''bio'') (getS m ''memberSince'') (getS m ''signedAt'') else
     if ty = ''revocation'' then QServerRevocation (getS m ''userID'') (getS m ''keyID'') (getS
       m ''reason'') (getS m ''serverID'') (getS m ''serverKeyFingerprint'') (getS m
       ''userSignature'') (getS m ''signedAt'') else
     if ty = identityTypeReed then QReedRemovalServer (getS m ''serverID'') (getS m ''reedID'')
       (getS m ''authorKeyID'') (getS m ''serverKeyFingerprint'') (getS m ''userSignature'')
       (getS m ''signedAt'') else
     if ty = identityTypeThread then QThreadServer (getS m ''serverID'') (getS m ''threadID'')
       (getS m ''authorKeyID'') (getS m ''serverKeyFingerprint'') (getS m ''userSignature'')
       (getS m ''signedAt'') else
     if ty = identityTypeThreadRemoval then QThreadRemovalServer (getS m ''serverID'') (getS m
       ''threadID'') (getS m ''authorKeyID'') (getS m ''serverKeyFingerprint'') (getS m
       ''userSignature'') (getS m ''signedAt'') else
     if ty = identityTypeReedLike then QReedLikeServer (getS m ''reedID'') (getS m
       ''serverKeyFingerprint'') (getS m ''userSignature'') (getS m ''signedAt'') else
     if ty = identityTypeBlock then QBlockServer (getS m ''userID'') (getS m ''blockedUserID'')
       (getS m ''serverKeyFingerprint'') (getS m ''userSignature'') (getS m ''signedAt'') else
     if ty = identityTypeFollow then QFollowServer (getS m ''followerID'') (getS m
       ''followeeID'') (getB m ''follow'') (getS m ''serverKeyFingerprint'') (getS m
       ''userSignature'') (getS m ''signedAt'') else
     if ty = identityTypeServerKeyRevocation then QServerKeyRevocation (getS m ''serverID'')
       (getS m ''keyID'') (getS m ''successor'') (getB m ''compromised'') (getS m ''reason'')
       (getS m ''signedAt'') else
     if ty = identityTypePeerRecord then QPeerRecord (getS m ''serverID'') (Peering (getS m
       ''peerID'') (getS m ''name'') (getS m ''baseURL'') (getS m ''frontendURL'') (getS m
       ''keyID'') (getS m ''invitedBy'') (getO m ''invitedAt'') (getS m ''approvedBy'') (getO m
       ''approvedAt'') (getO m ''peerApprovedAt'') (getS m ''disconnectRequestedBy'') (getO m
       ''disconnectRequestedAt'') (getS m ''disconnectReason'') (getS m ''revokedBy'') (getO m
       ''revokedAt'') (getS m ''revokedReason'') (getO m ''purgedAt'')) (getS m ''signedAt'')
       else
     if ty = ''username-collision'' then QUsernameCollision (getS m ''serverID'') (getS m
       ''username'') (getS m ''winnerID'') (getS m ''loserID'') (getS m ''signedAt'') else
     if ty = identityTypeAccount then QAccountRemovalServer (getS m ''serverID'') (getS m
       ''userID'') (getS m ''note'') (getS m ''serverKeyFingerprint'') (getS m
       ''userSignature'') (getS m ''signedAt'') else
     if ty = identityTypeInviteServer then QInviteServer (getS m ''serverID'') (getS m
       ''userID'') (getS m ''inviteID'') (getS m ''tokenHash'') (getS m
       ''serverKeyFingerprint'') (getS m ''userSignature'') (getS m ''createdAt'') (getS m
       ''signedAt'') else
     if ty = identityTypeAdminRequestOpened then QAdminRequestOpened (getS m ''requestID'')
       (getS m ''requestSignature'') (getS m ''serverID'') (getS m ''serverKeyFingerprint'')
       (getS m ''signedAt'') else
     if ty = identityTypeAdminRequestServer then QAdminRequestServer (getS m ''requestID'')
       (getS m ''state'') (getS m ''requestSignature'') (getS m ''decisionSignature'') (getS m
       ''serverID'') (getS m ''serverKeyFingerprint'') (getS m ''signedAt'') else
     if ty = identityTypeLedgerEntry then QLedgerEntry (getN m ''id'') (getN m ''prevID'') (getS
       m ''prevSignature'') (getS m ''kind'') (getS m ''userID'') (getS m ''requesterID'') (getO
       m ''requestedAt'') (getS m ''message'') (getS m ''content'') (getL m ''targets'') (getS m
       ''serverID'') (getS m ''serverKeyFingerprint'') (getS m ''signedAt'') else
     if ty = identityTypeAccountKick then QAccountKickServer (getS m ''serverID'') (getS m
       ''userID'') (getS m ''requestID'') (getS m ''requestSignature'') (getS m
       ''decisionSignature'') (getS m ''serverKeyFingerprint'') (getS m ''signedAt'') else
     if ty = identityTypeAdminRevocation then QAdminRevocationServer (getS m ''userID'') (getS m
       ''keyID'') (getS m ''requestID'') (getS m ''requestSignature'') (getS m
       ''decisionSignature'') (getS m ''serverID'') (getS m ''serverKeyFingerprint'') (getS m
       ''signedAt'') else
     if ty = identityTypeReedFlag then QReedFlagServer (getS m ''reedID'') (getS m
       ''reporterID'') (getS m ''caseID'') (getS m ''serverKeyFingerprint'') (getS m
       ''userSignature'') (getS m ''signedAt'') else
     if ty = identityTypeFlagDismissal then QFlagDismissalServer (getS m ''caseID'') (getS m
       ''reedID'') (getS m ''serverKeyFingerprint'') (getS m ''userSignature'') (getS m
       ''signedAt'') else
     if ty = identityTypeFlagWithdrawal then QFlagWithdrawalServer (getS m ''reedID'') (getS m
       ''reporterID'') (getS m ''serverKeyFingerprint'') (getS m ''userSignature'') (getS m
       ''signedAt'') else
     if getS m ''authorKeyID'' \<noteq> '''' then QReed (getS m ''serverID'') (getS m
       ''reedID'') (getS m ''fingerprint'') (getS m ''authorKeyID'') (getS m ''userSignature'')
       (getS m ''timestamp'') else
     if getS m ''rippleAuthorID'' \<noteq> '''' then QRippleServer (getS m ''serverID'') (getS m
       ''reedID'') (getS m ''rippleAuthorID'') (getS m ''keyID'') (getS m ''threadID'') (getS m
       ''replyingTo'') (getS m ''userSignature'') (getS m ''timestamp'') else
     if getS m ''subjectKeyID'' \<noteq> '''' then QVouchServer (getS m ''subjectKeyID'') (getS
       m ''serverKeyFingerprint'') (getS m ''userSignature'') (getS m ''signedAt'') else
     if getS m ''vouchID'' \<noteq> '''' then QVouchWithdrawalServer (getS m ''vouchID'') (getS
       m ''serverKeyFingerprint'') (getS m ''userSignature'') (getS m ''signedAt'') else
     if getS m ''secret'' \<noteq> '''' then QFederationInvitation (getS m ''inviteId'') (getS m
       ''serverId'') (getS m ''baseUrl'') (getS m ''frontendUrl'') (getS m ''fingerprint'')
       (getS m ''secret'') else
     if getS m ''inviteId'' \<noteq> '''' then QFederationConnect (getS m ''inviteId'') (getS m
       ''serverId'') (getS m ''baseUrl'') (getS m ''frontendUrl'') (getS m ''fingerprint'') else
     QPublicKey (getS m ''serverID'') (getS m ''userID'') (getS m ''keyID'') (getS m
       ''serverKeyFingerprint'') (getS m ''armor'') (getS m ''signedAt''))"

definition serverNamed :: "'t serverPayload \<Rightarrow> bool" where
  "serverNamed p = (case p of
     QReed _ _ _ authorKeyID _ _ \<Rightarrow> authorKeyID \<noteq> ''''
   | QVouchServer subjectKeyID _ _ _ \<Rightarrow> subjectKeyID \<noteq> ''''
   | QVouchWithdrawalServer vouchID _ _ _ \<Rightarrow> vouchID \<noteq> ''''
   | QFederationInvitation _ _ _ _ _ secret \<Rightarrow> secret \<noteq> ''''
   | QFederationConnect inviteID _ _ _ _ \<Rightarrow> inviteID \<noteq> ''''
   | QRippleServer _ _ rippleAuthorID _ _ _ _ _ \<Rightarrow> rippleAuthorID \<noteq> ''''
   | _ \<Rightarrow> True)"

subsection \<open>Both families are unambiguous\<close>

definition userReady :: "string userPayload \<Rightarrow> bool" where
  "userReady p \<longleftrightarrow> userNamed p \<and> (\<forall>t \<in> set_userPayload p. t \<noteq> '''')"

definition serverReady :: "string serverPayload \<Rightarrow> bool" where
  "serverReady p \<longleftrightarrow> serverNamed p \<and> (\<forall>t \<in> set_serverPayload p. t \<noteq> '''')"

lemma decodeUser_kept:
  "distinct (map fst fs) \<Longrightarrow> decodeUser (map_of (keptFields fs)) = decodeUser (map_of fs)"
  by (simp only: decodeUser_def getters_kept)

lemma decodeServer_kept:
  "distinct (map fst fs) \<Longrightarrow> decodeServer (map_of (keptFields fs)) = decodeServer (map_of fs)"
  by (simp only: decodeServer_def getters_kept)

lemma userFields_distinct: "distinct (map fst (userFields p))"
  by (cases p) simp_all

lemma serverFields_distinct: "distinct (map fst (serverFields p))"
  by (cases p) simp_all

lemma decodeUser_userFields: "userReady p \<Longrightarrow> decodeUser (map_of (userFields p)) = p"
  by (cases p) (simp_all add: decodeUser_def Let_def getters identity_types userReady_def userNamed_def)

lemma getO_time:
  "(\<forall>t \<in> set_option x. t \<noteq> '''') \<Longrightarrow> m k = Some (SStr (optText x)) \<Longrightarrow> getO m k = x"
  by (cases x) (simp_all add: getters optText_def)

lemma getO_absent: "m k = None \<Longrightarrow> getO m k = None"
  by (simp add: getters)


lemma decodeServer_serverFields: "serverReady p \<Longrightarrow> decodeServer (map_of (serverFields p)) = p"
proof (cases p)
  case (QPeerRecord s pr t)
  then show "serverReady p \<Longrightarrow> ?thesis"
    by (cases pr)
      (simp add: decodeServer_def Let_def getS_def identity_types serverReady_def getO_time ball_Un)
next
  case (QLedgerEntry a b c d e f r g h i j k t)
  then show "serverReady p \<Longrightarrow> ?thesis"
    by (cases r; cases "b = 0")
      (simp_all add: decodeServer_def Let_def getters identity_types serverReady_def optText_def)
qed (simp_all add: decodeServer_def Let_def getters identity_types serverReady_def serverNamed_def)

interpretation usr: payload_family userFields decodeUser userReady
  by unfold_locales (simp_all add: userFields_distinct decodeUser_userFields decodeUser_kept)

interpretation srv: payload_family serverFields decodeServer serverReady
  by unfold_locales (simp_all add: serverFields_distinct decodeServer_serverFields decodeServer_kept)

text \<open>
  A record as it is signed: named where the bare shape of its fields would not tell it apart,
  with whole-second, set times and strings that are valid UTF-8.
\<close>

definition userOK :: "gotime userPayload \<Rightarrow> bool" where
  "userOK p \<longleftrightarrow> userNamed p \<and> (\<forall>t \<in> set_userPayload p. wholeSecond t \<and> t \<noteq> 0) \<and>
     list_all (\<lambda>(k, v). wfValue v) (userFields (map_userPayload signedTime p))"

definition serverOK :: "gotime serverPayload \<Rightarrow> bool" where
  "serverOK p \<longleftrightarrow> serverNamed p \<and> (\<forall>t \<in> set_serverPayload p. wholeSecond t \<and> t \<noteq> 0) \<and>
     list_all (\<lambda>(k, v). wfValue v) (serverFields (map_serverPayload signedTime p))"

lemma userNamed_map: "userNamed (map_userPayload f p) = userNamed p"
  by (cases p) (simp_all add: userNamed_def)

lemma serverNamed_map: "serverNamed (map_serverPayload f p) = serverNamed p"
  by (cases p) (simp_all add: serverNamed_def)

lemma userBytes_fields:
  "userBytes jcs p = canonicalJSON jcs (userFields (map_userPayload signedTime p))"
  by (cases p) (simp_all add: builder_defs)


lemma serverBytes_fields:
  assumes "\<forall>t \<in> set_serverPayload p. t \<noteq> 0"
  shows "serverBytes jcs p = canonicalJSON jcs (serverFields (map_serverPayload signedTime p))"
proof (cases p)
  case (QPeerRecord s pr t)
  then show ?thesis
    by (cases pr) (simp add: builder_defs optText_time)
next
  case (QLedgerEntry a b c d e f r g h i j k t)
  with assms show ?thesis
    by (cases r) (simp_all add: builder_defs isZeroTime_def optText_def)
qed (simp_all add: builder_defs)

lemma userOK_ready: "userOK p \<Longrightarrow> userReady (map_userPayload signedTime p) \<and>
    wfFields (userFields (map_userPayload signedTime p))"
  by (auto simp: userOK_def userReady_def userNamed_map userPayload.set_map wfFields_def
      userFields_distinct)

lemma serverOK_ready: "serverOK p \<Longrightarrow> serverReady (map_serverPayload signedTime p) \<and>
    wfFields (serverFields (map_serverPayload signedTime p))"
  by (auto simp: serverOK_def serverReady_def serverNamed_map serverPayload.set_map wfFields_def
      serverFields_distinct)

lemma user_map_inj:
  assumes "userOK p" "userOK q" "map_userPayload signedTime p = map_userPayload signedTime q"
  shows "p = q"
  using assms by (intro userPayload.inj_map_strong [of p q signedTime signedTime])
    (auto simp: userOK_def dest: signedTime_inj)

lemma server_map_inj:
  assumes "serverOK p" "serverOK q" "map_serverPayload signedTime p = map_serverPayload signedTime q"
  shows "p = q"
  using assms by (intro serverPayload.inj_map_strong [of p q signedTime signedTime])
    (auto simp: serverOK_def dest: signedTime_inj)

lemma userBytes_inj:
  assumes "jcsFaithful jcs" "userOK p" "userOK q" "userBytes jcs p = userBytes jcs q"
  shows "p = q"
proof (rule user_map_inj [OF assms(2,3)])
  show "map_userPayload signedTime p = map_userPayload signedTime q"
    using usr.bytes_unambiguous [OF assms(1)] userOK_ready [OF assms(2)] userOK_ready [OF assms(3)]
      assms(4) by (simp add: userBytes_fields)
qed

lemma serverBytes_inj:
  assumes "jcsFaithful jcs" "serverOK p" "serverOK q" "serverBytes jcs p = serverBytes jcs q"
  shows "p = q"
proof (rule server_map_inj [OF assms(2,3)])
  have "\<forall>t \<in> set_serverPayload p. t \<noteq> 0" "\<forall>t \<in> set_serverPayload q. t \<noteq> 0"
    using assms(2,3) by (auto simp: serverOK_def)
  then show "map_serverPayload signedTime p = map_serverPayload signedTime q"
    using srv.bytes_unambiguous [OF assms(1)] serverOK_ready [OF assms(2)]
      serverOK_ready [OF assms(3)] assms(4) by (simp add: serverBytes_fields)
qed

lemma jcsFaithful_map_of: "jcsFaithful map_of"
  by (simp add: jcsFaithful_def)

end
