(* ===== verification/TextProperties.thy ===== *)
theory TextProperties
  imports PayloadSafety SmallServer FlagHandlers
begin

text \<open>
  What the written forms promise: no signature fits two records, times, ids and permission sets read
  back as what was written, a mention list keeps exactly the well-formed claims, and what an admin is
  shown of other people's mail and of flags on their own reeds.
\<close>

subsection \<open>Signed bytes\<close>

text \<open>
  C24.  Two records a user's key signs have the same bytes only when they are the same record: a
  signature for one request, decision, flag, follow or removal never verifies for another, nor for
  another kind of record, as long as the canonical JSON tells different objects apart.
\<close>

theorem user_signature_unambiguous:
  assumes "jcsFaithful jcs" and "userOK p" "userOK q"
  shows "userBytes jcs p = userBytes jcs q \<longleftrightarrow> p = q"
  using userBytes_inj [OF assms] by auto

theorem user_signature_unambiguous_witness:
  "userBytes map_of (PAdminDecision ''i'' adminDecisionApprove ''b@s'' ''b@s/k'' ''q'') \<noteq>
   userBytes map_of (PAdminDecision ''i'' adminDecisionReject ''b@s'' ''b@s/k'' ''q'')"
proof -
  have "userOK (PAdminDecision ''i'' d ''b@s'' ''b@s/k'' ''q'')" if "validUtf8 d" for d
  proof -
    have "validUtf8 ''i''" "validUtf8 ''b@s''" "validUtf8 ''b@s/k''" "validUtf8 ''q''" by code_simp+
    then show ?thesis using that by (simp add: userOK_def userNamed_def) code_simp
  qed
  moreover have "validUtf8 adminDecisionApprove" "validUtf8 adminDecisionReject" by code_simp+
  ultimately have ok: "userOK (PAdminDecision ''i'' adminDecisionApprove ''b@s'' ''b@s/k'' ''q'')"
    "userOK (PAdminDecision ''i'' adminDecisionReject ''b@s'' ''b@s/k'' ''q'')" by blast+
  have "adminDecisionApprove \<noteq> adminDecisionReject" by code_simp
  then show ?thesis using user_signature_unambiguous [OF jcsFaithful_map_of ok] by simp
qed

text \<open>
  C25.  Likewise for the server's key: a countersignature over a profile, a reed, a ledger entry, a case
  or a peer's record never verifies for another record.
\<close>

theorem server_signature_unambiguous:
  assumes "jcsFaithful jcs" and "serverOK p" "serverOK q"
  shows "serverBytes jcs p = serverBytes jcs q \<longleftrightarrow> p = q"
  using serverBytes_inj [OF assms] by auto

theorem server_signature_unambiguous_witness:
  "serverBytes map_of (QFederationConnect ''i'' ''s'' ''u'' ''v'' ''f'') \<noteq>
   serverBytes map_of (QFederationConnect ''i'' ''t'' ''u'' ''v'' ''f'')"
proof -
  have ok: "serverOK (QFederationConnect ''i'' x ''u'' ''v'' ''f'')" if "validUtf8 x" for x
  proof -
    have "validUtf8 ''i''" "validUtf8 ''u''" "validUtf8 ''v''" "validUtf8 ''f''" by code_simp+
    then show ?thesis using that by (simp add: serverOK_def serverNamed_def)
  qed
  have "validUtf8 ''s''" "validUtf8 ''t''" by code_simp+
  then show ?thesis using server_signature_unambiguous [OF jcsFaithful_map_of ok ok] by simp
qed

subsection \<open>Times, ids and permission sets\<close>

text \<open>
  The text a payload signs for a time says exactly which second it is: two whole-second times
  with the same text are the same, and truncating any time to the second is what is signed.
\<close>

theorem signed_time_exact:
  "signedTime (truncateSecond t) = signedTime (truncateSecond u) \<longleftrightarrow> t div second = u div second"
proof
  assume "signedTime (truncateSecond t) = signedTime (truncateSecond u)"
  then have "truncateSecond t = truncateSecond u" by (intro signedTime_inj) simp_all
  then show "t div second = u div second" by (simp add: truncateSecond_def second_def minus_mod_eq_mult_div)
next
  assume "t div second = u div second"
  then show "signedTime (truncateSecond t) = signedTime (truncateSecond u)"
    by (simp add: truncateSecond_def minus_mod_eq_mult_div)
qed

text \<open>
  C40.  An identity is read as a user and a server exactly when it is written from them, and a key or
  entity id as its owner and its last part exactly when it is written from those.
\<close>

theorem ids_read_back:
  "(parseIdentityID s = Some (u, v) \<longleftrightarrow>
      s = canonicalID v u \<and> u \<noteq> '''' \<and> v \<noteq> '''' \<and> idSeparator \<notin> set v) \<and>
   (parseKeyFingerprint s = Some (u, v, f) \<longleftrightarrow>
      s = appendEntity (canonicalID v u) f \<and> u \<noteq> '''' \<and> v \<noteq> '''' \<and> idSeparator \<notin> set v \<and> f \<noteq> '''' \<and> CHR ''/'' \<notin> set f)"
proof (intro conjI iffI)
  assume k: "parseKeyFingerprint s = Some (u, v, f)"
  note parts = parseKeyFingerprint_Some [OF k]
  then have "parseIdentityID (canonicalID v u) = Some (u, v)" by (elim conjE)
  from parseIdentityID_Some [OF this] parts
  show "s = appendEntity (canonicalID v u) f" "u \<noteq> ''''" "v \<noteq> ''''" "idSeparator \<notin> set v"
    "f \<noteq> ''''" "CHR ''/'' \<notin> set f"
    by blast+
qed (use parseIdentityID_Some [of s u v] parseIdentityID_canonicalID parseKeyFingerprint_appendEntity in simp_all)

text \<open>
  A permission set reads back as the sorted set that was written, and a body that reads as a set
  is the only spelling of it.
\<close>

theorem permission_sets_read_back:
  "(set perms \<subseteq> set adminPermissions \<longrightarrow>
      parsePermissionSet (formatPermissionSet perms) = Inr (compact (sortStrings perms))) \<and>
   (parsePermissionSet body = Inr perms \<longrightarrow> formatPermissionSet perms = body)"
  using parse_formatPermissionSet format_parsePermissionSet by blast

theorem permission_sets_read_back_witness:
  "formatPermissionSet [permUserKick] = permUserKick \<and>
   parsePermissionSet permUserKick = Inr (compact (sortStrings [permUserKick]))"
proof -
  have "set [permUserKick] \<subseteq> set adminPermissions" "parsePermissionSet permUserKick = Inr [permUserKick]"
    by code_simp+
  moreover have "[permUserKick] = compact (sortStrings [permUserKick])" by code_simp
  ultimately show ?thesis using permission_sets_read_back [of "[permUserKick]" permUserKick] by simp
qed

text \<open>
  The mentions kept of a reed are its well-formed claims, each once and in any spelling, and never
  its author.
\<close>

theorem mentions_exact:
  "distinct (validateMentionClaims claims author) \<and>
   set (validateMentionClaims claims author) =
     {r. \<exists>c \<in> set claims. claimRef c = Some r \<and> canonicalAuthorID r \<noteq> author}"
  by (simp add: validateMentionClaims_distinct validateMentionClaims_set)


subsection \<open>What an admin is shown\<close>

text \<open>
  C39.  A request for a broadcast or a private message is listed, served and pushed only to admins who
  asked for it themselves or hold that action's permission.
\<close>

theorem mail_stays_private:
  assumes "rq_action r \<in> set mailActions" and "uniqueBy u_id (db_users d)"
    and "(\<exists>state cursor page nxt. listAdminRequestsHandler E d (Some v) state cursor = Done 200 (page, nxt) \<and> r \<in> set page) \<or>
      (\<exists>i. getAdminRequestHandler E d (Some v) i = Done 200 r) \<or> v \<in> set (pushAdminRecord E d (RecRequest r))"
  shows "isAdmin (userRoleQ d v) \<and>
    (rq_requester r = v \<or> actionPermission (rq_action r) \<in> set (getUserPermissions E d v))"
proof -
  let ?hidden = "hiddenAdminActions (userPermissionsQ d v (userRoleQ d v) (e_server_id E))"
  have seen: "rq_requester r = v \<or> actionPermission (rq_action r) \<in> set (getUserPermissions E d v)"
    if "rq_requester r = v \<or> rq_action r \<notin> set ?hidden"
    using that assms(1) by (auto simp: hiddenAdminActions_def getUserPermissions_def)
  from assms(3) consider
      state cursor page nxt where "listAdminRequestsHandler E d (Some v) state cursor = Done 200 (page, nxt)" "r \<in> set page"
    | i where "getAdminRequestHandler E d (Some v) i = Done 200 r"
    | "v \<in> set (pushAdminRecord E d (RecRequest r))" by blast
  then show ?thesis
  proof cases
    case 1
    then have "isAdmin (userRoleQ d v)" "r \<in> set (fst (listAdminRequests d state cursor 50 v ?hidden))"
      by (auto simp: listAdminRequestsHandler_def adminCaller_def split: if_splits)
    then show ?thesis using listAdminRequests_visible seen by blast
  next
    case 2
    then have "isAdmin (userRoleQ d v)" "rq_requester r = v \<or> rq_action r \<notin> set ?hidden"
      by (auto simp: getAdminRequestHandler_def adminCaller_def split: if_splits option.splits)
    then show ?thesis using seen by blast
  next
    case 3
    then obtain u where "u \<in> set (db_users d)" "u_id u = v" "isAdmin (u_role u)"
      using pushAdminRecord_admin by blast
    then have "isAdmin (userRoleQ d v)"
      using rowBy_eq [OF assms(2)] by (auto simp: userRoleQ_def userRow_def)
    then show ?thesis using pushAdminRecord_mail [OF 3 assms(1,2)] by blast
  qed
qed

theorem mail_stays_private_witness:
  "\<exists>r. ''b@s'' \<in> set (pushAdminRecord aServer aDb (RecRequest r)) \<and> rq_requester r = ''a@s'' \<and>
     rq_action r = adminActionUnicast \<and> isAdmin (userRoleQ aDb ''b@s'') \<and>
     actionPermission adminActionUnicast \<in> set (getUserPermissions aServer aDb ''b@s'')"
proof -
  let ?r = "askedRequest adminActionUnicast [''u@s''] ''hello''"
  have act: "rq_action ?r = adminActionUnicast" "rq_requester ?r = ''a@s''" by simp_all
  have mail: "rq_action ?r \<in> set mailActions" using act(1) by (simp add: mailActions_def)
  have uni: "uniqueBy u_id (db_users aDb)" by (simp add: aDb_def aUser_def)
  have "hiddenAdminActions (userPermissionsQ aDb ''b@s'' roleAdmin ''s'') = []" by code_simp
  then have "visibleTo (RecRequest ?r) ''b@s'' (hiddenAdminActions (userPermissionsQ aDb ''b@s'' roleAdmin ''s''))"
    by (simp add: visibleTo_def)
  moreover have "aUser ''b'' roleAdmin \<in> set (filter (\<lambda>u. isAdmin (u_role u)) (db_users aDb))"
    by (simp add: aDb_def aUser_def isAdmin_def)
  ultimately have push: "''b@s'' \<in> set (pushAdminRecord aServer aDb (RecRequest ?r))"
    unfolding pushAdminRecord_def listAdminViewers_def
    by (force simp: aUser_def image_iff)
  have "isAdmin (userRoleQ aDb ''b@s'') \<and>
      (rq_requester ?r = ''b@s'' \<or> actionPermission (rq_action ?r) \<in> set (getUserPermissions aServer aDb ''b@s''))"
    using mail_stays_private [OF mail uni, where E = aServer and v = "''b@s''"] push by blast
  then have "isAdmin (userRoleQ aDb ''b@s'')"
    "actionPermission adminActionUnicast \<in> set (getUserPermissions aServer aDb ''b@s'')"
    using act by auto
  then show ?thesis using push act by blast
qed

text \<open>
  A flag, a dismissal and a deleted case are pushed to admins only, and never to the author of the
  reed they are about.
\<close>

theorem author_is_not_told:
  assumes "v \<in> set (pushAdminRecord E d rec)"
    and "rec = RecFlag f \<and> reedID = rf_reed f \<or> rec = RecDismissal x \<and> reedID = fd_reed x \<or>
      rec = RecDeletedCase i reedID"
  shows "(\<exists>u \<in> set (db_users d). u_id u = v \<and> isAdmin (u_role u)) \<and> authorOf reedID \<noteq> Some v"
  using pushAdminRecord_admin [OF assms(1)] pushAdminRecord_not_author [OF assms] by blast

theorem author_is_not_told_witness:
  "''b@s'' \<in> set (pushAdminRecord aServer aDb (RecDeletedCase ''c'' ''a@s/r'')) \<and>
   ''a@s'' \<notin> set (pushAdminRecord aServer aDb (RecDeletedCase ''c'' ''a@s/r''))"
proof -
  have "authorOf ''a@s/r'' = Some ''a@s''" by code_simp
  moreover have "aUser ''b'' roleAdmin \<in> set (filter (\<lambda>u. isAdmin (u_role u)) (db_users aDb))"
    by (simp add: aDb_def aUser_def isAdmin_def)
  ultimately have "''b@s'' \<in> set (pushAdminRecord aServer aDb (RecDeletedCase ''c'' ''a@s/r''))"
    unfolding pushAdminRecord_def listAdminViewers_def
    by (force simp: aUser_def image_iff visibleTo_def)
  then show ?thesis
    using author_is_not_told [of "''a@s''" aServer aDb "RecDeletedCase ''c'' ''a@s/r''" undefined "''a@s/r''" undefined "''c''"]
      \<open>authorOf ''a@s/r'' = Some ''a@s''\<close> by blast
qed

end
