(* ===== verification/Social.thy ===== *)
theory Social
  imports Removal
begin

text \<open>
  What users say about each other: the tables of follows, blocks, vouches and verification windows of
  \<open>db.go\<close> next to the ones in \<open>db\<close>, who a call is for, and how a peer's countersignature is checked.
\<close>

record vouchCert =
  vc_id :: string
  vc_voucher :: string
  vc_voucher_key :: string
  vc_subject :: string
  vc_subject_key :: string
  vc_note :: string
  vc_sig :: userSig
  vc_server_sig :: serverSig
  vc_withdrawal :: "(userSig \<times> serverSig) option"

text \<open>A row of \<open>user_vouches\<close>, its signatures in place of their ids.\<close>

record vouchRow =
  vo_cert :: vouchCert
  vo_created :: gotime

record activeVouch =
  av_vouch :: string
  av_voucher :: string
  av_subject :: string
  av_subject_key :: string

record vouchRef =
  vr_vouch :: string
  vr_subject :: string
  vr_subject_key :: string
  vr_server :: string

record windowRow =
  vw_id :: string
  vw_user :: string
  vw_ping :: gotime

record followCert =
  fw_follower :: string
  fw_followee :: string
  fw_follow :: bool
  fw_sig :: userSig
  fw_server_sig :: serverSig

record blockCert =
  bk_user :: string
  bk_blocked :: string
  bk_sig :: userSig
  bk_server_sig :: serverSig

record blockEvent =
  be_user :: string
  be_blocked :: string
  be_kind :: string

text \<open>
  \<open>so_pins\<close> is the key a peer is pinned to in \<open>server_mesh\<close>; \<open>so_pending\<close> a pending event, who asked
  and about which reed.
\<close>

record social =
  so_db :: db
  so_vouches :: "vouchRow list"
  so_active :: "activeVouch list"
  so_refs :: "vouchRef list"
  so_windows :: "windowRow list"
  so_online :: "string list"
  so_unclaimed :: "string list"
  so_pins :: "(string \<times> string) list"
  so_follows :: "followCert list"
  so_following :: "(string \<times> string) list"
  so_followers :: "(string \<times> string) list"
  so_follow_queue :: "(string \<times> string) list"
  so_blocks :: "blockCert list"
  so_block_queue :: "blockEvent list"
  so_allocations :: "(string \<times> string) list"
  so_pending :: "(string \<times> string \<times> string) list"

datatype socialEffect =
    VouchCreated string string
  | PushFollow followCert
  | PushBlock blockCert
  | PushUnblock string string
  | ReedCoverage string
  | DrainPeer string

text \<open>A call to a peer: whether it failed, and its status.\<close>

type_synonym 'p peerCall = "string \<Rightarrow> string \<Rightarrow> 'p \<Rightarrow> bool \<times> nat"

subsection \<open>Who a call is for\<close>

text \<open>\<open>resolveActingUser\<close>: the session's user, or the one a peer names among its own.\<close>

definition resolveActingUser :: "string option \<Rightarrow> string option \<Rightarrow> string \<Rightarrow> string option" where
  "resolveActingUser caller peer candidate = (case caller of
     Some u \<Rightarrow> Some u
   | None \<Rightarrow> (case peer of
       None \<Rightarrow> None
     | Some p \<Rightarrow> let c = trimSpace candidate in
         if identityServerID c = Some p then Some c else None))"

definition isUnclaimed :: "social \<Rightarrow> string \<Rightarrow> bool" where
  "isUnclaimed s u \<longleftrightarrow> u \<in> set (so_unclaimed s)"

text \<open>\<open>GetAccountRemoval\<close>: it looks up the local account with the id's user part.\<close>

definition getAccountRemoval :: "env \<Rightarrow> db \<Rightarrow> string \<Rightarrow> accountRemovalCert option" where
  "getAccountRemoval E d u = loadAccountCertTx d (canonicalID (e_server_id E)
     (case parseIdentityID u of None \<Rightarrow> u | Some (bare, _) \<Rightarrow> bare))"

text \<open>
  \<open>GetUserProfile\<close>, as its callers here use it: \<open>Inl\<close> an error, which a row whose signatures are gone
  gives too, else whether there is one.
\<close>

definition getUserProfile :: "db \<Rightarrow> string \<Rightarrow> err + bool" where
  "getUserProfile d u = (case userRow d u of
     None \<Rightarrow> Inr False
   | Some r \<Rightarrow> if u_user_sig r = None \<or> u_server_sig r = None then Inl (Internal ''scan profile'') else Inr True)"

definition mentionTargetValid :: "env \<Rightarrow> db \<Rightarrow> string \<Rightarrow> bool" where
  "mentionTargetValid E d bare \<longleftrightarrow>
     (let u = canonicalID (e_server_id E) bare in userRow d u \<noteq> None \<and> \<not> hasAccountRemovalQ d u)"

subsection \<open>Peers' countersignatures\<close>

definition pinnedKey :: "social \<Rightarrow> string \<Rightarrow> string option" where
  "pinnedKey s peer = (if peer \<in> set (livePeers (so_db s)) then map_of (so_pins s) peer else None)"

definition keyArmor :: "social \<Rightarrow> string \<Rightarrow> string option" where
  "keyArmor s i = map_option pk_armor (rowBy pk_id i (db_keys (so_db s)))"

text \<open>\<open>checkPeerCountersignature\<close> with \<open>VerifyFederationPeer\<close>: only the pinned key signs.\<close>

definition checkPeerCountersignature ::
    "env \<Rightarrow> social \<Rightarrow> string \<Rightarrow> serverSig \<Rightarrow> (string \<Rightarrow> string) \<Rightarrow> (nat \<times> string) option" where
  "checkPeerCountersignature E s peer sig payload = (case parseIdentityID (ss_id sig) of
     None \<Rightarrow> Some (400, ''countersignature is not the calling server's'')
   | Some (fingerprint, signer) \<Rightarrow>
       if signer \<noteq> peer then Some (400, ''countersignature is not the calling server's'')
       else if pinnedKey s peer \<noteq> Some (canonicalID peer fingerprint)
         then Some (400, ''countersignature key is not the one pinned for the calling server'')
       else (case keyArmor s (canonicalID peer fingerprint) of
           None \<Rightarrow> Some (400, ''countersignature key is not the one pinned for the calling server'')
         | Some armor \<Rightarrow>
             if \<not> e_verify E (payload fingerprint) (ss_armor sig) armor
               then Some (400, ''countersignature does not verify'') else None))"

text \<open>\<open>GetPeerPin\<close>: the pinned key's id and armor, of a peer with an address.\<close>

definition getPeerPin :: "social \<Rightarrow> string \<Rightarrow> (string \<times> string) option" where
  "getPeerPin s peer =
     (if \<exists>m \<in> set (db_mesh (so_db s)). sm_server m = peer \<and> sm_revoked_at m = None \<and> sm_base_url m \<noteq> ''''
      then (case map_of (so_pins s) peer of
          None \<Rightarrow> None
        | Some keyID \<Rightarrow> map_option (\<lambda>armor. (keyID, armor)) (keyArmor s keyID))
      else None)"

text \<open>\<open>verifyPeerCountersignature\<close>: an older key of the peer is fetched by its id.\<close>

definition verifyPeerCountersignature ::
    "env \<Rightarrow> social \<Rightarrow> string \<Rightarrow> serverSig \<Rightarrow> (string \<Rightarrow> string) \<Rightarrow> bool" where
  "verifyPeerCountersignature E s peer sig payload = (case parseIdentityID (ss_id sig) of
     None \<Rightarrow> False
   | Some (serverFP, signer) \<Rightarrow> signer = peer \<and> (case getPeerPin s peer of
       None \<Rightarrow> False
     | Some (keyID, armor) \<Rightarrow>
         if keyID = ss_id sig then e_verify E (payload serverFP) (ss_armor sig) armor
         else (case fetchPeerServerKeyArmor E peer serverFP of
             Inl e \<Rightarrow> False
           | Inr fetched \<Rightarrow> e_verify E (payload serverFP) (ss_armor sig) fetched)))"

text \<open>Resolving a key may cache it in \<open>so_db\<close>.\<close>

definition resolveKey :: "env \<Rightarrow> gotime \<Rightarrow> string \<Rightarrow> social \<Rightarrow> (err + key option) \<times> social" where
  "resolveKey E now i s = (case resolvePublicKey E now i (so_db s) of
     Inl e \<Rightarrow> (Inl e, s)
   | Inr (k, d) \<Rightarrow> (Inr k, s\<lparr>so_db := d\<rparr>))"

definition recordRemoteIdentity :: "string \<Rightarrow> social \<Rightarrow> social" where
  "recordRemoteIdentity u s = s\<lparr>so_db := upsertIdentity u (so_db s)\<rparr>"

lemma resolveKey_frame:
  "resolveKey E now i s = (r, s') \<Longrightarrow> \<exists>d. s' = s\<lparr>so_db := d\<rparr>"
  by (auto simp: resolveKey_def split: sum.splits prod.splits intro: exI [of _ "so_db s"])

subsection \<open>Verification windows\<close>

definition verificationWindowTTL :: gotime where "verificationWindowTTL = minute"

definition openVerificationWindow :: "string \<Rightarrow> string \<Rightarrow> gotime \<Rightarrow> social \<Rightarrow> err + bool \<times> social" where
  "openVerificationWindow u i now s =
     (if u \<notin> set (so_online s) then Inr (False, s)
      else if \<exists>w \<in> set (so_windows s). vw_id w = i \<and> vw_user w \<noteq> u then Inl (Internal ''window id taken'')
      else if u \<in> vw_user ` set (so_windows s) then
        Inr (True, s\<lparr>so_windows := updWhere (\<lambda>w. vw_user w = u) (\<lambda>w. w\<lparr>vw_id := i, vw_ping := now\<rparr>) (so_windows s)\<rparr>)
      else Inr (True, s\<lparr>so_windows := so_windows s @ [\<lparr>vw_id = i, vw_user = u, vw_ping = now\<rparr>]\<rparr>))"

definition windowLive :: "gotime \<Rightarrow> windowRow \<Rightarrow> bool" where
  "windowLive now w \<longleftrightarrow> int now - int verificationWindowTTL < int (vw_ping w)"

definition pingVerificationWindow :: "string \<Rightarrow> string \<Rightarrow> gotime \<Rightarrow> social \<Rightarrow> bool \<times> social" where
  "pingVerificationWindow u i now s =
     (let mine = (\<lambda>w. vw_id w = i \<and> vw_user w = u \<and> windowLive now w)
      in (list_ex mine (so_windows s),
          s\<lparr>so_windows := updWhere mine (\<lambda>w. w\<lparr>vw_ping := now\<rparr>) (so_windows s)\<rparr>))"

definition closeVerificationWindow :: "string \<Rightarrow> string \<Rightarrow> social \<Rightarrow> social" where
  "closeVerificationWindow u i s =
     s\<lparr>so_windows := filter (\<lambda>w. \<not> (vw_id w = i \<and> vw_user w = u)) (so_windows s)\<rparr>"

definition verificationWindowOpen :: "social \<Rightarrow> string \<Rightarrow> gotime \<Rightarrow> bool" where
  "verificationWindowOpen s u now \<longleftrightarrow> list_ex (\<lambda>w. vw_user w = u \<and> windowLive now w) (so_windows s)"

text \<open>The three routes; the path's id is \<open>None\<close> when it isn't a UUID.\<close>

definition verificationWindowRequest :: "string option \<Rightarrow> string option \<Rightarrow> 'a answer + string \<times> string" where
  "verificationWindowRequest caller windowID = (case caller of
     None \<Rightarrow> Inl (Fail 401 ''Authentication required'')
   | Some u \<Rightarrow> if u = '''' then Inl (Fail 401 ''Authentication required'')
       else (case windowID of
           None \<Rightarrow> Inl (Fail 400 ''The window id must be a UUID'')
         | Some i \<Rightarrow> Inr (u, i)))"

definition openWindowRoute :: "gotime \<Rightarrow> string option \<Rightarrow> string option \<Rightarrow> social \<Rightarrow> unit answer \<times> social" where
  "openWindowRoute now caller windowID s = (case verificationWindowRequest caller windowID of
     Inl a \<Rightarrow> (a, s)
   | Inr (u, i) \<Rightarrow> (case openVerificationWindow u i now s of
       Inl e \<Rightarrow> (writeAdminError e, s)
     | Inr (opened, s') \<Rightarrow> (if opened then Done 204 ()
         else Fail 409 ''Connect to the server to show your verification code'', s')))"

definition pingWindowRoute :: "gotime \<Rightarrow> string option \<Rightarrow> string option \<Rightarrow> social \<Rightarrow> unit answer \<times> social" where
  "pingWindowRoute now caller windowID s = (case verificationWindowRequest caller windowID of
     Inl a \<Rightarrow> (a, s)
   | Inr (u, i) \<Rightarrow> (case pingVerificationWindow u i now s of
       (ok, s') \<Rightarrow> (if ok then Done 204 () else Fail 404 ''Verification window not open'', s')))"

definition closeWindowRoute :: "string option \<Rightarrow> string option \<Rightarrow> social \<Rightarrow> unit answer \<times> social" where
  "closeWindowRoute caller windowID s = (case verificationWindowRequest caller windowID of
     Inl a \<Rightarrow> (a, s)
   | Inr (u, i) \<Rightarrow> (Done 204 (), closeVerificationWindow u i s))"

end
