(* ===== verification/Blocks.thy ===== *)
theory Blocks
  imports Social
begin

text \<open>
  Blocks, \<open>blocks.go\<close>: a user's signed refusal of another, what storing one undoes, and how it is
  enforced, owed to the blocked side and taken from a peer.
\<close>

subsection \<open>Storage\<close>

definition getBlock :: "social \<Rightarrow> string \<Rightarrow> string \<Rightarrow> blockCert option" where
  "getBlock s u b = List.find (\<lambda>c. bk_user c = u \<and> bk_blocked c = b) (so_blocks s)"

text \<open>\<open>ListBlocksByUser\<close>: newest first, then by blocked user.\<close>

definition listBlocksByUser :: "social \<Rightarrow> string \<Rightarrow> blockCert list" where
  "listBlocksByUser s u =
     sort_key (\<lambda>c. - int (ss_at (bk_server_sig c))) (sort_key bk_blocked (filter (\<lambda>c. bk_user c = u) (so_blocks s)))"

text \<open>
  \<open>oweBlockEventTx\<close>: the blocked user's home server, or their client here; the last kind replaces the
  one owed.
\<close>

definition setBlockEvent :: "string \<Rightarrow> string \<Rightarrow> string \<Rightarrow> social \<Rightarrow> social" where
  "setBlockEvent u b kind s =
     (if list_ex (\<lambda>e. be_user e = u \<and> be_blocked e = b) (so_block_queue s)
      then s\<lparr>so_block_queue := updWhere (\<lambda>e. be_user e = u \<and> be_blocked e = b) (\<lambda>e. e\<lparr>be_kind := kind\<rparr>) (so_block_queue s)\<rparr>
      else s\<lparr>so_block_queue := so_block_queue s @ [\<lparr>be_user = u, be_blocked = b, be_kind = kind\<rparr>]\<rparr>)"

definition oweBlockEventTx :: "env \<Rightarrow> string \<Rightarrow> string \<Rightarrow> string \<Rightarrow> social \<Rightarrow> social" where
  "oweBlockEventTx E u b kind s = (case parseIdentityID b of
     Some (_, v) \<Rightarrow> if v \<noteq> e_server_id E then s\<lparr>so_db := enqueuePeerEventForTx v peerEventBlock u b (so_db s)\<rparr>
       else setBlockEvent u b kind s
   | None \<Rightarrow> setBlockEvent u b kind s)"

definition blockEventBlock :: string where "blockEventBlock = ''block''"
definition blockEventUnblock :: string where "blockEventUnblock = ''unblock''"

definition blockEventsFor :: "social \<Rightarrow> string \<Rightarrow> blockEvent list" where
  "blockEventsFor s u = filter (\<lambda>e. be_blocked e = u) (so_block_queue s)"

definition deleteBlockEvent :: "blockEvent \<Rightarrow> social \<Rightarrow> social" where
  "deleteBlockEvent e s = s\<lparr>so_block_queue := filter (\<lambda>x. x \<noteq> e) (so_block_queue s)\<rparr>"

text \<open>
  \<open>applyBlockEffectsTx\<close>: the blocked user's follow of \<open>u\<close> with both edges (an owed follow goes with its
  certificate), their copies of \<open>u\<close>'s reeds and what they were waiting for of them.
\<close>

definition writtenBy :: "db \<Rightarrow> string \<Rightarrow> string \<Rightarrow> bool" where
  "writtenBy d u reed \<longleftrightarrow> (\<exists>r \<in> set (db_reed_identities d). ri_id r = reed \<and> ri_author r = u)"

definition applyBlockEffectsTx :: "string \<Rightarrow> string \<Rightarrow> social \<Rightarrow> string list \<times> social" where
  "applyBlockEffectsTx u b s =
     (map fst (filter (\<lambda>(reed, holder). holder = b \<and> writtenBy (so_db s) u reed) (so_allocations s)),
      s\<lparr>so_follows := filter (\<lambda>f. \<not> (fw_follower f = b \<and> fw_followee f = u)) (so_follows s),
        so_follow_queue := filter (\<lambda>e. e \<noteq> (b, u)) (so_follow_queue s),
        so_following := filter (\<lambda>e. e \<noteq> (b, u)) (so_following s),
        so_followers := filter (\<lambda>e. e \<noteq> (u, b)) (so_followers s),
        so_allocations := filter (\<lambda>(reed, holder). \<not> (holder = b \<and> writtenBy (so_db s) u reed)) (so_allocations s),
        so_pending := filter (\<lambda>(event, requester, reed). \<not> (requester = b \<and> writtenBy (so_db s) u reed)) (so_pending s)\<rparr>)"

definition truncateBlock :: "blockCert \<Rightarrow> blockCert" where
  "truncateBlock c = c\<lparr>bk_server_sig := (bk_server_sig c)\<lparr>ss_at := truncateSecond (ss_at (bk_server_sig c))\<rparr>\<rparr>"

definition insertBlock :: "env \<Rightarrow> blockCert \<Rightarrow> social \<Rightarrow> err + (bool \<times> string list) \<times> social" where
  "insertBlock E cert0 s = (let cert = truncateBlock cert0; u = bk_user cert; b = bk_blocked cert in
     (case getBlock s u b of
        Some existing \<Rightarrow>
          if bk_sig existing \<noteq> bk_sig cert \<or> bk_server_sig existing \<noteq> bk_server_sig cert
          then Inl (Sentinel ''ErrBlockConflict'') else Inr ((False, []), s)
      | None \<Rightarrow>
          if u = b then Inl (Internal ''insert block'')
          else (let (dropped, s1) = applyBlockEffectsTx u b (s\<lparr>so_blocks := so_blocks s @ [cert]\<rparr>)
                in Inr ((True, dropped), oweBlockEventTx E u b blockEventBlock s1))))"

definition usersBlocking :: "social \<Rightarrow> string \<Rightarrow> string list" where
  "usersBlocking s b = map bk_user (filter (\<lambda>c. bk_blocked c = b) (so_blocks s))"

definition deleteBlock :: "env \<Rightarrow> string \<Rightarrow> string \<Rightarrow> social \<Rightarrow> bool \<times> social" where
  "deleteBlock E u b s =
     (if getBlock s u b = None then (False, s)
      else (True, oweBlockEventTx E u b blockEventUnblock
        (s\<lparr>so_blocks := filter (\<lambda>c. \<not> (bk_user c = u \<and> bk_blocked c = b)) (so_blocks s)\<rparr>)))"

subsection \<open>Enforcing\<close>

text \<open>\<open>requestViewer\<close>: the session's user, or one of a peer's own that it asks for.\<close>

definition requestViewer :: "string option \<Rightarrow> string option \<Rightarrow> string \<Rightarrow> string" where
  "requestViewer caller peer rawRequester = (case caller of
     Some u \<Rightarrow> u
   | None \<Rightarrow> (case peer of
       None \<Rightarrow> ''''
     | Some p \<Rightarrow> let requester = trimSpace rawRequester in
         if identityServerID requester = Some p then requester else ''''))"

text \<open>\<open>refuseIfBlocked\<close>: the block to answer 403 with.\<close>

definition refuseIfBlocked :: "env \<Rightarrow> social \<Rightarrow> string \<Rightarrow> string \<Rightarrow> blockCert option" where
  "refuseIfBlocked E s viewer author =
     (if viewer = '''' \<or> viewer = author then None
      else (case getBlock s author viewer of
          None \<Rightarrow> None
        | Some cert \<Rightarrow> if getAccountRemoval E (so_db s) author \<noteq> None then None else Some cert))"

definition refuseBlockedRequester :: "social \<Rightarrow> string \<Rightarrow> string \<Rightarrow> blockCert option" where
  "refuseBlockedRequester s author requester = getBlock s author requester"

definition dropMentionsBlockingAuthor :: "social \<Rightarrow> string list \<Rightarrow> string \<Rightarrow> string list" where
  "dropMentionsBlockingAuthor s mentions author = filter (\<lambda>m. m \<notin> set (usersBlocking s author)) mentions"

definition blockedBy :: "social \<Rightarrow> string \<Rightarrow> string \<Rightarrow> blockCert option" where
  "blockedBy s author viewer = (if author = '''' \<or> author = viewer then None else getBlock s author viewer)"

definition writeBlocked :: "blockCert \<Rightarrow> 'a answer" where
  "writeBlocked c = Fail 403 ''Blocked''"

subsection \<open>Routes\<close>

record blockMsg =
  bm_signature :: string
  bm_fingerprint :: string

definition afterBlock :: "blockCert \<Rightarrow> string list \<Rightarrow> socialEffect list" where
  "afterBlock cert dropped = map ReedCoverage dropped @ [PushBlock cert]"

definition sendBlockNoticesFor :: "env \<Rightarrow> string \<Rightarrow> socialEffect list" where
  "sendBlockNoticesFor E b = (case foreignServerOf (e_server_id E) b of None \<Rightarrow> [] | Some p \<Rightarrow> [DrainPeer p])"

definition afterUnblock :: "env \<Rightarrow> string \<Rightarrow> string \<Rightarrow> socialEffect list" where
  "afterUnblock E u b = PushUnblock u b # sendBlockNoticesFor E b"

text \<open>Who may be blocked: a user of a known peer, whose identity is then recorded, or one of this server.\<close>

definition blockTarget :: "env \<Rightarrow> string \<Rightarrow> social \<Rightarrow> (nat \<times> string) option \<times> social" where
  "blockTarget E b s = (case foreignServerOf (e_server_id E) b of
     Some peer \<Rightarrow> (case getServerByID (so_db s) peer of
         None \<Rightarrow> (Some (404, ''User not found''), s)
       | Some _ \<Rightarrow> (None, recordRemoteIdentity b s))
   | None \<Rightarrow> (case getUserProfile (so_db s) b of
         Inl e \<Rightarrow> (Some (500, ''Internal Server Error''), s)
       | Inr found \<Rightarrow> (if found then None else Some (404, ''User not found''), s)))"

text \<open>A key that signs for its owner now: resolved and not revoked.\<close>

definition activeKey :: "env \<Rightarrow> gotime \<Rightarrow> string \<Rightarrow> social \<Rightarrow> (nat \<times> string + key) \<times> social" where
  "activeKey E now i s = (case resolveKey E now i s of
     (Inl e, s1) \<Rightarrow> (Inl (500, ''Internal Server Error''), s1)
   | (Inr None, s1) \<Rightarrow> (Inl (401, ''Active public key not available''), s1)
   | (Inr (Some k), s1) \<Rightarrow>
       (if key_revoked k then Inl (401, ''Active public key not available'') else Inr k, s1))"

definition storeBlock :: "env \<Rightarrow> blockCert \<Rightarrow> social \<Rightarrow> blockCert answer \<times> social \<times> socialEffect list" where
  "storeBlock E cert s = (case insertBlock E cert s of
     Inl e \<Rightarrow> (if e \<noteq> Sentinel ''ErrBlockConflict'' then Fail 500 ''Internal Server Error''
       else case getBlock s (bk_user cert) (bk_blocked cert) of
           Some stored \<Rightarrow> if us_armor (bk_sig stored) = us_armor (bk_sig cert) then Done 200 stored
             else Fail 409 ''Block already exists with a different signature''
         | None \<Rightarrow> Fail 409 ''Block already exists with a different signature'', s, [])
   | Inr ((created, dropped), s') \<Rightarrow> (Done 200 cert, s',
       if created then afterBlock cert dropped @ sendBlockNoticesFor E (bk_blocked cert) else []))"

definition blockUser ::
    "env \<Rightarrow> gotime \<Rightarrow> string option \<Rightarrow> string \<Rightarrow> blockMsg option \<Rightarrow> social \<Rightarrow>
     blockCert answer \<times> social \<times> socialEffect list" where
  "blockUser E now caller rawBlocked msg s = (case caller of
     None \<Rightarrow> (Fail 401 ''Authentication required'', s, [])
   | Some u \<Rightarrow> let b = trimSpace rawBlocked in
     if u = '''' then (Fail 401 ''Authentication required'', s, [])
     else if parseIdentityID b = None then (Fail 400 ''Argument `userID` is invalid'', s, [])
     else if b = u then (Fail 400 ''Cannot block yourself'', s, [])
     else (case msg of
       None \<Rightarrow> (Fail 400 ''Invalid request format'', s, [])
     | Some m \<Rightarrow> let sig = trimSpace (bm_signature m); fp = trimSpace (bm_fingerprint m); keyID = appendEntity u fp in
       if sig = '''' \<or> fp = '''' then (Fail 400 ''Arguments `signature` and `fingerprint` are required'', s, [])
       else if getAccountRemoval E (so_db s) b \<noteq> None then (Fail 410 ''Account removed'', s, [])
       else (case blockTarget E b s of
         (Some (st, why), s1) \<Rightarrow> (Fail st why, s1, [])
       | (None, s1) \<Rightarrow> (case getBlock s1 u b of
           Some existing \<Rightarrow> (if us_armor (bk_sig existing) \<noteq> sig
             then Fail 409 ''Block already exists with a different signature'' else Done 200 existing, s1, [])
         | None \<Rightarrow> (case activeKey E now keyID s1 of
             (Inl (st, why), s2) \<Rightarrow> (Fail st why, s2, [])
           | (Inr k, s2) \<Rightarrow>
             if \<not> e_verify E (buildBlockUserPayload (e_jcs E) u b keyID) sig (key_armor k)
               then (Fail 401 ''signature verification failed'', s2, [])
             else let at = truncateSecond now in
               (case countersign E (buildBlockServerPayload (e_jcs E) u b (e_fingerprint E) sig at) at of
                 Inl e \<Rightarrow> (Fail 500 ''Internal Server Error'', s2, [])
               | Inr ss \<Rightarrow> storeBlock E \<lparr>bk_user = u, bk_blocked = b, bk_sig = \<lparr>us_id = keyID, us_armor = sig\<rparr>,
                   bk_server_sig = ss\<rparr> s2))))))"

definition unblockUser ::
    "env \<Rightarrow> string option \<Rightarrow> string \<Rightarrow> social \<Rightarrow> unit answer \<times> social \<times> socialEffect list" where
  "unblockUser E caller rawBlocked s = (case caller of
     None \<Rightarrow> (Fail 401 ''Authentication required'', s, [])
   | Some u \<Rightarrow> let b = trimSpace rawBlocked in
     if u = '''' then (Fail 401 ''Authentication required'', s, [])
     else (case deleteBlock E u b s of
         (deleted, s') \<Rightarrow> (Done 204 (), s', if deleted then afterUnblock E u b else [])))"

definition listMyBlocks :: "social \<Rightarrow> string option \<Rightarrow> blockCert list answer" where
  "listMyBlocks s caller = (case caller of
     None \<Rightarrow> Fail 401 ''Authentication required''
   | Some u \<Rightarrow> if u = '''' then Fail 401 ''Authentication required'' else Done 200 (listBlocksByUser s u))"

text \<open>What a client that comes back is sent, and the event it acks.\<close>

definition catchUpBlocks :: "social \<Rightarrow> string \<Rightarrow> socialEffect list" where
  "catchUpBlocks s b = List.map_filter (\<lambda>e.
     if be_kind e = blockEventUnblock then Some (PushUnblock (be_user e) b)
     else map_option PushBlock (blockedBy s (be_user e) b)) (blockEventsFor s b)"

definition ackBlockEvent :: "string \<Rightarrow> string \<Rightarrow> string \<Rightarrow> social \<Rightarrow> social" where
  "ackBlockEvent client u kind s =
     (if u = '''' then s else deleteBlockEvent \<lparr>be_user = u, be_blocked = client, be_kind = kind\<rparr> s)"

subsection \<open>From a peer\<close>

definition checkForeignBlock ::
    "env \<Rightarrow> gotime \<Rightarrow> string \<Rightarrow> blockCert \<Rightarrow> social \<Rightarrow> err option \<times> social" where
  "checkForeignBlock E now peer cert s =
     (if identityServerID (bk_user cert) \<noteq> Some peer then (Some (Sentinel ''errBlockRefused''), s)
      else if identityServerID (bk_blocked cert) \<noteq> Some (e_server_id E) then (Some (Sentinel ''errBlockRefused''), s)
      else if \<not> requesterKeyBelongsTo (us_id (bk_sig cert)) (bk_user cert) peer
        then (Some (Sentinel ''errBlockRefused''), s)
      else (case resolveKey E now (us_id (bk_sig cert)) s of
          (Inl e, s1) \<Rightarrow> (Some e, s1)
        | (Inr None, s1) \<Rightarrow> (Some (Sentinel ''errBlockRefused''), s1)
        | (Inr (Some k), s1) \<Rightarrow>
            (if \<not> e_verify E (buildBlockUserPayload (e_jcs E) (bk_user cert) (bk_blocked cert) (us_id (bk_sig cert)))
                 (us_armor (bk_sig cert)) (key_armor k) \<or>
               \<not> verifyPeerCountersignature E s1 peer (bk_server_sig cert) (\<lambda>fp. buildBlockServerPayload (e_jcs E)
                 (bk_user cert) (bk_blocked cert) fp (us_armor (bk_sig cert)) (truncateSecond (ss_at (bk_server_sig cert))))
             then Some (Sentinel ''errBlockRefused'') else None, s1)))"

definition storeForeignBlock :: "env \<Rightarrow> blockCert \<Rightarrow> social \<Rightarrow> err option \<times> social \<times> socialEffect list" where
  "storeForeignBlock E cert s = (case insertBlock E cert s of
     Inl e \<Rightarrow> (Some e, s, [])
   | Inr ((created, dropped), s') \<Rightarrow> (None, s', if created then afterBlock cert dropped else []))"

definition acceptForeignBlock ::
    "env \<Rightarrow> gotime \<Rightarrow> string \<Rightarrow> blockCert \<Rightarrow> social \<Rightarrow> err option \<times> social \<times> socialEffect list" where
  "acceptForeignBlock E now peer cert s = (case checkForeignBlock E now peer cert s of
     (Some e, s1) \<Rightarrow> (Some e, s1, [])
   | (None, s1) \<Rightarrow> let s2 = recordRemoteIdentity (bk_user cert) s1; u = bk_user cert; b = bk_blocked cert in
     (case getBlock s2 u b of
        Some stored \<Rightarrow>
          if truncateSecond (ss_at (bk_server_sig cert)) \<le> ss_at (bk_server_sig stored) then (None, s2, [])
          else storeForeignBlock E cert (snd (deleteBlock E u b s2))
      | None \<Rightarrow> storeForeignBlock E cert s2))"


text \<open>\<open>acceptRefusalBlock\<close>: the block in a peer's refusal, when it holds one.\<close>

definition acceptRefusalBlock ::
    "env \<Rightarrow> gotime \<Rightarrow> string \<Rightarrow> blockCert option \<Rightarrow> social \<Rightarrow> social \<times> socialEffect list" where
  "acceptRefusalBlock E now peer refusal s = (case refusal of
     None \<Rightarrow> (s, []) | Some cert \<Rightarrow> snd (acceptForeignBlock E now peer cert s))"

definition blockNotifyFromPeer ::
    "env \<Rightarrow> gotime \<Rightarrow> string \<Rightarrow> blockCert option \<Rightarrow> social \<Rightarrow> unit answer \<times> social \<times> socialEffect list" where
  "blockNotifyFromPeer E now peer msg s =
     (if peer = '''' then (Fail 401 ''Unauthorized'', s, [])
      else (case msg of
        None \<Rightarrow> (Fail 400 ''Invalid request body'', s, [])
      | Some cert \<Rightarrow> (case acceptForeignBlock E now peer cert s of
          (e, s', fx) \<Rightarrow> (case e of
              None \<Rightarrow> Done 204 ()
            | Some x \<Rightarrow> if x = Sentinel ''errBlockRefused'' then Fail 400 ''Block failed verification''
                else Fail 500 ''Internal Server Error'', s', fx))))"

definition unblockNotifyFromPeer ::
    "env \<Rightarrow> string \<Rightarrow> (string \<times> string) option \<Rightarrow> social \<Rightarrow> unit answer \<times> social \<times> socialEffect list" where
  "unblockNotifyFromPeer E peer msg s =
     (if peer = '''' then (Fail 401 ''Unauthorized'', s, [])
      else (case msg of
        None \<Rightarrow> (Fail 400 ''Invalid request body'', s, [])
      | Some (u, b) \<Rightarrow>
        if identityServerID u \<noteq> Some peer then (Fail 400 ''user_id does not belong to the calling peer'', s, [])
        else (case deleteBlock E u b s of
            (deleted, s') \<Rightarrow> (Done 204 (), s', if deleted then [PushUnblock u b] else []))))"

text \<open>
  \<open>GetAccountRemoval\<close> drops the server part of the id: of a peer's user it finds the removal of the
  local account with the same user part, and never the one held of that user.
\<close>

lemma foreign_removal_not_found:
  assumes "parseIdentityID u = Some (b, v)" and "v \<noteq> e_server_id E" and "\<not> hasAccountRemovalQ d (canonicalID (e_server_id E) b)"
  shows "getAccountRemoval E d u = None"
  using assms hasAccountRemovalQ_load [of d "canonicalID (e_server_id E) b"] by (simp add: getAccountRemoval_def)

lemma namesake_is_gone:
  assumes "parseIdentityID b = Some (n, v)" "hasAccountRemovalQ (so_db s) (canonicalID (e_server_id E) n)"
    and "b \<noteq> u" "u \<noteq> ''''" "trimSpace b = b" "trimSpace (bm_signature m) \<noteq> ''''" "trimSpace (bm_fingerprint m) \<noteq> ''''"
  shows "blockUser E now (Some u) b (Some m) s = (Fail 410 ''Account removed'', s, [])"
proof -
  have "getAccountRemoval E (so_db s) b \<noteq> None"
    using assms(1,2) hasAccountRemovalQ_load [of "so_db s" "canonicalID (e_server_id E) n"]
    by (simp add: getAccountRemoval_def)
  then show ?thesis using assms by (simp add: blockUser_def Let_def)
qed

end
