(* ===== verification/Follows.thy ===== *)
theory Follows
  imports Blocks
begin

text \<open>
  Follows, \<open>follows.go\<close>: one certificate for a pair, the newest, the edges drawn from it, who is owed
  it, and how follows are made here, at a peer, and undone.
\<close>

subsection \<open>Storage\<close>

definition getFollowCert :: "social \<Rightarrow> string \<Rightarrow> string \<Rightarrow> followCert option" where
  "getFollowCert s a b = List.find (\<lambda>f. fw_follower f = a \<and> fw_followee f = b) (so_follows s)"

definition activeFollowCerts :: "social \<Rightarrow> string \<Rightarrow> followCert list \<times> followCert list" where
  "activeFollowCerts s u = (filter (\<lambda>f. fw_follower f = u \<and> fw_follow f) (so_follows s),
     filter (\<lambda>f. fw_followee f = u \<and> fw_follow f) (so_follows s))"

definition followCertsOf :: "social \<Rightarrow> string \<Rightarrow> string list \<Rightarrow> (string \<rightharpoonup> followCert)" where
  "followCertsOf s b followers = map_of (map (\<lambda>f. (fw_follower f, f))
     (filter (\<lambda>f. fw_followee f = b \<and> fw_follower f \<in> set followers \<and> fw_follow f) (so_follows s)))"

text \<open>A pair is added once and removed: what \<open>setFollowEdgesTx\<close> does to each of its two tables.\<close>

definition setEdge :: "bool \<Rightarrow> string \<times> string \<Rightarrow> (string \<times> string) list \<Rightarrow> (string \<times> string) list" where
  "setEdge on e es = (if on then if e \<in> set es then es else es @ [e] else filter (\<lambda>x. x \<noteq> e) es)"

definition setFollowEdgesTx :: "env \<Rightarrow> string \<Rightarrow> string \<Rightarrow> bool \<Rightarrow> social \<Rightarrow> social" where
  "setFollowEdgesTx E a b follow s =
     s\<lparr>so_following := (if identityServerID a = Some (e_server_id E) then setEdge follow (a, b) (so_following s) else so_following s),
       so_followers := (if identityServerID b = Some (e_server_id E) then setEdge follow (b, a) (so_followers s) else so_followers s)\<rparr>"

definition oweFollowCertTx :: "env \<Rightarrow> string \<Rightarrow> string \<Rightarrow> social \<Rightarrow> social" where
  "oweFollowCertTx E a b s = (case identityServerID b of
     Some v \<Rightarrow> if v \<noteq> e_server_id E then s\<lparr>so_db := enqueuePeerEventForTx v peerEventFollow a b (so_db s)\<rparr>
       else s\<lparr>so_follow_queue := setEdge True (a, b) (so_follow_queue s)\<rparr>
   | None \<Rightarrow> s\<lparr>so_follow_queue := setEdge True (a, b) (so_follow_queue s)\<rparr>)"

definition followOwed :: "social \<Rightarrow> string \<Rightarrow> string \<Rightarrow> bool" where
  "followOwed s a b \<longleftrightarrow> (a, b) \<in> set (so_follow_queue s) \<or>
     (\<exists>e \<in> set (db_peer_queue (so_db s)). pe_kind e = ''follow'' \<and> pe_subject e = a \<and> pe_object e = Some b)"

text \<open>Deleting a certificate drops what is owed of it to a client (\<open>ON DELETE CASCADE\<close>).\<close>

definition deleteFollowCert :: "string \<Rightarrow> string \<Rightarrow> social \<Rightarrow> social" where
  "deleteFollowCert a b s =
     s\<lparr>so_follows := filter (\<lambda>f. \<not> (fw_follower f = a \<and> fw_followee f = b)) (so_follows s),
       so_follow_queue := filter (\<lambda>e. e \<noteq> (a, b)) (so_follow_queue s)\<rparr>"

definition dropSettledUnfollowTx :: "string \<Rightarrow> string \<Rightarrow> social \<Rightarrow> social" where
  "dropSettledUnfollowTx a b s = (case getFollowCert s a b of
     None \<Rightarrow> s
   | Some f \<Rightarrow> if fw_follow f \<or> followOwed s a b then s else deleteFollowCert a b s)"

definition truncateFollow :: "followCert \<Rightarrow> followCert" where
  "truncateFollow c = c\<lparr>fw_server_sig := (fw_server_sig c)\<lparr>ss_at := truncateSecond (ss_at (fw_server_sig c))\<rparr>\<rparr>"

definition putFollowCert :: "followCert \<Rightarrow> social \<Rightarrow> social" where
  "putFollowCert c s =
     (if getFollowCert s (fw_follower c) (fw_followee c) = None then s\<lparr>so_follows := so_follows s @ [c]\<rparr>
      else s\<lparr>so_follows := updWhere (\<lambda>f. fw_follower f = fw_follower c \<and> fw_followee f = fw_followee c) (\<lambda>_. c) (so_follows s)\<rparr>)"

text \<open>\<open>saveFollowCertTx\<close>: false, and nothing written, unless \<open>cert\<close> is newer than the one held.\<close>

definition saveFollowCertTx :: "env \<Rightarrow> followCert \<Rightarrow> bool \<Rightarrow> social \<Rightarrow> bool \<times> social" where
  "saveFollowCertTx E cert0 owe s = (let cert = truncateFollow cert0; a = fw_follower cert; b = fw_followee cert in
     if (case getFollowCert s a b of None \<Rightarrow> False
         | Some held \<Rightarrow> ss_at (fw_server_sig cert) \<le> ss_at (fw_server_sig held)) then (False, s)
     else (let s1 = setFollowEdgesTx E a b (fw_follow cert) (putFollowCert cert s);
               s2 = (if owe then oweFollowCertTx E a b s1 else s1)
           in (True, dropSettledUnfollowTx a b s2)))"

text \<open>\<open>UndoRefusedFollow\<close>.\<close>

definition undoRefusedFollow :: "env \<Rightarrow> string \<Rightarrow> string \<Rightarrow> gotime \<Rightarrow> social \<Rightarrow> social" where
  "undoRefusedFollow E a b signedAt s = (case getFollowCert s a b of
     None \<Rightarrow> s
   | Some f \<Rightarrow> if fw_follow f \<and> ss_at (fw_server_sig f) = truncateSecond signedAt
       then deleteFollowCert a b (setFollowEdgesTx E a b False s) else s)"

text \<open>\<open>FollowEventsFor\<close>, oldest first.\<close>

definition followEventsFor :: "social \<Rightarrow> string \<Rightarrow> followCert list" where
  "followEventsFor s b = sort_key (\<lambda>f. ss_at (fw_server_sig f)) (filter (\<lambda>f. fw_followee f = b \<and>
     (fw_follower f, fw_followee f) \<in> set (so_follow_queue s)) (so_follows s))"

definition ackFollowEvent :: "string \<Rightarrow> string \<Rightarrow> bool \<Rightarrow> social \<Rightarrow> social" where
  "ackFollowEvent a b follow s = dropSettledUnfollowTx a b
     (if \<exists>f \<in> set (so_follows s). fw_follower f = a \<and> fw_followee f = b \<and> fw_follow f = follow
      then s\<lparr>so_follow_queue := filter (\<lambda>e. e \<noteq> (a, b)) (so_follow_queue s)\<rparr> else s)"

subsection \<open>Following\<close>

text \<open>\<open>refuseFollowTarget\<close> of a local user, for a viewer.\<close>

definition refuseFollowTarget :: "env \<Rightarrow> social \<Rightarrow> string \<Rightarrow> string \<Rightarrow> bool \<Rightarrow> 'a answer option" where
  "refuseFollowTarget E s viewer followee foreign =
     (if foreign then None
      else (case refuseIfBlocked E s viewer followee of
          Some cert \<Rightarrow> Some (writeBlocked cert)
        | None \<Rightarrow> (case getUserProfile (so_db s) followee of
            Inl e \<Rightarrow> Some (Fail 500 ''Internal Server Error'')
          | Inr found \<Rightarrow>
            if \<not> found then Some (Fail 404 ''User not found'')
            else if isUnclaimed s followee then Some (Fail 409 ''This account's owner hasn't come back to this server yet'')
            else None)))"

text \<open>The peer of a foreign followee, whose identity is recorded; a local one needs none.\<close>

definition followPeer :: "env \<Rightarrow> string \<Rightarrow> social \<Rightarrow> (nat \<times> string) option \<times> social" where
  "followPeer E b s = (case foreignServerOf (e_server_id E) b of
     None \<Rightarrow> (None, s)
   | Some peer \<Rightarrow> (case getServerByID (so_db s) peer of
       None \<Rightarrow> (Some (404, ''User not found''), s)
     | Some _ \<Rightarrow> (None, recordRemoteIdentity b s)))"

text \<open>How a peer answers a follow sent to it: taken, refused with a status, or not now.\<close>

datatype followSent = FollowTaken | FollowDenied nat | FollowLater

definition sendFollowNotice :: "followCert peerCall \<Rightarrow> string \<Rightarrow> followCert \<Rightarrow> followSent" where
  "sendFollowNotice call peer cert =
     (let (failed, status) = call peer ''/api/federation/relay/follow-notify'' cert in
      if \<not> failed \<and> 200 \<le> status \<and> status < 300 then FollowTaken
      else if \<not> failed \<and> 400 \<le> status \<and> status < 500 \<and> status \<noteq> 429 then FollowDenied status
      else FollowLater)"

definition finishFollow ::
    "env \<Rightarrow> followCert peerCall \<Rightarrow> followCert \<Rightarrow> social \<Rightarrow> followCert answer \<times> social \<times> socialEffect list" where
  "finishFollow E call cert s = (case foreignServerOf (e_server_id E) (fw_followee cert) of
     None \<Rightarrow> (Done 200 cert, snd (saveFollowCertTx E cert True s), [PushFollow cert])
   | Some peer \<Rightarrow> (case (if fw_follow cert then sendFollowNotice call peer cert else FollowLater) of
       FollowDenied status \<Rightarrow> (Fail status ''refused by the peer'', s, [])
     | FollowTaken \<Rightarrow> (Done 200 cert, snd (saveFollowCertTx E cert False s), [])
     | FollowLater \<Rightarrow> (Done 200 cert, snd (saveFollowCertTx E cert True s), [DrainPeer peer])))"

definition signFollow ::
    "env \<Rightarrow> followCert peerCall \<Rightarrow> bool \<Rightarrow> gotime \<Rightarrow> string option \<Rightarrow> string \<Rightarrow> blockMsg option \<Rightarrow> social \<Rightarrow>
     followCert answer \<times> social \<times> socialEffect list" where
  "signFollow E call follow now caller rawFollowee msg s = (case caller of
     None \<Rightarrow> (Fail 401 ''Authentication required'', s, [])
   | Some a \<Rightarrow> let b = trimSpace rawFollowee in
     if a = '''' then (Fail 401 ''Authentication required'', s, [])
     else if parseIdentityID b = None then (Fail 400 ''Argument `userID` is invalid'', s, [])
     else if b = a then (Fail 400 ''Cannot follow yourself'', s, [])
     else (case msg of
       None \<Rightarrow> (Fail 400 ''Invalid request format'', s, [])
     | Some m \<Rightarrow> let sig = trimSpace (bm_signature m); fp = trimSpace (bm_fingerprint m); keyID = appendEntity a fp;
         foreign = (foreignServerOf (e_server_id E) b \<noteq> None) in
       if sig = '''' \<or> fp = '''' then (Fail 400 ''Arguments `signature` and `fingerprint` are required'', s, [])
       else (case (if follow then refuseFollowTarget E s a b foreign else None) of
         Some refusal \<Rightarrow> (refusal, s, [])
       | None \<Rightarrow> (case followPeer E b s of
           (Some (st, why), s1) \<Rightarrow> (Fail st why, s1, [])
         | (None, s1) \<Rightarrow> (case activeKey E now keyID s1 of
             (Inl (st, why), s2) \<Rightarrow> (Fail st why, s2, [])
           | (Inr k, s2) \<Rightarrow>
             if \<not> e_verify E (buildFollowUserPayload (e_jcs E) a b keyID follow) sig (key_armor k)
               then (Fail 401 ''signature verification failed'', s2, [])
             else let at = truncateSecond now in
               (case countersign E (buildFollowServerPayload (e_jcs E) a b follow (e_fingerprint E) sig at) at of
                 Inl e \<Rightarrow> (Fail 500 ''Internal Server Error'', s2, [])
               | Inr ss \<Rightarrow> finishFollow E call \<lparr>fw_follower = a, fw_followee = b, fw_follow = follow,
                   fw_sig = \<lparr>us_id = keyID, us_armor = sig\<rparr>, fw_server_sig = ss\<rparr> s2))))))"

text \<open>A client's catch-up and ack.\<close>

definition catchUpFollows :: "social \<Rightarrow> string \<Rightarrow> socialEffect list" where
  "catchUpFollows s b = map PushFollow (followEventsFor s b)"

definition ackFollow :: "string \<Rightarrow> string \<Rightarrow> bool \<Rightarrow> social \<Rightarrow> social" where
  "ackFollow client a follow s = (if a = '''' then s else ackFollowEvent a client follow s)"

subsection \<open>From a peer\<close>

definition verifyForeignFollow :: "env \<Rightarrow> gotime \<Rightarrow> string \<Rightarrow> followCert \<Rightarrow> social \<Rightarrow> err option \<times> social" where
  "verifyForeignFollow E now peer cert s =
     (if identityServerID (fw_follower cert) \<noteq> Some peer then (Some (Sentinel ''errFollowRefused''), s)
      else if identityServerID (fw_followee cert) \<noteq> Some (e_server_id E) then (Some (Sentinel ''errFollowRefused''), s)
      else if \<not> requesterKeyBelongsTo (us_id (fw_sig cert)) (fw_follower cert) peer
        then (Some (Sentinel ''errFollowRefused''), s)
      else (case resolveKey E now (us_id (fw_sig cert)) s of
          (Inl e, s1) \<Rightarrow> (Some e, s1)
        | (Inr None, s1) \<Rightarrow> (Some (Sentinel ''errFollowRefused''), s1)
        | (Inr (Some k), s1) \<Rightarrow>
            (if \<not> e_verify E (buildFollowUserPayload (e_jcs E) (fw_follower cert) (fw_followee cert) (us_id (fw_sig cert))
                   (fw_follow cert)) (us_armor (fw_sig cert)) (key_armor k) \<or>
               \<not> verifyPeerCountersignature E s1 peer (fw_server_sig cert) (\<lambda>fp. buildFollowServerPayload (e_jcs E)
                 (fw_follower cert) (fw_followee cert) (fw_follow cert) fp (us_armor (fw_sig cert))
                 (truncateSecond (ss_at (fw_server_sig cert))))
             then Some (Sentinel ''errFollowRefused'') else None, s1)))"

text \<open>
  \<open>FollowNotifyFromPeer\<close>: the follower's block is looked up by name; \<open>refuseFollowTarget\<close> asks about
  whoever the call's query names as \<open>requester\<close>.
\<close>

definition followNotifyFromPeer ::
    "env \<Rightarrow> gotime \<Rightarrow> string \<Rightarrow> string \<Rightarrow> followCert option \<Rightarrow> social \<Rightarrow> unit answer \<times> social \<times> socialEffect list" where
  "followNotifyFromPeer E now peer rawRequester msg s =
     (if peer = '''' then (Fail 401 ''Unauthorized'', s, [])
      else (case msg of
        None \<Rightarrow> (Fail 400 ''Invalid request body'', s, [])
      | Some cert \<Rightarrow> (case verifyForeignFollow E now peer cert s of
          (Some e, s1) \<Rightarrow> (if e = Sentinel ''errFollowRefused'' then Fail 400 ''Follow failed verification''
              else Fail 500 ''Internal Server Error'', s1, [])
        | (None, s1) \<Rightarrow>
            (case (if fw_follow cert
                then (case refuseBlockedRequester s1 (fw_followee cert) (fw_follower cert) of
                    Some c \<Rightarrow> Some (writeBlocked c)
                  | None \<Rightarrow> refuseFollowTarget E s1 (requestViewer None (Some peer) rawRequester) (fw_followee cert) False)
                else None) of
              Some refusal \<Rightarrow> (refusal, s1, [])
            | None \<Rightarrow> (case saveFollowCertTx E cert True (recordRemoteIdentity (fw_follower cert) s1) of
                (applied, s2) \<Rightarrow> (Done 204 (), s2, if applied then [PushFollow cert] else []))))))"

end
