(* ===== verification/Vouches.thy ===== *)
theory Vouches
  imports Blocks Paging
begin

text \<open>
  Vouches: a user signs that they compared fingerprints with the owner of a key.  \<open>vouches.go\<close> and
  \<open>federation_vouches.go\<close>: the history, the live set, the routes, and the references a server keeps of
  vouches made on a peer about its own users.
\<close>

definition maxVouchNoteChars :: nat where "maxVouchNoteChars = 140"

text \<open>\<open>vouchCooldown\<close> is a day, in nanoseconds.\<close>

definition vouchCooldown :: int where "vouchCooldown = 24 * int hour"

text \<open>\<open>validateVouchID\<close>: true when it returns no reason; \<open>uuid7\<close> is the UUID package's check.\<close>

definition validateVouchID :: "(string \<Rightarrow> bool) \<Rightarrow> string \<Rightarrow> string \<Rightarrow> string \<Rightarrow> bool" where
  "validateVouchID uuid7 vouchID voucherID serverID = (case parseKeyFingerprint vouchID of
     None \<Rightarrow> False
   | Some (owner, embedded, entity) \<Rightarrow>
       canonicalID embedded owner = voucherID \<and> embedded = serverID \<and> uuid7 entity)"

definition isVouchIDWellFormed :: "(string \<Rightarrow> bool) \<Rightarrow> string \<Rightarrow> bool" where
  "isVouchIDWellFormed uuid7 vouchID = (case parseKeyFingerprint vouchID of
     None \<Rightarrow> False | Some (_, _, entity) \<Rightarrow> uuid7 entity)"

subsection \<open>Storage\<close>

definition liveVouch :: "social \<Rightarrow> string \<Rightarrow> string \<Rightarrow> activeVouch option" where
  "liveVouch s voucher key =
     List.find (\<lambda>a. av_voucher a = voucher \<and> av_subject_key a = key) (so_active s)"

definition vouchRowOf :: "social \<Rightarrow> string \<Rightarrow> vouchRow option" where
  "vouchRowOf s i = rowBy (vc_id \<circ> vo_cert) i (so_vouches s)"

definition getVouch :: "social \<Rightarrow> string \<Rightarrow> string \<Rightarrow> vouchCert option" where
  "getVouch s voucher key = (case liveVouch s voucher key of
     None \<Rightarrow> None | Some a \<Rightarrow> map_option vo_cert (vouchRowOf s (av_vouch a)))"

definition getVouchByID :: "social \<Rightarrow> string \<Rightarrow> vouchCert option" where
  "getVouchByID s i = map_option vo_cert (vouchRowOf s i)"

definition sameVouchSignature :: "vouchCert \<Rightarrow> vouchCert \<Rightarrow> bool" where
  "sameVouchSignature stored incoming \<longleftrightarrow> vc_sig stored = vc_sig incoming \<and> vc_note stored = vc_note incoming"

definition insertVouchRow :: "vouchCert \<Rightarrow> social \<Rightarrow> err + unit \<times> social" where
  "insertVouchRow cert s =
     (if vouchRowOf s (vc_id cert) \<noteq> None then Inl (Internal ''insert user vouch'')
      else let s1 = s\<lparr>so_vouches := so_vouches s @ [\<lparr>vo_cert = cert, vo_created = ss_at (vc_server_sig cert)\<rparr>]\<rparr>
      in if vc_withdrawal cert \<noteq> None then Inr ((), s1)
         else if vc_id cert \<in> av_vouch ` set (so_active s) \<or>
             liveVouch s (vc_voucher cert) (vc_subject_key cert) \<noteq> None then Inl (Internal ''activate user vouch'')
         else Inr ((), s1\<lparr>so_active := so_active s @ [\<lparr>av_vouch = vc_id cert, av_voucher = vc_voucher cert,
           av_subject = vc_subject cert, av_subject_key = vc_subject_key cert\<rparr>]\<rparr>))"

definition insertVouch :: "env \<Rightarrow> (string \<Rightarrow> bool) \<Rightarrow> vouchCert \<Rightarrow> social \<Rightarrow> err + unit \<times> social" where
  "insertVouch E uuid7 cert0 s =
     (if \<not> validateVouchID uuid7 (vc_id cert0) (vc_voucher cert0) (e_server_id E)
      then Inl (Sentinel ''ErrVouchInvalidID'')
      else let cert = cert0\<lparr>vc_server_sig := (vc_server_sig cert0)\<lparr>ss_at := truncateSecond (ss_at (vc_server_sig cert0))\<rparr>\<rparr>
      in (case getVouch s (vc_voucher cert) (vc_subject_key cert) of
          None \<Rightarrow> insertVouchRow cert s
        | Some live \<Rightarrow> if sameVouchSignature live cert then Inr ((), s) else Inl (Sentinel ''ErrVouchConflict'')))"

text \<open>\<open>WithdrawVouch\<close>: the history keeps the row with both signatures, the live set drops it.\<close>

definition withdrawVouchTx ::
    "string \<Rightarrow> string \<Rightarrow> userSig \<times> serverSig \<Rightarrow> social \<Rightarrow> err + vouchCert \<times> social" where
  "withdrawVouchTx voucher key w s = (case liveVouch s voucher key of
     None \<Rightarrow> Inl (Sentinel ''ErrVouchNotFound'')
   | Some a \<Rightarrow> (case vouchRowOf s (av_vouch a) of
       None \<Rightarrow> Inl (Sentinel ''ErrVouchNotFound'')
     | Some r \<Rightarrow> Inr ((vo_cert r)\<lparr>vc_withdrawal := Some w\<rparr>,
         s\<lparr>so_vouches := updWhere (\<lambda>x. vc_id (vo_cert x) = av_vouch a)
             (\<lambda>x. x\<lparr>vo_cert := (vo_cert x)\<lparr>vc_withdrawal := Some w\<rparr>\<rparr>) (so_vouches s),
           so_active := filter (\<lambda>x. av_vouch x \<noteq> av_vouch a) (so_active s)\<rparr>)))"

definition vouchTimes :: "social \<Rightarrow> string \<Rightarrow> string \<Rightarrow> gotime list" where
  "vouchTimes s voucher key = map vo_created
     (filter (\<lambda>r. vc_voucher (vo_cert r) = voucher \<and> vc_subject_key (vo_cert r) = key) (so_vouches s))"

text \<open>\<open>LastVouchCreatedAt\<close>, the zero time when never.\<close>

definition lastVouchCreatedAt :: "social \<Rightarrow> string \<Rightarrow> string \<Rightarrow> gotime" where
  "lastVouchCreatedAt s voucher key =
     (case maxTime (vouchTimes s voucher key) of None \<Rightarrow> 0 | Some t \<Rightarrow> t)"

text \<open>\<open>listVouches\<close>: the keyset is the countersignature's time and the subject's key.\<close>

definition vouchKey :: "vouchRow \<Rightarrow> gotime \<times> string" where
  "vouchKey r = (ss_at (vc_server_sig (vo_cert r)), vc_subject_key (vo_cert r))"

definition isLive :: "social \<Rightarrow> vouchRow \<Rightarrow> bool" where
  "isLive s r \<longleftrightarrow> vc_id (vo_cert r) \<in> av_vouch ` set (so_active s)"

definition listVouchesForSubject ::
    "social \<Rightarrow> string \<Rightarrow> nat \<Rightarrow> (gotime \<times> string) option \<Rightarrow> vouchCert list \<times> (gotime \<times> string) option" where
  "listVouchesForSubject s u limit cursor =
     (let (page, nxt) = keysetPage vouchKey limit cursor
        (filter (\<lambda>r. vc_subject (vo_cert r) = u \<and> isLive s r) (so_vouches s)) in (map vo_cert page, nxt))"

definition listVouchesByVoucher ::
    "social \<Rightarrow> string \<Rightarrow> nat \<Rightarrow> (gotime \<times> string) option \<Rightarrow> vouchCert list \<times> (gotime \<times> string) option" where
  "listVouchesByVoucher s u limit cursor =
     (let (page, nxt) = keysetPage vouchKey limit cursor
        (filter (\<lambda>r. vc_voucher (vo_cert r) = u) (so_vouches s)) in (map vo_cert page, nxt))"

definition insertVouchReference :: "string \<Rightarrow> string \<Rightarrow> string \<Rightarrow> string \<Rightarrow> social \<Rightarrow> social" where
  "insertVouchReference i subject key server s =
     (if i \<in> vr_vouch ` set (so_refs s) then s
      else s\<lparr>so_refs := so_refs s @ [\<lparr>vr_vouch = i, vr_subject = subject, vr_subject_key = key, vr_server = server\<rparr>]\<rparr>)"

definition deleteVouchReference :: "string \<Rightarrow> string \<Rightarrow> social \<Rightarrow> social" where
  "deleteVouchReference i server s =
     s\<lparr>so_refs := filter (\<lambda>r. \<not> (vr_vouch r = i \<and> vr_server r = server)) (so_refs s)\<rparr>"

definition deleteVouchReferencesForServer :: "string \<Rightarrow> social \<Rightarrow> social" where
  "deleteVouchReferencesForServer server s = s\<lparr>so_refs := filter (\<lambda>r. vr_server r \<noteq> server) (so_refs s)\<rparr>"

text \<open>\<open>ListVouchIDsForSubject\<close>: a \<open>UNION\<close>, so each id once, in order.\<close>

definition listVouchIDsForSubject :: "social \<Rightarrow> string \<Rightarrow> string list" where
  "listVouchIDsForSubject s u = sort (remdups
     (map av_vouch (filter (\<lambda>a. av_subject a = u) (so_active s)) @
      map vr_vouch (filter (\<lambda>r. vr_subject r = u) (so_refs s))))"

subsection \<open>The subject's server\<close>

datatype delivery = Delivered | WindowClosed | SubjectRefused | SubjectUnreachable

definition vouchReferencePath :: string where
  "vouchReferencePath = ''/api/federation/relay/vouch-reference''"

definition callSubjectServer :: "'p peerCall \<Rightarrow> db \<Rightarrow> string \<Rightarrow> string \<Rightarrow> 'p \<Rightarrow> delivery" where
  "callSubjectServer call d subjectUserID path payload = (case parseIdentityID subjectUserID of
     None \<Rightarrow> SubjectRefused
   | Some (_, serverID) \<Rightarrow> (case getServerByID d serverID of
       None \<Rightarrow> SubjectUnreachable
     | Some _ \<Rightarrow> (let (failed, status) = call serverID path payload in
         if failed then SubjectUnreachable
         else if 200 \<le> status \<and> status < 300 then Delivered
         else if status = 412 \<and> path = vouchReferencePath then WindowClosed
         else if 400 \<le> status \<and> status < 500 then SubjectRefused
         else SubjectUnreachable)))"

fun writeVouchDeliveryError :: "delivery \<Rightarrow> 'a answer" where
  "writeVouchDeliveryError WindowClosed =
     Fail 412 ''They need to have their verification code open while you scan it''"
| "writeVouchDeliveryError SubjectRefused = Fail 422 ''The subject's server refused this verification''"
| "writeVouchDeliveryError d = Fail 502 ''Could not reach the subject's server''"

text \<open>Whether a user is another server's: the test both routes make before they call it.\<close>

definition foreignSubject :: "env \<Rightarrow> string \<Rightarrow> bool" where
  "foreignSubject E u = (case parseIdentityID u of None \<Rightarrow> False | Some (_, v) \<Rightarrow> v \<noteq> e_server_id E)"

definition localSubject :: "env \<Rightarrow> string \<Rightarrow> bool" where
  "localSubject E u = (case parseIdentityID u of None \<Rightarrow> False | Some (_, v) \<Rightarrow> v = e_server_id E)"

subsection \<open>Routes\<close>

record vouchMsg =
  vm_voucher :: string
  vm_voucher_key :: string
  vm_subject_key :: string
  vm_signature :: string
  vm_note :: string

text \<open>What \<open>CreateVouch\<close> checks before it signs: the refusal, or the replayed vouch, or the certificate's parts.\<close>

datatype vouchCheck = VouchRefused nat string | VouchReplay vouchCert | VouchReady string

definition checkNewVouch ::
    "env \<Rightarrow> gotime \<Rightarrow> string \<Rightarrow> vouchMsg \<Rightarrow> social \<Rightarrow> vouchCheck \<times> social" where
  "checkNewVouch E now voucherID m s =
     (let subjectKeyID = trimSpace (vm_subject_key m);
          voucherKeyID = trimSpace (vm_voucher_key m);
          userSignature = trimSpace (vm_signature m);
          note = vm_note m
      in if subjectKeyID = '''' then (VouchRefused 400 ''Argument `subjectKeyID` is required'', s)
      else if voucherKeyID = '''' then (VouchRefused 400 ''Argument `voucherKeyID` is required'', s)
      else if userSignature = '''' then (VouchRefused 400 ''Argument `signature` is required'', s)
      else if maxVouchNoteChars < e_graphemes E note then (VouchRefused 400 ''Note cannot exceed 140 characters'', s)
      else (case authorOf subjectKeyID of
        None \<Rightarrow> (VouchRefused 400 ''`subjectKeyID` is not a canonical key id'', s)
      | Some subjectUserID \<Rightarrow>
        if subjectUserID = voucherID then (VouchRefused 400 ''Cannot vouch for yourself'', s)
        else (case resolveKey E now subjectKeyID s of
          (Inl e, s1) \<Rightarrow> (VouchRefused 500 ''Internal Server Error'', s1)
        | (Inr None, s1) \<Rightarrow> (VouchRefused 404 ''Subject key not found'', s1)
        | (Inr (Some subjectKey), s1) \<Rightarrow>
          if key_revoked subjectKey then (VouchRefused 409 ''Subject key is revoked'', s1)
          else (case getVouch s1 voucherID subjectKeyID of
            Some existing \<Rightarrow>
              (if us_armor (vc_sig existing) = userSignature then VouchReplay existing
               else VouchRefused 409 ''You have already verified this key'', s1)
          | None \<Rightarrow>
            if localSubject E subjectUserID \<and> \<not> verificationWindowOpen s1 subjectUserID now
              then (VouchRefused 412 ''They need to have their verification code open while you scan it'', s1)
            else let lastAt = lastVouchCreatedAt s1 voucherID subjectKeyID in
            if \<not> isZeroTime lastAt \<and> 0 < vouchCooldown - timeSub now lastAt
              then (VouchRefused 429 ''You can verify this key again later'', s1)
            else (case resolveKey E now voucherKeyID s1 of
              (Inl e, s2) \<Rightarrow> (VouchRefused 500 ''Internal Server Error'', s2)
            | (Inr None, s2) \<Rightarrow> (VouchRefused 404 ''Voucher key not found'', s2)
            | (Inr (Some voucherKey), s2) \<Rightarrow>
              if \<not> keyBelongsTo voucherKeyID voucherID
                then (VouchRefused 400 ''`voucherKeyID` is not owned by the caller'', s2)
              else if \<not> e_verify E (buildVouchUserPayload (e_jcs E) voucherKeyID subjectKeyID note) userSignature
                  (key_armor voucherKey) then (VouchRefused 401 ''signature verification failed'', s2)
              else (VouchReady subjectUserID, s2))))))"

text \<open>\<open>CreateVouch\<close>; \<open>newID\<close> is the UUIDv7 it mints.\<close>

definition createVouch ::
    "env \<Rightarrow> (string \<Rightarrow> bool) \<Rightarrow> vouchCert peerCall \<Rightarrow> string \<Rightarrow> gotime \<Rightarrow> string option \<Rightarrow> string option \<Rightarrow>
     vouchMsg option \<Rightarrow> social \<Rightarrow> vouchCert answer \<times> social \<times> socialEffect list" where
  "createVouch E uuid7 call newID now caller peer msg s = (case msg of
     None \<Rightarrow> (Fail 400 ''Invalid request format'', s, [])
   | Some m \<Rightarrow> (case resolveActingUser caller peer (vm_voucher m) of
       None \<Rightarrow> (Fail 401 ''Could not resolve acting user'', s, [])
     | Some voucherID \<Rightarrow> (case checkNewVouch E now voucherID m s of
         (VouchRefused st why, s1) \<Rightarrow> (Fail st why, s1, [])
       | (VouchReplay existing, s1) \<Rightarrow> (Done 200 existing, s1, [])
       | (VouchReady subjectUserID, s1) \<Rightarrow>
         let at = truncateSecond now; subjectKeyID = trimSpace (vm_subject_key m);
             sig = \<lparr>us_id = trimSpace (vm_voucher_key m), us_armor = trimSpace (vm_signature m)\<rparr> in
         (case countersign E (buildVouchServerPayload (e_jcs E) subjectKeyID (e_fingerprint E) (us_armor sig) at) at of
           Inl e \<Rightarrow> (Fail 500 ''Internal Server Error'', s1, [])
         | Inr ss \<Rightarrow>
           let cert = \<lparr>vc_id = appendEntity voucherID newID, vc_voucher = voucherID, vc_voucher_key = us_id sig,
             vc_subject = subjectUserID, vc_subject_key = subjectKeyID, vc_note = vm_note m, vc_sig = sig,
             vc_server_sig = ss, vc_withdrawal = None\<rparr>;
             sent = (if foreignSubject E subjectUserID
               then callSubjectServer call (so_db s1) subjectUserID vouchReferencePath cert else Delivered) in
           if sent \<noteq> Delivered then (writeVouchDeliveryError sent, s1, [])
           else (case insertVouch E uuid7 cert s1 of
             Inl e \<Rightarrow> (if e = Sentinel ''ErrVouchConflict'' then Fail 409 ''Vouch already exists with a different signature''
               else if e = Sentinel ''ErrVouchInvalidID'' then Fail 400 ''Invalid vouch id''
               else Fail 500 ''Internal Server Error'', s1, [])
           | Inr (_, s2) \<Rightarrow> (Done 200 cert, s2, [VouchCreated subjectUserID (vc_id cert)]))))))"

record withdrawVouchMsg =
  wm_voucher :: string
  wm_voucher_key :: string
  wm_signature :: string

definition withdrawVouch ::
    "env \<Rightarrow> (string \<times> userSig \<times> serverSig) peerCall \<Rightarrow> gotime \<Rightarrow> string option \<Rightarrow> string option \<Rightarrow> string \<Rightarrow>
     withdrawVouchMsg option \<Rightarrow> social \<Rightarrow> vouchCert answer \<times> social" where
  "withdrawVouch E call now caller peer subjectKeyID msg s =
     (if subjectKeyID = '''' then (Fail 400 ''Argument `subjectKeyID` is required'', s)
      else (case msg of
        None \<Rightarrow> (Fail 400 ''Invalid request body'', s)
      | Some m \<Rightarrow> (case resolveActingUser caller peer (wm_voucher m) of
          None \<Rightarrow> (Fail 401 ''Could not resolve acting user'', s)
        | Some voucherID \<Rightarrow>
          let voucherKeyID = trimSpace (wm_voucher_key m); signature = trimSpace (wm_signature m) in
          if voucherKeyID = '''' \<or> signature = ''''
            then (Fail 400 ''Arguments `voucherKeyID` and `signature` are required'', s)
          else (case getVouch s voucherID subjectKeyID of
            None \<Rightarrow> (Fail 404 ''Vouch not found'', s)
          | Some existing \<Rightarrow>
            if \<not> keyBelongsTo voucherKeyID voucherID
              then (Fail 400 ''`voucherKeyID` is not owned by the caller'', s)
            else (case resolveKey E now voucherKeyID s of
              (Inl e, s1) \<Rightarrow> (Fail 500 ''Internal Server Error'', s1)
            | (Inr None, s1) \<Rightarrow> (Fail 404 ''Voucher key not found'', s1)
            | (Inr (Some voucherKey), s1) \<Rightarrow>
              if key_revoked voucherKey then (Fail 401 ''`voucherKeyID` is revoked'', s1)
              else if \<not> e_verify E (buildVouchWithdrawalUserPayload (e_jcs E) (vc_id existing)) signature
                  (key_armor voucherKey) then (Fail 401 ''signature verification failed'', s1)
              else let at = truncateSecond now in
              (case countersign E (buildVouchWithdrawalServerPayload (e_jcs E) (vc_id existing) (e_fingerprint E)
                  signature at) at of
                Inl e \<Rightarrow> (Fail 500 ''Internal Server Error'', s1)
              | Inr ss \<Rightarrow>
                let w = (\<lparr>us_id = voucherKeyID, us_armor = signature\<rparr>, ss);
                  sent = (if foreignSubject E (vc_subject existing)
                    then callSubjectServer call (so_db s1) (vc_subject existing)
                      ''/api/federation/relay/vouch-withdrawal'' (vc_id existing, w) else Delivered) in
                if sent \<noteq> Delivered then (writeVouchDeliveryError sent, s1)
                else (case withdrawVouchTx voucherID subjectKeyID w s1 of
                  Inl e \<Rightarrow> (Fail 404 ''Vouch not found'', s1)
                | Inr (cert, s2) \<Rightarrow> (Done 200 cert, s2))))))))"

subsection \<open>From a peer\<close>

definition checkForeignVouch ::
    "env \<Rightarrow> (string \<Rightarrow> bool) \<Rightarrow> gotime \<Rightarrow> string \<Rightarrow> vouchCert \<Rightarrow> social \<Rightarrow> (nat \<times> string) option \<times> social" where
  "checkForeignVouch E uuid7 now peer cert s = (case parseIdentityID (vc_subject cert) of
     None \<Rightarrow> (Some (400, ''subject is not a user of this server''), s)
   | Some (bare, server) \<Rightarrow>
     if server \<noteq> e_server_id E then (Some (400, ''subject is not a user of this server''), s)
     else if \<not> mentionTargetValid E (so_db s) bare then (Some (404, ''subject not found''), s)
     else if \<not> keyBelongsTo (vc_subject_key cert) (vc_subject cert)
       then (Some (400, ''subject key is not the subject's''), s)
     else (case getPublicKey (so_db s) (vc_subject_key cert) of
       None \<Rightarrow> (Some (404, ''subject key not found''), s)
     | Some k \<Rightarrow>
       if key_revoked k then (Some (409, ''subject key is revoked''), s)
       else if \<not> verificationWindowOpen s (vc_subject cert) now
         then (Some (412, ''subject has no open verification window''), s)
       else if identityServerID (vc_voucher cert) \<noteq> Some peer
         then (Some (400, ''voucher is not a user of the calling server''), s)
       else if \<not> validateVouchID uuid7 (vc_id cert) (vc_voucher cert) peer
         then (Some (400, ''vouch id''), s)
       else if \<not> keyBelongsTo (vc_voucher_key cert) (vc_voucher cert)
         then (Some (400, ''voucher key is not the voucher's''), s)
       else (case resolveKey E now (vc_voucher_key cert) s of
         (Inl e, s1) \<Rightarrow> (Some (500, ''could not fetch the voucher key''), s1)
       | (Inr None, s1) \<Rightarrow> (Some (400, ''voucher key could not be resolved''), s1)
       | (Inr (Some vk), s1) \<Rightarrow>
         if \<not> e_verify E (buildVouchUserPayload (e_jcs E) (vc_voucher_key cert) (vc_subject_key cert) (vc_note cert))
             (us_armor (vc_sig cert)) (key_armor vk) then (Some (400, ''voucher signature does not verify''), s1)
         else (checkPeerCountersignature E s1 peer (vc_server_sig cert) (\<lambda>fp.
             buildVouchServerPayload (e_jcs E) (vc_subject_key cert) fp (us_armor (vc_sig cert))
               (ss_at (vc_server_sig cert))), s1))))"

definition vouchReferenceFromPeer ::
    "env \<Rightarrow> (string \<Rightarrow> bool) \<Rightarrow> gotime \<Rightarrow> string \<Rightarrow> vouchCert option \<Rightarrow> social \<Rightarrow>
     unit answer \<times> social \<times> socialEffect list" where
  "vouchReferenceFromPeer E uuid7 now peer msg s =
     (if peer = '''' then (Fail 401 ''Unauthorized'', s, [])
      else (case msg of
        None \<Rightarrow> (Fail 400 ''Invalid request body'', s, [])
      | Some cert \<Rightarrow> (case checkForeignVouch E uuid7 now peer cert s of
          (Some (st, why), s1) \<Rightarrow> (Fail st why, s1, [])
        | (None, s1) \<Rightarrow>
            (Done 204 (), insertVouchReference (vc_id cert) (vc_subject cert) (vc_subject_key cert) peer s1,
             [VouchCreated (vc_subject cert) (vc_id cert)]))))"

definition vouchWithdrawalFromPeer ::
    "env \<Rightarrow> (string \<Rightarrow> bool) \<Rightarrow> gotime \<Rightarrow> string \<Rightarrow> (string \<times> string \<times> userSig \<times> serverSig) option \<Rightarrow> social \<Rightarrow>
     unit answer \<times> social" where
  "vouchWithdrawalFromPeer E uuid7 now peer msg s =
     (if peer = '''' then (Fail 401 ''Unauthorized'', s)
      else (case msg of
        None \<Rightarrow> (Fail 400 ''Invalid request body'', s)
      | Some (rawID, voucher, sig, ss) \<Rightarrow> let vouchID = trimSpace rawID in
        if \<not> validateVouchID uuid7 vouchID voucher peer then (Fail 400 ''vouch id'', s)
        else if \<not> keyBelongsTo (us_id sig) voucher then (Fail 400 ''withdrawal key is not the voucher's'', s)
        else (case resolveKey E now (us_id sig) s of
          (Inl e, s1) \<Rightarrow> (Fail 500 ''could not fetch the voucher key'', s1)
        | (Inr None, s1) \<Rightarrow> (Fail 400 ''voucher key could not be resolved'', s1)
        | (Inr (Some vk), s1) \<Rightarrow>
          if \<not> e_verify E (buildVouchWithdrawalUserPayload (e_jcs E) vouchID) (us_armor sig) (key_armor vk)
            then (Fail 400 ''withdrawal signature does not verify'', s1)
          else (case checkPeerCountersignature E s1 peer ss (\<lambda>fp. buildVouchWithdrawalServerPayload (e_jcs E)
              vouchID fp (us_armor sig) (ss_at ss)) of
            Some (st, why) \<Rightarrow> (Fail st why, s1)
          | None \<Rightarrow> (Done 204 (), deleteVouchReference vouchID peer s1)))))"

text \<open>\<open>GetVouch\<close>, once the id isn't a peer's to answer.\<close>

definition getVouchRoute :: "(string \<Rightarrow> bool) \<Rightarrow> social \<Rightarrow> string \<Rightarrow> string \<Rightarrow> vouchCert answer" where
  "getVouchRoute uuid7 s subjectUserID vouchID =
     (if subjectUserID = '''' \<or> vouchID = '''' then Fail 400 ''Arguments `userID` and `vouchID` are required''
      else if \<not> isVouchIDWellFormed uuid7 vouchID then Fail 400 ''`vouchID` is not a canonical vouch id''
      else (case getVouchByID s vouchID of
          None \<Rightarrow> Fail 404 ''Vouch not found''
        | Some cert \<Rightarrow> if vc_subject cert \<noteq> subjectUserID then Fail 404 ''Vouch not found'' else Done 200 cert))"

definition listMyVouches ::
    "social \<Rightarrow> string option \<Rightarrow> string \<Rightarrow> (gotime \<times> string) option \<Rightarrow>
     (vouchCert list \<times> (gotime \<times> string) option) answer" where
  "listMyVouches s caller rawLimit cursor = (case caller of
     None \<Rightarrow> Fail 401 ''Authentication required''
   | Some u \<Rightarrow> if u = '''' then Fail 401 ''Authentication required''
       else Done 200 (listVouchesByVoucher s u (nat (vouchPageLimit rawLimit)) cursor))"

definition listVouchesForUser ::
    "env \<Rightarrow> social \<Rightarrow> string \<Rightarrow> string \<Rightarrow> string \<Rightarrow> (gotime \<times> string) option \<Rightarrow>
     (vouchCert list \<times> (gotime \<times> string) option) answer" where
  "listVouchesForUser E s viewer u rawLimit cursor =
     (if u = '''' then Fail 400 ''Argument `userID` is required''
      else (case refuseIfBlocked E s viewer u of
          Some cert \<Rightarrow> writeBlocked cert
        | None \<Rightarrow> Done 200 (listVouchesForSubject s u (nat (vouchPageLimit rawLimit)) cursor)))"

end
