(* ===== verification/VouchRules.thy ===== *)
theory VouchRules
  imports SmallServer Vouches
begin

text \<open>
  The rules of the vouch tables: what every route of vouches and verification windows keeps, and what
  an accepted vouch rests on.
\<close>

definition sameVouchPair :: "vouchRow \<Rightarrow> vouchRow \<Rightarrow> bool" where
  "sameVouchPair r q \<longleftrightarrow> vc_voucher (vo_cert r) = vc_voucher (vo_cert q) \<and>
     vc_subject_key (vo_cert r) = vc_subject_key (vo_cert q)"

text \<open>\<open>r\<close> was made a cooldown before \<open>q\<close>, when both are of one user and one key.\<close>

definition vouchSpaced :: "vouchRow \<Rightarrow> vouchRow \<Rightarrow> bool" where
  "vouchSpaced r q \<longleftrightarrow> (sameVouchPair r q \<and> \<not> isZeroTime (vo_created r) \<longrightarrow>
     int (vo_created r) + vouchCooldown \<le> int (vo_created q))"

definition vouchRowFits :: "env \<Rightarrow> (string \<Rightarrow> bool) \<Rightarrow> vouchRow \<Rightarrow> bool" where
  "vouchRowFits E uuid7 r \<longleftrightarrow> (let c = vo_cert r in
     validateVouchID uuid7 (vc_id c) (vc_voucher c) (e_server_id E) \<and>
     authorOf (vc_subject_key c) = Some (vc_subject c) \<and> vc_subject c \<noteq> vc_voucher c \<and>
     vo_created r = ss_at (vc_server_sig c) \<and> wholeSecond (vo_created r))"

definition activeOf :: "vouchRow \<Rightarrow> activeVouch" where
  "activeOf r = (let c = vo_cert r in \<lparr>av_vouch = vc_id c, av_voucher = vc_voucher c,
     av_subject = vc_subject c, av_subject_key = vc_subject_key c\<rparr>)"

definition standing :: "vouchRow \<Rightarrow> bool" where
  "standing r \<longleftrightarrow> vc_withdrawal (vo_cert r) = None"

definition vouchPair :: "vouchRow \<Rightarrow> string \<times> string" where
  "vouchPair r = (vc_voucher (vo_cert r), vc_subject_key (vo_cert r))"

definition vouchInv :: "env \<Rightarrow> (string \<Rightarrow> bool) \<Rightarrow> social \<Rightarrow> bool" where
  "vouchInv E uuid7 s \<longleftrightarrow>
     uniqueBy (vc_id \<circ> vo_cert) (so_vouches s) \<and>
     so_active s = map activeOf (filter standing (so_vouches s)) \<and>
     uniqueBy vouchPair (filter standing (so_vouches s)) \<and>
     (\<forall>r \<in> set (so_vouches s). vouchRowFits E uuid7 r) \<and>
     sorted_wrt vouchSpaced (so_vouches s) \<and>
     uniqueBy vr_vouch (so_refs s)"

lemma vouchInv_frame:
  "so_vouches s' = so_vouches s \<Longrightarrow> so_active s' = so_active s \<Longrightarrow> so_refs s' = so_refs s \<Longrightarrow>
     vouchInv E uuid7 s \<Longrightarrow> vouchInv E uuid7 s'"
  unfolding vouchInv_def by simp

lemma activeOf_simps [simp]:
  "av_vouch (activeOf r) = vc_id (vo_cert r)" "av_voucher (activeOf r) = vc_voucher (vo_cert r)"
  "av_subject (activeOf r) = vc_subject (vo_cert r)" "av_subject_key (activeOf r) = vc_subject_key (vo_cert r)"
  by (simp_all add: activeOf_def Let_def)

lemma vouchSpaced_times:
  assumes "sameVouchPair r q" and "\<not> isZeroTime (lastVouchCreatedAt s (vc_voucher (vo_cert q)) (vc_subject_key (vo_cert q))) \<longrightarrow>
      vouchCooldown \<le> timeSub now (lastVouchCreatedAt s (vc_voucher (vo_cert q)) (vc_subject_key (vo_cert q)))"
    and "r \<in> set (so_vouches s)" and "\<forall>r \<in> set (so_vouches s). wholeSecond (vo_created r)"
    and "vo_created q = truncateSecond now" "\<not> isZeroTime (vo_created r)"
  shows "int (vo_created r) + vouchCooldown \<le> int (vo_created q)"
proof -
  let ?ts = "vouchTimes s (vc_voucher (vo_cert q)) (vc_subject_key (vo_cert q))"
  have mem: "vo_created r \<in> set ?ts"
    using assms(1,3) by (auto simp: vouchTimes_def sameVouchPair_def)
  then have ne: "?ts \<noteq> []" by auto
  define m where "m = Max (set ?ts)"
  have le: "vo_created r \<le> m" using mem by (simp add: m_def)
  have last: "lastVouchCreatedAt s (vc_voucher (vo_cert q)) (vc_subject_key (vo_cert q)) = m"
    using ne by (simp add: lastVouchCreatedAt_def maxTime_def m_def)
  have "m \<noteq> 0" using le assms(6) by (simp add: isZeroTime_def)
  then have late: "int m + vouchCooldown \<le> int now"
    using assms(2) last by (simp add: isZeroTime_def timeSub_def)
  have "m \<in> set ?ts" using ne by (simp add: m_def)
  then have whole: "wholeSecond m" using assms(4) by (auto simp: vouchTimes_def)
  define day where "day = (86400::nat)"
  have cool: "vouchCooldown = int (day * second)"
    by (simp add: vouchCooldown_def hour_def minute_def day_def)
  obtain n where n: "m = n * second" using whole by (metis wholeSecond_def mod_0_imp_dvd dvd_def mult.commute)
  have "(n + day) * second \<le> now"
    using late unfolding cool n by (simp add: algebra_simps flip: of_nat_add of_nat_mult)
  then have "n + day \<le> now div second"
    by (simp add: less_eq_div_iff_mult_less_eq second_def)
  then have "(n + day) * second \<le> truncateSecond now"
    by (simp add: truncateSecond_def minus_mod_eq_div_mult)
  then show ?thesis using le unfolding assms(5) cool n by (simp add: algebra_simps flip: of_nat_add of_nat_mult)
qed


lemma liveVouch_None:
  "vouchInv E uuid7 s \<Longrightarrow> liveVouch s u k = None \<longleftrightarrow> (u, k) \<notin> vouchPair ` set (filter standing (so_vouches s))"
  unfolding liveVouch_def find_None_iff vouchInv_def vouchPair_def by (fastforce simp: image_iff)

lemma insertVouchRow_inv:
  assumes "insertVouchRow cert s = Inr ((), s')" and "vouchInv E uuid7 s"
    and "vouchRowFits E uuid7 \<lparr>vo_cert = cert, vo_created = ss_at (vc_server_sig cert)\<rparr>" 
    and "\<And>q. q \<in> set (so_vouches s) \<Longrightarrow> vouchSpaced q \<lparr>vo_cert = cert, vo_created = ss_at (vc_server_sig cert)\<rparr>"
  shows "vouchInv E uuid7 s'"
proof -
  let ?r = "\<lparr>vo_cert = cert, vo_created = ss_at (vc_server_sig cert)\<rparr>"
  have new: "vouchRowOf s (vc_id cert) = None"
    and s': "so_vouches s' = so_vouches s @ [?r]" "so_refs s' = so_refs s"
    and act: "so_active s' = so_active s @ (if standing ?r then [activeOf ?r] else [])"
    and live: "standing ?r \<Longrightarrow> liveVouch s (vc_voucher cert) (vc_subject_key cert) = None"
    using assms(1) by (auto simp: insertVouchRow_def Let_def standing_def activeOf_def split: if_splits)
  have "vc_id cert \<notin> (vc_id \<circ> vo_cert) ` set (so_vouches s)"
    using new unfolding vouchRowOf_def rowBy_None by blast
  then show ?thesis
    using assms(2-4) live [unfolded liveVouch_None [OF assms(2)]] unfolding vouchInv_def s' act
    by (auto simp: sorted_wrt_append image_iff vouchPair_def)
qed

lemma withdrawVouchTx_Inr:
  assumes "withdrawVouchTx u k w s = Inr (cert, s')"
  shows "\<exists>a r. liveVouch s u k = Some a \<and> vouchRowOf s (av_vouch a) = Some r \<and>
    cert = (vo_cert r)\<lparr>vc_withdrawal := Some w\<rparr> \<and>
    s' = s\<lparr>so_vouches := updWhere (\<lambda>x. vc_id (vo_cert x) = av_vouch a)
        (\<lambda>x. x\<lparr>vo_cert := (vo_cert x)\<lparr>vc_withdrawal := Some w\<rparr>\<rparr>) (so_vouches s),
      so_active := filter (\<lambda>x. av_vouch x \<noteq> av_vouch a) (so_active s)\<rparr>"
  using assms by (auto simp: withdrawVouchTx_def split: option.splits)

lemma withdrawVouchTx_inv:
  assumes "withdrawVouchTx u k w s = Inr (cert, s')" and "vouchInv E uuid7 s"
  shows "vouchInv E uuid7 s'"
proof -
  obtain a :: activeVouch where s': "s' = s\<lparr>so_vouches := updWhere (\<lambda>x. vc_id (vo_cert x) = av_vouch a)
             (\<lambda>x. x\<lparr>vo_cert := (vo_cert x)\<lparr>vc_withdrawal := Some w\<rparr>\<rparr>) (so_vouches s),
           so_active := filter (\<lambda>x. av_vouch x \<noteq> av_vouch a) (so_active s)\<rparr>"
    using withdrawVouchTx_Inr [OF assms(1)] by blast
  define f :: "vouchRow \<Rightarrow> vouchRow" where "f = (\<lambda>x. if vc_id (vo_cert x) = av_vouch a
    then x\<lparr>vo_cert := (vo_cert x)\<lparr>vc_withdrawal := Some w\<rparr>\<rparr> else x)"
  have upd: "so_vouches s' = map f (so_vouches s)" and act: "so_active s' = filter (\<lambda>x. av_vouch x \<noteq> av_vouch a) (so_active s)"
    and refs: "so_refs s' = so_refs s"
    by (simp_all add: s' updWhere_def f_def)
  have f: "vc_id (vo_cert (f x)) = vc_id (vo_cert x)" "vouchRowFits E uuid7 (f x) = vouchRowFits E uuid7 x"
    "vouchSpaced (f x) (f y) = vouchSpaced x y" "standing (f x) \<longleftrightarrow> standing x \<and> vc_id (vo_cert x) \<noteq> av_vouch a" for x y
    by (auto simp: f_def vouchRowFits_def vouchSpaced_def sameVouchPair_def standing_def Let_def)
  have same: "activeOf (f x) = activeOf x" for x by (simp add: f_def activeOf_def Let_def)
  have "map activeOf (filter standing (map f xs)) =
     filter (\<lambda>x. av_vouch x \<noteq> av_vouch a) (map activeOf (filter standing xs))" for xs
    by (induction xs) (auto simp: f same)
  moreover have "map (vc_id \<circ> vo_cert) (map f xs) = map (vc_id \<circ> vo_cert) xs" for xs by (simp add: f)
  moreover have "sorted_wrt vouchSpaced (map f xs) = sorted_wrt vouchSpaced xs" for xs
    by (simp add: sorted_wrt_map f)
  moreover have "filter standing (map f xs) = map f (filter (\<lambda>x. vc_id (vo_cert x) \<noteq> av_vouch a) (filter standing xs))" for xs
    by (induction xs) (auto simp: f)
  moreover have "vouchPair \<circ> f = vouchPair" "vc_id \<circ> vo_cert \<circ> f = vc_id \<circ> vo_cert"
    by (auto simp: f_def vouchPair_def)
  moreover have "uniqueBy vouchPair (filter (\<lambda>x. standing x \<and> vc_id (vo_cert x) \<noteq> av_vouch a) xs)"
    if "uniqueBy vouchPair (filter standing xs)" for xs
    using uniqueBy_filter [OF that, of "\<lambda>x. vc_id (vo_cert x) \<noteq> av_vouch a"] by (simp add: conj_commute)
  ultimately show ?thesis
    using assms(2) unfolding vouchInv_def upd refs act
    by (simp add: f uniqueBy_filter)
qed

lemma insertVouchReference_inv: "vouchInv E uuid7 s \<Longrightarrow> vouchInv E uuid7 (insertVouchReference i u k v s)"
  unfolding vouchInv_def insertVouchReference_def by simp

lemma deleteVouchReference_inv: "vouchInv E uuid7 s \<Longrightarrow> vouchInv E uuid7 (deleteVouchReference i v s)"
  unfolding vouchInv_def deleteVouchReference_def by (simp add: uniqueBy_filter)

lemma deleteVouchReferencesForServer_inv:
  "vouchInv E uuid7 s \<Longrightarrow> vouchInv E uuid7 (deleteVouchReferencesForServer v s)"
  unfolding vouchInv_def deleteVouchReferencesForServer_def by (simp add: uniqueBy_filter)


subsection \<open>The routes\<close>

definition sameVouches :: "social \<Rightarrow> social \<Rightarrow> bool" where
  "sameVouches s s' \<longleftrightarrow> so_vouches s' = so_vouches s \<and> so_active s' = so_active s \<and> so_refs s' = so_refs s"

lemma sameVouches_refl [simp]: "sameVouches s s"
  by (simp add: sameVouches_def)

lemma sameVouches_trans: "sameVouches s t \<Longrightarrow> sameVouches t u \<Longrightarrow> sameVouches s u"
  by (simp add: sameVouches_def)

lemma sameVouches_inv: "sameVouches s s' \<Longrightarrow> vouchInv E uuid7 s \<Longrightarrow> vouchInv E uuid7 s'"
  unfolding sameVouches_def using vouchInv_frame by blast

lemma sameVouches_views:
  assumes "sameVouches s s'"
  shows "getVouch s' = getVouch s" "lastVouchCreatedAt s' = lastVouchCreatedAt s" "liveVouch s' = liveVouch s"
  using assms
  by (simp_all add: fun_eq_iff sameVouches_def getVouch_def liveVouch_def vouchRowOf_def
      lastVouchCreatedAt_def vouchTimes_def split: option.split)

lemma resolveKey_same: "resolveKey E now i s = (r, s') \<Longrightarrow> sameVouches s s'"
  by (auto simp: sameVouches_def dest!: resolveKey_frame)

lemma checkNewVouch_same: "checkNewVouch E now u m s = (c, s') \<Longrightarrow> sameVouches s s'"
  unfolding checkNewVouch_def Let_def
  by (auto dest!: resolveKey_same intro: sameVouches_trans split: if_splits option.splits prod.splits sum.splits)

text \<open>What a vouch the server is ready to store rests on.\<close>

definition vouchGrounds :: "env \<Rightarrow> gotime \<Rightarrow> string \<Rightarrow> vouchMsg \<Rightarrow> social \<Rightarrow> string \<Rightarrow> bool" where
  "vouchGrounds E now u m s subject \<longleftrightarrow> (let key = trimSpace (vm_subject_key m); vkey = trimSpace (vm_voucher_key m) in
     authorOf key = Some subject \<and> subject \<noteq> u \<and> keyBelongsTo vkey u \<and>
     e_graphemes E (vm_note m) \<le> maxVouchNoteChars \<and>
     (localSubject E subject \<longrightarrow> verificationWindowOpen s subject now) \<and>
     getVouch s u key = None \<and>
     (\<not> isZeroTime (lastVouchCreatedAt s u key) \<longrightarrow> vouchCooldown \<le> timeSub now (lastVouchCreatedAt s u key)) \<and>
     (\<exists>k s1 s2 vk s3. resolveKey E now key s = (Inr (Some k), s1) \<and> \<not> key_revoked k \<and>
        sameVouches s s2 \<and> resolveKey E now vkey s2 = (Inr (Some vk), s3) \<and>
        e_verify E (buildVouchUserPayload (e_jcs E) vkey key (vm_note m)) (trimSpace (vm_signature m)) (key_armor vk)))"

lemma resolveKey_window: "resolveKey E now i s = (r, s') \<Longrightarrow> verificationWindowOpen s' = verificationWindowOpen s"
  by (auto simp: verificationWindowOpen_def fun_eq_iff dest!: resolveKey_frame)

lemma checkNewVouch_Ready:
  assumes "checkNewVouch E now u m s = (VouchReady subject, s')"
  shows "vouchGrounds E now u m s subject"
proof -
  obtain k s1 vk where k: "resolveKey E now (trimSpace (vm_subject_key m)) s = (Inr (Some k), s1)" "\<not> key_revoked k"
    and vk: "resolveKey E now (trimSpace (vm_voucher_key m)) s1 = (Inr (Some vk), s')"
    and rest: "authorOf (trimSpace (vm_subject_key m)) = Some subject" "subject \<noteq> u" "keyBelongsTo (trimSpace (vm_voucher_key m)) u"
      "e_graphemes E (vm_note m) \<le> maxVouchNoteChars"
      "localSubject E subject \<longrightarrow> verificationWindowOpen s1 subject now"
      "getVouch s1 u (trimSpace (vm_subject_key m)) = None"
      "\<not> isZeroTime (lastVouchCreatedAt s1 u (trimSpace (vm_subject_key m))) \<longrightarrow>
         vouchCooldown \<le> timeSub now (lastVouchCreatedAt s1 u (trimSpace (vm_subject_key m)))"
      "e_verify E (buildVouchUserPayload (e_jcs E) (trimSpace (vm_voucher_key m)) (trimSpace (vm_subject_key m)) (vm_note m))
         (trimSpace (vm_signature m)) (key_armor vk)"
    using assms unfolding checkNewVouch_def Let_def
    by (auto split: if_splits option.splits prod.splits sum.splits intro!: that)
  note same = resolveKey_same [OF k(1)]
  show ?thesis
    unfolding vouchGrounds_def Let_def
    using k vk rest same by (auto simp: sameVouches_views [OF same] resolveKey_window [OF k(1)])
qed


lemma insertVouch_inv:
  assumes "insertVouch E uuid7 cert s = Inr (x, s')" and "vouchInv E uuid7 s"
    and "getVouch s u (vc_subject_key cert) = None"
    and "vc_voucher cert = u" "authorOf (vc_subject_key cert) = Some (vc_subject cert)" "vc_subject cert \<noteq> u"
    and "ss_at (vc_server_sig cert) = truncateSecond now"
    and "\<not> isZeroTime (lastVouchCreatedAt s u (vc_subject_key cert)) \<longrightarrow>
      vouchCooldown \<le> timeSub now (lastVouchCreatedAt s u (vc_subject_key cert))"
  shows "vouchInv E uuid7 s'"
proof -
  define cert' where "cert' = cert\<lparr>vc_server_sig := (vc_server_sig cert)\<lparr>ss_at := truncateSecond (ss_at (vc_server_sig cert))\<rparr>\<rparr>"
  have c: "vc_id cert' = vc_id cert" "vc_voucher cert' = u" "vc_subject cert' = vc_subject cert"
    "vc_subject_key cert' = vc_subject_key cert" "ss_at (vc_server_sig cert') = truncateSecond now"
    using assms(4,7) by (simp_all add: cert'_def)
  have row: "insertVouchRow cert' s = Inr ((), s')" and vid: "validateVouchID uuid7 (vc_id cert) u (e_server_id E)"
    using assms(1,3,4) by (auto simp: insertVouch_def Let_def cert'_def split: if_splits option.splits)
  have fits: "vouchRowFits E uuid7 \<lparr>vo_cert = cert', vo_created = ss_at (vc_server_sig cert')\<rparr>"
    using vid assms(5,6) by (simp add: vouchRowFits_def c Let_def)
  have whole: "\<forall>r \<in> set (so_vouches s). wholeSecond (vo_created r)"
    using assms(2) by (auto simp: vouchInv_def vouchRowFits_def Let_def)
  have "vouchSpaced q \<lparr>vo_cert = cert', vo_created = ss_at (vc_server_sig cert')\<rparr>" if "q \<in> set (so_vouches s)" for q
    unfolding vouchSpaced_def
    using vouchSpaced_times [of q "\<lparr>vo_cert = cert', vo_created = ss_at (vc_server_sig cert')\<rparr>" s now]
      assms(8) whole that by (auto simp: c)
  then show ?thesis by (intro insertVouchRow_inv [OF row assms(2) fits])
qed

lemma vouchGrounds_moved:
  assumes "vouchGrounds E now u m s subject" and "sameVouches s s'"
  shows "authorOf (trimSpace (vm_subject_key m)) = Some subject" "subject \<noteq> u"
    "getVouch s' u (trimSpace (vm_subject_key m)) = None"
    "\<not> isZeroTime (lastVouchCreatedAt s' u (trimSpace (vm_subject_key m))) \<longrightarrow>
       vouchCooldown \<le> timeSub now (lastVouchCreatedAt s' u (trimSpace (vm_subject_key m)))"
  using assms(1) by (simp_all add: vouchGrounds_def Let_def sameVouches_views [OF assms(2)])

lemma createVouch_done:
  assumes "createVouch E uuid7 call newID now caller peer msg s = (a, s', fx)" and "fx \<noteq> [] \<or> \<not> sameVouches s s'"
  shows "\<exists>m u subject s1 cert. msg = Some m \<and> resolveActingUser caller peer (vm_voucher m) = Some u \<and>
    vouchGrounds E now u m s subject \<and> sameVouches s s1 \<and>
    vc_voucher cert = u \<and> vc_subject cert = subject \<and> vc_subject_key cert = trimSpace (vm_subject_key m) \<and>
    ss_at (vc_server_sig cert) = truncateSecond now \<and> vc_withdrawal cert = None \<and>
    insertVouch E uuid7 cert s1 = Inr ((), s') \<and> a = Done 200 cert"
proof -
  obtain m u c s1 where m: "msg = Some m" "resolveActingUser caller peer (vm_voucher m) = Some u"
    and chk: "checkNewVouch E now u m s = (c, s1)"
    using assms by (cases "checkNewVouch E now (the (resolveActingUser caller peer (vm_voucher (the msg)))) (the msg) s")
      (auto simp: createVouch_def split: option.splits)
  note same = checkNewVouch_same [OF chk]
  then obtain subject where c: "c = VouchReady subject"
    using assms m chk by (cases c) (auto simp: createVouch_def)
  define sig where "sig = \<lparr>us_id = trimSpace (vm_voucher_key m), us_armor = trimSpace (vm_signature m)\<rparr>"
  obtain ss where ss: "countersign E (buildVouchServerPayload (e_jcs E) (trimSpace (vm_subject_key m)) (e_fingerprint E)
      (us_armor sig) (truncateSecond now)) (truncateSecond now) = Inr ss"
    using assms m chk c same by (auto simp: createVouch_def sig_def Let_def split: sum.splits)
  define cert where "cert = \<lparr>vc_id = appendEntity u newID, vc_voucher = u, vc_voucher_key = us_id sig,
     vc_subject = subject, vc_subject_key = trimSpace (vm_subject_key m), vc_note = vm_note m, vc_sig = sig,
     vc_server_sig = ss, vc_withdrawal = None\<rparr>"
  have ins: "insertVouch E uuid7 cert s1 = Inr ((), s') \<and> a = Done 200 cert"
    using assms m chk c same ss
    by (auto simp: createVouch_def sig_def cert_def Let_def split: sum.splits if_splits)
  have "ss_at ss = truncateSecond now" using ss by (auto simp: countersign_Inr)
  then show ?thesis
    using m checkNewVouch_Ready [OF chk [unfolded c]] same ins
    by (intro exI [of _ m] exI [of _ u] exI [of _ subject] exI [of _ s1] exI [of _ cert]) (simp add: cert_def)
qed

lemma createVouch_inv:
  assumes "createVouch E uuid7 call newID now caller peer msg s = (a, s', fx)" and "vouchInv E uuid7 s"
  shows "vouchInv E uuid7 s'"
proof (cases "sameVouches s s'")
  case False
  then obtain m u subject s1 cert where g: "vouchGrounds E now u m s subject" and s1: "sameVouches s s1"
    and cert: "vc_voucher cert = u" "vc_subject cert = subject" "vc_subject_key cert = trimSpace (vm_subject_key m)"
      "ss_at (vc_server_sig cert) = truncateSecond now"
    and ins: "insertVouch E uuid7 cert s1 = Inr ((), s')"
    using createVouch_done [OF assms(1) disjI2] by blast
  show ?thesis
    by (rule insertVouch_inv [OF ins sameVouches_inv [OF s1 assms(2)] _ cert(1) _ _ cert(4)])
      (use vouchGrounds_moved [OF g s1] cert in simp_all)
qed (rule sameVouches_inv [OF _ assms(2)])

lemma withdrawVouch_cases:
  assumes "withdrawVouch E call now caller peer key msg s = (a, s')"
  shows "sameVouches s s' \<or> (\<exists>u w s1 cert. sameVouches s s1 \<and> withdrawVouchTx u key w s1 = Inr (cert, s'))"
  using assms unfolding withdrawVouch_def Let_def
  by (auto dest!: resolveKey_same split: if_splits option.splits prod.splits sum.splits)

lemma withdrawVouch_inv:
  "withdrawVouch E call now caller peer key msg s = (a, s') \<Longrightarrow> vouchInv E uuid7 s \<Longrightarrow> vouchInv E uuid7 s'"
  by (drule withdrawVouch_cases) (auto dest: sameVouches_inv withdrawVouchTx_inv)

lemma checkForeignVouch_same: "checkForeignVouch E uuid7 now p cert s = (r, s') \<Longrightarrow> sameVouches s s'"
  unfolding checkForeignVouch_def
  by (auto dest!: resolveKey_same split: if_splits option.splits prod.splits sum.splits)

text \<open>A peer's route writes at most one reference of its own server.\<close>

definition refWrite :: "string \<Rightarrow> social \<Rightarrow> social \<Rightarrow> bool" where
  "refWrite p s s' \<longleftrightarrow> (\<exists>s1. sameVouches s s1 \<and> (s' = s1 \<or> (\<exists>i u k. s' = insertVouchReference i u k p s1) \<or>
     (\<exists>i. s' = deleteVouchReference i p s1)))"

lemma refWrite_same: "sameVouches s s' \<Longrightarrow> refWrite p s s'"
  by (auto simp: refWrite_def)

lemma refWrite_refl [simp]: "refWrite p s s"
  by (rule refWrite_same) simp

lemma refWrite_insert: "sameVouches s s1 \<Longrightarrow> refWrite p s (insertVouchReference i u k p s1)"
  by (auto simp: refWrite_def)

lemma refWrite_delete: "sameVouches s s1 \<Longrightarrow> refWrite p s (deleteVouchReference i p s1)"
  by (auto simp: refWrite_def)

lemma refWrite_inv: "refWrite p s s' \<Longrightarrow> vouchInv E uuid7 s \<Longrightarrow> vouchInv E uuid7 s'"
  by (auto simp: refWrite_def dest: sameVouches_inv intro: insertVouchReference_inv deleteVouchReference_inv)

lemma vouchReferenceFromPeer_write:
  "vouchReferenceFromPeer E uuid7 now p msg s = (a, s', fx) \<Longrightarrow> refWrite p s s'"
  unfolding vouchReferenceFromPeer_def
  by (auto dest!: checkForeignVouch_same intro: refWrite_insert refWrite_same
      split: if_splits option.splits prod.splits)

lemma vouchWithdrawalFromPeer_write:
  "vouchWithdrawalFromPeer E uuid7 now p msg s = (a, s') \<Longrightarrow> refWrite p s s'"
  unfolding vouchWithdrawalFromPeer_def Let_def
  by (auto dest!: resolveKey_same intro: refWrite_delete refWrite_same
      split: if_splits option.splits prod.splits sum.splits)

text \<open>A verification window route touches windows only.\<close>

lemma window_same:
  "openWindowRoute now caller i s = (a, s') \<Longrightarrow> sameVouches s s'"
  "pingWindowRoute now caller i s = (a, s') \<Longrightarrow> sameVouches s s'"
  "closeWindowRoute caller i s = (a, s') \<Longrightarrow> sameVouches s s'"
  by (auto simp: openWindowRoute_def pingWindowRoute_def closeWindowRoute_def openVerificationWindow_def
      pingVerificationWindow_def closeVerificationWindow_def Let_def sameVouches_def
      split: sum.splits prod.splits if_splits)

inductive vouchCall :: "env \<Rightarrow> (string \<Rightarrow> bool) \<Rightarrow> social \<Rightarrow> social \<Rightarrow> bool" for E uuid7 where
  callCreate: "createVouch E uuid7 call newID now caller peer msg s = (a, s', fx) \<Longrightarrow> vouchCall E uuid7 s s'"
| callWithdrawVouch: "withdrawVouch E wcall now caller peer key wmsg s = (a, s') \<Longrightarrow> vouchCall E uuid7 s s'"
| callReference: "vouchReferenceFromPeer E uuid7 now p cert s = (b, s', fx) \<Longrightarrow> vouchCall E uuid7 s s'"
| callWithdrawalFromPeer: "vouchWithdrawalFromPeer E uuid7 now p w s = (b, s') \<Longrightarrow> vouchCall E uuid7 s s'"
| callOpen: "openWindowRoute now caller i s = (b, s') \<Longrightarrow> vouchCall E uuid7 s s'"
| callPing: "pingWindowRoute now caller i s = (b, s') \<Longrightarrow> vouchCall E uuid7 s s'"
| callClose: "closeWindowRoute caller i s = (b, s') \<Longrightarrow> vouchCall E uuid7 s s'"
| callDropReferences: "vouchCall E uuid7 s (deleteVouchReferencesForServer v s)"

interpretation vouchRoutes: transition_system "vouchCall E uuid7" "vouchInv E uuid7" for E uuid7
proof
  fix s s'
  assume inv: "vouchInv E uuid7 s" and "vouchCall E uuid7 s s'"
  from this(2) show "vouchInv E uuid7 s'"
    by cases (use inv in \<open>blast intro: createVouch_inv withdrawVouch_inv deleteVouchReferencesForServer_inv
      refWrite_inv [OF vouchReferenceFromPeer_write] refWrite_inv [OF vouchWithdrawalFromPeer_write]
      sameVouches_inv [OF window_same(1)] sameVouches_inv [OF window_same(2)] sameVouches_inv [OF window_same(3)]\<close>)+
qed

lemma live_row:
  assumes r: "r \<in> set (so_vouches s)" and inv: "vouchInv E uuid7 s"
  shows "isLive s r \<longleftrightarrow> standing r"
proof -
  have ids: "uniqueBy (vc_id \<circ> vo_cert) (so_vouches s)" and act: "so_active s = map activeOf (filter standing (so_vouches s))"
    using inv by (simp_all add: vouchInv_def)
  show ?thesis using uniqueBy_inj [OF ids r] r unfolding isLive_def act by force
qed

text \<open>
  C15.  From empty vouch tables, whatever the routes of vouches, their references and verification
  windows do: a vouch has an id of its voucher's minted here and is of somebody else's key; the live
  set holds exactly the vouches that aren't withdrawn, one for a user and key; and two vouches of one
  user for one key are a day apart.
\<close>

theorem vouch_rules:
  assumes "(vouchCall E uuid7)\<^sup>*\<^sup>* s s'" and "so_vouches s = []" "so_active s = []" "so_refs s = []"
  shows "uniqueBy (vc_id \<circ> vo_cert) (so_vouches s') \<and>
    (\<forall>r \<in> set (so_vouches s'). validateVouchID uuid7 (vc_id (vo_cert r)) (vc_voucher (vo_cert r)) (e_server_id E) \<and>
      authorOf (vc_subject_key (vo_cert r)) = Some (vc_subject (vo_cert r)) \<and>
      vc_subject (vo_cert r) \<noteq> vc_voucher (vo_cert r) \<and>
      (isLive s' r \<longleftrightarrow> vc_withdrawal (vo_cert r) = None)) \<and>
    uniqueBy (\<lambda>a. (av_voucher a, av_subject_key a)) (so_active s') \<and>
    (\<forall>i j. i < j \<longrightarrow> j < length (so_vouches s') \<longrightarrow> sameVouchPair (so_vouches s' ! i) (so_vouches s' ! j) \<longrightarrow>
      \<not> isZeroTime (vo_created (so_vouches s' ! i)) \<longrightarrow>
      int (vo_created (so_vouches s' ! i)) + vouchCooldown \<le> int (vo_created (so_vouches s' ! j)))"
proof -
  have "vouchInv E uuid7 s" using assms(2-4) by (simp add: vouchInv_def)
  then have inv: "vouchInv E uuid7 s'" by (rule vouchRoutes.inv_reachable [OF assms(1)])
  then have ids: "uniqueBy (vc_id \<circ> vo_cert) (so_vouches s')" and act: "so_active s' = map activeOf (filter standing (so_vouches s'))"
    and pair: "uniqueBy vouchPair (filter standing (so_vouches s'))" and fits: "\<forall>r \<in> set (so_vouches s'). vouchRowFits E uuid7 r"
    and far: "sorted_wrt vouchSpaced (so_vouches s')"
    by (simp_all add: vouchInv_def)
  have live: "isLive s' r \<longleftrightarrow> standing r" if "r \<in> set (so_vouches s')" for r
    by (rule live_row [OF that inv])
  have "(\<lambda>a. (av_voucher a, av_subject_key a)) \<circ> activeOf = vouchPair"
    by (rule ext) (simp add: vouchPair_def)
  then have "uniqueBy (\<lambda>a. (av_voucher a, av_subject_key a)) (so_active s')"
    using pair unfolding act by simp
  then show ?thesis
    using ids fits far live by (auto simp: vouchRowFits_def Let_def standing_def sorted_wrt_iff_nth_less vouchSpaced_def)
qed


text \<open>\<open>v\<close> vouches for \<open>u\<close>'s key, whose window is open.\<close>

definition aSocial :: social where
  "aSocial = \<lparr>so_db = aDb, so_vouches = [], so_active = [], so_refs = [],
     so_windows = [\<lparr>vw_id = ''w'', vw_user = ''u@s'', vw_ping = second\<rparr>], so_online = [''u@s''], so_unclaimed = [],
     so_pins = [], so_follows = [], so_following = [], so_followers = [], so_follow_queue = [], so_blocks = [],
     so_block_queue = [], so_allocations = [], so_pending = []\<rparr>"

definition aVouchMsg :: vouchMsg where
  "aVouchMsg = \<lparr>vm_voucher = '''', vm_voucher_key = ''v@s/k'', vm_subject_key = ''u@s/k'', vm_signature = ''g'',
     vm_note = ''n''\<rparr>"

definition aVouch :: vouchCert where
  "aVouch = \<lparr>vc_id = ''v@s/i'', vc_voucher = ''v@s'', vc_voucher_key = ''v@s/k'', vc_subject = ''u@s'',
     vc_subject_key = ''u@s/k'', vc_note = ''n'', vc_sig = \<lparr>us_id = ''v@s/k'', us_armor = ''g''\<rparr>,
     vc_server_sig = \<lparr>ss_id = ''f@s'', ss_armor = ''a'', ss_at = second\<rparr>, vc_withdrawal = None\<rparr>"

definition vouchedSocial :: social where
  "vouchedSocial = aSocial\<lparr>so_vouches := [\<lparr>vo_cert = aVouch, vo_created = second\<rparr>],
     so_active := [\<lparr>av_vouch = ''v@s/i'', av_voucher = ''v@s'', av_subject = ''u@s'', av_subject_key = ''u@s/k''\<rparr>]\<rparr>"

lemma v_check: "checkNewVouch aServer second ''v@s'' aVouchMsg aSocial = (VouchReady ''u@s'', aSocial)"
proof -
  have texts: "trimSpace ''v@s/k'' = ''v@s/k''" "trimSpace ''u@s/k'' = ''u@s/k''" "trimSpace ''g'' = ''g''"
    "authorOf ''u@s/k'' = Some ''u@s''" "keyBelongsTo ''v@s/k'' ''v@s''"
    "\<not> maxVouchNoteChars < e_graphemes aServer ''n''" by code_simp+
  have open_: "verificationWindowOpen aSocial ''u@s'' second"
    by (simp add: verificationWindowOpen_def aSocial_def windowLive_def verificationWindowTTL_def minute_def second_def)
  have new: "getVouch aSocial ''v@s'' ''u@s/k'' = None" "isZeroTime (lastVouchCreatedAt aSocial ''v@s'' ''u@s/k'')"
    by (simp_all add: getVouch_def liveVouch_def lastVouchCreatedAt_def vouchTimes_def maxTime_def isZeroTime_def aSocial_def)
  have keys: "resolveKey aServer second ''u@s/k'' aSocial = (Inr (Some \<lparr>key_id = ''u@s/k'', key_user = ''u@s'',
      key_armor = ''k'', key_revoked = False, key_restricted = False\<rparr>), aSocial)"
    "resolveKey aServer second ''v@s/k'' aSocial = (Inr (Some \<lparr>key_id = ''v@s/k'', key_user = ''v@s'',
      key_armor = ''k'', key_revoked = False, key_restricted = False\<rparr>), aSocial)"
    using u_key [of second] v_key [of second] by (simp_all add: resolveKey_def aSocial_def)
  show ?thesis
    by (simp add: checkNewVouch_def aVouchMsg_def texts keys new open_ Let_def)
qed

lemma v_vouches: "createVouch aServer (\<lambda>_. True) call ''i'' second (Some ''v@s'') None (Some aVouchMsg) aSocial =
    (Done 200 aVouch, vouchedSocial, [VouchCreated ''u@s'' ''v@s/i''])"
proof -
  have texts: "trimSpace ''v@s/k'' = ''v@s/k''" "trimSpace ''u@s/k'' = ''u@s/k''" "trimSpace ''g'' = ''g''"
    "appendEntity ''v@s'' ''i'' = ''v@s/i''" "\<not> foreignSubject aServer ''u@s''" "canonicalID ''s'' ''f'' = ''f@s''"
    "validateVouchID (\<lambda>_. True) ''v@s/i'' ''v@s'' ''s''" by code_simp+
  have empty: "so_vouches aSocial = []" "so_active aSocial = []" by (simp_all add: aSocial_def)
  have ins: "insertVouch aServer (\<lambda>_. True) aVouch aSocial = Inr ((), vouchedSocial)"
    by (simp add: insertVouch_def insertVouchRow_def vouchRowOf_def getVouch_def liveVouch_def empty texts aVouch_def
        vouchedSocial_def)
  have msg: "vm_voucher_key aVouchMsg = ''v@s/k''" "vm_subject_key aVouchMsg = ''u@s/k''" "vm_signature aVouchMsg = ''g''"
    "vm_note aVouchMsg = ''n''" by (simp_all add: aVouchMsg_def)
  have "resolveActingUser (Some ''v@s'') None u = Some ''v@s''" for u by (simp add: resolveActingUser_def)
  then show ?thesis
    using ins [unfolded aVouch_def]
    by (simp add: createVouch_def v_check countersign_def texts msg Let_def aVouch_def)
qed

theorem vouch_rules_witness:
  "(vouchCall aServer (\<lambda>_. True))\<^sup>*\<^sup>* aSocial vouchedSocial \<and>
     uniqueBy (\<lambda>a. (av_voucher a, av_subject_key a)) (so_active vouchedSocial) \<and> so_active vouchedSocial \<noteq> []"
proof -
  have run: "(vouchCall aServer (\<lambda>_. True))\<^sup>*\<^sup>* aSocial vouchedSocial"
    by (rule r_into_rtranclp) (rule vouchCall.callCreate [OF v_vouches])
  have "so_vouches aSocial = []" "so_active aSocial = []" "so_refs aSocial = []" by (simp_all add: aSocial_def)
  from vouch_rules [OF run this] run show ?thesis by (simp add: vouchedSocial_def)
qed


subsection \<open>An accepted vouch\<close>

lemma insertVouch_stored:
  assumes "insertVouch E uuid7 cert s = Inr (x, s')" and "getVouch s (vc_voucher cert) (vc_subject_key cert) = None"
    and "ss_at (vc_server_sig cert) = truncateSecond now" and "vc_withdrawal cert = None"
  shows "getVouch s' (vc_voucher cert) (vc_subject_key cert) = Some cert"
proof -
  have same: "cert\<lparr>vc_server_sig := (vc_server_sig cert)\<lparr>ss_at := truncateSecond (ss_at (vc_server_sig cert))\<rparr>\<rparr> = cert"
    by (simp add: assms(3))
  have "insertVouchRow cert s = Inr ((), s')"
    using assms(1,2) unfolding insertVouch_def Let_def same by (auto split: if_splits)
  then have "vouchRowOf s (vc_id cert) = None" "liveVouch s (vc_voucher cert) (vc_subject_key cert) = None"
    and "s' = s\<lparr>so_vouches := so_vouches s @ [\<lparr>vo_cert = cert, vo_created = ss_at (vc_server_sig cert)\<rparr>],
      so_active := so_active s @ [\<lparr>av_vouch = vc_id cert, av_voucher = vc_voucher cert,
           av_subject = vc_subject cert, av_subject_key = vc_subject_key cert\<rparr>]\<rparr>"
    using assms(4) by (auto simp: insertVouchRow_def Let_def split: if_splits)
  then show ?thesis
    by (simp add: getVouch_def liveVouch_def vouchRowOf_def rowBy_append find_append)
qed

text \<open>
  C28.  A vouch is newly accepted only from its voucher, for a key of somebody else that isn't
  revoked, with a note that fits and a signature by a key of the voucher's over both keys and the
  note; a subject of this server has their verification window open.  It is then the live vouch of
  its pair, and was not there before.
\<close>

theorem accepted_vouch_is_signed:
  assumes "createVouch E uuid7 call newID now caller peer msg s = (Done st cert, s', f # fx)"
  shows "\<exists>m subject k s1 s2 vk s3. msg = Some m \<and> resolveActingUser caller peer (vm_voucher m) = Some (vc_voucher cert) \<and>
    authorOf (vc_subject_key cert) = Some subject \<and> subject \<noteq> vc_voucher cert \<and>
    keyBelongsTo (trimSpace (vm_voucher_key m)) (vc_voucher cert) \<and>
    e_graphemes E (vm_note m) \<le> maxVouchNoteChars \<and>
    (localSubject E subject \<longrightarrow> verificationWindowOpen s subject now) \<and>
    resolveKey E now (vc_subject_key cert) s = (Inr (Some k), s1) \<and> \<not> key_revoked k \<and>
    resolveKey E now (trimSpace (vm_voucher_key m)) s2 = (Inr (Some vk), s3) \<and>
    e_verify E (buildVouchUserPayload (e_jcs E) (trimSpace (vm_voucher_key m)) (vc_subject_key cert) (vm_note m))
      (trimSpace (vm_signature m)) (key_armor vk) \<and>
    getVouch s (vc_voucher cert) (vc_subject_key cert) = None \<and>
    getVouch s' (vc_voucher cert) (vc_subject_key cert) = Some cert"
proof -
  have "f # fx \<noteq> [] \<or> \<not> sameVouches s s'" by simp
  from createVouch_done [OF assms this] obtain m u subject s1 where m: "msg = Some m" "resolveActingUser caller peer (vm_voucher m) = Some u"
    and g: "vouchGrounds E now u m s subject" and s1: "sameVouches s s1"
    and c: "vc_voucher cert = u" "vc_subject cert = subject" "vc_subject_key cert = trimSpace (vm_subject_key m)"
      "ss_at (vc_server_sig cert) = truncateSecond now" "vc_withdrawal cert = None"
    and ins: "insertVouch E uuid7 cert s1 = Inr ((), s')"
    by blast
  have none: "getVouch s1 (vc_voucher cert) (vc_subject_key cert) = None"
    using vouchGrounds_moved(3) [OF g s1] c by simp
  note live = insertVouch_stored [OF ins none c(4,5)]
  from g obtain k s2 s3 vk s4 where "resolveKey E now (vc_subject_key cert) s = (Inr (Some k), s2)" "\<not> key_revoked k"
    "resolveKey E now (trimSpace (vm_voucher_key m)) s3 = (Inr (Some vk), s4)"
    "e_verify E (buildVouchUserPayload (e_jcs E) (trimSpace (vm_voucher_key m)) (vc_subject_key cert) (vm_note m))
      (trimSpace (vm_signature m)) (key_armor vk)"
    unfolding vouchGrounds_def Let_def c by blast
  moreover have "getVouch s (vc_voucher cert) (vc_subject_key cert) = None"
    using vouchGrounds_moved(3) [OF g sameVouches_refl] c by simp
  moreover have "authorOf (vc_subject_key cert) = Some subject" "subject \<noteq> vc_voucher cert"
    "keyBelongsTo (trimSpace (vm_voucher_key m)) (vc_voucher cert)" "e_graphemes E (vm_note m) \<le> maxVouchNoteChars"
    "localSubject E subject \<longrightarrow> verificationWindowOpen s subject now"
    using g c by (auto simp: vouchGrounds_def Let_def)
  ultimately show ?thesis using m c(1) live by blast
qed

theorem accepted_vouch_is_signed_witness:
  "getVouch vouchedSocial ''v@s'' ''u@s/k'' = Some aVouch \<and> (\<exists>u. authorOf ''u@s/k'' = Some u \<and> u \<noteq> ''v@s'')"
proof -
  have "vc_voucher aVouch = ''v@s''" "vc_subject_key aVouch = ''u@s/k''" by (simp_all add: aVouch_def)
  then show ?thesis using accepted_vouch_is_signed [OF v_vouches] by auto
qed


subsection \<open>The live set and the history\<close>

lemma find_map_activeOf:
  "List.find (\<lambda>a. av_voucher a = u \<and> av_subject_key a = k) (map activeOf rs) =
     map_option activeOf (List.find (\<lambda>r. vouchPair r = (u, k)) rs)"
  by (induction rs) (auto simp: vouchPair_def)

lemma getVouch_history:
  assumes "vouchInv E uuid7 s"
  shows "getVouch s u k = map_option vo_cert (List.find (\<lambda>r. standing r \<and> vouchPair r = (u, k)) (so_vouches s))"
proof -
  have ids: "uniqueBy (vc_id \<circ> vo_cert) (so_vouches s)" and act: "so_active s = map activeOf (filter standing (so_vouches s))"
    using assms by (simp_all add: vouchInv_def)
  have "vouchRowOf s (vc_id (vo_cert r)) = Some r" if "r \<in> set (so_vouches s)" for r
    using rowBy_eq [OF ids that] by (simp add: vouchRowOf_def)
  then show ?thesis
    by (cases "List.find (\<lambda>r. standing r \<and> vouchPair r = (u, k)) (so_vouches s)")
      (auto simp: getVouch_def liveVouch_def act find_map_activeOf find_filter dest: find_SomeD)
qed

text \<open>
  C34.  Whatever the routes did, reading the live set gives what the history gives when the withdrawn
  vouches are left out: the live vouch of a user for a key, the vouches of a user's keys, and the ids
  of the vouches of this server on them.
\<close>

theorem live_set_is_history:
  assumes "(vouchCall E uuid7)\<^sup>*\<^sup>* s s'" and "so_vouches s = []" "so_active s = []" "so_refs s = []"
  shows "getVouch s' u k = map_option vo_cert (List.find (\<lambda>r. vc_withdrawal (vo_cert r) = None \<and>
      vc_voucher (vo_cert r) = u \<and> vc_subject_key (vo_cert r) = k) (so_vouches s')) \<and>
    listVouchesForSubject s' v limit cursor = (let (page, nxt) = keysetPage vouchKey limit cursor
      (filter (\<lambda>r. vc_subject (vo_cert r) = v \<and> vc_withdrawal (vo_cert r) = None) (so_vouches s')) in (map vo_cert page, nxt)) \<and>
    set (listVouchIDsForSubject s' v) =
      {vc_id c | c. \<exists>r \<in> set (so_vouches s'). vo_cert r = c \<and> vc_subject c = v \<and> vc_withdrawal c = None} \<union>
      {vr_vouch r | r. r \<in> set (so_refs s') \<and> vr_subject r = v}"
proof -
  have "vouchInv E uuid7 s" using assms(2-4) by (simp add: vouchInv_def)
  then have inv: "vouchInv E uuid7 s'" by (rule vouchRoutes.inv_reachable [OF assms(1)])
  have live: "filter (\<lambda>r. vc_subject (vo_cert r) = v \<and> isLive s' r) (so_vouches s') =
      filter (\<lambda>r. vc_subject (vo_cert r) = v \<and> vc_withdrawal (vo_cert r) = None) (so_vouches s')"
    using live_row [OF _ inv] by (intro filter_cong) (auto simp: standing_def)
  have "so_active s' = map activeOf (filter standing (so_vouches s'))" using inv by (simp add: vouchInv_def)
  then have "set (listVouchIDsForSubject s' v) =
      {vc_id c | c. \<exists>r \<in> set (so_vouches s'). vo_cert r = c \<and> vc_subject c = v \<and> vc_withdrawal c = None} \<union>
      {vr_vouch r | r. r \<in> set (so_refs s') \<and> vr_subject r = v}"
    by (auto simp: listVouchIDsForSubject_def standing_def filter_map o_def)
  then show ?thesis
    by (simp add: getVouch_history [OF inv] listVouchesForSubject_def live standing_def vouchPair_def)
qed

theorem live_set_is_history_witness:
  "set (listVouchIDsForSubject vouchedSocial ''u@s'') = {''v@s/i''}"
proof -
  have run: "(vouchCall aServer (\<lambda>_. True))\<^sup>*\<^sup>* aSocial vouchedSocial"
    by (rule r_into_rtranclp) (rule vouchCall.callCreate [OF v_vouches])
  have none: "so_vouches aSocial = []" "so_active aSocial = []" "so_refs aSocial = []" by (simp_all add: aSocial_def)
  have rows: "so_vouches vouchedSocial = [\<lparr>vo_cert = aVouch, vo_created = second\<rparr>]" "so_refs vouchedSocial = []"
    by (simp_all add: vouchedSocial_def aSocial_def)
  show ?thesis
    using live_set_is_history [OF run none, where v = "''u@s''"] unfolding rows by (simp add: aVouch_def)
qed

subsection \<open>Listings\<close>

text \<open>A client that follows the cursors of \<open>listMyVouches\<close>, and one of a subject's vouches.\<close>

fun followMyVouches :: "social \<Rightarrow> string option \<Rightarrow> string \<Rightarrow> nat \<Rightarrow> (gotime \<times> string) option \<Rightarrow> vouchCert list" where
  "followMyVouches s caller rawLimit 0 cursor = []"
| "followMyVouches s caller rawLimit (Suc n) cursor = (case listMyVouches s caller rawLimit cursor of
     Fail st why \<Rightarrow> []
   | Done st (page, None) \<Rightarrow> page
   | Done st (page, Some c) \<Rightarrow> page @ followMyVouches s caller rawLimit n (Some c))"

lemma followMyVouches_pages:
  assumes "u \<noteq> ''''"
  shows "followMyVouches s (Some u) rawLimit n cursor = map vo_cert (concat (keysetPages vouchKey
     (nat (vouchPageLimit rawLimit)) (filter (\<lambda>r. vc_voucher (vo_cert r) = u) (so_vouches s)) n cursor))"
  using assms
  by (induction n arbitrary: cursor)
    (simp_all add: listMyVouches_def listVouchesByVoucher_def case_prod_beta split: prod.split option.split)

text \<open>
  A user who follows the cursors sees every vouch they ever made, withdrawn ones too, each once
  and newest first, whatever page size they ask for; one page for each vouch is always enough.
\<close>

theorem own_vouches_listed:
  assumes "(vouchCall E uuid7)\<^sup>*\<^sup>* s s'" and "so_vouches s = []" "so_active s = []" "so_refs s = []"
    and "\<forall>r \<in> set (so_vouches s'). \<not> isZeroTime (vo_created r)" and "u \<noteq> ''''" "length (so_vouches s') \<le> n" "0 < n"
  shows "\<exists>rs. followMyVouches s' (Some u) rawLimit n None = map vo_cert rs \<and> distinct rs \<and>
    set rs = {r \<in> set (so_vouches s'). vc_voucher (vo_cert r) = u} \<and> sorted_wrt (\<lambda>a b. vouchKey b < vouchKey a) rs"
proof -
  have "vouchInv E uuid7 s" using assms(2-4) by (simp add: vouchInv_def)
  then have inv: "vouchInv E uuid7 s'" by (rule vouchRoutes.inv_reachable [OF assms(1)])
  let ?rows = "filter (\<lambda>r. vc_voucher (vo_cert r) = u) (so_vouches s')"
  have pos: "0 < vouchCooldown" by (simp add: vouchCooldown_def hour_def minute_def second_def)
  have "sorted_wrt (\<lambda>r q. vouchKey r \<noteq> vouchKey q) ?rows"
  proof (rule sorted_wrt_mono_rel)
    show "sorted_wrt vouchSpaced ?rows" using inv by (simp add: vouchInv_def sorted_wrt_filter)
    fix r q assume "r \<in> set ?rows" "q \<in> set ?rows" "vouchSpaced r q"
    then show "vouchKey r \<noteq> vouchKey q"
      using inv assms(5) pos
      by (auto simp: vouchInv_def vouchRowFits_def Let_def vouchSpaced_def sameVouchPair_def vouchKey_def)
  qed
  then have uni: "uniqueBy vouchKey ?rows" by (rule sorted_wrt_uniqueBy)
  have lim: "1 \<le> nat (vouchPageLimit rawLimit)" using vouchPageLimit_bounds [of rawLimit] by linarith
  then have "length ?rows \<le> n * nat (vouchPageLimit rawLimit)"
    using assms(7) length_filter_le [of "\<lambda>r. vc_voucher (vo_cert r) = u" "so_vouches s'"]
    by (metis le_trans mult.right_neutral mult_le_mono2)
  then have all: "concat (keysetPages vouchKey (nat (vouchPageLimit rawLimit)) ?rows n None) = keysetOrder vouchKey ?rows"
    using lim assms(8) by (intro keysetPages_complete [OF uni]) simp_all
  have dec: "sorted_wrt (\<lambda>a b. vouchKey b < vouchKey a) (keysetOrder vouchKey ?rows)"
    by (rule keysetOrder_decreasing [OF uni])
  have "distinct (keysetOrder vouchKey ?rows)"
    using uni by (simp add: keysetOrder_def distinct_map)
  then show ?thesis
    using followMyVouches_pages [OF assms(6)] all dec by (intro exI [of _ "keysetOrder vouchKey ?rows"]) auto
qed

theorem own_vouches_listed_witness:
  "followMyVouches vouchedSocial (Some ''v@s'') ''1'' 1 None = [aVouch]"
proof -
  have run: "(vouchCall aServer (\<lambda>_. True))\<^sup>*\<^sup>* aSocial vouchedSocial"
    by (rule r_into_rtranclp) (rule vouchCall.callCreate [OF v_vouches])
  have none: "so_vouches aSocial = []" "so_active aSocial = []" "so_refs aSocial = []" by (simp_all add: aSocial_def)
  have rows: "so_vouches vouchedSocial = [\<lparr>vo_cert = aVouch, vo_created = second\<rparr>]" by (simp add: vouchedSocial_def)
  obtain rs where rs: "followMyVouches vouchedSocial (Some ''v@s'') ''1'' 1 None = map vo_cert rs" "distinct rs"
    "set rs = {r \<in> set (so_vouches vouchedSocial). vc_voucher (vo_cert r) = ''v@s''}"
    using own_vouches_listed [OF run none, of "''v@s''" 1 "''1''"] by (auto simp: rows isZeroTime_def second_def)
  have "set rs = {\<lparr>vo_cert = aVouch, vo_created = second\<rparr>}"
    unfolding rs(3) by (auto simp: rows aVouch_def)
  moreover from this have "length rs = 1" using distinct_card [OF rs(2)] by simp
  ultimately have "rs = [\<lparr>vo_cert = aVouch, vo_created = second\<rparr>]" by (cases rs) auto
  then show ?thesis using rs(1) by simp
qed


subsection \<open>A page border in a subject's list\<close>

text \<open>
  The cursor of a subject's list names the second and the key, which two users' vouches for one key
  share: here \<open>a\<close> vouches for \<open>u\<close>'s key in the second \<open>v\<close> did.
\<close>

definition bVouchMsg :: vouchMsg where
  "bVouchMsg = aVouchMsg\<lparr>vm_voucher_key := ''a@s/k''\<rparr>"

definition bVouch :: vouchCert where
  "bVouch = aVouch\<lparr>vc_id := ''a@s/i'', vc_voucher := ''a@s'', vc_voucher_key := ''a@s/k'',
     vc_sig := \<lparr>us_id = ''a@s/k'', us_armor = ''g''\<rparr>\<rparr>"

definition twiceVouched :: social where
  "twiceVouched = vouchedSocial\<lparr>so_vouches := so_vouches vouchedSocial @ [\<lparr>vo_cert = bVouch, vo_created = second\<rparr>],
     so_active := so_active vouchedSocial @
       [\<lparr>av_vouch = ''a@s/i'', av_voucher = ''a@s'', av_subject = ''u@s'', av_subject_key = ''u@s/k''\<rparr>]\<rparr>"

lemma b_check: "checkNewVouch aServer second ''a@s'' bVouchMsg vouchedSocial = (VouchReady ''u@s'', vouchedSocial)"
proof -
  have texts: "trimSpace ''a@s/k'' = ''a@s/k''" "trimSpace ''u@s/k'' = ''u@s/k''" "trimSpace ''g'' = ''g''"
    "authorOf ''u@s/k'' = Some ''u@s''" "keyBelongsTo ''a@s/k'' ''a@s''"
    "\<not> maxVouchNoteChars < e_graphemes aServer ''n''" by code_simp+
  have open_: "verificationWindowOpen vouchedSocial ''u@s'' second"
    by (simp add: verificationWindowOpen_def vouchedSocial_def aSocial_def windowLive_def verificationWindowTTL_def
        minute_def second_def)
  have new: "getVouch vouchedSocial ''a@s'' ''u@s/k'' = None" "isZeroTime (lastVouchCreatedAt vouchedSocial ''a@s'' ''u@s/k'')"
    by (simp_all add: getVouch_def liveVouch_def lastVouchCreatedAt_def vouchTimes_def maxTime_def isZeroTime_def
        vouchedSocial_def aVouch_def)
  have "getPublicKey aDb ''a@s/k'' = Some \<lparr>key_id = ''a@s/k'', key_user = ''a@s'',
      key_armor = ''k'', key_revoked = False, key_restricted = False\<rparr>" by code_simp
  then have keys: "resolveKey aServer second ''u@s/k'' vouchedSocial = (Inr (Some \<lparr>key_id = ''u@s/k'', key_user = ''u@s'',
      key_armor = ''k'', key_revoked = False, key_restricted = False\<rparr>), vouchedSocial)"
    "resolveKey aServer second ''a@s/k'' vouchedSocial = (Inr (Some \<lparr>key_id = ''a@s/k'', key_user = ''a@s'',
      key_armor = ''k'', key_revoked = False, key_restricted = False\<rparr>), vouchedSocial)"
    using u_key [of second] by (simp_all add: resolveKey_def resolvePublicKey_def vouchedSocial_def aSocial_def)
  show ?thesis
    by (simp add: checkNewVouch_def bVouchMsg_def aVouchMsg_def texts keys new open_ Let_def)
qed

lemma b_vouches: "createVouch aServer (\<lambda>_. True) call ''i'' second (Some ''a@s'') None (Some bVouchMsg) vouchedSocial =
    (Done 200 bVouch, twiceVouched, [VouchCreated ''u@s'' ''a@s/i''])"
proof -
  have texts: "trimSpace ''a@s/k'' = ''a@s/k''" "trimSpace ''u@s/k'' = ''u@s/k''" "trimSpace ''g'' = ''g''"
    "appendEntity ''a@s'' ''i'' = ''a@s/i''" "\<not> foreignSubject aServer ''u@s''" "canonicalID ''s'' ''f'' = ''f@s''"
    "validateVouchID (\<lambda>_. True) ''a@s/i'' ''a@s'' ''s''" by code_simp+
  have ins: "insertVouch aServer (\<lambda>_. True) bVouch vouchedSocial = Inr ((), twiceVouched)"
    by (simp add: insertVouch_def insertVouchRow_def vouchRowOf_def getVouch_def liveVouch_def texts aVouch_def
        bVouch_def vouchedSocial_def twiceVouched_def)
  have msg: "vm_voucher_key bVouchMsg = ''a@s/k''" "vm_subject_key bVouchMsg = ''u@s/k''" "vm_signature bVouchMsg = ''g''"
    "vm_note bVouchMsg = ''n''" by (simp_all add: bVouchMsg_def aVouchMsg_def)
  have "resolveActingUser (Some ''a@s'') None u = Some ''a@s''" for u by (simp add: resolveActingUser_def)
  then show ?thesis
    using ins [unfolded bVouch_def aVouch_def]
    by (simp add: createVouch_def b_check countersign_def texts msg Let_def bVouch_def aVouch_def)
qed

lemma subject_border_skips:
  "\<exists>s page c. (vouchCall aServer (\<lambda>_. True))\<^sup>*\<^sup>* aSocial s \<and> length (so_active s) = 2 \<and>
     (\<forall>a \<in> set (so_active s). av_subject a = ''u@s'') \<and>
     listVouchesForSubject s ''u@s'' 1 None = ([page], Some c) \<and> listVouchesForSubject s ''u@s'' 1 (Some c) = ([], None)"
proof -
  have "vouchCall aServer (\<lambda>_. True) aSocial vouchedSocial" by (rule vouchCall.callCreate [OF v_vouches])
  moreover have "vouchCall aServer (\<lambda>_. True) vouchedSocial twiceVouched" by (rule vouchCall.callCreate [OF b_vouches])
  ultimately have run: "(vouchCall aServer (\<lambda>_. True))\<^sup>*\<^sup>* aSocial twiceVouched" by simp
  let ?r = "\<lparr>vo_cert = aVouch, vo_created = second\<rparr>" and ?q = "\<lparr>vo_cert = bVouch, vo_created = second\<rparr>"
  have rows: "filter (\<lambda>r. vc_subject (vo_cert r) = ''u@s'' \<and> isLive twiceVouched r) (so_vouches twiceVouched) = [?r, ?q]"
    by (simp add: isLive_def twiceVouched_def vouchedSocial_def aVouch_def bVouch_def)
  have key: "vouchKey ?r = (second, ''u@s/k'')" "vouchKey ?q = (second, ''u@s/k'')"
    by (simp_all add: vouchKey_def aVouch_def bVouch_def)
  have "listVouchesForSubject twiceVouched ''u@s'' 1 None = ([bVouch], Some (second, ''u@s/k''))"
    "listVouchesForSubject twiceVouched ''u@s'' 1 (Some (second, ''u@s/k'')) = ([], None)"
    by (simp_all add: listVouchesForSubject_def rows keysetPage_def keysetOrder_def key)
  moreover have "length (so_active twiceVouched) = 2" "\<forall>a \<in> set (so_active twiceVouched). av_subject a = ''u@s''"
    by (simp_all add: twiceVouched_def vouchedSocial_def)
  ultimately show ?thesis using run by blast
qed

end
