(* ===== verification/FollowRules.thy ===== *)
theory FollowRules
  imports SmallServer Follows VouchRules "HOL-Library.Multiset"
begin

text \<open>
  The rules of the follow and block tables over runs of their routes: the edges are the active
  certificates, an unfollow stays only while it is owed, and nobody follows a user of this server who
  blocks them.
\<close>

definition localUser :: "env \<Rightarrow> string \<Rightarrow> bool" where
  "localUser E u \<longleftrightarrow> identityServerID u = Some (e_server_id E)"

text \<open>A user id proper has no slash; an id with one may name two servers at once.\<close>

definition plainLocal :: "env \<Rightarrow> string \<Rightarrow> bool" where
  "plainLocal E u \<longleftrightarrow> localUser E u \<and> CHR ''/'' \<notin> set u"

definition follows :: "social \<Rightarrow> string \<Rightarrow> string \<Rightarrow> bool" where
  "follows s a b \<longleftrightarrow> (\<exists>f \<in> set (so_follows s). fw_follower f = a \<and> fw_followee f = b \<and> fw_follow f)"

lemma follows_fields [simp]:
  "follows (s\<lparr>so_blocks := bs\<rparr>) = follows s" "follows (s\<lparr>so_db := d\<rparr>) = follows s"
  "follows (s\<lparr>so_follow_queue := q\<rparr>) = follows s"
  by (simp_all add: fun_eq_iff follows_def)

definition followPair :: "followCert \<Rightarrow> string \<times> string" where
  "followPair f = (fw_follower f, fw_followee f)"

definition blockPair :: "blockCert \<Rightarrow> string \<times> string" where
  "blockPair c = (bk_user c, bk_blocked c)"

text \<open>The edges of local users are the active certificates.\<close>

definition edgesFit :: "env \<Rightarrow> social \<Rightarrow> bool" where
  "edgesFit E s \<longleftrightarrow> distinct (so_following s) \<and> distinct (so_followers s) \<and>
     (\<forall>a b. (a, b) \<in> set (so_following s) \<longleftrightarrow> localUser E a \<and> follows s a b) \<and>
     (\<forall>a b. (b, a) \<in> set (so_followers s) \<longleftrightarrow> localUser E b \<and> follows s a b)"

text \<open>An unfollow is owed to somebody, but for the pair \<open>p\<close> a transaction is at; what is owed has a certificate.\<close>

definition owedFits :: "(string \<times> string) option \<Rightarrow> social \<Rightarrow> bool" where
  "owedFits p s \<longleftrightarrow> (\<forall>f \<in> set (so_follows s). fw_follow f \<or> p = Some (followPair f) \<or> followOwed s (fw_follower f) (fw_followee f)) \<and>
     set (so_follow_queue s) \<subseteq> followPair ` set (so_follows s)"

definition blocksHold :: "env \<Rightarrow> social \<Rightarrow> bool" where
  "blocksHold E s \<longleftrightarrow> (\<forall>c \<in> set (so_blocks s). plainLocal E (bk_user c) \<longrightarrow>
     \<not> hasAccountRemovalQ (so_db s) (bk_user c) \<longrightarrow> \<not> follows s (bk_blocked c) (bk_user c))"

definition followInv :: "env \<Rightarrow> (string \<times> string) option \<Rightarrow> social \<Rightarrow> bool" where
  "followInv E p s \<longleftrightarrow> uniqueBy followPair (so_follows s) \<and> uniqueBy blockPair (so_blocks s) \<and>
     (\<forall>c \<in> set (so_blocks s). bk_user c \<noteq> bk_blocked c) \<and> edgesFit E s \<and> owedFits p s \<and> blocksHold E s"

subsection \<open>What leaves the tables alone\<close>

definition followEvents :: "db \<Rightarrow> (string \<times> string option) set" where
  "followEvents d = (\<lambda>e. (pe_subject e, pe_object e)) ` {e \<in> set (db_peer_queue d). pe_kind e = peerEventFollow}"

text \<open>No follow owed to a peer is lost, no removal is undone.\<close>

definition keepsDb :: "db \<Rightarrow> db \<Rightarrow> bool" where
  "keepsDb d d' \<longleftrightarrow> followEvents d \<subseteq> followEvents d' \<and> rm_user ` set (db_removals d) \<subseteq> rm_user ` set (db_removals d')"

definition sameFollows :: "social \<Rightarrow> social \<Rightarrow> bool" where
  "sameFollows s s' \<longleftrightarrow> so_follows s' = so_follows s \<and> so_following s' = so_following s \<and>
     so_followers s' = so_followers s \<and> so_follow_queue s' = so_follow_queue s \<and> so_blocks s' = so_blocks s \<and>
     keepsDb (so_db s) (so_db s')"

lemma keepsDb_refl [simp]: "keepsDb d d"
  by (simp add: keepsDb_def)

lemma keepsDb_trans: "keepsDb d e \<Longrightarrow> keepsDb e f \<Longrightarrow> keepsDb d f"
  unfolding keepsDb_def by (meson subset_trans)

lemma keepsDb_same: "db_peer_queue d' = db_peer_queue d \<Longrightarrow> db_removals d' = db_removals d \<Longrightarrow> keepsDb d d'"
  by (simp add: keepsDb_def followEvents_def)

lemma keepsDb_enqueueRow [simp]: "keepsDb d (enqueueRow p k u ob d)"
  by (auto simp: keepsDb_def followEvents_def enqueueRow_def)

lemma keepsDb_enqueueFor [simp]: "keepsDb d (enqueuePeerEventForTx p k u ob d)"
proof -
  have "followEvents (d\<lparr>db_peer_queue := updWhere c (\<lambda>e. e\<lparr>pe_id := n\<rparr>) (db_peer_queue d), db_peer_seq := m\<rparr>) = followEvents d" for c n m
    by (auto simp: followEvents_def set_updWhere image_iff) (metis peerEventRow.select_convs peerEventRow.update_convs(1) peerEventRow.surjective)+
  then show ?thesis using keepsDb_enqueueRow by (simp add: enqueuePeerEventForTx_def) (simp add: keepsDb_def)
qed

lemma followOwed_events:
  "followOwed s a b \<longleftrightarrow> (a, b) \<in> set (so_follow_queue s) \<or> (a, Some b) \<in> followEvents (so_db s)"
  by (auto simp: followOwed_def followEvents_def peerEventFollow_def image_iff)


lemma sameFollows_refl [simp]: "sameFollows s s"
  by (simp add: sameFollows_def)

lemma sameFollows_trans: "sameFollows s t \<Longrightarrow> sameFollows t u \<Longrightarrow> sameFollows s u"
  unfolding sameFollows_def using keepsDb_trans by metis

lemma sameFollows_inv:
  assumes "sameFollows s s'" and "followInv E p s"
  shows "followInv E p s'"
proof -
  have f: "follows s' = follows s" using assms(1) by (simp add: fun_eq_iff follows_def sameFollows_def)
  have o: "followOwed s a b \<Longrightarrow> followOwed s' a b" for a b
    using assms(1) by (auto simp: followOwed_events sameFollows_def keepsDb_def)
  have r: "hasAccountRemovalQ (so_db s) u \<Longrightarrow> hasAccountRemovalQ (so_db s') u" for u
    using assms(1) by (auto simp: hasAccountRemovalQ_def sameFollows_def keepsDb_def)
  have eq: "so_follows s' = so_follows s" "so_following s' = so_following s" "so_followers s' = so_followers s"
    "so_follow_queue s' = so_follow_queue s" "so_blocks s' = so_blocks s"
    using assms(1) by (simp_all add: sameFollows_def)
  have "edgesFit E s' = edgesFit E s" by (simp add: edgesFit_def eq f)
  moreover have "owedFits p s \<Longrightarrow> owedFits p s'" by (auto simp: owedFits_def eq intro: o)
  moreover have "blocksHold E s \<Longrightarrow> blocksHold E s'" by (auto simp: blocksHold_def eq f dest: r)
  ultimately show ?thesis using assms(2) by (simp add: followInv_def eq)
qed

lemma resolvePublicKey_keeps: "resolvePublicKey E now i d = Inr (k, d') \<Longrightarrow> keepsDb d d'"
  by (rule keepsDb_same)
    (auto simp: resolvePublicKey_def verifyAndCachePeerUserKey_def bindR_Inr cachePeerUserKey_def
      upsertIdentity_def Let_def split: option.splits if_splits)

lemma resolveKey_follows: "resolveKey E now i s = (r, s') \<Longrightarrow> sameFollows s s'"
  by (auto simp: resolveKey_def sameFollows_def dest: resolvePublicKey_keeps split: sum.splits prod.splits)

lemma recordRemote_follows [simp]: "sameFollows s (recordRemoteIdentity u s)"
  by (simp add: recordRemoteIdentity_def sameFollows_def upsertIdentity_def keepsDb_same)

lemma activeKey_follows: "activeKey E now i s = (r, s') \<Longrightarrow> sameFollows s s'"
  by (auto simp: activeKey_def dest!: resolveKey_follows split: sum.splits prod.splits option.splits)

lemma blockTarget_follows: "blockTarget E b s = (r, s') \<Longrightarrow> sameFollows s s'"
  by (auto simp: blockTarget_def split: option.splits sum.splits)

lemma followPeer_follows: "followPeer E b s = (r, s') \<Longrightarrow> sameFollows s s'"
  by (auto simp: followPeer_def split: option.splits)

lemma oweBlock_follows [simp]: "sameFollows s (oweBlockEventTx E u b k s)"
  by (simp add: oweBlockEventTx_def setBlockEvent_def sameFollows_def split: option.split)

lemma removal_keeps:
  assumes "insertAccountRemovalCert E cert d = (r, d')"
  shows "keepsDb d d'"
proof -
  define u where "u = canonicalID (e_server_id E) (ac_user cert)"
  have queue: "db_peer_queue (settleAccountRemovalTx u e) = db_peer_queue e" for e by simp
  have "followEvents d \<subseteq> followEvents (removalCore row u d)" for row
  proof -
    have "keepsDb e (fold (\<lambda>p. enqueueRow p k v None) ps e)" for k v ps e
      by (induction ps arbitrary: e) (auto intro: keepsDb_trans [OF keepsDb_enqueueRow])
    then have step: "followEvents e \<subseteq> followEvents (fold (\<lambda>p. enqueueRow p k v None) ps e)" for k v ps e
      by (simp add: keepsDb_def)
    show ?thesis
      using step [of "settleAccountRemovalTx u (d\<lparr>db_removals := db_removals d @ [row]\<rparr>)"]
      by (simp add: removalCore_def enqueuePeerEventTx_def followEvents_def)
  qed
  then have core: "keepsDb d (bumpActiveUsers n (updUser u f (removalCore row u d)))" for n f row
    by (auto simp: keepsDb_def bumpActiveUsers_def updUser_def followEvents_def)
  have "d' = d \<or> (\<exists>x. storeAccountRemovalTx E cert u d = Inr (x, d'))"
    using assms by (auto simp: insertAccountRemovalCert_def withAdminTx_def u_def split: sum.splits prod.splits)
  then show ?thesis by (auto elim!: storeAccountRemovalTx_cases intro: core)
qed


subsection \<open>The operations\<close>

lemma getFollowCert_None: "getFollowCert s a b = None \<longleftrightarrow> (a, b) \<notin> followPair ` set (so_follows s)"
  by (auto simp: getFollowCert_def find_None_iff followPair_def image_iff)

lemma getFollowCert_Some: "getFollowCert s a b = Some f \<Longrightarrow> f \<in> set (so_follows s) \<and> followPair f = (a, b)"
  by (auto simp: getFollowCert_def find_Some_iff followPair_def)

lemma getBlock_None: "getBlock s u b = None \<longleftrightarrow> (u, b) \<notin> blockPair ` set (so_blocks s)"
  by (auto simp: getBlock_def find_None_iff blockPair_def image_iff)

lemma set_setEdge: "x \<in> set (setEdge on e es) \<longleftrightarrow> (if x = e then on else x \<in> set es)"
  by (auto simp: setEdge_def)

lemma distinct_setEdge: "distinct es \<Longrightarrow> distinct (setEdge on e es)"
  by (simp add: setEdge_def)

lemma so_follows_put: "so_follows (putFollowCert c s) =
   (if followPair c \<in> followPair ` set (so_follows s)
    then map (\<lambda>f. if followPair f = followPair c then c else f) (so_follows s) else so_follows s @ [c])"
proof -
  have same: "(fw_follower f = fw_follower c \<and> fw_followee f = fw_followee c) \<longleftrightarrow> followPair f = followPair c" for f
    by (simp add: followPair_def)
  show ?thesis
    by (simp add: putFollowCert_def getFollowCert_None same updWhere_def) (simp add: followPair_def)
qed

lemma in_put: "f \<in> set (so_follows (putFollowCert c s)) \<longleftrightarrow> f = c \<or> (f \<in> set (so_follows s) \<and> followPair f \<noteq> followPair c)"
  unfolding so_follows_put by (auto simp: image_iff)

lemma follows_put:
  "follows (putFollowCert c s) a b \<longleftrightarrow> (if (a, b) = followPair c then fw_follow c else follows s a b)"
  by (auto simp: follows_def in_put followPair_def)

lemma map_put: "map followPair (so_follows (putFollowCert c s)) =
   (if followPair c \<in> followPair ` set (so_follows s) then map followPair (so_follows s)
    else map followPair (so_follows s) @ [followPair c])"
  by (auto simp: so_follows_put)

lemma set_put: "followPair ` set (so_follows (putFollowCert c s)) = insert (followPair c) (followPair ` set (so_follows s))"
  using arg_cong [OF map_put, of set c s] by (auto split: if_splits)

lemma unique_put: "uniqueBy followPair (so_follows s) \<Longrightarrow> uniqueBy followPair (so_follows (putFollowCert c s))"
  by (auto simp: map_put)

lemma put_frame: "(putFollowCert c s)\<lparr>so_follows := fs\<rparr> = s\<lparr>so_follows := fs\<rparr>"
  by (simp add: putFollowCert_def)

lemma put_fields [simp]: "so_following (putFollowCert c s) = so_following s" "so_followers (putFollowCert c s) = so_followers s"
  "so_follow_queue (putFollowCert c s) = so_follow_queue s" "so_blocks (putFollowCert c s) = so_blocks s"
  "so_db (putFollowCert c s) = so_db s"
  by (simp_all add: putFollowCert_def)

lemma deleteFollowCert_follows:
  "follows (deleteFollowCert a b s) x y \<longleftrightarrow> (x, y) \<noteq> (a, b) \<and> follows s x y"
  by (auto simp: deleteFollowCert_def follows_def)

text \<open>Deleting a certificate whose edges are gone.\<close>

lemma deleteFollowCert_inv:
  assumes "followInv E p s" and "\<not> follows s a b"
  shows "followInv E p (deleteFollowCert a b s) \<and> (p = Some (a, b) \<longrightarrow> followInv E None (deleteFollowCert a b s))"
proof -
  have f: "follows (deleteFollowCert a b s) = follows s"
    using assms(2) by (auto simp: fun_eq_iff deleteFollowCert_follows)
  have "owedFits p (deleteFollowCert a b s) \<and> (p = Some (a, b) \<longrightarrow> owedFits None (deleteFollowCert a b s))"
    using assms(1) by (auto simp: followInv_def owedFits_def deleteFollowCert_def followOwed_def followPair_def)
  then show ?thesis
    using assms(1) by (simp add: followInv_def edgesFit_def blocksHold_def f)
      (simp add: deleteFollowCert_def uniqueBy_filter)
qed

lemma dropSettled_inv:
  assumes "followInv E p s" and "p = None \<or> p = Some (a, b)"
  shows "followInv E None (dropSettledUnfollowTx a b s)"
proof (cases "getFollowCert s a b")
  case None
  then have "(a, b) \<notin> followPair ` set (so_follows s)" by (simp add: getFollowCert_None)
  then have "owedFits None s" using assms by (auto simp: followInv_def owedFits_def)
  then show ?thesis using assms(1) by (simp add: dropSettledUnfollowTx_def None followInv_def)
next
  case (Some f)
  note f = getFollowCert_Some [OF Some]
  show ?thesis
  proof (cases "fw_follow f \<or> followOwed s a b")
    case True
    have "g = f" if "g \<in> set (so_follows s)" "followPair g = (a, b)" for g
      using that f assms(1) uniqueBy_inj by (fastforce simp: followInv_def)
    then have "owedFits None s"
      using True assms f by (auto simp: followInv_def owedFits_def followPair_def)
    then show ?thesis using True assms(1) by (simp add: dropSettledUnfollowTx_def Some followInv_def)
  next
    case False
    have "\<not> follows s a b"
      using False f assms(1) uniqueBy_inj by (fastforce simp: follows_def followInv_def followPair_def)
    then show ?thesis
      using deleteFollowCert_inv [OF assms(1)] assms(2) False by (auto simp: dropSettledUnfollowTx_def Some)
  qed
qed


text \<open>Saving: the certificate and its edges, what it owes, and an unfollow nobody is owed.\<close>

lemma localUser_server: "localUser E u \<longleftrightarrow> identityServerID u = Some (e_server_id E)"
  by (simp add: localUser_def)

lemma save_edges:
  assumes "followInv E None s"
    and blocks: "fw_follow c \<Longrightarrow> plainLocal E (fw_followee c) \<Longrightarrow>
      getBlock s (fw_followee c) (fw_follower c) = None \<or> hasAccountRemovalQ (so_db s) (fw_followee c)"
  shows "followInv E (Some (followPair c)) (setFollowEdgesTx E (fw_follower c) (fw_followee c) (fw_follow c) (putFollowCert c s))"
    (is "followInv E _ ?s")
proof -
  have f: "follows ?s a b \<longleftrightarrow> (if (a, b) = followPair c then fw_follow c else follows s a b)" for a b
    using follows_put [of c s] by (simp add: setFollowEdgesTx_def follows_def)
  have fs: "so_follows ?s = so_follows (putFollowCert c s)" "so_blocks ?s = so_blocks s" "so_db ?s = so_db s"
    "so_follow_queue ?s = so_follow_queue s"
    by (simp_all add: setFollowEdgesTx_def)
  have "edgesFit E ?s"
    unfolding edgesFit_def f
    using assms(1) by (auto simp: followInv_def edgesFit_def setFollowEdgesTx_def set_setEdge distinct_setEdge
        localUser_server followPair_def)
  moreover have "owedFits (Some (followPair c)) ?s"
  proof -
    have "followOwed ?s = followOwed s" by (auto simp: fun_eq_iff followOwed_def fs)
    then show ?thesis
      using assms(1) set_put [of c s] by (auto simp: followInv_def owedFits_def fs in_put)
  qed
  moreover have "blocksHold E ?s"
    using assms(1) blocks by (force simp: followInv_def blocksHold_def fs f getBlock_None blockPair_def followPair_def)
  ultimately show ?thesis
    using assms(1) by (simp add: followInv_def fs unique_put)
qed

lemma oweFollow_inv:
  assumes "followInv E p s" and "(a, b) \<in> followPair ` set (so_follows s)"
  shows "followInv E p (oweFollowCertTx E a b s)"
proof -
  let ?t = "s\<lparr>so_follow_queue := setEdge True (a, b) (so_follow_queue s)\<rparr>"
  have q: "set (so_follow_queue ?t) = insert (a, b) (set (so_follow_queue s))" by (simp add: setEdge_def insert_absorb)
  then have o: "followOwed s x y \<Longrightarrow> followOwed ?t x y" for x y by (auto simp: followOwed_events)
  have "owedFits p ?t" using assms unfolding followInv_def owedFits_def q by (auto intro: o)
  then have queue: "followInv E p ?t"
    using assms(1) by (simp add: followInv_def edgesFit_def blocksHold_def)
  have "sameFollows s (s\<lparr>so_db := enqueuePeerEventForTx v peerEventFollow a b (so_db s)\<rparr>)" for v
    by (simp add: sameFollows_def)
  then show ?thesis
    using queue sameFollows_inv [OF _ assms(1)] by (auto simp: oweFollowCertTx_def split: option.split)
qed

lemma saveFollowCertTx_inv:
  assumes "saveFollowCertTx E cert owe s = (applied, s')" and "followInv E None s"
    and "fw_follow cert \<Longrightarrow> plainLocal E (fw_followee cert) \<Longrightarrow>
      getBlock s (fw_followee cert) (fw_follower cert) = None \<or> hasAccountRemovalQ (so_db s) (fw_followee cert)"
  shows "followInv E None s'"
proof -
  define c where "c = truncateFollow cert"
  have c: "fw_follower c = fw_follower cert" "fw_followee c = fw_followee cert" "fw_follow c = fw_follow cert"
    by (simp_all add: c_def truncateFollow_def)
  define s1 where "s1 = setFollowEdgesTx E (fw_follower c) (fw_followee c) (fw_follow c) (putFollowCert c s)"
  have inv1: "followInv E (Some (followPair c)) s1"
    unfolding s1_def using assms(2,3) by (intro save_edges) (auto simp: c)
  have "followPair c \<in> followPair ` set (so_follows s1)"
    using set_put [of c s] by (simp add: s1_def setFollowEdgesTx_def)
  then have inv2: "followInv E (Some (followPair c)) (if owe then oweFollowCertTx E (fw_follower c) (fw_followee c) s1 else s1)"
    using inv1 oweFollow_inv by (auto simp: followPair_def)
  have "s' = s \<or> s' = dropSettledUnfollowTx (fw_follower c) (fw_followee c)
      (if owe then oweFollowCertTx E (fw_follower c) (fw_followee c) s1 else s1)"
    using assms(1) by (auto simp: saveFollowCertTx_def Let_def c_def s1_def split: if_splits)
  then show ?thesis
    using assms(2) dropSettled_inv [OF inv2] by (auto simp: followPair_def)
qed


lemma setEdges_off_inv:
  assumes "followInv E None s"
  shows "followInv E None (deleteFollowCert a b (setFollowEdgesTx E a b False s))"
proof -
  let ?t = "deleteFollowCert a b (setFollowEdgesTx E a b False s)"
  have f: "follows ?t x y \<longleftrightarrow> (x, y) \<noteq> (a, b) \<and> follows s x y" for x y
    unfolding deleteFollowCert_follows by (simp add: setFollowEdgesTx_def follows_def)
  have "edgesFit E ?t"
    unfolding edgesFit_def f using assms
    by (auto simp: followInv_def edgesFit_def deleteFollowCert_def setFollowEdgesTx_def set_setEdge distinct_setEdge
        localUser_server)
  moreover have "owedFits None ?t"
    using assms by (auto simp: followInv_def owedFits_def deleteFollowCert_def setFollowEdgesTx_def followOwed_def followPair_def)
  moreover have "blocksHold E ?t"
    unfolding blocksHold_def f using assms
    by (auto simp: followInv_def blocksHold_def deleteFollowCert_def setFollowEdgesTx_def)
  ultimately show ?thesis
    using assms by (simp add: followInv_def deleteFollowCert_def setFollowEdgesTx_def uniqueBy_filter)
qed

lemma undoRefused_inv: "followInv E None s \<Longrightarrow> followInv E None (undoRefusedFollow E a b t s)"
  by (simp add: undoRefusedFollow_def setEdges_off_inv split: option.split)

lemma ackFollowEvent_inv:
  assumes "followInv E None s"
  shows "followInv E None (ackFollowEvent a b follow s)"
proof -
  let ?t = "s\<lparr>so_follow_queue := filter (\<lambda>e. e \<noteq> (a, b)) (so_follow_queue s)\<rparr>"
  have "owedFits (Some (a, b)) ?t"
    using assms by (auto simp: followInv_def owedFits_def followOwed_def followPair_def)
  then have "followInv E (Some (a, b)) ?t"
    using assms by (simp add: followInv_def edgesFit_def blocksHold_def)
  then show ?thesis
    using dropSettled_inv assms by (simp add: ackFollowEvent_def)
qed

text \<open>The drain takes a follow event off the queue and then settles its pair.\<close>

definition isFollowEvent :: "nat \<Rightarrow> string \<Rightarrow> string \<Rightarrow> db \<Rightarrow> bool" where
  "isFollowEvent i a b d \<longleftrightarrow> (\<forall>e \<in> set (db_peer_queue d). pe_id e = i \<longrightarrow>
     pe_kind e = peerEventFollow \<and> pe_subject e = a \<and> pe_object e = Some b)"

lemma sentFollow_inv:
  assumes "followInv E None s" and "isFollowEvent i a b (so_db s)"
  shows "followInv E None (dropSettledUnfollowTx a b (s\<lparr>so_db := deletePeerEvent i (so_db s)\<rparr>))"
proof -
  let ?t = "s\<lparr>so_db := deletePeerEvent i (so_db s)\<rparr>"
  have r: "db_removals (deletePeerEvent i (so_db s)) = db_removals (so_db s)" by (simp add: deletePeerEvent_def)
  have o: "followOwed s x y \<Longrightarrow> (x, y) \<noteq> (a, b) \<Longrightarrow> followOwed ?t x y" for x y
    using assms(2) by (auto simp: followOwed_def deletePeerEvent_def isFollowEvent_def peerEventFollow_def)
  then have "owedFits (Some (a, b)) ?t"
    using assms(1) by (auto simp: followInv_def owedFits_def followPair_def)
  then have "followInv E (Some (a, b)) ?t"
    using assms(1) by (simp add: followInv_def edgesFit_def blocksHold_def r hasAccountRemovalQ_def)
  then show ?thesis by (rule dropSettled_inv) simp
qed

subsection \<open>Blocks\<close>

lemma applyBlockEffects_follows:
  "follows (snd (applyBlockEffectsTx u b s)) x y \<longleftrightarrow> (x, y) \<noteq> (b, u) \<and> follows s x y"
  by (auto simp: applyBlockEffectsTx_def follows_def)

lemma insertBlock_inv:
  assumes "insertBlock E cert s = Inr (r, s')" and "followInv E None s"
  shows "followInv E None s'"
proof (cases "getBlock s (bk_user cert) (bk_blocked cert)")
  case (Some c)
  then show ?thesis using assms by (auto simp: insertBlock_def Let_def truncateBlock_def split: if_splits)
next
  case None
  define c where "c = truncateBlock cert"
  have c: "bk_user c = bk_user cert" "bk_blocked c = bk_blocked cert" by (simp_all add: c_def truncateBlock_def)
  define t where "t = snd (applyBlockEffectsTx (bk_user c) (bk_blocked c) (s\<lparr>so_blocks := so_blocks s @ [c]\<rparr>))"
  have s': "s' = oweBlockEventTx E (bk_user c) (bk_blocked c) blockEventBlock t" and ne: "bk_user c \<noteq> bk_blocked c"
    using assms(1) None by (auto simp: insertBlock_def Let_def c_def [symmetric] c t_def split: if_splits prod.splits)
  have f: "follows t x y \<longleftrightarrow> (x, y) \<noteq> (bk_blocked c, bk_user c) \<and> follows s x y" for x y
    unfolding t_def applyBlockEffects_follows by (simp add: follows_def)
  have tables: "so_blocks t = so_blocks s @ [c]" "so_db t = so_db s"
    "so_follows t = filter (\<lambda>f. \<not> (fw_follower f = bk_blocked c \<and> fw_followee f = bk_user c)) (so_follows s)"
    by (simp_all add: t_def applyBlockEffectsTx_def)
  have "edgesFit E t"
    unfolding edgesFit_def f using assms(2)
    by (auto simp: t_def applyBlockEffectsTx_def followInv_def edgesFit_def)
  moreover have "owedFits None t"
    using assms(2) by (auto simp: t_def applyBlockEffectsTx_def followInv_def owedFits_def followOwed_def followPair_def)
  moreover have "blocksHold E t"
    unfolding blocksHold_def f tables using assms(2) by (auto simp: followInv_def blocksHold_def)
  moreover have "uniqueBy blockPair (so_blocks t)"
    using assms(2) None by (auto simp: tables followInv_def getBlock_None blockPair_def c)
  ultimately have "followInv E None t"
    using assms(2) ne by (auto simp: followInv_def tables uniqueBy_filter)
  then show ?thesis unfolding s' by (rule sameFollows_inv [OF oweBlock_follows])
qed

lemma deleteBlock_inv:
  assumes "followInv E p s"
  shows "followInv E p (snd (deleteBlock E u b s))"
proof -
  let ?t = "s\<lparr>so_blocks := filter (\<lambda>c. \<not> (bk_user c = u \<and> bk_blocked c = b)) (so_blocks s)\<rparr>"
  have "owedFits p ?t" using assms by (simp add: followInv_def owedFits_def followOwed_def)
  then have "followInv E p ?t"
    using assms by (simp add: followInv_def edgesFit_def blocksHold_def uniqueBy_filter)
  then show ?thesis
    using assms sameFollows_inv [OF oweBlock_follows] by (simp add: deleteBlock_def)
qed

subsection \<open>The routes\<close>

lemma splitLast_absent: "c \<notin> set s \<Longrightarrow> splitLast c s = None"
  by (simp add: splitLast_None)

lemma plainLocal_here: "plainLocal E u \<Longrightarrow> foreignServerOf (e_server_id E) u = None"
  by (auto simp: plainLocal_def localUser_def foreignServerOf_def parseKeyFingerprint_def identityServerID_def splitLast_absent)

lemma getAccountRemoval_local:
  assumes "localUser E u"
  shows "getAccountRemoval E d u \<noteq> None \<longleftrightarrow> hasAccountRemovalQ d u"
proof -
  obtain b where p: "parseIdentityID u = Some (b, e_server_id E)"
    using assms by (auto simp: localUser_def identityServerID_def)
  then have "canonicalID (e_server_id E) b = u" using parseIdentityID_Some by blast
  then show ?thesis using hasAccountRemovalQ_load [of d u] by (auto simp: getAccountRemoval_def p)
qed

text \<open>A follow that isn't refused isn't blocked.\<close>

lemma refuseIfBlocked_None:
  assumes "refuseIfBlocked E s a b = None" and "localUser E b" "a \<noteq> ''''" "a \<noteq> b"
  shows "getBlock s b a = None \<or> hasAccountRemovalQ (so_db s) b"
  using assms getAccountRemoval_local [OF assms(2), of "so_db s"]
  by (auto simp: refuseIfBlocked_def split: option.splits if_splits)

lemma storeBlock_inv:
  "storeBlock E cert s = (a, s', fx) \<Longrightarrow> followInv E None s \<Longrightarrow> followInv E None s'"
  by (auto simp: storeBlock_def dest: insertBlock_inv split: sum.splits prod.splits if_splits option.splits)

lemma blockUser_inv:
  assumes "blockUser E now caller b msg s = (a, s', fx)" and "followInv E None s"
  shows "followInv E None s'"
proof -
  have "sameFollows s s' \<or> (\<exists>s1 s2 cert a. sameFollows s s1 \<and> sameFollows s1 s2 \<and> storeBlock E cert s2 = (a, s', fx))"
    using assms(1) unfolding blockUser_def Let_def
    by (auto dest!: blockTarget_follows activeKey_follows intro: sameFollows_trans
        split: option.splits if_splits prod.splits sum.splits)
  then show ?thesis using assms(2) by (auto dest: sameFollows_inv storeBlock_inv)
qed

lemma deleteBlock_pair_inv: "deleteBlock E u b s = (x, s') \<Longrightarrow> followInv E p s \<Longrightarrow> followInv E p s'"
  using deleteBlock_inv by (metis snd_conv)

lemma unblockUser_inv:
  "unblockUser E caller b s = (a, s', fx) \<Longrightarrow> followInv E None s \<Longrightarrow> followInv E None s'"
  unfolding unblockUser_def Let_def
  by (auto dest: deleteBlock_pair_inv split: option.splits if_splits prod.splits)

lemma storeForeignBlock_inv:
  "storeForeignBlock E cert s = (e, s', fx) \<Longrightarrow> followInv E None s \<Longrightarrow> followInv E None s'"
  by (auto simp: storeForeignBlock_def dest: insertBlock_inv split: sum.splits prod.splits)

lemma checkForeignBlock_follows: "checkForeignBlock E now p cert s = (e, s') \<Longrightarrow> sameFollows s s'"
  by (auto simp: checkForeignBlock_def dest!: resolveKey_follows split: if_splits option.splits prod.splits sum.splits)

lemma acceptForeignBlock_inv:
  assumes "acceptForeignBlock E now p cert s = (e, s', fx)" and "followInv E None s"
  shows "followInv E None s'"
proof (cases "checkForeignBlock E now p cert s")
  case (Pair e1 s1)
  have inv1: "followInv E None s1" by (rule sameFollows_inv [OF checkForeignBlock_follows [OF Pair] assms(2)])
  then have inv: "followInv E None (recordRemoteIdentity (bk_user cert) s1)"
    by (rule sameFollows_inv [OF recordRemote_follows])
  show ?thesis
    using assms(1) Pair inv inv1 unfolding acceptForeignBlock_def Let_def
    by (auto dest: storeForeignBlock_inv deleteBlock_inv split: option.splits if_splits)
qed

lemma blockNotify_inv:
  "blockNotifyFromPeer E now p msg s = (a, s', fx) \<Longrightarrow> followInv E None s \<Longrightarrow> followInv E None s'"
  unfolding blockNotifyFromPeer_def
  by (auto dest: acceptForeignBlock_inv split: if_splits option.splits prod.splits)

lemma acceptRefusal_inv:
  "acceptRefusalBlock E now p refusal s = (s', fx) \<Longrightarrow> followInv E None s \<Longrightarrow> followInv E None s'"
  unfolding acceptRefusalBlock_def
  by (cases "acceptForeignBlock E now p (the refusal) s") (auto dest: acceptForeignBlock_inv split: option.splits)

lemma unblockNotify_inv:
  "unblockNotifyFromPeer E p msg s = (a, s', fx) \<Longrightarrow> followInv E None s \<Longrightarrow> followInv E None s'"
  unfolding unblockNotifyFromPeer_def
  by (auto dest: deleteBlock_pair_inv split: option.splits if_splits prod.splits)

lemma ackBlock_same: "sameFollows s (ackBlockEvent c u k s)"
  by (simp add: ackBlockEvent_def deleteBlockEvent_def sameFollows_def)

lemma finishFollow_inv:
  assumes "finishFollow E call cert s = (a, s', fx)" and "followInv E None s"
    and "fw_follow cert \<Longrightarrow> plainLocal E (fw_followee cert) \<Longrightarrow>
      getBlock s (fw_followee cert) (fw_follower cert) = None \<or> hasAccountRemovalQ (so_db s) (fw_followee cert)"
  shows "followInv E None s'"
proof -
  have "s' = s \<or> (\<exists>owe. s' = snd (saveFollowCertTx E cert owe s))"
    using assms(1) by (auto simp: finishFollow_def split: option.splits followSent.splits if_splits)
  then show ?thesis using assms(2,3) saveFollowCertTx_inv by (metis prod.collapse)
qed

lemma sameFollows_block:
  assumes "sameFollows s s'" and "getBlock s b a = None \<or> hasAccountRemovalQ (so_db s) b"
  shows "getBlock s' b a = None \<or> hasAccountRemovalQ (so_db s') b"
  using assms by (auto simp: sameFollows_def getBlock_def keepsDb_def hasAccountRemovalQ_def)

lemma signFollow_done:
  assumes "signFollow E call follow now caller b msg s = (a, s', fx)"
  shows "sameFollows s s' \<or> (\<exists>s1 s2 cert a. sameFollows s s1 \<and> sameFollows s1 s2 \<and> finishFollow E call cert s2 = (a, s', fx) \<and>
      fw_followee cert \<noteq> fw_follower cert \<and> fw_follower cert \<noteq> '''' \<and> (fw_follow cert \<longrightarrow>
        refuseFollowTarget E s (fw_follower cert) (fw_followee cert) (foreignServerOf (e_server_id E) (fw_followee cert) \<noteq> None)
          = (None :: followCert answer option)))"
  using assms unfolding signFollow_def Let_def
  by (auto dest!: followPeer_follows activeKey_follows intro: sameFollows_trans
        split: option.splits if_splits prod.splits sum.splits) fastforce+

lemma signFollow_inv:
  assumes "signFollow E call follow now caller b msg s = (a, s', fx)" and "followInv E None s"
  shows "followInv E None s'"
  using signFollow_done [OF assms(1)]
proof (elim disjE exE conjE)
  fix s1 s2 cert a
  assume s: "sameFollows s s1" "sameFollows s1 s2" and fin: "finishFollow E call cert s2 = (a, s', fx)"
    and ne: "fw_followee cert \<noteq> fw_follower cert" "fw_follower cert \<noteq> ''''"
    and ok: "fw_follow cert \<longrightarrow> refuseFollowTarget E s (fw_follower cert) (fw_followee cert)
        (foreignServerOf (e_server_id E) (fw_followee cert) \<noteq> None) = (None :: followCert answer option)"
  note same = sameFollows_trans [OF s]
  show "followInv E None s'"
  proof (rule finishFollow_inv [OF fin sameFollows_inv [OF same assms(2)]])
    assume "fw_follow cert" and loc: "plainLocal E (fw_followee cert)"
    then have "refuseIfBlocked E s (fw_follower cert) (fw_followee cert) = None"
      using ok plainLocal_here [OF loc] by (auto simp: refuseFollowTarget_def split: option.splits)
    then show "getBlock s2 (fw_followee cert) (fw_follower cert) = None \<or> hasAccountRemovalQ (so_db s2) (fw_followee cert)"
      using ne loc sameFollows_block [OF same] by (auto dest!: refuseIfBlocked_None simp: plainLocal_def)
  qed
qed (rule sameFollows_inv [OF _ assms(2)])

lemma verifyForeignFollow_follows: "verifyForeignFollow E now p cert s = (e, s') \<Longrightarrow> sameFollows s s'"
  by (auto simp: verifyForeignFollow_def dest!: resolveKey_follows split: if_splits option.splits prod.splits sum.splits)

lemma followNotify_inv:
  assumes "followNotifyFromPeer E now p r msg s = (a, s', fx)" and "followInv E None s"
  shows "followInv E None s'"
proof (cases "\<exists>cert. msg = Some cert \<and> p \<noteq> ''''")
  case True
  then obtain cert where msg: "msg = Some cert" "p \<noteq> ''''" by blast
  obtain e s1 where v: "verifyForeignFollow E now p cert s = (e, s1)" by fastforce
  have inv1: "followInv E None s1" by (rule sameFollows_inv [OF verifyForeignFollow_follows [OF v] assms(2)])
  let ?s = "recordRemoteIdentity (fw_follower cert) s1"
  have inv: "followInv E None ?s" by (rule sameFollows_inv [OF recordRemote_follows inv1])
  have "s' = s1 \<or> s' = snd (saveFollowCertTx E cert True ?s) \<and>
      (fw_follow cert \<longrightarrow> refuseBlockedRequester s1 (fw_followee cert) (fw_follower cert) = None)"
    using assms(1) msg v by (auto simp: followNotifyFromPeer_def split: option.splits if_splits prod.splits)
  moreover have "getBlock ?s = getBlock s1" by (simp add: fun_eq_iff getBlock_def recordRemoteIdentity_def)
  ultimately show ?thesis
    using inv1 saveFollowCertTx_inv [OF prod.collapse [symmetric] inv, of cert True]
    by (auto simp: refuseBlockedRequester_def)
next
  case False
  then show ?thesis using assms by (cases msg) (auto simp: followNotifyFromPeer_def split: if_splits)
qed

text \<open>
  A run: the routes of follows and blocks, what the drain does with a follow's answer, an account's
  removal, and whatever leaves these tables alone.
\<close>

inductive socialCall :: "env \<Rightarrow> social \<Rightarrow> social \<Rightarrow> bool" for E where
  callFollow: "signFollow E call follow now caller b msg s = (a, s', fx) \<Longrightarrow> socialCall E s s'"
| callFollowNotify: "followNotifyFromPeer E now p r cert s = (u, s', fx) \<Longrightarrow> socialCall E s s'"
| callAckFollow: "socialCall E s (ackFollow client x follow s)"
| callRefused: "socialCall E s (undoRefusedFollow E x y at s)"
| callSent: "isFollowEvent i x y (so_db s) \<Longrightarrow>
    socialCall E s (dropSettledUnfollowTx x y (s\<lparr>so_db := deletePeerEvent i (so_db s)\<rparr>))"
| callBlock: "blockUser E now caller b bmsg s = (c, s', fx) \<Longrightarrow> socialCall E s s'"
| callUnblock: "unblockUser E caller b s = (u, s', fx) \<Longrightarrow> socialCall E s s'"
| callBlockNotify: "blockNotifyFromPeer E now p bcert s = (u, s', fx) \<Longrightarrow> socialCall E s s'"
| callRefusal: "acceptRefusalBlock E now p bcert s = (s', fx) \<Longrightarrow> socialCall E s s'"
| callUnblockNotify: "unblockNotifyFromPeer E p w s = (u, s', fx) \<Longrightarrow> socialCall E s s'"
| callAckBlock: "socialCall E s (ackBlockEvent client x kind s)"
| callAccountRemoval: "insertAccountRemovalCert E rcert (so_db s) = (r, d') \<Longrightarrow> socialCall E s (s\<lparr>so_db := d'\<rparr>)"
| callOther: "sameFollows s s' \<Longrightarrow> socialCall E s s'"

lemma socialCall_inv:
  assumes "socialCall E s s'" and "followInv E None s"
  shows "followInv E None s'"
  using assms(1)
proof cases
  case callAckFollow
  then show ?thesis using assms(2) ackFollowEvent_inv by (simp add: ackFollow_def)
next
  case (callAccountRemoval rcert r d')
  then have "sameFollows s s'" by (simp add: sameFollows_def removal_keeps)
  then show ?thesis using assms(2) by (rule sameFollows_inv)
next
  case callAckBlock
  then show ?thesis using sameFollows_inv [OF ackBlock_same assms(2)] by simp
qed (use assms(2) in \<open>blast intro: signFollow_inv followNotify_inv undoRefused_inv sentFollow_inv blockUser_inv
      unblockUser_inv blockNotify_inv acceptRefusal_inv unblockNotify_inv sameFollows_inv\<close>)+

interpretation socialRoutes: transition_system "socialCall E" "followInv E None" for E
  by unfold_locales (rule socialCall_inv)

definition emptyFollows :: "social \<Rightarrow> bool" where
  "emptyFollows s \<longleftrightarrow> so_follows s = [] \<and> so_following s = [] \<and> so_followers s = [] \<and> so_follow_queue s = [] \<and>
     so_blocks s = []"

lemma emptyFollows_inv: "emptyFollows s \<Longrightarrow> followInv E None s"
  by (simp add: emptyFollows_def followInv_def edgesFit_def owedFits_def blocksHold_def follows_def)

text \<open>
  C14.  From empty follow and block tables, after any run: a pair has one certificate; a local user's
  following list and follower list are exactly the active certificates of theirs; an unfollow is kept
  only while it is owed to the followee's client or server; and what is owed to a client has its
  certificate.
\<close>

theorem follow_rules:
  assumes "(socialCall E)\<^sup>*\<^sup>* s s'" and "emptyFollows s"
  shows "uniqueBy (\<lambda>f. (fw_follower f, fw_followee f)) (so_follows s') \<and>
    (\<forall>a b. (a, b) \<in> set (so_following s') \<longleftrightarrow> identityServerID a = Some (e_server_id E) \<and>
      (\<exists>f \<in> set (so_follows s'). fw_follower f = a \<and> fw_followee f = b \<and> fw_follow f)) \<and>
    (\<forall>a b. (b, a) \<in> set (so_followers s') \<longleftrightarrow> identityServerID b = Some (e_server_id E) \<and>
      (\<exists>f \<in> set (so_follows s'). fw_follower f = a \<and> fw_followee f = b \<and> fw_follow f)) \<and>
    (\<forall>f \<in> set (so_follows s'). \<not> fw_follow f \<longrightarrow> followOwed s' (fw_follower f) (fw_followee f)) \<and>
    (\<forall>(a, b) \<in> set (so_follow_queue s'). getFollowCert s' a b \<noteq> None)"
proof -
  have inv: "followInv E None s'" by (rule socialRoutes.inv_reachable [OF assms(1) emptyFollows_inv [OF assms(2)]])
  have "(\<lambda>f. (fw_follower f, fw_followee f)) = followPair" by (simp add: fun_eq_iff followPair_def)
  then show ?thesis
    using inv by (auto simp: followInv_def edgesFit_def owedFits_def follows_def localUser_def getFollowCert_None)
qed

text \<open>
  C13.  Whatever follows, unfollows, blocks and peers' notices arrive in whatever order: while a user of
  this server blocks someone, that someone doesn't follow them, in the certificates or in any list.
\<close>

theorem blocked_never_follows:
  assumes "(socialCall E)\<^sup>*\<^sup>* s s'" and "emptyFollows s"
    and "getBlock s' u b \<noteq> None" and "identityServerID u = Some (e_server_id E)" "CHR ''/'' \<notin> set u"
    and "\<not> hasAccountRemovalQ (so_db s') u"
  shows "u \<noteq> b \<and> (\<forall>f. getFollowCert s' b u = Some f \<longrightarrow> \<not> fw_follow f) \<and>
    (u, b) \<notin> set (so_followers s') \<and> (b, u) \<notin> set (so_following s')"
proof -
  have inv: "followInv E None s'" by (rule socialRoutes.inv_reachable [OF assms(1) emptyFollows_inv [OF assms(2)]])
  obtain c where c: "c \<in> set (so_blocks s')" "bk_user c = u" "bk_blocked c = b"
    using assms(3) by (auto simp: getBlock_None blockPair_def)
  then have "\<not> follows s' b u" "u \<noteq> b"
    using inv assms(4-6) by (auto simp: followInv_def blocksHold_def plainLocal_def localUser_def)
  then show ?thesis
    using inv by (auto simp: followInv_def edgesFit_def follows_def followPair_def dest: getFollowCert_Some)
qed

subsection \<open>The newest certificate wins\<close>

definition followTime :: "followCert \<Rightarrow> gotime" where
  "followTime c = truncateSecond (ss_at (fw_server_sig c))"

text \<open>A peer's notices of one pair, saved in the order they arrive.\<close>

definition saveAll :: "env \<Rightarrow> followCert list \<Rightarrow> social \<Rightarrow> social" where
  "saveAll E cs s = fold (\<lambda>c s. snd (saveFollowCertTx E c True s)) cs s"

lemma find_pair_map:
  "followPair c \<in> followPair ` set fs \<Longrightarrow>
     List.find (\<lambda>f. followPair f = followPair c) (map (\<lambda>f. if followPair f = followPair c then c else f) fs) = Some c"
  by (induction fs) auto

lemma getFollowCert_pair: "getFollowCert s a b = List.find (\<lambda>f. followPair f = (a, b)) (so_follows s)"
  by (simp add: getFollowCert_def followPair_def)

lemma getFollowCert_put: "followPair c = (a, b) \<Longrightarrow> getFollowCert (putFollowCert c s) a b = Some c"
  using find_pair_map [of c "so_follows s"]
  by (auto simp: getFollowCert_pair so_follows_put find_append find_None_iff image_iff dest!: find_SomeD
      split: option.split)

lemma getFollowCert_save:
  assumes "followPair c = (a, b)" and "identityServerID b = Some (e_server_id E)"
  shows "getFollowCert (snd (saveFollowCertTx E c True s)) a b = (case getFollowCert s a b of
     Some h \<Rightarrow> if followTime c \<le> ss_at (fw_server_sig h) then Some h else Some (truncateFollow c)
   | None \<Rightarrow> Some (truncateFollow c))"
proof -
  have c: "fw_follower c = a" "fw_followee c = b" using assms(1) by (simp_all add: followPair_def)
  let ?c = "truncateFollow c"
  have t: "fw_follower ?c = a" "fw_followee ?c = b" "fw_follow ?c = fw_follow c" "ss_at (fw_server_sig ?c) = followTime c"
    by (simp_all add: truncateFollow_def followTime_def c)
  define u where "u = oweFollowCertTx E a b (setFollowEdgesTx E a b (fw_follow c) (putFollowCert ?c s))"
  have "so_follows u = so_follows (putFollowCert ?c s)" "(a, b) \<in> set (so_follow_queue u)"
    using assms(2) by (auto simp: u_def oweFollowCertTx_def setFollowEdgesTx_def setEdge_def split: option.split)
  then have g: "getFollowCert u a b = Some ?c" and o: "followOwed u a b"
    using getFollowCert_put [of ?c a b s] by (simp_all add: getFollowCert_def followOwed_def followPair_def t)
  have "dropSettledUnfollowTx a b u = u" by (simp add: dropSettledUnfollowTx_def g o)
  then show ?thesis
    using g by (auto simp: saveFollowCertTx_def Let_def t u_def [symmetric] split: option.split)
qed

lemma saveAll_newest:
  assumes "\<forall>c \<in> set cs. followPair c = (a, b)" and "identityServerID b = Some (e_server_id E)"
    and "getFollowCert s a b = Some (truncateFollow h)"
  shows "\<exists>c \<in> set (h # cs). (\<forall>d \<in> set (h # cs). followTime d \<le> followTime c) \<and>
    getFollowCert (saveAll E cs s) a b = Some (truncateFollow c)"
  using assms(1,3)
proof (induction cs arbitrary: s h)
  case Nil
  then show ?case by (simp add: saveAll_def)
next
  case (Cons x xs)
  define t where "t = snd (saveFollowCertTx E x True s)"
  define k where "k = (if followTime x \<le> followTime h then h else x)"
  have "ss_at (fw_server_sig (truncateFollow h)) = followTime h" by (simp add: truncateFollow_def followTime_def)
  then have "getFollowCert t a b = Some (truncateFollow k)"
    using getFollowCert_save [of x a b E s] Cons.prems assms(2) by (simp add: t_def k_def)
  then obtain c where "c \<in> set (k # xs)" "\<forall>d \<in> set (k # xs). followTime d \<le> followTime c"
    "getFollowCert (saveAll E xs t) a b = Some (truncateFollow c)"
    using Cons.IH [of t k] Cons.prems(1) by auto
  then show ?case
    by (intro bexI [of _ c]) (auto simp: saveAll_def t_def k_def split: if_splits)
qed

text \<open>
  However a peer's follows and unfollows of one pair arrive, the certificate held in the end is
  the newest of them; so two servers that got the same ones in different orders agree.
\<close>

theorem newest_follow_wins:
  assumes "cs \<noteq> []" and "\<forall>c \<in> set cs. fw_follower c = a \<and> fw_followee c = b"
    and "uniqueBy followTime cs" and "mset ds = mset cs"
    and "identityServerID b = Some (e_server_id E)" "getFollowCert s a b = None" "getFollowCert s' a b = None"
  shows "(\<exists>c \<in> set cs. (\<forall>d \<in> set cs. followTime d \<le> followTime c) \<and>
      getFollowCert (saveAll E cs s) a b = Some (truncateFollow c)) \<and>
    getFollowCert (saveAll E ds s') a b = getFollowCert (saveAll E cs s) a b"
proof -
  have one: "\<exists>c \<in> set xs. (\<forall>d \<in> set xs. followTime d \<le> followTime c) \<and>
      getFollowCert (saveAll E xs t) a b = Some (truncateFollow c)"
    if "xs \<noteq> []" "\<forall>c \<in> set xs. followPair c = (a, b)" "getFollowCert t a b = None" for xs t
  proof -
    obtain y ys where xs: "xs = y # ys" using \<open>xs \<noteq> []\<close> by (cases xs) auto
    have "getFollowCert (snd (saveFollowCertTx E y True t)) a b = Some (truncateFollow y)"
      using getFollowCert_save [of y a b E t] that assms(5) xs by simp
    from saveAll_newest [OF _ assms(5) this, of ys] that xs show ?thesis by (simp add: saveAll_def)
  qed
  have ds: "set ds = set cs" "ds \<noteq> []" using assms(1,4) mset_eq_setD [of ds cs] by auto
  obtain c where c: "c \<in> set cs" "\<forall>d \<in> set cs. followTime d \<le> followTime c"
    "getFollowCert (saveAll E cs s) a b = Some (truncateFollow c)"
    using one [of cs s] assms by (auto simp: followPair_def)
  obtain d where d: "d \<in> set cs" "\<forall>e \<in> set cs. followTime e \<le> followTime d"
    "getFollowCert (saveAll E ds s') a b = Some (truncateFollow d)"
    using one [of ds s'] assms ds by (auto simp: followPair_def)
  have "followTime c = followTime d" using c(1,2) d(1,2) by (simp add: order_antisym)
  then have "c = d" using uniqueBy_inj [OF assms(3) c(1) d(1)] by simp
  then show ?thesis using c d(3) by auto
qed

subsection \<open>Instances\<close>

text \<open>\<open>v\<close> follows \<open>u\<close>, and then \<open>u\<close> blocks \<open>v\<close>.\<close>

definition aFollow :: followCert where
  "aFollow = \<lparr>fw_follower = ''v@s'', fw_followee = ''u@s'', fw_follow = True,
     fw_sig = \<lparr>us_id = ''v@s/k'', us_armor = ''g''\<rparr>, fw_server_sig = \<lparr>ss_id = ''f@s'', ss_armor = ''a'', ss_at = second\<rparr>\<rparr>"

definition followedSocial :: social where
  "followedSocial = aSocial\<lparr>so_follows := [aFollow], so_following := [(''v@s'', ''u@s'')],
     so_followers := [(''u@s'', ''v@s'')], so_follow_queue := [(''v@s'', ''u@s'')]\<rparr>"

definition aBlock :: blockCert where
  "aBlock = \<lparr>bk_user = ''u@s'', bk_blocked = ''v@s'', bk_sig = \<lparr>us_id = ''u@s/k'', us_armor = ''g''\<rparr>,
     bk_server_sig = \<lparr>ss_id = ''f@s'', ss_armor = ''a'', ss_at = second\<rparr>\<rparr>"

definition blockedSocial :: social where
  "blockedSocial = aSocial\<lparr>so_blocks := [aBlock],
     so_block_queue := [\<lparr>be_user = ''u@s'', be_blocked = ''v@s'', be_kind = ''block''\<rparr>]\<rparr>"

lemma small_texts:
  "trimSpace ''u@s'' = ''u@s''" "trimSpace ''v@s'' = ''v@s''" "trimSpace ''g'' = ''g''" "trimSpace ''k'' = ''k''"
  "appendEntity ''v@s'' ''k'' = ''v@s/k''" "appendEntity ''u@s'' ''k'' = ''u@s/k''" "canonicalID ''s'' ''f'' = ''f@s''"
  "parseIdentityID ''u@s'' = Some (''u'', ''s'')" "parseIdentityID ''v@s'' = Some (''v'', ''s'')"
  "foreignServerOf ''s'' ''u@s'' = None" "foreignServerOf ''s'' ''v@s'' = None"
  "identityServerID ''u@s'' = Some ''s''" "identityServerID ''v@s'' = Some ''s''"
  by code_simp+

lemma small_profiles: "getUserProfile aDb ''u@s'' = Inr True" "getUserProfile aDb ''v@s'' = Inr True"
  "\<not> hasAccountRemovalQ aDb ''v@s''" "loadAccountCertTx aDb ''v@s'' = None"
  by code_simp+

lemma small_keys:
  assumes "so_db s = aDb"
  shows "resolveKey aServer second ''u@s/k'' s = (Inr (Some \<lparr>key_id = ''u@s/k'', key_user = ''u@s'',
      key_armor = ''k'', key_revoked = False, key_restricted = False\<rparr>), s)"
    "resolveKey aServer second ''v@s/k'' s = (Inr (Some \<lparr>key_id = ''v@s/k'', key_user = ''v@s'',
      key_armor = ''k'', key_revoked = False, key_restricted = False\<rparr>), s)"
  using u_key [of second] v_key [of second] by (simp_all add: resolveKey_def assms flip: assms)

lemma v_follows: "signFollow aServer call True second (Some ''v@s'') ''u@s''
    (Some \<lparr>bm_signature = ''g'', bm_fingerprint = ''k''\<rparr>) aSocial = (Done 200 aFollow, followedSocial, [PushFollow aFollow])"
proof -
  have db: "so_db aSocial = aDb" and empty: "so_blocks aSocial = []" "so_unclaimed aSocial = []" "so_follows aSocial = []"
    "so_following aSocial = []" "so_followers aSocial = []" "so_follow_queue aSocial = []"
    by (simp_all add: aSocial_def)
  have ok: "refuseFollowTarget aServer aSocial ''v@s'' ''u@s'' False = None"
    by (simp add: refuseFollowTarget_def refuseIfBlocked_def getBlock_def empty db small_profiles isUnclaimed_def)
  have save: "saveFollowCertTx aServer aFollow True aSocial = (True, followedSocial)"
    by (simp add: saveFollowCertTx_def truncateFollow_def getFollowCert_def putFollowCert_def setFollowEdgesTx_def
        oweFollowCertTx_def dropSettledUnfollowTx_def followOwed_def setEdge_def small_texts empty aFollow_def
        followedSocial_def Let_def)
  show ?thesis
    using save [unfolded aFollow_def]
    by (simp add: signFollow_def small_texts ok followPeer_def activeKey_def small_keys [OF db] countersign_def
        finishFollow_def aFollow_def Let_def)
qed

lemma u_blocks: "blockUser aServer second (Some ''u@s'') ''v@s''
    (Some \<lparr>bm_signature = ''g'', bm_fingerprint = ''k''\<rparr>) followedSocial = (Done 200 aBlock, blockedSocial, [PushBlock aBlock])"
proof -
  have db: "so_db followedSocial = aDb" and empty: "so_blocks followedSocial = []" "so_allocations followedSocial = []"
    "so_pending followedSocial = []" "so_block_queue followedSocial = []"
    by (simp_all add: followedSocial_def aSocial_def)
  have none: "getBlock followedSocial ''u@s'' ''v@s'' = None" by (simp add: getBlock_def empty)
  have "canonicalID ''s'' ''v'' = ''v@s''" by code_simp
  then have here: "getAccountRemoval aServer aDb ''v@s'' = None"
    by (simp add: getAccountRemoval_def small_texts small_profiles)
  have ins: "insertBlock aServer aBlock followedSocial = Inr ((True, []), blockedSocial)"
    using none
    by (simp add: insertBlock_def truncateBlock_def applyBlockEffectsTx_def oweBlockEventTx_def setBlockEvent_def
        small_texts empty aBlock_def blockedSocial_def followedSocial_def aFollow_def aSocial_def blockEventBlock_def Let_def)
  show ?thesis
    using ins [unfolded aBlock_def]
    by (simp add: blockUser_def small_texts blockTarget_def db here small_profiles none activeKey_def small_keys [OF db]
        countersign_def storeBlock_def afterBlock_def sendBlockNoticesFor_def aBlock_def Let_def)
qed

lemma followed_run: "(socialCall aServer)\<^sup>*\<^sup>* aSocial followedSocial"
  by (rule r_into_rtranclp) (rule socialCall.callFollow [OF v_follows])

lemma aSocial_empty: "emptyFollows aSocial"
  by (simp add: emptyFollows_def aSocial_def)

theorem follow_rules_witness:
  "(''v@s'', ''u@s'') \<in> set (so_following followedSocial) \<and>
     (\<exists>f \<in> set (so_follows followedSocial). fw_follower f = ''v@s'' \<and> fw_followee f = ''u@s'' \<and> fw_follow f)"
proof -
  have "(''v@s'', ''u@s'') \<in> set (so_following followedSocial)" by (simp add: followedSocial_def)
  then show ?thesis using follow_rules [OF followed_run aSocial_empty] by blast
qed

theorem blocked_never_follows_witness:
  "(socialCall aServer)\<^sup>*\<^sup>* aSocial blockedSocial \<and> getBlock blockedSocial ''u@s'' ''v@s'' = Some aBlock \<and>
     (''v@s'', ''u@s'') \<notin> set (so_following blockedSocial)"
proof -
  have run: "(socialCall aServer)\<^sup>*\<^sup>* aSocial blockedSocial"
    using followed_run socialCall.callBlock [OF u_blocks] by (rule rtranclp.rtrancl_into_rtrancl)
  have block: "getBlock blockedSocial ''u@s'' ''v@s'' = Some aBlock"
    by (simp add: getBlock_def blockedSocial_def aBlock_def)
  have "\<not> hasAccountRemovalQ (so_db blockedSocial) ''u@s''"
    by (simp add: blockedSocial_def aSocial_def hasAccountRemovalQ_def aDb_def)
  from blocked_never_follows [OF run aSocial_empty _ _ _ this] block run show ?thesis
    by (simp add: small_texts)
qed

theorem newest_follow_wins_witness:
  "getFollowCert (saveAll aServer [aFollow, aFollow\<lparr>fw_follow := False,
       fw_server_sig := \<lparr>ss_id = ''f@s'', ss_armor = ''b'', ss_at = minute\<rparr>\<rparr>] aSocial) ''v@s'' ''u@s'' =
     getFollowCert (saveAll aServer [aFollow\<lparr>fw_follow := False,
       fw_server_sig := \<lparr>ss_id = ''f@s'', ss_armor = ''b'', ss_at = minute\<rparr>\<rparr>, aFollow] aSocial) ''v@s'' ''u@s''"
  (is "getFollowCert (saveAll _ [_, ?g] _) _ _ = _")
proof -
  have "getFollowCert aSocial ''v@s'' ''u@s'' = None" by (simp add: getFollowCert_def aSocial_def)
  moreover have "uniqueBy followTime [?g, aFollow]"
    by (simp add: followTime_def aFollow_def truncateSecond_def minute_def second_def)
  moreover have "\<forall>c \<in> set [?g, aFollow]. fw_follower c = ''v@s'' \<and> fw_followee c = ''u@s''" by (simp add: aFollow_def)
  ultimately show ?thesis
    using newest_follow_wins [of "[?g, aFollow]" "''v@s''" "''u@s''" "[aFollow, ?g]" aServer aSocial aSocial]
    by (simp add: small_texts add_mset_commute)
qed

subsection \<open>A removed account\<close>

text \<open>
  A follow of an account removed here: its profile has no signatures left to read, so the answer is
  500 instead of one of the refusals.
\<close>

lemma follow_of_removed:
  assumes "insertAccountRemovalCert E cert (so_db s) = (Inr (), d')" and u: "u = canonicalID (e_server_id E) (ac_user cert)"
    and "\<not> hasAccountRemovalQ (so_db s) u" and "getBlock s u a = None"
  shows "refuseFollowTarget E (s\<lparr>so_db := d'\<rparr>) a u False = Some (Fail 500 ''Internal Server Error'')"
proof -
  have "storeAccountRemovalTx E cert u (so_db s) = Inr ((), d')"
    using assms(1) by (auto simp: insertAccountRemovalCert_def withAdminTx_def u split: sum.splits prod.splits)
  then obtain r where "userRow d' u = Some r" "u_user_sig r = None"
    using storeAccountRemovalTx_profile(1) [OF _ assms(3)] by blast
  then have "getUserProfile d' u = Inl (Internal ''scan profile'')" by (simp add: getUserProfile_def)
  moreover have "refuseIfBlocked E (s\<lparr>so_db := d'\<rparr>) a u = None"
    using assms(4) by (simp add: refuseIfBlocked_def getBlock_def)
  ultimately show ?thesis by (simp add: refuseFollowTarget_def)
qed

end
