(* ===== verification/Reeds.thy ===== *)
theory Reeds
  imports Blocks Paging
begin

text \<open>
  Reeds as the server keeps them (\<open>services.go\<close>): never their content, but who signed which id and
  when, the threads they form, what echoes and answers what, whom they mention, and their removals.
  The tables are those of \<open>db.go\<close> with its triggers on replies, removals and echoes.  A trigger that
  walks up a conversation may not return, so what runs it gives an option: \<open>None\<close> is a call that never
  answers.
\<close>

subsection \<open>Tables\<close>

text \<open>A row of \<open>reeds\<close>; \<open>rd_thread\<close> is its thread's head and its index there.\<close>

record reedRow =
  rd_id :: string
  rd_user :: string
  rd_at :: gotime
  rd_sig :: userSig
  rd_server_sig :: serverSig
  rd_published :: "gotime option"
  rd_thread :: "(string \<times> nat) option"

record threadRow =
  th_id :: string
  th_sig :: userSig
  th_server_sig :: serverSig

record echoRow =
  ec_echoing :: string
  ec_echoed :: string
  ec_echoing_author :: string
  ec_echoed_author :: string
  ec_blank :: bool
  ec_at :: gotime

record replyRow =
  ry_root :: string
  ry_reed :: string
  ry_parent :: string
  ry_at :: gotime

text \<open>A removal of one reed carries signatures, one that came with its thread names the thread.\<close>

record reedRemovalRow =
  rx_reed :: string
  rx_cert :: "(userSig \<times> serverSig) option"
  rx_thread :: "string option"

record threadRecord =
  tr_thread :: string
  tr_user :: string
  tr_reeds :: "string list"
  tr_sig :: userSig
  tr_server_sig :: serverSig

text \<open>\<open>threadRecordWire\<close> and \<open>threadRemovalWire\<close>; the stored record is kept as it was marshalled.\<close>

record threadRecordWire =
  tw_type :: string
  tw_server :: string
  tw_user :: string
  tw_thread :: string
  tw_reeds :: "string list"
  tw_sig :: userSig
  tw_server_sig :: serverSig

record threadRemovalWire =
  tc_type :: string
  tc_server :: string
  tc_user :: string
  tc_thread :: string
  tc_sig :: userSig
  tc_server_sig :: serverSig

record threadRemoval =
  tx_cert :: threadRemovalWire
  tx_record :: threadRecordWire

record threadRemovalRow =
  tq_thread :: string
  tq_sig :: userSig
  tq_server_sig :: serverSig
  tq_record :: threadRecordWire

text \<open>
  \<open>fe_reply_counts\<close> and \<open>fe_echo_counts\<close> are the columns of \<open>reed_stats\<close>: a row that isn't there
  counts zero.
\<close>

record feed =
  fe_social :: social
  fe_reeds :: "reedRow list"
  fe_threads :: "threadRow list"
  fe_echoes :: "echoRow list"
  fe_replies :: "replyRow list"
  fe_mentions :: "(string \<times> string) list"
  fe_admin_mentions :: "(string \<times> string) list"
  fe_removals :: "reedRemovalRow list"
  fe_thread_removals :: "threadRemovalRow list"
  fe_fanout :: "(string \<times> string list) list"
  fe_reply_counts :: "string \<Rightarrow> nat"
  fe_echo_counts :: "string \<Rightarrow> nat"

definition fe_db :: "feed \<Rightarrow> db" where
  "fe_db f = so_db (fe_social f)"

definition updDb :: "(db \<Rightarrow> db) \<Rightarrow> feed \<Rightarrow> feed" where
  "updDb g f = f\<lparr>fe_social := (fe_social f)\<lparr>so_db := g (fe_db f)\<rparr>\<rparr>"

lemma fe_db_updDb [simp]: "fe_db (updDb g f) = g (fe_db f)"
  by (simp add: fe_db_def updDb_def)

lemma updDb_fields [simp]:
  "fe_reeds (updDb g f) = fe_reeds f" "fe_threads (updDb g f) = fe_threads f" "fe_echoes (updDb g f) = fe_echoes f"
  "fe_replies (updDb g f) = fe_replies f" "fe_mentions (updDb g f) = fe_mentions f"
  "fe_admin_mentions (updDb g f) = fe_admin_mentions f" "fe_removals (updDb g f) = fe_removals f"
  "fe_thread_removals (updDb g f) = fe_thread_removals f" "fe_fanout (updDb g f) = fe_fanout f"
  "fe_reply_counts (updDb g f) = fe_reply_counts f" "fe_echo_counts (updDb g f) = fe_echo_counts f"
  "so_allocations (fe_social (updDb g f)) = so_allocations (fe_social f)"
  by (simp_all add: updDb_def)

lemma fe_db_fields [simp]:
  "fe_db (f\<lparr>fe_reeds := a\<rparr>) = fe_db f" "fe_db (f\<lparr>fe_threads := b\<rparr>) = fe_db f" "fe_db (f\<lparr>fe_echoes := c\<rparr>) = fe_db f"
  "fe_db (f\<lparr>fe_replies := d\<rparr>) = fe_db f" "fe_db (f\<lparr>fe_mentions := e\<rparr>) = fe_db f"
  "fe_db (f\<lparr>fe_admin_mentions := g\<rparr>) = fe_db f" "fe_db (f\<lparr>fe_removals := h\<rparr>) = fe_db f"
  "fe_db (f\<lparr>fe_thread_removals := i\<rparr>) = fe_db f" "fe_db (f\<lparr>fe_fanout := j\<rparr>) = fe_db f"
  "fe_db (f\<lparr>fe_reply_counts := k\<rparr>) = fe_db f" "fe_db (f\<lparr>fe_echo_counts := l\<rparr>) = fe_db f"
  "fe_db (f\<lparr>fe_social := s\<rparr>) = so_db s"
  by (simp_all add: fe_db_def)

subsection \<open>Identities of reeds\<close>

definition insertReedIdentityOf :: "string \<Rightarrow> string \<Rightarrow> string \<Rightarrow> db \<Rightarrow> db" where
  "insertReedIdentityOf reed server author d = (let d1 = upsertIdentity author d in
     if reed \<in> ri_id ` set (db_reed_identities d1) then d1
     else d1\<lparr>db_reed_identities := db_reed_identities d1 @ [\<lparr>ri_id = reed, ri_server = server, ri_author = author\<rparr>]\<rparr>)"

text \<open>\<open>insertReedIdentity\<close> and \<open>UpsertReedIdentity\<close>: the server and author are the id's own.\<close>

definition insertReedIdentity :: "string \<Rightarrow> feed \<Rightarrow> err + feed" where
  "insertReedIdentity reed f = (case parseKeyFingerprint reed of
     None \<Rightarrow> Inl (Internal ''malformed reed id'')
   | Some (author, server, _) \<Rightarrow> Inr (updDb (insertReedIdentityOf reed server (canonicalID server author)) f))"

definition reedKnown :: "feed \<Rightarrow> string \<Rightarrow> bool" where
  "reedKnown f reed \<longleftrightarrow> reed \<in> ri_id ` set (db_reed_identities (fe_db f))"

subsection \<open>An author's tip\<close>

definition reedRemoved :: "feed \<Rightarrow> string \<Rightarrow> bool" where
  "reedRemoved f reed \<longleftrightarrow> reed \<in> rx_reed ` set (fe_removals f)"

text \<open>\<open>ListUserReeds\<close>: an author's live reeds, the tip first.\<close>

definition reedKey :: "reedRow \<Rightarrow> nat \<times> string" where
  "reedKey r = (rd_at r, rd_id r)"

definition liveReeds :: "feed \<Rightarrow> string \<Rightarrow> reedRow list" where
  "liveReeds f u = filter (\<lambda>r. rd_user r = u \<and> \<not> reedRemoved f (rd_id r)) (fe_reeds f)"

definition listUserReeds :: "feed \<Rightarrow> string \<Rightarrow> string list" where
  "listUserReeds f u = map rd_id (keysetOrder reedKey (liveReeds f u))"

definition reedTip :: "feed \<Rightarrow> string \<Rightarrow> string option" where
  "reedTip f u = (case listUserReeds f u of [] \<Rightarrow> None | tip # _ \<Rightarrow> Some tip)"

definition errReedFork :: err where "errReedFork = Sentinel ''ErrReedFork''"

definition checkReedTipTx :: "feed \<Rightarrow> string \<Rightarrow> string \<Rightarrow> err option" where
  "checkReedTipTx f self previous =
     (if self \<notin> set (db_identities (fe_db f)) then Some (Sentinel ''ErrUserNotFound'')
      else case reedTip f self of
          None \<Rightarrow> if previous \<noteq> '''' then Some errReedFork else None
        | Some tip \<Rightarrow> if previous \<noteq> tip then Some errReedFork else None)"

subsection \<open>Mentions\<close>

definition insertMentionRow :: "string \<Rightarrow> string \<Rightarrow> feed \<Rightarrow> feed" where
  "insertMentionRow reed mentioned f =
     (if (reed, mentioned) \<in> set (fe_mentions f) then f
      else f\<lparr>fe_mentions := fe_mentions f @ [(reed, mentioned)]\<rparr>)"

definition insertAdminMentionRow :: "string \<Rightarrow> string \<Rightarrow> feed \<Rightarrow> feed" where
  "insertAdminMentionRow reed server f =
     (if (reed, server) \<in> set (fe_admin_mentions f) then f
      else f\<lparr>fe_admin_mentions := fe_admin_mentions f @ [(reed, server)]\<rparr>)"

definition insertMention :: "string \<Rightarrow> string \<Rightarrow> feed \<Rightarrow> feed" where
  "insertMention reed mentioned f = (case adminsMentionServer mentioned of
     (server, ok) \<Rightarrow> if ok then insertAdminMentionRow reed server f else insertMentionRow reed mentioned f)"

definition deleteMentionEntry :: "string \<Rightarrow> string \<Rightarrow> feed \<Rightarrow> bool \<times> feed" where
  "deleteMentionEntry reed mentioned f =
     ((reed, mentioned) \<in> set (fe_mentions f), f\<lparr>fe_mentions := filter (\<lambda>m. m \<noteq> (reed, mentioned)) (fe_mentions f)\<rparr>)"

definition deleteMentionsForReed :: "string \<Rightarrow> feed \<Rightarrow> feed" where
  "deleteMentionsForReed reed f = f\<lparr>fe_mentions := filter (\<lambda>m. fst m \<noteq> reed) (fe_mentions f)\<rparr>"

definition deleteMentionsByAuthor :: "string \<Rightarrow> feed \<Rightarrow> feed" where
  "deleteMentionsByAuthor u f =
     f\<lparr>fe_mentions := filter (\<lambda>m. \<not> ((\<exists>r \<in> set (fe_reeds f). rd_id r = fst m \<and> rd_user r = u) \<or> snd m = u)) (fe_mentions f)\<rparr>"

subsection \<open>Inserting a reed\<close>

record createReedParams =
  cr_reed :: string
  cr_user :: string
  cr_key :: string
  cr_sig :: string
  cr_server_key :: string
  cr_server_sig :: string
  cr_at :: gotime
  cr_tags :: "string list"
  cr_mentions :: "string list"
  cr_previous :: string
  cr_thread_head :: string
  cr_thread_index :: nat

text \<open>The id's own part must be a UUIDv7; one that doesn't parse is taken whole.\<close>

definition bareReedID :: "string \<Rightarrow> string" where
  "bareReedID i = (case parseKeyFingerprint i of Some (_, _, bare) \<Rightarrow> bare | None \<Rightarrow> i)"

definition reedRowOf :: "createReedParams \<Rightarrow> reedRow" where
  "reedRowOf p = (let at = truncateSecond (cr_at p) in
     \<lparr>rd_id = cr_reed p, rd_user = cr_user p, rd_at = at, rd_sig = \<lparr>us_id = cr_key p, us_armor = cr_sig p\<rparr>,
      rd_server_sig = \<lparr>ss_id = cr_server_key p, ss_armor = cr_server_sig p, ss_at = at\<rparr>, rd_published = None,
      rd_thread = (if cr_thread_head p \<noteq> '''' then Some (cr_thread_head p, cr_thread_index p) else None)\<rparr>)"

definition threadSlotTaken :: "feed \<Rightarrow> reedRow \<Rightarrow> bool" where
  "threadSlotTaken f r \<longleftrightarrow> rd_thread r \<noteq> None \<and> (\<exists>q \<in> set (fe_reeds f). rd_thread q = rd_thread r)"

definition insertReedCoreTx :: "env \<Rightarrow> (string \<Rightarrow> bool) \<Rightarrow> createReedParams \<Rightarrow> feed \<Rightarrow> err + reedRow \<times> feed" where
  "insertReedCoreTx E uuid7 p f =
     (if \<not> uuid7 (bareReedID (cr_reed p)) then Inl (Internal ''invalid reed ID'')
      else case checkReedTipTx f (cr_user p) (cr_previous p) of
        Some e \<Rightarrow> Inl e
      | None \<Rightarrow> (let r = reedRowOf p; f1 = updDb (insertReedIdentityOf (cr_reed p) (e_server_id E) (cr_user p)) f in
          if cr_reed p \<in> rd_id ` set (fe_reeds f1) then Inl (Sentinel ''reeds_pkey'')
          else if threadSlotTaken f1 r then Inl (Internal ''idx_reeds_thread'')
          else if (cr_reed p, cr_user p) \<in> set (so_allocations (fe_social f1)) then Inl (Internal ''allocate reed to author'')
          else if cr_reed p \<in> fst ` set (fe_fanout f1) then Inl (Internal ''insert pending fanout'')
          else Inr (r, fold (insertMention (cr_reed p)) (cr_mentions p)
            (f1\<lparr>fe_reeds := fe_reeds f1 @ [r],
               fe_social := (fe_social f1)\<lparr>so_allocations := so_allocations (fe_social f1) @ [(cr_reed p, cr_user p)]\<rparr>,
               fe_fanout := fe_fanout f1 @ [(cr_reed p, cr_tags p)]\<rparr>))))"

definition atSecond :: "createReedParams \<Rightarrow> createReedParams" where
  "atSecond p = p\<lparr>cr_at := truncateSecond (cr_at p)\<rparr>"

definition createReed :: "env \<Rightarrow> (string \<Rightarrow> bool) \<Rightarrow> createReedParams \<Rightarrow> feed \<Rightarrow> err + reedRow \<times> feed" where
  "createReed E uuid7 p f = insertReedCoreTx E uuid7 (atSecond p) f"

text \<open>\<open>GetReed\<close>, \<open>GetReedAttestation\<close>: a reed's row, removed or not; \<open>ReedExists\<close>: it is live.\<close>

definition getReed :: "feed \<Rightarrow> string \<Rightarrow> reedRow option" where
  "getReed f i = rowBy rd_id i (fe_reeds f)"

definition getReedAttestation :: "feed \<Rightarrow> string \<Rightarrow> reedRow option" where
  "getReedAttestation f i = rowBy rd_id i (fe_reeds f)"

definition reedExists :: "feed \<Rightarrow> string \<Rightarrow> bool" where
  "reedExists f i \<longleftrightarrow>
     (\<exists>r \<in> set (fe_reeds f). rd_id r = i \<and> \<not> reedRemoved f i \<and> \<not> hasAccountRemovalQ (fe_db f) (rd_user r))"

text \<open>\<open>DeleteReed\<close> of \<open>services.go\<close>, with what cascades from the row.\<close>

definition deleteReedRow :: "string \<Rightarrow> feed \<Rightarrow> feed" where
  "deleteReedRow i f = f\<lparr>fe_reeds := filter (\<lambda>r. rd_id r \<noteq> i) (fe_reeds f),
     fe_fanout := filter (\<lambda>q. fst q \<noteq> i) (fe_fanout f)\<rparr>"

subsection \<open>Threads\<close>

definition maxThreadReeds :: nat where "maxThreadReeds = 30"

definition errInvalidThread :: err where "errInvalidThread = Sentinel ''ErrInvalidThread''"

definition threadPartRefused :: "string \<Rightarrow> createReedParams list \<Rightarrow> nat \<Rightarrow> bool" where
  "threadPartRefused u parts i \<longleftrightarrow> cr_user (parts ! i) \<noteq> u \<or> authorOf (cr_reed (parts ! i)) \<noteq> Some u \<or>
     (0 < i \<and> cr_reed (parts ! i) \<le> cr_reed (parts ! (i - 1)))"

definition validateThreadParts :: "string \<Rightarrow> createReedParams list \<Rightarrow> err option" where
  "validateThreadParts u parts =
     (if length parts < 2 \<or> maxThreadReeds < length parts then Some errInvalidThread
      else if list_ex (threadPartRefused u parts) [0..<length parts] then Some errInvalidThread else None)"

record createThreadParams =
  ct_user :: string
  ct_key :: string
  ct_sig :: string
  ct_server_key :: string
  ct_server_sig :: string
  ct_at :: gotime
  ct_previous :: string
  ct_parts :: "createReedParams list"

text \<open>A part as it is inserted: after the part before it, at the thread's own second.\<close>

definition threadPart :: "createThreadParams \<Rightarrow> nat \<Rightarrow> createReedParams" where
  "threadPart p i = (ct_parts p ! i)\<lparr>cr_at := truncateSecond (ct_at p), cr_thread_head := cr_reed (ct_parts p ! 0),
     cr_thread_index := i, cr_previous := (if 0 < i then cr_reed (ct_parts p ! (i - 1)) else ct_previous p)\<rparr>"

definition insertThreadPart :: "env \<Rightarrow> (string \<Rightarrow> bool) \<Rightarrow> createThreadParams \<Rightarrow> nat \<Rightarrow> feed \<Rightarrow> err + feed" where
  "insertThreadPart E uuid7 p i f = bindR (insertReedCoreTx E uuid7 (threadPart p i) f) (\<lambda>(_, f'). Inr f')"

definition threadRecordOf :: "createThreadParams \<Rightarrow> threadRecord" where
  "threadRecordOf p = \<lparr>tr_thread = cr_reed (ct_parts p ! 0), tr_user = ct_user p, tr_reeds = map cr_reed (ct_parts p),
     tr_sig = \<lparr>us_id = ct_key p, us_armor = ct_sig p\<rparr>,
     tr_server_sig = \<lparr>ss_id = ct_server_key p, ss_armor = ct_server_sig p, ss_at = truncateSecond (ct_at p)\<rparr>\<rparr>"

definition createThread ::
    "env \<Rightarrow> (string \<Rightarrow> bool) \<Rightarrow> createThreadParams \<Rightarrow> feed \<Rightarrow> err + threadRecord \<times> feed" where
  "createThread E uuid7 p f = (case validateThreadParts (ct_user p) (ct_parts p) of
     Some e \<Rightarrow> Inl e
   | None \<Rightarrow> bindR (forEach (insertThreadPart E uuid7 p) [0..<length (ct_parts p)] f) (\<lambda>f1.
       let rec = threadRecordOf p in
       if tr_thread rec \<in> th_id ` set (fe_threads f1) then Inl (Sentinel ''reed_threads_pkey'')
       else Inr (rec, f1\<lparr>fe_threads := fe_threads f1 @
         [\<lparr>th_id = tr_thread rec, th_sig = tr_sig rec, th_server_sig = tr_server_sig rec\<rparr>]\<rparr>)))"

text \<open>\<open>GetThreadRecord\<close>: the parts by index; the user is the last part's, empty when there is none.\<close>

definition threadParts :: "feed \<Rightarrow> string \<Rightarrow> reedRow list" where
  "threadParts f head = sort_key (\<lambda>r. snd (the (rd_thread r)))
     (filter (\<lambda>r. map_option fst (rd_thread r) = Some head) (fe_reeds f))"

definition getThreadRecord :: "feed \<Rightarrow> string \<Rightarrow> threadRecord option" where
  "getThreadRecord f i = (case rowBy th_id i (fe_threads f) of
     None \<Rightarrow> None
   | Some t \<Rightarrow> let parts = threadParts f i in
       Some \<lparr>tr_thread = i, tr_user = (if parts = [] then '''' else rd_user (last parts)),
         tr_reeds = map rd_id parts, tr_sig = th_sig t, tr_server_sig = th_server_sig t\<rparr>)"

definition threadWire :: "string \<Rightarrow> threadRecord \<Rightarrow> threadRecordWire" where
  "threadWire server rec = \<lparr>tw_type = identityTypeThread, tw_server = server, tw_user = tr_user rec,
     tw_thread = tr_thread rec, tw_reeds = tr_reeds rec, tw_sig = tr_sig rec, tw_server_sig = tr_server_sig rec\<rparr>"

text \<open>\<open>ThreadHeadOf\<close>: the head of the thread a reed is a part of, or the empty string.\<close>

definition threadHeadOf :: "feed \<Rightarrow> string \<Rightarrow> string" where
  "threadHeadOf f i = (case rowBy rd_id i (fe_reeds f) of
     None \<Rightarrow> '''' | Some r \<Rightarrow> (case rd_thread r of None \<Rightarrow> '''' | Some (head, _) \<Rightarrow> head))"

subsection \<open>Echoes\<close>

text \<open>A new echo of somebody else's reed counts, by the trigger on the table.\<close>

definition bumpStat :: "string \<Rightarrow> bool \<Rightarrow> (string \<Rightarrow> nat) \<Rightarrow> string \<Rightarrow> nat" where
  "bumpStat i up counts = counts(i := (if up then Suc (counts i) else counts i - 1))"

definition countedEcho :: "echoRow \<Rightarrow> bool" where
  "countedEcho e \<longleftrightarrow> ec_echoing_author e \<noteq> ec_echoed_author e"

definition insertEchoRow :: "echoRow \<Rightarrow> feed \<Rightarrow> bool \<times> feed" where
  "insertEchoRow e f =
     (if ec_echoing e \<in> ec_echoing ` set (fe_echoes f) then (False, f)
      else (True, f\<lparr>fe_echoes := fe_echoes f @ [e],
        fe_echo_counts := (if countedEcho e then bumpStat (ec_echoed e) True (fe_echo_counts f) else fe_echo_counts f)\<rparr>))"

definition deleteEchoRows :: "(echoRow \<Rightarrow> bool) \<Rightarrow> feed \<Rightarrow> feed" where
  "deleteEchoRows p f = f\<lparr>fe_echoes := filter (\<lambda>e. \<not> p e) (fe_echoes f),
     fe_echo_counts := fold (\<lambda>e. if countedEcho e then bumpStat (ec_echoed e) False else (\<lambda>c. c))
       (filter p (fe_echoes f)) (fe_echo_counts f)\<rparr>"

definition mintForeign :: "env \<Rightarrow> reedRef \<Rightarrow> feed \<Rightarrow> err + feed" where
  "mintForeign E ref f =
     (if ref_server ref \<noteq> e_server_id E then insertReedIdentity (formatReedRef ref) f else Inr f)"

definition createReedWithEcho ::
    "env \<Rightarrow> (string \<Rightarrow> bool) \<Rightarrow> createReedParams \<Rightarrow> reedRef \<Rightarrow> bool \<Rightarrow> feed \<Rightarrow> err + (reedRow \<times> bool) \<times> feed" where
  "createReedWithEcho E uuid7 p target blank f =
     bindR (insertReedCoreTx E uuid7 (atSecond p) f) (\<lambda>(r, f1).
     bindR (mintForeign E target f1) (\<lambda>f2.
       let echoed = formatReedRef target; author = canonicalAuthorID target;
           f3 = (if ref_server target \<noteq> e_server_id E then updDb (upsertIdentity author) f2 else f2) in
       if \<not> reedKnown f3 echoed then Inl (Internal ''insert echo index'')
       else (case insertEchoRow \<lparr>ec_echoing = cr_reed p, ec_echoed = echoed, ec_echoing_author = cr_user p,
           ec_echoed_author = author, ec_blank = blank, ec_at = truncateSecond (cr_at p)\<rparr> f3 of
         (new, f4) \<Rightarrow> Inr ((r, new \<and> cr_user p \<noteq> author), f4))))"

definition insertForeignEcho ::
    "string \<Rightarrow> string \<Rightarrow> string \<Rightarrow> string \<Rightarrow> bool \<Rightarrow> gotime \<Rightarrow> feed \<Rightarrow> err + unit \<times> feed" where
  "insertForeignEcho echoing echoed echoingAuthor echoedAuthor blank at f =
     bindR (insertReedIdentity echoing f) (\<lambda>f1. bindR (insertReedIdentity echoed f1) (\<lambda>f2.
       if parseIdentityID echoingAuthor = None then Inl (Internal ''malformed echoing author id'')
       else Inr ((), snd (insertEchoRow \<lparr>ec_echoing = echoing, ec_echoed = echoed, ec_echoing_author = echoingAuthor,
         ec_echoed_author = echoedAuthor, ec_blank = blank, ec_at = truncateSecond at\<rparr>
           (updDb (upsertIdentity echoingAuthor) f2)))))"

text \<open>\<open>IsBlankEcho\<close>: \<open>None\<close> is \<open>ErrReedNotFound\<close>.\<close>

definition isBlankEcho :: "feed \<Rightarrow> string \<Rightarrow> bool option" where
  "isBlankEcho f i =
     (if \<not> reedExists f i then None
      else Some (case rowBy ec_echoing i (fe_echoes f) of None \<Rightarrow> False | Some e \<Rightarrow> ec_blank e))"

definition countEchoes :: "feed \<Rightarrow> string \<Rightarrow> nat" where
  "countEchoes f i = fe_echo_counts f i"

definition parsedRefs :: "string list \<Rightarrow> reedRef list" where
  "parsedRefs is = List.map_filter parseReedRef (remdups is)"

definition deleteEchoIndexForReed :: "string \<Rightarrow> feed \<Rightarrow> reedRef list \<times> feed" where
  "deleteEchoIndexForReed i f =
     (parsedRefs (map ec_echoed (filter (\<lambda>e. ec_echoing e = i) (fe_echoes f))),
      deleteEchoRows (\<lambda>e. ec_echoed e = i) (deleteEchoRows (\<lambda>e. ec_echoing e = i) f))"

definition echoBy :: "feed \<Rightarrow> string \<Rightarrow> echoRow \<Rightarrow> bool" where
  "echoBy f u e \<longleftrightarrow> (\<exists>r \<in> set (fe_reeds f). rd_id r = ec_echoing e \<and> rd_user r = u)"

definition deleteEchoesByAuthor :: "string \<Rightarrow> feed \<Rightarrow> reedRef list \<times> feed" where
  "deleteEchoesByAuthor u f =
     (parsedRefs (map ec_echoed (filter (echoBy f u) (fe_echoes f))), deleteEchoRows (echoBy f u) f)"

text \<open>\<open>DeleteForeignEchoReference\<close>: the reed it echoed, or the empty string.\<close>

definition deleteForeignEchoReference :: "string \<Rightarrow> feed \<Rightarrow> string \<times> feed" where
  "deleteForeignEchoReference i f =
     ((case rowBy ec_echoing i (fe_echoes f) of None \<Rightarrow> '''' | Some e \<Rightarrow> ec_echoed e),
      deleteEchoRows (\<lambda>e. ec_echoing e = i) f)"

subsection \<open>Replies\<close>

text \<open>\<open>ReplyParent\<close>: what a reply answers.\<close>

definition replyParent :: "replyRow list \<Rightarrow> string \<Rightarrow> string option" where
  "replyParent rs i = map_option ry_parent (rowBy ry_reed i rs)"

definition resolveConversationRoot :: "feed \<Rightarrow> reedRef \<Rightarrow> string" where
  "resolveConversationRoot f parent = (case rowBy ry_reed (formatReedRef parent) (fe_replies f) of
     None \<Rightarrow> formatReedRef parent | Some r \<Rightarrow> ry_root r)"

text \<open>
  \<open>bump_reply_ancestors\<close>: one more or one fewer for everything above a reed.  Nothing bounds the walk, so
  it is partial.
\<close>

partial_function (option) bumpReplyAncestors ::
    "replyRow list \<Rightarrow> bool \<Rightarrow> string \<Rightarrow> (string \<Rightarrow> nat) \<Rightarrow> (string \<Rightarrow> nat) option" where
  "bumpReplyAncestors rs up i counts = (case replyParent rs i of
     None \<Rightarrow> Some counts
   | Some p \<Rightarrow> bumpReplyAncestors rs up p (bumpStat p up counts))"

definition bumpAncestors :: "bool \<Rightarrow> string \<Rightarrow> feed \<Rightarrow> feed option" where
  "bumpAncestors up i f = map_option (\<lambda>c. f\<lparr>fe_reply_counts := c\<rparr>)
     (bumpReplyAncestors (fe_replies f) up i (fe_reply_counts f))"

text \<open>A row of \<open>reed_replies\<close> with its trigger: the ancestors count it unless its author has gone.\<close>

definition authorRemoved :: "feed \<Rightarrow> string \<Rightarrow> bool" where
  "authorRemoved f i \<longleftrightarrow> (\<exists>r \<in> set (fe_reeds f). rd_id r = i \<and> hasAccountRemovalQ (fe_db f) (rd_user r))"

definition addReplyRow :: "replyRow \<Rightarrow> feed \<Rightarrow> feed option" where
  "addReplyRow y f = (let f1 = f\<lparr>fe_replies := fe_replies f @ [y]\<rparr> in
     if authorRemoved f1 (ry_reed y) then Some f1 else bumpAncestors True (ry_reed y) f1)"

text \<open>Both of a reply's reeds must have an identity: the foreign keys of the table.\<close>

definition insertReplyTx :: "env \<Rightarrow> string \<Rightarrow> reedRef \<Rightarrow> string \<Rightarrow> gotime \<Rightarrow> feed \<Rightarrow> (err + feed) option" where
  "insertReplyTx E root parent reply at f = (case mintForeign E parent f of
     Inl e \<Rightarrow> Some (Inl e)
   | Inr f1 \<Rightarrow> (case (case parseKeyFingerprint reply of
         Some (_, server, _) \<Rightarrow> if server \<noteq> e_server_id E then insertReedIdentity reply f1 else Inr f1
       | None \<Rightarrow> Inr f1) of
       Inl e \<Rightarrow> Some (Inl e)
     | Inr f2 \<Rightarrow>
         if reply \<in> ry_reed ` set (fe_replies f2) \<or> \<not> reedKnown f2 reply \<or> \<not> reedKnown f2 (formatReedRef parent)
         then Some (Inl (Internal ''insert reply index''))
         else map_option Inr (addReplyRow
           \<lparr>ry_root = root, ry_reed = reply, ry_parent = formatReedRef parent, ry_at = at\<rparr> f2)))"

definition insertReply :: "env \<Rightarrow> string \<Rightarrow> reedRef \<Rightarrow> string \<Rightarrow> gotime \<Rightarrow> feed \<Rightarrow> (err + feed) option" where
  "insertReply E root parent reply at f = insertReplyTx E root parent reply (truncateSecond at) f"

definition createReedWithReply ::
    "env \<Rightarrow> (string \<Rightarrow> bool) \<Rightarrow> createReedParams \<Rightarrow> string \<Rightarrow> reedRef \<Rightarrow> feed \<Rightarrow> (err + reedRow \<times> feed) option" where
  "createReedWithReply E uuid7 p root parent f = (case insertReedCoreTx E uuid7 (atSecond p) f of
     Inl e \<Rightarrow> Some (Inl e)
   | Inr (r, f1) \<Rightarrow> map_option (\<lambda>x. bindR x (\<lambda>f2. Inr (r, f2)))
       (insertReplyTx E root parent (cr_reed p) (truncateSecond (cr_at p)) f1))"

definition insertForeignReply :: "string \<Rightarrow> string \<Rightarrow> string \<Rightarrow> gotime \<Rightarrow> feed \<Rightarrow> (err + feed) option" where
  "insertForeignReply parent reply root at f = (case insertReedIdentity reply f of
     Inl e \<Rightarrow> Some (Inl e)
   | Inr f1 \<Rightarrow> (case insertReedIdentity parent f1 of
       Inl e \<Rightarrow> Some (Inl e)
     | Inr f2 \<Rightarrow> if reply \<in> ry_reed ` set (fe_replies f2) then Some (Inr f2)
         else map_option Inr (addReplyRow
           \<lparr>ry_root = root, ry_reed = reply, ry_parent = parent, ry_at = truncateSecond at\<rparr> f2)))"

text \<open>\<open>DeleteForeignReplyReference\<close>, with the trigger on deleting the row.\<close>

definition deleteForeignReplyReference :: "string \<Rightarrow> feed \<Rightarrow> (bool \<times> feed) option" where
  "deleteForeignReplyReference i f = (case rowBy ry_reed i (fe_replies f) of
     None \<Rightarrow> Some (False, f)
   | Some y \<Rightarrow> map_option (Pair True) (bumpAncestors False (ry_parent y)
       (f\<lparr>fe_replies := filter (\<lambda>r. ry_reed r \<noteq> i) (fe_replies f),
          fe_reply_counts := bumpStat (ry_parent y) False (fe_reply_counts f)\<rparr>)))"

text \<open>\<open>ReplyCountNotifyTargets\<close>: a reed and everything above it; an error at an id that isn't a reed's.\<close>

partial_function (option) replyCountNotifyTargets :: "replyRow list \<Rightarrow> string \<Rightarrow> (err + reedRef list) option" where
  "replyCountNotifyTargets rs i = (case parseReedRef i of
     None \<Rightarrow> Some (Inl (Internal ''malformed reed id''))
   | Some ref \<Rightarrow> (case replyParent rs i of
       None \<Rightarrow> Some (Inr [ref])
     | Some p \<Rightarrow> Option.bind (replyCountNotifyTargets rs p) (\<lambda>ts. Some (bindR ts (\<lambda>refs. Inr (ref # refs))))))"

definition replyCountNotifyTargetsForRemovedReply :: "feed \<Rightarrow> string \<Rightarrow> (err + reedRef list) option" where
  "replyCountNotifyTargetsForRemovedReply f i = (case replyParent (fe_replies f) i of
     None \<Rightarrow> Some (Inr [])
   | Some p \<Rightarrow> replyCountNotifyTargets (fe_replies f) p)"

definition getSubtreeReplyCount :: "feed \<Rightarrow> string \<Rightarrow> nat" where
  "getSubtreeReplyCount f i = fe_reply_counts f i"

subsection \<open>Removals\<close>

record reedRemovalCert =
  rc_reed :: string
  rc_user :: string
  rc_sig :: userSig
  rc_server_sig :: serverSig

text \<open>\<open>loadReedCertTx\<close>: only a removal of its own carries signatures.\<close>

definition loadReedCert :: "feed \<Rightarrow> string \<Rightarrow> err + reedRemovalCert option" where
  "loadReedCert f i = (case rowBy rx_reed i (fe_removals f) of
     None \<Rightarrow> Inr None
   | Some r \<Rightarrow> (case rx_cert r of
       None \<Rightarrow> Inr None
     | Some (us, ss) \<Rightarrow> (case authorOf i of
         None \<Rightarrow> Inl (Internal ''malformed reed id'')
       | Some u \<Rightarrow> Inr (Some \<lparr>rc_reed = i, rc_user = u, rc_sig = us, rc_server_sig = ss\<rparr>))))"

text \<open>A row of \<open>reed_removals\<close> with its trigger: the ancestors no longer count the reed.\<close>

definition addRemovalRow :: "reedRemovalRow \<Rightarrow> feed \<Rightarrow> feed option" where
  "addRemovalRow r f = bumpAncestors False (rx_reed r) (f\<lparr>fe_removals := fe_removals f @ [r]\<rparr>)"

text \<open>\<open>enqueuePublishedRemovalTx\<close>: peers were only told of what was published.\<close>

definition enqueuePublishedRemovalTx :: "string \<Rightarrow> string \<Rightarrow> feed \<Rightarrow> feed" where
  "enqueuePublishedRemovalTx kind i f =
     (if \<exists>r \<in> set (fe_reeds f). rd_id r = i \<and> rd_published r \<noteq> None then updDb (enqueuePeerEventTx kind i) f else f)"

definition truncateSig :: "serverSig \<Rightarrow> serverSig" where
  "truncateSig s = s\<lparr>ss_at := truncateSecond (ss_at s)\<rparr>"

definition errRemovalConflict :: err where "errRemovalConflict = Sentinel ''errRemovalConflict''"

definition insertReedRemoval :: "reedRemovalCert \<Rightarrow> feed \<Rightarrow> (err + feed) option" where
  "insertReedRemoval cert f = (case loadReedCert f (rc_reed cert) of
     Inl e \<Rightarrow> Some (Inl e)
   | Inr (Some existing) \<Rightarrow> Some (if rc_sig existing \<noteq> rc_sig cert \<or> rc_server_sig existing \<noteq> truncateSig (rc_server_sig cert)
       then Inl errRemovalConflict else Inr f)
   | Inr None \<Rightarrow> if reedRemoved f (rc_reed cert) then Some (Inl (Internal ''insert reed removal''))
       else map_option (\<lambda>f1. Inr (enqueuePublishedRemovalTx peerEventReedRemoval (rc_reed cert) f1))
         (addRemovalRow \<lparr>rx_reed = rc_reed cert, rx_cert = Some (rc_sig cert, truncateSig (rc_server_sig cert)),
           rx_thread = None\<rparr> f))"

text \<open>The parts of a removed thread that aren't removed yet.\<close>

fun removeParts :: "string \<Rightarrow> string list \<Rightarrow> feed \<Rightarrow> feed option" where
  "removeParts head [] f = Some f"
| "removeParts head (i # is) f =
     (if reedRemoved f i then removeParts head is f
      else Option.bind (addRemovalRow \<lparr>rx_reed = i, rx_cert = None, rx_thread = Some head\<rparr> f) (removeParts head is))"

definition insertThreadRemoval :: "threadRemoval \<Rightarrow> feed \<Rightarrow> (err + feed) option" where
  "insertThreadRemoval rm f = (let c = tx_cert rm in
     case rowBy tq_thread (tc_thread c) (fe_thread_removals f) of
       Some q \<Rightarrow> Some (if us_armor (tq_sig q) \<noteq> us_armor (tc_sig c) then Inl errRemovalConflict else Inr f)
     | None \<Rightarrow> map_option Inr (removeParts (tc_thread c) (tw_reeds (tx_record rm))
         (enqueuePublishedRemovalTx peerEventThreadRemoval (tc_thread c)
           (f\<lparr>fe_thread_removals := fe_thread_removals f @ [\<lparr>tq_thread = tc_thread c, tq_sig = tc_sig c,
             tq_server_sig = truncateSig (tc_server_sig c), tq_record = tx_record rm\<rparr>]\<rparr>))))"

definition getThreadRemoval :: "feed \<Rightarrow> string \<Rightarrow> threadRemoval option" where
  "getThreadRemoval f i = map_option (\<lambda>q. \<lparr>tx_cert = \<lparr>tc_type = identityTypeThreadRemoval,
       tc_server = tw_server (tq_record q), tc_user = tw_user (tq_record q), tc_thread = i, tc_sig = tq_sig q,
       tc_server_sig = tq_server_sig q\<rparr>, tx_record = tq_record q\<rparr>)
     (rowBy tq_thread i (fe_thread_removals f))"

definition removedThreadOf :: "feed \<Rightarrow> string \<Rightarrow> string" where
  "removedThreadOf f i = (case rowBy rx_reed i (fe_removals f) of
     None \<Rightarrow> '''' | Some r \<Rightarrow> (case rx_thread r of None \<Rightarrow> '''' | Some t \<Rightarrow> t))"

text \<open>\<open>GetReedOrRemovalCert\<close>: an account's removal before a reed's, a reed's before its thread's.\<close>

datatype reedOrRemoval =
    AccountGone accountRemovalCert
  | ReedGone reedRemovalCert
  | ThreadGone threadRemoval
  | HereReed reedRow
  | NoReed

definition orReed :: "reedRow option \<Rightarrow> reedOrRemoval" where
  "orReed r = (case r of None \<Rightarrow> NoReed | Some x \<Rightarrow> HereReed x)"

definition getReedOrRemovalCert :: "env \<Rightarrow> feed \<Rightarrow> string \<Rightarrow> err + reedOrRemoval" where
  "getReedOrRemovalCert E f i = (case parseKeyFingerprint i of
     None \<Rightarrow> Inl (Internal ''malformed reed id'')
   | Some (u, _, _) \<Rightarrow> (case getAccountRemoval E (fe_db f) u of
       Some c \<Rightarrow> Inr (AccountGone c)
     | None \<Rightarrow> bindR (loadReedCert f i) (\<lambda>cert. (case cert of
         Some c \<Rightarrow> Inr (ReedGone c)
       | None \<Rightarrow> Inr (let t = removedThreadOf f i in
           if t = '''' then orReed (getReed f i)
           else (case getThreadRemoval f t of Some rm \<Rightarrow> ThreadGone rm | None \<Rightarrow> orReed (getReed f i)))))))"

text \<open>Who still holds a part of a removed thread, and letting go of it.\<close>

definition heldParts :: "feed \<Rightarrow> string \<Rightarrow> (reedRemovalRow \<Rightarrow> bool) \<Rightarrow> reedRemovalRow list" where
  "heldParts f u p = filter (\<lambda>r. p r \<and> (rx_reed r, u) \<in> set (so_allocations (fe_social f))) (fe_removals f)"

definition getMissingThreadRemovals :: "feed \<Rightarrow> string \<Rightarrow> string list" where
  "getMissingThreadRemovals f u = remdups (List.map_filter rx_thread (heldParts f u (\<lambda>r. rx_thread r \<noteq> None)))"

definition onlineThreadHolders :: "feed \<Rightarrow> string \<Rightarrow> string list" where
  "onlineThreadHolders f t = filter (\<lambda>u. heldParts f u (\<lambda>r. rx_thread r = Some t) \<noteq> []) (remdups (so_online (fe_social f)))"

definition deleteThreadAllocations :: "string \<Rightarrow> string \<Rightarrow> feed \<Rightarrow> string list \<times> feed" where
  "deleteThreadAllocations t u f = (let gone = map rx_reed (heldParts f u (\<lambda>r. rx_thread r = Some t)) in
     (gone, f\<lparr>fe_social := (fe_social f)\<lparr>so_allocations :=
       filter (\<lambda>(reed, holder). \<not> (holder = u \<and> reed \<in> set gone)) (so_allocations (fe_social f))\<rparr>\<rparr>))"

subsection \<open>Publishing\<close>

text \<open>\<open>publishUnitSQL\<close>: what one PUBLISH_READY covers, a whole thread by its head.\<close>

definition publishUnit :: "string \<Rightarrow> reedRow \<Rightarrow> bool" where
  "publishUnit i r \<longleftrightarrow> (rd_id r = i \<and> rd_thread r = None) \<or> map_option fst (rd_thread r) = Some i"

definition claimPendingFanout :: "gotime \<Rightarrow> string \<Rightarrow> feed \<Rightarrow> (bool \<times> string list) \<times> feed" where
  "claimPendingFanout now i f = (let unit = set (map rd_id (filter (publishUnit i) (fe_reeds f)));
       claimed = filter (\<lambda>q. fst q \<in> unit) (fe_fanout f) in
     if claimed = [] then ((False, []), f)
     else ((True, remdups (concat (map snd claimed))),
       updDb (enqueuePeerEventTx peerEventNewReed i)
         (f\<lparr>fe_fanout := filter (\<lambda>q. fst q \<notin> unit) (fe_fanout f),
            fe_reeds := updWhere (\<lambda>r. publishUnit i r \<and> rd_published r = None)
              (\<lambda>r. r\<lparr>rd_published := Some now\<rparr>) (fe_reeds f)\<rparr>)))"

subsection \<open>Listings\<close>

text \<open>
  The pages of replies and echoers run oldest first.  A cursor is a time, and the row it names is
  compared with an empty id.
\<close>

definition listLimit :: "int \<Rightarrow> nat" where
  "listLimit limit = nat (if limit \<le> 0 then 50 else if limit > 100 then 100 else limit)"

definition timePage :: "int \<Rightarrow> gotime option \<Rightarrow> (gotime \<times> string) list \<Rightarrow> (gotime \<times> string) list \<times> bool" where
  "timePage limit before rows = (let n = listLimit limit;
       sel = (case before of None \<Rightarrow> rows | Some t \<Rightarrow> filter (\<lambda>r. r > (truncateSecond t, '''')) rows);
       got = take (n + 1) (sort sel)
     in (take n got, n < length got))"

definition visibleReply :: "feed \<Rightarrow> replyRow \<Rightarrow> bool" where
  "visibleReply f y \<longleftrightarrow> \<not> reedRemoved f (ry_reed y) \<and> \<not> authorRemoved f (ry_reed y)"

definition listReplies :: "feed \<Rightarrow> string \<Rightarrow> int \<Rightarrow> gotime option \<Rightarrow> (gotime \<times> string) list \<times> bool" where
  "listReplies f parent limit before = timePage limit before
     (map (\<lambda>y. (ry_at y, ry_reed y)) (filter (\<lambda>y. ry_parent y = parent \<and> visibleReply f y) (fe_replies f)))"

text \<open>\<open>GetReedChorus\<close>: everybody else who echoed, once, by their first echo.\<close>

definition chorusOf :: "feed \<Rightarrow> string \<Rightarrow> echoRow list" where
  "chorusOf f i = filter (\<lambda>e. ec_echoed e = i \<and> countedEcho e \<and> \<not> hasAccountRemovalQ (fe_db f) (ec_echoing_author e)) (fe_echoes f)"

definition getReedChorus :: "feed \<Rightarrow> string \<Rightarrow> int \<Rightarrow> gotime option \<Rightarrow> (gotime \<times> string) list \<times> bool" where
  "getReedChorus f i limit before = timePage limit before
     (map (\<lambda>u. (Min (set (map ec_at (filter (\<lambda>e. ec_echoing_author e = u) (chorusOf f i)))), u))
       (remdups (map ec_echoing_author (chorusOf f i))))"

text \<open>A thread is listed by its head: what a mention of a part is sent as.\<close>

definition unitOf :: "feed \<Rightarrow> string \<Rightarrow> string" where
  "unitOf f i = (case threadHeadOf f i of [] \<Rightarrow> i | h # hs \<Rightarrow> h # hs)"

definition mentionsUnit :: "feed \<Rightarrow> string \<Rightarrow> string \<times> string \<Rightarrow> bool" where
  "mentionsUnit f i m \<longleftrightarrow> (fst m = i \<and> threadHeadOf f i = '''') \<or> (threadHeadOf f (fst m) = i \<and> i \<noteq> '''')"

definition getReedAdminMentions :: "feed \<Rightarrow> string \<Rightarrow> string list" where
  "getReedAdminMentions f i = remdups (map snd (filter (mentionsUnit f i) (fe_admin_mentions f)))"

definition getOnlineMentionedUsers :: "feed \<Rightarrow> string \<Rightarrow> string list" where
  "getOnlineMentionedUsers f i = remdups (filter (\<lambda>u. u \<in> set (so_online (fe_social f)))
     (map snd (filter (mentionsUnit f i) (fe_mentions f))))"

definition missing :: "feed \<Rightarrow> string \<Rightarrow> string \<Rightarrow> bool" where
  "missing f u i \<longleftrightarrow> (i, u) \<notin> set (so_allocations (fe_social f)) \<and> \<not> reedRemoved f i"

text \<open>The reeds a user is owed, each with its author: those that mention them, their server's admins, or reply to them.\<close>

definition identified :: "feed \<Rightarrow> string \<Rightarrow> (string \<times> string) list" where
  "identified f i = map (\<lambda>r. (unitOf f i, ri_author r)) (filter (\<lambda>r. ri_id r = i) (db_reed_identities (fe_db f)))"

definition getMissingMentions :: "feed \<Rightarrow> string \<Rightarrow> (string \<times> string) list" where
  "getMissingMentions f u = filter (\<lambda>(i, _). missing f u i)
     (remdups (concat (map (identified f \<circ> fst) (filter (\<lambda>m. snd m = u) (fe_mentions f)))))"

definition getMissingAdminMentions :: "env \<Rightarrow> feed \<Rightarrow> string \<Rightarrow> (string \<times> string) list" where
  "getMissingAdminMentions E f u = filter (\<lambda>(i, author). author \<noteq> u \<and> isAdmin (userRoleQ (fe_db f) u) \<and> missing f u i)
     (remdups (concat (map (identified f \<circ> fst) (filter (\<lambda>m. snd m = e_server_id E) (fe_admin_mentions f)))))"

definition getMissingReplies :: "feed \<Rightarrow> string \<Rightarrow> (string \<times> string) list" where
  "getMissingReplies f u = concat (map (\<lambda>y.
     if \<exists>r \<in> set (fe_reeds f). rd_id r = ry_parent y \<and> rd_user r = u then
       map (\<lambda>r. (ri_id r, ri_author r)) (filter (\<lambda>r. ri_id r = ry_reed y \<and> ri_author r \<noteq> u \<and> missing f u (ri_id r))
         (db_reed_identities (fe_db f))) else []) (fe_replies f))"

definition replyTargetsOfAuthor :: "feed \<Rightarrow> string \<Rightarrow> string list" where
  "replyTargetsOfAuthor f u = map ry_parent (filter (\<lambda>y. \<exists>r \<in> set (fe_reeds f). rd_id r = ry_reed y \<and> rd_user r = u) (fe_replies f))"

text \<open>The loop of \<open>ReplyCountNotifyTargetsForAuthor\<close>: each ancestor once, by its author's bare id and reed.\<close>

fun authorTargets :: "replyRow list \<Rightarrow> string list \<Rightarrow> reedRef list \<Rightarrow> (err + reedRef list) option" where
  "authorTargets rs [] out = Some (Inr out)"
| "authorTargets rs (p # ps) out = (case replyCountNotifyTargets rs p of
     None \<Rightarrow> None
   | Some (Inl e) \<Rightarrow> Some (Inl e)
   | Some (Inr refs) \<Rightarrow> authorTargets rs ps (fold (\<lambda>t out.
       if (ref_author t, ref_reed t) \<in> (\<lambda>t. (ref_author t, ref_reed t)) ` set out then out else out @ [t]) refs out))"

definition replyCountNotifyTargetsForAuthor :: "feed \<Rightarrow> string \<Rightarrow> (err + reedRef list) option" where
  "replyCountNotifyTargetsForAuthor f u = authorTargets (fe_replies f) (replyTargetsOfAuthor f u) []"

subsection \<open>Removing an account\<close>

text \<open>\<open>account_removal_reply_count_trigger\<close>: what the account's live replies answered counts them no more.\<close>

fun bumpAll :: "string list \<Rightarrow> feed \<Rightarrow> feed option" where
  "bumpAll [] f = Some f"
| "bumpAll (i # is) f = Option.bind (bumpAncestors False i f) (bumpAll is)"

definition liveRepliesOf :: "feed \<Rightarrow> string \<Rightarrow> string list" where
  "liveRepliesOf f u = map ry_reed (filter (\<lambda>y. \<not> reedRemoved f (ry_reed y) \<and>
     (\<exists>r \<in> set (fe_reeds f). rd_id r = ry_reed y \<and> rd_user r = u)) (fe_replies f))"

definition storeAccountRemoval :: "env \<Rightarrow> accountRemovalCert \<Rightarrow> string \<Rightarrow> feed \<Rightarrow> (err + feed) option" where
  "storeAccountRemoval E cert u f = (case storeAccountRemovalTx E cert u (fe_db f) of
     Inl e \<Rightarrow> Some (Inl e)
   | Inr (_, d) \<Rightarrow> if hasAccountRemovalQ (fe_db f) u then Some (Inr (updDb (\<lambda>_. d) f))
       else map_option Inr (bumpAll (liveRepliesOf f u) (updDb (\<lambda>_. d) f)))"

end
