(* ===== verification/ReedRoutes.thy ===== *)
theory ReedRoutes
  imports Reeds
begin

text \<open>
  The routes of reeds and threads (\<open>handlers.go\<close>): signing one, a whole thread, and removing them; and
  what a peer tells of its users' (\<open>federation_relay.go\<close>).  The session names the caller; whether an id
  is a UUIDv7, Unicode lowercasing and the tags somebody listens to are parameters.  An answer is an
  option: \<open>None\<close> is a call that never returns.
\<close>

datatype reedEffect =
    EchoCountChanged string string
  | ReplyCountChanged string string
  | PushReedRemoval reedRemovalCert
  | PushThreadRemoval threadRemoval
  | PushNewReed string string string
  | PushReplyRemoval string string reedRemovalCert
  | PushReplyAt string string
  | DrainAllPeers

subsection \<open>What a reed claims\<close>

definition parseReedRefChecked :: "(string \<Rightarrow> bool) \<Rightarrow> string \<Rightarrow> reedRef option" where
  "parseReedRefChecked uuid7 raw = (case parseReedRef raw of
     None \<Rightarrow> None | Some ref \<Rightarrow> if uuid7 (ref_reed ref) then Some ref else None)"

text \<open>A reference that may be absent: \<open>None\<close> when it is there and malformed.\<close>

definition optionalRef :: "(string \<Rightarrow> bool) \<Rightarrow> string \<Rightarrow> reedRef option option" where
  "optionalRef uuid7 raw = (if raw = '''' then Some None else map_option Some (parseReedRefChecked uuid7 raw))"

text \<open>The loop of \<open>normalizeClaimedTags\<close>; \<open>lower\<close> is \<open>strings.ToLower\<close>.\<close>

fun tagLoop :: "(string \<Rightarrow> string) \<Rightarrow> string list \<Rightarrow> string list \<Rightarrow> string list" where
  "tagLoop lower [] out = out"
| "tagLoop lower (c # cs) out = (let tag = lower (trimSpace c) in
     if tag = '''' \<or> set tag \<inter> {CHR '' '', CHR 0x09, CHR 0x0A, CHR 0x0D} \<noteq> {} then tagLoop lower cs out
     else if tag \<in> set out then tagLoop lower cs out
     else tagLoop lower cs (out @ [tag]))"

definition normalizeClaimedTags :: "(string \<Rightarrow> string) \<Rightarrow> string list \<Rightarrow> string list" where
  "normalizeClaimedTags lower claims = tagLoop lower claims []"

text \<open>
  \<open>resolveMentionClaims\<close>: first the claims in order, foreign ones put aside; \<open>None\<close> is a local user
  who doesn't exist.  Then the foreign ones whose server is a peer.
\<close>

fun sortMentions :: "env \<Rightarrow> db \<Rightarrow> reedRef list \<Rightarrow> string list \<Rightarrow> string list \<Rightarrow> (string list \<times> string list) option" where
  "sortMentions E d [] stored foreign = Some (stored, foreign)"
| "sortMentions E d (m # ms) stored foreign =
     (if ref_author m = adminsHandle then
        sortMentions E d ms (if ref_server m = e_server_id E \<or> getServerByID d (ref_server m) \<noteq> None
          then stored @ [canonicalAuthorID m] else stored) foreign
      else if ref_server m \<noteq> e_server_id E then sortMentions E d ms stored (foreign @ [canonicalAuthorID m])
      else if \<not> mentionTargetValid E d (ref_author m) then None
      else sortMentions E d ms (stored @ [canonicalAuthorID m]) foreign)"

definition keepForeignMention :: "string \<Rightarrow> string list \<times> db \<Rightarrow> string list \<times> db" where
  "keepForeignMention m sd = (case sd of (stored, d) \<Rightarrow>
     (case getServerByID d (case identityServerID m of None \<Rightarrow> '''' | Some v \<Rightarrow> v) of
        None \<Rightarrow> (stored, d) | Some _ \<Rightarrow> (stored @ [m], upsertIdentity m d)))"

definition resolveMentionClaims :: "env \<Rightarrow> string list \<Rightarrow> string \<Rightarrow> feed \<Rightarrow> (string list \<times> feed) option" where
  "resolveMentionClaims E claimed u f = (case sortMentions E (fe_db f) (validateMentionClaims claimed u) [] [] of
     None \<Rightarrow> None
   | Some (stored, foreign) \<Rightarrow> (case fold keepForeignMention foreign (stored, fe_db f) of
       (stored', d) \<Rightarrow> Some (stored', updDb (\<lambda>_. d) f)))"

text \<open>\<open>activeUserKey\<close> with \<open>GetActiveKeyFingerprint\<close>.\<close>

definition activeUserKey :: "db \<Rightarrow> string \<Rightarrow> nat \<times> string + key" where
  "activeUserKey d u = (case Option.bind (userRow d u) u_active_key of
     None \<Rightarrow> Inl (500, ''Internal Server Error'')
   | Some i \<Rightarrow> if i = '''' then Inl (500, ''Internal Server Error'')
       else (case getPublicKey d i of
           None \<Rightarrow> Inl (401, ''Active public key not available'')
         | Some k \<Rightarrow> if key_revoked k then Inl (401, ''Active public key not available'') else Inr k))"

subsection \<open>Signing a reed\<close>

record signReedMsg =
  sg_sig :: string
  sg_reed :: string
  sg_echoing :: string
  sg_replying :: string
  sg_previous :: string
  sg_tags :: "string list"
  sg_mentions :: "string list"

definition respondSignReedReplay :: "reedRow \<Rightarrow> string \<Rightarrow> serverSig answer" where
  "respondSignReedReplay existing sig =
     (if us_armor (rd_sig existing) \<noteq> sig then Fail 409 ''Reed already exists with a different signature''
      else Done 200 (rd_server_sig existing))"

text \<open>The one of the three creations the references ask for; whether an echo was indexed.\<close>

definition storeReed ::
    "env \<Rightarrow> (string \<Rightarrow> bool) \<Rightarrow> createReedParams \<Rightarrow> reedRef option \<Rightarrow> reedRef option \<Rightarrow> string \<Rightarrow> feed \<Rightarrow>
     (err + (reedRow \<times> bool) \<times> feed) option" where
  "storeReed E uuid7 p echo reply root f = (case echo of
     Some target \<Rightarrow> Some (createReedWithEcho E uuid7 p target False f)
   | None \<Rightarrow> (case reply of
       Some parent \<Rightarrow> map_option (\<lambda>x. bindR x (\<lambda>(r, f'). Inr ((r, False), f'))) (createReedWithReply E uuid7 p root parent f)
     | None \<Rightarrow> Some (bindR (createReed E uuid7 p f) (\<lambda>(r, f'). Inr ((r, False), f')))))"

definition replyCountEffects :: "err + reedRef list \<Rightarrow> reedEffect list" where
  "replyCountEffects ts = (case ts of
     Inl e \<Rightarrow> [] | Inr refs \<Rightarrow> map (\<lambda>t. ReplyCountChanged (canonicalAuthorID t) (ref_reed t)) refs)"

definition afterReed :: "env \<Rightarrow> bool \<Rightarrow> reedRef option \<Rightarrow> reedRef option \<Rightarrow> feed \<Rightarrow> reedEffect list option" where
  "afterReed E indexed echo reply f = map_option (append (case echo of
       Some t \<Rightarrow> if indexed \<and> ref_server t = e_server_id E then [EchoCountChanged (canonicalAuthorID t) (ref_reed t)] else []
     | None \<Rightarrow> []))
     (case reply of
       None \<Rightarrow> Some []
     | Some parent \<Rightarrow> map_option replyCountEffects (replyCountNotifyTargets (fe_replies f) (formatReedRef parent)))"

definition reedParams :: "signReedMsg \<Rightarrow> string \<Rightarrow> string \<Rightarrow> serverSig \<Rightarrow> string list \<Rightarrow> string list \<Rightarrow> createReedParams" where
  "reedParams m u keyID ss tags mentions = \<lparr>cr_reed = sg_reed m, cr_user = u, cr_key = keyID, cr_sig = sg_sig m,
     cr_server_key = ss_id ss, cr_server_sig = ss_armor ss, cr_at = ss_at ss, cr_tags = tags, cr_mentions = mentions,
     cr_previous = trimSpace (sg_previous m), cr_thread_head = '''', cr_thread_index = 0\<rparr>"

text \<open>A creation's answer; one that lost to the same reed repeats what is stored.\<close>

definition finishReed ::
    "env \<Rightarrow> signReedMsg \<Rightarrow> serverSig \<Rightarrow> reedRef option \<Rightarrow> reedRef option \<Rightarrow> feed \<Rightarrow> err + (reedRow \<times> bool) \<times> feed \<Rightarrow>
     (serverSig answer \<times> feed \<times> reedEffect list) option" where
  "finishReed E m ss echo reply f r = (case r of
     Inl e \<Rightarrow> Some (case (e = Sentinel ''reeds_pkey'', getReedAttestation f (sg_reed m)) of
         (True, Some existing) \<Rightarrow> respondSignReedReplay existing (sg_sig m)
       | _ \<Rightarrow> if e = errReedFork then Fail 409 ''previousID does not match the author's current tip''
           else Fail 500 ''Internal Server Error'', f, [])
   | Inr ((r, indexed), f') \<Rightarrow> map_option (\<lambda>fx. (Done 201 ss, f', fx)) (afterReed E indexed echo reply f'))"

definition signReedAs ::
    "env \<Rightarrow> (string \<Rightarrow> bool) \<Rightarrow> (string \<Rightarrow> string) \<Rightarrow> (string list \<Rightarrow> string list) \<Rightarrow> gotime \<Rightarrow> string \<Rightarrow> signReedMsg \<Rightarrow>
     reedRef option \<Rightarrow> reedRef option \<Rightarrow> string list \<Rightarrow> feed \<Rightarrow> (serverSig answer \<times> feed \<times> reedEffect list) option" where
  "signReedAs E uuid7 lower pipes now u m echo reply mentions f = (case activeUserKey (fe_db f) u of
     Inl (st, why) \<Rightarrow> Some (Fail st why, f, [])
   | Inr k \<Rightarrow> (case getReedAttestation f (sg_reed m) of
       Some existing \<Rightarrow> Some (respondSignReedReplay existing (sg_sig m), f, [])
     | None \<Rightarrow> (let at = truncateSecond now in
         case countersign E (buildReedPayload (e_jcs E) (e_server_id E) (sg_reed m) (e_fingerprint E) (key_id k) (sg_sig m) at) at of
           Inl e \<Rightarrow> Some (Fail 500 ''Internal Server Error'', f, [])
         | Inr ss \<Rightarrow> Option.bind
             (storeReed E uuid7 (reedParams m u (key_id k) ss (pipes (normalizeClaimedTags lower (sg_tags m))) mentions) echo reply
               (case reply of None \<Rightarrow> '''' | Some parent \<Rightarrow> resolveConversationRoot f parent) f)
             (finishReed E m ss echo reply f))))"

definition signReed ::
    "env \<Rightarrow> (string \<Rightarrow> bool) \<Rightarrow> (string \<Rightarrow> string) \<Rightarrow> (string list \<Rightarrow> string list) \<Rightarrow> gotime \<Rightarrow> string \<Rightarrow> signReedMsg option \<Rightarrow>
     feed \<Rightarrow> (serverSig answer \<times> feed \<times> reedEffect list) option" where
  "signReed E uuid7 lower pipes now u msg f = (case msg of
     None \<Rightarrow> Some (Fail 400 ''Invalid request body'', f, [])
   | Some m \<Rightarrow>
     if sg_sig m = '''' \<or> sg_reed m = '''' then Some (Fail 400 ''Arguments are required'', f, [])
     else (case (optionalRef uuid7 (trimSpace (sg_echoing m)), optionalRef uuid7 (trimSpace (sg_replying m))) of
         (None, _) \<Rightarrow> Some (Fail 400 ''Invalid echoing reference'', f, [])
       | (_, None) \<Rightarrow> Some (Fail 400 ''Invalid replying reference'', f, [])
       | (Some echo, Some reply) \<Rightarrow>
           if echo \<noteq> None \<and> reply \<noteq> None then Some (Fail 400 ''A reed cannot both echo and reply'', f, [])
           else (case List.map_filter (\<lambda>ref. refuseBlockedRequester (fe_social f) (canonicalAuthorID ref) u)
               (List.map_filter (\<lambda>r. r) [echo, reply]) of
             c # _ \<Rightarrow> Some (writeBlocked c, f, [])
           | [] \<Rightarrow> (case resolveMentionClaims E (sg_mentions m) u f of
               None \<Rightarrow> Some (Fail 400 ''Mentioned user not found'', f, [])
             | Some (stored, f1) \<Rightarrow> (case getUserProfile (fe_db f1) u of
                 Inl e \<Rightarrow> Some (Fail 500 ''Internal Server Error'', f1, [])
               | Inr found \<Rightarrow> if \<not> found then Some (Fail 400 ''User not found'', f1, [])
                   else signReedAs E uuid7 lower pipes now u m echo reply
                     (dropMentionsBlockingAuthor (fe_social f1) stored u) f1)))))"

subsection \<open>Signing a thread\<close>

record threadPartRequest =
  tp_reed :: string
  tp_sig :: string
  tp_tags :: "string list"
  tp_mentions :: "string list"

record createThreadMsg =
  cm_previous :: string
  cm_sig :: string
  cm_reeds :: "threadPartRequest list"

type_synonym threadSignatures = "serverSig \<times> serverSig list"

definition partParams :: "string \<Rightarrow> threadPartRequest \<Rightarrow> createReedParams" where
  "partParams u part = \<lparr>cr_reed = tp_reed part, cr_user = u, cr_key = '''', cr_sig = tp_sig part, cr_server_key = '''',
     cr_server_sig = '''', cr_at = 0, cr_tags = [], cr_mentions = [], cr_previous = '''', cr_thread_head = '''',
     cr_thread_index = 0\<rparr>"

definition threadMsgRefused :: "string \<Rightarrow> createThreadMsg \<Rightarrow> bool" where
  "threadMsgRefused u m \<longleftrightarrow> cm_sig m = '''' \<or> list_ex (\<lambda>p. tp_reed p = '''' \<or> tp_sig p = '''') (cm_reeds m) \<or>
     \<not> distinct (map tp_reed (cm_reeds m)) \<or> validateThreadParts u (map (partParams u) (cm_reeds m)) \<noteq> None"

text \<open>The mentions of every part; what earlier parts recorded stays when a later one is refused.\<close>

fun threadMentions :: "env \<Rightarrow> string \<Rightarrow> threadPartRequest list \<Rightarrow> feed \<Rightarrow> string list list option \<times> feed" where
  "threadMentions E u [] f = (Some [], f)"
| "threadMentions E u (p # ps) f = (case resolveMentionClaims E (tp_mentions p) u f of
     None \<Rightarrow> (None, f)
   | Some (ms, f1) \<Rightarrow> (case threadMentions E u ps f1 of (mss, f2) \<Rightarrow> (map_option ((#) ms) mss, f2)))"

definition respondThreadReplay :: "feed \<Rightarrow> threadRecord \<Rightarrow> createThreadMsg \<Rightarrow> threadSignatures answer" where
  "respondThreadReplay f existing m = (let atts = map (getReedAttestation f \<circ> tp_reed) (cm_reeds m) in
     if us_armor (tr_sig existing) \<noteq> cm_sig m \<or> tr_reeds existing \<noteq> map tp_reed (cm_reeds m) \<or>
       \<not> list_all2 (\<lambda>att p. map_option (us_armor \<circ> rd_sig) att = Some (tp_sig p)) atts (cm_reeds m)
     then Fail 409 ''Thread already exists with different signatures''
     else Done 200 (tr_server_sig existing, map (rd_server_sig \<circ> the) atts))"

text \<open>The server's signature on every part, at one second.\<close>

fun signParts :: "env \<Rightarrow> gotime \<Rightarrow> string \<Rightarrow> threadPartRequest list \<Rightarrow> err + serverSig list" where
  "signParts E at keyID [] = Inr []"
| "signParts E at keyID (p # ps) =
     bindR (countersign E (buildReedPayload (e_jcs E) (e_server_id E) (tp_reed p) (e_fingerprint E) keyID (tp_sig p) at) at) (\<lambda>ss.
     bindR (signParts E at keyID ps) (\<lambda>sss. Inr (ss # sss)))"

definition signedPart ::
    "(string \<Rightarrow> string) \<Rightarrow> (string list \<Rightarrow> string list) \<Rightarrow> string \<Rightarrow> string \<Rightarrow>
     (threadPartRequest \<times> string list) \<times> serverSig \<Rightarrow> createReedParams" where
  "signedPart lower pipes u keyID x = (case x of ((p, mentions), ss) \<Rightarrow>
     (partParams u p)\<lparr>cr_key := keyID, cr_server_key := ss_id ss, cr_server_sig := ss_armor ss,
        cr_tags := pipes (normalizeClaimedTags lower (tp_tags p)), cr_mentions := mentions\<rparr>)"

definition threadParams ::
    "(string \<Rightarrow> string) \<Rightarrow> (string list \<Rightarrow> string list) \<Rightarrow> string \<Rightarrow> string \<Rightarrow> gotime \<Rightarrow> createThreadMsg \<Rightarrow>
     string list list \<Rightarrow> serverSig list \<Rightarrow> serverSig \<Rightarrow> createThreadParams" where
  "threadParams lower pipes u keyID at m mentions partSigs ss = \<lparr>ct_user = u, ct_key = keyID, ct_sig = cm_sig m,
     ct_server_key = ss_id ss, ct_server_sig = ss_armor ss, ct_at = at, ct_previous = trimSpace (cm_previous m),
     ct_parts = map (signedPart lower pipes u keyID) (zip (zip (cm_reeds m) mentions) partSigs)\<rparr>"

definition threadUniqueViolation :: "err \<Rightarrow> bool" where
  "threadUniqueViolation e \<longleftrightarrow> e = Sentinel ''reeds_pkey'' \<or> e = Sentinel ''reed_threads_pkey''"

definition finishThread ::
    "createThreadMsg \<Rightarrow> threadSignatures \<Rightarrow> feed \<Rightarrow> err + threadRecord \<times> feed \<Rightarrow> threadSignatures answer \<times> feed" where
  "finishThread m sigs f r = (case r of
     Inr (rec, f') \<Rightarrow> (Done 201 sigs, f')
   | Inl e \<Rightarrow> (if threadUniqueViolation e then (case getThreadRecord f (tp_reed (hd (cm_reeds m))) of
         Some existing \<Rightarrow> respondThreadReplay f existing m
       | None \<Rightarrow> Fail 409 ''A reed in the thread already exists'')
     else if e = errReedFork then Fail 409 ''previousID does not match the author's current tip''
     else if e = errInvalidThread then Fail 400 ''invalid thread''
     else Fail 500 ''Internal Server Error'', f))"

definition createThreadAs ::
    "env \<Rightarrow> (string \<Rightarrow> bool) \<Rightarrow> (string \<Rightarrow> string) \<Rightarrow> (string list \<Rightarrow> string list) \<Rightarrow> gotime \<Rightarrow> string \<Rightarrow> createThreadMsg \<Rightarrow>
     string list list \<Rightarrow> key \<Rightarrow> feed \<Rightarrow> threadSignatures answer \<times> feed" where
  "createThreadAs E uuid7 lower pipes now u m mentions k f = (let ids = map tp_reed (cm_reeds m); threadID = hd ids in
     if \<not> e_verify E (buildThreadUserPayload (e_jcs E) (e_server_id E) threadID ids) (cm_sig m) (key_armor k)
       then (Fail 400 ''Thread signature verification failed'', f)
     else (case getThreadRecord f threadID of
         Some existing \<Rightarrow> (respondThreadReplay f existing m, f)
       | None \<Rightarrow> let at = truncateSecond now in
           (case bindR (signParts E at (key_id k) (cm_reeds m)) (\<lambda>partSigs.
               bindR (countersign E (buildThreadServerPayload (e_jcs E) (e_server_id E) threadID (key_id k) (e_fingerprint E)
                 (cm_sig m) at) at) (\<lambda>ss. Inr (partSigs, ss))) of
             Inl e \<Rightarrow> (Fail 500 ''Internal Server Error'', f)
           | Inr (partSigs, ss) \<Rightarrow> finishThread m (ss, partSigs) f
               (createThread E uuid7 (threadParams lower pipes u (key_id k) at m mentions partSigs ss) f))))"

definition createThreadRoute ::
    "env \<Rightarrow> (string \<Rightarrow> bool) \<Rightarrow> (string \<Rightarrow> string) \<Rightarrow> (string list \<Rightarrow> string list) \<Rightarrow> gotime \<Rightarrow> string \<Rightarrow> createThreadMsg option \<Rightarrow>
     feed \<Rightarrow> threadSignatures answer \<times> feed" where
  "createThreadRoute E uuid7 lower pipes now u msg f = (case msg of
     None \<Rightarrow> (Fail 400 ''Invalid request body'', f)
   | Some m \<Rightarrow> if threadMsgRefused u m then (Fail 400 ''Invalid thread'', f)
       else (case threadMentions E u (cm_reeds m) f of
           (None, f1) \<Rightarrow> (Fail 400 ''Mentioned user not found'', f1)
         | (Some mentions, f1) \<Rightarrow> (case activeUserKey (fe_db f1) u of
             Inl (st, why) \<Rightarrow> (Fail st why, f1)
           | Inr k \<Rightarrow> createThreadAs E uuid7 lower pipes now u m mentions k f1)))"

subsection \<open>Removing\<close>

definition afterReedRemoval :: "env \<Rightarrow> reedRemovalCert \<Rightarrow> feed \<Rightarrow> (feed \<times> reedEffect list) option" where
  "afterReedRemoval E cert f = (let i = rc_reed cert; (echoed, f1) = deleteEchoIndexForReed i (deleteMentionsForReed i f) in
     map_option (\<lambda>ts. (f1, map (\<lambda>t. EchoCountChanged (canonicalAuthorID t) (ref_reed t))
           (filter (\<lambda>t. ref_server t = e_server_id E) echoed) @
         replyCountEffects (bindR ts (\<lambda>refs. Inr (case refs of
             [] \<Rightarrow> [] | t # rest \<Rightarrow> if ref_server t \<noteq> e_server_id E then rest else t # rest))) @
         [PushReedRemoval cert, DrainAllPeers]))
       (replyCountNotifyTargetsForRemovedReply f1 i))"

definition storeReedRemoval :: "env \<Rightarrow> reedRemovalCert \<Rightarrow> feed \<Rightarrow> (reedRemovalCert answer \<times> feed \<times> reedEffect list) option" where
  "storeReedRemoval E cert f = (case insertReedRemoval cert f of
     None \<Rightarrow> None
   | Some (Inl e) \<Rightarrow> Some (if e \<noteq> errRemovalConflict then Fail 500 ''Internal Server Error''
       else (case loadReedCert f (rc_reed cert) of
           Inr (Some existing) \<Rightarrow> if us_armor (rc_sig existing) = us_armor (rc_sig cert) then Done 200 existing
             else Fail 409 ''Reed removal already exists with a different signature''
         | _ \<Rightarrow> Fail 409 ''Reed removal already exists with a different signature''), f, [])
   | Some (Inr f1) \<Rightarrow> map_option (\<lambda>(f2, fx). (Done 200 cert, f2, fx)) (afterReedRemoval E cert f1))"

text \<open>\<open>DeleteReed\<close>; the message is its signature.\<close>

definition deleteReedAs :: "env \<Rightarrow> gotime \<Rightarrow> string \<Rightarrow> string \<Rightarrow> string \<Rightarrow> feed \<Rightarrow> (reedRemovalCert answer \<times> feed \<times> reedEffect list) option" where
  "deleteReedAs E now u i sig f = (case getReed f i of
     None \<Rightarrow> Some (Fail 404 ''Reed not found'', f, [])
   | Some r \<Rightarrow> if rd_user r \<noteq> u then Some (Fail 403 ''You can only delete your own reeds'', f, [])
       else (case getUserProfile (fe_db f) u of
           Inl e \<Rightarrow> Some (Fail 500 ''Internal Server Error'', f, [])
         | Inr found \<Rightarrow> if \<not> found then Some (Fail 400 ''User not found'', f, [])
             else (case activeUserKey (fe_db f) u of
                 Inl (st, why) \<Rightarrow> Some (Fail st why, f, [])
               | Inr k \<Rightarrow>
                   if \<not> e_verify E (buildReedRemovalUserPayload (e_jcs E) (e_server_id E) i) sig (key_armor k)
                     then Some (Fail 401 ''signature verification failed'', f, [])
                   else (let at = truncateSecond now in
                     case countersign E (buildReedRemovalServerPayload (e_jcs E) (e_server_id E) i (key_id k) (e_fingerprint E) sig at) at of
                       Inl e \<Rightarrow> Some (Fail 500 ''Internal Server Error'', f, [])
                     | Inr ss \<Rightarrow> storeReedRemoval E \<lparr>rc_reed = i, rc_user = u,
                         rc_sig = \<lparr>us_id = key_id k, us_armor = sig\<rparr>, rc_server_sig = ss\<rparr> f))))"

definition deleteReed ::
    "env \<Rightarrow> gotime \<Rightarrow> string \<Rightarrow> string \<Rightarrow> string \<Rightarrow> string option \<Rightarrow> feed \<Rightarrow> (reedRemovalCert answer \<times> feed \<times> reedEffect list) option" where
  "deleteReed E now u pathUser bare msg f =
     (if pathUser = '''' \<or> bare = '''' then Some (Fail 400 ''Arguments `userID` and `reedID` are required'', f, [])
      else if u \<noteq> pathUser then Some (Fail 403 ''You can only delete your own reeds'', f, [])
      else (case msg of
          None \<Rightarrow> Some (Fail 400 ''Invalid request format'', f, [])
        | Some raw \<Rightarrow> let sig = trimSpace raw; i = appendEntity u bare in
            if sig = '''' then Some (Fail 400 ''Argument `signature` is required'', f, [])
            else if threadHeadOf f i \<noteq> '''' then Some (Fail 400 ''Delete the whole thread'', f, [])
            else (case loadReedCert f i of
                Inl e \<Rightarrow> Some (Fail 500 ''Internal Server Error'', f, [])
              | Inr (Some existing) \<Rightarrow> Some (if us_armor (rc_sig existing) \<noteq> sig
                  then Fail 409 ''Reed removal already exists with a different signature'' else Done 200 existing, f, [])
              | Inr None \<Rightarrow> deleteReedAs E now u i sig f)))"

definition threadRemovalOf :: "env \<Rightarrow> string \<Rightarrow> string \<Rightarrow> string \<Rightarrow> serverSig \<Rightarrow> threadRecord \<Rightarrow> threadRemoval" where
  "threadRemovalOf E u keyID sig ss rec = \<lparr>tx_cert = \<lparr>tc_type = identityTypeThreadRemoval, tc_server = e_server_id E,
       tc_user = u, tc_thread = tr_thread rec, tc_sig = \<lparr>us_id = keyID, us_armor = sig\<rparr>, tc_server_sig = ss\<rparr>,
     tx_record = threadWire (e_server_id E) rec\<rparr>"

definition deleteThreadAs ::
    "env \<Rightarrow> gotime \<Rightarrow> string \<Rightarrow> string \<Rightarrow> threadRecord \<Rightarrow> feed \<Rightarrow> (threadRemoval answer \<times> feed \<times> reedEffect list) option" where
  "deleteThreadAs E now u sig rec f = (case activeUserKey (fe_db f) u of
     Inl (st, why) \<Rightarrow> Some (Fail st why, f, [])
   | Inr k \<Rightarrow> let t = tr_thread rec; at = truncateSecond now in
       if \<not> e_verify E (buildThreadRemovalUserPayload (e_jcs E) (e_server_id E) t (us_armor (tr_sig rec))) sig (key_armor k)
         then Some (Fail 401 ''signature verification failed'', f, [])
       else (case countersign E (buildThreadRemovalServerPayload (e_jcs E) (e_server_id E) t (key_id k) (e_fingerprint E) sig at) at of
           Inl e \<Rightarrow> Some (Fail 500 ''Internal Server Error'', f, [])
         | Inr ss \<Rightarrow> let rm = threadRemovalOf E u (key_id k) sig ss rec in
             map_option (\<lambda>r. (case r of
                 Inl e \<Rightarrow> (if e = errRemovalConflict then Fail 409 ''Thread removal already exists with a different signature''
                   else Fail 500 ''Internal Server Error'', f, [])
               | Inr f1 \<Rightarrow> (Done 200 rm, fold deleteMentionsForReed (tr_reeds rec) f1, [PushThreadRemoval rm, DrainAllPeers])))
               (insertThreadRemoval rm f)))"

definition deleteThread ::
    "env \<Rightarrow> gotime \<Rightarrow> string \<Rightarrow> string \<Rightarrow> string option \<Rightarrow> feed \<Rightarrow> (threadRemoval answer \<times> feed \<times> reedEffect list) option" where
  "deleteThread E now u threadID msg f =
     (if authorOf threadID \<noteq> Some u then Some (Fail 403 ''You can only delete your own threads'', f, [])
      else (case msg of
          None \<Rightarrow> Some (Fail 400 ''Invalid request format'', f, [])
        | Some raw \<Rightarrow> let sig = trimSpace raw in
            if sig = '''' then Some (Fail 400 ''Argument `signature` is required'', f, [])
            else (case getThreadRemoval f threadID of
                Some existing \<Rightarrow> Some (if us_armor (tc_sig (tx_cert existing)) \<noteq> sig
                  then Fail 409 ''Thread removal already exists with a different signature'' else Done 200 existing, f, [])
              | None \<Rightarrow> (case getThreadRecord f threadID of
                    None \<Rightarrow> Some (Fail 404 ''Thread not found'', f, [])
                  | Some rec \<Rightarrow> deleteThreadAs E now u sig rec f))))"

subsection \<open>From a peer\<close>

text \<open>
  The steps of a peer's notice commit one by one: an error ends it with what came before in place.
  \<open>andThen\<close> runs the next step unless one failed or never returned.
\<close>

type_synonym feedStep = "(err option \<times> feed \<times> reedEffect list) option"

definition andThen :: "feedStep \<Rightarrow> (feed \<Rightarrow> feedStep) \<Rightarrow> feedStep" where
  "andThen s k = (case s of
     None \<Rightarrow> None
   | Some (Some e, f, fx) \<Rightarrow> Some (Some e, f, fx)
   | Some (None, f, fx) \<Rightarrow> map_option (\<lambda>(e, f', fx'). (e, f', fx @ fx')) (k f))"

definition stepOf :: "feed \<Rightarrow> err + feed \<Rightarrow> feedStep" where
  "stepOf f r = Some (case r of Inl e \<Rightarrow> (Some e, f, []) | Inr f' \<Rightarrow> (None, f', []))"

record newReedMsg =
  nr_reed :: string
  nr_author :: string
  nr_at :: gotime
  nr_mentions :: "string list"
  nr_reply :: "(string \<times> string) option"
  nr_echo :: "(string \<times> bool) option"

definition recordPeerMention :: "env \<Rightarrow> string \<Rightarrow> string \<Rightarrow> feed \<Rightarrow> feed" where
  "recordPeerMention E reed m f = (case adminsMentionServer m of (server, ok) \<Rightarrow>
     if ok then (if server = e_server_id E then insertAdminMentionRow reed server f else f)
     else (case parseIdentityID (trimSpace m) of
         None \<Rightarrow> f
       | Some (bare, v) \<Rightarrow> if v \<noteq> e_server_id E \<or> \<not> mentionTargetValid E (fe_db f) bare then f
           else insertMentionRow reed (canonicalID v bare) f))"

text \<open>The walk of \<open>HandleForeignReplyNotify\<close>: who watches each reed above the reply.\<close>

partial_function (option) replyLine :: "replyRow list \<Rightarrow> string \<Rightarrow> string list option" where
  "replyLine rs i = (case replyParent rs i of
     None \<Rightarrow> Some [i] | Some p \<Rightarrow> Option.bind (replyLine rs p) (\<lambda>is. Some (i # is)))"

definition foreignReplyNotify :: "string \<Rightarrow> string \<Rightarrow> string \<Rightarrow> gotime \<Rightarrow> feed \<Rightarrow> feedStep" where
  "foreignReplyNotify parent reply root at f = (case insertForeignReply parent reply root at f of
     None \<Rightarrow> None
   | Some (Inl e) \<Rightarrow> Some (Some e, f, [])
   | Some (Inr f1) \<Rightarrow> map_option (\<lambda>is. (None, f1, map (\<lambda>i. PushReplyAt i reply) is)) (replyLine (fe_replies f1) parent))"

definition idServer :: "string \<Rightarrow> string option" where
  "idServer i = map_option (\<lambda>(u, v, e). v) (parseKeyFingerprint i)"

definition foreignReplyStep :: "env \<Rightarrow> newReedMsg \<Rightarrow> feed \<Rightarrow> feedStep" where
  "foreignReplyStep E m f = (case nr_reply m of
     None \<Rightarrow> Some (None, f, [])
   | Some (parent, root) \<Rightarrow> if idServer parent = Some (e_server_id E)
       then foreignReplyNotify parent (nr_reed m) root (nr_at m) f else Some (None, f, []))"

definition foreignEchoStep :: "env \<Rightarrow> newReedMsg \<Rightarrow> feed \<Rightarrow> feedStep" where
  "foreignEchoStep E m f = (case nr_echo m of
     None \<Rightarrow> Some (None, f, [])
   | Some (echoed, blank) \<Rightarrow> (case parseKeyFingerprint echoed of
       None \<Rightarrow> Some (None, f, [])
     | Some (bare, v, reed) \<Rightarrow> if v \<noteq> e_server_id E then Some (None, f, [])
         else (case insertForeignEcho (nr_reed m) echoed (nr_author m) (canonicalID v bare) blank (nr_at m) f of
             Inl e \<Rightarrow> Some (Some e, f, [])
           | Inr (_, f') \<Rightarrow> Some (None, f', [EchoCountChanged (canonicalID v bare) reed]))))"

definition foreignParent :: "env \<Rightarrow> newReedMsg \<Rightarrow> string" where
  "foreignParent E m = (case nr_reply m of
     None \<Rightarrow> ''''
   | Some (parent, _) \<Rightarrow> (case idServer parent of
       None \<Rightarrow> '''' | Some v \<Rightarrow> if v = e_server_id E then '''' else parent))"

definition receiveForeignNewReed :: "env \<Rightarrow> newReedMsg \<Rightarrow> feed \<Rightarrow> feedStep" where
  "receiveForeignNewReed E m f = (let f0 = updDb (upsertIdentity (nr_author m)) f in
     andThen (stepOf f0 (insertReedIdentity (nr_reed m) f0)) (\<lambda>f1.
     andThen (foreignReplyStep E m (fold (recordPeerMention E (nr_reed m)) (nr_mentions m) f1)) (\<lambda>f2.
     andThen (foreignEchoStep E m f2) (\<lambda>f3.
       Some (None, f3, [PushNewReed (nr_reed m) (nr_author m) (foreignParent E m)])))))"

definition newReedRefused :: "string \<Rightarrow> newReedMsg \<Rightarrow> bool" where
  "newReedRefused peer m \<longleftrightarrow>
     authorOf (nr_reed m) \<noteq> Some (nr_author m) \<or> idServer (nr_reed m) \<noteq> Some peer \<or>
     (nr_reply m \<noteq> None \<and> nr_echo m \<noteq> None) \<or>
     (\<exists>parent root. nr_reply m = Some (parent, root) \<and> (parent = '''' \<or> root = '''')) \<or>
     (\<exists>echoed blank. nr_echo m = Some (echoed, blank) \<and> echoed = '''')"

definition newReedFromPeer ::
    "env \<Rightarrow> string option \<Rightarrow> newReedMsg option \<Rightarrow> feed \<Rightarrow> (unit answer \<times> feed \<times> reedEffect list) option" where
  "newReedFromPeer E peer msg f = (case peer of
     None \<Rightarrow> Some (Fail 401 ''Unauthorized'', f, [])
   | Some p \<Rightarrow> if p = '''' then Some (Fail 401 ''Unauthorized'', f, [])
       else (case msg of
           None \<Rightarrow> Some (Fail 400 ''Invalid request body'', f, [])
         | Some m0 \<Rightarrow> let m = m0\<lparr>nr_reed := trimSpace (nr_reed m0), nr_author := trimSpace (nr_author m0)\<rparr> in
             if newReedRefused p m then Some (Fail 400 ''Invalid new reed'', f, [])
             else map_option (\<lambda>(e, f', fx). (if e = None then Done 204 () else Fail 500 ''Internal Server Error'', f', fx))
               (receiveForeignNewReed E m f)))"

text \<open>\<open>acceptForeignReedRemoval\<close>: the author signs for their home server, which countersigns.\<close>

definition onSocial :: "'a \<times> social \<Rightarrow> feed \<Rightarrow> 'a \<times> feed" where
  "onSocial r f = (case r of (x, s) \<Rightarrow> (x, f\<lparr>fe_social := s\<rparr>))"

definition acceptForeignReedRemoval ::
    "env \<Rightarrow> gotime \<Rightarrow> string \<Rightarrow> reedRemovalCert \<Rightarrow> feed \<Rightarrow> ((nat \<times> string) option \<times> feed) option" where
  "acceptForeignReedRemoval E now peer cert f = (let i = rc_reed cert; us = rc_sig cert; ss = rc_server_sig cert in
     if i = '''' \<or> rc_user cert = '''' \<or> us_armor us = '''' \<or> ss_armor ss = '''' then Some (Some (400, ''required''), f)
     else if idServer i \<noteq> Some peer then Some (Some (400, ''reed_id does not belong to the calling peer''), f)
     else if authorOf i \<noteq> Some (rc_user cert) \<or> \<not> requesterKeyBelongsTo (us_id us) (rc_user cert) peer
       then Some (Some (400, ''user_key_id is not a key of the author''), f)
     else (case onSocial (resolveKey E now (us_id us) (fe_social f)) f of
         (Inl e, f1) \<Rightarrow> Some (Some (500, ''Internal Server Error''), f1)
       | (Inr None, f1) \<Rightarrow> Some (Some (400, ''user_key_id could not be resolved''), f1)
       | (Inr (Some k), f1) \<Rightarrow>
           if \<not> e_verify E (buildReedRemovalUserPayload (e_jcs E) peer i) (us_armor us) (key_armor k)
             then Some (Some (400, ''user_signature verification failed''), f1)
           else if \<not> verifyPeerCountersignature E (fe_social f1) peer ss
               (\<lambda>fp. buildReedRemovalServerPayload (e_jcs E) peer i (us_id us) fp (us_armor us) (ss_at ss))
             then Some (Some (400, ''server_signature verification failed''), f1)
           else map_option (\<lambda>r. (case r of
                 Inr f2 \<Rightarrow> (None, f2)
               | Inl e \<Rightarrow> if e = errRemovalConflict then (None, f1) else (Some (500, ''Internal Server Error''), f1)))
             (insertReedRemoval cert f1)))"

text \<open>What is kept of a foreign reed: the reply it was, and the echo.\<close>

definition dropReply :: "env \<Rightarrow> string \<Rightarrow> string \<Rightarrow> feed \<Rightarrow> reedRemovalCert \<Rightarrow> feedStep" where
  "dropReply E i parent f cert = (case deleteForeignReplyReference i f of
     None \<Rightarrow> None
   | Some (deleted, f1) \<Rightarrow>
       (if deleted \<and> idServer parent = Some (e_server_id E) then
          map_option (\<lambda>ts. (case ts of Inl e \<Rightarrow> (Some e, f1, [])
            | Inr refs \<Rightarrow> (None, f1, replyCountEffects (Inr refs) @ [PushReplyRemoval parent i cert])))
            (replyCountNotifyTargets (fe_replies f1) parent)
        else Some (None, f1, [PushReplyRemoval parent i cert])))"

definition dropForeignReedReferences :: "env \<Rightarrow> string \<Rightarrow> string \<Rightarrow> reedRemovalCert \<Rightarrow> feed \<Rightarrow> feedStep" where
  "dropForeignReedReferences E i parent0 cert f =
     (let parent = (if parent0 \<noteq> '''' then parent0 else case replyParent (fe_replies f) i of None \<Rightarrow> '''' | Some p \<Rightarrow> p) in
      andThen (if parent \<noteq> '''' then dropReply E i parent f cert else Some (None, f, [])) (\<lambda>f1.
        case deleteForeignEchoReference i f1 of (echoed, f2) \<Rightarrow>
          Some (None, f2, case parseKeyFingerprint echoed of
              None \<Rightarrow> []
            | Some (bare, v, reed) \<Rightarrow> if v = e_server_id E then [EchoCountChanged (canonicalID v bare) reed] else [])))"

definition reedRemovalFromPeer ::
    "env \<Rightarrow> gotime \<Rightarrow> string option \<Rightarrow> (reedRemovalCert \<times> string) option \<Rightarrow> feed \<Rightarrow>
     (unit answer \<times> feed \<times> reedEffect list) option" where
  "reedRemovalFromPeer E now peer msg f = (case peer of
     None \<Rightarrow> Some (Fail 401 ''Unauthorized'', f, [])
   | Some p \<Rightarrow> if p = '''' then Some (Fail 401 ''Unauthorized'', f, [])
       else (case msg of
           None \<Rightarrow> Some (Fail 400 ''Invalid request body'', f, [])
         | Some (cert0, parent) \<Rightarrow> let cert = cert0\<lparr>rc_reed := trimSpace (rc_reed cert0)\<rparr> in
             (case acceptForeignReedRemoval E now p cert f of
               None \<Rightarrow> None
             | Some (Some (st, why), f1) \<Rightarrow> Some (Fail st why, f1, [])
             | Some (None, f1) \<Rightarrow> map_option (\<lambda>(e, f2, fx).
                   if e = None then (Done 204 (), f2, fx @ [PushReedRemoval cert]) else (Fail 500 ''Internal Server Error'', f2, fx))
                 (dropForeignReedReferences E (rc_reed cert) parent cert f1))))"

text \<open>\<open>verifyPeerThreadRecord\<close> and \<open>verifyPeerThreadRemoval\<close>: whether they hold.\<close>

definition ownerOf :: "string \<Rightarrow> string option" where
  "ownerOf keyID = map_option (\<lambda>(u, v, e). canonicalID v u) (parseKeyFingerprint keyID)"

definition recordPart :: "string \<Rightarrow> string \<Rightarrow> createReedParams" where
  "recordPart u i = \<lparr>cr_reed = i, cr_user = u, cr_key = '''', cr_sig = '''', cr_server_key = '''', cr_server_sig = '''',
     cr_at = 0, cr_tags = [], cr_mentions = [], cr_previous = '''', cr_thread_head = '''', cr_thread_index = 0\<rparr>"

definition threadRecordFits :: "string \<Rightarrow> threadRecordWire \<Rightarrow> bool" where
  "threadRecordFits peer rec \<longleftrightarrow> tw_type rec = identityTypeThread \<and> tw_server rec = peer \<and> tw_reeds rec \<noteq> [] \<and>
     hd (tw_reeds rec) = tw_thread rec \<and> validateThreadParts (tw_user rec) (map (recordPart (tw_user rec)) (tw_reeds rec)) = None \<and>
     identityServerID (tw_user rec) = Some peer \<and> ownerOf (us_id (tw_sig rec)) = Some (tw_user rec)"

definition signedBy :: "env \<Rightarrow> gotime \<Rightarrow> string \<Rightarrow> string \<Rightarrow> string \<Rightarrow> feed \<Rightarrow> bool \<times> feed" where
  "signedBy E now keyID payload sig f = (case onSocial (resolveKey E now keyID (fe_social f)) f of
     (Inr (Some k), f1) \<Rightarrow> (e_verify E payload sig (key_armor k), f1) | (_, f1) \<Rightarrow> (False, f1))"

definition verifyPeerThreadRecord :: "env \<Rightarrow> gotime \<Rightarrow> string \<Rightarrow> threadRecordWire \<Rightarrow> feed \<Rightarrow> bool \<times> feed" where
  "verifyPeerThreadRecord E now peer rec f =
     (if \<not> threadRecordFits peer rec then (False, f)
      else (case signedBy E now (us_id (tw_sig rec)) (buildThreadUserPayload (e_jcs E) peer (tw_thread rec) (tw_reeds rec))
          (us_armor (tw_sig rec)) f of
        (ok, f1) \<Rightarrow> (ok \<and> verifyPeerCountersignature E (fe_social f1) peer (tw_server_sig rec)
          (\<lambda>fp. buildThreadServerPayload (e_jcs E) peer (tw_thread rec) (us_id (tw_sig rec)) fp (us_armor (tw_sig rec))
            (truncateSecond (ss_at (tw_server_sig rec)))), f1)))"

definition verifyPeerThreadRemoval :: "env \<Rightarrow> gotime \<Rightarrow> string \<Rightarrow> threadRemoval \<Rightarrow> feed \<Rightarrow> bool \<times> feed" where
  "verifyPeerThreadRemoval E now peer rm f = (let c = tx_cert rm; rec = tx_record rm in
     if authorOf (tc_thread c) \<noteq> Some (tw_user rec) \<or> identityServerID (tw_user rec) \<noteq> Some peer \<or>
       tc_type c \<noteq> identityTypeThreadRemoval \<or> tc_thread c \<noteq> tw_thread rec \<or> tc_user c \<noteq> tw_user rec then (False, f)
     else (case verifyPeerThreadRecord E now peer rec f of (ok, f1) \<Rightarrow>
       if \<not> ok \<or> ownerOf (us_id (tc_sig c)) \<noteq> Some (tc_user c) then (False, f1)
       else (case signedBy E now (us_id (tc_sig c))
           (buildThreadRemovalUserPayload (e_jcs E) peer (tc_thread c) (us_armor (tw_sig rec))) (us_armor (tc_sig c)) f1 of
         (ok, f2) \<Rightarrow> (ok \<and> verifyPeerCountersignature E (fe_social f2) peer (tc_server_sig c)
           (\<lambda>fp. buildThreadRemovalServerPayload (e_jcs E) peer (tc_thread c) (us_id (tc_sig c)) fp (us_armor (tc_sig c))
             (truncateSecond (ss_at (tc_server_sig c)))), f2))))"

text \<open>A part whose references can't be dropped is only logged.\<close>

definition noCert :: reedRemovalCert where
  "noCert = \<lparr>rc_reed = '''', rc_user = '''', rc_sig = \<lparr>us_id = '''', us_armor = ''''\<rparr>, rc_server_sig = noServerSig\<rparr>"

fun dropParts :: "env \<Rightarrow> string list \<Rightarrow> feed \<Rightarrow> (feed \<times> reedEffect list) option" where
  "dropParts E [] f = Some (f, [])"
| "dropParts E (i # is) f = (case dropForeignReedReferences E i '''' noCert f of
     None \<Rightarrow> None
   | Some (_, f1, fx) \<Rightarrow> map_option (\<lambda>(f2, fx'). (f2, fx @ fx')) (dropParts E is f1))"

definition threadRemovalFromPeer ::
    "env \<Rightarrow> gotime \<Rightarrow> string option \<Rightarrow> threadRemoval option \<Rightarrow> feed \<Rightarrow> (unit answer \<times> feed \<times> reedEffect list) option" where
  "threadRemovalFromPeer E now peer msg f = (case peer of
     None \<Rightarrow> Some (Fail 401 ''Unauthorized'', f, [])
   | Some p \<Rightarrow> if p = '''' then Some (Fail 401 ''Unauthorized'', f, [])
       else (case msg of
           None \<Rightarrow> Some (Fail 400 ''Invalid request body'', f, [])
         | Some rm \<Rightarrow> (case verifyPeerThreadRemoval E now p rm f of
             (False, f1) \<Rightarrow> Some (Fail 400 ''Refused'', f1, [])
           | (True, f1) \<Rightarrow> (case insertThreadRemoval rm f1 of
               None \<Rightarrow> None
             | Some r \<Rightarrow> if r \<noteq> Inl errRemovalConflict \<and> (\<exists>e. r = Inl e) then Some (Fail 500 ''Internal Server Error'', f1, [])
                 else map_option (\<lambda>(f2, fx). (Done 204 (), f2, fx @ [PushThreadRemoval rm]))
                   (dropParts E (tw_reeds (tx_record rm)) (case r of Inr f2 \<Rightarrow> f2 | Inl e \<Rightarrow> f1))))))"

end
