(* ===== verification/ReedInvariant.thy ===== *)
theory ReedInvariant
  imports SmallServer ReedRoutes
begin

text \<open>
  What the tables of reeds keep: the replies form a forest, so the walks up a conversation return and the
  counts the triggers keep are exact; a thread's parts are removed together.  The lemmas take the
  storage operations one by one.
\<close>

subsection \<open>The forest of replies\<close>

text \<open>What is above a reed, from the newest row down: each row is used at most once.\<close>

fun ancestryIn :: "replyRow list \<Rightarrow> string \<Rightarrow> string list" where
  "ancestryIn [] i = []"
| "ancestryIn (y # ys) i = (if i = ry_reed y then ry_parent y # ancestryIn ys (ry_parent y) else ancestryIn ys i)"

definition ancestry :: "replyRow list \<Rightarrow> string \<Rightarrow> string list" where
  "ancestry rs i = ancestryIn (rev rs) i"

text \<open>A reed is answered only after it is known as an answer itself.\<close>

definition replyForest :: "replyRow list \<Rightarrow> bool" where
  "replyForest rs \<longleftrightarrow> uniqueBy ry_reed rs \<and> (\<forall>y \<in> set rs. ry_parent y \<noteq> ry_reed y) \<and>
     sorted_wrt (\<lambda>x y. ry_parent x \<noteq> ry_reed y) rs"

lemma above_Nil [simp]: "ancestry [] i = []"
  by (simp add: ancestry_def)

lemma above_snoc: "ancestry (rs @ [y]) i = (if i = ry_reed y then ry_parent y # ancestry rs (ry_parent y) else ancestry rs i)"
  by (simp add: ancestry_def)

lemma replyForest_Nil [simp]: "replyForest []"
  by (simp add: replyForest_def)

lemma replyForest_snoc: "replyForest (rs @ [y]) \<longleftrightarrow> replyForest rs \<and> ry_reed y \<notin> ry_reed ` set rs \<and>
     ry_parent y \<noteq> ry_reed y \<and> ry_reed y \<notin> ry_parent ` set rs"
  by (auto simp: replyForest_def sorted_wrt_append image_iff)

lemma replyParent_snoc:
  "ry_reed y \<notin> ry_reed ` set rs \<Longrightarrow>
     replyParent (rs @ [y]) i = (if i = ry_reed y then Some (ry_parent y) else replyParent rs i)"
  by (auto simp: replyParent_def rowBy_def find_append image_iff dest!: find_SomeD split: option.split)

lemma replyParent_Some: "replyParent rs i = Some p \<Longrightarrow> p \<in> ry_parent ` set rs"
  by (auto simp: replyParent_def dest!: rowBy_Some)

lemma above_unfold:
  "replyForest rs \<Longrightarrow> ancestry rs i = (case replyParent rs i of None \<Rightarrow> [] | Some p \<Rightarrow> p # ancestry rs p)"
proof (induction rs arbitrary: i rule: rev_induct)
  case Nil
  then show ?case by (simp add: replyParent_def rowBy_def)
next
  case (snoc y rs)
  then have f: "replyForest rs" "ry_reed y \<notin> ry_reed ` set rs" "ry_parent y \<noteq> ry_reed y" "ry_reed y \<notin> ry_parent ` set rs"
    by (simp_all add: replyForest_snoc)
  have "p \<noteq> ry_reed y" if "replyParent rs i = Some p" for p
    using replyParent_Some [OF that] f(4) by metis
  then show ?case
    using f(3) snoc.IH [OF f(1), of i] by (auto simp: above_snoc replyParent_snoc [OF f(2)] split: option.split)
qed

lemma above_None: "replyForest rs \<Longrightarrow> ancestry rs i = [] \<longleftrightarrow> replyParent rs i = None"
  by (subst above_unfold) (auto split: option.split)

text \<open>On a forest every walk returns, with what is above.\<close>

lemma bumpReplyAncestors_above:
  assumes "replyForest rs"
  shows "bumpReplyAncestors rs up i c = Some (fold (\<lambda>p. bumpStat p up) (ancestry rs i) c)"
proof (induction "ancestry rs i" arbitrary: i c)
  case Nil
  then have "replyParent rs i = None" using above_None [OF assms] by metis
  then show ?case using Nil by (subst bumpReplyAncestors.simps) simp
next
  case (Cons p ps)
  then have "replyParent rs i = Some p" "ps = ancestry rs p"
    using above_unfold [OF assms, of i] by (auto split: option.splits)
  then show ?case using Cons by (subst bumpReplyAncestors.simps) (simp flip: Cons.hyps(2))
qed

lemma replyCountNotifyTargets_returns:
  assumes "replyForest rs"
  shows "\<exists>ts. replyCountNotifyTargets rs i = Some ts"
proof (induction "ancestry rs i" arbitrary: i)
  case Nil
  then have "replyParent rs i = None" using above_None [OF assms] by metis
  then show ?case by (subst replyCountNotifyTargets.simps) (simp split: option.split)
next
  case (Cons p ps)
  then have "replyParent rs i = Some p" "ps = ancestry rs p"
    using above_unfold [OF assms, of i] by (auto split: option.splits)
  moreover obtain ts where "replyCountNotifyTargets rs p = Some ts" using Cons.hyps(1) calculation by blast
  ultimately show ?case by (subst replyCountNotifyTargets.simps) (auto split: option.split)
qed

lemma replyLine_above:
  assumes "replyForest rs"
  shows "replyLine rs i = Some (i # ancestry rs i)"
proof (induction "ancestry rs i" arbitrary: i)
  case Nil
  then have "replyParent rs i = None" using above_None [OF assms] by metis
  then show ?case using Nil by (subst replyLine.simps) simp
next
  case (Cons p ps)
  then have "replyParent rs i = Some p" "ps = ancestry rs p"
    using above_unfold [OF assms, of i] by (auto split: option.splits)
  then show ?case using Cons by (subst replyLine.simps) (simp flip: Cons.hyps(2))
qed

text \<open>A reed that answers itself is walked up for ever.\<close>

lemma bump_self_loop:
  assumes "replyParent rs i = Some i"
  shows "bumpReplyAncestors rs up i c = None"
proof (rule ccontr)
  assume "bumpReplyAncestors rs up i c \<noteq> None"
  then obtain d where d: "bumpReplyAncestors rs up i c = Some d" by auto
  have "replyParent rs i \<noteq> Some i"
  proof (rule bumpReplyAncestors.raw_induct [where P = "\<lambda>rs up i c d. replyParent rs i \<noteq> Some i", OF _ d])
    fix walk rs up i c d
    assume "\<And>rs up i c d. walk rs up i c = Some d \<Longrightarrow> replyParent rs i \<noteq> Some i"
      and "(case replyParent rs i of None \<Rightarrow> Some c | Some p \<Rightarrow> walk rs up p (bumpStat p up c)) = Some d"
    then show "replyParent rs i \<noteq> Some i" by (auto split: option.splits)
  qed
  with assms show False by simp
qed

text \<open>Nothing is above itself, and no reed is above another twice.\<close>

lemma ancestryIn_subset: "set (ancestryIn ys i) \<subseteq> ry_parent ` set ys"
  by (induction ys arbitrary: i) auto

lemma above_subset: "set (ancestry rs i) \<subseteq> ry_parent ` set rs"
  unfolding ancestry_def using ancestryIn_subset [of "rev rs"] by simp

lemma above_distinct: "replyForest rs \<Longrightarrow> distinct (ancestry rs i)"
proof (induction rs arbitrary: i rule: rev_induct)
  case (snoc y rs)
  then have f: "replyForest rs" "ry_parent y \<noteq> ry_reed y" "ry_reed y \<notin> ry_reed ` set rs" "ry_reed y \<notin> ry_parent ` set rs"
    by (simp_all add: replyForest_snoc)
  have "p \<notin> set (ancestry rs p)" for p
    using f(1)
  proof (induction rs arbitrary: p rule: rev_induct)
    case (snoc z zs)
    then have g: "replyForest zs" "ry_parent z \<noteq> ry_reed z" "ry_reed z \<notin> ry_parent ` set zs" by (simp_all add: replyForest_snoc)
    show ?case
      using snoc.IH [OF g(1)] g(2,3) above_subset [of zs "ry_parent z"] by (auto simp: above_snoc)
  qed simp
  then show ?case using snoc.IH [OF f(1)] by (simp add: above_snoc)
qed simp

lemma fold_bump_at:
  "distinct ps \<Longrightarrow> fold (\<lambda>p. bumpStat p up) ps c x =
     (if x \<in> set ps then if up then Suc (c x) else c x - 1 else c x)"
  by (induction ps arbitrary: c) (auto simp: bumpStat_def)

subsection \<open>The invariant\<close>

text \<open>A reply counts until it or its author's account is removed.\<close>

definition counted :: "feed \<Rightarrow> replyRow \<Rightarrow> bool" where
  "counted f y \<longleftrightarrow> \<not> reedRemoved f (ry_reed y) \<and> \<not> authorRemoved f (ry_reed y)"

definition repliesBelow :: "feed \<Rightarrow> string \<Rightarrow> replyRow list" where
  "repliesBelow f x = filter (\<lambda>y. counted f y \<and> x \<in> set (ancestry (fe_replies f) (ry_reed y))) (fe_replies f)"

definition countsFit :: "feed \<Rightarrow> bool" where
  "countsFit f \<longleftrightarrow> (\<forall>x. fe_reply_counts f x = length (repliesBelow f x))"

definition partOf :: "reedRow \<Rightarrow> string \<Rightarrow> bool" where
  "partOf r h \<longleftrightarrow> map_option fst (rd_thread r) = Some h"

text \<open>A thread's parts are removed together.\<close>

definition wholeThreads :: "feed \<Rightarrow> bool" where
  "wholeThreads f \<longleftrightarrow> (\<forall>r \<in> set (fe_reeds f). \<forall>q \<in> set (fe_reeds f). \<forall>h.
     partOf r h \<longrightarrow> partOf q h \<longrightarrow> (reedRemoved f (rd_id r) \<longleftrightarrow> reedRemoved f (rd_id q)))"

text \<open>The parts of a thread answer nothing.\<close>

definition partsAlone :: "feed \<Rightarrow> bool" where
  "partsAlone f \<longleftrightarrow> \<not> (\<exists>r \<in> set (fe_reeds f). rd_thread r \<noteq> None \<and> rd_id r \<in> ry_reed ` set (fe_replies f))"

definition feedInv :: "feed \<Rightarrow> bool" where
  "feedInv f \<longleftrightarrow> uniqueBy rd_id (fe_reeds f) \<and> '''' \<notin> rd_id ` set (fe_reeds f) \<and> uniqueBy th_id (fe_threads f) \<and> replyForest (fe_replies f) \<and>
     (\<forall>r \<in> set (fe_reeds f). \<forall>h. partOf r h \<longrightarrow> h \<in> rd_id ` set (fe_reeds f)) \<and>
     rx_reed ` set (fe_removals f) \<subseteq> rd_id ` set (fe_reeds f) \<and> wholeThreads f \<and> countsFit f \<and> partsAlone f \<and>
     (\<forall>u. hasAccountRemovalQ (fe_db f) u \<longrightarrow> getUserProfile (fe_db f) u \<noteq> Inr True)"

text \<open>What the rows of reeds are but for when they were published.\<close>

definition reedCore :: "reedRow \<Rightarrow> reedRow" where
  "reedCore r = r\<lparr>rd_published := None\<rparr>"

definition sameReeds :: "feed \<Rightarrow> feed \<Rightarrow> bool" where
  "sameReeds f f' \<longleftrightarrow> map reedCore (fe_reeds f') = map reedCore (fe_reeds f) \<and> fe_threads f' = fe_threads f \<and>
     fe_replies f' = fe_replies f \<and> fe_removals f' = fe_removals f \<and>
     fe_reply_counts f' = fe_reply_counts f \<and> db_removals (fe_db f') = db_removals (fe_db f) \<and>
     db_users (fe_db f') = db_users (fe_db f)"

lemma sameReeds_refl [simp]: "sameReeds f f"
  by (simp add: sameReeds_def)

lemma sameReeds_trans: "sameReeds f g \<Longrightarrow> sameReeds g h \<Longrightarrow> sameReeds f h"
  by (simp add: sameReeds_def)

lemma reedCore_sel [simp]:
  "rd_id (reedCore r) = rd_id r" "rd_user (reedCore r) = rd_user r" "rd_at (reedCore r) = rd_at r"
  "rd_thread (reedCore r) = rd_thread r" "rd_sig (reedCore r) = rd_sig r" "rd_server_sig (reedCore r) = rd_server_sig r"
  by (simp_all add: reedCore_def)

text \<open>A view of reeds that doesn't read when they were published.\<close>

lemma reedCore_view:
  assumes "map reedCore rs' = map reedCore rs" and "\<And>r. g (reedCore r) = g r"
  shows "map g rs' = map g rs"
proof -
  have "map g rs' = map g (map reedCore rs')" "map g rs = map g (map reedCore rs)"
    using assms(2) by (simp_all add: comp_def)
  then show ?thesis using assms(1) by simp
qed

lemma reedCore_bex:
  assumes "map reedCore rs' = map reedCore rs" and "\<And>r. p (reedCore r) = p r"
  shows "(\<exists>r \<in> set rs'. p r) \<longleftrightarrow> (\<exists>r \<in> set rs. p r)"
proof -
  have "(\<exists>r \<in> set rs. p r) \<longleftrightarrow> True \<in> set (map p rs)" for rs :: "reedRow list" by auto
  then show ?thesis using reedCore_view [of rs' rs p] assms by metis
qed

lemma sameReeds_views:
  assumes "sameReeds f f'"
  shows "reedRemoved f' = reedRemoved f" "authorRemoved f' = authorRemoved f" "counted f' = counted f"
    "repliesBelow f' = repliesBelow f" "countsFit f' \<longleftrightarrow> countsFit f"
proof -
  have c: "map reedCore (fe_reeds f') = map reedCore (fe_reeds f)" using assms by (simp add: sameReeds_def)
  show 1: "reedRemoved f' = reedRemoved f"
    using assms by (simp add: fun_eq_iff sameReeds_def reedRemoved_def)
  show 2: "authorRemoved f' = authorRemoved f"
    using assms reedCore_bex [OF c] by (simp add: fun_eq_iff authorRemoved_def hasAccountRemovalQ_def sameReeds_def)
  show 3: "counted f' = counted f" by (simp add: fun_eq_iff counted_def 1 2)
  show 4: "repliesBelow f' = repliesBelow f" using assms by (simp add: fun_eq_iff repliesBelow_def 3 sameReeds_def)
  show "countsFit f' \<longleftrightarrow> countsFit f" using assms by (simp add: countsFit_def 4 sameReeds_def)
qed

lemma sameReeds_inv:
  assumes "sameReeds f f'" and "feedInv f"
  shows "feedInv f'"
proof -
  have c: "map reedCore (fe_reeds f') = map reedCore (fe_reeds f)" using assms(1) by (simp add: sameReeds_def)
  have ids: "map rd_id (fe_reeds f') = map rd_id (fe_reeds f)" by (rule reedCore_view [OF c]) simp
  then have sets: "rd_id ` set (fe_reeds f') = rd_id ` set (fe_reeds f)" by (metis set_map)
  have heads: "(\<exists>r \<in> set (fe_reeds f'). partOf r h \<and> P (rd_id r)) \<longleftrightarrow> (\<exists>r \<in> set (fe_reeds f). partOf r h \<and> P (rd_id r))" for h P
    by (rule reedCore_bex [OF c]) (simp add: partOf_def)
  have w: "wholeThreads g \<longleftrightarrow> (\<forall>h. \<not> ((\<exists>r \<in> set (fe_reeds g). partOf r h \<and> reedRemoved g (rd_id r)) \<and>
      (\<exists>r \<in> set (fe_reeds g). partOf r h \<and> \<not> reedRemoved g (rd_id r))))" for g
    unfolding wholeThreads_def by blast
  have "wholeThreads f' \<longleftrightarrow> wholeThreads f"
    unfolding w sameReeds_views(1) [OF assms(1)]
    using heads [of _ "reedRemoved f"] heads [of _ "\<lambda>i. \<not> reedRemoved f i"] by simp
  moreover have "partsAlone f' \<longleftrightarrow> partsAlone f"
    using assms(1) reedCore_bex [OF c, of "\<lambda>r. rd_thread r \<noteq> None \<and> rd_id r \<in> A" for A]
    by (simp add: partsAlone_def sameReeds_def)
  moreover have "(\<forall>r \<in> set (fe_reeds f'). \<forall>h. partOf r h \<longrightarrow> h \<in> A) \<longleftrightarrow> (\<forall>r \<in> set (fe_reeds f). \<forall>h. partOf r h \<longrightarrow> h \<in> A)" for A
    using heads [of _ "\<lambda>_. True"] by auto
  ultimately show ?thesis
    using assms sameReeds_views(5) [OF assms(1)] ids sets
    by (simp add: feedInv_def sameReeds_def hasAccountRemovalQ_def getUserProfile_def userRow_def)
qed

subsection \<open>Adding a reed\<close>

text \<open>What adding rows of reeds means for the rest: \<open>grows f rs f'\<close>.\<close>

definition grows :: "feed \<Rightarrow> reedRow list \<Rightarrow> feed \<Rightarrow> bool" where
  "grows f rs f' \<longleftrightarrow> map reedCore (fe_reeds f') = map reedCore (fe_reeds f @ rs) \<and> fe_threads f' = fe_threads f \<and>
     fe_replies f' = fe_replies f \<and> fe_removals f' = fe_removals f \<and>
     fe_reply_counts f' = fe_reply_counts f \<and> db_removals (fe_db f') = db_removals (fe_db f) \<and>
     db_users (fe_db f') = db_users (fe_db f)"

lemma grows_Nil [simp]: "grows f [] f' \<longleftrightarrow> sameReeds f f'"
  by (simp add: grows_def sameReeds_def)

lemma grows_trans: "grows f rs g \<Longrightarrow> grows g qs h \<Longrightarrow> grows f (rs @ qs) h"
  by (simp add: grows_def)

lemma grows_same: "grows f rs g \<Longrightarrow> sameReeds g h \<Longrightarrow> grows f rs h"
  by (simp add: grows_def sameReeds_def)

lemma same_grows: "sameReeds f g \<Longrightarrow> grows g rs h \<Longrightarrow> grows f rs h"
  by (simp add: grows_def sameReeds_def)

lemma upsertIdentity_removals [simp]:
  "db_removals (upsertIdentity u d) = db_removals d" "db_users (upsertIdentity u d) = db_users d"
  by (simp_all add: upsertIdentity_def)

lemma insertReedIdentityOf_removals [simp]:
  "db_removals (insertReedIdentityOf i v a d) = db_removals d" "db_users (insertReedIdentityOf i v a d) = db_users d"
  by (simp_all add: insertReedIdentityOf_def Let_def)

lemma sameReeds_updDb:
  "db_removals (g (fe_db f)) = db_removals (fe_db f) \<Longrightarrow> db_users (g (fe_db f)) = db_users (fe_db f) \<Longrightarrow>
     sameReeds f (updDb g f)"
  by (simp add: sameReeds_def)

lemma insertReedIdentity_same: "insertReedIdentity i f = Inr f' \<Longrightarrow> sameReeds f f'"
  by (auto simp: insertReedIdentity_def sameReeds_updDb split: option.splits)

lemma mintForeign_same: "mintForeign E ref f = Inr f' \<Longrightarrow> sameReeds f f'"
  by (auto simp: mintForeign_def insertReedIdentity_same split: if_splits)

lemma insertMention_same: "sameReeds f (insertMention i m f)"
  by (simp add: insertMention_def insertMentionRow_def insertAdminMentionRow_def sameReeds_def split: prod.split)

lemma fold_same:
  assumes "\<And>x f. sameReeds f (g x f)"
  shows "sameReeds f (fold g xs f)"
proof (induction xs arbitrary: f)
  case (Cons x xs)
  then show ?case using sameReeds_trans [OF assms Cons] by simp
qed simp

lemma insertEchoRow_same: "insertEchoRow e f = (b, f') \<Longrightarrow> sameReeds f f'"
  by (auto simp: insertEchoRow_def sameReeds_def split: if_splits)

lemma remoteAuthor_same [simp]: "sameReeds (updDb (upsertIdentity u) g) h = sameReeds g h"
  by (simp add: sameReeds_def)

lemma deleteEchoRows_same: "sameReeds f (deleteEchoRows p f)"
  by (simp add: deleteEchoRows_def sameReeds_def)

lemma so_db_updDb [simp]: "so_db (fe_social (updDb g f)) = g (fe_db f)"
  by (simp add: updDb_def)

lemma insertReedCoreTx_Inr:
  assumes "insertReedCoreTx E uuid7 p f = Inr (r, f')"
  shows "r = reedRowOf p \<and> checkReedTipTx f (cr_user p) (cr_previous p) = None \<and>
    cr_reed p \<notin> rd_id ` set (fe_reeds f) \<and> \<not> threadSlotTaken f r \<and> grows f [r] f'"
proof -
  let ?g = "\<lambda>g. sameReeds g (fold (insertMention (cr_reed p)) (cr_mentions p) g)"
  have "?g g" for g by (rule fold_same) (rule insertMention_same)
  then show ?thesis
    using assms
    by (auto simp: insertReedCoreTx_def Let_def grows_def sameReeds_def threadSlotTaken_def split: if_splits option.splits)
qed

lemma atSecond_sel [simp]:
  "reedRowOf (atSecond p) = reedRowOf p" "cr_user (atSecond p) = cr_user p" "cr_reed (atSecond p) = cr_reed p"
  "cr_previous (atSecond p) = cr_previous p"
  by (simp_all add: atSecond_def reedRowOf_def Let_def)

lemma createReed_Inr:
  assumes "createReed E uuid7 p f = Inr (r, f')"
  shows "r = reedRowOf p \<and> checkReedTipTx f (cr_user p) (cr_previous p) = None \<and>
    cr_reed p \<notin> rd_id ` set (fe_reeds f) \<and> grows f [r] f'"
  using insertReedCoreTx_Inr [OF assms [unfolded createReed_def]] by auto

lemma createReedWithEcho_Inr:
  assumes "createReedWithEcho E uuid7 p t blank f = Inr ((r, x), f')"
  shows "r = reedRowOf p \<and> checkReedTipTx f (cr_user p) (cr_previous p) = None \<and>
    cr_reed p \<notin> rd_id ` set (fe_reeds f) \<and> grows f [r] f'"
proof -
  obtain f1 where c: "insertReedCoreTx E uuid7 (atSecond p) f = Inr (r, f1)" and rest: "sameReeds f1 f'"
  proof -
    obtain r1 f1 f2 where c: "insertReedCoreTx E uuid7 (atSecond p) f = Inr (r1, f1)" and m: "mintForeign E t f1 = Inr f2"
      and e: "r1 = r \<and> (sameReeds f2 f' \<or> sameReeds (updDb (upsertIdentity (canonicalAuthorID t)) f2) f')"
      using assms unfolding createReedWithEcho_def Let_def bindR_Inr
      by (auto simp: bindR_Inr dest!: insertEchoRow_same split: if_splits prod.splits)
    have "sameReeds f1 f'" using sameReeds_trans [OF mintForeign_same [OF m]] e by auto
    with c e show thesis by (auto intro: that)
  qed
  show ?thesis using insertReedCoreTx_Inr [OF c] grows_same [OF _ rest] by auto
qed

lemma feedInv_profiles:
  "feedInv f \<Longrightarrow> getUserProfile (fe_db f) u = Inr True \<Longrightarrow> \<not> hasAccountRemovalQ (fe_db f) u"
  by (auto simp: feedInv_def)

lemma grows_inv:
  assumes inv: "feedInv f" and g: "grows f rs f'" and ids: "uniqueBy rd_id (fe_reeds f @ rs)"
    and heads: "\<And>r h. r \<in> set rs \<Longrightarrow> partOf r h \<Longrightarrow> h \<in> rd_id ` set rs"
    and fresh: "\<And>r. r \<in> set rs \<Longrightarrow> rd_id r \<notin> ry_reed ` set (fe_replies f)"
    and named: "\<And>r. r \<in> set rs \<Longrightarrow> rd_id r \<noteq> ''''"
  shows "feedInv f'"
proof -
  define h where "h = f\<lparr>fe_reeds := fe_reeds f @ rs\<rparr>"
  have same: "sameReeds h f'" using g by (simp add: grows_def sameReeds_def h_def)
  have rem: "reedRemoved h = reedRemoved f" by (simp add: fun_eq_iff reedRemoved_def h_def)
  have old: "rx_reed ` set (fe_removals f) \<subseteq> rd_id ` set (fe_reeds f)" using inv by (simp add: feedInv_def)
  have new: "\<not> reedRemoved f (rd_id r)" if "r \<in> set rs" for r
    using that old ids by (auto simp: reedRemoved_def)
  have apart: "\<not> (partOf r x \<and> partOf q x)" if "r \<in> set (fe_reeds f)" "q \<in> set rs" for r q x
  proof
    assume a: "partOf r x \<and> partOf q x"
    then have "x \<in> rd_id ` set (fe_reeds f)" using inv that(1) by (simp add: feedInv_def)
    moreover have "x \<in> rd_id ` set rs" using heads [OF that(2)] a by blast
    ultimately show False using ids by auto
  qed
  have "wholeThreads h"
  proof -
    have w: "wholeThreads f" using inv by (simp add: feedInv_def)
    have "reedRemoved f (rd_id r) \<longleftrightarrow> reedRemoved f (rd_id q)"
      if "r \<in> set (fe_reeds h)" "q \<in> set (fe_reeds h)" "partOf r x" "partOf q x" for r q x
    proof -
      note t = that
      consider "r \<in> set (fe_reeds f)" "q \<in> set (fe_reeds f)" | "r \<in> set rs" "q \<in> set rs"
        using t apart [of r q x] apart [of q r x] by (auto simp: h_def)
      then show ?thesis
      proof cases
        case 1
        show ?thesis using w [unfolded wholeThreads_def, rule_format, OF 1 t(3,4)] .
      qed (use new in auto)
    qed
    then show ?thesis unfolding wholeThreads_def rem by blast
  qed
  moreover have "countsFit h"
  proof -
    have "authorRemoved h (ry_reed y) = authorRemoved f (ry_reed y)" if "y \<in> set (fe_replies f)" for y
      using that fresh by (auto simp: authorRemoved_def h_def)
    then have "repliesBelow h x = repliesBelow f x" for x
      unfolding repliesBelow_def counted_def rem by (auto simp: h_def intro: filter_cong)
    then show ?thesis using inv by (simp add: countsFit_def feedInv_def h_def)
  qed
  moreover have "x \<in> rd_id ` set (fe_reeds h)" if "r \<in> set (fe_reeds h)" "partOf r x" for r x
  proof (cases "r \<in> set rs")
    case True
    then show ?thesis using heads that(2) by (auto simp: h_def)
  next
    case False
    then have "x \<in> rd_id ` set (fe_reeds f)" using inv that by (simp add: feedInv_def h_def)
    then show ?thesis by (simp add: h_def image_Un)
  qed
  moreover have "rx_reed ` set (fe_removals h) \<subseteq> rd_id ` set (fe_reeds h)" using old by (auto simp: h_def)
  moreover have "fe_replies h = fe_replies f" "fe_db h = fe_db f" "fe_threads h = fe_threads f" "uniqueBy rd_id (fe_reeds h)"
    using ids by (simp_all add: h_def)
  moreover have "partsAlone h" using inv fresh by (auto simp: feedInv_def partsAlone_def h_def)
  moreover have "'''' \<notin> rd_id ` set (fe_reeds h)" using inv named by (force simp: feedInv_def h_def)
  ultimately have "feedInv h" using inv by (simp add: feedInv_def)
  then show ?thesis by (rule sameReeds_inv [OF same])
qed

subsection \<open>Adding and removing replies\<close>

lemma bumpAncestors_forest:
  assumes "replyForest (fe_replies f)"
  shows "bumpAncestors up i f = Some (f\<lparr>fe_reply_counts :=
    fold (\<lambda>p. bumpStat p up) (ancestry (fe_replies f) i) (fe_reply_counts f)\<rparr>)"
  by (simp add: bumpAncestors_def bumpReplyAncestors_above [OF assms])

lemma ancestry_absent: "replyForest rs \<Longrightarrow> i \<notin> ry_reed ` set rs \<Longrightarrow> ancestry rs i = []"
  using above_None [of rs i] by (auto simp: replyParent_def rowBy_None)

lemma wholeThreads_cong:
  "fe_reeds f' = fe_reeds f \<Longrightarrow> reedRemoved f' = reedRemoved f \<Longrightarrow> wholeThreads f' = wholeThreads f"
  unfolding wholeThreads_def by (simp only:)

lemma addReplyRow_inv:
  assumes add: "addReplyRow y f = Some f'" and inv: "feedInv f"
    and fresh: "ry_reed y \<notin> ry_reed ` set (fe_replies f)" "ry_reed y \<notin> ry_parent ` set (fe_replies f)"
    and live: "\<not> reedRemoved f (ry_reed y)" "\<not> authorRemoved f (ry_reed y)"
    and alone: "\<And>r. r \<in> set (fe_reeds f) \<Longrightarrow> rd_id r = ry_reed y \<Longrightarrow> rd_thread r = None"
  shows "feedInv f' \<and> fe_reeds f' = fe_reeds f \<and> fe_threads f' = fe_threads f \<and> fe_removals f' = fe_removals f"
proof -
  let ?rs = "fe_replies f"
  define f1 where "f1 = f\<lparr>fe_replies := ?rs @ [y]\<rparr>"
  have old: "replyForest ?rs" using inv by (simp add: feedInv_def)
  have "authorRemoved f1 = authorRemoved f" by (simp add: fun_eq_iff authorRemoved_def f1_def)
  then have bump: "bumpAncestors True (ry_reed y) f1 = Some f'"
    using add live(2) by (simp add: addReplyRow_def Let_def f1_def)
  have "ry_parent y \<noteq> ry_reed y"
  proof
    assume "ry_parent y = ry_reed y"
    then have "replyParent (fe_replies f1) (ry_reed y) = Some (ry_reed y)"
      using fresh(1) by (simp add: f1_def replyParent_snoc)
    then show False using bump by (simp add: bumpAncestors_def bump_self_loop)
  qed
  then have forest: "replyForest (?rs @ [y])" using old fresh by (simp add: replyForest_snoc)
  have f': "f' = f1\<lparr>fe_reply_counts := fold (\<lambda>p. bumpStat p True) (ancestry (?rs @ [y]) (ry_reed y)) (fe_reply_counts f)\<rparr>"
    using bump bumpAncestors_forest [of f1 True "ry_reed y"] forest by (simp add: f1_def)
  have rem: "reedRemoved f' = reedRemoved f" "counted f' = counted f"
    by (simp_all add: fun_eq_iff f' f1_def reedRemoved_def counted_def authorRemoved_def)
  have "ancestry (?rs @ [y]) (ry_reed z) = ancestry ?rs (ry_reed z)" if "z \<in> set ?rs" for z
    using that fresh(1) by (auto simp: above_snoc image_iff)
  then have "filter (\<lambda>z. counted f z \<and> x \<in> set (ancestry (?rs @ [y]) (ry_reed z))) ?rs = repliesBelow f x" for x
    unfolding repliesBelow_def by (auto intro: filter_cong)
  then have "length (repliesBelow f' x) =
      length (repliesBelow f x) + (if x \<in> set (ancestry (?rs @ [y]) (ry_reed y)) then 1 else 0)" for x
    using live unfolding repliesBelow_def rem by (simp add: f' f1_def counted_def)
  then have "countsFit f'"
    using inv above_distinct [OF forest, of "ry_reed y"]
    by (simp add: countsFit_def feedInv_def f' fold_bump_at)
  moreover have reeds: "fe_reeds f' = fe_reeds f" by (simp add: f' f1_def)
  then have "wholeThreads f'" using inv wholeThreads_cong [OF reeds rem(1)] by (simp add: feedInv_def)
  moreover have "partsAlone f'" using inv alone by (auto simp: partsAlone_def feedInv_def f' f1_def)
  ultimately show ?thesis using inv forest by (simp add: feedInv_def f' f1_def)
qed

lemma uniqueBy_filter_one: "uniqueBy key t \<Longrightarrow> r \<in> set t \<Longrightarrow> filter (\<lambda>z. key z = key r) t = [r]"
  by (induction t) (auto simp: filter_empty_conv image_iff)

text \<open>A removal takes the reed off the counts of what it answered.\<close>

lemma addRemovalRow_forest:
  assumes "replyForest (fe_replies f)"
  shows "addRemovalRow r f = Some (f\<lparr>fe_removals := fe_removals f @ [r], fe_reply_counts :=
    fold (\<lambda>p. bumpStat p False) (ancestry (fe_replies f) (rx_reed r)) (fe_reply_counts f)\<rparr>)"
  using assms by (simp add: addRemovalRow_def bumpAncestors_forest)

lemma addRemovalRow_counts:
  assumes add: "addRemovalRow r f = Some f'" and fit: "countsFit f" and forest: "replyForest (fe_replies f)"
    and new: "\<not> reedRemoved f (rx_reed r)" and live: "\<not> authorRemoved f (rx_reed r) \<or> rx_reed r \<notin> ry_reed ` set (fe_replies f)"
  shows "countsFit f'"
proof -
  let ?rs = "fe_replies f" and ?i = "rx_reed r"
  have f': "f' = f\<lparr>fe_removals := fe_removals f @ [r], fe_reply_counts :=
      fold (\<lambda>p. bumpStat p False) (ancestry ?rs ?i) (fe_reply_counts f)\<rparr>"
    using add addRemovalRow_forest [OF forest] by simp
  have c: "counted f' y \<longleftrightarrow> counted f y \<and> ry_reed y \<noteq> ?i" for y
    by (auto simp: counted_def f' reedRemoved_def authorRemoved_def)
  have below: "repliesBelow f' x = filter (\<lambda>y. ry_reed y \<noteq> ?i) (repliesBelow f x)" for x
    unfolding repliesBelow_def c by (simp add: f' conj_commute conj_left_commute)
  have u: "uniqueBy ry_reed ?rs" using forest by (simp add: replyForest_def)
  have "length (repliesBelow f' x) = length (repliesBelow f x) - (if x \<in> set (ancestry ?rs ?i) then 1 else 0)" for x
  proof (cases "?i \<in> ry_reed ` set ?rs")
    case False
    then have "repliesBelow f' x = repliesBelow f x" unfolding below by (auto simp: repliesBelow_def image_iff intro!: filter_cong)
    then show ?thesis using ancestry_absent [OF forest False] by simp
  next
    case True
    then obtain y where y: "y \<in> set ?rs" "ry_reed y = ?i" by auto
    have "counted f y" using new live True by (simp add: counted_def y(2))
    then have here: "y \<in> set (repliesBelow f x) \<longleftrightarrow> x \<in> set (ancestry ?rs ?i)" using y by (simp add: repliesBelow_def)
    have only: "filter (\<lambda>z. ry_reed z = ?i) (repliesBelow f x) = (if x \<in> set (ancestry ?rs ?i) then [y] else [])"
    proof -
      have "filter (\<lambda>z. ry_reed z = ?i) ?rs = [y]" using uniqueBy_filter_one [OF u y(1)] y(2) by simp
      then have "filter (\<lambda>z. counted f z \<and> x \<in> set (ancestry ?rs (ry_reed z))) (filter (\<lambda>z. ry_reed z = ?i) ?rs) =
          (if x \<in> set (ancestry ?rs ?i) then [y] else [])"
        using \<open>counted f y\<close> y(2) by simp
      then show ?thesis unfolding repliesBelow_def by (simp add: conj_commute)
    qed
    show ?thesis
      using sum_length_filter_compl [of "\<lambda>z. ry_reed z = ?i" "repliesBelow f x"] only below [of x] by (auto split: if_splits)
  qed
  then show ?thesis
    using fit above_distinct [OF forest, of ?i] by (simp add: countsFit_def f' fold_bump_at)
qed

subsection \<open>Storing a reed\<close>

text \<open>The reeds that are new, whatever was recorded of replies.\<close>

definition onlyReeds :: "feed \<Rightarrow> reedRow list \<Rightarrow> feed \<Rightarrow> bool" where
  "onlyReeds f rs f' \<longleftrightarrow> map reedCore (fe_reeds f') = map reedCore (fe_reeds f @ rs) \<and> fe_threads f' = fe_threads f \<and>
     fe_removals f' = fe_removals f"

lemma grows_only: "grows f rs f' \<Longrightarrow> onlyReeds f rs f'"
  by (simp add: grows_def onlyReeds_def)

lemma only_trans: "onlyReeds f rs g \<Longrightarrow> onlyReeds g [] h \<Longrightarrow> onlyReeds f rs h"
  by (simp add: onlyReeds_def)

lemma same_only: "sameReeds f g \<Longrightarrow> onlyReeds f [] g"
  by (simp add: sameReeds_def onlyReeds_def)

lemma addReplyRow_only: "addReplyRow y f = Some f' \<Longrightarrow> onlyReeds f [] f'"
  by (auto simp: addReplyRow_def Let_def bumpAncestors_def onlyReeds_def split: if_splits)

text \<open>A reply goes in after its reeds' identities.\<close>

lemma insertReplyTx_Inr:
  assumes "insertReplyTx E root parent reply at f = Some (Inr f')"
  shows "\<exists>g. sameReeds f g \<and> reply \<notin> ry_reed ` set (fe_replies f) \<and>
    addReplyRow \<lparr>ry_root = root, ry_reed = reply, ry_parent = formatReedRef parent, ry_at = at\<rparr> g = Some f'"
proof -
  obtain f1 where m: "mintForeign E parent f = Inr f1"
    using assms by (auto simp: insertReplyTx_def split: sum.splits)
  obtain f2 where k: "(case parseKeyFingerprint reply of
         Some (_, server, _) \<Rightarrow> if server \<noteq> e_server_id E then insertReedIdentity reply f1 else Inr f1
       | None \<Rightarrow> Inr f1) = Inr f2"
    and a: "reply \<notin> ry_reed ` set (fe_replies f2)"
      "addReplyRow \<lparr>ry_root = root, ry_reed = reply, ry_parent = formatReedRef parent, ry_at = at\<rparr> f2 = Some f'"
    using assms by (auto simp: insertReplyTx_def m split: sum.splits if_splits)
  have "sameReeds f1 f2" using k by (auto dest: insertReedIdentity_same split: option.splits if_splits)
  then have s: "sameReeds f f2" by (rule sameReeds_trans [OF mintForeign_same [OF m]])
  then have "fe_replies f2 = fe_replies f" by (simp add: sameReeds_def)
  with s a show ?thesis by auto
qed

lemma storeReed_Inr:
  assumes "storeReed E uuid7 p echo reply root f = Some (Inr ((r, x), f'))"
  shows "r = reedRowOf p \<and> checkReedTipTx f (cr_user p) (cr_previous p) = None \<and>
    cr_reed p \<notin> rd_id ` set (fe_reeds f) \<and> onlyReeds f [r] f'"
proof (cases echo)
  case (Some t)
  then have c: "createReedWithEcho E uuid7 p t False f = Inr ((r, x), f')" using assms by (simp add: storeReed_def)
  show ?thesis using createReedWithEcho_Inr [OF c] grows_only by auto
next
  case None
  show ?thesis
  proof (cases reply)
    case (Some parent)
    obtain f1 where c: "insertReedCoreTx E uuid7 (atSecond p) f = Inr (r, f1)"
      and y: "insertReplyTx E root parent (cr_reed p) (truncateSecond (cr_at p)) f1 = Some (Inr f')"
      using assms None Some by (auto simp: storeReed_def createReedWithReply_def bindR_Inr split: sum.splits)
    obtain g where g: "sameReeds f1 g" "onlyReeds g [] f'" using insertReplyTx_Inr [OF y] addReplyRow_only by blast
    show ?thesis
      using insertReedCoreTx_Inr [OF c] only_trans [OF grows_only [OF grows_same [OF _ g(1)]] g(2)] by auto
  next
    case N: None
    then have c: "createReed E uuid7 p f = Inr (r, f')" using assms None by (auto simp: storeReed_def bindR_Inr)
    show ?thesis using createReed_Inr [OF c] grows_only by auto
  qed
qed

text \<open>Nothing here answers the reed, or is known as it.\<close>

definition unknownReply :: "feed \<Rightarrow> string \<Rightarrow> bool" where
  "unknownReply f i \<longleftrightarrow> i \<notin> ry_reed ` set (fe_replies f) \<and> i \<notin> ry_parent ` set (fe_replies f)"

lemma storeReed_inv:
  assumes store: "storeReed E uuid7 p echo reply root f = Some (Inr ((r, x), f'))" and inv: "feedInv f"
    and p: "cr_thread_head p = ''''" "cr_reed p \<noteq> ''''" "\<not> hasAccountRemovalQ (fe_db f) (cr_user p)" and fresh: "unknownReply f (cr_reed p)"
  shows "feedInv f'"
proof -
  have row: "rd_id (reedRowOf p) = cr_reed p" "rd_thread (reedRowOf p) = None" "rd_user (reedRowOf p) = cr_user p"
    using p(1) by (simp_all add: reedRowOf_def Let_def)
  have id: "cr_reed p \<notin> rd_id ` set (fe_reeds f)" using storeReed_Inr [OF store] by simp
  have grown: "feedInv g" if "grows f [reedRowOf p] g" for g
  proof (rule grows_inv [OF inv that])
    show "uniqueBy rd_id (fe_reeds f @ [reedRowOf p])" using inv id row by (auto simp: feedInv_def)
  qed (use row fresh p(2) in \<open>auto simp: partOf_def unknownReply_def\<close>)
  show ?thesis
  proof (cases echo)
    case (Some t)
    then have c: "createReedWithEcho E uuid7 p t False f = Inr ((r, x), f')" using store by (simp add: storeReed_def)
    show ?thesis using createReedWithEcho_Inr [OF c] grown by auto
  next
    case None
    show ?thesis
    proof (cases reply)
      case (Some parent)
      obtain f1 where c: "insertReedCoreTx E uuid7 (atSecond p) f = Inr (r, f1)"
        and y: "insertReplyTx E root parent (cr_reed p) (truncateSecond (cr_at p)) f1 = Some (Inr f')"
        using store None Some by (auto simp: storeReed_def createReedWithReply_def bindR_Inr split: sum.splits)
      obtain g where g: "sameReeds f1 g" and a: "addReplyRow \<lparr>ry_root = root, ry_reed = cr_reed p,
          ry_parent = formatReedRef parent, ry_at = truncateSecond (cr_at p)\<rparr> g = Some f'"
        using insertReplyTx_Inr [OF y] by blast
      have gr: "grows f [reedRowOf p] g" using insertReedCoreTx_Inr [OF c] grows_same [OF _ g] by auto
      have inv': "feedInv g" by (rule grown [OF gr])
      have only: "rd_user q = cr_user p \<and> rd_thread q = None" if "q \<in> set (fe_reeds g)" "rd_id q = cr_reed p" for q
      proof -
        have "reedCore q \<in> set (map reedCore (fe_reeds f @ [reedRowOf p]))"
          using gr that(1) unfolding grows_def by (metis image_eqI set_map)
        then obtain q' where q': "q' \<in> set (fe_reeds f) \<or> q' = reedRowOf p" "reedCore q' = reedCore q"
          by (fastforce intro: that)
        then have e: "rd_id q' = rd_id q" "rd_user q' = rd_user q" "rd_thread q' = rd_thread q" by (metis reedCore_sel)+
        then have "q' = reedRowOf p" using q'(1) id that(2) by (auto simp: image_iff)
        then show ?thesis using e row by simp
      qed
      have "feedInv f' \<and> fe_reeds f' = fe_reeds g \<and> fe_threads f' = fe_threads g \<and> fe_removals f' = fe_removals g"
      proof (rule addReplyRow_inv [OF a inv'])
        show "\<not> authorRemoved g (ry_reed \<lparr>ry_root = root, ry_reed = cr_reed p, ry_parent = formatReedRef parent, ry_at = truncateSecond (cr_at p)\<rparr>)"
          using only p(3) gr by (auto simp: authorRemoved_def grows_def hasAccountRemovalQ_def)
        show "\<not> reedRemoved g (ry_reed \<lparr>ry_root = root, ry_reed = cr_reed p, ry_parent = formatReedRef parent, ry_at = truncateSecond (cr_at p)\<rparr>)"
          using inv id gr by (auto simp: reedRemoved_def grows_def feedInv_def)
      qed (use fresh gr only in \<open>auto simp: unknownReply_def grows_def\<close>)
      then show ?thesis by simp
    next
      case N: None
      then have c: "createReed E uuid7 p f = Inr (r, f')" using store None by (auto simp: storeReed_def bindR_Inr)
      show ?thesis using createReed_Inr [OF c] grown by auto
    qed
  qed
qed

subsection \<open>Storing a thread\<close>

definition threadRows :: "createThreadParams \<Rightarrow> nat list \<Rightarrow> reedRow list" where
  "threadRows p is = map (\<lambda>i. reedRowOf (threadPart p i)) is"

lemma threadPart_sel [simp]:
  "cr_reed (threadPart p i) = cr_reed (ct_parts p ! i)" "cr_user (threadPart p i) = cr_user (ct_parts p ! i)"
  "cr_thread_head (threadPart p i) = cr_reed (ct_parts p ! 0)" "cr_thread_index (threadPart p i) = i"
  "cr_at (threadPart p i) = truncateSecond (ct_at p)"
  by (simp_all add: threadPart_def)

lemma threadRow_sel:
  "rd_id (reedRowOf (threadPart p i)) = cr_reed (ct_parts p ! i)" "rd_user (reedRowOf (threadPart p i)) = cr_user (ct_parts p ! i)"
  "rd_thread (reedRowOf (threadPart p i)) =
     (if cr_reed (ct_parts p ! 0) \<noteq> '''' then Some (cr_reed (ct_parts p ! 0), i) else None)"
  "rd_at (reedRowOf (threadPart p i)) = truncateSecond (ct_at p)"
  by (simp_all add: reedRowOf_def Let_def)

lemma insertThreadPart_Inr:
  assumes "insertThreadPart E uuid7 p i f = Inr f'"
  shows "grows f [reedRowOf (threadPart p i)] f' \<and> cr_reed (ct_parts p ! i) \<notin> rd_id ` set (fe_reeds f) \<and>
    checkReedTipTx f (cr_user (ct_parts p ! i)) (cr_previous (threadPart p i)) = None"
proof -
  obtain r where c: "insertReedCoreTx E uuid7 (threadPart p i) f = Inr (r, f')"
    using assms by (auto simp: insertThreadPart_def bindR_Inr)
  show ?thesis using insertReedCoreTx_Inr [OF c] by auto
qed

lemma grows_ids: "grows f rs f' \<Longrightarrow> map rd_id (fe_reeds f') = map rd_id (fe_reeds f @ rs)"
  unfolding grows_def by (rule reedCore_view [of _ _ rd_id]) auto

lemma threadParts_grow:
  assumes "forEach (insertThreadPart E uuid7 p) is f = Inr f'" and "uniqueBy rd_id (fe_reeds f)"
  shows "grows f (threadRows p is) f' \<and> uniqueBy rd_id (fe_reeds f @ threadRows p is)"
  using assms
proof (induction "is" arbitrary: f)
  case Nil
  then show ?case by (simp add: threadRows_def)
next
  case (Cons i "is")
  then obtain g where g: "insertThreadPart E uuid7 p i f = Inr g" and rest: "forEach (insertThreadPart E uuid7 p) is g = Inr f'"
    by (auto simp: bindR_Inr)
  let ?r = "reedRowOf (threadPart p i)"
  have one: "grows f [?r] g" "rd_id ?r \<notin> rd_id ` set (fe_reeds f)"
    using insertThreadPart_Inr [OF g] by (simp_all add: threadRow_sel)
  have ids: "map rd_id (fe_reeds g) = map rd_id (fe_reeds f @ [?r])" by (rule grows_ids [OF one(1)])
  have u: "uniqueBy rd_id (fe_reeds g)" unfolding ids using Cons.prems(2) one(2) by simp
  note ih = Cons.IH [OF rest u]
  have "grows f (threadRows p (i # is)) f'" using grows_trans [OF one(1)] ih by (simp add: threadRows_def)
  moreover have "map rd_id (fe_reeds f @ threadRows p (i # is)) = map rd_id (fe_reeds g @ threadRows p is)"
    unfolding map_append ids by (simp add: threadRows_def)
  ultimately show ?case using ih by simp
qed

lemma validateThreadParts_None:
  assumes "validateThreadParts u parts = None"
  shows "2 \<le> length parts \<and> (\<forall>i < length parts. cr_user (parts ! i) = u \<and> authorOf (cr_reed (parts ! i)) = Some u) \<and>
    (\<forall>i. 0 < i \<longrightarrow> i < length parts \<longrightarrow> cr_reed (parts ! (i - 1)) < cr_reed (parts ! i))"
proof -
  have ok: "\<not> threadPartRefused u parts i" if "i < length parts" for i
    using assms that by (auto simp: validateThreadParts_def list_ex_iff split: if_splits)
  have "2 \<le> length parts" using assms by (auto simp: validateThreadParts_def split: if_splits)
  then show ?thesis using ok unfolding threadPartRefused_def by force
qed

lemma authorOf_nonempty: "authorOf i = Some u \<Longrightarrow> i \<noteq> ''''"
  by (auto simp: authorOf_def parseKeyFingerprint_def splitLast_def)

lemma createThread_Inr:
  assumes c: "createThread E uuid7 p f = Inr (rec, f')" and u: "uniqueBy rd_id (fe_reeds f)"
  shows "rec = threadRecordOf p \<and> validateThreadParts (ct_user p) (ct_parts p) = None \<and>
    (\<exists>g. grows f (threadRows p [0..<length (ct_parts p)]) g \<and> uniqueBy rd_id (fe_reeds f @ threadRows p [0..<length (ct_parts p)]) \<and>
      tr_thread rec \<notin> th_id ` set (fe_threads g) \<and>
      f' = g\<lparr>fe_threads := fe_threads g @ [\<lparr>th_id = tr_thread rec, th_sig = tr_sig rec, th_server_sig = tr_server_sig rec\<rparr>]\<rparr>)"
proof -
  have v: "validateThreadParts (ct_user p) (ct_parts p) = None" using c by (simp add: createThread_def split: option.splits)
  obtain g where g: "forEach (insertThreadPart E uuid7 p) [0..<length (ct_parts p)] f = Inr g"
    using c by (auto simp: createThread_def v bindR_Inr)
  show ?thesis using c v threadParts_grow [OF g u] by (auto simp: createThread_def g Let_def split: if_splits)
qed

lemma createThread_inv:
  assumes c: "createThread E uuid7 p f = Inr (rec, f')" and inv: "feedInv f"
    and fresh: "\<And>q. q \<in> set (ct_parts p) \<Longrightarrow> cr_reed q \<notin> ry_reed ` set (fe_replies f)"
  shows "feedInv f'"
proof -
  let ?n = "length (ct_parts p)" and ?rs = "threadRows p [0..<length (ct_parts p)]"
  have u: "uniqueBy rd_id (fe_reeds f)" using inv by (simp add: feedInv_def)
  obtain g where v: "validateThreadParts (ct_user p) (ct_parts p) = None" and g: "grows f ?rs g" "uniqueBy rd_id (fe_reeds f @ ?rs)"
    and new: "tr_thread rec \<notin> th_id ` set (fe_threads g)"
    and f': "f' = g\<lparr>fe_threads := fe_threads g @ [\<lparr>th_id = tr_thread rec, th_sig = tr_sig rec, th_server_sig = tr_server_sig rec\<rparr>]\<rparr>"
    using createThread_Inr [OF c u] by auto
  note parts = validateThreadParts_None [OF v]
  have row: "\<exists>i < ?n. r = reedRowOf (threadPart p i)" if "r \<in> set ?rs" for r using that by (auto simp: threadRows_def)
  have "feedInv g"
  proof (rule grows_inv [OF inv g])
    show "h \<in> rd_id ` set ?rs" if r: "r \<in> set ?rs" and h: "partOf r h" for r h
    proof -
      have "h = cr_reed (ct_parts p ! 0)" using row [OF r] h by (auto simp: partOf_def threadRow_sel split: if_splits)
      moreover have "reedRowOf (threadPart p 0) \<in> set ?rs" using parts by (auto simp: threadRows_def intro!: imageI)
      ultimately show ?thesis by (metis image_eqI threadRow_sel(1))
    qed
    show "rd_id r \<notin> ry_reed ` set (fe_replies f)" if "r \<in> set ?rs" for r
    proof -
      note t = that
      obtain i where i: "i < ?n" "r = reedRowOf (threadPart p i)" using row [OF t] by auto
      show ?thesis using fresh [OF nth_mem [OF i(1)]] by (simp add: i(2) threadRow_sel)
    qed
    show "rd_id r \<noteq> ''''" if "r \<in> set ?rs" for r
      using row [OF that] parts authorOf_nonempty by (auto simp: threadRow_sel)
  qed
  moreover have "reedRemoved f' = reedRemoved g" "fe_reeds f' = fe_reeds g"
    by (simp_all add: fun_eq_iff reedRemoved_def f')
  moreover from this have "wholeThreads f' = wholeThreads g" by (intro wholeThreads_cong)
  moreover have "countsFit f' = countsFit g"
    by (simp add: countsFit_def f' repliesBelow_def counted_def reedRemoved_def authorRemoved_def)
  moreover have "partsAlone f' = partsAlone g" by (simp add: partsAlone_def f')
  ultimately show ?thesis using new by (auto simp: feedInv_def f')
qed

subsection \<open>Storing removals\<close>

lemma enqueuePublishedRemoval_same: "sameReeds f (enqueuePublishedRemovalTx kind i f)"
proof -
  have "db_removals (enqueuePeerEventTx kind i d) = db_removals d" "db_users (enqueuePeerEventTx kind i d) = db_users d" for d
    using arg_cong [OF enqueuePeerEventTx_frame, of db_removals] arg_cong [OF enqueuePeerEventTx_frame, of db_users] by simp_all
  then show ?thesis by (simp add: enqueuePublishedRemovalTx_def sameReeds_updDb)
qed

text \<open>What a removal leaves alone.\<close>

definition removes :: "feed \<Rightarrow> string set \<Rightarrow> feed \<Rightarrow> bool" where
  "removes f A f' \<longleftrightarrow> fe_reeds f' = fe_reeds f \<and> fe_threads f' = fe_threads f \<and> fe_replies f' = fe_replies f \<and>
     fe_db f' = fe_db f \<and> rx_reed ` set (fe_removals f') = rx_reed ` set (fe_removals f) \<union> A \<and> countsFit f'"

lemma addRemovalRow_removes:
  assumes "addRemovalRow r f = Some f'" and "countsFit f" "replyForest (fe_replies f)" "\<not> reedRemoved f (rx_reed r)"
    and "\<not> authorRemoved f (rx_reed r) \<or> rx_reed r \<notin> ry_reed ` set (fe_replies f)"
  shows "removes f {rx_reed r} f'"
  using addRemovalRow_counts [OF assms] assms(1) addRemovalRow_forest [OF assms(3), of r] by (auto simp: removes_def)

lemma removeParts_removes:
  assumes "removeParts h is f = Some f'" and "countsFit f" "replyForest (fe_replies f)"
    and "\<And>i. i \<in> set is \<Longrightarrow> i \<notin> ry_reed ` set (fe_replies f)"
  shows "removes f (set is) f'"
  using assms
proof (induction h "is" f arbitrary: f' rule: removeParts.induct)
  case (1 h f)
  then show ?case by (simp add: removes_def)
next
  case (2 h i "is" f)
  show ?case
  proof (cases "reedRemoved f i")
    case True
    then have "removes f (set is) f'" using 2 by simp
    then show ?thesis using True by (auto simp: removes_def reedRemoved_def)
  next
    case False
    then obtain g where g: "addRemovalRow \<lparr>rx_reed = i, rx_cert = None, rx_thread = Some h\<rparr> f = Some g"
      and rest: "removeParts h is g = Some f'"
      using "2.prems"(1) by (auto split: bind_splits)
    have one: "removes f {i} g" using addRemovalRow_removes [OF g] 2 False by simp
    then have "countsFit g" "fe_replies g = fe_replies f" by (simp_all add: removes_def)
    then have "removes g (set is) f'" using "2.IH"(2) [OF False] g rest "2.prems"(3,4) by simp
    then show ?thesis using one by (auto simp: removes_def)
  qed
qed

text \<open>Removing all parts of the threads touched keeps the invariant.\<close>

lemma removes_inv:
  assumes r: "removes f A f'" and inv: "feedInv f" and known: "A \<subseteq> rd_id ` set (fe_reeds f)"
    and whole: "\<And>r q h. r \<in> set (fe_reeds f) \<Longrightarrow> q \<in> set (fe_reeds f) \<Longrightarrow> partOf r h \<Longrightarrow> partOf q h \<Longrightarrow>
      rd_id r \<in> A \<Longrightarrow> rd_id q \<in> A"
  shows "feedInv f'"
proof -
  have rem: "reedRemoved f' i \<longleftrightarrow> reedRemoved f i \<or> i \<in> A" for i using r by (auto simp: removes_def reedRemoved_def)
  have w: "wholeThreads f" using inv by (simp add: feedInv_def)
  have "wholeThreads f'"
    unfolding wholeThreads_def
  proof (intro ballI allI impI)
    fix r' q' h assume a: "r' \<in> set (fe_reeds f')" "q' \<in> set (fe_reeds f')" "partOf r' h" "partOf q' h"
    then have b: "r' \<in> set (fe_reeds f)" "q' \<in> set (fe_reeds f)" using r by (simp_all add: removes_def)
    have "rd_id r' \<in> A \<longleftrightarrow> rd_id q' \<in> A" using whole [OF b a(3,4)] whole [OF b(2,1) a(4,3)] by blast
    moreover have "reedRemoved f (rd_id r') \<longleftrightarrow> reedRemoved f (rd_id q')"
      using w [unfolded wholeThreads_def, rule_format, OF b a(3,4)] .
    ultimately show "reedRemoved f' (rd_id r') \<longleftrightarrow> reedRemoved f' (rd_id q')" unfolding rem by simp
  qed
  moreover have "partsAlone f' = partsAlone f" using r by (simp add: removes_def partsAlone_def)
  ultimately show ?thesis using inv r known by (simp add: feedInv_def removes_def)
qed

lemma partsAlone_reply:
  "feedInv f \<Longrightarrow> r \<in> set (fe_reeds f) \<Longrightarrow> rd_thread r \<noteq> None \<Longrightarrow> rd_id r \<notin> ry_reed ` set (fe_replies f)"
  by (auto simp: feedInv_def partsAlone_def)

lemma insertReedRemoval_inv:
  assumes ins: "insertReedRemoval cert f = Some (Inr f')" and inv: "feedInv f"
    and row: "r \<in> set (fe_reeds f)" "rd_id r = rc_reed cert" "rd_thread r = None"
    and live: "\<not> hasAccountRemovalQ (fe_db f) (rd_user r)"
  shows "feedInv f'"
proof (cases "\<exists>c. loadReedCert f (rc_reed cert) = Inr (Some c)")
  case True
  then have "f' = f" using ins by (auto simp: insertReedRemoval_def split: if_splits)
  then show ?thesis using inv by simp
next
  case False
  then obtain g where new: "\<not> reedRemoved f (rc_reed cert)"
    and add: "addRemovalRow \<lparr>rx_reed = rc_reed cert, rx_cert = Some (rc_sig cert, truncateSig (rc_server_sig cert)), rx_thread = None\<rparr> f = Some g"
    and f': "f' = enqueuePublishedRemovalTx peerEventReedRemoval (rc_reed cert) g"
    using ins by (auto simp: insertReedRemoval_def split: if_splits sum.splits option.splits)
  have u: "uniqueBy rd_id (fe_reeds f)" using inv by (simp add: feedInv_def)
  have only: "q = r" if "q \<in> set (fe_reeds f)" "rd_id q = rc_reed cert" for q
    using uniqueBy_inj [OF u that(1) row(1)] that(2) row(2) by simp
  have "removes f {rc_reed cert} g"
    using addRemovalRow_removes [OF add] inv new live only by (auto simp: feedInv_def authorRemoved_def)
  then have "feedInv g"
  proof (rule removes_inv [OF _ inv])
    show "{rc_reed cert} \<subseteq> rd_id ` set (fe_reeds f)" using row by force
    show "rd_id q \<in> {rc_reed cert}" if "p \<in> set (fe_reeds f)" "q \<in> set (fe_reeds f)" "partOf p h" "partOf q h"
      "rd_id p \<in> {rc_reed cert}" for p q h
      using only [OF that(1)] that(3,5) row(3) by (auto simp: partOf_def)
  qed
  then show ?thesis unfolding f' by (rule sameReeds_inv [OF enqueuePublishedRemoval_same])
qed

text \<open>The reeds a thread removal names are those of the thread.\<close>

lemma insertThreadRemoval_inv:
  assumes ins: "insertThreadRemoval rm f = Some (Inr f')" and inv: "feedInv f"
    and parts: "set (tw_reeds (tx_record rm)) = rd_id ` {r \<in> set (fe_reeds f). partOf r (tc_thread (tx_cert rm))}"
  shows "feedInv f'"
proof (cases "rowBy tq_thread (tc_thread (tx_cert rm)) (fe_thread_removals f)")
  case (Some q)
  then have "f' = f" using ins by (auto simp: insertThreadRemoval_def Let_def split: if_splits)
  then show ?thesis using inv by simp
next
  case None
  let ?h = "tc_thread (tx_cert rm)" and ?is = "tw_reeds (tx_record rm)"
  define g where "g = enqueuePublishedRemovalTx peerEventThreadRemoval ?h
     (f\<lparr>fe_thread_removals := fe_thread_removals f @ [\<lparr>tq_thread = ?h, tq_sig = tc_sig (tx_cert rm),
       tq_server_sig = truncateSig (tc_server_sig (tx_cert rm)), tq_record = tx_record rm\<rparr>]\<rparr>)"
  have del: "removeParts ?h ?is g = Some f'"
    using ins None by (auto simp: insertThreadRemoval_def Let_def g_def)
  have "sameReeds f g"
    unfolding g_def by (rule sameReeds_trans [OF _ enqueuePublishedRemoval_same]) (simp add: sameReeds_def)
  then have invg: "feedInv g" using inv by (rule sameReeds_inv)
  have reeds: "fe_reeds g = fe_reeds f" by (simp add: g_def enqueuePublishedRemovalTx_def)
  have u: "uniqueBy rd_id (fe_reeds f)" using inv by (simp add: feedInv_def)
  have alone: "i \<notin> ry_reed ` set (fe_replies g)" if i: "i \<in> set ?is" for i
  proof -
    obtain r where "r \<in> set (fe_reeds g)" "rd_thread r \<noteq> None" "rd_id r = i"
      using i unfolding parts reeds [symmetric] by (auto simp: partOf_def)
    then show ?thesis using partsAlone_reply [OF invg] by auto
  qed
  have "removes g (set ?is) f'"
    by (rule removeParts_removes [OF del]) (use invg alone in \<open>auto simp: feedInv_def\<close>)
  then show ?thesis
  proof (rule removes_inv [OF _ invg])
    show "set ?is \<subseteq> rd_id ` set (fe_reeds g)" by (auto simp: parts reeds)
    show "rd_id q \<in> set ?is" if "r \<in> set (fe_reeds g)" "q \<in> set (fe_reeds g)" "partOf r h" "partOf q h" "rd_id r \<in> set ?is" for r q h
    proof -
      note t = that
      obtain x where x: "x \<in> set (fe_reeds f)" "partOf x ?h" "rd_id x = rd_id r" using t(5) by (auto simp: parts)
      have "x = r" using uniqueBy_inj [OF u x(1)] t(1) x(3) by (simp add: reeds)
      then have "h = ?h" using x(2) t(3) by (auto simp: partOf_def)
      then show ?thesis using t(2,4) by (auto simp: parts reeds)
    qed
  qed
qed

subsection \<open>Removing an account\<close>

lemma bumpAll_forest:
  assumes "replyForest (fe_replies f)"
  shows "bumpAll is f = Some (f\<lparr>fe_reply_counts :=
    fold (\<lambda>i. fold (\<lambda>p. bumpStat p False) (ancestry (fe_replies f) i)) is (fe_reply_counts f)\<rparr>)"
  using assms
proof (induction "is" arbitrary: f)
  case Nil
  then show ?case by simp
next
  case (Cons i "is")
  then show ?case by (simp add: bumpAncestors_forest)
qed

lemma fold_uncount:
  assumes "replyForest rs"
  shows "fold (\<lambda>i. fold (\<lambda>p. bumpStat p False) (ancestry rs i)) is c x =
     c x - length (filter (\<lambda>i. x \<in> set (ancestry rs i)) is)"
  by (induction "is" arbitrary: c) (auto simp: fold_bump_at above_distinct [OF assms])

lemma storeAccountRemoval_inv:
  assumes st: "storeAccountRemoval E cert u f = Some (Inr f')" and inv: "feedInv f"
  shows "feedInv f' \<and> map reedCore (fe_reeds f') = map reedCore (fe_reeds f) \<and> fe_threads f' = fe_threads f"
proof -
  obtain x d where s: "storeAccountRemovalTx E cert u (fe_db f) = Inr (x, d)"
    using st by (auto simp: storeAccountRemoval_def split: sum.splits)
  show ?thesis
  proof (cases "hasAccountRemovalQ (fe_db f) u")
    case True
    have "d = fe_db f" by (rule storeAccountRemovalTx_again [OF True s])
    then have "sameReeds f f'" using st True by (auto simp: storeAccountRemoval_def s intro: sameReeds_updDb)
    then show ?thesis using sameReeds_inv inv by (auto simp: sameReeds_def)
  next
    case False
    let ?rs = "fe_replies f" and ?g = "updDb (\<lambda>_. d) f"
    have forest: "replyForest ?rs" using inv by (simp add: feedInv_def)
    have d: "d = bumpActiveUsers (- 1) (updUser u clearedRow (removalCore (removalRowOf cert u) u (fe_db f)))"
      using storeAccountRemovalTx_new [OF False] s by blast
    have gone: "hasAccountRemovalQ d v \<longleftrightarrow> hasAccountRemovalQ (fe_db f) v \<or> v = u" for v
      by (auto simp: d bumpActiveUsers_def updUser_def hasAccountRemovalQ_def removalRowOf_def)
    have rows: "userRow d v = (if v = u then map_option clearedRow (userRow (fe_db f) v) else userRow (fe_db f) v)" for v
    proof -
      have "userRow d v = userRow (updUser u clearedRow (removalCore (removalRowOf cert u) u (fe_db f))) v"
        by (simp add: d bumpActiveUsers_def userRow_def)
      also have "\<dots> = (if u = v then map_option clearedRow (userRow (fe_db f) v) else userRow (fe_db f) v)"
        by (subst userRow_updUser) (simp_all add: userRow_def)
      finally show ?thesis by auto
    qed
    have profiles: "hasAccountRemovalQ d v \<Longrightarrow> getUserProfile d v \<noteq> Inr True" for v
      using inv unfolding gone
      by (auto simp: feedInv_def getUserProfile_def rows split: option.split)
    have f': "f' = ?g\<lparr>fe_reply_counts :=
        fold (\<lambda>i. fold (\<lambda>p. bumpStat p False) (ancestry ?rs i)) (liveRepliesOf f u) (fe_reply_counts f)\<rparr>"
      using st False bumpAll_forest [of ?g "liveRepliesOf f u"] forest by (simp add: storeAccountRemoval_def s)
    have rem: "reedRemoved f' = reedRemoved f" "fe_reeds f' = fe_reeds f" by (simp_all add: fun_eq_iff f' reedRemoved_def)
    define mine :: "replyRow \<Rightarrow> bool" where "mine = (\<lambda>y. \<exists>r \<in> set (fe_reeds f). rd_id r = ry_reed y \<and> rd_user r = u)"
    have c: "counted f' y \<longleftrightarrow> counted f y \<and> \<not> mine y" for y
    proof -
      have "authorRemoved f' (ry_reed y) \<longleftrightarrow> authorRemoved f (ry_reed y) \<or> mine y"
        by (auto simp: authorRemoved_def f' gone mine_def)
      then show ?thesis by (auto simp: counted_def rem)
    qed
    have u: "uniqueBy rd_id (fe_reeds f)" using inv by (simp add: feedInv_def)
    have "mine y \<Longrightarrow> \<not> authorRemoved f (ry_reed y)" for y
    proof
      assume m: "mine y" and a: "authorRemoved f (ry_reed y)"
      obtain r q where "r \<in> set (fe_reeds f)" "rd_id r = ry_reed y" "rd_user r = u"
        "q \<in> set (fe_reeds f)" "rd_id q = ry_reed y" "hasAccountRemovalQ (fe_db f) (rd_user q)"
        using m a by (auto simp: mine_def authorRemoved_def)
      then show False using uniqueBy_inj [OF u, of r q] False by auto
    qed
    then have mine_counted: "\<not> reedRemoved f (ry_reed y) \<and> mine y \<longleftrightarrow> counted f y \<and> mine y" for y
      by (auto simp: counted_def)
    have "length (filter (\<lambda>i. x \<in> set (ancestry ?rs i)) (liveRepliesOf f u)) =
        length (filter mine (repliesBelow f x))" for x
    proof -
      have "filter (\<lambda>i. x \<in> set (ancestry ?rs i)) (liveRepliesOf f u) =
          map ry_reed (filter (\<lambda>y. (\<not> reedRemoved f (ry_reed y) \<and> mine y) \<and> x \<in> set (ancestry ?rs (ry_reed y))) ?rs)"
        by (simp add: liveRepliesOf_def mine_def filter_map comp_def conj_commute conj_left_commute)
      then show ?thesis unfolding mine_counted by (simp add: repliesBelow_def conj_commute conj_left_commute)
    qed
    moreover have "repliesBelow f' x = filter (\<lambda>y. \<not> mine y) (repliesBelow f x)" for x
      unfolding repliesBelow_def c by (simp add: f' conj_commute conj_left_commute)
    ultimately have "length (repliesBelow f' x) =
        length (repliesBelow f x) - length (filter (\<lambda>i. x \<in> set (ancestry ?rs i)) (liveRepliesOf f u))" for x
      using sum_length_filter_compl [of mine "repliesBelow f x"] by simp
    then have "countsFit f'" using inv by (simp add: countsFit_def feedInv_def f' fold_uncount [OF forest])
    moreover have "wholeThreads f' = wholeThreads f" by (rule wholeThreads_cong) (rule rem)+
    moreover have "partsAlone f' = partsAlone f" by (simp add: partsAlone_def f')
    ultimately have "feedInv f'" using inv profiles by (simp add: feedInv_def f')
    then show ?thesis by (simp add: f')
  qed
qed

end
