(* ===== verification/ReedRules.thy ===== *)
theory ReedRules
  imports SmallServer ReedInvariant
begin

text \<open>
  The rules of reeds, over every call that touches them: an author's reeds don't fork, a thread reads
  back as it was signed and is removed whole, and the counts of replies are exact.
\<close>

subsection \<open>What a call adds\<close>

text \<open>Rows of reeds and threads are only added, and a new part is of a new thread.\<close>

definition extends :: "feed \<Rightarrow> feed \<Rightarrow> bool" where
  "extends f f' \<longleftrightarrow> (\<exists>rs ts. map reedCore (fe_reeds f') = map reedCore (fe_reeds f) @ rs \<and>
     fe_threads f' = fe_threads f @ ts \<and> (\<forall>r \<in> set rs. \<forall>h. partOf r h \<longrightarrow> h \<notin> rd_id ` set (fe_reeds f)))"

lemma extends_refl [simp]: "extends f f"
  unfolding extends_def by (intro exI [of _ "[]"]) simp

lemma same_extends: "map reedCore (fe_reeds f') = map reedCore (fe_reeds f) \<Longrightarrow> fe_threads f' = fe_threads f \<Longrightarrow> extends f f'"
  unfolding extends_def by (intro exI [of _ "[]"]) simp

lemma core_ids: "rd_id ` set (map reedCore rs) = rd_id ` set rs"
  by (force simp: image_iff)

lemma extends_ids: "extends f f' \<Longrightarrow> rd_id ` set (fe_reeds f) \<subseteq> rd_id ` set (fe_reeds f')"
  unfolding extends_def core_ids [of "fe_reeds f", symmetric] core_ids [of "fe_reeds f'", symmetric]
  by (auto simp del: set_map)

lemma extends_trans:
  assumes "extends f g" and "extends g h"
  shows "extends f h"
proof -
  obtain rs ts where 1: "map reedCore (fe_reeds g) = map reedCore (fe_reeds f) @ rs" "fe_threads g = fe_threads f @ ts"
    "\<forall>r \<in> set rs. \<forall>h. partOf r h \<longrightarrow> h \<notin> rd_id ` set (fe_reeds f)" using assms(1) by (auto simp: extends_def)
  obtain qs us where 2: "map reedCore (fe_reeds h) = map reedCore (fe_reeds g) @ qs" "fe_threads h = fe_threads g @ us"
    "\<forall>r \<in> set qs. \<forall>h. partOf r h \<longrightarrow> h \<notin> rd_id ` set (fe_reeds g)" using assms(2) by (auto simp: extends_def)
  have "\<forall>r \<in> set (rs @ qs). \<forall>h. partOf r h \<longrightarrow> h \<notin> rd_id ` set (fe_reeds f)"
    using 1(3) 2(3) extends_ids [OF assms(1)] by (metis Un_iff set_append subsetD)
  then show ?thesis unfolding extends_def using 1 2 by (intro exI [of _ "rs @ qs"] exI [of _ "ts @ us"]) simp
qed

lemma partOf_core [simp]: "partOf (reedCore r) h = partOf r h"
  by (simp add: partOf_def)

lemma onlyReeds_extends:
  assumes "onlyReeds f [r] f'" and "rd_thread r = None"
  shows "extends f f'"
  unfolding extends_def using assms by (intro exI [of _ "[reedCore r]"] exI [of _ "[]"]) (simp add: onlyReeds_def partOf_def)

subsection \<open>Signing a reed\<close>

lemma resolveMentionClaims_same:
  assumes "resolveMentionClaims E claimed u f = Some (ms, f')"
  shows "sameReeds f f'"
proof -
  have keep: "db_removals (snd (fold keepForeignMention ms sd)) = db_removals (snd sd) \<and>
      db_users (snd (fold keepForeignMention ms sd)) = db_users (snd sd)" for ms sd
    by (induction ms arbitrary: sd) (auto simp: keepForeignMention_def split: option.splits prod.splits)
  obtain st fo where f': "f' = updDb (\<lambda>_. snd (fold keepForeignMention fo (st, fe_db f))) f"
    using assms by (auto simp: resolveMentionClaims_def split: option.splits prod.splits) (metis snd_conv)
  show ?thesis unfolding f' using keep [of fo "(st, fe_db f)"] by (intro sameReeds_updDb) simp_all
qed

lemma respondSignReedReplay_not: "respondSignReedReplay r s \<noteq> Done 201 ss"
  by (simp add: respondSignReedReplay_def)

lemma reedParams_sel [simp]:
  "cr_reed (reedParams m u k ss tags ms) = sg_reed m" "cr_user (reedParams m u k ss tags ms) = u"
  "cr_previous (reedParams m u k ss tags ms) = trimSpace (sg_previous m)" "cr_thread_head (reedParams m u k ss tags ms) = ''''"
  "cr_at (reedParams m u k ss tags ms) = ss_at ss" "cr_mentions (reedParams m u k ss tags ms) = ms"
  by (simp_all add: reedParams_def)

text \<open>Either nothing of reeds changes, or one reed is stored and the answer is 201.\<close>

definition reedStored ::
    "env \<Rightarrow> (string \<Rightarrow> bool) \<Rightarrow> gotime \<Rightarrow> string \<Rightarrow> signReedMsg \<Rightarrow> feed \<Rightarrow> serverSig \<Rightarrow> feed \<Rightarrow> string list \<Rightarrow> bool" where
  "reedStored E uuid7 now u m f ss f' mentions \<longleftrightarrow> (\<exists>k tags echo reply root r x. sg_reed m \<noteq> '''' \<and>
     ss_at ss = truncateSecond now \<and> getUserProfile (fe_db f) u = Inr True \<and>
     storeReed E uuid7 (reedParams m u k ss tags mentions) echo reply root f = Some (Inr ((r, x), f')))"

lemma finishReed_Inl:
  "finishReed E m ss echo reply f (Inl e) = Some (a, f', fx) \<Longrightarrow> f' = f \<and> (\<forall>ss. a \<noteq> Done 201 ss)"
  by (auto simp: finishReed_def respondSignReedReplay_def split: bool.splits option.splits if_splits)

lemma signReedAs_cases:
  assumes "signReedAs E uuid7 lower pipes now u m echo reply ms f = Some (a, f', fx)"
    and "sg_reed m \<noteq> ''''" "getUserProfile (fe_db f) u = Inr True"
  shows "(f' = f \<and> (\<forall>ss. a \<noteq> Done 201 ss)) \<or> (\<exists>ss. a = Done 201 ss \<and> reedStored E uuid7 now u m f ss f' ms)"
proof -
  let ?quiet = "f' = f \<and> (\<forall>ss. a \<noteq> Done 201 ss)"
  show ?thesis
  proof (cases "\<exists>k. activeUserKey (fe_db f) u = Inr k")
    case False
    then have ?quiet using assms(1) by (auto simp: signReedAs_def split: sum.splits)
    then show ?thesis ..
  next
    case True
    then obtain k where k: "activeUserKey (fe_db f) u = Inr k" ..
    show ?thesis
    proof (cases "getReedAttestation f (sg_reed m)")
      case (Some e)
      then have ?quiet using assms(1) by (auto simp: signReedAs_def k respondSignReedReplay_not)
      then show ?thesis ..
    next
      case None
      let ?at = "truncateSecond now"
      let ?sign = "countersign E (buildReedPayload (e_jcs E) (e_server_id E) (sg_reed m) (e_fingerprint E) (key_id k) (sg_sig m) ?at) ?at"
      show ?thesis
      proof (cases ?sign)
        case (Inl e)
        then have ?quiet using assms(1) by (auto simp: signReedAs_def k None Let_def)
        then show ?thesis ..
      next
        case (Inr ss)
        have at: "ss_at ss = ?at" using Inr unfolding countersign_Inr by auto
        obtain r where store: "storeReed E uuid7 (reedParams m u (key_id k) ss (pipes (normalizeClaimedTags lower (sg_tags m))) ms) echo reply
               (case reply of None \<Rightarrow> '''' | Some parent \<Rightarrow> resolveConversationRoot f parent) f = Some r"
          and fin: "finishReed E m ss echo reply f r = Some (a, f', fx)"
          using assms(1) Inr by (auto simp: signReedAs_def k None Let_def bind_eq_Some_conv)
        show ?thesis
        proof (cases r)
          case (Inl e)
          then have ?quiet using fin finishReed_Inl by blast
          then show ?thesis ..
        next
          case (Inr y)
          then obtain q x where y: "y = ((q, x), f')" and "a = Done 201 ss"
            using fin by (cases y) (auto simp: finishReed_def)
          then show ?thesis using store at assms(2,3) unfolding reedStored_def Inr by blast
        qed
      qed
    qed
  qed
qed

lemma signReed_cases:
  assumes "signReed E uuid7 lower pipes now u msg f = Some (a, f', fx)"
  shows "(sameReeds f f' \<and> (\<forall>ss. a \<noteq> Done 201 ss)) \<or>
    (\<exists>m g ms ss stored. msg = Some m \<and> sameReeds f g \<and> a = Done 201 ss \<and>
       ms = dropMentionsBlockingAuthor (fe_social g) stored u \<and> reedStored E uuid7 now u m g ss f' ms)"
proof (cases msg)
  case None
  then show ?thesis using assms by (auto simp: signReed_def)
next
  case (Some m)
  show ?thesis
  proof (cases "\<exists>echo reply ms g. sg_reed m \<noteq> '''' \<and> resolveMentionClaims E (sg_mentions m) u f = Some (ms, g) \<and>
      getUserProfile (fe_db g) u = Inr True \<and>
      signReedAs E uuid7 lower pipes now u m echo reply (dropMentionsBlockingAuthor (fe_social g) ms u) g = Some (a, f', fx)")
    case True
    then obtain echo reply ms g where n: "sg_reed m \<noteq> ''''" and r: "resolveMentionClaims E (sg_mentions m) u f = Some (ms, g)"
      and p: "getUserProfile (fe_db g) u = Inr True"
      and s: "signReedAs E uuid7 lower pipes now u m echo reply (dropMentionsBlockingAuthor (fe_social g) ms u) g = Some (a, f', fx)"
      by blast
    show ?thesis using signReedAs_cases [OF s n p] resolveMentionClaims_same [OF r] Some by blast
  next
    case False
    then have "sameReeds f f' \<and> (\<forall>ss. a \<noteq> Done 201 ss)"
      using assms unfolding signReed_def Some
      by (auto simp: writeBlocked_def dest: resolveMentionClaims_same
          split: if_splits option.splits list.splits sum.splits prod.splits)
    then show ?thesis ..
  qed
qed

lemma reedStored_row:
  assumes "reedStored E uuid7 now u m f ss f' ms"
  shows "\<exists>r. rd_id r = sg_reed m \<and> rd_user r = u \<and> rd_at r = truncateSecond now \<and> rd_thread r = None \<and> sg_reed m \<noteq> '''' \<and>
    checkReedTipTx f u (trimSpace (sg_previous m)) = None \<and> sg_reed m \<notin> rd_id ` set (fe_reeds f) \<and> onlyReeds f [r] f'"
proof -
  obtain k tags echo reply root r x where n: "sg_reed m \<noteq> ''''" "ss_at ss = truncateSecond now"
    and s: "storeReed E uuid7 (reedParams m u k ss tags ms) echo reply root f = Some (Inr ((r, x), f'))"
    using assms by (auto simp: reedStored_def)
  show ?thesis
    using storeReed_Inr [OF s] n by (intro exI [of _ r]) (auto simp: reedRowOf_def Let_def)
qed

lemma sameReeds_extends: "sameReeds f f' \<Longrightarrow> extends f f'"
  by (rule same_extends) (simp_all add: sameReeds_def)

lemma signReed_extends:
  assumes "signReed E uuid7 lower pipes now u msg f = Some (a, f', fx)"
  shows "extends f f'"
  using signReed_cases [OF assms]
proof (elim disjE exE conjE)
  fix m g ms ss stored assume s: "sameReeds f g" and st: "reedStored E uuid7 now u m g ss f' ms"
  then show ?thesis using reedStored_row [OF st] onlyReeds_extends extends_trans [OF sameReeds_extends] by blast
qed (simp add: sameReeds_extends)

text \<open>A reed that is here already, or that nothing here answers or is.\<close>

definition knownOrNew :: "feed \<Rightarrow> string \<Rightarrow> bool" where
  "knownOrNew f i \<longleftrightarrow> i \<in> rd_id ` set (fe_reeds f) \<or> unknownReply f i"

lemma sameReeds_known:
  assumes "sameReeds f g"
  shows "rd_id ` set (fe_reeds g) = rd_id ` set (fe_reeds f)" "unknownReply g = unknownReply f"
proof -
  have "map rd_id (fe_reeds g) = map rd_id (fe_reeds f)"
    by (rule reedCore_view) (use assms in \<open>simp_all add: sameReeds_def\<close>)
  then show "rd_id ` set (fe_reeds g) = rd_id ` set (fe_reeds f)" by (metis set_map)
  show "unknownReply g = unknownReply f" using assms by (simp add: fun_eq_iff unknownReply_def sameReeds_def)
qed

lemma reedStored_inv:
  assumes st: "reedStored E uuid7 now u m f ss f' ms" and inv: "feedInv f" and known: "knownOrNew f (sg_reed m)"
  shows "feedInv f'"
proof -
  obtain k tags echo reply root r x where n: "sg_reed m \<noteq> ''''" and p: "getUserProfile (fe_db f) u = Inr True"
    and s: "storeReed E uuid7 (reedParams m u k ss tags ms) echo reply root f = Some (Inr ((r, x), f'))"
    using st by (auto simp: reedStored_def)
  have "unknownReply f (sg_reed m)" using known storeReed_Inr [OF s] by (simp add: knownOrNew_def)
  then show ?thesis using storeReed_inv [OF s inv] n feedInv_profiles [OF inv p] by simp
qed

lemma signReed_inv:
  assumes "signReed E uuid7 lower pipes now u msg f = Some (a, f', fx)" and inv: "feedInv f"
    and known: "\<And>m. msg = Some m \<Longrightarrow> knownOrNew f (sg_reed m)"
  shows "feedInv f'"
  using signReed_cases [OF assms(1)]
proof (elim disjE exE conjE)
  fix m g ms ss stored assume m: "msg = Some m" and s: "sameReeds f g" and st: "reedStored E uuid7 now u m g ss f' ms"
  have "knownOrNew g (sg_reed m)" using known [OF m] sameReeds_known [OF s] by (simp add: knownOrNew_def)
  then show ?thesis by (rule reedStored_inv [OF st sameReeds_inv [OF s inv]])
qed (use sameReeds_inv inv in blast)

subsection \<open>Signing a thread\<close>

lemma threadMentions_same: "threadMentions E u ps f = (x, f') \<Longrightarrow> sameReeds f f'"
proof (induction E u ps f arbitrary: x f' rule: threadMentions.induct)
  case (2 E u p ps f)
  show ?case
  proof (cases "resolveMentionClaims E (tp_mentions p) u f")
    case None
    then show ?thesis using "2.prems" by simp
  next
    case (Some y)
    obtain ms g where y: "y = (ms, g)" by (cases y)
    obtain z h where h: "threadMentions E u ps g = (z, h)" by (cases "threadMentions E u ps g")
    have "sameReeds g h" by (rule "2.IH" [OF Some y [symmetric] h])
    moreover have "f' = h" using "2.prems" Some y h by simp
    ultimately show ?thesis using sameReeds_trans resolveMentionClaims_same Some y by blast
  qed
qed simp

lemma signParts_length: "signParts E at k ps = Inr sss \<Longrightarrow> length sss = length ps"
  by (induction ps arbitrary: sss) (auto simp: bindR_Inr)

lemma threadMentions_length: "threadMentions E u ps f = (Some mss, f') \<Longrightarrow> length mss = length ps"
  by (induction E u ps f arbitrary: mss rule: threadMentions.induct) (auto split: option.splits prod.splits)

definition threadStored ::
    "env \<Rightarrow> (string \<Rightarrow> bool) \<Rightarrow> gotime \<Rightarrow> string \<Rightarrow> createThreadMsg \<Rightarrow> feed \<Rightarrow> threadRecord \<Rightarrow> feed \<Rightarrow> bool" where
  "threadStored E uuid7 now u m f rec f' \<longleftrightarrow> (\<exists>p. createThread E uuid7 p f = Inr (rec, f') \<and> ct_user p = u \<and>
     map cr_reed (ct_parts p) = map tp_reed (cm_reeds m) \<and> ct_previous p = trimSpace (cm_previous m) \<and> ct_sig p = cm_sig m)"

lemma createThreadAs_cases:
  assumes "createThreadAs E uuid7 lower pipes now u m mentions k f = (a, f')" and "length mentions = length (cm_reeds m)"
  shows "(f' = f \<and> (\<forall>s. a \<noteq> Done 201 s)) \<or> (\<exists>s rec. a = Done 201 s \<and> threadStored E uuid7 now u m f rec f')"
proof -
  let ?quiet = "f' = f \<and> (\<forall>s. a \<noteq> Done 201 s)" and ?at = "truncateSecond now"
  let ?t = "hd (map tp_reed (cm_reeds m))"
  let ?sign = "bindR (signParts E ?at (key_id k) (cm_reeds m)) (\<lambda>partSigs. bindR (countersign E
      (buildThreadServerPayload (e_jcs E) (e_server_id E) ?t (key_id k) (e_fingerprint E) (cm_sig m) ?at) ?at) (\<lambda>ss. Inr (partSigs, ss)))"
  have replay: "respondThreadReplay g e m \<noteq> Done 201 s" for g e s by (simp add: respondThreadReplay_def Let_def)
  show ?thesis
  proof (cases "\<exists>partSigs ss rec g. ?sign = Inr (partSigs, ss) \<and>
      createThread E uuid7 (threadParams lower pipes u (key_id k) ?at m mentions partSigs ss) f = Inr (rec, g) \<and> a = Done 201 (ss, partSigs) \<and> f' = g")
    case True
    then obtain partSigs ss rec where s: "?sign = Inr (partSigs, ss)" and a: "a = Done 201 (ss, partSigs)"
      and c: "createThread E uuid7 (threadParams lower pipes u (key_id k) ?at m mentions partSigs ss) f = Inr (rec, f')" by blast
    have "length partSigs = length (cm_reeds m)" using s by (auto simp: bindR_Inr dest: signParts_length)
    then have "map cr_reed (map (signedPart lower pipes u (key_id k)) (zip (zip (cm_reeds m) mentions) partSigs)) = map tp_reed (cm_reeds m)"
      using assms(2) by (intro nth_equalityI) (auto simp: signedPart_def partParams_def split: prod.split)
    then have "threadStored E uuid7 now u m f rec f'"
      unfolding threadStored_def
      by (intro exI [of _ "threadParams lower pipes u (key_id k) ?at m mentions partSigs ss"] conjI c) (simp_all add: threadParams_def)
    then show ?thesis using a by blast
  next
    case False
    then have ?quiet
      using assms(1) replay unfolding createThreadAs_def finishThread_def Let_def
      by (auto split: if_splits option.splits sum.splits prod.splits)
    then show ?thesis ..
  qed
qed

lemma createThreadRoute_cases:
  assumes "createThreadRoute E uuid7 lower pipes now u msg f = (a, f')"
  shows "(sameReeds f f' \<and> (\<forall>s. a \<noteq> Done 201 s)) \<or>
    (\<exists>m g s rec. msg = Some m \<and> sameReeds f g \<and> a = Done 201 s \<and> threadStored E uuid7 now u m g rec f')"
proof (cases "\<exists>m mentions g k. msg = Some m \<and> threadMentions E u (cm_reeds m) f = (Some mentions, g) \<and>
    createThreadAs E uuid7 lower pipes now u m mentions k g = (a, f')")
  case True
  then obtain m mentions g k where m: "msg = Some m" and t: "threadMentions E u (cm_reeds m) f = (Some mentions, g)"
    and c: "createThreadAs E uuid7 lower pipes now u m mentions k g = (a, f')" by blast
  show ?thesis using createThreadAs_cases [OF c threadMentions_length [OF t]] threadMentions_same [OF t] m by blast
next
  case False
  then have "sameReeds f f' \<and> (\<forall>s. a \<noteq> Done 201 s)"
    using assms unfolding createThreadRoute_def
    by (auto dest: threadMentions_same split: if_splits option.splits sum.splits prod.splits)
  then show ?thesis ..
qed

lemma threadStored_extends:
  assumes "threadStored E uuid7 now u m f rec f'" and u: "uniqueBy rd_id (fe_reeds f)"
  shows "extends f f'"
proof -
  obtain p where c: "createThread E uuid7 p f = Inr (rec, f')" using assms(1) by (auto simp: threadStored_def)
  let ?rs = "threadRows p [0..<length (ct_parts p)]"
  obtain g where v: "validateThreadParts (ct_user p) (ct_parts p) = None" and g: "grows f ?rs g" "uniqueBy rd_id (fe_reeds f @ ?rs)"
    and f': "fe_reeds f' = fe_reeds g" "fe_threads f' = fe_threads g @ [\<lparr>th_id = tr_thread rec, th_sig = tr_sig rec, th_server_sig = tr_server_sig rec\<rparr>]"
    using createThread_Inr [OF c u] by auto
  have "h \<notin> rd_id ` set (fe_reeds f)" if "r \<in> set (map reedCore ?rs)" "partOf r h" for r h
  proof -
    have "h = rd_id (reedRowOf (threadPart p 0))"
      using that by (auto simp: threadRows_def partOf_def threadRow_sel split: if_splits)
    moreover have "reedRowOf (threadPart p 0) \<in> set ?rs"
      using validateThreadParts_None [OF v] by (auto simp: threadRows_def intro!: imageI)
    ultimately show ?thesis using g(2) by auto
  qed
  then show ?thesis
    unfolding extends_def using g(1) f' by (intro exI [of _ "map reedCore ?rs"] exI) (simp add: grows_def)
qed

lemma threadStored_inv:
  assumes "threadStored E uuid7 now u m f rec f'" and inv: "feedInv f"
    and known: "\<And>p. p \<in> set (cm_reeds m) \<Longrightarrow> knownOrNew f (tp_reed p)"
  shows "feedInv f'"
proof -
  obtain p where c: "createThread E uuid7 p f = Inr (rec, f')" and ids: "map cr_reed (ct_parts p) = map tp_reed (cm_reeds m)"
    using assms(1) by (auto simp: threadStored_def)
  let ?rs = "threadRows p [0..<length (ct_parts p)]"
  have u: "uniqueBy rd_id (fe_reeds f)" using inv by (simp add: feedInv_def)
  have all: "uniqueBy rd_id (fe_reeds f @ ?rs)" using createThread_Inr [OF c u] by blast
  show ?thesis
  proof (rule createThread_inv [OF c inv])
    fix q assume q: "q \<in> set (ct_parts p)"
    then obtain i where i: "i < length (ct_parts p)" "ct_parts p ! i = q" by (auto simp: in_set_conv_nth)
    then have "rd_id (reedRowOf (threadPart p i)) \<in> rd_id ` set ?rs" by (auto simp: threadRows_def)
    then have new: "cr_reed q \<notin> rd_id ` set (fe_reeds f)" using all i by (auto simp: threadRow_sel)
    have "cr_reed q \<in> set (map tp_reed (cm_reeds m))" using q unfolding ids [symmetric] by simp
    then have "knownOrNew f (cr_reed q)" using known by auto
    then show "cr_reed q \<notin> ry_reed ` set (fe_replies f)" using new by (simp add: knownOrNew_def unknownReply_def)
  qed
qed

lemma createThreadRoute_keeps:
  assumes "createThreadRoute E uuid7 lower pipes now u msg f = (a, f')" and inv: "feedInv f"
    and known: "\<And>m p. msg = Some m \<Longrightarrow> p \<in> set (cm_reeds m) \<Longrightarrow> knownOrNew f (tp_reed p)"
  shows "feedInv f' \<and> extends f f'"
  using createThreadRoute_cases [OF assms(1)]
proof (elim disjE exE conjE)
  fix m g s rec assume m: "msg = Some m" and s: "sameReeds f g" and t: "threadStored E uuid7 now u m g rec f'"
  have invg: "feedInv g" by (rule sameReeds_inv [OF s inv])
  have "feedInv f'"
    by (rule threadStored_inv [OF t invg]) (use known [OF m] sameReeds_known [OF s] in \<open>simp add: knownOrNew_def\<close>)
  moreover have "uniqueBy rd_id (fe_reeds g)" using invg by (simp add: feedInv_def)
  ultimately show ?thesis using threadStored_extends [OF t] extends_trans [OF sameReeds_extends [OF s]] by blast
qed (use sameReeds_inv inv sameReeds_extends in blast)

subsection \<open>Removing\<close>

lemma afterReedRemoval_same:
  assumes "afterReedRemoval E cert f = Some (f', fx)"
  shows "sameReeds f f'"
proof -
  have "sameReeds f (deleteMentionsForReed i f)" for i by (simp add: deleteMentionsForReed_def sameReeds_def)
  then have "sameReeds f (snd (deleteEchoIndexForReed i (deleteMentionsForReed i f)))" for i
    unfolding deleteEchoIndexForReed_def snd_conv using deleteEchoRows_same sameReeds_trans by blast
  then show ?thesis using assms by (auto simp: afterReedRemoval_def Let_def split: prod.splits) (metis snd_conv)
qed

lemma insertReedRemoval_rows:
  "insertReedRemoval cert f = Some (Inr f') \<Longrightarrow> map reedCore (fe_reeds f') = map reedCore (fe_reeds f) \<and> fe_threads f' = fe_threads f"
  by (auto simp: insertReedRemoval_def addRemovalRow_def bumpAncestors_def enqueuePublishedRemovalTx_def
      split: sum.splits option.splits if_splits)

lemma deleteReedAs_keeps:
  assumes d: "deleteReedAs E now u i sig f = Some (a, f', fx)" and inv: "feedInv f" and alone: "threadHeadOf f i = ''''"
  shows "feedInv f' \<and> extends f f'"
proof (cases "\<exists>r cert g. getReed f i = Some r \<and> rd_user r = u \<and> rc_reed cert = i \<and> getUserProfile (fe_db f) u = Inr True \<and>
    insertReedRemoval cert f = Some (Inr g) \<and> sameReeds g f'")
  case True
  then obtain r cert g where r: "getReed f i = Some r" "rd_user r = u" and c: "rc_reed cert = i"
    and p: "getUserProfile (fe_db f) u = Inr True" and ins: "insertReedRemoval cert f = Some (Inr g)" and s: "sameReeds g f'" by blast
  have row: "r \<in> set (fe_reeds f)" "rd_id r = i" using r(1) by (auto simp: getReed_def dest: rowBy_Some)
  have "rd_thread r = None"
  proof (rule ccontr)
    assume "rd_thread r \<noteq> None"
    then obtain n where "rd_thread r = Some ('''', n)"
      using alone r(1) by (auto simp: threadHeadOf_def getReed_def)
    then have "partOf r ''''" by (simp add: partOf_def)
    then show False using inv row(1) by (auto simp: feedInv_def)
  qed
  then have "feedInv g"
    using insertReedRemoval_inv [OF ins inv row(1)] row(2) c feedInv_profiles [OF inv p] r(2) by simp
  moreover have "extends f g" using insertReedRemoval_rows [OF ins] by (intro same_extends) auto
  ultimately show ?thesis using sameReeds_inv [OF s] extends_trans [OF _ sameReeds_extends [OF s]] by blast
next
  case False
  then have "f' = f"
    using d unfolding deleteReedAs_def storeReedRemoval_def Let_def
    by (auto split: option.splits if_splits sum.splits prod.splits)
       (metis afterReedRemoval_same reedRemovalCert.select_convs(1))
  then show ?thesis using inv by simp
qed

lemma deleteReed_keeps:
  assumes "deleteReed E now u pathUser bare msg f = Some (a, f', fx)" and inv: "feedInv f"
  shows "feedInv f' \<and> extends f f'"
proof (cases "\<exists>sig i. threadHeadOf f i = '''' \<and> deleteReedAs E now u i sig f = Some (a, f', fx)")
  case True
  then show ?thesis using deleteReedAs_keeps [OF _ inv] by blast
next
  case False
  then have "f' = f"
    using assms(1) unfolding deleteReed_def Let_def by (auto split: if_splits option.splits sum.splits)
  then show ?thesis using inv by simp
qed

lemma threadParts_set: "set (threadParts f h) = {r \<in> set (fe_reeds f). partOf r h}"
  by (auto simp: threadParts_def partOf_def)

lemma getThreadRecord_parts:
  "getThreadRecord f i = Some rec \<Longrightarrow> tr_thread rec = i \<and> tr_reeds rec = map rd_id (threadParts f i)"
  unfolding getThreadRecord_def Let_def by (cases "rowBy th_id i (fe_threads f)") auto

lemma getThreadRecord_Some:
  assumes "getThreadRecord f i = Some rec"
  shows "tr_thread rec = i" "set (tr_reeds rec) = rd_id ` {r \<in> set (fe_reeds f). partOf r i}"
  using getThreadRecord_parts [OF assms] threadParts_set [of f i] by simp_all

lemma bumpAncestors_rows:
  "bumpAncestors b i f = Some f' \<Longrightarrow> fe_reeds f' = fe_reeds f \<and> fe_threads f' = fe_threads f"
  by (auto simp: bumpAncestors_def)

lemma removeParts_rows:
  "removeParts h is f = Some f' \<Longrightarrow> fe_reeds f' = fe_reeds f \<and> fe_threads f' = fe_threads f"
proof (induction h "is" f arbitrary: f' rule: removeParts.induct)
  case (2 h i "is" f)
  show ?case
  proof (cases "reedRemoved f i")
    case True
    then show ?thesis using 2 by simp
  next
    case False
    then obtain g where g: "addRemovalRow \<lparr>rx_reed = i, rx_cert = None, rx_thread = Some h\<rparr> f = Some g"
      and r: "removeParts h is g = Some f'" using "2.prems" by (auto simp: bind_eq_Some_conv)
    have "fe_reeds f' = fe_reeds g \<and> fe_threads f' = fe_threads g" by (rule "2.IH" (2) [OF False g r])
    then show ?thesis using g bumpAncestors_rows unfolding addRemovalRow_def by fastforce
  qed
qed simp

lemma deleteThreadAs_keeps:
  assumes d: "deleteThreadAs E now u sig rec f = Some (a, f', fx)" and inv: "feedInv f"
    and rec: "set (tr_reeds rec) = rd_id ` {r \<in> set (fe_reeds f). partOf r (tr_thread rec)}"
  shows "feedInv f' \<and> extends f f'"
proof (cases "\<exists>k ss g. insertThreadRemoval (threadRemovalOf E u k sig ss rec) f = Some (Inr g) \<and>
    f' = fold deleteMentionsForReed (tr_reeds rec) g")
  case True
  then obtain k ss g where ins: "insertThreadRemoval (threadRemovalOf E u k sig ss rec) f = Some (Inr g)"
    and f': "f' = fold deleteMentionsForReed (tr_reeds rec) g" by blast
  have s: "sameReeds g f'" unfolding f' by (rule fold_same) (simp add: deleteMentionsForReed_def sameReeds_def)
  have "feedInv g" by (rule insertThreadRemoval_inv [OF ins inv]) (simp add: threadRemovalOf_def threadWire_def rec)
  moreover have "extends f g"
    using ins by (intro same_extends) (auto simp: insertThreadRemoval_def Let_def enqueuePublishedRemovalTx_def
        dest!: removeParts_rows split: option.splits if_splits)
  ultimately show ?thesis using sameReeds_inv [OF s] extends_trans [OF _ sameReeds_extends [OF s]] by blast
next
  case False
  then have "f' = f"
    using d unfolding deleteThreadAs_def Let_def
    by (auto split: if_splits sum.splits) (metis sum.exhaust)
  then show ?thesis using inv by simp
qed

lemma deleteThread_keeps:
  assumes "deleteThread E now u t msg f = Some (a, f', fx)" and inv: "feedInv f"
  shows "feedInv f' \<and> extends f f'"
proof (cases "\<exists>sig rec. getThreadRecord f t = Some rec \<and> deleteThreadAs E now u sig rec f = Some (a, f', fx)")
  case True
  then obtain sig rec where "getThreadRecord f t = Some rec" and d: "deleteThreadAs E now u sig rec f = Some (a, f', fx)" by blast
  then have "set (tr_reeds rec) = rd_id ` {r \<in> set (fe_reeds f). partOf r (tr_thread rec)}" using getThreadRecord_Some by blast
  then show ?thesis by (rule deleteThreadAs_keeps [OF d inv])
next
  case False
  then have "f' = f"
    using assms(1) unfolding deleteThread_def Let_def by (auto split: if_splits option.splits)
  then show ?thesis using inv by simp
qed

subsection \<open>What peers announce, publishing and accounts\<close>

lemma recordPeerMention_same: "sameReeds f (recordPeerMention E i m f)"
  by (auto simp: recordPeerMention_def insertMentionRow_def insertAdminMentionRow_def sameReeds_def split: prod.split option.split)

text \<open>At most one answer comes in with an announcement.\<close>

definition announced :: "string \<Rightarrow> feed \<Rightarrow> feed \<Rightarrow> bool" where
  "announced i f f' \<longleftrightarrow> sameReeds f f' \<or> (\<exists>y g h. sameReeds f g \<and> ry_reed y = i \<and> i \<notin> ry_reed ` set (fe_replies g) \<and>
     addReplyRow y g = Some h \<and> sameReeds h f')"

lemma announced_refl [simp]: "announced i f f"
  by (simp add: announced_def)

lemma announced_before: "sameReeds f g \<Longrightarrow> announced i g h \<Longrightarrow> announced i f h"
  unfolding announced_def using sameReeds_trans by blast

lemma announced_after: "announced i f g \<Longrightarrow> sameReeds g h \<Longrightarrow> announced i f h"
  unfolding announced_def using sameReeds_trans by blast

lemma insertForeignReply_announced:
  assumes "insertForeignReply parent i root at f = Some (Inr f')"
  shows "announced i f f'"
proof -
  obtain f1 f2 where 1: "insertReedIdentity i f = Inr f1" and 2: "insertReedIdentity parent f1 = Inr f2"
    and r: "f' = f2 \<or> (i \<notin> ry_reed ` set (fe_replies f2) \<and>
      addReplyRow \<lparr>ry_root = root, ry_reed = i, ry_parent = parent, ry_at = truncateSecond at\<rparr> f2 = Some f')"
    using assms by (auto simp: insertForeignReply_def split: sum.splits if_splits)
  have s: "sameReeds f f2" using insertReedIdentity_same [OF 1] insertReedIdentity_same [OF 2] sameReeds_trans by blast
  show ?thesis
  proof (cases "f' = f2")
    case True
    then show ?thesis using s by (simp add: announced_def)
  next
    case False
    then show ?thesis using r s unfolding announced_def
      by (intro disjI2 exI [of _ "\<lparr>ry_root = root, ry_reed = i, ry_parent = parent, ry_at = truncateSecond at\<rparr>"] exI [of _ f2] exI [of _ f']) simp
  qed
qed

lemma foreignReplyStep_announced:
  "foreignReplyStep E m f = Some (e, f', fx) \<Longrightarrow> announced (nr_reed m) f f'"
  by (auto simp: foreignReplyStep_def foreignReplyNotify_def insertForeignReply_announced split: option.splits if_splits sum.splits)

lemma foreignEchoStep_same: "foreignEchoStep E m f = Some (e, f', fx) \<Longrightarrow> sameReeds f f'"
proof -
  assume a: "foreignEchoStep E m f = Some (e, f', fx)"
  have "sameReeds f g" if i: "insertForeignEcho i j u v b at f = Inr ((), g)" for i j u v b at g
  proof -
    obtain f1 f2 e where 1: "insertReedIdentity i f = Inr f1" and 2: "insertReedIdentity j f1 = Inr f2"
      and g: "g = snd (insertEchoRow e (updDb (upsertIdentity u) f2))"
      using i by (auto simp: insertForeignEcho_def bindR_Inr split: if_splits)
    have "sameReeds f f2" using insertReedIdentity_same [OF 1] insertReedIdentity_same [OF 2] sameReeds_trans by blast
    then have "sameReeds f (updDb (upsertIdentity u) f2)" by (simp add: sameReeds_def)
    then show ?thesis unfolding g using insertEchoRow_same [OF surjective_pairing] sameReeds_trans by blast
  qed
  then show ?thesis using a by (auto simp: foreignEchoStep_def split: option.splits if_splits sum.splits)
qed

lemma andThen_Some:
  assumes "andThen s k = Some (e, f', fx)"
  obtains e1 g fx1 fx2 where "s = Some (e1, g, fx1)" "(e1 \<noteq> None \<and> f' = g) \<or> (e1 = None \<and> k g = Some (e, f', fx2))"
  using assms by (auto simp: andThen_def split: option.splits)

lemma receiveForeignNewReed_announced:
  assumes "receiveForeignNewReed E m f = Some (e, f', fx)"
  shows "announced (nr_reed m) f f'"
proof -
  let ?f0 = "updDb (upsertIdentity (nr_author m)) f" and ?i = "nr_reed m"
  let ?ms = "\<lambda>f1. fold (recordPeerMention E ?i) (nr_mentions m) f1"
  let ?last = "\<lambda>f3. Some (None, f3, [PushNewReed ?i (nr_author m) (foreignParent E m)])"
  obtain e1 f1 fx1 fx2 where 1: "stepOf ?f0 (insertReedIdentity ?i ?f0) = Some (e1, f1, fx1)"
    and r1: "(e1 \<noteq> None \<and> f' = f1) \<or> (e1 = None \<and>
      andThen (foreignReplyStep E m (?ms f1)) (\<lambda>f2. andThen (foreignEchoStep E m f2) ?last) = Some (e, f', fx2))"
    using assms unfolding receiveForeignNewReed_def Let_def by (rule andThen_Some)
  have s0: "sameReeds f ?f0" by (simp add: sameReeds_def)
  have s1: "sameReeds f f1"
  proof (cases "insertReedIdentity ?i ?f0")
    case (Inl x)
    then show ?thesis using 1 s0 by (simp add: stepOf_def)
  next
    case (Inr g)
    then show ?thesis using 1 insertReedIdentity_same [OF Inr] sameReeds_trans [OF s0] by (simp add: stepOf_def)
  qed
  have "sameReeds f1 (?ms f1)" by (rule fold_same) (rule recordPeerMention_same)
  then have s2: "sameReeds f (?ms f1)" using s1 sameReeds_trans by blast
  show ?thesis
  proof (cases "f' = f1")
    case True
    then show ?thesis using s1 by (simp add: announced_def)
  next
    case False
    then have "andThen (foreignReplyStep E m (?ms f1)) (\<lambda>f2. andThen (foreignEchoStep E m f2) ?last) = Some (e, f', fx2)"
      using r1 by simp
    then obtain e2 f2 fx3 fx4 where 2: "foreignReplyStep E m (?ms f1) = Some (e2, f2, fx3)"
      and r2: "(e2 \<noteq> None \<and> f' = f2) \<or> (e2 = None \<and> andThen (foreignEchoStep E m f2) ?last = Some (e, f', fx4))"
      by (rule andThen_Some)
    have a: "announced ?i f f2" using announced_before [OF s2] foreignReplyStep_announced [OF 2] by blast
    show ?thesis
    proof (cases "f' = f2")
      case False
      then have "andThen (foreignEchoStep E m f2) ?last = Some (e, f', fx4)" using r2 by simp
      then show ?thesis by (rule andThen_Some) (auto dest: foreignEchoStep_same intro: announced_after [OF a])
    qed (simp add: a)
  qed
qed

text \<open>
  An announced reed isn't one of this server's, and nothing here answers it before it is known as an
  answer itself: what peers keep who announce only their own reeds, and before others' answers.
\<close>

definition announceable :: "feed \<Rightarrow> string \<Rightarrow> bool" where
  "announceable f i \<longleftrightarrow> i \<notin> rd_id ` set (fe_reeds f) \<and> (i \<in> ry_reed ` set (fe_replies f) \<or> i \<notin> ry_parent ` set (fe_replies f))"

lemma announced_keeps:
  assumes a: "announced i f f'" and inv: "feedInv f" and ok: "announceable f i"
  shows "feedInv f' \<and> extends f f'"
  using a unfolding announced_def
proof (elim disjE exE conjE)
  fix y g h assume s: "sameReeds f g" and y: "ry_reed y = i" "i \<notin> ry_reed ` set (fe_replies g)"
    and add: "addReplyRow y g = Some h" and s': "sameReeds h f'"
  have invg: "feedInv g" by (rule sameReeds_inv [OF s inv])
  have ids: "i \<notin> rd_id ` set (fe_reeds g)" using ok sameReeds_known(1) [OF s] by (simp add: announceable_def)
  have parent: "i \<notin> ry_parent ` set (fe_replies g)" using ok s y(2) by (auto simp: announceable_def sameReeds_def)
  have "feedInv h \<and> fe_reeds h = fe_reeds g \<and> fe_threads h = fe_threads g \<and> fe_removals h = fe_removals g"
  proof (rule addReplyRow_inv [OF add invg])
    show "\<not> reedRemoved g (ry_reed y)" using invg ids y by (auto simp: feedInv_def reedRemoved_def)
    show "\<not> authorRemoved g (ry_reed y)" using ids y by (force simp: authorRemoved_def)
  qed (use y parent ids in auto)
  then show ?thesis using sameReeds_inv [OF s'] sameReeds_extends [OF s] sameReeds_extends [OF s'] same_extends [of h g] extends_trans
    by metis
qed (use sameReeds_inv inv sameReeds_extends in blast)

lemma newReedFromPeer_keeps:
  assumes n: "newReedFromPeer E peer msg f = Some (a, f', fx)" and inv: "feedInv f"
    and ok: "\<And>m. msg = Some m \<Longrightarrow> announceable f (trimSpace (nr_reed m))"
  shows "feedInv f' \<and> extends f f'"
proof (cases "f' = f")
  case False
  then obtain m e fx1 where "msg = Some m"
    and r: "receiveForeignNewReed E (m\<lparr>nr_reed := trimSpace (nr_reed m), nr_author := trimSpace (nr_author m)\<rparr>) f = Some (e, f', fx1)"
    using n by (auto simp: newReedFromPeer_def Let_def split: option.splits if_splits)
  then show ?thesis using announced_keeps [OF receiveForeignNewReed_announced [OF r] inv] ok by simp
qed (simp add: inv)

lemma claimPendingFanout_same: "sameReeds f (snd (claimPendingFanout now i f))"
proof -
  have "map reedCore (updWhere p (\<lambda>r. r\<lparr>rd_published := Some now\<rparr>) rs) = map reedCore rs" for p rs
    by (auto simp: updWhere_def reedCore_def)
  moreover have "db_removals (enqueuePeerEventTx kind i d) = db_removals d" "db_users (enqueuePeerEventTx kind i d) = db_users d" for kind d
    using arg_cong [OF enqueuePeerEventTx_frame, of db_removals] arg_cong [OF enqueuePeerEventTx_frame, of db_users] by simp_all
  ultimately show ?thesis by (simp add: claimPendingFanout_def Let_def sameReeds_def)
qed

lemma storeAccountRemoval_keeps:
  assumes "storeAccountRemoval E cert u f = Some (Inr f')" and "feedInv f"
  shows "feedInv f' \<and> extends f f'"
  using storeAccountRemoval_inv [OF assms] same_extends by blast

subsection \<open>Runs\<close>

text \<open>
  The calls that change reeds.  A signed reed is new here, or one that is here already; what a peer
  announces is its own.  What peers remove is not among them: it may count a removed reply twice.
\<close>

inductive feedCall ::
    "env \<Rightarrow> (string \<Rightarrow> bool) \<Rightarrow> (string \<Rightarrow> string) \<Rightarrow> (string list \<Rightarrow> string list) \<Rightarrow> feed \<Rightarrow> feed \<Rightarrow> bool"
  for E uuid7 lower pipes where
  callSign: "signReed E uuid7 lower pipes now u msg f = Some (a, f', fx) \<Longrightarrow>
    \<forall>m. msg = Some m \<longrightarrow> knownOrNew f (sg_reed m) \<Longrightarrow> feedCall E uuid7 lower pipes f f'"
| callThread: "createThreadRoute E uuid7 lower pipes now u msg f = (b, f') \<Longrightarrow>
    \<forall>m. msg = Some m \<longrightarrow> (\<forall>p \<in> set (cm_reeds m). knownOrNew f (tp_reed p)) \<Longrightarrow> feedCall E uuid7 lower pipes f f'"
| callRemove: "deleteReed E now u pathUser bare sig f = Some (c, f', fx) \<Longrightarrow> feedCall E uuid7 lower pipes f f'"
| callRemoveThread: "deleteThread E now u t sig f = Some (d, f', fx) \<Longrightarrow> feedCall E uuid7 lower pipes f f'"
| callPublish: "claimPendingFanout now i f = (out, f') \<Longrightarrow> feedCall E uuid7 lower pipes f f'"
| callAnnounced: "newReedFromPeer E peer news f = Some (e, f', fx) \<Longrightarrow>
    \<forall>m. news = Some m \<longrightarrow> announceable f (trimSpace (nr_reed m)) \<Longrightarrow> feedCall E uuid7 lower pipes f f'"
| callAccountRemoved: "storeAccountRemoval E cert u f = Some (Inr f') \<Longrightarrow> feedCall E uuid7 lower pipes f f'"

lemma feedCall_keeps:
  assumes "feedCall E uuid7 lower pipes f f'" and inv: "feedInv f"
  shows "feedInv f' \<and> extends f f'"
  using assms(1)
proof cases
  case (callPublish now i out)
  then have "sameReeds f f'" using claimPendingFanout_same [of f now i] by simp
  then show ?thesis using sameReeds_inv inv sameReeds_extends by blast
next
  case (callSign now u msg a fx)
  then show ?thesis using signReed_inv [OF callSign(1) inv] signReed_extends [OF callSign(1)] by simp
next
  case (callThread now u msg b)
  show ?thesis by (rule createThreadRoute_keeps [OF callThread(1) inv]) (use callThread(2) in blast)
next
  case (callAnnounced peer news e fx)
  show ?thesis by (rule newReedFromPeer_keeps [OF callAnnounced(1) inv]) (use callAnnounced(2) in blast)
next
  case (callRemove now u pathUser bare sig c fx)
  show ?thesis by (rule deleteReed_keeps [OF callRemove inv])
next
  case (callRemoveThread now u t sig d fx)
  show ?thesis by (rule deleteThread_keeps [OF callRemoveThread inv])
next
  case (callAccountRemoved cert u)
  show ?thesis by (rule storeAccountRemoval_keeps [OF callAccountRemoved inv])
qed

interpretation reedRoutes: transition_system "feedCall E uuid7 lower pipes" feedInv for E uuid7 lower pipes
  by unfold_locales (blast dest: feedCall_keeps)

lemma run_extends:
  assumes "(feedCall E uuid7 lower pipes)\<^sup>*\<^sup>* f f'" and "feedInv f"
  shows "extends f f'"
  by (rule reedRoutes.relation_reachable [OF assms extends_refl]) (blast dest: feedCall_keeps intro: extends_trans)

subsection \<open>An author's reeds don't fork\<close>

lemma reedTip_newest:
  assumes u: "uniqueBy rd_id (fe_reeds f)" and r: "r \<in> set (liveReeds f u)"
  obtains q where "q \<in> set (liveReeds f u)" "reedTip f u = Some (rd_id q)" "reedKey r \<le> reedKey q"
proof -
  have "uniqueBy rd_id (liveReeds f u)" using u by (simp add: liveReeds_def uniqueBy_filter)
  then have "uniqueBy reedKey (liveReeds f u)"
    by (auto simp: distinct_map reedKey_def inj_on_def)
  then have dec: "sorted_wrt (\<lambda>a b. reedKey b < reedKey a) (keysetOrder reedKey (liveReeds f u))"
    by (rule keysetOrder_decreasing)
  have mem: "r \<in> set (keysetOrder reedKey (liveReeds f u))" using r by simp
  then obtain q qs where q: "keysetOrder reedKey (liveReeds f u) = q # qs" by (cases "keysetOrder reedKey (liveReeds f u)") auto
  then have "q \<in> set (liveReeds f u)" by (metis list.set_intros(1) set_keysetOrder)
  moreover have "reedTip f u = Some (rd_id q)" by (simp add: reedTip_def listUserReeds_def q)
  moreover have "reedKey r \<le> reedKey q" using mem dec unfolding q by auto
  ultimately show ?thesis using that by blast
qed

text \<open>Sorting reads the rows' core only.\<close>

lemma sort_key_map: "sort_key k (map h xs) = map h (sort_key (\<lambda>x. k (h x)) xs)"
proof -
  have "insort_key k (h x) (map h ys) = map h (insort_key (\<lambda>x. k (h x)) x ys)" for x ys by (induction ys) auto
  then show ?thesis by (induction xs) auto
qed

lemma sort_core:
  assumes "\<And>r. k (reedCore r) = k r" and "\<And>r. p (reedCore r) = p r"
  shows "map reedCore (sort_key k (filter p rs)) = sort_key k (filter p (map reedCore rs))"
  by (simp add: sort_key_map filter_map comp_def assms)

lemma reedTip_same:
  assumes "sameReeds f g"
  shows "reedTip g u = reedTip f u"
proof -
  let ?p = "\<lambda>r. rd_user r = u \<and> \<not> reedRemoved f (rd_id r)"
  have live: "liveReeds f u = filter ?p (fe_reeds f)" "liveReeds g u = filter ?p (fe_reeds g)"
    using sameReeds_views(1) [OF assms] by (simp_all add: liveReeds_def)
  have "map reedCore (sort_key reedKey (filter ?p (fe_reeds g))) = map reedCore (sort_key reedKey (filter ?p (fe_reeds f)))"
    using assms by (subst (1 2) sort_core) (simp_all add: reedKey_def sameReeds_def)
  then have "map reedCore (keysetOrder reedKey (liveReeds g u)) = map reedCore (keysetOrder reedKey (liveReeds f u))"
    unfolding live keysetOrder_def by (simp add: rev_map [symmetric])
  then have "listUserReeds g u = listUserReeds f u"
    unfolding listUserReeds_def by (rule reedCore_view) simp
  then show ?thesis by (simp add: reedTip_def)
qed

lemma extends_row:
  assumes "extends f f'" and "r \<in> set (fe_reeds f)"
  obtains q where "q \<in> set (fe_reeds f')" "reedCore q = reedCore r"
proof -
  obtain rs where "map reedCore (fe_reeds f') = map reedCore (fe_reeds f) @ rs" using assms(1) by (auto simp: extends_def)
  then have "reedCore r \<in> set (map reedCore (fe_reeds f'))" using assms(2) by simp
  then show ?thesis using that by auto
qed

text \<open>The tip a reed names; the empty string when there is none.\<close>

definition tipOf :: "feed \<Rightarrow> string \<Rightarrow> string" where
  "tipOf f u = (case reedTip f u of None \<Rightarrow> '''' | Some t \<Rightarrow> t)"

lemma checkReedTipTx_None: "checkReedTipTx f u previous = None \<Longrightarrow> previous = tipOf f u"
  by (auto simp: checkReedTipTx_def tipOf_def split: if_splits option.splits)

lemma signed_reed_stored:
  assumes s: "signReed E uuid7 lower pipes now u (Some m) f = Some (Done 201 ss, f', fx)"
  shows "trimSpace (sg_previous m) = tipOf f u \<and>
    (\<exists>r \<in> set (fe_reeds f'). rd_id r = sg_reed m \<and> rd_user r = u \<and> rd_at r = truncateSecond now)"
  using signReed_cases [OF s]
proof (elim disjE exE conjE)
  fix m' g ms ss' stored
  assume "Some m = Some m'" and g: "sameReeds f g" and st: "reedStored E uuid7 now u m' g ss' f' ms"
  then have m': "m' = m" by simp
  obtain r where r: "rd_id r = sg_reed m" "rd_user r = u" "rd_at r = truncateSecond now"
    and tip: "checkReedTipTx g u (trimSpace (sg_previous m)) = None" and only: "onlyReeds g [r] f'"
    using reedStored_row [OF st] unfolding m' by blast
  have "reedCore r \<in> set (map reedCore (fe_reeds f'))" using only by (simp add: onlyReeds_def)
  then obtain q where q: "q \<in> set (fe_reeds f')" "reedCore q = reedCore r" by auto
  then have "rd_id q = sg_reed m \<and> rd_user q = u \<and> rd_at q = truncateSecond now" using r by (metis reedCore_sel(1-3))
  then show ?thesis
    using q(1) checkReedTipTx_None [OF tip] reedTip_same [OF g, of u] by (auto simp: tipOf_def)
qed simp

subsection \<open>Threads and counts, over runs\<close>

definition emptyFeed :: "feed \<Rightarrow> bool" where
  "emptyFeed f \<longleftrightarrow> fe_reeds f = [] \<and> fe_threads f = [] \<and> fe_replies f = [] \<and> fe_removals f = [] \<and>
     fe_reply_counts f = (\<lambda>_. 0) \<and> db_removals (fe_db f) = []"

lemma emptyFeed_inv: "emptyFeed f \<Longrightarrow> feedInv f"
  by (simp add: emptyFeed_def feedInv_def wholeThreads_def countsFit_def partsAlone_def repliesBelow_def hasAccountRemovalQ_def)

lemma thread_rows_core:
  assumes e: "extends f f'" and inv: "feedInv f" and h: "h \<in> rd_id ` set (fe_reeds f)"
  shows "map reedCore (threadParts f' h) = map reedCore (threadParts f h)"
proof -
  let ?p = "\<lambda>r. map_option fst (rd_thread r) = Some h"
  obtain rs where rs: "map reedCore (fe_reeds f') = map reedCore (fe_reeds f) @ rs"
    and new: "\<forall>r \<in> set rs. \<forall>h. partOf r h \<longrightarrow> h \<notin> rd_id ` set (fe_reeds f)" using e by (auto simp: extends_def)
  have "filter ?p rs = []" using new h by (auto simp: filter_empty_conv partOf_def)
  then have "filter ?p (map reedCore (fe_reeds f')) = filter ?p (map reedCore (fe_reeds f))" by (simp add: rs)
  then show ?thesis unfolding threadParts_def by (subst (1 2) sort_core) simp_all
qed

lemma getThreadRecord_extends:
  assumes e: "extends f f'" and inv: "feedInv f" and inv': "feedInv f'" and h: "h \<in> rd_id ` set (fe_reeds f)"
    and rec: "getThreadRecord f h = Some rec"
  shows "getThreadRecord f' h = Some rec"
proof -
  have core: "map reedCore (threadParts f' h) = map reedCore (threadParts f h)" by (rule thread_rows_core [OF e inv h])
  have ids: "map rd_id (threadParts f' h) = map rd_id (threadParts f h)" by (rule reedCore_view [OF core]) simp
  have users: "map rd_user (threadParts f' h) = map rd_user (threadParts f h)" by (rule reedCore_view [OF core]) simp
  have nil: "threadParts f' h = [] \<longleftrightarrow> threadParts f h = []" using ids by (metis map_is_Nil_conv)
  have lst: "threadParts f h \<noteq> [] \<Longrightarrow> rd_user (last (threadParts f' h)) = rd_user (last (threadParts f h))"
    using users nil by (metis last_map)
  obtain t where t: "rowBy th_id h (fe_threads f) = Some t" using rec by (auto simp: getThreadRecord_def split: option.splits)
  obtain ts where "fe_threads f' = fe_threads f @ ts" using e by (auto simp: extends_def)
  then have "rowBy th_id h (fe_threads f') = Some t" using t by (simp add: rowBy_append)
  then show ?thesis using rec t ids nil lst by (auto simp: getThreadRecord_def Let_def)
qed

lemma threadStored_reads:
  assumes st: "threadStored E uuid7 now u m f rec f'" and inv: "feedInv f"
  shows "getThreadRecord f' (tr_thread rec) = Some rec \<and> tr_thread rec \<in> rd_id ` set (fe_reeds f') \<and>
    tr_thread rec = hd (map tp_reed (cm_reeds m)) \<and> tr_user rec = u \<and> tr_reeds rec = map tp_reed (cm_reeds m) \<and>
    us_armor (tr_sig rec) = cm_sig m"
proof -
  obtain p where c: "createThread E uuid7 p f = Inr (rec, f')" and p: "ct_user p = u"
    "map cr_reed (ct_parts p) = map tp_reed (cm_reeds m)" "ct_sig p = cm_sig m"
    using st by (auto simp: threadStored_def)
  let ?is = "[0..<length (ct_parts p)]" and ?h = "cr_reed (ct_parts p ! 0)"
  let ?rs = "threadRows p ?is" and ?k = "\<lambda>r. snd (the (rd_thread r))" and ?q = "\<lambda>r. map_option fst (rd_thread r) = Some ?h"
  have u: "uniqueBy rd_id (fe_reeds f)" using inv by (simp add: feedInv_def)
  obtain g where rec: "rec = threadRecordOf p" and v: "validateThreadParts (ct_user p) (ct_parts p) = None"
    and g: "grows f ?rs g" "uniqueBy rd_id (fe_reeds f @ ?rs)"
    and new: "tr_thread rec \<notin> th_id ` set (fe_threads f)"
    and f': "fe_reeds f' = fe_reeds g" "fe_threads f' = fe_threads g @ [\<lparr>th_id = tr_thread rec, th_sig = tr_sig rec, th_server_sig = tr_server_sig rec\<rparr>]"
    using createThread_Inr [OF c u] by (auto simp: grows_def)
  have parts: "2 \<le> length (ct_parts p)" "\<And>i. i < length (ct_parts p) \<Longrightarrow> cr_user (ct_parts p ! i) = u"
    "\<And>i. i < length (ct_parts p) \<Longrightarrow> cr_reed (ct_parts p ! i) \<noteq> ''''"
    using validateThreadParts_None [OF v] p(1) authorOf_nonempty by auto
  have nz: "?h \<noteq> ''''" using parts(1,3) by (metis less_le_trans zero_less_numeral)
  have "rd_id (reedRowOf (threadPart p 0)) = ?h" "reedRowOf (threadPart p 0) \<in> set ?rs"
    using parts(1) by (auto simp: threadRow_sel threadRows_def intro!: imageI)
  then have h: "?h \<in> rd_id ` set ?rs" by (metis image_eqI)
  then have "?h \<notin> rd_id ` set (fe_reeds f)" using g(2) by auto
  then have "filter ?q (fe_reeds f) = []" using inv by (auto simp: filter_empty_conv feedInv_def partOf_def)
  then have old: "filter ?q (map reedCore (fe_reeds f)) = []" by (simp add: filter_map comp_def)
  have q: "filter ?q (map reedCore ?rs) = map reedCore ?rs"
    using nz by (intro filter_True) (auto simp: threadRows_def threadRow_sel)
  have k: "map ?k (map reedCore ?rs) = ?is" using nz by (simp add: threadRows_def threadRow_sel comp_def)
  have "map reedCore (threadParts f' ?h) = sort_key ?k (filter ?q (map reedCore (fe_reeds g)))"
    unfolding threadParts_def f'(1) by (rule sort_core) simp_all
  also have "\<dots> = sort_key ?k (map reedCore ?rs)" using g(1) old q by (simp add: grows_def)
  also have "\<dots> = map reedCore ?rs" by (rule sort_key_id_if_sorted) (unfold k, simp)
  finally have core: "map reedCore (threadParts f' ?h) = map reedCore ?rs" .
  have ids: "map rd_id (threadParts f' ?h) = map cr_reed (ct_parts p)"
    using reedCore_view [OF core, of rd_id] by (simp add: threadRows_def threadRow_sel comp_def) (metis map_nth map_map comp_apply map_cong)
  have "map rd_user (threadParts f' ?h) = map (\<lambda>_. u) ?is"
    using reedCore_view [OF core, of rd_user] parts(2) by (simp add: threadRows_def threadRow_sel comp_def)
  moreover have ne: "threadParts f' ?h \<noteq> []" using ids parts(1) by (metis list.size(3) length_map not_numeral_le_zero)
  ultimately have usr: "rd_user (last (threadParts f' ?h)) = u"
    by (metis (no_types, lifting) last_in_set last_map map_is_Nil_conv in_set_conv_nth length_map nth_map)
  have t: "tr_thread rec = ?h" "tr_user rec = u" "tr_reeds rec = map cr_reed (ct_parts p)" "us_armor (tr_sig rec) = cm_sig m"
    using p by (simp_all add: rec threadRecordOf_def)
  have "rowBy th_id ?h (fe_threads f') = Some \<lparr>th_id = ?h, th_sig = tr_sig rec, th_server_sig = tr_server_sig rec\<rparr>"
  proof -
    have "rowBy th_id ?h (fe_threads g) = None" using new g(1) t(1) by (simp add: rowBy_None grows_def)
    then show ?thesis using t(1) by (simp add: f'(2) rowBy_append)
  qed
  then have "getThreadRecord f' ?h = Some rec"
    unfolding getThreadRecord_def Let_def using ne usr ids t by simp
  moreover have "?h \<in> rd_id ` set (fe_reeds f')"
    using grows_ids [OF g(1)] h unfolding f'(1) by (metis UnCI image_Un set_append set_map)
  moreover have "?h = hd (map tp_reed (cm_reeds m))"
    using p(2) parts(1) by (metis hd_conv_nth length_map list.size(3) not_numeral_le_zero nth_map zero_less_numeral less_le_trans)
  ultimately show ?thesis using t p(2) by simp
qed

subsection \<open>A signed reed returns\<close>

lemma addReplyRow_returns:
  assumes "replyForest (fe_replies f @ [y])"
  shows "\<exists>f'. addReplyRow y f = Some f'"
  using bumpAncestors_forest [of "f\<lparr>fe_replies := fe_replies f @ [y]\<rparr>"] assms by (simp add: addReplyRow_def Let_def)

lemma insertReplyTx_returns:
  assumes f: "replyForest (fe_replies f)" and ry: "formatReedRef parent \<noteq> reply" "reply \<notin> ry_parent ` set (fe_replies f)"
  shows "\<exists>r. insertReplyTx E root parent reply at f = Some r"
proof (cases "mintForeign E parent f")
  case (Inr f1)
  let ?o = "case parseKeyFingerprint reply of
         Some (_, server, _) \<Rightarrow> if server \<noteq> e_server_id E then insertReedIdentity reply f1 else Inr f1
       | None \<Rightarrow> Inr f1"
  show ?thesis
  proof (cases ?o)
    case Inl
    then show ?thesis by (auto simp: insertReplyTx_def Inr)
  next
    case o: (Inr f2)
    then have "sameReeds f1 f2" by (auto dest: insertReedIdentity_same split: option.splits if_splits)
    then have "sameReeds f f2" by (rule sameReeds_trans [OF mintForeign_same [OF Inr]])
    then have same: "fe_replies f2 = fe_replies f" by (simp add: sameReeds_def)
    let ?y = "\<lparr>ry_root = root, ry_reed = reply, ry_parent = formatReedRef parent, ry_at = at\<rparr>"
    show ?thesis
    proof (cases "reply \<in> ry_reed ` set (fe_replies f2)")
      case True
      then show ?thesis by (simp add: insertReplyTx_def Inr o)
    next
      case False
      then have "replyForest (fe_replies f2 @ [?y])" using f ry by (simp add: replyForest_snoc same)
      then obtain f' where "addReplyRow ?y f2 = Some f'" using addReplyRow_returns by blast
      then show ?thesis by (auto simp: insertReplyTx_def Inr o)
    qed
  qed
qed (auto simp: insertReplyTx_def)

lemma storeReed_returns:
  assumes f: "replyForest (fe_replies f)" and ry: "\<And>t. reply = Some t \<Longrightarrow> formatReedRef t \<noteq> cr_reed p"
    and new: "cr_reed p \<notin> rd_id ` set (fe_reeds f) \<Longrightarrow> cr_reed p \<notin> ry_parent ` set (fe_replies f)"
  shows "\<exists>r. storeReed E uuid7 p echo reply root f = Some r"
proof (cases "echo = None \<and> reply \<noteq> None")
  case True
  then obtain t where t: "reply = Some t" "echo = None" by auto
  show ?thesis
  proof (cases "insertReedCoreTx E uuid7 (atSecond p) f")
    case Inl
    then show ?thesis by (simp add: storeReed_def t createReedWithReply_def)
  next
    case (Inr rf)
    then obtain r f1 where c: "insertReedCoreTx E uuid7 (atSecond p) f = Inr (r, f1)" by (cases rf) auto
    then have g: "grows f [r] f1" "cr_reed p \<notin> rd_id ` set (fe_reeds f)" using insertReedCoreTx_Inr [OF c] by auto
    have "replyForest (fe_replies f1)" "cr_reed p \<notin> ry_parent ` set (fe_replies f1)"
      using g f new by (simp_all add: grows_def)
    then obtain x where "insertReplyTx E root t (cr_reed p) (truncateSecond (cr_at p)) f1 = Some x"
      using insertReplyTx_returns ry [OF t(1)] by blast
    then show ?thesis by (simp add: storeReed_def t createReedWithReply_def c)
  qed
qed (auto simp: storeReed_def split: option.splits)

lemma signReedAs_returns:
  assumes inv: "feedInv f" and known: "knownOrNew f (sg_reed m)" and ry: "\<And>t. reply = Some t \<Longrightarrow> formatReedRef t \<noteq> sg_reed m"
    and m: "sg_reed m \<noteq> ''''" "getUserProfile (fe_db f) u = Inr True"
  shows "\<exists>r. signReedAs E uuid7 lower pipes now u m echo reply ms f = Some r"
proof -
  have forest: "replyForest (fe_replies f)" using inv by (simp add: feedInv_def)
  have store: "\<exists>r. storeReed E uuid7 (reedParams m u k ss tags ms) echo reply root f = Some r" for k ss tags root
    by (rule storeReed_returns [OF forest]) (use ry known in \<open>auto simp: knownOrNew_def unknownReply_def\<close>)
  have fin: "\<exists>r. finishReed E m ss' echo reply f x = Some r"
    if s: "storeReed E uuid7 (reedParams m u k ss tags ms) echo reply root f = Some x" for k ss tags root x ss'
  proof (cases x)
    case (Inr y)
    obtain q b f' where y: "y = ((q, b), f')" by (cases y) auto
    have s': "storeReed E uuid7 (reedParams m u k ss tags ms) echo reply root f = Some (Inr ((q, b), f'))" using s Inr y by simp
    have "unknownReply f (sg_reed m)" using known storeReed_Inr [OF s'] by (simp add: knownOrNew_def)
    then have "feedInv f'" using storeReed_inv [OF s' inv] m feedInv_profiles [OF inv m(2)] by simp
    then have "\<exists>ts. replyCountNotifyTargets (fe_replies f') i = Some ts" for i
      using replyCountNotifyTargets_returns by (simp add: feedInv_def)
    then have "\<exists>fx. afterReed E b echo reply f' = Some fx" by (auto simp: afterReed_def split: option.split)
    then show ?thesis by (auto simp: finishReed_def Inr y)
  qed (simp add: finishReed_def)
  have both: "\<exists>r. Option.bind (storeReed E uuid7 (reedParams m u k ss tags ms) echo reply root f) (finishReed E m ss' echo reply f) = Some r"
    for k ss tags root ss'
  proof -
    obtain x where x: "storeReed E uuid7 (reedParams m u k ss tags ms) echo reply root f = Some x" using store by blast
    show ?thesis using fin [OF x] by (simp add: x)
  qed
  show ?thesis
  proof (cases "\<exists>k. activeUserKey (fe_db f) u = Inr k \<and> getReedAttestation f (sg_reed m) = None")
    case True
    then obtain k where k: "activeUserKey (fe_db f) u = Inr k" "getReedAttestation f (sg_reed m) = None" by blast
    let ?at = "truncateSecond now"
    show ?thesis
      by (cases "countersign E (buildReedPayload (e_jcs E) (e_server_id E) (sg_reed m) (e_fingerprint E) (key_id k) (sg_sig m) ?at) ?at")
        (simp_all add: signReedAs_def k Let_def both del: split_paired_Ex)
  next
    case False
    then show ?thesis by (cases "activeUserKey (fe_db f) u") (auto simp: signReedAs_def)
  qed
qed

end
