(* ===== verification/ReedProperties.thy ===== *)
theory ReedProperties
  imports ReedRules "HOL-Library.Multiset"
begin

text \<open>
  The properties of reeds, threads and the counts of replies, over runs of the calls of
  \<open>ReedRules.feedCall\<close>, each with a witness on a small feed.
\<close>

subsection \<open>A small feed\<close>

text \<open>\<open>u\<close> signs reeds on the small server, at time 0, where nobody has signed anything.\<close>

definition aFeed :: feed where
  "aFeed = \<lparr>fe_social = \<lparr>so_db = aDb, so_vouches = [], so_active = [], so_refs = [], so_windows = [], so_online = [],
      so_unclaimed = [], so_pins = [], so_follows = [], so_following = [], so_followers = [], so_follow_queue = [],
      so_blocks = [], so_block_queue = [], so_allocations = [], so_pending = []\<rparr>,
     fe_reeds = [], fe_threads = [], fe_echoes = [], fe_replies = [], fe_mentions = [], fe_admin_mentions = [],
     fe_removals = [], fe_thread_removals = [], fe_fanout = [], fe_reply_counts = (\<lambda>_. 0), fe_echo_counts = (\<lambda>_. 0)\<rparr>"

definition reedMsg :: "string \<Rightarrow> string \<Rightarrow> string \<Rightarrow> signReedMsg" where
  "reedMsg i previous replying = \<lparr>sg_sig = ''q'', sg_reed = i, sg_echoing = '''', sg_replying = replying, sg_previous = previous,
     sg_tags = [], sg_mentions = []\<rparr>"

definition reedSigned :: "string \<Rightarrow> string \<Rightarrow> string \<Rightarrow> feed \<Rightarrow> (serverSig answer \<times> feed \<times> reedEffect list) option" where
  "reedSigned i previous replying = signReed aServer (\<lambda>_. True) id id 0 ''u@s'' (Some (reedMsg i previous replying))"

lemma reedMsg_sel [simp]: "sg_sig (reedMsg i p r) = ''q''" "sg_reed (reedMsg i p r) = i" "sg_echoing (reedMsg i p r) = ''''"
  "sg_replying (reedMsg i p r) = r" "sg_previous (reedMsg i p r) = p" "sg_tags (reedMsg i p r) = []" "sg_mentions (reedMsg i p r) = []"
  by (simp_all add: reedMsg_def)

definition uKey :: key where
  "uKey = \<lparr>key_id = ''u@s/k'', key_user = ''u@s'', key_armor = ''k'', key_revoked = False, key_restricted = False\<rparr>"

lemma plain_facts: "trimSpace '''' = ''''" "optionalRef uuid7 '''' = Some None" "validateMentionClaims [] u = []"
  "normalizeClaimedTags lower [] = []" "truncateSecond 0 = 0" "List.map_filter g [] = []"
  by (simp_all add: optionalRef_def validateMentionClaims_def normalizeClaimedTags_def truncateSecond_def)
     (code_simp)+

lemma no_mentions: "resolveMentionClaims E [] u f = Some ([], f)"
  by (simp add: resolveMentionClaims_def plain_facts updDb_def fe_db_def)

lemma reedSigned_plain:
  assumes "getUserProfile (fe_db f) ''u@s'' = Inr True" and "activeUserKey (fe_db f) ''u@s'' = Inr uKey"
    and "getReedAttestation f i = None" "i \<noteq> ''''" and "trimSpace previous = previous"
    and c: "createReed aServer (\<lambda>_. True) (reedParams (reedMsg i previous '''') ''u@s'' ''u@s/k'' \<lparr>ss_id = ''f@s'', ss_armor = ''a'', ss_at = 0\<rparr> [] []) f = Inr (r, f')"
  shows "reedSigned i previous '''' f = Some (Done 201 \<lparr>ss_id = ''f@s'', ss_armor = ''a'', ss_at = 0\<rparr>, f', [])"
  using assms
  by (simp add: reedSigned_def signReed_def plain_facts no_mentions dropMentionsBlockingAuthor_def signReedAs_def map_filter_simps
    Let_def storeReed_def uKey_def finishReed_def afterReed_def)
text \<open>What a database needs for \<open>u\<close> to sign.\<close>

definition signerDb :: "db \<Rightarrow> bool" where
  "signerDb d \<longleftrightarrow> getUserProfile d ''u@s'' = Inr True \<and> activeUserKey d ''u@s'' = Inr uKey \<and> ''u@s'' \<in> set (db_identities d)"

lemma signerDb_aDb: "signerDb aDb"
  unfolding signerDb_def uKey_def by (intro conjI; code_simp)

lemma signerDb_identity:
  assumes "signerDb d"
  shows "signerDb (insertReedIdentityOf i v u d)"
proof -
  let ?d = "insertReedIdentityOf i v u d"
  have d: "db_users ?d = db_users d" "db_keys ?d = db_keys d" "db_key_revocations ?d = db_key_revocations d"
    "db_private_keys ?d = db_private_keys d"
    "set (db_identities d) \<subseteq> set (db_identities ?d)"
    by (auto simp: insertReedIdentityOf_def upsertIdentity_def Let_def)
  have eqs: "userRow ?d = userRow d" "getPublicKey ?d = getPublicKey d"
    by (simp_all add: fun_eq_iff userRow_def getPublicKey_def d cong: option.case_cong)
  have "getUserProfile ?d = getUserProfile d" by (intro ext) (unfold getUserProfile_def eqs, rule refl)
  moreover have "activeUserKey ?d = activeUserKey d" by (intro ext) (unfold activeUserKey_def eqs, rule refl)
  ultimately show ?thesis using assms d(5) by (auto simp: signerDb_def)
qed

definition addRow :: "createReedParams \<Rightarrow> feed \<Rightarrow> feed" where
  "addRow p f = (let f1 = updDb (insertReedIdentityOf (cr_reed p) ''s'' ''u@s'') f in
     f1\<lparr>fe_reeds := fe_reeds f @ [reedRowOf p],
        fe_social := (fe_social f1)\<lparr>so_allocations := so_allocations (fe_social f) @ [(cr_reed p, ''u@s'')]\<rparr>,
        fe_fanout := fe_fanout f @ [(cr_reed p, [])]\<rparr>)"

text \<open>A feed whose reeds are \<open>u\<close>'s, one after the other, none removed.\<close>

definition onlyU :: "string list \<Rightarrow> feed \<Rightarrow> bool" where
  "onlyU is f \<longleftrightarrow> signerDb (fe_db f) \<and> fe_removals f = [] \<and> map rd_id (fe_reeds f) = is \<and>
     so_allocations (fe_social f) = map (\<lambda>i. (i, ''u@s'')) is \<and> map fst (fe_fanout f) = is \<and>
     (\<forall>r \<in> set (fe_reeds f). rd_user r = ''u@s'' \<and> rd_at r = 0)"

lemma addRow_onlyU:
  assumes "onlyU is f" and "cr_user p = ''u@s''" "cr_at p = 0"
  shows "onlyU (is @ [cr_reed p]) (addRow p f)"
  using assms by (auto simp: onlyU_def addRow_def Let_def reedRowOf_def plain_facts fe_db_def updDb_def intro: signerDb_identity)

lemma onlyU_tip:
  assumes "onlyU is f"
  shows "checkReedTipTx f ''u@s'' (if is = [] then '''' else last (sort is)) = None"
proof -
  let ?s = "sort_key reedKey (fe_reeds f)"
  have live: "liveReeds f ''u@s'' = fe_reeds f" using assms by (auto simp: liveReeds_def onlyU_def reedRemoved_def)
  have "sorted_wrt (\<lambda>r q. reedKey r \<le> reedKey q) ?s" using sorted_sort_key [of reedKey "fe_reeds f"] by (simp add: sorted_map)
  moreover have "\<forall>r \<in> set ?s. rd_at r = 0" using assms by (simp add: onlyU_def)
  ultimately have "sorted_wrt (\<lambda>r q. rd_id r \<le> rd_id q) ?s"
    by (elim sorted_wrt_mono_rel [rotated]) (simp add: reedKey_def)
  then have "sorted (map rd_id ?s)" by (simp add: sorted_map)
  moreover have "mset (map rd_id ?s) = mset is" using assms by (auto simp: onlyU_def)
  ultimately have "map rd_id ?s = sort is" by (metis properties_for_sort)
  then have "listUserReeds f ''u@s'' = rev (sort is)"
    by (simp add: listUserReeds_def keysetOrder_def live flip: rev_map)
  then have "reedTip f ''u@s'' = (if is = [] then None else Some (last (sort is)))"
    by (cases "sort is" rule: rev_cases) (auto simp: reedTip_def dest: arg_cong [where f = set])
  then show ?thesis using assms by (simp add: checkReedTipTx_def onlyU_def signerDb_def)
qed

lemma insertReedCoreTx_plain:
  assumes o: "onlyU is f" and s: "cr_reed p \<notin> set is"
    and p: "cr_user p = ''u@s''" "cr_previous p = (if is = [] then '''' else last (sort is))" "cr_tags p = []" "cr_mentions p = []"
    and slot: "\<not> threadSlotTaken f (reedRowOf p)"
  shows "insertReedCoreTx aServer (\<lambda>_. True) p f = Inr (reedRowOf p, addRow p f)"
proof -
  have t: "checkReedTipTx f ''u@s'' (cr_previous p) = None" using onlyU_tip [OF o] p(2) by simp
  have n: "cr_reed p \<notin> rd_id ` set (fe_reeds f)" "(cr_reed p, ''u@s'') \<notin> set (so_allocations (fe_social f))"
    "cr_reed p \<notin> fst ` set (fe_fanout f)"
    using o s unfolding onlyU_def by (metis set_map, auto, metis image_eqI set_map fst_conv)
  have "threadSlotTaken (updDb g f) (reedRowOf p) = threadSlotTaken f (reedRowOf p)" for g by (simp add: threadSlotTaken_def)
  then show ?thesis using n slot
    by (simp add: insertReedCoreTx_def t p(1,3,4) Let_def addRow_def)
qed

abbreviation uSigned :: serverSig where "uSigned \<equiv> \<lparr>ss_id = ''f@s'', ss_armor = ''a'', ss_at = 0\<rparr>"

abbreviation uParams :: "string \<Rightarrow> string \<Rightarrow> string \<Rightarrow> createReedParams" where
  "uParams i previous replying \<equiv> reedParams (reedMsg i previous replying) ''u@s'' ''u@s/k'' uSigned [] []"

lemma aFeed_onlyU: "onlyU [] aFeed"
  by (simp add: onlyU_def aFeed_def fe_db_def signerDb_aDb)

lemma aFeed_empty: "emptyFeed aFeed"
  by (simp add: emptyFeed_def aFeed_def fe_db_def aDb_def)

lemma uParams_sel [simp]: "cr_tags (uParams i p r) = []" "cr_mentions (uParams i p r) = []" "cr_at (atSecond (uParams i p r)) = 0"
   "cr_tags (atSecond (uParams i p r)) = []" "cr_mentions (atSecond (uParams i p r)) = []"
   "cr_thread_head (atSecond (uParams i p r)) = ''''"
  by (simp_all add: reedParams_def atSecond_def plain_facts)

lemma reedSigned_next:
  assumes o: "onlyU is f" and s: "i \<notin> set is" "i \<noteq> ''''"
    and pr: "previous = (if is = [] then '''' else last (sort is))" "trimSpace previous = previous"
  shows "reedSigned i previous '''' f = Some (Done 201 uSigned, addRow (atSecond (uParams i previous '''')) f, [])"
    "onlyU (is @ [i]) (addRow (atSecond (uParams i previous '''')) f)"
proof -
  let ?p = "atSecond (uParams i previous '''')"
  have "\<not> threadSlotTaken f (reedRowOf ?p)" by (simp add: threadSlotTaken_def reedRowOf_def Let_def)
  then have c: "createReed aServer (\<lambda>_. True) (uParams i previous '''') f = Inr (reedRowOf ?p, addRow ?p f)"
    unfolding createReed_def using o s pr by (intro insertReedCoreTx_plain) simp_all
  have "i \<notin> rd_id ` set (fe_reeds f)" using o s unfolding onlyU_def by (metis set_map)
  then have n: "getReedAttestation f i = None" by (simp add: getReedAttestation_def rowBy_None)
  show "reedSigned i previous '''' f = Some (Done 201 uSigned, addRow ?p f, [])"
    by (rule reedSigned_plain) (use o n s pr c in \<open>simp_all add: onlyU_def signerDb_def\<close>)
  show "onlyU (is @ [i]) (addRow ?p f)" using addRow_onlyU [OF o, of ?p] by simp
qed

abbreviation feed1 :: feed where "feed1 \<equiv> addRow (atSecond (uParams ''u@s/1'' '''' '''')) aFeed"

lemma feed1_signed: "reedSigned ''u@s/1'' '''' '''' aFeed = Some (Done 201 uSigned, feed1, [])" "onlyU [''u@s/1''] feed1"
  using reedSigned_next [OF aFeed_onlyU, of "''u@s/1''" "''''"] by (simp_all add: plain_facts)

lemma trimmed: "trimSpace ''u@s/1'' = ''u@s/1''" by code_simp

lemma feed2_signed: "\<exists>f2. reedSigned ''u@s/2'' ''u@s/1'' '''' feed1 = Some (Done 201 uSigned, f2, [])"
  using reedSigned_next(1) [OF feed1_signed(2), of "''u@s/2''" "''u@s/1''"] by (simp add: trimmed)

abbreviation headRef :: reedRef where "headRef \<equiv> \<lparr>ref_author = ''u'', ref_server = ''s'', ref_reed = ''1''\<rparr>"

lemma reply_facts: "optionalRef (\<lambda>_. True) ''u@s/1'' = Some (Some headRef)" "parseKeyFingerprint ''u@s/2'' = Some (''u'', ''s'', ''2'')"
  "formatReedRef headRef = ''u@s/1''" "canonicalAuthorID headRef = ''u@s''"
  by code_simp+

lemma addRow_sel [simp]: "fe_replies (addRow p f) = fe_replies f" "fe_removals (addRow p f) = fe_removals f"
   "fe_reeds (addRow p f) = fe_reeds f @ [reedRowOf p]" "fe_threads (addRow p f) = fe_threads f" 
   "fe_db (addRow p f) = insertReedIdentityOf (cr_reed p) ''s'' ''u@s'' (fe_db f)"
  by (simp_all add: addRow_def Let_def fe_db_def updDb_def)

lemma aFeed_sel [simp]: "fe_replies aFeed = []" "fe_reeds aFeed = []" "fe_threads aFeed = []"  "fe_db aFeed = aDb" "so_blocks (fe_social aFeed) = []"
  "fe_removals aFeed = []" "fe_reply_counts aFeed = (\<lambda>_. 0)"
  by (simp_all add: aFeed_def fe_db_def)



definition threadMsg :: createThreadMsg where
  "threadMsg = \<lparr>cm_previous = '''', cm_sig = ''q'', cm_reeds =
     [\<lparr>tp_reed = ''u@s/1'', tp_sig = ''q'', tp_tags = [], tp_mentions = []\<rparr>,
      \<lparr>tp_reed = ''u@s/2'', tp_sig = ''q'', tp_tags = [], tp_mentions = []\<rparr>]\<rparr>"

lemma threadMsg_sel: "map tp_reed (cm_reeds threadMsg) = [''u@s/1'', ''u@s/2'']" "\<not> threadMsgRefused ''u@s'' threadMsg" 
  by (code_simp)+

definition threadSigned :: "feed \<Rightarrow> threadSignatures answer \<times> feed" where
  "threadSigned = createThreadRoute aServer (\<lambda>_. True) id id 0 ''u@s'' (Some threadMsg)"

abbreviation twoParts :: createThreadParams where
  "twoParts \<equiv> threadParams id id ''u@s'' ''u@s/k'' 0 threadMsg [[], []] [uSigned, uSigned] uSigned"

lemma twoParts_sel: "threadPart twoParts 0 = (uParams ''u@s/1'' '''' '''')\<lparr>cr_thread_head := ''u@s/1'', cr_thread_index := 0\<rparr>"
   "threadPart twoParts 1 = (uParams ''u@s/2'' ''u@s/1'' '''')\<lparr>cr_thread_head := ''u@s/1'', cr_thread_index := 1\<rparr>"
   "length (ct_parts twoParts) = 2" "cr_reed (ct_parts twoParts ! 0) = ''u@s/1''"
  by (simp_all add: threadPart_def threadParams_def threadMsg_def signedPart_def partParams_def reedParams_def reedMsg_def plain_facts trimmed)

lemma twoParts_valid: "validateThreadParts ''u@s'' (ct_parts twoParts) = None"
  by code_simp

abbreviation part1 :: feed where "part1 \<equiv> addRow (threadPart twoParts 0) aFeed"

abbreviation twoRows :: "reedRow list" where
  "twoRows \<equiv> [reedRowOf (threadPart twoParts 0), reedRowOf (threadPart twoParts 1)]"

lemma thread_signed: "\<exists>f. threadSigned aFeed = (Done 201 (uSigned, [uSigned, uSigned]), f) \<and> fe_reeds f = twoRows"
proof -
  have c1: "insertReedCoreTx aServer (\<lambda>_. True) (threadPart twoParts 0) aFeed = Inr (reedRowOf (threadPart twoParts 0), part1)"
    by (rule insertReedCoreTx_plain [OF aFeed_onlyU]) (simp_all add: twoParts_sel threadSlotTaken_def plain_facts)
  have "onlyU ([] @ [cr_reed (threadPart twoParts 0)]) part1"
    by (rule addRow_onlyU [OF aFeed_onlyU]) (simp_all only: twoParts_sel, simp_all add: reedParams_def)
  then have o: "onlyU [''u@s/1''] part1" by (simp only: twoParts_sel) (simp add: reedParams_def)
  have slot: "\<not> threadSlotTaken part1 (reedRowOf (threadPart twoParts 1))"
    by (simp only: twoParts_sel) (simp add: threadSlotTaken_def reedRowOf_def Let_def reedParams_def)
  have c2: "insertReedCoreTx aServer (\<lambda>_. True) (threadPart twoParts 1) part1 = 
      Inr (reedRowOf (threadPart twoParts 1), addRow (threadPart twoParts 1) part1)"
    by (rule insertReedCoreTx_plain [OF o _ _ _ _ _ slot]) (simp_all only: twoParts_sel, simp_all add: reedParams_def trimmed)
  have "[0..<2] = [0, 1::nat]" by (simp add: upt_rec)
  then have "forEach (insertThreadPart aServer (\<lambda>_. True) twoParts) [0..<2] aFeed = Inr (addRow (threadPart twoParts 1) part1)"
    by (simp add: insertThreadPart_def c1) (simp add: c2 [simplified])
  moreover have usr: "ct_user twoParts = ''u@s''" by (simp add: threadParams_def)
  ultimately have "\<exists>y. createThread aServer (\<lambda>_. True) twoParts aFeed = Inr y \<and> fe_reeds (snd y) = twoRows"
    unfolding createThread_def usr twoParts_valid twoParts_sel(3) by (simp add: Let_def)
  then obtain rec f where f: "createThread aServer (\<lambda>_. True) twoParts aFeed = Inr (rec, f)" and rows: "fe_reeds f = twoRows"
    by (metis surj_pair snd_conv)
  have k: "activeUserKey aDb ''u@s'' = Inr uKey" using signerDb_aDb by (simp add: signerDb_def)
  have mm: "threadMentions aServer ''u@s'' (cm_reeds threadMsg) aFeed = (Some [[], []], aFeed)"
    by (simp add: threadMsg_def no_mentions)
  have sp: "signParts aServer 0 ''u@s/k'' (cm_reeds threadMsg) = Inr [uSigned, uSigned]" by (simp add: threadMsg_def)
  have "createThreadAs aServer (\<lambda>_. True) id id 0 ''u@s'' threadMsg [[], []] uKey aFeed = (Done 201 (uSigned, [uSigned, uSigned]), f)"
    using f by (simp add: createThreadAs_def Let_def uKey_def getThreadRecord_def plain_facts sp finishThread_def)
  then have "threadSigned aFeed = (Done 201 (uSigned, [uSigned, uSigned]), f)"
    using threadMsg_sel(2) by (simp add: threadSigned_def createThreadRoute_def mm k)
  then show ?thesis using rows by blast
qed

lemma thread_run: "\<exists>f. (feedCall aServer (\<lambda>_. True) id id)\<^sup>*\<^sup>* aFeed f \<and> fe_reeds f = twoRows"
proof -
  obtain f where f: "threadSigned aFeed = (Done 201 (uSigned, [uSigned, uSigned]), f)" "fe_reeds f = twoRows" using thread_signed by blast
  have "feedCall aServer (\<lambda>_. True) id id aFeed f"
    by (rule callThread [OF f(1) [unfolded threadSigned_def]]) (simp add: knownOrNew_def unknownReply_def)
  then show ?thesis using f(2) by blast
qed



subsection \<open>The properties\<close>

text \<open>
  C29.  An author's reeds don't fork: of two reeds the server signs for an author, the later never names
  the reed the earlier one names as the one before it, as long as the earlier is up and was newer than
  every reed of the author's when it was signed.
\<close>

theorem no_fork:
  assumes "feedInv f" and "knownOrNew f (sg_reed m)"
    and first: "signReed E uuid7 lower pipes now u (Some m) f = Some (Done 201 ss, f1, fx)"
    and newest: "\<And>r. r \<in> set (liveReeds f u) \<Longrightarrow> reedKey r < (truncateSecond now, sg_reed m)"
    and run: "(feedCall E uuid7 lower pipes)\<^sup>*\<^sup>* f1 f2"
    and up: "\<not> reedRemoved f2 (sg_reed m)"
    and second: "signReed E uuid7 lower pipes now' u (Some m') f2 = Some (Done 201 ss', f3, fx')"
  shows "trimSpace (sg_previous m') \<noteq> trimSpace (sg_previous m)"
proof
  assume same: "trimSpace (sg_previous m') = trimSpace (sg_previous m)"
  have inv1: "feedInv f1" using signReed_inv [OF first assms(1)] assms(2) by simp
  have inv2: "feedInv f2" by (rule reedRoutes.inv_reachable [OF run inv1])
  obtain r where r: "r \<in> set (fe_reeds f1)" "rd_id r = sg_reed m" "rd_user r = u" "rd_at r = truncateSecond now"
    using signed_reed_stored [OF first] by blast
  obtain q where q: "q \<in> set (fe_reeds f2)" "reedCore q = reedCore r"
    by (rule extends_row [OF run_extends [OF run inv1] r(1)])
  have key: "reedKey q = (truncateSecond now, sg_reed m)" "rd_user q = u" "rd_id q = sg_reed m"
    using q(2) r unfolding reedKey_def by (metis reedCore_sel(1-3))+
  have "uniqueBy rd_id (fe_reeds f2)" using inv2 by (simp add: feedInv_def)
  moreover have "q \<in> set (liveReeds f2 u)" using q(1) key up by (simp add: liveReeds_def)
  ultimately obtain t where t: "t \<in> set (liveReeds f2 u)" "reedTip f2 u = Some (rd_id t)" "reedKey q \<le> reedKey t"
    by (rule reedTip_newest)
  have tip: "tipOf f u = rd_id t" using same signed_reed_stored [OF first] signed_reed_stored [OF second] t(2) by (simp add: tipOf_def)
  have "'''' \<notin> rd_id ` set (fe_reeds f2)" "t \<in> set (fe_reeds f2)" using inv2 t(1) by (simp_all add: feedInv_def liveReeds_def)
  then have named: "rd_id t \<noteq> ''''" by (metis image_eqI)
  then have "reedTip f u = Some (rd_id t)" using tip by (auto simp: tipOf_def split: option.splits)
  then obtain p where p: "p \<in> set (liveReeds f u)" "rd_id p = rd_id t"
    by (auto simp: reedTip_def listUserReeds_def split: list.splits) (metis list.set_intros(1) set_keysetOrder)
  then have "p \<in> set (fe_reeds f)" by (simp add: liveReeds_def)
  then obtain p' where p': "p' \<in> set (fe_reeds f2)" "reedCore p' = reedCore p"
    by (rule extends_row [OF extends_trans [OF signReed_extends [OF first] run_extends [OF run inv1]]])
  have inj: "inj_on rd_id (set (fe_reeds f2))" using inv2 by (simp add: feedInv_def distinct_map)
  have "rd_id p' = rd_id t" using p'(2) p(2) by (metis reedCore_sel(1))
  then have "p' = t" using inj_onD [OF inj] p'(1) t(1) by (simp add: liveReeds_def)
  then have "reedKey p = reedKey t" using p'(2) unfolding reedKey_def by (metis reedCore_sel(1,3))
  then show False using newest [OF p(1)] t(3) key(1) by simp
qed

theorem no_fork_witness:
  "\<exists>f2. reedSigned ''u@s/1'' '''' '''' aFeed = Some (Done 201 uSigned, feed1, []) \<and>
     reedSigned ''u@s/2'' ''u@s/1'' '''' feed1 = Some (Done 201 uSigned, f2, []) \<and>
     trimSpace (sg_previous (reedMsg ''u@s/2'' ''u@s/1'' '''')) \<noteq> trimSpace (sg_previous (reedMsg ''u@s/1'' '''' ''''))"
proof -
  obtain f2 where f2: "reedSigned ''u@s/2'' ''u@s/1'' '''' feed1 = Some (Done 201 uSigned, f2, [])" using feed2_signed by blast
  have "trimSpace (sg_previous (reedMsg ''u@s/2'' ''u@s/1'' '''')) \<noteq> trimSpace (sg_previous (reedMsg ''u@s/1'' '''' ''''))"
  proof (rule no_fork [OF emptyFeed_inv [OF aFeed_empty] _ feed1_signed(1) [unfolded reedSigned_def] _ rtranclp.rtrancl_refl
        _ f2 [unfolded reedSigned_def]])
    show "knownOrNew aFeed (sg_reed (reedMsg ''u@s/1'' '''' ''''))" by (simp add: knownOrNew_def unknownReply_def)
    show "\<not> reedRemoved feed1 (sg_reed (reedMsg ''u@s/1'' '''' ''''))" using feed1_signed(2) by (simp add: onlyU_def reedRemoved_def)
  qed (simp add: liveReeds_def)
  then show ?thesis using f2 feed1_signed(1) by blast
qed

text \<open>
  C30.  A thread is removed whole: whatever calls run on an empty feed, either every part of a thread is
  removed or none is.
\<close>

theorem whole_threads:
  assumes "emptyFeed f" and "(feedCall E uuid7 lower pipes)\<^sup>*\<^sup>* f f'"
    and "r \<in> set (fe_reeds f')" "q \<in> set (fe_reeds f')" and "rd_thread r = Some (h, i)" "rd_thread q = Some (h, j)"
  shows "reedRemoved f' (rd_id r) = reedRemoved f' (rd_id q)"
proof -
  have "feedInv f'" by (rule reedRoutes.inv_reachable [OF assms(2) emptyFeed_inv [OF assms(1)]])
  then have w: "wholeThreads f'" by (simp add: feedInv_def)
  have "partOf r h" "partOf q h" using assms(5,6) by (simp_all add: partOf_def)
  then show ?thesis using w assms(3,4) unfolding wholeThreads_def by blast
qed

theorem whole_threads_witness:
  "\<exists>f. (feedCall aServer (\<lambda>_. True) id id)\<^sup>*\<^sup>* aFeed f \<and> fe_reeds f = twoRows \<and>
     reedRemoved f (rd_id (reedRowOf (threadPart twoParts 0))) = reedRemoved f (rd_id (reedRowOf (threadPart twoParts 1)))"
proof -
  obtain f where f: "(feedCall aServer (\<lambda>_. True) id id)\<^sup>*\<^sup>* aFeed f" and rows: "fe_reeds f = twoRows" using thread_run by blast
  have "rd_thread (reedRowOf (threadPart twoParts 0)) = Some (''u@s/1'', 0)" "rd_thread (reedRowOf (threadPart twoParts 1)) = Some (''u@s/1'', 1)"
    by (simp_all only: twoParts_sel) (simp_all add: reedRowOf_def Let_def)
  then show ?thesis using whole_threads [OF aFeed_empty f] f rows by (metis list.set_intros(1,2))
qed



text \<open>
  C32.  A thread reads back as its author signed it: once the server has accepted it, and whatever calls
  run after, its record names the author, the parts in order and the author's signature.
\<close>

theorem thread_reads_back:
  assumes "feedInv f" and "\<And>p. p \<in> set (cm_reeds m) \<Longrightarrow> knownOrNew f (tp_reed p)"
    and c: "createThreadRoute E uuid7 lower pipes now u (Some m) f = (Done 201 s, f1)"
    and run: "(feedCall E uuid7 lower pipes)\<^sup>*\<^sup>* f1 f2"
  shows "\<exists>rec. getThreadRecord f2 (tp_reed (hd (cm_reeds m))) = Some rec \<and> tr_user rec = u \<and>
    tr_reeds rec = map tp_reed (cm_reeds m) \<and> us_armor (tr_sig rec) = cm_sig m"
  using createThreadRoute_cases [OF c]
proof (elim disjE exE conjE)
  fix m' g s' rec
  assume "Some m = Some m'" and g: "sameReeds f g" and st: "threadStored E uuid7 now u m' g rec f1"
  then have m': "m' = m" by simp
  have invg: "feedInv g" by (rule sameReeds_inv [OF g assms(1)])
  have r: "getThreadRecord f1 (tr_thread rec) = Some rec" "tr_thread rec \<in> rd_id ` set (fe_reeds f1)"
    "tr_thread rec = hd (map tp_reed (cm_reeds m))" "tr_user rec = u" "tr_reeds rec = map tp_reed (cm_reeds m)"
    "us_armor (tr_sig rec) = cm_sig m"
    using threadStored_reads [OF st invg] unfolding m' by blast+
  have inv1: "feedInv f1" using createThreadRoute_keeps [OF c assms(1)] assms(2) by blast
  have "cm_reeds m \<noteq> []" using c by (auto simp: createThreadRoute_def threadMsgRefused_def validateThreadParts_def split: if_splits)
  then have "tr_thread rec = tp_reed (hd (cm_reeds m))" using r(3) by (simp add: hd_map)
  moreover have "getThreadRecord f2 (tr_thread rec) = Some rec"
    by (rule getThreadRecord_extends [OF run_extends [OF run inv1] inv1 reedRoutes.inv_reachable [OF run inv1] r(2,1)])
  ultimately show ?thesis using r by metis
qed blast

theorem thread_reads_back_witness:
  "\<exists>f rec. threadSigned aFeed = (Done 201 (uSigned, [uSigned, uSigned]), f) \<and> getThreadRecord f ''u@s/1'' = Some rec \<and>
     tr_reeds rec = [''u@s/1'', ''u@s/2'']"
proof -
  obtain f where f: "threadSigned aFeed = (Done 201 (uSigned, [uSigned, uSigned]), f)" using thread_signed by blast
  have "tp_reed (hd (cm_reeds threadMsg)) = ''u@s/1''" by (simp add: threadMsg_def)
  then show ?thesis
    using thread_reads_back [OF emptyFeed_inv [OF aFeed_empty] _ f [unfolded threadSigned_def] rtranclp.rtrancl_refl] f
    unfolding threadMsg_sel(1) by (auto simp: knownOrNew_def unknownReply_def)
qed



subsection \<open>What the code lets through\<close>

text \<open>
  A reed that names itself as the one it answers closes a loop in \<open>reed_replies\<close>: the trigger's walk,
  and with it the call, never ends.
\<close>

lemma own_answer_never_returns: "reedSigned ''u@s/1'' '''' ''u@s/1'' aFeed = None"
proof -
  let ?p = "atSecond (uParams ''u@s/1'' '''' ''u@s/1'')"
  let ?g = "addRow ?p aFeed" and ?root = "resolveConversationRoot aFeed headRef"
  let ?y = "\<lparr>ry_root = ?root, ry_reed = ''u@s/1'', ry_parent = ''u@s/1'', ry_at = 0\<rparr>"
  have "\<not> threadSlotTaken aFeed (reedRowOf ?p)" by (simp add: threadSlotTaken_def)
  then have c: "insertReedCoreTx aServer (\<lambda>_. True) ?p aFeed = Inr (reedRowOf ?p, ?g)"
    by (intro insertReedCoreTx_plain [OF aFeed_onlyU]) (simp_all add: plain_facts)
  have k: "reedKnown ?g ''u@s/1''" by (auto simp: reedKnown_def insertReedIdentityOf_def upsertIdentity_def Let_def)
  have m: "mintForeign aServer headRef ?g = Inr ?g" by (simp add: mintForeign_def)
  have "bumpReplyAncestors (fe_replies ?g @ [?y]) True ''u@s/1'' counts = None" for counts
    by (rule bump_self_loop) (simp add: replyParent_def)
  moreover have "\<not> authorRemoved (?g\<lparr>fe_replies := fe_replies ?g @ [?y]\<rparr>) ''u@s/1''"
    by (simp add: authorRemoved_def hasAccountRemovalQ_def aDb_def insertReedIdentityOf_def upsertIdentity_def Let_def)
  ultimately have "addReplyRow ?y ?g = None" by (simp add: addReplyRow_def Let_def bumpAncestors_def)
  moreover have "parseKeyFingerprint ''u@s/1'' = Some (''u'', ''s'', ''1'')" by code_simp
  ultimately have "insertReplyTx aServer ?root headRef ''u@s/1'' 0 ?g = None"
    by (simp add: insertReplyTx_def m reply_facts k)
  then have "storeReed aServer (\<lambda>_. True) (uParams ''u@s/1'' '''' ''u@s/1'') None (Some headRef) ?root aFeed = None"
    by (simp add: storeReed_def createReedWithReply_def c plain_facts)
  moreover have "refuseBlockedRequester (fe_social aFeed) ''u@s'' ''u@s'' = None" by (simp add: refuseBlockedRequester_def getBlock_def)
  moreover have "getUserProfile aDb ''u@s'' = Inr True" "activeUserKey aDb ''u@s'' = Inr uKey" using signerDb_aDb by (simp_all add: signerDb_def)
  ultimately show ?thesis
    by (simp add: reedSigned_def signReed_def plain_facts trimmed no_mentions dropMentionsBlockingAuthor_def signReedAs_def map_filter_simps
      Let_def uKey_def reply_facts getReedAttestation_def)
qed

text \<open>A reed's id may name somebody else: \<open>u\<close> signs one that is \<open>v\<close>'s by its name.\<close>

lemma anothers_reed_is_signed:
  "\<exists>f. reedSigned ''v@s/1'' '''' '''' aFeed = Some (Done 201 uSigned, f, []) \<and>
     rowBy rd_id ''v@s/1'' (fe_reeds f) \<noteq> None \<and> authorOf ''v@s/1'' = Some ''v@s''"
proof -
  have "reedSigned ''v@s/1'' '''' '''' aFeed = Some (Done 201 uSigned, addRow (atSecond (uParams ''v@s/1'' '''' '''')) aFeed, [])"
    using reedSigned_next(1) [OF aFeed_onlyU, of "''v@s/1''" "''''"] by (simp add: plain_facts)
  moreover have "authorOf ''v@s/1'' = Some ''v@s''" by code_simp
  moreover have "rowBy rd_id ''v@s/1'' (fe_reeds (addRow (atSecond (uParams ''v@s/1'' '''' '''')) aFeed)) \<noteq> None"
    by (simp add: reedRowOf_def Let_def)
  ultimately show ?thesis by blast
qed

text \<open>
  Two reeds of one second are ordered by their ids, so one signed second but named lower doesn't become
  the tip, and both it and the next one follow the same reed.
\<close>

lemma forks_within_a_second:
  "\<exists>f1 f2 f3. reedSigned ''u@s/2'' '''' '''' aFeed = Some (Done 201 uSigned, f1, []) \<and>
     reedSigned ''u@s/1'' ''u@s/2'' '''' f1 = Some (Done 201 uSigned, f2, []) \<and>
     reedSigned ''u@s/3'' ''u@s/2'' '''' f2 = Some (Done 201 uSigned, f3, [])"
proof -
  have t: "trimSpace ''u@s/2'' = ''u@s/2''" by code_simp
  let ?f1 = "addRow (atSecond (uParams ''u@s/2'' '''' '''')) aFeed"
  let ?f2 = "addRow (atSecond (uParams ''u@s/1'' ''u@s/2'' '''')) ?f1"
  have 1: "reedSigned ''u@s/2'' '''' '''' aFeed = Some (Done 201 uSigned, ?f1, [])" "onlyU [''u@s/2''] ?f1"
    using reedSigned_next [OF aFeed_onlyU, of "''u@s/2''" "''''"] by (simp_all add: plain_facts)
  have 2: "reedSigned ''u@s/1'' ''u@s/2'' '''' ?f1 = Some (Done 201 uSigned, ?f2, [])" "onlyU [''u@s/2'', ''u@s/1''] ?f2"
    using reedSigned_next [OF 1(2), of "''u@s/1''" "''u@s/2''"] by (simp_all add: t)
  have 3: "reedSigned ''u@s/3'' ''u@s/2'' '''' ?f2 =
      Some (Done 201 uSigned, addRow (atSecond (uParams ''u@s/3'' ''u@s/2'' '''')) ?f2, [])"
    using reedSigned_next(1) [OF 2(2), of "''u@s/3''" "''u@s/2''"] by (simp add: t)
  show ?thesis using 1(1) 2(1) 3 by blast
qed

text \<open>
  A peer's removal of a reply takes it off the counts twice: when the removal is stored, and again when
  the row of the reply is dropped.  Of two replies one is left and the count is zero.
\<close>

lemma removed_foreign_reply_counts_twice:
  "\<exists>f1 f2 f3 f4. insertForeignReply ''u@s/1'' ''v@t/1'' ''u@s/1'' 0 aFeed = Some (Inr f1) \<and>
     insertForeignReply ''u@s/1'' ''v@t/2'' ''u@s/1'' 0 f1 = Some (Inr f2) \<and>
     insertReedRemoval \<lparr>rc_reed = ''v@t/1'', rc_user = ''v@t'', rc_sig = \<lparr>us_id = ''k'', us_armor = ''q''\<rparr>, rc_server_sig = uSigned\<rparr> f2 = Some (Inr f3) \<and>
     deleteForeignReplyReference ''v@t/1'' f3 = Some (True, f4) \<and>
     map ry_reed (fe_replies f4) = [''v@t/2''] \<and> getSubtreeReplyCount f4 ''u@s/1'' = 0"
proof -
  let ?r = "case insertForeignReply ''u@s/1'' ''v@t/1'' ''u@s/1'' 0 aFeed of Some (Inr f1) \<Rightarrow>
      (case insertForeignReply ''u@s/1'' ''v@t/2'' ''u@s/1'' 0 f1 of Some (Inr f2) \<Rightarrow>
      (case insertReedRemoval \<lparr>rc_reed = ''v@t/1'', rc_user = ''v@t'', rc_sig = \<lparr>us_id = ''k'', us_armor = ''q''\<rparr>, rc_server_sig = uSigned\<rparr> f2 of Some (Inr f3) \<Rightarrow>
      (case deleteForeignReplyReference ''v@t/1'' f3 of Some (d, f4) \<Rightarrow> 
        d \<and> map ry_reed (fe_replies f4) = [''v@t/2''] \<and> getSubtreeReplyCount f4 ''u@s/1'' = 0 | _ \<Rightarrow> False) | _ \<Rightarrow> False) | _ \<Rightarrow> False) | _ \<Rightarrow> False"
  have step: "bumpReplyAncestors rs up i c = (if replyParent rs i = None then Some c
      else bumpReplyAncestors rs up (the (replyParent rs i)) (bumpStat (the (replyParent rs i)) up c))" for rs up i c
    by (subst bumpReplyAncestors.simps) (simp split: option.split)
  have up: "replyParent rs i = None \<Longrightarrow> bumpReplyAncestors rs up i c = Some c"
    "replyParent rs i = Some p \<Longrightarrow> bumpReplyAncestors rs up i c = bumpReplyAncestors rs up p (bumpStat p up c)" for rs up i c p
    by (subst step, simp)+
  have parse: "parseKeyFingerprint ''v@t/1'' = Some (''v'', ''t'', ''1'')" "parseKeyFingerprint ''v@t/2'' = Some (''v'', ''t'', ''2'')"
    "parseKeyFingerprint ''u@s/1'' = Some (''u'', ''s'', ''1'')" by code_simp+
  have ?r
    by (simp add: insertForeignReply_def insertReedIdentity_def parse addReplyRow_def authorRemoved_def bumpAncestors_def up replyParent_def
      insertReedRemoval_def loadReedCert_def addRemovalRow_def enqueuePublishedRemovalTx_def deleteForeignReplyReference_def
      getSubtreeReplyCount_def bumpStat_def Let_def plain_facts truncateSig_def reedRemoved_def)
  moreover have "(case x of Some (Inr f) \<Rightarrow> P f | _ \<Rightarrow> False) \<longleftrightarrow> (\<exists>f. x = Some (Inr f) \<and> P f)" for x :: "(err + feed) option" and P
    by (auto split: option.split sum.split)
  moreover have "(case x of Some (d, f) \<Rightarrow> d \<and> P f | _ \<Rightarrow> False) \<longleftrightarrow> (\<exists>f. x = Some (True, f) \<and> P f)"
    for x :: "(bool \<times> feed) option" and P by (auto split: option.split)
  ultimately show ?thesis by simp
qed

end
