(* ===== verification/Invites.thy ===== *)
theory Invites
  imports FlagHandlers Executors Social
begin

text \<open>
  Invites (\<open>services.go\<close>, \<open>handlers.go\<close>): a member mints an id and a secret and stores the secret's
  hash; whoever brings both may sign up once.  An admin invite also carries permissions and lapses
  after a day.  The functions of the tables first, then the routes.
\<close>

subsection \<open>Constants and encodings\<close>

definition signupModeOpen :: string where "signupModeOpen = ''open''"
definition signupModeInvite :: string where "signupModeInvite = ''invite''"
definition signupModeClosed :: string where "signupModeClosed = ''closed''"
definition inviteCreateSkew :: int where "inviteCreateSkew = 5 * int minute"
definition adminInviteTTL :: int where "adminInviteTTL = 24 * int hour"
definition cryptoHashSize :: nat where "cryptoHashSize = 32"
definition errInviteNotFound :: err where "errInviteNotFound = Sentinel ''errInviteNotFound''"
definition errInviteNotOwner :: err where "errInviteNotOwner = Sentinel ''errInviteNotOwner''"
definition errInviteAlreadyClaimed :: err where "errInviteAlreadyClaimed = Sentinel ''errInviteAlreadyClaimed''"
definition errInviteAlreadyRevoked :: err where "errInviteAlreadyRevoked = Sentinel ''errInviteAlreadyRevoked''"
definition errInviteExists :: err where "errInviteExists = Sentinel ''errInviteExists''"
definition errInviteLimitReached :: err where "errInviteLimitReached = Sentinel ''errInviteLimitReached''"
definition errInviteRequired :: err where "errInviteRequired = Sentinel ''errInviteRequired''"
definition errInvalidInvite :: err where "errInvalidInvite = Sentinel ''errInvalidInvite''"
definition errInviterLacksGrant :: err where "errInviterLacksGrant = Sentinel ''errInviterLacksGrant''"

lemmas invite_errors = errInviteNotFound_def errInviteNotOwner_def errInviteAlreadyClaimed_def
  errInviteAlreadyRevoked_def errInviteExists_def errInviteLimitReached_def errInviteRequired_def
  errInvalidInvite_def errInviterLacksGrant_def

text \<open>\<open>encoding/hex\<close>: digits of either case are read, lower case is written.\<close>

definition hexValue :: "char \<Rightarrow> nat option" where
  "hexValue c = (let n = of_char c :: nat in
     if 48 \<le> n \<and> n \<le> 57 then Some (n - 48)
     else if 97 \<le> n \<and> n \<le> 102 then Some (n - 87)
     else if 65 \<le> n \<and> n \<le> 70 then Some (n - 55) else None)"

definition hexChar :: "nat \<Rightarrow> char" where
  "hexChar n = char_of (if n < 10 then n + 48 else n + 87)"

fun hexDecode :: "string \<Rightarrow> string option" where
  "hexDecode [] = Some []"
| "hexDecode [c] = None"
| "hexDecode (a # b # s) = (case (hexValue a, hexValue b, hexDecode s) of
     (Some x, Some y, Some t) \<Rightarrow> Some (char_of (16 * x + y) # t) | _ \<Rightarrow> None)"

definition encodeHashHex :: "string \<Rightarrow> string" where
  "encodeHashHex digest = concat (map (\<lambda>c. [hexChar (of_char c div 16), hexChar (of_char c mod 16)]) digest)"

definition decodeHashHex :: "string \<Rightarrow> string option" where
  "decodeHashHex s = (case hexDecode (trimSpace s) of
     None \<Rightarrow> None | Some b \<Rightarrow> if length b \<noteq> cryptoHashSize then None else Some b)"

lemma hexValue_hexChar: "n < 16 \<Longrightarrow> hexValue (hexChar n) = Some n"
  by (auto simp: hexValue_def hexChar_def Let_def)

lemma hexDecode_encode: "hexDecode (encodeHashHex b) = Some b"
proof (induction b)
  case (Cons c b)
  have "of_char c div 16 < (16 :: nat)" using nat_of_char_less_256 [of c] by linarith
  then have "hexValue (hexChar (of_char c div 16)) = Some (of_char c div 16)"
    "hexValue (hexChar (of_char c mod 16)) = Some (of_char c mod 16)"
    by (simp_all add: hexValue_hexChar)
  moreover have "char_of (16 * (of_char c div 16) + of_char c mod (16 :: nat)) = c" by simp
  ultimately show ?case using Cons.IH by (simp add: encodeHashHex_def)
qed (simp add: encodeHashHex_def)

subsection \<open>Reading invites\<close>

text \<open>The status at a time: revoked wins over claimed, claimed over expired.\<close>

definition inviteStatus :: "gotime \<Rightarrow> inviteRow \<Rightarrow> string" where
  "inviteStatus now v =
     (if iv_revoked_at v \<noteq> None then ''revoked''
      else if iv_claimed_at v \<noteq> None then ''claimed''
      else if iv_role v = roleAdmin \<and> adminInviteTTL < timeSub now (iv_created v) then ''expired''
      else ''pending'')"

definition getInviteByID :: "db \<Rightarrow> string \<Rightarrow> inviteRow option" where
  "getInviteByID d i = rowBy iv_id i (db_invites d)"

definition inviterSuspended :: "db \<Rightarrow> string \<Rightarrow> bool" where
  "inviterSuspended d u \<longleftrightarrow> (\<exists>r \<in> set (db_users d). u_id r = u \<and> u_suspended r \<noteq> None)"

definition getPendingInvite :: "gotime \<Rightarrow> db \<Rightarrow> string \<Rightarrow> string \<Rightarrow> inviteRow option" where
  "getPendingInvite now d i hash = (case List.find (\<lambda>v. iv_id v = i \<and> iv_token v = hash) (db_invites d) of
     None \<Rightarrow> None
   | Some v \<Rightarrow> if inviteStatus now v \<noteq> ''pending'' then None
       else if inviterSuspended d (iv_by v) then None else Some v)"

text \<open>\<open>DataService.GetPendingInvite\<close>.\<close>

definition lookUpInvite :: "env \<Rightarrow> gotime \<Rightarrow> db \<Rightarrow> string \<Rightarrow> string \<Rightarrow> inviteRow option" where
  "lookUpInvite E now d i secret =
     (if trimSpace i = '''' \<or> trimSpace secret = '''' then None
      else getPendingInvite now d (trimSpace i) (e_hash E (trimSpace secret)))"

text \<open>\<open>resolveSignup\<close>: the invite to consume, empty for none.\<close>

definition resolveSignup ::
    "gotime \<Rightarrow> string \<Rightarrow> string \<Rightarrow> string \<Rightarrow> inviteRow option \<Rightarrow> err + string" where
  "resolveSignup now mode inviteID secret v0 =
     (let i = trimSpace inviteID; sec = trimSpace secret in
      if \<not> (i \<noteq> '''' \<or> sec \<noteq> '''') then (if mode = signupModeInvite then Inl errInviteRequired else Inr '''')
      else if i = '''' \<or> sec = '''' then Inl errInvalidInvite
      else (case v0 of
        None \<Rightarrow> Inl errInvalidInvite
      | Some v \<Rightarrow> if inviteStatus now v \<noteq> ''pending'' \<or> iv_id v \<noteq> i then Inl errInvalidInvite
          else Inr (iv_id v)))"

subsection \<open>Writing invites\<close>

definition invitesOf :: "db \<Rightarrow> string \<Rightarrow> inviteRow list" where
  "invitesOf d u = filter (\<lambda>i. iv_by i = u) (db_invites d)"

definition newInvite ::
    "string \<Rightarrow> string \<Rightarrow> string \<Rightarrow> gotime \<Rightarrow> string \<Rightarrow> userSig \<Rightarrow> serverSig \<Rightarrow> string list \<Rightarrow> inviteRow" where
  "newInvite i creatorID tokenHash createdAt grantedRole sig serverSig perms = \<lparr>iv_id = i, iv_by = creatorID,
     iv_token = tokenHash, iv_created = createdAt, iv_role = grantedRole, iv_claimed_at = None,
     iv_claimed_by = None, iv_revoked_at = None, iv_sig = sig, iv_server_sig = serverSig, iv_permissions = perms\<rparr>"

lemma newInvite_sel [simp]:
  "iv_id (newInvite i u h t r s ss ps) = i" "iv_by (newInvite i u h t r s ss ps) = u"
  "iv_token (newInvite i u h t r s ss ps) = h" "iv_created (newInvite i u h t r s ss ps) = t"
  "iv_role (newInvite i u h t r s ss ps) = r" "iv_claimed_at (newInvite i u h t r s ss ps) = None"
  "iv_claimed_by (newInvite i u h t r s ss ps) = None" "iv_revoked_at (newInvite i u h t r s ss ps) = None"
  "iv_permissions (newInvite i u h t r s ss ps) = ps" "iv_server_sig (newInvite i u h t r s ss ps) = ss"
  by (simp_all add: newInvite_def)

text \<open>
  \<open>insertInviteWith\<close>, with the constraints of its tables: the signing key and the creator exist, the
  role and the permissions are known, id and hash are unique.
\<close>

definition insertInviteWith :: "env \<Rightarrow> string \<Rightarrow> string \<Rightarrow> string \<Rightarrow> gotime \<Rightarrow> string \<Rightarrow> userSig \<Rightarrow>
    serverSig \<Rightarrow> int \<Rightarrow> string list \<Rightarrow> db \<Rightarrow> err + unit \<times> db" where
  "insertInviteWith E i creatorID tokenHash createdAt grantedRole0 sig serverSig maxInvites perms d =
     (let grantedRole = (if grantedRole0 = '''' then roleUser else grantedRole0) in
      bindR (inviteLimitQ d creatorID (e_server_id E) maxInvites) (\<lambda>limit.
      if us_id sig \<notin> pk_id ` set (db_keys d) then Inl (Internal ''insert user signature'')
      else if \<not> (limit < 0 \<or> int (length (invitesOf d creatorID)) < limit) then Inl errInviteLimitReached
      else if grantedRole \<notin> {roleAdmin, roleUser} then Inl (Internal ''invites_granted_role_check'')
      else if i \<in> iv_id ` set (db_invites d) \<or> tokenHash \<in> iv_token ` set (db_invites d)
        then Inl errInviteExists
      else if creatorID \<notin> set (db_identities d) then Inl (Internal ''invites_created_by_fkey'')
      else if \<not> set perms \<subseteq> set adminPermissions \<or> \<not> distinct perms then Inl (Internal ''insert invite permission'')
      else Inr ((), d\<lparr>db_invites := db_invites d @ [newInvite i creatorID tokenHash createdAt grantedRole sig serverSig perms]\<rparr>)))"

text \<open>The \<open>WHERE\<close> of the claiming update: not claimed, not revoked, an admin invite younger than a day, its creator not suspended.\<close>

definition inviteClaimable :: "gotime \<Rightarrow> db \<Rightarrow> inviteRow \<Rightarrow> bool" where
  "inviteClaimable now d v \<longleftrightarrow> iv_claimed_at v = None \<and> iv_revoked_at v = None \<and>
     (iv_role v \<noteq> roleAdmin \<or> timeSub now (iv_created v) < adminInviteTTL) \<and>
     \<not> inviterSuspended d (iv_by v)"

definition markInviteClaimed ::
    "env \<Rightarrow> gotime \<Rightarrow> string \<Rightarrow> string \<Rightarrow> gotime \<Rightarrow> db \<Rightarrow> bool \<times> db" where
  "markInviteClaimed E now inviteID claimedBy claimedAt d =
     (\<exists>v \<in> set (db_invites d). iv_id v = inviteID \<and> inviteClaimable now d v,
      d\<lparr>db_invites := updWhere (\<lambda>v. iv_id v = inviteID \<and> inviteClaimable now d v)
        (\<lambda>v. v\<lparr>iv_claimed_at := Some claimedAt, iv_claimed_by := Some (canonicalID (e_server_id E) claimedBy)\<rparr>)
        (db_invites d)\<rparr>)"

text \<open>\<open>revokeInvite\<close>: the check and the update are two statements on the same row.\<close>

definition revokeInvite :: "string \<Rightarrow> string \<Rightarrow> gotime \<Rightarrow> db \<Rightarrow> err + unit \<times> db" where
  "revokeInvite inviteID callerID revokedAt d = (case rowBy iv_id inviteID (db_invites d) of
     None \<Rightarrow> Inl errInviteNotFound
   | Some v \<Rightarrow>
       if iv_by v \<noteq> callerID then Inl errInviteNotOwner
       else if iv_claimed_at v \<noteq> None then Inl errInviteAlreadyClaimed
       else if iv_revoked_at v \<noteq> None then Inl errInviteAlreadyRevoked
       else Inr ((), d\<lparr>db_invites := updWhere
         (\<lambda>v. iv_id v = inviteID \<and> iv_claimed_at v = None \<and> iv_revoked_at v = None)
         (\<lambda>v. v\<lparr>iv_revoked_at := Some revokedAt\<rparr>) (db_invites d)\<rparr>))"

text \<open>\<open>adminInviteClaimEntryTx\<close>: the inviter must still hold all the invite grants, and the permission to make admins.\<close>

definition adminInviteClaimEntryTx :: "env \<Rightarrow> string \<Rightarrow> string \<Rightarrow> db \<Rightarrow> err + ledgerEntry" where
  "adminInviteClaimEntryTx E inviteID adminID d = (case rowBy iv_id inviteID (db_invites d) of
     None \<Rightarrow> Inl (Internal ''load invite'')
   | Some v \<Rightarrow> let granted = sortStrings (iv_permissions v);
         held = userPermissionsQ d (iv_by v) (userRoleQ d (iv_by v)) (e_server_id E)
       in if \<exists>p \<in> set (permAdminCreate # granted). p \<notin> set held then Inl errInviterLacksGrant
          else Inr \<lparr>en_id = 0, en_prev = 0, en_kind = ledgerKindAdminInvite, en_user = adminID,
            en_requester = iv_by v, en_requested_at = ss_at (iv_server_sig v),
            en_message = ''['' @ inviteID @ ''] Admin invite claimed'',
            en_content = formatPermissionSet granted, en_targets = [], en_sig = noServerSig\<rparr>)"

subsection \<open>Routes\<close>

text \<open>What a client sends to create an invite, and the invite as it is answered.\<close>

record inviteMsg =
  im_id :: string
  im_token_hash :: string
  im_created :: gotime
  im_role :: string
  im_sig :: userSig
  im_permissions :: string

record inviteWire =
  iw_id :: string
  iw_token_hash :: string
  iw_created :: gotime
  iw_role :: string
  iw_sig :: userSig
  iw_server_sig :: serverSig
  iw_permissions :: string

record inviteStatusWire =
  is_id :: string
  is_created :: gotime
  is_status :: string
  is_claimed_at :: "gotime option"
  is_claimed_by :: "string option"
  is_revoked_at :: "gotime option"

text \<open>
  \<open>CreateInvite\<close> up to the insert, in three parts: the id and the hash; the time, the role and the
  permissions; the signatures.  The key of the user's signature is looked up by the id the client gives.
\<close>

definition inviteToken :: "env \<Rightarrow> string \<Rightarrow> inviteMsg \<Rightarrow> (nat \<times> string) + string" where
  "inviteToken E caller m = (case parseKeyFingerprint (im_id m) of
     None \<Rightarrow> Inl (400, ''Invalid invite id'')
   | Some (idOwner, idServerID, idEntity) \<Rightarrow>
       if \<not> e_uuid_ok E idEntity then Inl (400, ''Invalid invite id'')
       else if canonicalID idServerID idOwner \<noteq> caller then Inl (403, ''Invite id does not belong to the caller'')
       else (case decodeHashHex (im_token_hash m) of
         None \<Rightarrow> Inl (400, ''Invalid tokenHash'')
       | Some tokenHash \<Rightarrow>
           if us_id (im_sig m) = '''' \<or> us_armor (im_sig m) = '''' then Inl (400, ''userSignature is required'')
           else Inr tokenHash))"

definition invitePermissions :: "env \<Rightarrow> string \<Rightarrow> string \<Rightarrow> string list \<Rightarrow> db \<Rightarrow> (nat \<times> string) option" where
  "invitePermissions E caller grantedRole perms d =
     (if grantedRole = roleAdmin then
        (let held = getUserPermissions E d caller in
         if permAdminCreate \<notin> set held then Some (403, ''Cannot grant admin role'')
         else firstErr (\<lambda>p. if p \<notin> set held then Some (403, ''Missing permission '' @ p) else None) perms)
      else if perms \<noteq> [] then Some (400, ''Only an admin invite grants permissions'') else None)"

definition inviteGrant ::
    "env \<Rightarrow> gotime \<Rightarrow> string \<Rightarrow> inviteMsg \<Rightarrow> db \<Rightarrow> (nat \<times> string) + gotime \<times> string \<times> string list" where
  "inviteGrant E now caller m d =
     (let createdAt = truncateSecond (im_created m); trimmed = trimSpace (im_role m);
          grantedRole = (if trimmed = '''' then roleUser else trimmed) in
      if isZeroTime createdAt then Inl (400, ''createdAt is required'')
      else if inviteCreateSkew < abs (timeSub now createdAt) then Inl (400, ''createdAt out of range'')
      else if grantedRole \<noteq> roleUser \<and> grantedRole \<noteq> roleAdmin then Inl (400, ''Invalid grantedRole'')
      else (case parsePermissionSet (im_permissions m) of
        Inl e \<Rightarrow> Inl (400, ''Invalid permissions: '' @ e)
      | Inr perms \<Rightarrow> bindR (failIf (invitePermissions E caller grantedRole perms d)) (\<lambda>_.
          Inr (createdAt, grantedRole, perms))))"

definition inviteSigned ::
    "env \<Rightarrow> gotime \<Rightarrow> string \<Rightarrow> inviteMsg \<Rightarrow> string \<Rightarrow> gotime \<Rightarrow> string \<Rightarrow> db \<Rightarrow> (nat \<times> string) + serverSig" where
  "inviteSigned E now caller m tokenHash createdAt grantedRole d =
     (let hash = encodeHashHex tokenHash;
          pubArmor = (case getPublicKey d (us_id (im_sig m)) of
            None \<Rightarrow> '''' | Some k \<Rightarrow> if key_revoked k then '''' else key_armor k) in
      if pubArmor = '''' then Inl (401, ''Active public key not available'')
      else if \<not> e_verify E (buildInviteUserPayload (e_jcs E) (e_server_id E) caller (im_id m) hash grantedRole
          createdAt) (us_armor (im_sig m)) pubArmor then Inl (401, ''signature verification failed'')
      else (case countersign E (buildInviteServerPayload (e_jcs E) (e_server_id E) caller (im_id m) hash
          (e_fingerprint E) (us_armor (im_sig m)) createdAt now) now of
        Inl e \<Rightarrow> Inl (500, ''Internal Server Error'') | Inr serverSig \<Rightarrow> Inr serverSig))"

definition prepareInvite :: "env \<Rightarrow> gotime \<Rightarrow> string option \<Rightarrow> inviteMsg option \<Rightarrow> db \<Rightarrow>
    (nat \<times> string) + string \<times> inviteMsg \<times> string \<times> gotime \<times> string \<times> string list \<times> serverSig" where
  "prepareInvite E now0 caller0 msg d = (case caller0 of None \<Rightarrow> Inl (401, ''Unauthorized'') | Some caller \<Rightarrow>
     if caller = '''' then Inl (401, ''Unauthorized'')
     else if e_signup_mode E = signupModeClosed then Inl (403, ''Signups are closed on this server'')
     else (case msg of None \<Rightarrow> Inl (400, ''Invalid request body'') | Some m \<Rightarrow>
       let now = truncateSecond now0 in
       bindR (inviteToken E caller m) (\<lambda>tokenHash.
       bindR (inviteGrant E now caller m d) (\<lambda>(createdAt, grantedRole, perms).
       bindR (inviteSigned E now caller m tokenHash createdAt grantedRole d) (\<lambda>serverSig.
         Inr (caller, m, tokenHash, createdAt, grantedRole, perms, serverSig))))))"

definition createInvite :: "env \<Rightarrow> gotime \<Rightarrow> string option \<Rightarrow> inviteMsg option \<Rightarrow> db \<Rightarrow> inviteWire answer \<times> db" where
  "createInvite E now caller0 msg d = (case prepareInvite E now caller0 msg d of
     Inl (status, text) \<Rightarrow> (Fail status text, d)
   | Inr (caller, m, tokenHash, createdAt, grantedRole, perms, serverSig) \<Rightarrow>
       (case withAdminTx (insertInviteWith E (im_id m) caller tokenHash createdAt grantedRole (im_sig m)
          serverSig (e_max_invites E) perms) d of
         (Inl e, d') \<Rightarrow> (if e = errInviteExists then Fail 409 ''Invite already exists''
           else if e = errInviteLimitReached then Fail 403 ''Invite limit reached''
           else Fail 500 ''Internal Server Error'', d')
       | (Inr _, d') \<Rightarrow> (Done 201 \<lparr>iw_id = im_id m, iw_token_hash = encodeHashHex tokenHash,
           iw_created = createdAt, iw_role = grantedRole, iw_sig = im_sig m, iw_server_sig = serverSig,
           iw_permissions = formatPermissionSet perms\<rparr>, d')))"

definition inviteStatusRoute :: "gotime \<Rightarrow> string option \<Rightarrow> string \<Rightarrow> db \<Rightarrow> inviteStatusWire answer" where
  "inviteStatusRoute now caller0 i d = (case caller0 of None \<Rightarrow> Fail 401 ''Unauthorized'' | Some caller \<Rightarrow>
     if caller = '''' then Fail 401 ''Unauthorized''
     else if i = '''' then Fail 400 ''Invite id is required''
     else (case getInviteByID d i of None \<Rightarrow> Fail 404 ''Invite not found'' | Some v \<Rightarrow>
       if iv_by v \<noteq> caller then Fail 404 ''Invite not found''
       else Done 200 \<lparr>is_id = iv_id v, is_created = iv_created v, is_status = inviteStatus now v,
         is_claimed_at = iv_claimed_at v, is_claimed_by = iv_claimed_by v, is_revoked_at = iv_revoked_at v\<rparr>))"

definition deleteInvite :: "gotime \<Rightarrow> string option \<Rightarrow> string \<Rightarrow> db \<Rightarrow> unit answer \<times> db" where
  "deleteInvite now caller0 i d = (case caller0 of None \<Rightarrow> (Fail 401 ''Unauthorized'', d) | Some caller \<Rightarrow>
     if caller = '''' then (Fail 401 ''Unauthorized'', d)
     else if i = '''' then (Fail 400 ''Invite id is required'', d)
     else (case revokeInvite i caller now d of
       Inl e \<Rightarrow> (if e = errInviteNotFound \<or> e = errInviteNotOwner then Fail 404 ''Invite not found''
         else if e = errInviteAlreadyClaimed then Fail 409 ''Invite already claimed''
         else if e = errInviteAlreadyRevoked then Done 204 ()
         else Fail 500 ''Internal Server Error'', d)
     | Inr (_, d') \<Rightarrow> (Done 204 (), d')))"

definition checkInvite :: "env \<Rightarrow> gotime \<Rightarrow> string \<Rightarrow> string \<Rightarrow> db \<Rightarrow> bool answer" where
  "checkInvite E now i0 secret0 d = (let i = trimSpace i0; secret = trimSpace secret0 in
     if i = '''' \<or> secret = '''' then Fail 400 ''Arguments `id` and `secret` are required''
     else Done 200 (lookUpInvite E now d i secret \<noteq> None))"

subsection \<open>What the routes do\<close>

lemma insertInviteWith_Inr:
  assumes "insertInviteWith E i u h t role sig ss n perms d = Inr (x, d')" and "role \<noteq> ''''"
  shows "\<exists>limit. inviteLimitQ d u (e_server_id E) n = Inr limit \<and>
    (limit < 0 \<or> int (length (invitesOf d u)) < limit) \<and>
    i \<notin> iv_id ` set (db_invites d) \<and> h \<notin> iv_token ` set (db_invites d) \<and> u \<in> set (db_identities d) \<and>
    role \<in> {roleAdmin, roleUser} \<and> set perms \<subseteq> set adminPermissions \<and> distinct perms \<and>
    d' = d\<lparr>db_invites := db_invites d @ [newInvite i u h t role sig ss perms]\<rparr>"
proof -
  obtain limit where l: "inviteLimitQ d u (e_server_id E) n = Inr limit"
    using assms(1) by (cases "inviteLimitQ d u (e_server_id E) n") (simp_all add: insertInviteWith_def Let_def)
  show ?thesis
    using assms by (simp add: insertInviteWith_def Let_def l del: not_less split: if_splits)
qed

lemma createInvite_db:
  assumes "createInvite E now caller msg d = (r, d')"
  shows "d' = d \<or> (\<exists>u m h t role perms ss. prepareInvite E now caller msg d = Inr (u, m, h, t, role, perms, ss) \<and>
    insertInviteWith E (im_id m) u h t role (im_sig m) ss (e_max_invites E) perms d = Inr ((), d'))"
proof (cases "prepareInvite E now caller msg d")
  case (Inl e)
  then show ?thesis using assms by (auto simp: createInvite_def split: prod.splits)
next
  case (Inr p)
  obtain u m h t role perms ss where p: "p = (u, m, h, t, role, perms, ss)" by (cases p) auto
  show ?thesis
  proof (cases "insertInviteWith E (im_id m) u h t role (im_sig m) ss (e_max_invites E) perms d")
    case (Inl e)
    then show ?thesis using assms Inr by (simp add: createInvite_def withAdminTx_def p split: if_splits)
  next
    case ins: (Inr q)
    then obtain d1 where q: "q = ((), d1)" by (cases q) auto
    then have "d' = d1" using assms Inr ins by (simp add: createInvite_def withAdminTx_def p)
    then show ?thesis using Inr ins p q by blast
  qed
qed

lemma inviteToken_Inr:
  "inviteToken E u m = Inr h \<Longrightarrow> authorOf (im_id m) = Some u \<and> decodeHashHex (im_token_hash m) = Some h"
  by (auto simp: inviteToken_def authorOf_def split: option.splits if_splits)

lemma invitePermissions_None:
  assumes "invitePermissions E u role perms d = None"
  shows "if role = roleAdmin then permAdminCreate \<in> set (getUserPermissions E d u) \<and> set perms \<subseteq> set (getUserPermissions E d u)
    else perms = []"
  using assms by (auto simp: invitePermissions_def Let_def firstErr_None split: if_splits)

lemma inviteGrant_Inr:
  assumes "inviteGrant E now u m d = Inr (t, role, perms)"
  shows "t = truncateSecond (im_created m) \<and> role \<in> {roleUser, roleAdmin} \<and>
    parsePermissionSet (im_permissions m) = Inr perms \<and> invitePermissions E u role perms d = None"
  using assms by (auto simp: inviteGrant_def Let_def bindR_Inr failIf_Inr split: sum.splits if_splits)

lemma inviteSigned_Inr:
  assumes "inviteSigned E now u m h t role d = Inr ss"
  shows "\<exists>k. getPublicKey d (us_id (im_sig m)) = Some k \<and> \<not> key_revoked k \<and>
    e_verify E (buildInviteUserPayload (e_jcs E) (e_server_id E) u (im_id m) (encodeHashHex h) role t)
      (us_armor (im_sig m)) (key_armor k)"
  using assms by (auto simp: inviteSigned_def Let_def split: option.splits if_splits sum.splits)

lemma prepareInvite_Inr:
  assumes "prepareInvite E now caller msg d = Inr (u, m, h, t, role, perms, ss)"
  shows "caller = Some u \<and> msg = Some m \<and> e_signup_mode E \<noteq> signupModeClosed \<and>
    inviteToken E u m = Inr h \<and> inviteGrant E (truncateSecond now) u m d = Inr (t, role, perms) \<and>
    inviteSigned E (truncateSecond now) u m h t role d = Inr ss"
  using assms by (auto simp: prepareInvite_def Let_def bindR_Inr split: option.splits if_splits)

end
