(* ===== verification/Accounts.thy ===== *)
theory Accounts
  imports Invites
begin

text \<open>
  Accounts (\<open>services.go\<close>, \<open>handlers.go\<close>): signing up, with or without an invite; usernames; the profile a
  user re-signs; the device a session is bound to; and the rotation of a user's key.  The functions of
  the tables come before the routes that check and sign what they store.
\<close>

subsection \<open>Text\<close>

text \<open>\<open>trimInvisibleChars\<close>.\<close>

definition trimInvisibleChars :: "env \<Rightarrow> string \<Rightarrow> string" where
  "trimInvisibleChars E s = trimSpace (e_printable E (trimSpace s))"

text \<open>
  The regular expressions of \<open>CountMarkdownCharacters\<close>, each as the function that replaces its matches,
  leftmost first.  Bytes do for runes: no delimiter is part of a longer UTF-8 sequence.
\<close>

definition afterPrefix :: "string \<Rightarrow> string \<Rightarrow> string option" where
  "afterPrefix p s = (if prefix p s then Some (drop (length p) s) else None)"

text \<open>A non-empty run up to a closing character: the run and what follows the character.\<close>

definition runUntil :: "char \<Rightarrow> string \<Rightarrow> (string \<times> string) option" where
  "runUntil c s = (let w = takeWhile ((\<noteq>) c) s; rest = dropWhile ((\<noteq>) c) s in
     if w = '''' \<or> rest = '''' then None else Some (w, tl rest))"

lemma runUntil_length: "runUntil c s = Some (w, r) \<Longrightarrow> length r < length s"
  using length_dropWhile_le [of "(\<noteq>) c" s]
  by (cases "dropWhile ((\<noteq>) c) s") (auto simp: runUntil_def Let_def split: if_splits)

definition matchLink :: "string \<Rightarrow> (string \<times> string) option" where
  "matchLink s = (case afterPrefix ''['' s of None \<Rightarrow> None | Some s1 \<Rightarrow>
     (case runUntil (CHR '']'') s1 of None \<Rightarrow> None | Some (label, s2) \<Rightarrow>
     (case afterPrefix ''('' s2 of None \<Rightarrow> None | Some s3 \<Rightarrow>
     (case runUntil (CHR '')'') s3 of None \<Rightarrow> None | Some (_, rest) \<Rightarrow> Some (label, rest)))))"

definition matchDelimited :: "char \<Rightarrow> string \<Rightarrow> (string \<times> string) option" where
  "matchDelimited c s = (case afterPrefix [c] s of None \<Rightarrow> None | Some s1 \<Rightarrow> runUntil c s1)"

text \<open>The text up to the first closing fence, and what follows it.\<close>

fun untilFence :: "string \<Rightarrow> (string \<times> string) option" where
  "untilFence [] = None"
| "untilFence (c # s) = (case afterPrefix (CHR 0x0A # ''```'') (c # s) of
     Some rest \<Rightarrow> Some ('''', rest)
   | None \<Rightarrow> (case untilFence s of None \<Rightarrow> None | Some (w, rest) \<Rightarrow> Some (c # w, rest)))"

text \<open>The info line and its newline are dropped when a closing fence follows, else that newline may begin it.\<close>

definition matchFence :: "string \<Rightarrow> (string \<times> string) option" where
  "matchFence s = (case afterPrefix ''```'' s of None \<Rightarrow> None | Some s1 \<Rightarrow>
     (let body = dropWhile (\<lambda>c. c \<noteq> CHR 0x0A) s1 in
      case body of [] \<Rightarrow> None | _ # s2 \<Rightarrow>
        (case untilFence s2 of Some m \<Rightarrow> Some m | None \<Rightarrow> untilFence body)))"

definition isBlankChar :: "char \<Rightarrow> bool" where
  "isBlankChar c \<longleftrightarrow> c \<in> {CHR 0x09, CHR 0x0A, CHR 0x0C, CHR 0x0D, CHR 0x20}"

text \<open>\<open>(^|\s)#(\S)\<close>: the first match may begin the text; a match keeps both groups.\<close>

definition matchHashtag :: "bool \<Rightarrow> string \<Rightarrow> (string \<times> string) option" where
  "matchHashtag start s = (case s of
     a # b # rest \<Rightarrow>
       if start \<and> a = CHR ''#'' \<and> \<not> isBlankChar b then Some ([b], rest)
       else if isBlankChar a \<and> b = CHR ''#'' then
         (case rest of c # rest' \<Rightarrow> if \<not> isBlankChar c then Some ([a, c], rest') else None | [] \<Rightarrow> None)
       else None
   | _ \<Rightarrow> None)"

text \<open>\<open>ReplaceAllString\<close>, for a matcher at the head of the text that consumes something.\<close>

fun replaceAll :: "nat \<Rightarrow> bool \<Rightarrow> (bool \<Rightarrow> string \<Rightarrow> (string \<times> string) option) \<Rightarrow> string \<Rightarrow> string" where
  "replaceAll 0 start m s = s"
| "replaceAll (Suc n) start m [] = []"
| "replaceAll (Suc n) start m (c # s) = (case m start (c # s) of
     Some (w, rest) \<Rightarrow> w @ replaceAll n False m rest
   | None \<Rightarrow> c # replaceAll n False m s)"

definition replaceMatches :: "(bool \<Rightarrow> string \<Rightarrow> (string \<times> string) option) \<Rightarrow> string \<Rightarrow> string" where
  "replaceMatches m s = replaceAll (length s) True m s"

definition visibleText :: "string \<Rightarrow> string" where
  "visibleText s = fold replaceMatches
     [\<lambda>_. matchLink, \<lambda>_. matchFence, \<lambda>_. matchDelimited (CHR ''`''), \<lambda>_. matchDelimited (CHR ''~''),
      \<lambda>_. matchDelimited (CHR ''_''), \<lambda>_. matchDelimited (CHR ''*''), matchHashtag] s"

definition countMarkdownCharacters :: "env \<Rightarrow> string \<Rightarrow> nat" where
  "countMarkdownCharacters E text = (if text = '''' then 0 else e_graphemes E (trimSpace (visibleText text)))"

definition maxReedVisibleChars :: nat where "maxReedVisibleChars = 140"

subsection \<open>Usernames\<close>

definition rootUsername :: string where "rootUsername = ''root''"

definition reservedUsernames :: "string list" where
  "reservedUsernames = [''admins'', ''admin'', ''__root__'', ''webmaster'', ''syrinx'']"

text \<open>\<open>strings.EqualFold\<close>.\<close>

definition equalFold :: "env \<Rightarrow> string \<Rightarrow> string \<Rightarrow> bool" where
  "equalFold E s t \<longleftrightarrow> e_fold E s = e_fold E t"

definition isReservedUsername :: "env \<Rightarrow> string \<Rightarrow> bool" where
  "isReservedUsername E username \<longleftrightarrow>
     (if equalFold E username (e_server_name E) then True
      else list_ex (\<lambda>n. equalFold E n username) reservedUsernames)"

text \<open>Another row than \<open>claimantID\<close>'s holds the name; a NULL name equals nothing.\<close>

definition usernameHeld :: "env \<Rightarrow> db \<Rightarrow> string \<Rightarrow> string \<Rightarrow> bool" where
  "usernameHeld E d username claimantID \<longleftrightarrow>
     list_ex (\<lambda>r. map_option (e_lower E) (u_username r) = Some (e_lower E username) \<and> u_id r \<noteq> claimantID) (db_users d)"

definition usernameExists :: "env \<Rightarrow> db \<Rightarrow> string \<Rightarrow> string \<Rightarrow> bool" where
  "usernameExists E d username claimantID \<longleftrightarrow>
     (if equalFold E username rootUsername \<and> \<not> isRootIdentity claimantID (e_server_id E) then True
      else if isReservedUsername E username then True
      else usernameHeld E d username claimantID)"

subsection \<open>Devices\<close>

text \<open>\<open>parseDeviceID\<close>: \<open>None\<close> is \<open>errMissingDevice\<close>.\<close>

definition parseDeviceID :: "env \<Rightarrow> string \<Rightarrow> string option" where
  "parseDeviceID E raw0 = (let raw = trimSpace raw0 in if raw = '''' then None else e_uuid E raw)"

definition getActiveDeviceID :: "db \<Rightarrow> string \<Rightarrow> string" where
  "getActiveDeviceID d u = (case List.find (\<lambda>v. dv_user v = u \<and> dv_revoked_at v = None) (db_devices d) of
     None \<Rightarrow> '''' | Some v \<Rightarrow> dv_device v)"

text \<open>\<open>BindDeviceTx\<close>: the device in use is revoked; user, device and time are the table's key.\<close>

definition bindDeviceTx :: "env \<Rightarrow> string \<Rightarrow> string \<Rightarrow> gotime \<Rightarrow> db \<Rightarrow> err + unit \<times> db" where
  "bindDeviceTx E userID deviceID0 now d = (case parseDeviceID E deviceID0 of
     None \<Rightarrow> Inl (Sentinel ''errMissingDevice'')
   | Some deviceID \<Rightarrow>
       let self = canonicalID (e_server_id E) userID;
           t = updWhere (\<lambda>v. dv_user v = self \<and> dv_revoked_at v = None) (\<lambda>v. v\<lparr>dv_revoked_at := Some now\<rparr>) (db_devices d)
       in if \<exists>v \<in> set t. dv_user v = self \<and> dv_device v = deviceID \<and> dv_linked v = now
          then Inl (Internal ''insert device'')
          else Inr ((), d\<lparr>db_devices := t @ [\<lparr>dv_user = self, dv_device = deviceID, dv_linked = now,
            dv_revoked_at = None\<rparr>]\<rparr>))"

definition bindDevice :: "env \<Rightarrow> string \<Rightarrow> string \<Rightarrow> gotime \<Rightarrow> db \<Rightarrow> err + unit \<times> db" where
  "bindDevice E userID deviceID now d =
     bindDeviceTx E (case parseIdentityID userID of None \<Rightarrow> userID | Some (bare, _) \<Rightarrow> bare) deviceID now d"

definition checkActiveDevice :: "env \<Rightarrow> db \<Rightarrow> string \<Rightarrow> string \<Rightarrow> err option" where
  "checkActiveDevice E d userID presented0 = (case parseDeviceID E presented0 of
     None \<Rightarrow> Some (Sentinel ''errMissingDevice'')
   | Some presented \<Rightarrow> let active = getActiveDeviceID d userID in
       if active = '''' \<or> active \<noteq> presented then Some (Sentinel ''errDeviceMismatch'') else None)"

subsection \<open>Signing up: what is stored\<close>

record signupInput =
  si_user :: string
  si_username :: string
  si_armor :: string
  si_key :: string
  si_key_created :: gotime
  si_sig :: string
  si_since :: gotime
  si_profile_sig :: serverSig
  si_key_sig :: serverSig
  si_invite :: "inviteRow option"
  si_device :: string

text \<open>The new rows: the identity's key and profile.\<close>

definition signupKey :: "string \<Rightarrow> signupInput \<Rightarrow> keyRow" where
  "signupKey self si = \<lparr>pk_id = si_key si, pk_owner = Some self, pk_armor = si_armor si,
     pk_created = si_key_created si, pk_server_sig = Some (si_key_sig si), pk_predecessor = None,
     pk_restricted = False\<rparr>"

definition signupRow :: "string \<Rightarrow> string \<Rightarrow> signupInput \<Rightarrow> usersRow" where
  "signupRow self role si = \<lparr>u_id = self, u_username = Some (si_username si), u_role = role, u_bio = None,
     u_created = si_since si, u_active_key = Some (si_key si),
     u_user_sig = Some \<lparr>us_id = si_key si, us_armor = si_sig si\<rparr>,
     u_server_sig = Some (si_profile_sig si), u_invite = map_option iv_id (si_invite si), u_suspended = None\<rparr>"

definition signupRoleOf :: "env \<Rightarrow> signupInput \<Rightarrow> string" where
  "signupRoleOf E si = signupRole (si_user si)
     (case si_invite si of None \<Rightarrow> '''' | Some v \<Rightarrow> iv_role v) (si_invite si \<noteq> None) (e_server_id E)"

text \<open>The three inserts, with the tables' unique keys; the username's index ignores case.\<close>

definition insertAccount :: "env \<Rightarrow> signupInput \<Rightarrow> db \<Rightarrow> err + unit \<times> db" where
  "insertAccount E si d = (let self = canonicalID (e_server_id E) (si_user si) in
     if self \<in> set (db_identities d) then Inl (Internal ''insert identity'')
     else if si_key si \<in> pk_id ` set (db_keys d) then Inl (Internal ''insert public key'')
     else if self \<in> u_id ` set (db_users d) then Inl (Internal ''insert user'')
     else if usernameHeld E d (si_username si) self then Inl (Sentinel ''ErrUsernameTaken'')
     else Inr ((), d\<lparr>db_identities := db_identities d @ [self], db_keys := db_keys d @ [signupKey self si],
       db_users := db_users d @ [signupRow self (signupRoleOf E si) si]\<rparr>))"

definition claimInvite :: "env \<Rightarrow> gotime \<Rightarrow> signupInput \<Rightarrow> db \<Rightarrow> err + unit \<times> db" where
  "claimInvite E now si d = (case si_invite si of None \<Rightarrow> Inr ((), d) | Some v \<Rightarrow>
     (case markInviteClaimed E now (iv_id v) (si_user si) (si_since si) d of
       (ok, d') \<Rightarrow> if \<not> ok then Inl errInvalidInvite else Inr ((), d')))"

text \<open>
  An admin invite's permissions are copied to the new admin, a pair being the table's key, and
  \<open>OnAdminClaim\<close> runs in the transaction.
\<close>

definition grantInvite :: "env \<Rightarrow> (string \<Rightarrow> db \<Rightarrow> err + ledgerEntry \<times> db) \<Rightarrow> signupInput \<Rightarrow> db \<Rightarrow>
    err + ledgerEntry option \<times> db" where
  "grantInvite E onAdminClaim si d = (case si_invite si of None \<Rightarrow> Inr (None, d) | Some v \<Rightarrow>
     if signupRoleOf E si \<noteq> roleAdmin then Inr (None, d)
     else (let self = canonicalID (e_server_id E) (si_user si);
               perms = (case rowBy iv_id (iv_id v) (db_invites d) of None \<Rightarrow> [] | Some w \<Rightarrow> iv_permissions w)
       in if \<exists>p \<in> set perms. (self, p) \<in> set (db_permissions d) then Inl (Internal ''insert permission'')
          else (case onAdminClaim (iv_id v) (d\<lparr>db_permissions := db_permissions d @ map (\<lambda>p. (self, p)) perms\<rparr>) of
            Inl e \<Rightarrow> Inl e | Inr (entry, d') \<Rightarrow> Inr (Some entry, d'))))"

definition signupTx :: "env \<Rightarrow> gotime \<Rightarrow> (string \<Rightarrow> db \<Rightarrow> err + ledgerEntry \<times> db) \<Rightarrow> signupInput \<Rightarrow> db \<Rightarrow>
    err + ledgerEntry option \<times> db" where
  "signupTx E now onAdminClaim si d =
     (if (case si_invite si of None \<Rightarrow> False | Some v \<Rightarrow> inviteStatus now v \<noteq> ''pending'') then Inl errInvalidInvite
      else bindR (insertAccount E si d) (\<lambda>(_, d1).
      bindR (claimInvite E now si d1) (\<lambda>(_, d2).
      bindR (grantInvite E onAdminClaim si d2) (\<lambda>(entry, d3).
      bindR (if si_device si = '''' then Inr ((), bumpActiveUsers 1 d3)
             else bindDeviceTx E (si_user si) (si_device si) (si_since si) (bumpActiveUsers 1 d3)) (\<lambda>(_, d4).
        Inr (entry, d4))))))"

text \<open>What the handler passes as \<open>OnAdminClaim\<close>.\<close>

definition onAdminClaim :: "env \<Rightarrow> gotime \<Rightarrow> string \<Rightarrow> string \<Rightarrow> db \<Rightarrow> err + ledgerEntry \<times> db" where
  "onAdminClaim E now userID inviteID d =
     bindR (adminInviteClaimEntryTx E inviteID (canonicalID (e_server_id E) userID) d) (\<lambda>entry.
       appendLedgerTx E now entry d)"

subsection \<open>Signing up: the route\<close>

record signupMsg =
  su_username :: string
  su_public_key :: string
  su_signature :: string
  su_user_signature :: string
  su_user_id :: string
  su_user_id_signature :: string
  su_user_id_fingerprint :: string
  su_invite_id :: string
  su_invite_secret :: string

text \<open>The form: the username, the device of the header, and the fields that must be there.\<close>

definition signupForm :: "env \<Rightarrow> string \<Rightarrow> signupMsg \<Rightarrow> (nat \<times> string) + string \<times> string \<times> string" where
  "signupForm E device m = (let username = trimInvisibleChars E (su_username m); userID = trimSpace (su_user_id m) in
     if username = '''' then Inl (400, ''Argument `username` is required'')
     else if 32 < length username then Inl (400, ''Username cannot exceed 32 characters'')
     else (case parseDeviceID E device of
       None \<Rightarrow> Inl (400, ''Missing or invalid X-Syrinx-Device-Id header'')
     | Some deviceID \<Rightarrow>
         if su_public_key m = '''' then Inl (400, ''Argument `publicKey` is required'')
         else if su_signature m = '''' then Inl (400, ''Argument `signature` is required'')
         else if su_user_signature m = '''' then Inl (400, ''Argument `userSignature` is required'')
         else if userID = '''' then Inl (400, ''Argument `userID` is required'')
         else if userID = rootUserID then Inl (400, ''userID is reserved'')
         else if \<not> isValidCryptoID userID then Inl (400, ''Invalid userID'')
         else if su_user_id_signature m = '''' then Inl (400, ''Argument `userIDSignature` is required'')
         else if trimSpace (su_user_id_fingerprint m) = '''' then Inl (400, ''Argument `userIDFingerprint` is required'')
         else Inr (username, deviceID, userID)))"

text \<open>The invite policy, shared with \<open>CheckUsername\<close>.\<close>

definition signupInvite :: "env \<Rightarrow> gotime \<Rightarrow> string \<Rightarrow> string \<Rightarrow> db \<Rightarrow> (nat \<times> string) + inviteRow option" where
  "signupInvite E now i secret d = (let v = lookUpInvite E now d (trimSpace i) (trimSpace secret) in
     case resolveSignup now (e_signup_mode E) (trimSpace i) (trimSpace secret) v of
       Inl e \<Rightarrow> Inl (if e = errInviteRequired then (403, ''Invite required'')
         else if e = errInvalidInvite then (403, ''Invalid or claimed invite'')
         else (500, ''Internal Server Error''))
     | Inr resolved \<Rightarrow> Inr v)"

text \<open>\<open>GetServerPublicKeyByFingerprint\<close>.\<close>

definition serverKeyArmor :: "env \<Rightarrow> db \<Rightarrow> string \<Rightarrow> string" where
  "serverKeyArmor E d fingerprint = (case rowBy pk_id (canonicalID (e_server_id E) fingerprint) (db_keys d) of
     None \<Rightarrow> '''' | Some k \<Rightarrow> pk_armor k)"

text \<open>The server signed the id, the name is free, and the key's owner signed the key and the profile: the key's fingerprint.\<close>

definition signupProofs ::
    "env \<Rightarrow> signupMsg \<Rightarrow> string \<Rightarrow> string \<Rightarrow> db \<Rightarrow> (nat \<times> string) + string" where
  "signupProofs E m username userID d =
     (let self = canonicalID (e_server_id E) userID;
          serverPubKey = serverKeyArmor E d (trimSpace (su_user_id_fingerprint m)) in
      if serverPubKey = '''' then Inl (500, ''Internal Server Error'')
      else if \<not> e_verify E userID (su_user_id_signature m) serverPubKey
        then Inl (400, ''userID signature verification failed'')
      else if usernameExists E d username self then Inl (400, ''Username already exists'')
      else (case e_extract_fingerprint E (su_public_key m) of
        None \<Rightarrow> Inl (400, ''invalid public key'')
      | Some bare \<Rightarrow>
          if \<not> e_verify E (su_public_key m) (su_signature m) (su_public_key m)
            then Inl (400, ''failed to validate challenge signature'')
          else let fingerprint = appendEntity self bare in
            if \<not> e_verify E (buildUserIdentityPayload (e_jcs E) username fingerprint '''') (su_user_signature m)
              (su_public_key m) then Inl (400, ''userSignature verification failed'')
            else Inr fingerprint))"

text \<open>The profile and the key, countersigned.\<close>

definition signupSigned :: "env \<Rightarrow> gotime \<Rightarrow> signupMsg \<Rightarrow> string \<Rightarrow> string \<Rightarrow> string \<Rightarrow> inviteRow option \<Rightarrow> db \<Rightarrow>
    (nat \<times> string) + serverSig \<times> serverSig" where
  "signupSigned E now m username userID fingerprint v d =
     (let self = canonicalID (e_server_id E) userID;
          inviteID = (case v of None \<Rightarrow> '''' | Some w \<Rightarrow> iv_id w);
          role = signupRole userID (case v of None \<Rightarrow> '''' | Some w \<Rightarrow> iv_role w) (v \<noteq> None) (e_server_id E);
          perms = (if v \<noteq> None \<and> role = roleAdmin
            then (case rowBy iv_id inviteID (db_invites d) of None \<Rightarrow> [] | Some w \<Rightarrow> sortStrings (iv_permissions w))
            else [])
      in case countersign E (buildNewProfilePayload (e_jcs E) self username fingerprint (e_server_id E)
            (e_fingerprint E) (su_user_signature m) inviteID role perms now) now of
        Inl e \<Rightarrow> Inl (500, ''Internal Server Error'')
      | Inr profileSig \<Rightarrow>
          (case countersign E (buildPublicKeyPayload (e_jcs E) (e_server_id E) self fingerprint (e_fingerprint E)
              (su_public_key m) now) now of
            Inl e \<Rightarrow> Inl (500, ''Internal Server Error'')
          | Inr keySig \<Rightarrow> Inr (profileSig, keySig)))"

definition prepareSignup ::
    "env \<Rightarrow> gotime \<Rightarrow> string \<Rightarrow> signupMsg option \<Rightarrow> db \<Rightarrow> (nat \<times> string) + signupInput" where
  "prepareSignup E now0 device msg d =
     (if recovering (e_recovery_mode E)
        then Inl (403, ''Signups are closed while this server is in recovery mode'')
      else if e_signup_mode E = signupModeClosed then Inl (403, ''Signups are closed on this server'')
      else (case msg of None \<Rightarrow> Inl (400, ''Invalid request format'') | Some m \<Rightarrow>
        let now = truncateSecond now0 in
        bindR (signupForm E device m) (\<lambda>(username, deviceID, userID).
        bindR (signupInvite E now0 (su_invite_id m) (su_invite_secret m) d) (\<lambda>v.
        bindR (signupProofs E m username userID d) (\<lambda>fingerprint.
        bindR (signupSigned E now m username userID fingerprint v d) (\<lambda>(profileSig, keySig).
          Inr \<lparr>si_user = userID, si_username = username, si_armor = su_public_key m, si_key = fingerprint,
            si_key_created = e_key_created E (su_public_key m), si_sig = su_user_signature m, si_since = now,
            si_profile_sig = profileSig, si_key_sig = keySig, si_invite = v, si_device = deviceID\<rparr>))))))"

text \<open>\<open>Signup\<close> reads the new profile back once it has committed.\<close>

definition signup :: "env \<Rightarrow> gotime \<Rightarrow> string \<Rightarrow> signupMsg option \<Rightarrow> db \<Rightarrow> string answer \<times> db \<times> effect list" where
  "signup E now device msg d = (case prepareSignup E now device msg d of
     Inl (status, text) \<Rightarrow> (Fail status text, d, [])
   | Inr si \<Rightarrow> (let self = canonicalID (e_server_id E) (si_user si) in
       case withAdminTx (signupTx E now (onAdminClaim E now (si_user si)) si) d of
         (Inl e, d') \<Rightarrow> (if e = errInvalidInvite then Fail 403 ''Invalid or claimed invite''
           else if e = errInviterLacksGrant
             then Fail 403 ''The inviter no longer holds the permissions this invite grants''
           else if e = Sentinel ''ErrUsernameTaken'' then Fail 400 ''Username already exists''
           else Fail 500 ''Internal Server Error'', d', [])
       | (Inr entry, d') \<Rightarrow> (case getUserProfile d' self of
           Inl e \<Rightarrow> (Fail 500 ''Internal Server Error'', d', [])
         | Inr found \<Rightarrow> (Done 201 self, d', (case entry of None \<Rightarrow> [] | Some x \<Rightarrow> [PushLedger x]) @
             (if si_invite si \<noteq> None \<and> signupRoleOf E si = roleAdmin
              then notifyAdminsOfNewAdmin d' self ''joined as an admin'' else [])))))"

text \<open>\<open>parseCheckUsernameForm\<close> and \<open>respondUsernameAvailability\<close>, with or without the signup policy.\<close>

definition checkUsernameForm :: "env \<Rightarrow> string option \<Rightarrow> (nat \<times> string) + string" where
  "checkUsernameForm E req = (case req of None \<Rightarrow> Inl (400, ''Invalid request format'') | Some raw \<Rightarrow>
     (let username = trimInvisibleChars E raw in
      if username = '''' then Inl (400, ''Argument `username` is required'')
      else if 32 < length username then Inl (400, ''Username cannot exceed 32 characters'')
      else Inr username))"

definition usernameAvailability :: "env \<Rightarrow> db \<Rightarrow> string \<Rightarrow> string \<Rightarrow> unit answer" where
  "usernameAvailability E d username exceptUserID =
     (if usernameExists E d username exceptUserID then Fail 409 ''Username is taken'' else Done 204 ())"

definition checkUsername :: "env \<Rightarrow> gotime \<Rightarrow> (string \<times> string \<times> string) option \<Rightarrow> db \<Rightarrow> unit answer" where
  "checkUsername E now req d =
     (if recovering (e_recovery_mode E) then Fail 403 ''Signups are closed while this server is in recovery mode''
      else if e_signup_mode E = signupModeClosed then Fail 403 ''Signups are closed on this server''
      else (case checkUsernameForm E (map_option fst req) of
        Inl (status, text) \<Rightarrow> Fail status text
      | Inr username \<Rightarrow>
          (case signupInvite E now (fst (snd (the req))) (snd (snd (the req))) d of
            Inl (status, text) \<Rightarrow> Fail status text
          | Inr v \<Rightarrow> usernameAvailability E d username '''')))"

definition checkUsernameForRename :: "env \<Rightarrow> string \<Rightarrow> string option \<Rightarrow> db \<Rightarrow> unit answer" where
  "checkUsernameForRename E userID req d = (case checkUsernameForm E req of
     Inl (status, text) \<Rightarrow> Fail status text
   | Inr username \<Rightarrow> usernameAvailability E d username userID)"

subsection \<open>Profiles\<close>

record updateInput =
  ui_user :: string
  ui_username :: string
  ui_bio :: string
  ui_key :: string
  ui_sig :: string
  ui_profile_sig :: serverSig

text \<open>
  \<open>DataService.UpdateUser\<close>: the row's old signatures are read back to be deleted, so a row without them
  fails; a new username settles a collision the user lost.
\<close>

definition updateUserTx :: "env \<Rightarrow> updateInput \<Rightarrow> db \<Rightarrow> err + unit \<times> db" where
  "updateUserTx E ui d =
     (if ui_key ui \<notin> pk_id ` set (db_keys d) then Inl (Internal ''insert user signature'')
      else (case userRow d (ui_user ui) of
        None \<Rightarrow> Inl (Internal ''no rows'')
      | Some r \<Rightarrow>
          if usernameHeld E d (ui_username ui) (ui_user ui) then Inl (Sentinel ''ErrUsernameTaken'')
          else if u_user_sig r = None \<or> u_server_sig r = None then Inl (Internal ''scan old signatures'')
          else Inr ((), (updUser (ui_user ui) (\<lambda>r. r\<lparr>u_username := Some (ui_username ui), u_bio := Some (ui_bio ui),
              u_user_sig := Some \<lparr>us_id = ui_key ui, us_armor = ui_sig ui\<rparr>,
              u_server_sig := Some (ui_profile_sig ui)\<rparr>) d)
            \<lparr>db_username_collisions := filter (\<lambda>c. fst c \<noteq> ui_user ui) (db_username_collisions d)\<rparr>)))"

text \<open>\<open>GetActiveKey\<close>: the key the user's row points at, with its revocation.\<close>

definition getActiveKey :: "db \<Rightarrow> string \<Rightarrow> (string \<times> string \<times> bool) option" where
  "getActiveKey d u = (case userRow d u of None \<Rightarrow> None | Some r \<Rightarrow>
     (case u_active_key r of None \<Rightarrow> None | Some k \<Rightarrow>
     (case rowBy pk_id k (db_keys d) of None \<Rightarrow> None | Some row \<Rightarrow>
       Some (pk_id row, pk_armor row, k \<in> kr_key ` set (db_key_revocations d) \<or>
         (\<exists>p \<in> set (db_private_keys d). fst p = k \<and> snd p \<noteq> None)))))"

record updateMsg =
  um_username :: string
  um_bio :: string
  um_user_signature :: string

text \<open>The new name and bio of \<open>UpdateUser\<close>, checked.\<close>

definition updateForm :: "env \<Rightarrow> string \<Rightarrow> usersRow \<Rightarrow> updateMsg \<Rightarrow> db \<Rightarrow> (nat \<times> string) + string" where
  "updateForm E userID r m d = (let username = trimInvisibleChars E (um_username m) in
     if username = '''' then Inl (400, ''Argument `username` is required'')
     else if 32 < length username then Inl (400, ''Username cannot exceed 32 characters'')
     else if orEmpty (u_username r) \<noteq> username \<and> usernameExists E d username userID
       then Inl (400, ''Username already taken'')
     else if maxReedVisibleChars < countMarkdownCharacters E (um_bio m)
       then Inl (400, ''Bio cannot exceed 140 characters'')
     else Inr username)"

text \<open>The active key signed the new profile; the server countersigns it: the key and the countersignature.\<close>

definition updateSigned :: "env \<Rightarrow> gotime \<Rightarrow> string \<Rightarrow> usersRow \<Rightarrow> updateMsg \<Rightarrow> string \<Rightarrow> db \<Rightarrow>
    (nat \<times> string) + string \<times> serverSig" where
  "updateSigned E now userID r m username d = (case getActiveKey d userID of
     None \<Rightarrow> Inl (500, ''Internal Server Error'')
   | Some (fingerprint, armor, revoked) \<Rightarrow>
       if revoked then Inl (401, ''Key is revoked'')
       else if \<not> e_verify E (buildUserIdentityPayload (e_jcs E) username fingerprint (um_bio m))
          (um_user_signature m) armor then Inl (400, ''userSignature verification failed'')
       else (case countersign E (buildProfilePayload (e_jcs E) userID username fingerprint (e_server_id E)
            (e_fingerprint E) (um_user_signature m) (orEmpty (u_invite r)) (u_role r)
            (sortStrings (map snd (filter (\<lambda>(u, p). u = userID) (db_permissions d)))) (um_bio m) (u_created r) now) now of
          Inl e \<Rightarrow> Inl (500, ''Internal Server Error'') | Inr sig \<Rightarrow> Inr (fingerprint, sig)))"

definition updateUser :: "env \<Rightarrow> gotime \<Rightarrow> string \<Rightarrow> updateMsg option \<Rightarrow> db \<Rightarrow> unit answer \<times> db \<times> effect list" where
  "updateUser E now userID msg d = (case (getUserProfile d userID, userRow d userID) of
     (Inr True, Some r) \<Rightarrow> (case msg of None \<Rightarrow> (Fail 400 ''Invalid request body'', d, []) | Some m \<Rightarrow>
       if um_user_signature m = '''' then (Fail 400 ''Argument `userSignature` is required'', d, [])
       else if map_option us_armor (u_user_sig r) = Some (um_user_signature m) then (Done 200 (), d, [])
       else (case bindR (updateForm E userID r m d) (\<lambda>username.
           bindR (updateSigned E (truncateSecond now) userID r m username d) (\<lambda>(fingerprint, sig).
             Inr \<lparr>ui_user = userID, ui_username = username, ui_bio = um_bio m, ui_key = fingerprint,
               ui_sig = um_user_signature m, ui_profile_sig = sig\<rparr>)) of
         Inl (status, text) \<Rightarrow> (Fail status text, d, [])
       | Inr ui \<Rightarrow> (case withAdminTx (updateUserTx E ui) d of
           (Inl e, d') \<Rightarrow> (if e = Sentinel ''ErrUsernameTaken'' then Fail 400 ''Username already taken''
             else Fail 500 ''Internal Server Error'', d', [])
         | (Inr _, d') \<Rightarrow> (Done 200 (), d', [UserUpdated userID (ui_username ui) (ui_bio ui)]))))
   | (Inr False, _) \<Rightarrow> (Fail 400 ''User not found'', d, [])
   | _ \<Rightarrow> (Fail 500 ''Internal Server Error'', d, []))"

subsection \<open>Key rotation\<close>

definition keyRotationCooldown :: int where "keyRotationCooldown = 24 * int hour"

record addKeyInput =
  ak_id :: string
  ak_user :: string
  ak_created :: gotime
  ak_armor :: string
  ak_server_sig :: serverSig
  ak_predecessor :: string
  ak_handoff :: string
  ak_reason :: string
  ak_revocation_sig :: string
  ak_revocation_server_sig :: serverSig

definition errKeyRotationTooSoon :: err where "errKeyRotationTooSoon = Sentinel ''ErrKeyRotationTooSoon''"
definition errPredecessorAlreadyReplaced :: err where
  "errPredecessorAlreadyReplaced = Sentinel ''ErrPredecessorAlreadyReplaced''"
definition errActiveKeyExists :: err where "errActiveKeyExists = Sentinel ''ErrActiveKeyExists''"

definition hasActiveKey :: "db \<Rightarrow> string \<Rightarrow> bool" where
  "hasActiveKey d u \<longleftrightarrow>
     list_ex (\<lambda>k. pk_owner k = Some u \<and> pk_id k \<notin> kr_key ` set (db_key_revocations d)) (db_keys d)"

text \<open>
  The predecessor's part: known, countersigned at least a day ago unless it was bound by a rebind, and
  not replaced; not revoked yet, it is revoked here and the peers are told.
\<close>

definition revokePredecessor :: "gotime \<Rightarrow> addKeyInput \<Rightarrow> db \<Rightarrow> err + unit \<times> db" where
  "revokePredecessor now ak d = (case rowBy pk_id (ak_predecessor ak) (db_keys d) of
     None \<Rightarrow> Inl (Sentinel ''ErrPredecessorNotFound'')
   | Some k \<Rightarrow> (case pk_server_sig k of
       None \<Rightarrow> Inl (Internal ''no rows'')
     | Some ss \<Rightarrow>
         if 0 < keyRotationCooldown - timeSub now (ss_at ss) \<and> \<not> pk_restricted k then Inl errKeyRotationTooSoon
         else (case rowBy kr_key (ak_predecessor ak) (db_key_revocations d) of
           None \<Rightarrow> Inr ((), enqueuePeerEventTx peerEventKeyRevocation (ak_predecessor ak)
             (d\<lparr>db_key_revocations := db_key_revocations d @ [\<lparr>kr_key = ak_predecessor ak,
               kr_reason = Some (ak_reason ak),
               kr_user_sig = Some \<lparr>us_id = ak_predecessor ak, us_armor = ak_revocation_sig ak\<rparr>,
               kr_request = None, kr_server_sig = ak_revocation_server_sig ak, kr_successor = None,
               kr_successor_sig = None\<rparr>]\<rparr>))
         | Some v \<Rightarrow> if kr_successor v \<noteq> None \<and> kr_successor v \<noteq> Some ''''
             then Inl errPredecessorAlreadyReplaced else Inr ((), d))))"

text \<open>The new key, the user's pointer to it, and the successor on the predecessor's revocation.\<close>

definition storeSuccessor :: "addKeyInput \<Rightarrow> db \<Rightarrow> db" where
  "storeSuccessor ak d = updUser (ak_user ak) (\<lambda>r. r\<lparr>u_active_key := Some (ak_id ak)\<rparr>)
     (d\<lparr>db_keys := db_keys d @ [\<lparr>pk_id = ak_id ak, pk_owner = Some (ak_user ak), pk_armor = ak_armor ak,
          pk_created = ak_created ak, pk_server_sig = Some (ak_server_sig ak),
          pk_predecessor = Some (ak_predecessor ak), pk_restricted = False\<rparr>],
        db_key_revocations := updWhere (\<lambda>v. kr_key v = ak_predecessor ak)
          (\<lambda>v. v\<lparr>kr_successor := Some (ak_id ak), kr_successor_sig := (if ak_handoff ak = '''' then None
             else Some \<lparr>us_id = ak_predecessor ak, us_armor = ak_handoff ak\<rparr>)\<rparr>) (db_key_revocations d)\<rparr>)"

definition addPublicKeyTx :: "gotime \<Rightarrow> addKeyInput \<Rightarrow> db \<Rightarrow> err + unit \<times> db" where
  "addPublicKeyTx now ak d =
     (if ak_predecessor ak = '''' then Inl (Sentinel ''ErrPredecessorRequired'')
      else if ak_user ak \<notin> set (db_identities d) then Inl (Sentinel ''ErrUserNotFound'')
      else if ak_id ak \<in> pk_id ` set (db_keys d) then Inl (Sentinel ''ErrKeyAlreadyExists'')
      else bindR (revokePredecessor now ak d) (\<lambda>(_, d1).
        if hasActiveKey d1 (ak_user ak) then Inl errActiveKeyExists
        else Inr ((), storeSuccessor ak d1)))"

record addKeyMsg =
  km_user_id :: string
  km_revoked_key_signature :: string
  km_new_key_signature :: string
  km_revocation_reason :: string
  km_revocation_user_signature :: string
  km_public_key :: string
  km_revoked_key_fingerprint :: string

text \<open>
  The route, open to whoever knows the server's key: the old key must sign the new one and its own
  revocation, and the new key itself; the server signs both.
\<close>

definition prepareAddKey :: "env \<Rightarrow> gotime \<Rightarrow> addKeyMsg option \<Rightarrow> db \<Rightarrow> (nat \<times> string) + addKeyInput" where
  "prepareAddKey E now0 msg d = (case msg of None \<Rightarrow> Inl (400, ''Invalid request body'') | Some m \<Rightarrow>
     let userID = trimSpace (km_user_id m); handoff = trimSpace (km_revoked_key_signature m);
         newSig = trimSpace (km_new_key_signature m); reason = trimSpace (km_revocation_reason m);
         revSig = trimSpace (km_revocation_user_signature m); armor = trimSpace (km_public_key m);
         bare = trimSpace (km_revoked_key_fingerprint m); old = appendEntity userID bare;
         now = truncateSecond now0
     in if userID = '''' then Inl (400, ''Argument `userID` is required'')
     else if handoff = '''' then Inl (400, ''Argument `revokedKeySignature` is required'')
     else if newSig = '''' then Inl (400, ''Argument `newKeySignature` is required'')
     else if revSig = '''' then Inl (400, ''Argument `revocationUserSignature` is required'')
     else if armor = '''' then Inl (400, ''Argument `publicKey` is required'')
     else if bare = '''' then Inl (400, ''Argument `revokedKeyFingerprint` is required'')
     else (case getPublicKey d old of None \<Rightarrow> Inl (404, ''Old public key not found'') | Some k \<Rightarrow>
     if \<not> e_verify E armor handoff (key_armor k) then Inl (401, ''Revoked key signature verification failed'')
     else if \<not> e_verify E (buildUserRevocationPayload (e_jcs E) userID old reason) revSig (key_armor k)
       then Inl (401, ''revocationUserSignature verification failed'')
     else (case e_extract_fingerprint E armor of None \<Rightarrow> Inl (400, ''failed to extract entity'') | Some newBare \<Rightarrow>
     if \<not> e_verify E armor newSig armor then Inl (400, ''failed to validate challenge signature'')
     else let newKey = appendEntity userID newBare in
     (case countersign E (buildPublicKeyPayload (e_jcs E) (e_server_id E) userID newKey (e_fingerprint E) armor now) now of
       Inl e \<Rightarrow> Inl (500, ''Internal Server Error'') | Inr keySig \<Rightarrow>
     (case countersign E (buildServerRevocationPayload (e_jcs E) userID old reason (e_server_id E) (e_fingerprint E)
         revSig now) now of
       Inl e \<Rightarrow> Inl (500, ''Internal Server Error'') | Inr revServerSig \<Rightarrow>
     Inr \<lparr>ak_id = newKey, ak_user = userID, ak_created = e_key_created E armor, ak_armor = armor,
       ak_server_sig = keySig, ak_predecessor = old, ak_handoff = handoff, ak_reason = reason,
       ak_revocation_sig = revSig, ak_revocation_server_sig = revServerSig\<rparr>)))))"

definition addPublicKey :: "env \<Rightarrow> gotime \<Rightarrow> addKeyMsg option \<Rightarrow> db \<Rightarrow> string answer \<times> db \<times> effect list" where
  "addPublicKey E now msg d = (case prepareAddKey E now msg d of
     Inl (status, text) \<Rightarrow> (Fail status text, d, [])
   | Inr ak \<Rightarrow> (case withAdminTx (addPublicKeyTx now ak) d of
       (Inl e, d') \<Rightarrow> (if e = errKeyRotationTooSoon then Fail 429 ''You can only revoke your key once every 24 hours''
         else if e = Sentinel ''ErrUserNotFound'' then Fail 404 ''User not found''
         else if e = Sentinel ''ErrKeyAlreadyExists'' then Fail 409 ''Public key fingerprint already registered''
         else (case e of Sentinel s \<Rightarrow> Fail 400 s | _ \<Rightarrow> Fail 500 ''Internal Server Error''), d', [])
     | (Inr _, d') \<Rightarrow> (Done 200 (ak_id ak), d', [KeyRevoked (ak_predecessor ak), DrainPeers ''''])))"

end
