(* ===== verification/AccountRules.thy ===== *)
theory AccountRules
  imports Accounts Authority
begin

text \<open>
  What every run of the account routes keeps.  Keys: each user has exactly one key in use, and the keys a
  rotation or a rebind puts one after the other never fork.  Invites: a claimed invite and the account it
  made name each other.  Names: no two accounts share one, whatever its case.  The invariant is split in
  those three; the step relation \<open>accountStep\<close> has the routes, the executors of admin requests, account
  removal and what else writes the tables.
\<close>

subsection \<open>The invariant\<close>

definition revokedKeys :: "db \<Rightarrow> string set" where
  "revokedKeys d = kr_key ` set (db_key_revocations d)"

text \<open>Whoever has a key or a profile has an identity.\<close>

definition ownersKnown :: "db \<Rightarrow> bool" where
  "ownersKnown d \<longleftrightarrow> (\<forall>k \<in> set (db_keys d). \<forall>u. pk_owner k = Some u \<longrightarrow> u \<in> set (db_identities d)) \<and>
     u_id ` set (db_users d) \<subseteq> set (db_identities d)"

text \<open>The keys: their ids and revocations; a revoked key and its successor name each other.\<close>

definition keyRules :: "db \<Rightarrow> bool" where
  "keyRules d \<longleftrightarrow> uniqueBy pk_id (db_keys d) \<and> uniqueBy kr_key (db_key_revocations d) \<and>
     '''' \<notin> pk_id ` set (db_keys d) \<and> revokedKeys d \<subseteq> pk_id ` set (db_keys d) \<and>
     (\<forall>v \<in> set (db_key_revocations d). \<exists>k \<in> set (db_keys d).
        kr_successor v = Some (pk_id k) \<and> pk_predecessor k = Some (kr_key v)) \<and>
     (\<forall>k \<in> set (db_keys d). \<forall>p. pk_predecessor k = Some p \<longrightarrow> (\<exists>v \<in> set (db_key_revocations d).
        kr_key v = p \<and> kr_successor v = Some (pk_id k)))"

text \<open>
  The key a user's row points at is theirs, by its id too, and the only one of theirs not revoked.
\<close>

definition activeKeyOf :: "db \<Rightarrow> usersRow \<Rightarrow> bool" where
  "activeKeyOf d r \<longleftrightarrow> CHR ''/'' \<notin> set (u_id r) \<and>
     (\<exists>f. u_active_key r = Some (appendEntity (u_id r) f) \<and> CHR ''/'' \<notin> set f) \<and> (\<exists>k \<in> set (db_keys d). u_active_key r = Some (pk_id k) \<and> pk_owner k = Some (u_id r) \<and>
     pk_id k \<notin> revokedKeys d) \<and>
     (\<forall>k \<in> set (db_keys d). pk_owner k = Some (u_id r) \<longrightarrow> pk_id k \<notin> revokedKeys d \<longrightarrow> u_active_key r = Some (pk_id k))"

definition userRules :: "db \<Rightarrow> bool" where
  "userRules d \<longleftrightarrow> uniqueBy u_id (db_users d) \<and> (\<forall>r \<in> set (db_users d). activeKeyOf d r)"

definition inviteRules :: "db \<Rightarrow> bool" where
  "inviteRules d \<longleftrightarrow> uniqueBy iv_id (db_invites d) \<and> uniqueBy iv_token (db_invites d) \<and>
     (\<forall>v \<in> set (db_invites d). (iv_claimed_at v = None) = (iv_claimed_by v = None) \<and>
        (\<forall>u. iv_claimed_by v = Some u \<longrightarrow> iv_revoked_at v = None \<and>
          (\<exists>r \<in> set (db_users d). u_id r = u \<and> u_invite r = Some (iv_id v)))) \<and>
     (\<forall>r \<in> set (db_users d). \<forall>i. u_invite r = Some i \<longrightarrow>
        (\<exists>v \<in> set (db_invites d). iv_id v = i \<and> iv_claimed_by v = Some (u_id r)))"

text \<open>No two names differ in case only; none but root is called root, and nobody by a reserved name.\<close>

definition nameAllowed :: "env \<Rightarrow> string \<Rightarrow> string \<Rightarrow> bool" where
  "nameAllowed E u n \<longleftrightarrow> (equalFold E n rootUsername \<longrightarrow> isRootIdentity u (e_server_id E)) \<and> \<not> isReservedUsername E n"

definition nameRules :: "env \<Rightarrow> db \<Rightarrow> bool" where
  "nameRules E d \<longleftrightarrow>
     (\<forall>r \<in> set (db_users d). \<forall>s \<in> set (db_users d). \<forall>n m. u_username r = Some n \<longrightarrow> u_username s = Some m \<longrightarrow>
        e_lower E n = e_lower E m \<longrightarrow> u_id r = u_id s) \<and>
     (\<forall>r \<in> set (db_users d). \<forall>n. u_username r = Some n \<longrightarrow> nameAllowed E (u_id r) n)"

definition accountInv :: "env \<Rightarrow> db \<Rightarrow> bool" where
  "accountInv E d \<longleftrightarrow> ownersKnown d \<and> keyRules d \<and> userRules d \<and> inviteRules d \<and> nameRules E d"

subsection \<open>What leaves the tables alone\<close>

definition sameAccounts :: "db \<Rightarrow> db \<Rightarrow> bool" where
  "sameAccounts d d' \<longleftrightarrow> db_users d' = db_users d \<and> db_keys d' = db_keys d \<and>
     db_key_revocations d' = db_key_revocations d \<and> db_invites d' = db_invites d \<and>
     set (db_identities d) \<subseteq> set (db_identities d')"

lemma sameAccounts_refl [simp]: "sameAccounts d d"
  by (simp add: sameAccounts_def)

lemma sameAccounts_trans: "sameAccounts d e \<Longrightarrow> sameAccounts e f \<Longrightarrow> sameAccounts d f"
  by (auto simp: sameAccounts_def)

lemma keyRules_cong:
  "db_keys d' = db_keys d \<Longrightarrow> db_key_revocations d' = db_key_revocations d \<Longrightarrow> keyRules d' = keyRules d"
  by (simp only: keyRules_def revokedKeys_def)

lemma activeKeyOf_cong:
  "db_keys d' = db_keys d \<Longrightarrow> db_key_revocations d' = db_key_revocations d \<Longrightarrow> activeKeyOf d' r = activeKeyOf d r"
  by (simp only: activeKeyOf_def revokedKeys_def)

lemma userRules_cong:
  "db_users d' = db_users d \<Longrightarrow> db_keys d' = db_keys d \<Longrightarrow> db_key_revocations d' = db_key_revocations d \<Longrightarrow>
     userRules d' = userRules d"
  by (simp only: userRules_def activeKeyOf_def revokedKeys_def)

lemma inviteRules_cong: "db_users d' = db_users d \<Longrightarrow> db_invites d' = db_invites d \<Longrightarrow> inviteRules d' = inviteRules d"
  by (simp only: inviteRules_def)

lemma nameRules_cong: "db_users d' = db_users d \<Longrightarrow> nameRules E d' = nameRules E d"
  by (simp only: nameRules_def)

lemma ownersKnown_mono:
  assumes "ownersKnown d" "db_keys d' = db_keys d" "u_id ` set (db_users d') = u_id ` set (db_users d)"
    "set (db_identities d) \<subseteq> set (db_identities d')"
  shows "ownersKnown d'"
  using assms unfolding ownersKnown_def by (simp add: subset_eq)

lemma accountInv_same:
  assumes "accountInv E d" and same: "sameAccounts d d'"
  shows "accountInv E d'"
proof -
  have eq: "db_users d' = db_users d" "db_keys d' = db_keys d" "db_key_revocations d' = db_key_revocations d"
    "db_invites d' = db_invites d" and sub: "set (db_identities d) \<subseteq> set (db_identities d')"
    using same by (simp_all add: sameAccounts_def)
  have "ownersKnown d'"
    using ownersKnown_mono [of d d'] assms(1) eq(1,2) sub unfolding accountInv_def by simp
  then show ?thesis
    using assms(1) keyRules_cong [OF eq(2,3)] userRules_cong [OF eq(1-3)] inviteRules_cong [OF eq(1,4)]
      nameRules_cong [OF eq(1)] by (simp add: accountInv_def)
qed

text \<open>The invariant, read one fact at a time.\<close>

lemma keyRulesD:
  assumes "keyRules d"
  shows "uniqueBy pk_id (db_keys d)" "uniqueBy kr_key (db_key_revocations d)" "'''' \<notin> pk_id ` set (db_keys d)"
    "revokedKeys d \<subseteq> pk_id ` set (db_keys d)"
    "v \<in> set (db_key_revocations d) \<Longrightarrow> \<exists>k \<in> set (db_keys d). kr_successor v = Some (pk_id k) \<and> pk_predecessor k = Some (kr_key v)"
    "k \<in> set (db_keys d) \<Longrightarrow> pk_predecessor k = Some p \<Longrightarrow>
      \<exists>v \<in> set (db_key_revocations d). kr_key v = p \<and> kr_successor v = Some (pk_id k)"
  using assms unfolding keyRules_def by blast+

lemma inviteRulesD:
  assumes "inviteRules d"
  shows "uniqueBy iv_id (db_invites d)" "uniqueBy iv_token (db_invites d)"
    "v \<in> set (db_invites d) \<Longrightarrow> (iv_claimed_at v = None) = (iv_claimed_by v = None)"
    "v \<in> set (db_invites d) \<Longrightarrow> iv_claimed_by v = Some u \<Longrightarrow> iv_revoked_at v = None"
    "v \<in> set (db_invites d) \<Longrightarrow> iv_claimed_by v = Some u \<Longrightarrow>
      \<exists>r \<in> set (db_users d). u_id r = u \<and> u_invite r = Some (iv_id v)"
    "r \<in> set (db_users d) \<Longrightarrow> u_invite r = Some i \<Longrightarrow>
      \<exists>v \<in> set (db_invites d). iv_id v = i \<and> iv_claimed_by v = Some (u_id r)"
  using assms unfolding inviteRules_def by blast+

lemma accountInvD:
  assumes "accountInv E d"
  shows "keyRules d" "userRules d" "inviteRules d" "nameRules E d" "ownersKnown d"
  using assms by (simp_all add: accountInv_def)

lemma ownersKnownD:
  assumes "ownersKnown d"
  shows "k \<in> set (db_keys d) \<Longrightarrow> pk_owner k = Some u \<Longrightarrow> u \<in> set (db_identities d)"
    "r \<in> set (db_users d) \<Longrightarrow> u_id r \<in> set (db_identities d)"
  using assms unfolding ownersKnown_def by blast+

lemma userRulesD:
  assumes "userRules d"
  shows "uniqueBy u_id (db_users d)"
    "r \<in> set (db_users d) \<Longrightarrow> activeKeyOf d r"
  using assms unfolding userRules_def by blast+

lemma nameRulesD:
  assumes "nameRules E d"
  shows "r \<in> set (db_users d) \<Longrightarrow> s \<in> set (db_users d) \<Longrightarrow> u_username r = Some n \<Longrightarrow> u_username s = Some m \<Longrightarrow>
      e_lower E n = e_lower E m \<Longrightarrow> u_id r = u_id s"
    "r \<in> set (db_users d) \<Longrightarrow> u_username r = Some n \<Longrightarrow> nameAllowed E (u_id r) n"
  using assms unfolding nameRules_def by blast+

text \<open>
  An update of user rows that keeps ids and invites, and at most drops names; and one that keeps the
  keys as well.
\<close>

definition namesKept :: "usersRow \<Rightarrow> usersRow \<Rightarrow> bool" where
  "namesKept r s \<longleftrightarrow> u_id s = u_id r \<and> u_invite s = u_invite r \<and>
     (u_username s = u_username r \<or> u_username s = None)"

definition sameInvite :: "usersRow \<Rightarrow> usersRow \<Rightarrow> bool" where
  "sameInvite r s \<longleftrightarrow> u_id s = u_id r \<and> u_invite s = u_invite r"

definition profileOnly :: "usersRow \<Rightarrow> usersRow \<Rightarrow> bool" where
  "profileOnly r s \<longleftrightarrow> namesKept r s \<and> u_active_key s = u_active_key r"

lemma list_all2_updWhere: "(\<And>r. Q r r) \<Longrightarrow> (\<And>r. p r \<Longrightarrow> Q r (f r)) \<Longrightarrow> list_all2 Q t (updWhere p f t)"
  by (induction t) auto

lemma list_all2_past: "list_all2 Q xs ys \<Longrightarrow> y \<in> set ys \<Longrightarrow> \<exists>x \<in> set xs. Q x y"
  by (induction rule: list_all2_induct) auto

lemma list_all2_next: "list_all2 Q xs ys \<Longrightarrow> x \<in> set xs \<Longrightarrow> \<exists>y \<in> set ys. Q x y"
  by (induction rule: list_all2_induct) auto

lemma namesKept_refl [simp]: "namesKept r r"
  by (simp add: namesKept_def)

lemma profileOnly_refl [simp]: "profileOnly r r"
  by (simp add: profileOnly_def)

lemma inviteRules_users:
  assumes inv: "inviteRules d" and rows: "list_all2 sameInvite (db_users d) (db_users d')"
    and same: "db_invites d' = db_invites d"
  shows "inviteRules d'"
  unfolding inviteRules_def same
proof (intro conjI ballI allI impI)
  show "uniqueBy iv_id (db_invites d)" "uniqueBy iv_token (db_invites d)" using inviteRulesD(1,2) [OF inv] .
  fix v assume v: "v \<in> set (db_invites d)"
  show "(iv_claimed_at v = None) = (iv_claimed_by v = None)" using inviteRulesD(3) [OF inv v] .
  fix u assume u: "iv_claimed_by v = Some u"
  show "iv_revoked_at v = None" using inviteRulesD(4) [OF inv v u] .
  obtain r where r: "r \<in> set (db_users d)" "u_id r = u" "u_invite r = Some (iv_id v)"
    using inviteRulesD(5) [OF inv v u] by blast
  obtain s where "s \<in> set (db_users d')" "sameInvite r s" using list_all2_next [OF rows r(1)] by blast
  then show "\<exists>r \<in> set (db_users d'). u_id r = u \<and> u_invite r = Some (iv_id v)"
    using r by (intro bexI [of _ s]) (simp_all add: sameInvite_def)
next
  fix s i assume s: "s \<in> set (db_users d')" and i: "u_invite s = Some i"
  obtain r where r: "r \<in> set (db_users d)" "sameInvite r s" using list_all2_past [OF rows s] by blast
  then have "u_invite r = Some i" "u_id r = u_id s" using i by (simp_all add: sameInvite_def)
  then show "\<exists>v \<in> set (db_invites d). iv_id v = i \<and> iv_claimed_by v = Some (u_id s)"
    using inviteRulesD(6) [OF inv r(1)] by simp
qed

lemma sameInvite_names: "list_all2 namesKept t u \<Longrightarrow> list_all2 sameInvite t u"
  by (simp add: list_all2_conv_all_nth namesKept_def sameInvite_def)

lemma nameRules_users:
  assumes inv: "nameRules E d" and rows: "list_all2 namesKept (db_users d) (db_users d')"
  shows "nameRules E d'"
  unfolding nameRules_def
proof (intro conjI ballI allI impI)
  have past: "\<exists>r0 \<in> set (db_users d). u_username r0 = Some n \<and> u_id r0 = u_id r"
    if rd: "r \<in> set (db_users d')" "u_username r = Some n" for r n
  proof -
    obtain r0 where "r0 \<in> set (db_users d)" "namesKept r0 r" using list_all2_past [OF rows rd(1)] by blast
    then show ?thesis using rd(2) by (intro bexI [of _ r0]) (auto simp: namesKept_def)
  qed
  fix r s n m
  assume r: "r \<in> set (db_users d')" "u_username r = Some n" and s: "s \<in> set (db_users d')" "u_username s = Some m"
    and e: "e_lower E n = e_lower E m"
  show "u_id r = u_id s" using past [OF r] past [OF s] nameRulesD(1) [OF inv] e by metis
next
  fix r n assume r: "r \<in> set (db_users d')" "u_username r = Some n"
  obtain r0 where r0: "r0 \<in> set (db_users d)" "namesKept r0 r" using list_all2_past [OF rows r(1)] by blast
  then have "u_username r0 = Some n" "u_id r0 = u_id r" using r(2) by (auto simp: namesKept_def)
  then show "nameAllowed E (u_id r) n" using nameRulesD(2) [OF inv r0(1)] by simp
qed

lemma set_updUser: "set (db_users (updUser u f d)) = {r \<in> set (db_users d). u_id r \<noteq> u} \<union> f ` {r \<in> set (db_users d). u_id r = u}"
  by (auto simp: updUser_def set_updWhere)

lemma updUser_rows: "db_users (updUser u f d) = updWhere (\<lambda>r. u_id r = u) f (db_users d)"
  by (simp add: updUser_def)

lemma updUser_others [simp]:
  "db_keys (updUser u f d) = db_keys d" "db_key_revocations (updUser u f d) = db_key_revocations d"
  "db_invites (updUser u f d) = db_invites d" "db_identities (updUser u f d) = db_identities d"
  "db_permissions (updUser u f d) = db_permissions d" "db_username_collisions (updUser u f d) = db_username_collisions d"
  "db_ledger (updUser u f d) = db_ledger d" "db_devices (updUser u f d) = db_devices d"
  by (simp_all add: updUser_def)

lemma accountInv_users:
  assumes inv: "accountInv E d" and rows: "list_all2 profileOnly (db_users d) (db_users d')"
    and rest: "db_keys d' = db_keys d" "db_key_revocations d' = db_key_revocations d" "db_invites d' = db_invites d"
      "db_identities d' = db_identities d"
  shows "accountInv E d'"
proof -
  have ids: "map u_id (db_users d') = map u_id (db_users d)"
    using rows by (induction rule: list_all2_induct) (auto simp: profileOnly_def namesKept_def)
  then have idset: "u_id ` set (db_users d') = u_id ` set (db_users d)" by (metis list.set_map)
  have names: "list_all2 namesKept (db_users d) (db_users d')"
    using rows by (rule list_all2_mono) (simp add: profileOnly_def)
  have "keyRules d'" using accountInvD(1) [OF inv] keyRules_cong [OF rest(1,2)] by simp
  moreover have "ownersKnown d'"
    by (rule ownersKnown_mono [OF accountInvD(5) [OF inv]]) (simp_all add: rest idset)
  moreover have "activeKeyOf d' s" if s: "s \<in> set (db_users d')" for s
  proof -
    obtain r where r: "r \<in> set (db_users d)" and p: "profileOnly r s" using list_all2_past [OF rows s] by blast
    have "activeKeyOf d' r = activeKeyOf d r" by (rule activeKeyOf_cong) (simp_all add: rest)
    then show ?thesis
      using p userRulesD(2) [OF accountInvD(2) [OF inv] r] by (simp add: activeKeyOf_def profileOnly_def namesKept_def)
  qed
  then have "userRules d'" using accountInvD(2) [OF inv] ids by (simp add: userRules_def)
  moreover have "inviteRules d'" using accountInvD(3) [OF inv] sameInvite_names [OF names] rest(3) by (rule inviteRules_users)
  moreover have "nameRules E d'" using accountInvD(4) [OF inv] names by (rule nameRules_users)
  ultimately show ?thesis by (simp add: accountInv_def)
qed

lemma accountInv_updUser:
  assumes "accountInv E d" and "\<And>r. profileOnly r (f r)"
  shows "accountInv E (updUser u f d)"
  using assms(1) by (rule accountInv_users) (simp_all add: updUser_def list_all2_updWhere assms(2))

text \<open>Revoking open invites.\<close>

lemma accountInv_invites:
  assumes inv: "accountInv E d" and p: "\<And>v. p v \<Longrightarrow> iv_claimed_at v = None"
  shows "accountInv E (d\<lparr>db_invites := updWhere p (\<lambda>v. v\<lparr>iv_revoked_at := Some now\<rparr>) (db_invites d)\<rparr>)"
proof -
  let ?t = "updWhere p (\<lambda>v. v\<lparr>iv_revoked_at := Some now\<rparr>) (db_invites d)"
  have ids: "map iv_id ?t = map iv_id (db_invites d)" "map iv_token ?t = map iv_token (db_invites d)"
    by (simp_all add: map_updWhere)
  have "inviteRules (d\<lparr>db_invites := ?t\<rparr>)"
    unfolding inviteRules_def
  proof (intro conjI ballI allI impI)
    show "uniqueBy iv_id (db_invites (d\<lparr>db_invites := ?t\<rparr>))" "uniqueBy iv_token (db_invites (d\<lparr>db_invites := ?t\<rparr>))"
      using inv ids by (simp_all add: accountInv_def inviteRules_def)
    fix v assume v: "v \<in> set (db_invites (d\<lparr>db_invites := ?t\<rparr>))"
    then obtain w where w: "w \<in> set (db_invites d)" and vw: "v = (if p w then w\<lparr>iv_revoked_at := Some now\<rparr> else w)"
      by (auto simp: set_updWhere)
    have ok: "(iv_claimed_at w = None) = (iv_claimed_by w = None)"
      using inv w by (simp add: accountInv_def inviteRules_def)
    show "(iv_claimed_at v = None) = (iv_claimed_by v = None)" using ok vw by simp
    fix u assume "iv_claimed_by v = Some u"
    then have cl: "iv_claimed_by w = Some u" "\<not> p w" using vw ok p [of w] by (auto split: if_splits)
    then show "iv_revoked_at v = None" using inv w vw by (simp add: accountInv_def inviteRules_def)
    show "\<exists>r \<in> set (db_users (d\<lparr>db_invites := ?t\<rparr>)). u_id r = u \<and> u_invite r = Some (iv_id v)"
      using inv w cl vw by (auto simp: accountInv_def inviteRules_def)
  next
    fix r i assume "r \<in> set (db_users (d\<lparr>db_invites := ?t\<rparr>))" "u_invite r = Some i"
    then have "r \<in> set (db_users d)" "u_invite r = Some i" by simp_all
    then obtain w where w: "w \<in> set (db_invites d)" "iv_id w = i" "iv_claimed_by w = Some (u_id r)"
      using inviteRulesD(6) [OF accountInvD(3) [OF inv]] by blast
    then have "(iv_claimed_at w = None) = (iv_claimed_by w = None)"
      using inv by (simp add: accountInv_def inviteRules_def)
    then have "\<not> p w" using w(3) p [of w] by auto
    then have "w \<in> set (db_invites (d\<lparr>db_invites := ?t\<rparr>))" using w(1) by (simp add: set_updWhere)
    then show "\<exists>v \<in> set (db_invites (d\<lparr>db_invites := ?t\<rparr>)). iv_id v = i \<and> iv_claimed_by v = Some (u_id r)"
      using w by blast
  qed
  moreover have "keyRules (d\<lparr>db_invites := ?t\<rparr>) = keyRules d" by (rule keyRules_cong) simp_all
  moreover have "userRules (d\<lparr>db_invites := ?t\<rparr>) = userRules d" by (rule userRules_cong) simp_all
  moreover have "nameRules E (d\<lparr>db_invites := ?t\<rparr>) = nameRules E d" by (rule nameRules_cong) simp
  moreover have "ownersKnown (d\<lparr>db_invites := ?t\<rparr>) = ownersKnown d" by (simp add: ownersKnown_def)
  ultimately show ?thesis using inv by (simp add: accountInv_def)
qed

lemma accountInv_revokeInvites: "accountInv E d \<Longrightarrow> accountInv E (revokeInvites p u now d)"
  unfolding revokeInvites_def by (rule accountInv_invites) simp_all

subsection \<open>New rows\<close>

lemma accountInv_newInvite:
  assumes inv: "accountInv E d" and new: "i \<notin> iv_id ` set (db_invites d)" "h \<notin> iv_token ` set (db_invites d)"
  shows "accountInv E (d\<lparr>db_invites := db_invites d @ [newInvite i u h t role sig ss perms]\<rparr>)"
proof -
  let ?e = "d\<lparr>db_invites := db_invites d @ [newInvite i u h t role sig ss perms]\<rparr>"
  have "inviteRules ?e"
    unfolding inviteRules_def
  proof (intro conjI ballI allI impI)
    show "uniqueBy iv_id (db_invites ?e)" "uniqueBy iv_token (db_invites ?e)"
      using inviteRulesD(1,2) [OF accountInvD(3) [OF inv]] new by simp_all
    fix v assume "v \<in> set (db_invites ?e)"
    then have v: "v \<in> set (db_invites d) \<or> iv_claimed_at v = None \<and> iv_claimed_by v = None" by auto
    then show "(iv_claimed_at v = None) = (iv_claimed_by v = None)"
      using inviteRulesD(3) [OF accountInvD(3) [OF inv]] by blast
    fix w assume "iv_claimed_by v = Some w"
    then show "iv_revoked_at v = None" "\<exists>r \<in> set (db_users ?e). u_id r = w \<and> u_invite r = Some (iv_id v)"
      using v inviteRulesD(4,5) [OF accountInvD(3) [OF inv], of v w] by auto
  next
    fix r j assume "r \<in> set (db_users ?e)" "u_invite r = Some j"
    then show "\<exists>v \<in> set (db_invites ?e). iv_id v = j \<and> iv_claimed_by v = Some (u_id r)"
      using inviteRulesD(6) [OF accountInvD(3) [OF inv], of r j] by auto
  qed
  moreover have "keyRules ?e = keyRules d" by (rule keyRules_cong) simp_all
  moreover have "userRules ?e = userRules d" by (rule userRules_cong) simp_all
  moreover have "nameRules E ?e = nameRules E d" by (rule nameRules_cong) simp
  moreover have "ownersKnown ?e = ownersKnown d" by (simp add: ownersKnown_def)
  ultimately show ?thesis using inv by (simp add: accountInv_def)
qed

lemma activeKeyOfD:
  assumes "activeKeyOf d r"
  shows "CHR ''/'' \<notin> set (u_id r)" "\<exists>f. u_active_key r = Some (appendEntity (u_id r) f) \<and> CHR ''/'' \<notin> set f"
    "\<exists>k \<in> set (db_keys d). u_active_key r = Some (pk_id k) \<and> pk_owner k = Some (u_id r) \<and> pk_id k \<notin> revokedKeys d"
    "k \<in> set (db_keys d) \<Longrightarrow> pk_owner k = Some (u_id r) \<Longrightarrow> pk_id k \<notin> revokedKeys d \<Longrightarrow> u_active_key r = Some (pk_id k)"
  using assms unfolding activeKeyOf_def by blast+

text \<open>A key that takes the place of another, which is revoked for it.\<close>

lemma keyRules_successor:
  assumes rules: "keyRules d" and k: "pk_id k \<notin> pk_id ` set (db_keys d)" "pk_id k \<noteq> ''''"
    and p: "pk_predecessor k = Some (kr_key v)" "kr_successor v = Some (pk_id k)" "kr_key v \<notin> revokedKeys d"
      "kr_key v \<in> pk_id ` set (db_keys d)"
    and d': "db_keys d' = db_keys d @ [k]" "db_key_revocations d' = db_key_revocations d @ [v]"
  shows "keyRules d'"
  unfolding keyRules_def
proof (intro conjI ballI allI impI)
  show "uniqueBy pk_id (db_keys d')" using keyRulesD(1) [OF rules] k by (simp add: d')
  show "uniqueBy kr_key (db_key_revocations d')" using keyRulesD(2) [OF rules] p(3) by (simp add: d' revokedKeys_def)
  show "'''' \<notin> pk_id ` set (db_keys d')" using keyRulesD(3) [OF rules] k(2) by (simp add: d')
  show "revokedKeys d' \<subseteq> pk_id ` set (db_keys d')" using keyRulesD(4) [OF rules] p(4) by (auto simp: d' revokedKeys_def)
  fix w assume "w \<in> set (db_key_revocations d')"
  then consider "w = v" | "w \<in> set (db_key_revocations d)" by (auto simp: d')
  then show "\<exists>k \<in> set (db_keys d'). kr_successor w = Some (pk_id k) \<and> pk_predecessor k = Some (kr_key w)"
    by cases (use p keyRulesD(5) [OF rules, of w] in \<open>auto simp: d'\<close>)
next
  fix c q assume c: "c \<in> set (db_keys d')" and q: "pk_predecessor c = Some q"
  from c consider "c = k" | "c \<in> set (db_keys d)" by (auto simp: d')
  then show "\<exists>w \<in> set (db_key_revocations d'). kr_key w = q \<and> kr_successor w = Some (pk_id c)"
    by cases (use p q keyRulesD(6) [OF rules, of c q] in \<open>auto simp: d'\<close>)
qed

lemma accountInv_successor:
  assumes inv: "accountInv E d" and k: "pk_id k \<notin> pk_id ` set (db_keys d)" "pk_id k = appendEntity u f"
      "CHR ''/'' \<notin> set f" "pk_owner k = Some u" "u \<in> set (db_identities d)"
    and p: "pk_predecessor k = Some (kr_key v)" "kr_successor v = Some (pk_id k)" "kr_key v \<notin> revokedKeys d"
      "kr_key v \<in> pk_id ` set (db_keys d)"
    and users: "\<And>r. r \<in> set (db_users d) \<Longrightarrow> u_active_key r = Some (kr_key v) \<longleftrightarrow> u_id r = u"
    and d': "db_keys d' = db_keys d @ [k]" "db_key_revocations d' = db_key_revocations d @ [v]"
      "db_users d' = updWhere (\<lambda>r. u_id r = u) (\<lambda>r. r\<lparr>u_active_key := Some (pk_id k)\<rparr>) (db_users d)"
      "db_invites d' = db_invites d" "db_identities d' = db_identities d"
  shows "accountInv E d'"
proof -
  have "keyRules d'"
    by (rule keyRules_successor [OF accountInvD(1) [OF inv] k(1) _ p d'(1,2)]) (simp add: k(2) appendEntity_def)
  moreover have rev: "revokedKeys d' = insert (kr_key v) (revokedKeys d)" by (simp add: revokedKeys_def d')
  have kn: "pk_id k \<notin> revokedKeys d'" using keyRulesD(4) [OF accountInvD(1) [OF inv]] k(1) p(4) rev by auto
  have rows: "\<exists>r0 \<in> set (db_users d). r = (if u_id r0 = u then r0\<lparr>u_active_key := Some (pk_id k)\<rparr> else r0)"
    if "r \<in> set (db_users d')" for r
    using that by (auto simp: d' set_updWhere)
  have act: "activeKeyOf d' r" if rd: "r \<in> set (db_users d')" for r
  proof -
    obtain r0 where r0: "r0 \<in> set (db_users d)" and r: "r = (if u_id r0 = u then r0\<lparr>u_active_key := Some (pk_id k)\<rparr> else r0)"
      using rows [OF rd] by blast
    note a = activeKeyOfD [OF userRulesD(2) [OF accountInvD(2) [OF inv] r0]]
    show ?thesis
    proof (cases "u_id r0 = u")
      case True
      have only: "c = k" if c: "c \<in> set (db_keys d')" "pk_owner c = Some u" "pk_id c \<notin> revokedKeys d'" for c
      proof (rule ccontr)
        assume "c \<noteq> k"
        then have "c \<in> set (db_keys d)" "pk_id c \<notin> revokedKeys d" "pk_id c \<noteq> kr_key v" using c rev by (auto simp: d')
        then show False using a(4) [of c] users [OF r0] True c(2) by auto
      qed
      have r': "u_id r = u" "u_active_key r = Some (pk_id k)" using r True by simp_all
      have "k \<in> set (db_keys d')" by (simp add: d')
      then show ?thesis
        unfolding activeKeyOf_def r' using only a(1) True k(2-4) kn by blast
    next
      case False
      then have r: "r = r0" and np: "u_active_key r0 \<noteq> Some (kr_key v)" using r users [OF r0] by simp_all
      show ?thesis
        unfolding activeKeyOf_def r
      proof (intro conjI ballI impI)
        show "CHR ''/'' \<notin> set (u_id r0)" "\<exists>f. u_active_key r0 = Some (appendEntity (u_id r0) f) \<and> CHR ''/'' \<notin> set f"
          by (rule a(1,2))+
        obtain c where "c \<in> set (db_keys d)" "u_active_key r0 = Some (pk_id c)" "pk_owner c = Some (u_id r0)" "pk_id c \<notin> revokedKeys d"
          using a(3) by blast
        then have "c \<in> set (db_keys d') \<and> u_active_key r0 = Some (pk_id c) \<and> pk_owner c = Some (u_id r0) \<and> pk_id c \<notin> revokedKeys d'"
          using np rev d'(1) by auto
        then show "\<exists>c \<in> set (db_keys d'). u_active_key r0 = Some (pk_id c) \<and> pk_owner c = Some (u_id r0) \<and> pk_id c \<notin> revokedKeys d'"
          by blast
        fix c assume c: "c \<in> set (db_keys d')" "pk_owner c = Some (u_id r0)" "pk_id c \<notin> revokedKeys d'"
        have "c \<noteq> k" using c(2) False k(4) by force
        then have "c \<in> set (db_keys d)" "pk_id c \<notin> revokedKeys d" using c(1,3) rev d'(1) by simp_all
        then show "u_active_key r0 = Some (pk_id c)" using a(4) c(2) by blast
      qed
    qed
  qed
  have ids: "map u_id (db_users d') = map u_id (db_users d)" by (simp add: d' map_updWhere)
  then have "userRules d'" using userRulesD(1) [OF accountInvD(2) [OF inv]] act by (simp add: userRules_def)
  moreover have "ownersKnown d'"
    using accountInvD(5) [OF inv] k(4,5) ids unfolding ownersKnown_def by (auto simp: d' set_updWhere)
  moreover have names: "list_all2 namesKept (db_users d) (db_users d')"
    unfolding d'(3) by (rule list_all2_updWhere) (simp_all add: namesKept_def)
  have "inviteRules d'" using accountInvD(3) [OF inv] sameInvite_names [OF names] d'(4) by (rule inviteRules_users)
  moreover have "nameRules E d'" using accountInvD(4) [OF inv] names by (rule nameRules_users)
  ultimately show ?thesis by (simp add: accountInv_def)
qed

subsection \<open>Admin requests\<close>

definition hexFingerprints :: "env \<Rightarrow> bool" where
  "hexFingerprints E \<longleftrightarrow> (\<forall>a f. e_extract_fingerprint E a = Some f \<longrightarrow> CHR ''/'' \<notin> set f)"

lemma enqueue_same: "sameAccounts d (enqueuePeerEventTx k s d)"
  using arg_cong [OF enqueuePeerEventTx_frame, of db_users] arg_cong [OF enqueuePeerEventTx_frame, of db_keys]
    arg_cong [OF enqueuePeerEventTx_frame, of db_key_revocations] arg_cong [OF enqueuePeerEventTx_frame, of db_invites]
    arg_cong [OF enqueuePeerEventTx_frame, of db_identities]
  by (simp add: sameAccounts_def)

lemma enqueue_fields [simp]:
  "db_keys (enqueuePeerEventTx k s d) = db_keys d" "db_invites (enqueuePeerEventTx k s d) = db_invites d"
  "db_key_revocations (enqueuePeerEventTx k s d) = db_key_revocations d"
  "db_identities (enqueuePeerEventTx k s d) = db_identities d"
  "db_permissions (enqueuePeerEventTx k s d) = db_permissions d"
  using arg_cong [OF enqueuePeerEventTx_frame, of db_keys] arg_cong [OF enqueuePeerEventTx_frame, of db_invites]
    arg_cong [OF enqueuePeerEventTx_frame, of db_key_revocations] arg_cong [OF enqueuePeerEventTx_frame, of db_identities]
    arg_cong [OF enqueuePeerEventTx_frame, of db_permissions]
  by simp_all

lemma accountInv_recountersign:
  assumes "recountersignProfileTx E now u role perms d = Inr d'" and inv: "accountInv E0 d"
  shows "accountInv E0 d'"
proof -
  obtain sig where d': "d' = (updUser u (\<lambda>r. r\<lparr>u_role := role, u_server_sig := Some sig\<rparr>) d)\<lparr>db_permissions :=
      filter (\<lambda>(v, p). v \<noteq> u) (db_permissions d) @ map (\<lambda>p. (u, p)) perms\<rparr>"
    using assms(1) by (rule recountersignProfileTx_Inr) blast
  have "accountInv E0 (updUser u (\<lambda>r. r\<lparr>u_role := role, u_server_sig := Some sig\<rparr>) d)"
    using inv by (rule accountInv_updUser) (simp add: profileOnly_def namesKept_def)
  then show ?thesis unfolding d' by (rule accountInv_same) (simp add: sameAccounts_def)
qed

lemma accountInv_removal:
  assumes "storeAccountRemovalTx E cert u d = Inr (x, d')" and inv: "accountInv E0 d"
  shows "accountInv E0 d'"
  using assms(1)
proof (cases rule: storeAccountRemovalTx_cases)
  case (2 r)
  let ?e = "removalCore (removalRowOf cert u) u d"
  have "accountInv E0 ?e" by (rule accountInv_same [OF inv]) (simp add: sameAccounts_def)
  then have "accountInv E0 (updUser u clearedRow ?e)"
    by (rule accountInv_updUser) (simp add: profileOnly_def namesKept_def)
  then show ?thesis unfolding 2(4) by (rule accountInv_same) (simp add: sameAccounts_def bumpActiveUsers_def)
qed (simp add: inv)

text \<open>A user's active key is nobody else's.\<close>

lemma active_key_unique:
  assumes "userRules d" "r \<in> set (db_users d)" "s \<in> set (db_users d)" "u_active_key r = Some p" "u_active_key s = Some p"
  shows "u_id r = u_id s"
proof -
  obtain f where f: "p = appendEntity (u_id r) f" "CHR ''/'' \<notin> set f"
    using activeKeyOfD(2) [OF userRulesD(2) [OF assms(1,2)]] assms(4) by auto
  obtain g where g: "p = appendEntity (u_id s) g" "CHR ''/'' \<notin> set g"
    using activeKeyOfD(2) [OF userRulesD(2) [OF assms(1,3)]] assms(5) by auto
  show ?thesis using appendEntity_inj [OF f(2) g(2)] f(1) g(1) by simp
qed

lemma userRow_set: "userRow d u = Some r \<Longrightarrow> r \<in> set (db_users d) \<and> u_id r = u"
  unfolding userRow_def by (rule rowBy_Some)

lemma accountInv_rebind:
  assumes run: "rebindExecute E now req d = Inr d'" and valid: "rebindValidate E d req = None"
    and inv: "accountInv E0 d" and hex: "hexFingerprints E"
  shows "accountInv E0 d'"
proof -
  obtain target r revoked rsig ksig where t: "firstTarget req = Inr target" and r: "userRow d target = Some r"
    and a: "u_active_key r = Some revoked" and nr: "revoked \<notin> kr_key ` set (db_key_revocations d)"
    and nk: "rebindKeyID E req \<notin> pk_id ` set (db_keys d)"
    and d': "d' = revokeInvites (\<lambda>_. True) target (truncateSecond now)
        (updUser target (\<lambda>r. r\<lparr>u_active_key := Some (rebindKeyID E req)\<rparr>)
          ((enqueuePeerEventTx peerEventKeyRevocation revoked d)\<lparr>
              db_key_revocations := db_key_revocations d @ [\<lparr>kr_key = revoked,
                kr_reason = Some keyRevocationReasonLost, kr_user_sig = None,
                kr_request = Some (rq_id req), kr_server_sig = rsig,
                kr_successor = Some (rebindKeyID E req), kr_successor_sig = None\<rparr>],
              db_keys := db_keys d @ [\<lparr>pk_id = rebindKeyID E req, pk_owner = Some target,
                pk_armor = rq_body req, pk_created = truncateSecond now, pk_server_sig = Some ksig,
                pk_predecessor = Some revoked, pk_restricted = True\<rparr>]\<rparr>))"
    using run by (rule rebindExecute_Inr)
  have rd: "r \<in> set (db_users d)" "u_id r = target" using userRow_set [OF r] by simp_all
  have "rebindKeyID E req \<noteq> ''''" using valid t by (auto simp: rebindValidate_def split: if_splits)
  then obtain f where f: "rebindKeyID E req = appendEntity target f" "CHR ''/'' \<notin> set f"
    using t hex by (auto simp: rebindKeyID_def firstTarget_def hexFingerprints_def split: if_splits option.splits list.splits)
  have "revoked \<in> pk_id ` set (db_keys d)"
    using activeKeyOfD(3) [OF userRulesD(2) [OF accountInvD(2) [OF inv] rd(1)]] a by auto
  moreover have "u_active_key s = Some revoked \<longleftrightarrow> u_id s = target" if s: "s \<in> set (db_users d)" for s
  proof
    show "u_active_key s = Some revoked \<Longrightarrow> u_id s = target"
      using active_key_unique [OF accountInvD(2) [OF inv] rd(1) s a] rd(2) by simp
    assume "u_id s = target"
    then have "s = r" using uniqueBy_inj [OF userRulesD(1) [OF accountInvD(2) [OF inv]] s rd(1)] rd(2) by simp
    then show "u_active_key s = Some revoked" using a by simp
  qed
  moreover have "target \<in> set (db_identities d)" using ownersKnownD(2) [OF accountInvD(5) [OF inv] rd(1)] rd(2) by simp
  ultimately show ?thesis
    unfolding d' using nr nk f
    by (intro accountInv_revokeInvites accountInv_successor [OF inv, of "\<lparr>pk_id = rebindKeyID E req, pk_owner = Some target,
                pk_armor = rq_body req, pk_created = truncateSecond now, pk_server_sig = Some ksig,
                pk_predecessor = Some revoked, pk_restricted = True\<rparr>" target f "\<lparr>kr_key = revoked,
                kr_reason = Some keyRevocationReasonLost, kr_user_sig = None,
                kr_request = Some (rq_id req), kr_server_sig = rsig,
                kr_successor = Some (rebindKeyID E req), kr_successor_sig = None\<rparr>"])
      (simp_all add: revokedKeys_def updUser_def)
qed

lemma accountInv_executor:
  assumes ex: "adminExecutorFor E now a = Some ex" and valid: "ax_validate ex d req = None"
    and run: "ax_execute ex req d = Inr d'" and inv: "accountInv E0 d" and hex: "hexFingerprints E"
  shows "accountInv E0 d'"
proof -
  have loop: "accountInv E0 d'" if "forEach f ts d = Inr d'"
    "\<And>t d d'. accountInv E0 d \<Longrightarrow> f t d = Inr d' \<Longrightarrow> accountInv E0 d'" for f :: "string \<Rightarrow> db \<Rightarrow> err + db" and ts
    using that(1) inv by (rule forEach_inv) (rule that(2))
  have kick: "accountInv E0 e'" if "accountInv E0 e" "kickTarget E now req t e = Inr e'" for t e e'
    using that by (auto simp: kickTarget_def Let_def bindR_Inr intro!: accountInv_revokeInvites intro: accountInv_removal)
  have rebind: "accountInv E0 d'" if "rebindExecute E now req d = Inr d'" "rebindValidate E d req = None"
    using that inv hex by (rule accountInv_rebind)
  have susp: "accountInv E0 (updUser t (\<lambda>r. r\<lparr>u_suspended := x\<rparr>) e)" if "accountInv E0 e" for t e x
    using that by (rule accountInv_updUser) (simp add: profileOnly_def namesKept_def)
  show ?thesis
    using ex valid run inv
    by (auto simp: adminExecutorFor_def executor_defs bindR_Inr
        split: if_splits sum.splits
        intro: loop kick rebind susp accountInv_recountersign accountInv_revokeInvites [OF accountInv_recountersign])
qed

subsection \<open>Rotation\<close>

text \<open>Under the invariant, what a rotation stores: the predecessor was in use and gets its one successor.\<close>

lemma revokePredecessor_Inr:
  assumes "revokePredecessor now ak d = Inr (x, d1)" and rules: "keyRules d"
  obtains k ss v where "k \<in> set (db_keys d)" "pk_id k = ak_predecessor ak" "pk_server_sig k = Some ss"
    "keyRotationCooldown \<le> timeSub now (ss_at ss) \<or> pk_restricted k" "ak_predecessor ak \<notin> revokedKeys d"
    "kr_key v = ak_predecessor ak" "kr_reason v = Some (ak_reason ak)"
    "kr_user_sig v = Some \<lparr>us_id = ak_predecessor ak, us_armor = ak_revocation_sig ak\<rparr>"
    "d1 = enqueuePeerEventTx peerEventKeyRevocation (ak_predecessor ak)
       (d\<lparr>db_key_revocations := db_key_revocations d @ [v]\<rparr>)"
proof -
  obtain k ss where k: "rowBy pk_id (ak_predecessor ak) (db_keys d) = Some k" "pk_server_sig k = Some ss"
    and c: "\<not> (0 < keyRotationCooldown - timeSub now (ss_at ss) \<and> \<not> pk_restricted k)"
    using assms(1) by (auto simp: revokePredecessor_def split: option.splits if_splits)
  have none: "rowBy kr_key (ak_predecessor ak) (db_key_revocations d) = None"
  proof (rule ccontr)
    assume "rowBy kr_key (ak_predecessor ak) (db_key_revocations d) \<noteq> None"
    then obtain v where v: "rowBy kr_key (ak_predecessor ak) (db_key_revocations d) = Some v" by blast
    then obtain k' where "k' \<in> set (db_keys d)" "kr_successor v = Some (pk_id k')"
      using keyRulesD(5) [OF rules] rowBy_Some [OF v] by blast
    moreover from this have "pk_id k' \<noteq> ''''" using keyRulesD(3) [OF rules] by force
    ultimately show False using assms(1) k c v by (simp add: revokePredecessor_def split: if_splits)
  qed
  show ?thesis
  proof (rule that)
    show "k \<in> set (db_keys d)" "pk_id k = ak_predecessor ak" using rowBy_Some [OF k(1)] by simp_all
    show "ak_predecessor ak \<notin> revokedKeys d" using none by (simp add: rowBy_None revokedKeys_def)
    show "keyRotationCooldown \<le> timeSub now (ss_at ss) \<or> pk_restricted k" using c by linarith
    show "d1 = enqueuePeerEventTx peerEventKeyRevocation (ak_predecessor ak)
       (d\<lparr>db_key_revocations := db_key_revocations d @ [\<lparr>kr_key = ak_predecessor ak, kr_reason = Some (ak_reason ak),
          kr_user_sig = Some \<lparr>us_id = ak_predecessor ak, us_armor = ak_revocation_sig ak\<rparr>,
          kr_request = None, kr_server_sig = ak_revocation_server_sig ak, kr_successor = None,
          kr_successor_sig = None\<rparr>]\<rparr>)"
      using assms(1) k none c by (simp add: revokePredecessor_def split: if_splits)
  qed (simp_all add: k)
qed

text \<open>The key the route builds, and the signatures it has checked.\<close>

lemma prepareAddKey_Inr:
  assumes "prepareAddKey E now msg d = Inr ak"
  shows "\<exists>k bare old. getPublicKey d (ak_predecessor ak) = Some k \<and> ak_predecessor ak = appendEntity (ak_user ak) old \<and>
    e_extract_fingerprint E (ak_armor ak) = Some bare \<and> ak_id ak = appendEntity (ak_user ak) bare \<and>
    e_verify E (ak_armor ak) (ak_handoff ak) (key_armor k) \<and>
    e_verify E (buildUserRevocationPayload (e_jcs E) (ak_user ak) (ak_predecessor ak) (ak_reason ak))
      (ak_revocation_sig ak) (key_armor k) \<and> ak_handoff ak \<noteq> '''' \<and> ak_user ak \<noteq> ''''"
proof -
  obtain m where m: "msg = Some m" using assms by (cases msg) (simp_all add: prepareAddKey_def)
  let ?old = "appendEntity (trimSpace (km_user_id m)) (trimSpace (km_revoked_key_fingerprint m))"
  obtain k where k: "getPublicKey d ?old = Some k"
    using assms m by (cases "getPublicKey d ?old") (simp_all add: prepareAddKey_def Let_def split: if_splits)
  obtain bare where b: "e_extract_fingerprint E (trimSpace (km_public_key m)) = Some bare"
    using assms m k by (cases "e_extract_fingerprint E (trimSpace (km_public_key m))")
      (simp_all add: prepareAddKey_def Let_def split: if_splits)
  show ?thesis
    using assms m k b by (auto simp: prepareAddKey_def Let_def split: if_splits sum.splits)
qed

text \<open>What a rotation leaves in the tables.\<close>

definition rotatedKey :: "addKeyInput \<Rightarrow> keyRow" where
  "rotatedKey ak = \<lparr>pk_id = ak_id ak, pk_owner = Some (ak_user ak), pk_armor = ak_armor ak,
     pk_created = ak_created ak, pk_server_sig = Some (ak_server_sig ak),
     pk_predecessor = Some (ak_predecessor ak), pk_restricted = False\<rparr>"

lemma addPublicKeyTx_rotates:
  assumes run: "addPublicKeyTx now ak d = Inr (x, d')" and rules: "keyRules d"
  obtains k ss v where "k \<in> set (db_keys d)" "pk_id k = ak_predecessor ak" "pk_server_sig k = Some ss"
    "keyRotationCooldown \<le> timeSub now (ss_at ss) \<or> pk_restricted k" "ak_predecessor ak \<notin> revokedKeys d"
    "kr_key v = ak_predecessor ak" "kr_successor v = Some (ak_id ak)"
    "kr_user_sig v = Some \<lparr>us_id = ak_predecessor ak, us_armor = ak_revocation_sig ak\<rparr>"
    "kr_reason v = Some (ak_reason ak)"
    "db_keys d' = db_keys d @ [rotatedKey ak]" "db_key_revocations d' = db_key_revocations d @ [v]"
    "db_users d' = db_users (updUser (ak_user ak) (\<lambda>r. r\<lparr>u_active_key := Some (ak_id ak)\<rparr>) d)"
    "db_invites d' = db_invites d" "db_identities d' = db_identities d"
    "\<And>c. c \<in> set (db_keys d) \<Longrightarrow> pk_owner c = Some (ak_user ak) \<Longrightarrow> pk_id c \<notin> revokedKeys d \<Longrightarrow>
       pk_id c = ak_predecessor ak"
proof -
  obtain d1 where rp: "revokePredecessor now ak d = Inr ((), d1)" and na: "\<not> hasActiveKey d1 (ak_user ak)"
    and d': "d' = storeSuccessor ak d1"
    using run by (auto simp: addPublicKeyTx_def bindR_Inr split: if_splits)
  obtain k ss v where k: "k \<in> set (db_keys d)" "pk_id k = ak_predecessor ak" "pk_server_sig k = Some ss"
      "keyRotationCooldown \<le> timeSub now (ss_at ss) \<or> pk_restricted k"
    and nr: "ak_predecessor ak \<notin> revokedKeys d"
    and v: "kr_key v = ak_predecessor ak" "kr_reason v = Some (ak_reason ak)"
      "kr_user_sig v = Some \<lparr>us_id = ak_predecessor ak, us_armor = ak_revocation_sig ak\<rparr>"
    and d1: "d1 = enqueuePeerEventTx peerEventKeyRevocation (ak_predecessor ak)
       (d\<lparr>db_key_revocations := db_key_revocations d @ [v]\<rparr>)"
    using revokePredecessor_Inr [OF rp rules] by metis
  let ?v = "v\<lparr>kr_successor := Some (ak_id ak), kr_successor_sig := (if ak_handoff ak = '''' then None
             else Some \<lparr>us_id = ak_predecessor ak, us_armor = ak_handoff ak\<rparr>)\<rparr>"
  have others: "\<And>w. w \<in> set (db_key_revocations d) \<Longrightarrow> kr_key w \<noteq> ak_predecessor ak"
    using nr by (metis image_eqI revokedKeys_def)
  have "db_key_revocations d' = db_key_revocations d @ [?v]"
  proof -
    have "updWhere (\<lambda>w. kr_key w = ak_predecessor ak) f (db_key_revocations d) = db_key_revocations d" for f
      using others by (rule updWhere_none)
    then show ?thesis using v(1) by (simp add: d' storeSuccessor_def d1 updWhere_def)
  qed
  moreover have "db_keys d' = db_keys d @ [rotatedKey ak]"
    by (simp add: d' storeSuccessor_def d1 rotatedKey_def)
  moreover have "db_users d' = db_users (updUser (ak_user ak) (\<lambda>r. r\<lparr>u_active_key := Some (ak_id ak)\<rparr>) d)"
    "db_invites d' = db_invites d" "db_identities d' = db_identities d"
    by (simp_all add: d' storeSuccessor_def d1 updUser_def enqueue_same [unfolded sameAccounts_def])
  moreover have "pk_id c = ak_predecessor ak"
    if c: "c \<in> set (db_keys d)" "pk_owner c = Some (ak_user ak)" "pk_id c \<notin> revokedKeys d" for c
  proof -
    have "pk_id c \<in> kr_key ` set (db_key_revocations d1)" using na c(1,2) by (auto simp: hasActiveKey_def list_ex_iff d1)
    then show ?thesis using c(3) v(1) by (auto simp: d1 revokedKeys_def)
  qed
  ultimately show ?thesis using that [of k ss ?v] k nr v by simp
qed

text \<open>An id under a user's id that is the key in use of somebody is that user's.\<close>

lemma active_key_owner:
  assumes active: "activeKeyOf d r" and key: "u_active_key r = Some (appendEntity u old)"
  shows "u_id r = u"
proof -
  obtain f where f: "appendEntity u old = appendEntity (u_id r) f" "CHR ''/'' \<notin> set f"
    using activeKeyOfD(2) [OF active] key by auto
  show ?thesis
  proof (cases "CHR ''/'' \<in> set old")
    case False
    show ?thesis using appendEntity_inj [OF False f(2) f(1)] by simp
  next
    case True
    then obtain o1 o2 where o: "old = o1 @ CHR ''/'' # o2" "CHR ''/'' \<notin> set o2" using split_list_last by metis
    have "appendEntity (appendEntity u o1) o2 = appendEntity (u_id r) f"
      using f(1) by (simp add: o appendEntity_def)
    then have "appendEntity u o1 = u_id r" using appendEntity_inj [OF o(2) f(2)] by blast
    then have "u_id r = u @ CHR ''/'' # o1" by (simp add: appendEntity_def)
    then have "CHR ''/'' \<in> set (u_id r)" by simp
    then show ?thesis using activeKeyOfD(1) [OF active] by blast
  qed
qed

text \<open>The predecessor is the key in use of the user it is rotated for, and of nobody else.\<close>

lemma rotation_replaces_active:
  assumes run: "addPublicKeyTx now ak d = Inr (x, d')" and pred: "ak_predecessor ak = appendEntity (ak_user ak) old"
    and rules: "keyRules d" and urules: "userRules d" and r: "r \<in> set (db_users d)"
  shows "u_active_key r = Some (ak_predecessor ak) \<longleftrightarrow> u_id r = ak_user ak"
proof
  note a = userRulesD(2) [OF urules r]
  assume e: "u_id r = ak_user ak"
  obtain c where "c \<in> set (db_keys d)" "u_active_key r = Some (pk_id c)" "pk_owner c = Some (u_id r)" "pk_id c \<notin> revokedKeys d"
    using activeKeyOfD(3) [OF a] by blast
  then show "u_active_key r = Some (ak_predecessor ak)" using addPublicKeyTx_rotates [OF run rules] e by metis
next
  assume "u_active_key r = Some (ak_predecessor ak)"
  then show "u_id r = ak_user ak" using active_key_owner [OF userRulesD(2) [OF urules r]] pred by simp
qed

lemma accountInv_addPublicKey:
  assumes run: "addPublicKeyTx now ak d = Inr (x, d')" and prep: "prepareAddKey E now0 msg d = Inr ak"
    and inv: "accountInv E0 d" and hex: "hexFingerprints E"
  shows "accountInv E0 d'"
proof -
  note rules = accountInvD(1) [OF inv] and urules = accountInvD(2) [OF inv]
  have id: "ak_user ak \<in> set (db_identities d)" "ak_id ak \<notin> pk_id ` set (db_keys d)"
    using run by (auto simp: addPublicKeyTx_def split: if_splits)
  obtain bare old where p: "ak_predecessor ak = appendEntity (ak_user ak) old" and new: "ak_id ak = appendEntity (ak_user ak) bare"
    and x: "e_extract_fingerprint E (ak_armor ak) = Some bare"
    using prepareAddKey_Inr [OF prep] by blast
  note active = rotation_replaces_active [OF run p rules urules]
  obtain k v where k: "k \<in> set (db_keys d)" "pk_id k = ak_predecessor ak" and nr: "ak_predecessor ak \<notin> revokedKeys d"
    and v: "kr_key v = ak_predecessor ak" "kr_successor v = Some (ak_id ak)"
    and d': "db_keys d' = db_keys d @ [rotatedKey ak]" "db_key_revocations d' = db_key_revocations d @ [v]"
      "db_users d' = db_users (updUser (ak_user ak) (\<lambda>r. r\<lparr>u_active_key := Some (ak_id ak)\<rparr>) d)"
      "db_invites d' = db_invites d" "db_identities d' = db_identities d"
    using addPublicKeyTx_rotates [OF run rules] by metis
  moreover have "CHR ''/'' \<notin> set bare" using hex x by (auto simp: hexFingerprints_def)
  moreover have "ak_predecessor ak \<in> pk_id ` set (db_keys d)" using k by force
  ultimately show ?thesis
    using id nr v new active
    by (intro accountInv_successor [OF inv, of "rotatedKey ak" "ak_user ak" bare v])
      (simp_all add: rotatedKey_def updUser_def)
qed

subsection \<open>Profiles\<close>

lemma accountInv_updateUserTx:
  assumes run: "updateUserTx E ui d = Inr (x, d')" and inv: "accountInv E d"
    and name: "nameAllowed E (ui_user ui) (ui_username ui)"
  shows "accountInv E d'"
proof -
  let ?f = "\<lambda>r. r\<lparr>u_username := Some (ui_username ui), u_bio := Some (ui_bio ui),
              u_user_sig := Some \<lparr>us_id = ui_key ui, us_armor = ui_sig ui\<rparr>, u_server_sig := Some (ui_profile_sig ui)\<rparr>"
  let ?e = "updUser (ui_user ui) ?f d"
  have held: "\<not> usernameHeld E d (ui_username ui) (ui_user ui)"
    and d': "d' = ?e\<lparr>db_username_collisions := filter (\<lambda>c. fst c \<noteq> ui_user ui) (db_username_collisions d)\<rparr>"
    using run by (auto simp: updateUserTx_def split: if_splits option.splits)
  have users: "db_users ?e = updWhere (\<lambda>r. u_id r = ui_user ui) ?f (db_users d)" by (simp add: updUser_def)
  have ids: "map u_id (db_users ?e) = map u_id (db_users d)" by (simp add: users map_updWhere)
  have own: "u_username s = Some (ui_username ui)" if "s \<in> set (db_users ?e)" "u_id s = ui_user ui" for s
    using that by (auto simp: users set_updWhere)
  have names: "nameRules E ?e"
    unfolding nameRules_def
  proof (intro conjI ballI allI impI)
    fix r s n m
    assume r: "r \<in> set (db_users ?e)" "u_username r = Some n" and s: "s \<in> set (db_users ?e)" "u_username s = Some m"
      and e: "e_lower E n = e_lower E m"
    have free: "e_lower E k \<noteq> e_lower E (ui_username ui)"
      if t: "t \<in> set (db_users ?e)" "u_username t = Some k" "u_id t \<noteq> ui_user ui" for t k
      using held t by (auto simp: usernameHeld_def list_ex_iff users set_updWhere)
    show "u_id r = u_id s"
    proof (cases "u_id r = ui_user ui"; cases "u_id s = ui_user ui")
      assume "u_id r \<noteq> ui_user ui" "u_id s \<noteq> ui_user ui"
      then have "r \<in> set (db_users d)" "s \<in> set (db_users d)" using r(1) s(1) by (auto simp: users set_updWhere)
      then show ?thesis using nameRulesD(1) [OF accountInvD(4) [OF inv]] r(2) s(2) e by blast
    qed (use own [OF r(1)] own [OF s(1)] r s e free [OF r] free [OF s] in auto)
  next
    fix r n assume r: "r \<in> set (db_users ?e)" "u_username r = Some n"
    show "nameAllowed E (u_id r) n"
    proof (cases "u_id r = ui_user ui")
      case True
      then show ?thesis using own [OF r(1)] r(2) name by simp
    next
      case False
      then have "r \<in> set (db_users d)" using r(1) by (auto simp: users set_updWhere)
      then show ?thesis using nameRulesD(2) [OF accountInvD(4) [OF inv]] r(2) by blast
    qed
  qed
  have kept: "list_all2 (\<lambda>r s. u_id s = u_id r \<and> u_invite s = u_invite r \<and> u_active_key s = u_active_key r) (db_users d) (db_users ?e)"
    unfolding users by (rule list_all2_updWhere) simp_all
  have "userRules ?e"
    unfolding userRules_def
  proof (intro conjI ballI)
    show "uniqueBy u_id (db_users ?e)" using userRulesD(1) [OF accountInvD(2) [OF inv]] ids by simp
    fix s assume "s \<in> set (db_users ?e)"
    then obtain r where r: "r \<in> set (db_users d)" "u_id s = u_id r" "u_active_key s = u_active_key r"
      using list_all2_past [OF kept] by blast
    have "activeKeyOf ?e s = activeKeyOf d r" by (simp add: activeKeyOf_def revokedKeys_def r)
    then show "activeKeyOf ?e s" using userRulesD(2) [OF accountInvD(2) [OF inv] r(1)] by simp
  qed
  moreover have "keyRules ?e = keyRules d" by (rule keyRules_cong) simp_all
  moreover have "ownersKnown ?e"
  proof (rule ownersKnown_mono [OF accountInvD(5) [OF inv]])
    show "u_id ` set (db_users ?e) = u_id ` set (db_users d)" using ids by (metis list.set_map)
  qed simp_all
  moreover have "inviteRules ?e"
  proof (rule inviteRules_users [OF accountInvD(3) [OF inv]])
    show "list_all2 sameInvite (db_users d) (db_users ?e)"
      using kept by (rule list_all2_mono) (simp add: sameInvite_def)
  qed simp
  ultimately have "accountInv E ?e" using inv names by (simp add: accountInv_def)
  then show ?thesis unfolding d' by (rule accountInv_same) (simp add: sameAccounts_def)
qed

subsection \<open>Signing up\<close>

lemma onAdminClaim_same:
  assumes "onAdminClaim E now u i d = Inr (entry, d')"
  shows "\<exists>t n. d' = d\<lparr>db_ledger := t, db_ledger_seq := n\<rparr>"
  using assms by (auto simp: onAdminClaim_def bindR_Inr appendLedgerTx_def appendLedgerEntryTx_def Let_def split: if_splits)

text \<open>The claim, in the tables the other inserts have left.\<close>

definition claimedInvites :: "env \<Rightarrow> gotime \<Rightarrow> signupInput \<Rightarrow> db \<Rightarrow> inviteRow list" where
  "claimedInvites E now si d = (case si_invite si of None \<Rightarrow> db_invites d | Some v \<Rightarrow>
     updWhere (\<lambda>w. iv_id w = iv_id v \<and> inviteClaimable now d w)
       (\<lambda>w. w\<lparr>iv_claimed_at := Some (si_since si), iv_claimed_by := Some (canonicalID (e_server_id E) (si_user si))\<rparr>)
       (db_invites d))"

definition accountRows :: "env \<Rightarrow> signupInput \<Rightarrow> db \<Rightarrow> db" where
  "accountRows E si d = (let self = canonicalID (e_server_id E) (si_user si) in
     d\<lparr>db_identities := db_identities d @ [self], db_keys := db_keys d @ [signupKey self si],
       db_users := db_users d @ [signupRow self (signupRoleOf E si) si]\<rparr>)"

lemma insertAccount_Inr:
  "insertAccount E si d = Inr (x, d') \<longleftrightarrow> d' = accountRows E si d \<and>
     canonicalID (e_server_id E) (si_user si) \<notin> set (db_identities d) \<and> si_key si \<notin> pk_id ` set (db_keys d) \<and>
     canonicalID (e_server_id E) (si_user si) \<notin> u_id ` set (db_users d) \<and>
     \<not> usernameHeld E d (si_username si) (canonicalID (e_server_id E) (si_user si))"
  by (auto simp: insertAccount_def accountRows_def Let_def)

lemma claimInvite_Inr:
  assumes "claimInvite E now si d = Inr (x, d')"
  shows "d' = d\<lparr>db_invites := claimedInvites E now si d\<rparr> \<and>
    (\<forall>v. si_invite si = Some v \<longrightarrow> (\<exists>w \<in> set (db_invites d). iv_id w = iv_id v \<and> inviteClaimable now d w))"
  using assms by (auto simp: claimInvite_def claimedInvites_def markInviteClaimed_def split: option.splits if_splits)

lemma grantInvite_same:
  assumes "grantInvite E (onAdminClaim E now u) si d = Inr (entry, d')"
  shows "sameAccounts d d'"
  using assms
  by (auto simp: grantInvite_def Let_def sameAccounts_def dest!: onAdminClaim_same split: option.splits if_splits sum.splits)

lemma bindDeviceTx_same: "bindDeviceTx E u dev now d = Inr (x, d') \<Longrightarrow> sameAccounts d d'"
  by (auto simp: bindDeviceTx_def Let_def sameAccounts_def split: option.splits if_splits)

lemma signupTx_Inr:
  assumes "signupTx E now (onAdminClaim E now u) si d = Inr (entry, d')"
  shows "canonicalID (e_server_id E) (si_user si) \<notin> set (db_identities d) \<and> si_key si \<notin> pk_id ` set (db_keys d) \<and>
    \<not> usernameHeld E d (si_username si) (canonicalID (e_server_id E) (si_user si)) \<and>
    (\<forall>v. si_invite si = Some v \<longrightarrow> inviteStatus now v = ''pending'' \<and>
       (\<exists>w \<in> set (db_invites d). iv_id w = iv_id v \<and> inviteClaimable now (accountRows E si d) w)) \<and>
    sameAccounts ((accountRows E si d)\<lparr>db_invites := claimedInvites E now si (accountRows E si d)\<rparr>) d' \<and>
    (\<exists>d3. grantInvite E (onAdminClaim E now u) si
       ((accountRows E si d)\<lparr>db_invites := claimedInvites E now si (accountRows E si d)\<rparr>) = Inr (entry, d3) \<and>
       db_users d' = db_users d3 \<and> db_permissions d' = db_permissions d3)"
proof -
  let ?a = "accountRows E si d"
  let ?c = "?a\<lparr>db_invites := claimedInvites E now si ?a\<rparr>"
  have st: "\<not> (case si_invite si of None \<Rightarrow> False | Some v \<Rightarrow> inviteStatus now v \<noteq> ''pending'')"
    using assms by (simp add: signupTx_def split: if_splits)
  obtain d1 d2 d3 d4 where ins: "insertAccount E si d = Inr ((), d1)" and cl: "claimInvite E now si d1 = Inr ((), d2)"
    and gr: "grantInvite E (onAdminClaim E now u) si d2 = Inr (entry, d3)"
    and dev: "(if si_device si = '''' then Inr ((), bumpActiveUsers 1 d3)
       else bindDeviceTx E (si_user si) (si_device si) (si_since si) (bumpActiveUsers 1 d3)) = Inr ((), d4)" and d': "d' = d4"
    using assms st by (auto simp: signupTx_def bindR_Inr)
  have d1: "d1 = ?a" using ins insertAccount_Inr by blast
  have d2: "d2 = ?c" using claimInvite_Inr [OF cl] by (simp add: d1)
  have "db_invites ?a = db_invites d" by (simp add: accountRows_def Let_def)
  moreover have "sameAccounts d3 (bumpActiveUsers 1 d3)" by (simp add: bumpActiveUsers_def sameAccounts_def)
  then have "sameAccounts d3 d4" using dev by (auto dest: bindDeviceTx_same intro: sameAccounts_trans split: if_splits)
  then have "sameAccounts ?c d'" using grantInvite_same [OF gr] by (auto simp: d2 d' intro: sameAccounts_trans)
  moreover have "db_users d' = db_users d3" "db_permissions d' = db_permissions d3"
    using dev by (auto simp: d' bindDeviceTx_def Let_def bumpActiveUsers_def split: if_splits option.splits)
  ultimately show ?thesis
    using ins claimInvite_Inr [OF cl] gr st by (auto simp: insertAccount_Inr d1 d2 split: option.splits)
qed

text \<open>What the route has checked before it stores an account.\<close>

lemma signupForm_Inr:
  assumes "signupForm E device m = Inr (username, dev, userID)"
  shows "isValidCryptoID userID \<and> userID \<noteq> rootUserID \<and> username \<noteq> '''' \<and> length username \<le> 32 \<and>
    parseDeviceID E device = Some dev"
  using assms by (auto simp: signupForm_def Let_def split: if_splits option.splits)

lemma signupProofs_Inr:
  assumes "signupProofs E m username userID d = Inr fingerprint"
  shows "\<exists>bare. e_extract_fingerprint E (su_public_key m) = Some bare \<and>
    fingerprint = appendEntity (canonicalID (e_server_id E) userID) bare \<and>
    \<not> usernameExists E d username (canonicalID (e_server_id E) userID) \<and>
    e_verify E userID (su_user_id_signature m) (serverKeyArmor E d (trimSpace (su_user_id_fingerprint m))) \<and>
    e_verify E (su_public_key m) (su_signature m) (su_public_key m) \<and>
    e_verify E (buildUserIdentityPayload (e_jcs E) username fingerprint '''') (su_user_signature m) (su_public_key m)"
  using assms by (auto simp: signupProofs_def Let_def split: if_splits option.splits)

lemma signupInvite_Inr:
  assumes "signupInvite E now i secret d = Inr v"
  shows "v = lookUpInvite E now d (trimSpace i) (trimSpace secret) \<and>
    (e_signup_mode E = signupModeInvite \<longrightarrow> v \<noteq> None) \<and> (trimSpace (trimSpace i) \<noteq> '''' \<or> trimSpace (trimSpace secret) \<noteq> '''' \<longrightarrow> v \<noteq> None)"
  using assms by (auto simp: signupInvite_def resolveSignup_def Let_def split: sum.splits if_splits option.splits)

lemma lookUpInvite_Some:
  assumes "lookUpInvite E now d i secret = Some v"
  shows "v \<in> set (db_invites d) \<and> iv_id v = trimSpace i \<and> iv_token v = e_hash E (trimSpace secret) \<and>
    inviteStatus now v = ''pending'' \<and> \<not> inviterSuspended d (iv_by v) \<and> trimSpace i \<noteq> '''' \<and> trimSpace secret \<noteq> ''''"
proof -
  have ne: "trimSpace i \<noteq> ''''" "trimSpace secret \<noteq> ''''"
    using assms by (auto simp: lookUpInvite_def split: if_splits)
  then have "getPendingInvite now d (trimSpace i) (e_hash E (trimSpace secret)) = Some v"
    using assms by (simp add: lookUpInvite_def)
  then have f: "List.find (\<lambda>v. iv_id v = trimSpace i \<and> iv_token v = e_hash E (trimSpace secret)) (db_invites d) = Some v"
    "inviteStatus now v = ''pending''" "\<not> inviterSuspended d (iv_by v)"
    by (auto simp: getPendingInvite_def split: option.splits if_splits)
  then show ?thesis using find_SomeD [OF f(1)] ne by simp
qed

lemma prepareSignup_Inr:
  assumes "prepareSignup E now device msg d = Inr si"
  shows "\<exists>m. msg = Some m \<and> \<not> recovering (e_recovery_mode E) \<and> e_signup_mode E \<noteq> signupModeClosed \<and>
    signupForm E device m = Inr (si_username si, si_device si, si_user si) \<and>
    signupInvite E now (su_invite_id m) (su_invite_secret m) d = Inr (si_invite si) \<and>
    signupProofs E m (si_username si) (si_user si) d = Inr (si_key si) \<and>
    signupSigned E (truncateSecond now) m (si_username si) (si_user si) (si_key si) (si_invite si) d =
      Inr (si_profile_sig si, si_key_sig si) \<and>
    si_armor si = su_public_key m \<and> si_sig si = su_user_signature m \<and> si_since si = truncateSecond now"
  using assms by (auto simp: prepareSignup_def Let_def bindR_Inr split: option.splits if_splits)

lemma nameAllowed_signup:
  "\<not> usernameExists E d n u \<Longrightarrow> nameAllowed E u n \<and> \<not> usernameHeld E d n u"
  by (auto simp: usernameExists_def nameAllowed_def split: if_splits)

lemma accountRows_fields [simp]:
  "db_identities (accountRows E si d) = db_identities d @ [canonicalID (e_server_id E) (si_user si)]"
  "db_keys (accountRows E si d) = db_keys d @ [signupKey (canonicalID (e_server_id E) (si_user si)) si]"
  "db_users (accountRows E si d) = db_users d @
     [signupRow (canonicalID (e_server_id E) (si_user si)) (signupRoleOf E si) si]"
  "db_invites (accountRows E si d) = db_invites d" "db_key_revocations (accountRows E si d) = db_key_revocations d"
  "db_permissions (accountRows E si d) = db_permissions d"
  by (simp_all add: accountRows_def Let_def)

lemma signupRow_sel [simp]:
  "u_id (signupRow s r si) = s" "u_username (signupRow s r si) = Some (si_username si)"
  "u_active_key (signupRow s r si) = Some (si_key si)" "u_invite (signupRow s r si) = map_option iv_id (si_invite si)"
  "u_role (signupRow s r si) = r" "u_suspended (signupRow s r si) = None"
  by (simp_all add: signupRow_def)

lemma signupKey_sel [simp]:
  "pk_id (signupKey s si) = si_key si" "pk_owner (signupKey s si) = Some s" "pk_predecessor (signupKey s si) = None"
  by (simp_all add: signupKey_def)

text \<open>The claimed invites: one changes, when there is one, from unclaimed to claimed by the new account.\<close>

lemma claimed_cases:
  assumes "v \<in> set (claimedInvites E now si a)"
  shows "v \<in> set (db_invites a) \<and> (\<forall>w. si_invite si = Some w \<longrightarrow> iv_id v = iv_id w \<longrightarrow> \<not> inviteClaimable now a v) \<or>
    (\<exists>w x. si_invite si = Some w \<and> x \<in> set (db_invites a) \<and> iv_id x = iv_id w \<and> inviteClaimable now a x \<and>
      v = x\<lparr>iv_claimed_at := Some (si_since si), iv_claimed_by := Some (canonicalID (e_server_id E) (si_user si))\<rparr>)"
  using assms by (auto simp: claimedInvites_def set_updWhere split: option.splits)

lemma inviteRules_signup:
  assumes inv: "inviteRules d" and a: "a = accountRows E si d" and d': "d' = a\<lparr>db_invites := claimedInvites E now si a\<rparr>"
    and ok: "\<And>v. si_invite si = Some v \<Longrightarrow> \<exists>w \<in> set (db_invites d). iv_id w = iv_id v \<and> inviteClaimable now a w"
  shows "inviteRules d'"
  unfolding inviteRules_def
proof (intro conjI ballI allI impI)
  let ?self = "canonicalID (e_server_id E) (si_user si)"
  have ids: "map iv_id (claimedInvites E now si a) = map iv_id (db_invites d)"
    "map iv_token (claimedInvites E now si a) = map iv_token (db_invites d)"
    by (simp_all add: claimedInvites_def a map_updWhere split: option.split)
  show "uniqueBy iv_id (db_invites d')" "uniqueBy iv_token (db_invites d')"
    using inviteRulesD(1,2) [OF inv] ids by (simp_all add: d')
  fix v assume "v \<in> set (db_invites d')"
  then consider (old) "v \<in> set (db_invites d)"
    | (new) w x where "si_invite si = Some w" "x \<in> set (db_invites d)" "iv_id x = iv_id w" "inviteClaimable now a x"
        "v = x\<lparr>iv_claimed_at := Some (si_since si), iv_claimed_by := Some ?self\<rparr>"
    using claimed_cases [of v E now si a] by (auto simp: d' a)
  note cases = this
  show "(iv_claimed_at v = None) = (iv_claimed_by v = None)"
    by (cases rule: cases) (use inviteRulesD(3) [OF inv] in auto)
  fix u assume u: "iv_claimed_by v = Some u"
  show "iv_revoked_at v = None"
    by (cases rule: cases) (use inviteRulesD(4) [OF inv _ u] in \<open>auto simp: inviteClaimable_def\<close>)
  show "\<exists>r \<in> set (db_users d'). u_id r = u \<and> u_invite r = Some (iv_id v)"
  proof (cases rule: cases)
    case old
    then show ?thesis using inviteRulesD(5) [OF inv old u] by (auto simp: d' a)
  next
    case (new w x)
    then show ?thesis using u by (simp add: d' a)
  qed
next
  fix r i assume r: "r \<in> set (db_users d')" and i: "u_invite r = Some i"
  let ?self = "canonicalID (e_server_id E) (si_user si)"
  from r consider "r \<in> set (db_users d)" | "r = signupRow ?self (signupRoleOf E si) si" by (auto simp: d' a)
  then show "\<exists>v \<in> set (db_invites d'). iv_id v = i \<and> iv_claimed_by v = Some (u_id r)"
  proof cases
    case 1
    then obtain v where v: "v \<in> set (db_invites d)" "iv_id v = i" "iv_claimed_by v = Some (u_id r)"
      using inviteRulesD(6) [OF inv _ i] by blast
    then have "\<not> inviteClaimable now a v" using inviteRulesD(3) [OF inv v(1)] by (simp add: inviteClaimable_def)
    then have "v \<in> set (db_invites d')" using v(1) by (auto simp: d' claimedInvites_def a set_updWhere split: option.split)
    then show ?thesis using v by blast
  next
    case 2
    then obtain w where w: "si_invite si = Some w" "iv_id w = i" using i by auto
    then obtain x where "x \<in> set (db_invites d)" "iv_id x = i" "inviteClaimable now a x" using ok by blast
    then have "x\<lparr>iv_claimed_at := Some (si_since si), iv_claimed_by := Some ?self\<rparr> \<in> set (db_invites d')"
      using w by (auto simp: d' claimedInvites_def a set_updWhere)
    then show ?thesis using 2 \<open>iv_id x = i\<close> by (intro bexI) auto
  qed
qed

lemma accountInv_signup:
  assumes run: "signupTx E now (onAdminClaim E now u) si d = Inr (entry, d')" and prep: "prepareSignup E now device msg d = Inr si"
    and inv: "accountInv E d" and hex: "hexFingerprints E" and sv: "CHR ''/'' \<notin> set (e_server_id E)"
  shows "accountInv E d'"
proof -
  let ?self = "canonicalID (e_server_id E) (si_user si)"
  let ?a = "accountRows E si d"
  let ?c = "?a\<lparr>db_invites := claimedInvites E now si ?a\<rparr>"
  have fresh: "?self \<notin> set (db_identities d)" "si_key si \<notin> pk_id ` set (db_keys d)"
    and claim: "\<And>v. si_invite si = Some v \<Longrightarrow> \<exists>w \<in> set (db_invites d). iv_id w = iv_id v \<and> inviteClaimable now ?a w"
    and same: "sameAccounts ?c d'"
    using signupTx_Inr [OF run] by auto
  obtain m where m: "signupForm E device m = Inr (si_username si, si_device si, si_user si)"
    "signupProofs E m (si_username si) (si_user si) d = Inr (si_key si)"
    using prepareSignup_Inr [OF prep] by blast
  obtain bare where bare: "e_extract_fingerprint E (su_public_key m) = Some bare" "si_key si = appendEntity ?self bare"
    and name: "\<not> usernameExists E d (si_username si) ?self"
    using signupProofs_Inr [OF m(2)] by blast
  have slash: "CHR ''/'' \<notin> set bare" "CHR ''/'' \<notin> set ?self"
    using hex bare(1) sv isValidCryptoID_no_separator signupForm_Inr [OF m(1)]
    by (auto simp: hexFingerprints_def canonicalID_def idSeparator_def)
  have nu: "?self \<notin> u_id ` set (db_users d)" using ownersKnownD(2) [OF accountInvD(5) [OF inv]] fresh(1) by (metis imageE)
  have no: "pk_owner k \<noteq> Some ?self" if "k \<in> set (db_keys d)" for k
    using ownersKnownD(1) [OF accountInvD(5) [OF inv] that] fresh(1) by blast
  have nr: "si_key si \<notin> revokedKeys d" using keyRulesD(4) [OF accountInvD(1) [OF inv]] fresh(2) by blast
  have rev: "revokedKeys ?c = revokedKeys d" by (simp add: revokedKeys_def)
  have "keyRules ?c"
    unfolding keyRules_def
  proof (intro conjI ballI allI impI)
    note k = keyRulesD [OF accountInvD(1) [OF inv]]
    show "uniqueBy pk_id (db_keys ?c)" using k(1) fresh(2) by simp
    show "uniqueBy kr_key (db_key_revocations ?c)" using k(2) by simp
    show "'''' \<notin> pk_id ` set (db_keys ?c)" using k(3) bare(2) by (simp add: appendEntity_def)
    show "revokedKeys ?c \<subseteq> pk_id ` set (db_keys ?c)" using k(4) rev by auto
    show "\<exists>k \<in> set (db_keys ?c). kr_successor v = Some (pk_id k) \<and> pk_predecessor k = Some (kr_key v)"
      if "v \<in> set (db_key_revocations ?c)" for v using k(5) [of v] that by auto
    show "\<exists>v \<in> set (db_key_revocations ?c). kr_key v = p \<and> kr_successor v = Some (pk_id c)"
      if "c \<in> set (db_keys ?c)" "pk_predecessor c = Some p" for c p using k(6) [of c p] that by auto
  qed
  moreover have "userRules ?c"
    unfolding userRules_def
  proof (intro conjI ballI)
    show "uniqueBy u_id (db_users ?c)" using userRulesD(1) [OF accountInvD(2) [OF inv]] nu by simp
    fix r assume "r \<in> set (db_users ?c)"
    then consider "r \<in> set (db_users d)" | "r = signupRow ?self (signupRoleOf E si) si" by auto
    then show "activeKeyOf ?c r"
    proof cases
      case 1
      note a = activeKeyOfD [OF userRulesD(2) [OF accountInvD(2) [OF inv] 1]]
      have "u_id r \<noteq> ?self" using 1 nu by (metis image_eqI)
      then have new: "pk_owner (signupKey ?self si) \<noteq> Some (u_id r)" by simp
      show ?thesis
        unfolding activeKeyOf_def rev
      proof (intro conjI ballI impI)
        show "CHR ''/'' \<notin> set (u_id r)" "\<exists>f. u_active_key r = Some (appendEntity (u_id r) f) \<and> CHR ''/'' \<notin> set f"
          by (rule a(1,2))+
        show "\<exists>k \<in> set (db_keys ?c). u_active_key r = Some (pk_id k) \<and> pk_owner k = Some (u_id r) \<and> pk_id k \<notin> revokedKeys d"
          using a(3) by auto
        fix k assume k: "k \<in> set (db_keys ?c)" "pk_owner k = Some (u_id r)" "pk_id k \<notin> revokedKeys d"
        then have "k \<in> set (db_keys d)" using new by auto
        then show "u_active_key r = Some (pk_id k)" using a(4) k by blast
      qed
    next
      case 2
      have only: "k = signupKey ?self si" if "k \<in> set (db_keys ?c)" "pk_owner k = Some ?self" for k
        using that no by auto
      show ?thesis
        unfolding activeKeyOf_def rev 2 signupRow_sel
      proof (intro conjI ballI impI)
        show "CHR ''/'' \<notin> set ?self" by (rule slash(2))
        show "\<exists>f. Some (si_key si) = Some (appendEntity ?self f) \<and> CHR ''/'' \<notin> set f" using slash(1) bare(2) by blast
        show "\<exists>k \<in> set (db_keys ?c). Some (si_key si) = Some (pk_id k) \<and> pk_owner k = Some ?self \<and> pk_id k \<notin> revokedKeys d"
          using nr by (intro bexI [of _ "signupKey ?self si"]) simp_all
        fix k assume "k \<in> set (db_keys ?c)" "pk_owner k = Some ?self"
        then have "k = signupKey ?self si" by (rule only)
        then show "Some (si_key si) = Some (pk_id k)" by simp
      qed
    qed
  qed
  moreover have "ownersKnown ?c"
    using accountInvD(5) [OF inv] by (auto simp: ownersKnown_def)
  moreover have "inviteRules ?c" by (rule inviteRules_signup [OF accountInvD(3) [OF inv] refl refl claim])
  moreover have "nameRules E ?c"
  proof -
    have al: "nameAllowed E ?self (si_username si)" and held: "\<not> usernameHeld E d (si_username si) ?self"
      using nameAllowed_signup [OF name] by simp_all
    have free: "e_lower E n \<noteq> e_lower E (si_username si)" if t: "t \<in> set (db_users d)" "u_username t = Some n" for t n
    proof -
      have "u_id t \<noteq> ?self" using t(1) nu by (metis image_eqI)
      then show ?thesis using held t by (auto simp: usernameHeld_def list_ex_iff)
    qed
    show ?thesis
      unfolding nameRules_def
    proof (intro conjI ballI allI impI)
      fix r s n k assume r: "r \<in> set (db_users ?c)" "u_username r = Some n" and s: "s \<in> set (db_users ?c)" "u_username s = Some k"
        and e: "e_lower E n = e_lower E k"
      show "u_id r = u_id s"
      proof (cases "r \<in> set (db_users d)"; cases "s \<in> set (db_users d)")
        assume "r \<in> set (db_users d)" "s \<in> set (db_users d)"
        then show ?thesis using nameRulesD(1) [OF accountInvD(4) [OF inv]] r(2) s(2) e by blast
      next
        assume i: "r \<in> set (db_users d)" "s \<notin> set (db_users d)"
        then have "k = si_username si" using s by simp
        then show ?thesis using free [OF i(1) r(2)] e by simp
      next
        assume i: "r \<notin> set (db_users d)" "s \<in> set (db_users d)"
        then have "n = si_username si" using r by simp
        then show ?thesis using free [OF i(2) s(2)] e by simp
      next
        assume "r \<notin> set (db_users d)" "s \<notin> set (db_users d)"
        then show ?thesis using r(1) s(1) by simp
      qed
    next
      fix r n assume "r \<in> set (db_users ?c)" "u_username r = Some n"
      then show "nameAllowed E (u_id r) n" using al nameRulesD(2) [OF accountInvD(4) [OF inv], of r n] by auto
    qed
  qed
  ultimately have "accountInv E ?c" by (simp add: accountInv_def)
  then show ?thesis using same by (rule accountInv_same)
qed

subsection \<open>Runs\<close>

text \<open>
  A call to the account routes, an executed admin request, an account's removal, a key the server keeps
  for a peer's user, or anything that leaves these tables as they are.
\<close>

inductive accountStep :: "env \<Rightarrow> db \<Rightarrow> db \<Rightarrow> bool" for E where
  signedUp: "signup E now device msg d = (r, d', fx) \<Longrightarrow> accountStep E d d'"
| inviteCreated: "createInvite E now caller im d = (ri, d') \<Longrightarrow> accountStep E d d'"
| inviteDeleted: "deleteInvite now caller i d = (rd, d') \<Longrightarrow> accountStep E d d'"
| profileUpdated: "updateUser E now u um d = (ru, d', fx) \<Longrightarrow> accountStep E d d'"
| keyRotated: "addPublicKey E now km d = (rk, d', fx) \<Longrightarrow> accountStep E d d'"
| requestExecuted: "adminExecutorFor E now a = Some ex \<Longrightarrow> ax_validate ex d req = None \<Longrightarrow>
    ax_execute ex req d = Inr d' \<Longrightarrow> accountStep E d d'"
| accountRemoved: "storeAccountRemovalTx E cert u d = Inr (x, d') \<Longrightarrow> accountStep E d d'"
| peerKeyCached: "key_user k \<notin> u_id ` set (db_users d) \<Longrightarrow> key_id k \<noteq> '''' \<Longrightarrow>
    cachePeerUserKey k sig now d = d' \<Longrightarrow> accountStep E d d'"
| otherTransaction: "sameAccounts d d' \<Longrightarrow> accountStep E d d'"

lemma accountInv_cached:
  assumes inv: "accountInv E d" and new: "key_user k \<notin> u_id ` set (db_users d)" "key_id k \<noteq> ''''"
  shows "accountInv E (cachePeerUserKey k sig now d)"
proof -
  let ?e = "upsertIdentity (key_user k) d"
  have same: "sameAccounts d ?e" by (auto simp: sameAccounts_def upsertIdentity_def)
  then have inve: "accountInv E ?e" by (rule accountInv_same [OF inv])
  have users: "db_users ?e = db_users d" "db_key_revocations ?e = db_key_revocations d" "db_keys ?e = db_keys d"
    using same by (simp_all add: sameAccounts_def)
  show ?thesis
  proof (cases "key_id k \<in> pk_id ` set (db_keys ?e)")
    case True
    then show ?thesis using inve by (simp add: cachePeerUserKey_def)
  next
    case False
    let ?k = "\<lparr>pk_id = key_id k, pk_owner = Some (key_user k), pk_armor = key_armor k, pk_created = now,
        pk_server_sig = Some sig, pk_predecessor = None, pk_restricted = False\<rparr>"
    let ?d' = "?e\<lparr>db_keys := db_keys ?e @ [?k]\<rparr>"
    have rev: "revokedKeys ?d' = revokedKeys ?e" by (simp add: revokedKeys_def)
    have "keyRules ?d'"
      unfolding keyRules_def
    proof (intro conjI ballI allI impI)
      note r = keyRulesD [OF accountInvD(1) [OF inve]]
      show "uniqueBy pk_id (db_keys ?d')" using r(1) False by simp
      show "uniqueBy kr_key (db_key_revocations ?d')" using r(2) by simp
      show "'''' \<notin> pk_id ` set (db_keys ?d')" using r(3) new(2) by simp
      show "revokedKeys ?d' \<subseteq> pk_id ` set (db_keys ?d')" using r(4) rev by auto
      show "\<exists>k \<in> set (db_keys ?d'). kr_successor v = Some (pk_id k) \<and> pk_predecessor k = Some (kr_key v)"
        if "v \<in> set (db_key_revocations ?d')" for v using r(5) [of v] that by auto
      show "\<exists>v \<in> set (db_key_revocations ?d'). kr_key v = p \<and> kr_successor v = Some (pk_id c)"
        if "c \<in> set (db_keys ?d')" "pk_predecessor c = Some p" for c p using r(6) [of c p] that by auto
    qed
    moreover have "userRules ?d'"
      unfolding userRules_def
    proof (intro conjI ballI)
      show "uniqueBy u_id (db_users ?d')" using userRulesD(1) [OF accountInvD(2) [OF inve]] by simp
      fix r assume "r \<in> set (db_users ?d')"
      then have r: "r \<in> set (db_users ?e)" by simp
      note a = activeKeyOfD [OF userRulesD(2) [OF accountInvD(2) [OF inve] r]]
      have nu: "u_id r \<noteq> key_user k" using r new(1) users(1) by force
      show "activeKeyOf ?d' r"
        unfolding activeKeyOf_def rev
      proof (intro conjI ballI impI)
        show "CHR ''/'' \<notin> set (u_id r)" "\<exists>f. u_active_key r = Some (appendEntity (u_id r) f) \<and> CHR ''/'' \<notin> set f"
          by (rule a(1,2))+
        show "\<exists>k \<in> set (db_keys ?d'). u_active_key r = Some (pk_id k) \<and> pk_owner k = Some (u_id r) \<and> pk_id k \<notin> revokedKeys ?e"
          using a(3) by auto
        fix c assume c: "c \<in> set (db_keys ?d')" "pk_owner c = Some (u_id r)" "pk_id c \<notin> revokedKeys ?e"
        then have "c \<in> set (db_keys ?e)" using nu by auto
        then show "u_active_key r = Some (pk_id c)" using a(4) c by blast
      qed
    qed
    moreover have "key_user k \<in> set (db_identities ?e)" by (simp add: upsertIdentity_def)
    then have "ownersKnown ?d'"
      using accountInvD(5) [OF inve] by (auto simp: ownersKnown_def)
    moreover have "inviteRules ?d' = inviteRules ?e" by (rule inviteRules_cong) simp_all
    moreover have "nameRules E ?d' = nameRules E ?e" by (rule nameRules_cong) simp
    ultimately have "accountInv E ?d'" using inve by (simp add: accountInv_def)
    then show ?thesis using False by (simp add: cachePeerUserKey_def Let_def)
  qed
qed

lemma signup_db:
  assumes "signup E now device msg d = (r, d', fx)"
  obtains "d' = d"
  | si entry where "prepareSignup E now device msg d = Inr si"
      "signupTx E now (onAdminClaim E now (si_user si)) si d = Inr (entry, d')"
proof (cases "prepareSignup E now device msg d")
  case (Inl e)
  then show thesis using assms that(1) by (simp add: signup_def split: prod.splits)
next
  case (Inr si)
  show thesis
  proof (cases "signupTx E now (onAdminClaim E now (si_user si)) si d")
    case (Inl e)
    then show thesis using assms Inr that(1) by (simp add: signup_def withAdminTx_def Let_def split: if_splits)
  next
    case tx: (Inr p)
    obtain entry d1 where p: "p = (entry, d1)" by (cases p)
    then have "d' = d1" using assms Inr tx by (simp add: signup_def withAdminTx_def Let_def split: sum.splits)
    then show thesis using Inr tx p that(2) by simp
  qed
qed

lemma addPublicKey_db:
  assumes "addPublicKey E now msg d = (r, d', fx)"
  obtains "d' = d"
  | ak where "prepareAddKey E now msg d = Inr ak" "addPublicKeyTx now ak d = Inr ((), d')" "r = Done 200 (ak_id ak)"
  using assms
  by (cases "prepareAddKey E now msg d"; cases "addPublicKeyTx now (projr (prepareAddKey E now msg d)) d")
    (auto simp: addPublicKey_def withAdminTx_def split: prod.splits if_splits err.splits)

lemma addPublicKey_Done:
  assumes "addPublicKey E now msg d = (Done c x, d', fx)"
  shows "\<exists>ak. prepareAddKey E now msg d = Inr ak \<and> addPublicKeyTx now ak d = Inr ((), d') \<and> x = ak_id ak"
  using assms
  by (cases "prepareAddKey E now msg d"; cases "addPublicKeyTx now (projr (prepareAddKey E now msg d)) d")
    (auto simp: addPublicKey_def withAdminTx_def split: prod.splits if_splits err.splits)

lemma updateUser_db:
  assumes "updateUser E now u msg d = (r, d', fx)"
  shows "d' = d \<or> (\<exists>m row username ui. msg = Some m \<and> userRow d u = Some row \<and> updateForm E u row m d = Inr username \<and>
    ui_user ui = u \<and> ui_username ui = username \<and> updateUserTx E ui d = Inr ((), d'))"
proof -
  show ?thesis
  proof (cases "d' = d")
    case False
    obtain row where row: "getUserProfile d u = Inr True" "userRow d u = Some row"
      using assms False by (auto simp: updateUser_def split: sum.splits bool.splits option.splits)
    obtain m where m: "msg = Some m" "um_user_signature m \<noteq> ''''"
      "map_option us_armor (u_user_sig row) \<noteq> Some (um_user_signature m)"
      using assms False row by (cases msg) (auto simp: updateUser_def split: if_splits)
    obtain username where n: "updateForm E u row m d = Inr username"
      using assms False by (cases "updateForm E u row m d") (simp_all add: updateUser_def row m del: map_option_eq_Some split: prod.splits)
    obtain key sig where k: "updateSigned E (truncateSecond now) u row m username d = Inr (key, sig)"
      using assms False
      by (cases "updateSigned E (truncateSecond now) u row m username d") (auto simp add: updateUser_def row m n simp del: map_option_eq_Some split: prod.splits)
    let ?ui = "\<lparr>ui_user = u, ui_username = username, ui_bio = um_bio m, ui_key = key,
               ui_sig = um_user_signature m, ui_profile_sig = sig\<rparr>"
    have "updateUserTx E ?ui d = Inr ((), d')"
      using assms False
      by (cases "updateUserTx E ?ui d") (simp_all add: updateUser_def row m n k withAdminTx_def del: map_option_eq_Some split: if_splits prod.splits sum.splits)
    then show ?thesis using m(1) row(2) n by (intro disjI2 exI [of _ m] exI [of _ row] exI [of _ username] exI [of _ ?ui]) simp
  qed simp
qed

lemma updateForm_Inr:
  "updateForm E u r m d = Inr username \<Longrightarrow> orEmpty (u_username r) = username \<or> \<not> usernameExists E d username u"
  "updateForm E u r m d = Inr username \<Longrightarrow> username \<noteq> '''' \<and> length username \<le> 32"
  by (auto simp: updateForm_def Let_def split: if_splits)

lemma accountInv_updateUser:
  assumes "updateUser E now u msg d = (r, d', fx)" and inv: "accountInv E d"
  shows "accountInv E d'"
  using updateUser_db [OF assms(1)]
proof
  assume "\<exists>m row username ui. msg = Some m \<and> userRow d u = Some row \<and> updateForm E u row m d = Inr username \<and>
    ui_user ui = u \<and> ui_username ui = username \<and> updateUserTx E ui d = Inr ((), d')"
  then obtain m row username ui where row: "userRow d u = Some row" and form: "updateForm E u row m d = Inr username"
    and ui: "ui_user ui = u" "ui_username ui = username" and run: "updateUserTx E ui d = Inr ((), d')" by blast
  have rd: "row \<in> set (db_users d)" "u_id row = u" using userRow_set [OF row] by simp_all
  have "nameAllowed E u username"
  proof (cases "usernameExists E d username u")
    case False
    then show ?thesis using nameAllowed_signup by blast
  next
    case True
    then have "orEmpty (u_username row) = username" "username \<noteq> ''''"
      using updateForm_Inr [OF form] by simp_all
    then have "u_username row = Some username" by (cases "u_username row") (simp_all add: orEmpty_def)
    then show ?thesis using nameRulesD(2) [OF accountInvD(4) [OF inv] rd(1)] rd(2) by simp
  qed
  then show ?thesis using accountInv_updateUserTx [OF run inv] ui by simp
qed (simp add: inv)

definition idsPlain :: "env \<Rightarrow> bool" where
  "idsPlain E \<longleftrightarrow> hexFingerprints E \<and> CHR ''/'' \<notin> set (e_server_id E)"

lemma revokeInvite_Inr:
  "revokeInvite i u now d = Inr (x, d') \<Longrightarrow> (\<exists>v. rowBy iv_id i (db_invites d) = Some v \<and> iv_by v = u \<and>
      iv_claimed_at v = None \<and> iv_revoked_at v = None) \<and>
     d' = d\<lparr>db_invites := updWhere (\<lambda>v. iv_id v = i \<and> iv_claimed_at v = None \<and> iv_revoked_at v = None)
       (\<lambda>v. v\<lparr>iv_revoked_at := Some now\<rparr>) (db_invites d)\<rparr>"
  by (simp add: revokeInvite_def split: option.splits if_splits)

lemma accountStep_inv:
  assumes "accountStep E d d'" and inv: "accountInv E d" and plain: "idsPlain E"
  shows "accountInv E d'"
proof -
  have hex: "hexFingerprints E" and sv: "CHR ''/'' \<notin> set (e_server_id E)" using plain by (simp_all add: idsPlain_def)
  show ?thesis
    using assms(1)
  proof cases
    case (signedUp now device msg r fx)
    from signedUp show ?thesis
      by (rule signup_db) (use inv accountInv_signup [OF _ _ inv hex sv] in auto)
  next
    case (inviteCreated now caller msg r)
    consider "d' = d" | u m h t role perms ss where "prepareInvite E now caller msg d = Inr (u, m, h, t, role, perms, ss)"
      "insertInviteWith E (im_id m) u h t role (im_sig m) ss (e_max_invites E) perms d = Inr ((), d')"
      using createInvite_db [OF inviteCreated] by blast
    then show ?thesis
    proof cases
      case 2
      have "role \<noteq> ''''"
        using inviteGrant_Inr prepareInvite_Inr [OF 2(1)] by (fastforce simp: roleUser_def roleAdmin_def)
      then show ?thesis using insertInviteWith_Inr [OF 2(2)] accountInv_newInvite [OF inv] by auto
    qed (simp add: inv)
  next
    case (inviteDeleted now caller i r)
    then have "d' = d \<or> (\<exists>u. revokeInvite i u now d = Inr ((), d'))"
      by (auto simp: deleteInvite_def split: option.splits if_splits sum.splits)
    then show ?thesis
    proof
      assume "\<exists>u. revokeInvite i u now d = Inr ((), d')"
      then have d': "d' = d\<lparr>db_invites := updWhere (\<lambda>v. iv_id v = i \<and> iv_claimed_at v = None \<and> iv_revoked_at v = None)
        (\<lambda>v. v\<lparr>iv_revoked_at := Some now\<rparr>) (db_invites d)\<rparr>"
        using revokeInvite_Inr by blast
      show ?thesis unfolding d' by (rule accountInv_invites [OF inv]) simp
    qed (simp add: inv)
  next
    case (profileUpdated now u msg r fx)
    then show ?thesis using inv by (rule accountInv_updateUser)
  next
    case (keyRotated now msg r fx)
    from keyRotated show ?thesis
      by (rule addPublicKey_db) (use inv accountInv_addPublicKey [OF _ _ inv hex] in auto)
  next
    case (requestExecuted now a ex req)
    then show ?thesis using inv hex by (rule accountInv_executor)
  next
    case (accountRemoved cert u x)
    then show ?thesis using inv by (rule accountInv_removal)
  next
    case (peerKeyCached k sig now)
    then show ?thesis using accountInv_cached [OF inv] by blast
  next
    case otherTransaction
    then show ?thesis by (rule accountInv_same [OF inv])
  qed
qed

text \<open>The steps of a server whose fingerprints and id have no slash, with the invariant they keep.\<close>

definition plainStep :: "env \<Rightarrow> db \<Rightarrow> db \<Rightarrow> bool" where
  "plainStep E d d' \<longleftrightarrow> idsPlain E \<and> accountStep E d d'"

interpretation accounts: transition_system "plainStep E" "accountInv E" for E
  by unfold_locales (auto simp: plainStep_def intro: accountStep_inv)

lemma plain_run: "idsPlain E \<Longrightarrow> (accountStep E)\<^sup>*\<^sup>* d d' \<Longrightarrow> (plainStep E)\<^sup>*\<^sup>* d d'"
  by (erule rtranclp_induct) (auto simp: plainStep_def intro: rtranclp.rtrancl_into_rtrancl)

subsection \<open>What stays as it was\<close>

text \<open>
  Keys stay, a revoked key stays revoked for the same successor, an invite once claimed or revoked stays
  as it is, and an account keeps the invite it came from.
\<close>

definition inviteKept :: "inviteRow \<Rightarrow> inviteRow \<Rightarrow> bool" where
  "inviteKept v w \<longleftrightarrow> iv_id w = iv_id v \<and> iv_by w = iv_by v \<and> iv_token w = iv_token v \<and>
     iv_created w = iv_created v \<and> iv_role w = iv_role v \<and> iv_permissions w = iv_permissions v \<and>
     (iv_claimed_at v \<noteq> None \<or> iv_revoked_at v \<noteq> None \<longrightarrow> w = v)"

definition revocationKept :: "keyRevocationRow \<Rightarrow> keyRevocationRow \<Rightarrow> bool" where
  "revocationKept v w \<longleftrightarrow> kr_key w = kr_key v \<and> kr_successor w = kr_successor v"

definition historyKept :: "db \<Rightarrow> db \<Rightarrow> bool" where
  "historyKept d d' \<longleftrightarrow> set (db_keys d) \<subseteq> set (db_keys d') \<and>
     (\<forall>v \<in> set (db_key_revocations d). \<exists>w \<in> set (db_key_revocations d'). revocationKept v w) \<and>
     (\<forall>v \<in> set (db_invites d). \<exists>w \<in> set (db_invites d'). inviteKept v w) \<and>
     (\<forall>r \<in> set (db_users d). \<exists>s \<in> set (db_users d'). sameInvite r s)"

lemma inviteKept_refl [simp]: "inviteKept v v"
  by (simp add: inviteKept_def)

lemma inviteKept_trans: "inviteKept v w \<Longrightarrow> inviteKept w x \<Longrightarrow> inviteKept v x"
  by (auto simp: inviteKept_def)

lemma revocationKept_refl [simp]: "revocationKept v v"
  by (simp add: revocationKept_def)

lemma sameInvite_refl [simp]: "sameInvite r r"
  by (simp add: sameInvite_def)

lemma historyKept_same: "sameAccounts d d' \<Longrightarrow> historyKept d d'"
  by (auto simp: sameAccounts_def historyKept_def intro: revocationKept_refl inviteKept_refl sameInvite_refl)

lemma historyKept_refl [simp]: "historyKept d d"
  by (rule historyKept_same) simp

lemma historyKept_trans:
  assumes a: "historyKept d e" and b: "historyKept e f"
  shows "historyKept d f"
  unfolding historyKept_def
proof (intro conjI ballI)
  show "set (db_keys d) \<subseteq> set (db_keys f)" using a b by (auto simp: historyKept_def)
  fix v assume "v \<in> set (db_key_revocations d)"
  then obtain w x where "w \<in> set (db_key_revocations e)" "revocationKept v w" "x \<in> set (db_key_revocations f)" "revocationKept w x"
    using a b unfolding historyKept_def by meson
  then show "\<exists>w \<in> set (db_key_revocations f). revocationKept v w" by (auto simp: revocationKept_def)
next
  fix v assume "v \<in> set (db_invites d)"
  then obtain w x where "w \<in> set (db_invites e)" "inviteKept v w" "x \<in> set (db_invites f)" "inviteKept w x"
    using a b unfolding historyKept_def by meson
  then show "\<exists>w \<in> set (db_invites f). inviteKept v w" using inviteKept_trans by blast
next
  fix r assume "r \<in> set (db_users d)"
  then obtain s t where "s \<in> set (db_users e)" "sameInvite r s" "t \<in> set (db_users f)" "sameInvite s t"
    using a b unfolding historyKept_def by meson
  then show "\<exists>s \<in> set (db_users f). sameInvite r s" by (auto simp: sameInvite_def)
qed

text \<open>The shapes the steps have: rows appended, user rows and invites updated.\<close>

lemma historyKept_update:
  assumes "db_keys d' = db_keys d @ ks" "db_key_revocations d' = db_key_revocations d @ vs"
    and "db_invites d' = updWhere p f (db_invites d) @ ivs" "\<And>v. p v \<Longrightarrow> inviteKept v (f v)"
    and "db_users d' = updWhere q g (db_users d) @ us" "\<And>r. q r \<Longrightarrow> sameInvite r (g r)"
  shows "historyKept d d'"
  unfolding historyKept_def
proof (intro conjI ballI)
  show "set (db_keys d) \<subseteq> set (db_keys d')" by (simp add: assms(1))
  show "\<exists>w \<in> set (db_key_revocations d'). revocationKept v w" if "v \<in> set (db_key_revocations d)" for v
    using that by (intro bexI [of _ v]) (simp_all add: assms(2))
  show "\<exists>w \<in> set (db_invites d'). inviteKept v w" if "v \<in> set (db_invites d)" for v
    using that assms(4) by (intro bexI [of _ "if p v then f v else v"]) (auto simp: assms(3) set_updWhere)
  show "\<exists>s \<in> set (db_users d'). sameInvite r s" if "r \<in> set (db_users d)" for r
    using that assms(6) by (intro bexI [of _ "if q r then g r else r"]) (auto simp: assms(5) set_updWhere)
qed

lemma updWhere_False: "updWhere (\<lambda>_. False) f t = t"
  by (rule updWhere_none) simp

lemma historyKept_users: "(\<And>r. sameInvite r (f r)) \<Longrightarrow> historyKept d (updUser u f d)"
  by (rule historyKept_update [where ks = "[]" and vs = "[]" and ivs = "[]" and us = "[]"
      and p = "\<lambda>_. False" and q = "\<lambda>r. u_id r = u" and g = f]) (simp_all add: updUser_def updWhere_False)

lemma historyKept_invites:
  assumes "\<And>v. p v \<Longrightarrow> inviteKept v (f v)"
  shows "historyKept d (d\<lparr>db_invites := updWhere p f (db_invites d)\<rparr>)"
  by (rule historyKept_update [where ks = "[]" and vs = "[]" and ivs = "[]" and us = "[]"
      and q = "\<lambda>_. False" and p = p and f = f]) (simp_all add: updWhere_False assms)

lemma historyKept_revokeInvites: "historyKept d (revokeInvites p u now d)"
  unfolding revokeInvites_def by (rule historyKept_invites) (simp add: inviteKept_def)

lemma historyKept_recountersign:
  assumes "recountersignProfileTx E now u role perms d = Inr d'"
  shows "historyKept d d'"
proof -
  obtain sig where d': "d' = (updUser u (\<lambda>r. r\<lparr>u_role := role, u_server_sig := Some sig\<rparr>) d)\<lparr>db_permissions :=
      filter (\<lambda>(v, p). v \<noteq> u) (db_permissions d) @ map (\<lambda>p. (u, p)) perms\<rparr>"
    using assms(1) by (rule recountersignProfileTx_Inr) blast
  have "historyKept d (updUser u (\<lambda>r. r\<lparr>u_role := role, u_server_sig := Some sig\<rparr>) d)"
    by (rule historyKept_users) (simp add: sameInvite_def)
  moreover have "historyKept (updUser u (\<lambda>r. r\<lparr>u_role := role, u_server_sig := Some sig\<rparr>) d) d'"
    by (rule historyKept_same) (simp add: d' sameAccounts_def)
  ultimately show ?thesis by (rule historyKept_trans)
qed

lemma historyKept_removal:
  assumes "storeAccountRemovalTx E cert u d = Inr (x, d')"
  shows "historyKept d d'"
  using assms
proof (cases rule: storeAccountRemovalTx_cases)
  case (2 r)
  let ?e = "removalCore (removalRowOf cert u) u d"
  have "historyKept d ?e" by (rule historyKept_same) (simp add: sameAccounts_def)
  moreover have "historyKept ?e (updUser u clearedRow ?e)" by (rule historyKept_users) (simp add: sameInvite_def)
  moreover have "historyKept (updUser u clearedRow ?e) d'"
    by (rule historyKept_same) (simp add: 2(4) sameAccounts_def bumpActiveUsers_def)
  ultimately show ?thesis by (blast intro: historyKept_trans)
qed simp

lemma historyKept_rebind:
  assumes "rebindExecute E now req d = Inr d'"
  shows "historyKept d d'"
proof -
  obtain target revoked rsig ksig where
    d': "d' = revokeInvites (\<lambda>_. True) target (truncateSecond now)
        (updUser target (\<lambda>r. r\<lparr>u_active_key := Some (rebindKeyID E req)\<rparr>)
          ((enqueuePeerEventTx peerEventKeyRevocation revoked d)\<lparr>
              db_key_revocations := db_key_revocations d @ [\<lparr>kr_key = revoked,
                kr_reason = Some keyRevocationReasonLost, kr_user_sig = None,
                kr_request = Some (rq_id req), kr_server_sig = rsig,
                kr_successor = Some (rebindKeyID E req), kr_successor_sig = None\<rparr>],
              db_keys := db_keys d @ [\<lparr>pk_id = rebindKeyID E req, pk_owner = Some target,
                pk_armor = rq_body req, pk_created = truncateSecond now, pk_server_sig = Some ksig,
                pk_predecessor = Some revoked, pk_restricted = True\<rparr>]\<rparr>))"
    using assms by (rule rebindExecute_Inr) blast
  show ?thesis
    unfolding d'
    by (rule historyKept_trans [OF historyKept_trans [OF _ historyKept_users] historyKept_revokeInvites])
      (auto simp: sameInvite_def intro!: historyKept_update [where p = "\<lambda>_. False" and q = "\<lambda>_. False"
        and ivs = "[]" and us = "[]"] simp: updWhere_False)
qed

lemma historyKept_executor:
  assumes ex: "adminExecutorFor E now a = Some ex" and run: "ax_execute ex req d = Inr d'"
  shows "historyKept d d'"
proof -
  have loop: "historyKept d d'" if "forEach f ts d = Inr d'" "\<And>t d d'. f t d = Inr d' \<Longrightarrow> historyKept d d'"
    for f :: "string \<Rightarrow> db \<Rightarrow> err + db" and ts
    using that(1) by (rule forEach_rel) (auto intro: historyKept_trans that(2))
  have kick: "historyKept e e'" if "kickTarget E now req t e = Inr e'" for t e e'
    using that by (auto simp: kickTarget_def Let_def bindR_Inr
        intro: historyKept_trans [OF historyKept_removal historyKept_revokeInvites])
  have susp: "historyKept e (updUser t (\<lambda>r. r\<lparr>u_suspended := x\<rparr>) e)" for t e x
    by (rule historyKept_users) (simp add: sameInvite_def)
  show ?thesis
    using ex run
    by (auto simp: adminExecutorFor_def executor_defs bindR_Inr
        split: if_splits sum.splits
        intro: loop kick susp historyKept_recountersign historyKept_rebind
          historyKept_trans [OF historyKept_recountersign historyKept_revokeInvites])
qed

lemma historyKept_addPublicKey:
  assumes run: "addPublicKeyTx now ak d = Inr (x, d')" and rules: "keyRules d"
  shows "historyKept d d'"
proof -
  let ?g = "\<lambda>r. r\<lparr>u_active_key := Some (ak_id ak)\<rparr>"
  obtain v where rows: "db_keys d' = db_keys d @ [rotatedKey ak]" "db_key_revocations d' = db_key_revocations d @ [v]"
      "db_invites d' = db_invites d" and users: "db_users d' = updWhere (\<lambda>r. u_id r = ak_user ak) ?g (db_users d)"
    using addPublicKeyTx_rotates [OF run rules] by (metis updUser_rows)
  show ?thesis
    by (rule historyKept_update [where p = "\<lambda>_. False" and q = "\<lambda>r. u_id r = ak_user ak" and g = ?g and ivs = "[]" and us = "[]"])
      (simp_all add: rows users updWhere_False sameInvite_def)
qed

lemma historyKept_signup:
  assumes run: "signupTx E now (onAdminClaim E now u) si d = Inr (entry, d')"
  shows "historyKept d d'"
proof -
  let ?a = "accountRows E si d"
  let ?c = "?a\<lparr>db_invites := claimedInvites E now si ?a\<rparr>"
  have "historyKept d ?c"
  proof (cases "si_invite si")
    case None
    show ?thesis
      by (rule historyKept_update [where p = "\<lambda>_. False" and q = "\<lambda>_. False" and ivs = "[]"])
        (simp_all add: claimedInvites_def None updWhere_False)
  next
    case (Some v)
    show ?thesis
      by (rule historyKept_update [where q = "\<lambda>_. False" and ivs = "[]" and
          p = "\<lambda>w. iv_id w = iv_id v \<and> inviteClaimable now ?a w"])
        (auto simp: claimedInvites_def Some updWhere_False inviteKept_def inviteClaimable_def)
  qed
  moreover have "historyKept ?c d'" using signupTx_Inr [OF run] by (auto intro: historyKept_same)
  ultimately show ?thesis by (rule historyKept_trans)
qed

lemma historyKept_updateUserTx: "updateUserTx E ui d = Inr (x, d') \<Longrightarrow> historyKept d d'"
proof -
  assume "updateUserTx E ui d = Inr (x, d')"
  then obtain f where d': "db_users d' = updWhere (\<lambda>r. u_id r = ui_user ui) f (db_users d)" "\<And>r. sameInvite r (f r)"
    "db_keys d' = db_keys d" "db_key_revocations d' = db_key_revocations d" "db_invites d' = db_invites d"
    by (auto simp: updateUserTx_def updUser_def sameInvite_def split: if_splits option.splits)
  show ?thesis
    by (rule historyKept_update [where p = "\<lambda>_. False" and q = "\<lambda>r. u_id r = ui_user ui" and g = f
        and ks = "[]" and vs = "[]" and ivs = "[]" and us = "[]"]) (simp_all add: d' updWhere_False)
qed

lemma historyKept_cached: "historyKept d (cachePeerUserKey k sig now d)"
proof -
  have "sameAccounts d (upsertIdentity (key_user k) d)" by (auto simp: sameAccounts_def upsertIdentity_def)
  then have "historyKept d (upsertIdentity (key_user k) d)" by (rule historyKept_same)
  moreover have "historyKept e (e\<lparr>db_keys := db_keys e @ ks\<rparr>)" for e ks
    by (rule historyKept_update [where p = "\<lambda>_. False" and q = "\<lambda>_. False" and vs = "[]" and ivs = "[]" and us = "[]"])
      (simp_all add: updWhere_False)
  ultimately show ?thesis by (auto simp: cachePeerUserKey_def Let_def intro: historyKept_trans)
qed

lemma accountStep_history:
  assumes "accountStep E d d'" and inv: "accountInv E d"
  shows "historyKept d d'"
  using assms(1)
proof cases
  case (signedUp now device msg r fx)
  from signedUp show ?thesis by (rule signup_db) (auto intro: historyKept_signup)
next
  case (inviteCreated now caller msg r)
  consider "d' = d" | u m h t role perms ss where "prepareInvite E now caller msg d = Inr (u, m, h, t, role, perms, ss)"
    "insertInviteWith E (im_id m) u h t role (im_sig m) ss (e_max_invites E) perms d = Inr ((), d')"
    using createInvite_db [OF inviteCreated] by blast
  then show ?thesis
  proof cases
    case 2
    have "role \<noteq> ''''"
      using inviteGrant_Inr prepareInvite_Inr [OF 2(1)] by (fastforce simp: roleUser_def roleAdmin_def)
    then obtain v where "d' = d\<lparr>db_invites := db_invites d @ [v]\<rparr>" using insertInviteWith_Inr [OF 2(2)] by blast
    then show ?thesis
      by (intro historyKept_update [where p = "\<lambda>_. False" and q = "\<lambda>_. False" and ks = "[]" and vs = "[]" and us = "[]"])
        (simp_all add: updWhere_False)
  qed simp
next
  case (inviteDeleted now caller i r)
  then have "d' = d \<or> (\<exists>u. revokeInvite i u now d = Inr ((), d'))"
    by (auto simp: deleteInvite_def split: option.splits if_splits sum.splits)
  then show ?thesis
  proof
    assume "\<exists>u. revokeInvite i u now d = Inr ((), d')"
    then have d': "d' = d\<lparr>db_invites := updWhere (\<lambda>v. iv_id v = i \<and> iv_claimed_at v = None \<and> iv_revoked_at v = None)
      (\<lambda>v. v\<lparr>iv_revoked_at := Some now\<rparr>) (db_invites d)\<rparr>"
      using revokeInvite_Inr by blast
    show ?thesis unfolding d' by (rule historyKept_invites) (simp add: inviteKept_def)
  qed simp
next
  case (profileUpdated now u msg r fx)
  then show ?thesis using updateUser_db [OF profileUpdated] by (auto intro: historyKept_updateUserTx)
next
  case (keyRotated now msg r fx)
  from keyRotated show ?thesis
    by (rule addPublicKey_db) (use accountInvD(1) [OF inv] in \<open>auto intro: historyKept_addPublicKey\<close>)
next
  case (requestExecuted now a ex req)
  then show ?thesis by (blast intro: historyKept_executor)
next
  case (accountRemoved cert u x)
  then show ?thesis by (rule historyKept_removal)
next
  case (peerKeyCached k sig now)
  then show ?thesis using historyKept_cached by blast
next
  case otherTransaction
  then show ?thesis by (rule historyKept_same)
qed

lemma run_inv: "(accountStep E)\<^sup>*\<^sup>* d d' \<Longrightarrow> idsPlain E \<Longrightarrow> accountInv E d \<Longrightarrow> accountInv E d'"
  using accounts.inv_reachable [OF plain_run] by blast

lemma run_history:
  assumes run: "(accountStep E)\<^sup>*\<^sup>* d d'" and plain: "idsPlain E" and inv: "accountInv E d"
  shows "historyKept d d'"
proof (rule accounts.relation_reachable [OF plain_run [OF plain run] inv])
  show "historyKept d b" if "accountInv E a" "plainStep E a b" "historyKept d a" for a b
    using that by (auto simp: plainStep_def intro: historyKept_trans accountStep_history)
qed simp

end
