(* ===== verification/AccountProperties.thy ===== *)
theory AccountProperties
  imports AccountRules SmallServer
begin

text \<open>
  The properties of accounts, invites and keys: what holds after any run of the account routes, and
  what a route that answers with success has checked and stored.
\<close>

subsection \<open>Keys\<close>

text \<open>
  C16.  Whatever routes run, each user has exactly one key that isn't revoked, and the user's row points
  at it.
\<close>

theorem one_active_key:
  assumes "idsPlain E" "accountInv E d" "(accountStep E)\<^sup>*\<^sup>* d d'" "r \<in> set (db_users d')"
  shows "\<exists>k \<in> set (db_keys d'). u_active_key r = Some (pk_id k) \<and>
    (\<forall>c \<in> set (db_keys d'). pk_owner c = Some (u_id r) \<and> pk_id c \<notin> kr_key ` set (db_key_revocations d') \<longleftrightarrow> c = k)"
proof -
  have inv: "accountInv E d'" using run_inv assms by blast
  note a = activeKeyOfD [OF userRulesD(2) [OF accountInvD(2) [OF inv] assms(4)]]
  obtain k where k: "k \<in> set (db_keys d')" "u_active_key r = Some (pk_id k)" "pk_owner k = Some (u_id r)"
    "pk_id k \<notin> revokedKeys d'" using a(3) by blast
  have "c = k" if c: "c \<in> set (db_keys d')" "pk_owner c = Some (u_id r)" "pk_id c \<notin> revokedKeys d'" for c
  proof -
    have "pk_id c = pk_id k" using a(4) c k(2) by simp
    then show ?thesis using uniqueBy_inj [OF keyRulesD(1) [OF accountInvD(1) [OF inv]] c(1) k(1)] by blast
  qed
  then have "pk_owner c = Some (u_id r) \<and> pk_id c \<notin> kr_key ` set (db_key_revocations d') \<longleftrightarrow> c = k"
    if "c \<in> set (db_keys d')" for c using that k(3,4) unfolding revokedKeys_def by blast
  then show ?thesis using k(1,2) by blast
qed

text \<open>
  C17.  A key once revoked for a successor stays so: from then on it is known, it has that one
  successor, and every key that names it as its predecessor is the same one.
\<close>

theorem rotation_never_forks:
  assumes "idsPlain E" "accountInv E d" "(accountStep E)\<^sup>*\<^sup>* d d'" "v \<in> set (db_key_revocations d)"
  shows "\<exists>s \<in> set (db_keys d'). kr_successor v = Some (pk_id s) \<and>
    (\<exists>w \<in> set (db_key_revocations d'). kr_key w = kr_key v \<and> kr_successor w = Some (pk_id s)) \<and>
    (\<forall>c \<in> set (db_keys d'). pk_predecessor c = Some (kr_key v) \<longleftrightarrow> c = s)"
proof -
  have inv: "accountInv E d'" and hist: "historyKept d d'" using run_inv run_history assms by blast+
  note rules = accountInvD(1) [OF inv]
  obtain w where w: "w \<in> set (db_key_revocations d')" "kr_key w = kr_key v" "kr_successor w = kr_successor v"
    using hist assms(4) by (auto simp: historyKept_def revocationKept_def)
  obtain s where s: "s \<in> set (db_keys d')" "kr_successor w = Some (pk_id s)" "pk_predecessor s = Some (kr_key w)"
    using keyRulesD(5) [OF rules w(1)] by blast
  have "c = s" if c: "c \<in> set (db_keys d')" "pk_predecessor c = Some (kr_key v)" for c
  proof -
    obtain x where "x \<in> set (db_key_revocations d')" "kr_key x = kr_key v" "kr_successor x = Some (pk_id c)"
      using keyRulesD(6) [OF rules c] by blast
    then have "pk_id c = pk_id s" using w s(2) uniqueBy_inj [OF keyRulesD(2) [OF rules]] by (metis option.inject)
    then show ?thesis using uniqueBy_inj [OF keyRulesD(1) [OF rules] c(1) s(1)] by blast
  qed
  then have "pk_predecessor c = Some (kr_key v) \<longleftrightarrow> c = s" if "c \<in> set (db_keys d')" for c
    using that s(3) w(2) by metis
  then show ?thesis using w s(1,2) by metis
qed


lemma createInvite_Done:
  assumes "createInvite E now caller msg d = (Done c w, d')"
  shows "\<exists>u m h t role perms ss. prepareInvite E now caller msg d = Inr (u, m, h, t, role, perms, ss) \<and>
    insertInviteWith E (im_id m) u h t role (im_sig m) ss (e_max_invites E) perms d = Inr ((), d')"
proof (cases "prepareInvite E now caller msg d")
  case (Inl e)
  then show ?thesis using assms by (auto simp: createInvite_def split: prod.splits)
next
  case (Inr p)
  obtain u m h t role perms ss where p: "p = (u, m, h, t, role, perms, ss)" by (cases p) auto
  have "insertInviteWith E (im_id m) u h t role (im_sig m) ss (e_max_invites E) perms d = Inr ((), d')"
    using assms Inr by (auto simp: createInvite_def withAdminTx_def p split: if_splits sum.splits)
  then show ?thesis using Inr p by blast
qed

subsection \<open>Invites\<close>

text \<open>
  C19.  An invite once claimed or revoked stays as it is whatever runs; at most one account comes from
  it, and none from a revoked one.
\<close>

theorem invite_claimed_once:
  assumes "idsPlain E" "accountInv E d" "(accountStep E)\<^sup>*\<^sup>* d d'" "v \<in> set (db_invites d)"
    and closed: "iv_claimed_at v \<noteq> None \<or> iv_revoked_at v \<noteq> None"
  shows "v \<in> set (db_invites d') \<and> (iv_revoked_at v \<noteq> None \<longrightarrow> iv_claimed_by v = None) \<and>
    (\<forall>r \<in> set (db_users d'). u_invite r = Some (iv_id v) \<longleftrightarrow> iv_claimed_by v = Some (u_id r))"
proof -
  have inv: "accountInv E d'" and hist: "historyKept d d'" using run_inv run_history assms(1-3) by blast+
  note rules = accountInvD(3) [OF inv] and users = userRulesD(1) [OF accountInvD(2) [OF inv]]
  have v: "v \<in> set (db_invites d')" using hist assms(4) closed by (fastforce simp: historyKept_def inviteKept_def)
  have "u_invite r = Some (iv_id v) \<longleftrightarrow> iv_claimed_by v = Some (u_id r)" if r: "r \<in> set (db_users d')" for r
  proof
    assume "u_invite r = Some (iv_id v)"
    then obtain w where "w \<in> set (db_invites d')" "iv_id w = iv_id v" "iv_claimed_by w = Some (u_id r)"
      using inviteRulesD(6) [OF rules r] by blast
    then show "iv_claimed_by v = Some (u_id r)" using uniqueBy_inj [OF inviteRulesD(1) [OF rules] _ v] by blast
  next
    assume "iv_claimed_by v = Some (u_id r)"
    then obtain s where "s \<in> set (db_users d')" "u_id s = u_id r" "u_invite s = Some (iv_id v)"
      using inviteRulesD(5) [OF rules v] by blast
    then show "u_invite r = Some (iv_id v)" using uniqueBy_inj [OF users _ r] by blast
  qed
  moreover have "iv_claimed_by v = None" if "iv_revoked_at v \<noteq> None"
    using inviteRulesD(4) [OF rules v] that by (cases "iv_claimed_by v") auto
  ultimately show ?thesis using v by blast
qed

text \<open>
  C22.  Creating an invite stays within the caller's quota and adds just that invite: the id is the
  caller's, the hash and the id are new, and an admin invite grants only permissions its creator holds.
\<close>

theorem invite_quota:
  assumes "createInvite E now caller msg d = (Done 201 w, d')"
  shows "\<exists>u limit v. caller = Some u \<and> inviteLimitQ d u (e_server_id E) (e_max_invites E) = Inr limit \<and>
    db_invites d' = db_invites d @ [v] \<and> iv_by v = u \<and> authorOf (iv_id v) = Some u \<and>
    iv_claimed_at v = None \<and> iv_revoked_at v = None \<and>
    iv_id v \<notin> iv_id ` set (db_invites d) \<and> iv_token v \<notin> iv_token ` set (db_invites d) \<and>
    (0 \<le> limit \<longrightarrow> int (length (filter (\<lambda>i. iv_by i = u) (db_invites d'))) \<le> limit) \<and>
    (if iv_role v = roleAdmin then set (permAdminCreate # iv_permissions v) \<subseteq> set (getUserPermissions E d u)
     else iv_permissions v = [])"
proof -
  obtain u m h t role perms ss where prep: "prepareInvite E now caller msg d = Inr (u, m, h, t, role, perms, ss)"
    and ins: "insertInviteWith E (im_id m) u h t role (im_sig m) ss (e_max_invites E) perms d = Inr ((), d')"
    using createInvite_Done [OF assms] by blast
  note p = prepareInvite_Inr [OF prep]
  note g = inviteGrant_Inr [of E "truncateSecond now" u m d t role perms] and tok = inviteToken_Inr [of E u m h]
  have role: "role \<in> {roleUser, roleAdmin}" "role \<noteq> ''''" using p g by (auto simp: roleUser_def roleAdmin_def)
  obtain limit where i: "inviteLimitQ d u (e_server_id E) (e_max_invites E) = Inr limit"
    "limit < 0 \<or> int (length (invitesOf d u)) < limit" "im_id m \<notin> iv_id ` set (db_invites d)"
    "h \<notin> iv_token ` set (db_invites d)"
    "d' = d\<lparr>db_invites := db_invites d @ [newInvite (im_id m) u h t role (im_sig m) ss perms]\<rparr>"
    using insertInviteWith_Inr [OF ins role(2)] by blast
  have "if role = roleAdmin then set (permAdminCreate # perms) \<subseteq> set (getUserPermissions E d u) else perms = []"
    using invitePermissions_None [of E u role perms d] p g by auto
  then show ?thesis
    using i p tok
    by (intro exI [of _ u] exI [of _ limit] exI [of _ "newInvite (im_id m) u h t role (im_sig m) ss perms"])
      (auto simp: invitesOf_def)
qed

text \<open>
  C21.  Whatever routes run, the tables refer to each other properly: a user has an identity, a key in
  use whose id is under their own, and the invite they came from; a revoked key and its successor are
  both known; who claimed an invite has an account; and no two users have names that differ in case only.
\<close>

theorem account_rows:
  assumes "idsPlain E" "accountInv E d" "(accountStep E)\<^sup>*\<^sup>* d d'"
  shows "(\<forall>r \<in> set (db_users d'). u_id r \<in> set (db_identities d') \<and>
      (\<exists>f k. k \<in> set (db_keys d') \<and> u_active_key r = Some (pk_id k) \<and> pk_id k = appendEntity (u_id r) f \<and> CHR ''/'' \<notin> set f) \<and>
      (\<forall>i. u_invite r = Some i \<longrightarrow> i \<in> iv_id ` set (db_invites d')) \<and>
      (\<forall>s \<in> set (db_users d'). r \<noteq> s \<longrightarrow> u_id r \<noteq> u_id s \<and>
        (\<forall>n m. u_username r = Some n \<and> u_username s = Some m \<longrightarrow> e_lower E n \<noteq> e_lower E m))) \<and>
    (\<forall>v \<in> set (db_key_revocations d'). kr_key v \<in> pk_id ` set (db_keys d') \<and>
      kr_successor v \<in> (Some \<circ> pk_id) ` set (db_keys d')) \<and>
    (\<forall>v \<in> set (db_invites d'). \<forall>u. iv_claimed_by v = Some u \<longrightarrow> u \<in> u_id ` set (db_users d'))"
proof -
  have inv: "accountInv E d'" using run_inv assms by blast
  note known = ownersKnownD [OF accountInvD(5) [OF inv]] and keys = keyRulesD [OF accountInvD(1) [OF inv]]
    and users = userRulesD [OF accountInvD(2) [OF inv]] and invites = inviteRulesD [OF accountInvD(3) [OF inv]]
    and names = nameRulesD [OF accountInvD(4) [OF inv]]
  have "\<exists>f k. k \<in> set (db_keys d') \<and> u_active_key r = Some (pk_id k) \<and> pk_id k = appendEntity (u_id r) f \<and> CHR ''/'' \<notin> set f"
    if r: "r \<in> set (db_users d')" for r
    using activeKeyOfD(2,3) [OF users(2) [OF r]] by (metis option.inject)
  moreover have "u_id r \<noteq> u_id s \<and> (\<forall>n m. u_username r = Some n \<and> u_username s = Some m \<longrightarrow> e_lower E n \<noteq> e_lower E m)"
    if "r \<in> set (db_users d')" "s \<in> set (db_users d')" "r \<noteq> s" for r s
    using that names(1) uniqueBy_inj [OF users(1)] by metis
  moreover have "i \<in> iv_id ` set (db_invites d')" if "r \<in> set (db_users d')" "u_invite r = Some i" for r i
    using invites(6) [OF that] by blast
  moreover have "kr_key v \<in> pk_id ` set (db_keys d') \<and> kr_successor v \<in> (Some \<circ> pk_id) ` set (db_keys d')"
    if v: "v \<in> set (db_key_revocations d')" for v
    using keys(5) [OF v] keys(4) v by (auto simp: revokedKeys_def)
  moreover have "u \<in> u_id ` set (db_users d')" if "v \<in> set (db_invites d')" "iv_claimed_by v = Some u" for v u
    using invites(5) [OF that] by blast
  ultimately show ?thesis using known(2) by (intro conjI ballI allI impI) blast+
qed

subsection \<open>Signing up\<close>

lemma signup_Done:
  assumes "signup E now device msg d = (Done c self, d', fx)"
  shows "\<exists>si entry. prepareSignup E now device msg d = Inr si \<and> self = canonicalID (e_server_id E) (si_user si) \<and>
    signupTx E now (onAdminClaim E now (si_user si)) si d = Inr (entry, d')"
proof (cases "prepareSignup E now device msg d")
  case (Inl e)
  then show ?thesis using assms by (simp add: signup_def split: prod.splits)
next
  case (Inr si)
  show ?thesis
  proof (cases "signupTx E now (onAdminClaim E now (si_user si)) si d")
    case (Inl e)
    then show ?thesis using assms Inr by (simp add: signup_def withAdminTx_def Let_def split: if_splits)
  next
    case tx: (Inr p)
    then show ?thesis
      using assms Inr by (cases p) (simp add: signup_def withAdminTx_def Let_def split: sum.splits)
  qed
qed

text \<open>An admin invite's grants, read where the account has been stored.\<close>

lemma grantInvite_held:
  assumes "grantInvite E (onAdminClaim E now u) si d = Inr (entry, d')" "si_invite si = Some v" "signupRoleOf E si = roleAdmin"
  shows "\<exists>w. rowBy iv_id (iv_id v) (db_invites d) = Some w \<and> set (permAdminCreate # iv_permissions w) \<subseteq>
      set (userPermissionsQ d' (iv_by w) (userRoleQ d' (iv_by w)) (e_server_id E)) \<and>
    db_permissions d' = db_permissions d @ map (\<lambda>p. (canonicalID (e_server_id E) (si_user si), p)) (iv_permissions w) \<and>
    entry \<noteq> None"
proof -
  obtain w where w: "rowBy iv_id (iv_id v) (db_invites d) = Some w"
    using assms by (cases "rowBy iv_id (iv_id v) (db_invites d)")
      (auto simp: grantInvite_def Let_def onAdminClaim_def adminInviteClaimEntryTx_def split: sum.splits)
  let ?d = "d\<lparr>db_permissions := db_permissions d @ map (\<lambda>p. (canonicalID (e_server_id E) (si_user si), p)) (iv_permissions w)\<rparr>"
  obtain e where e: "onAdminClaim E now u (iv_id v) ?d = Inr (e, d')" "entry = Some e"
    using assms w by (auto simp: grantInvite_def Let_def split: if_splits sum.splits)
  obtain t n where d': "d' = ?d\<lparr>db_ledger := t, db_ledger_seq := n\<rparr>" using onAdminClaim_same [OF e(1)] by blast
  have same: "userPermissionsQ d' u (userRoleQ d' u) x = userPermissionsQ ?d u (userRoleQ ?d u) x" for u x
    by (simp add: d' userPermissionsQ_def userRoleQ_def userRow_def)
  have "\<not> (\<exists>p \<in> set (permAdminCreate # sortStrings (iv_permissions w)).
      p \<notin> set (userPermissionsQ ?d (iv_by w) (userRoleQ ?d (iv_by w)) (e_server_id E)))"
    using e(1) w by (simp add: onAdminClaim_def bindR_Inr adminInviteClaimEntryTx_def Let_def split: if_splits)
  then have "set (permAdminCreate # iv_permissions w) \<subseteq> set (userPermissionsQ d' (iv_by w) (userRoleQ d' (iv_by w)) (e_server_id E))"
    unfolding same by (simp add: subset_eq)
  then show ?thesis using w e(2) by (simp add: d')
qed

text \<open>
  C18.  While sign-up needs an invite, an account is made only for whoever brings an invite's id and
  secret: it is claimed by the new account, was neither claimed nor revoked, and its creator isn't
  suspended.  An admin is made only from an admin invite younger than a day whose creator still holds all
  it grants and the permission to make admins.
\<close>

theorem signup_needs_invite:
  assumes "signup E now device msg d = (Done 201 self, d', fx)" "e_signup_mode E = signupModeInvite" "accountInv E0 d"
  shows "\<exists>m v r. msg = Some m \<and> v \<in> set (db_invites d) \<and> iv_id v = trimSpace (su_invite_id m) \<and>
    iv_token v = e_hash E (trimSpace (su_invite_secret m)) \<and> iv_claimed_at v = None \<and> iv_revoked_at v = None \<and>
    \<not> inviterSuspended d (iv_by v) \<and>
    v\<lparr>iv_claimed_at := Some (truncateSecond now), iv_claimed_by := Some self\<rparr> \<in> set (db_invites d') \<and>
    self \<notin> u_id ` set (db_users d) \<and> r \<in> set (db_users d') \<and> u_id r = self \<and> u_invite r = Some (iv_id v) \<and>
    u_role r = (if iv_role v = roleAdmin then roleAdmin else roleUser) \<and>
    (iv_role v = roleAdmin \<longrightarrow> timeSub now (iv_created v) < 24 * int hour \<and>
      set (permAdminCreate # iv_permissions v) \<subseteq>
        set (userPermissionsQ d' (iv_by v) (userRoleQ d' (iv_by v)) (e_server_id E)))"
proof -
  obtain si entry where prep: "prepareSignup E now device msg d = Inr si" and self: "self = canonicalID (e_server_id E) (si_user si)"
    and run: "signupTx E now (onAdminClaim E now (si_user si)) si d = Inr (entry, d')"
    using signup_Done [OF assms(1)] by blast
  let ?a = "accountRows E si d"
  let ?c = "?a\<lparr>db_invites := claimedInvites E now si ?a\<rparr>"
  obtain m where m: "msg = Some m" "signupForm E device m = Inr (si_username si, si_device si, si_user si)"
    "signupInvite E now (su_invite_id m) (su_invite_secret m) d = Inr (si_invite si)" "si_since si = truncateSecond now"
    using prepareSignup_Inr [OF prep] by blast
  have "si_invite si \<noteq> None" using signupInvite_Inr [OF m(3)] assms(2) by blast
  then obtain v where si: "si_invite si = Some v" by blast
  then have "lookUpInvite E now d (trimSpace (su_invite_id m)) (trimSpace (su_invite_secret m)) = Some v"
    using signupInvite_Inr [OF m(3)] by simp
  then have v: "v \<in> set (db_invites d)" "iv_id v = trimSpace (su_invite_id m)"
    "iv_token v = e_hash E (trimSpace (su_invite_secret m))" "\<not> inviterSuspended d (iv_by v)"
    using lookUpInvite_Some by fastforce+
  note tx = signupTx_Inr [OF run]
  have claimable: "inviteClaimable now ?a v"
    using tx si uniqueBy_inj [OF inviteRulesD(1) [OF accountInvD(3) [OF assms(3)]] _ v(1)] by blast
  have role: "signupRoleOf E si = (if iv_role v = roleAdmin then roleAdmin else roleUser)"
  proof -
    have "si_user si \<noteq> rootUserID" "CHR ''@'' \<notin> set (si_user si)"
      using signupForm_Inr [OF m(2)] isValidCryptoID_no_separator by (auto simp: idSeparator_def)
    then have "\<not> isRootIdentity (si_user si) (e_server_id E)"
      by (auto simp: isRootIdentity_def canonicalID_def canonicalIDs_def idSeparator_def)
    then show ?thesis using si by (simp add: signupRoleOf_def signupRole_def roleFromInviteGrant_def)
  qed
  have fields: "db_users d' = db_users d @ [signupRow self (signupRoleOf E si) si]"
    "db_invites d' = claimedInvites E now si ?a"
    using tx by (simp_all add: sameAccounts_def self)
  have "v\<lparr>iv_claimed_at := Some (truncateSecond now), iv_claimed_by := Some self\<rparr> \<in> set (db_invites d')"
    using v(1) claimable by (auto simp: fields claimedInvites_def si set_updWhere m(4) self)
  moreover have "timeSub now (iv_created v) < 24 * int hour" if "iv_role v = roleAdmin"
    using claimable that by (simp add: inviteClaimable_def adminInviteTTL_def)
  moreover have "self \<notin> u_id ` set (db_users d)"
    using tx ownersKnownD(2) [OF accountInvD(5) [OF assms(3)]] self by (metis imageE)
  moreover have "set (permAdminCreate # iv_permissions v) \<subseteq>
      set (userPermissionsQ d' (iv_by v) (userRoleQ d' (iv_by v)) (e_server_id E))" if admin: "iv_role v = roleAdmin"
  proof -
    obtain d3 where gr: "grantInvite E (onAdminClaim E now (si_user si)) si ?c = Inr (entry, d3)"
      and d3: "db_users d' = db_users d3" "db_permissions d' = db_permissions d3"
      using tx by blast
    obtain w where w: "rowBy iv_id (iv_id v) (db_invites ?c) = Some w" and held: "set (permAdminCreate # iv_permissions w) \<subseteq>
        set (userPermissionsQ d3 (iv_by w) (userRoleQ d3 (iv_by w)) (e_server_id E))"
      using grantInvite_held [OF gr si] role admin by auto
    have "iv_permissions w = iv_permissions v \<and> iv_by w = iv_by v"
    proof -
      have "w \<in> set (claimedInvites E now si ?a)" "iv_id w = iv_id v" using rowBy_Some [OF w] by simp_all
      then show ?thesis
        using claimed_cases uniqueBy_inj [OF inviteRulesD(1) [OF accountInvD(3) [OF assms(3)]] _ v(1)] by fastforce
    qed
    moreover have "userPermissionsQ d' u (userRoleQ d' u) x = userPermissionsQ d3 u (userRoleQ d3 u) x" for u x
      by (simp add: userPermissionsQ_def userRoleQ_def userRow_def d3)
    ultimately show ?thesis using held by simp
  qed
  ultimately show ?thesis
    using m(1) v claimable fields role si
    by (intro exI [of _ m] exI [of _ v] exI [of _ "signupRow self (signupRoleOf E si) si"])
      (simp add: inviteClaimable_def)
qed

subsection \<open>Examples\<close>

text \<open>
  The small server with countersigned keys and its own key, where \<open>u\<close> rotates a key and invites someone.
\<close>

definition signedDb :: db where
  "signedDb = aDb\<lparr>db_keys := map (\<lambda>u. (aKey u)\<lparr>pk_server_sig := Some noServerSig\<rparr>) [''1'', ''a'', ''b'', ''u'', ''v''] @
     [\<lparr>pk_id = ''f@s'', pk_owner = None, pk_armor = ''k'', pk_created = 0, pk_server_sig = None,
       pk_predecessor = None, pk_restricted = False\<rparr>]\<rparr>"

definition aDay :: gotime where "aDay = 24 * hour"

lemma signedDb_plain: "idsPlain aServer"
  by (simp add: idsPlain_def hexFingerprints_def aServer_def)

lemma signedDb_keys: "keyRules signedDb"
  by (simp add: keyRules_def signedDb_def aDb_def aKey_def revokedKeys_def)

lemma signedDb_users: "userRules signedDb"
proof -
  have "activeKeyOf signedDb (aUser u role)" if "u \<in> {''1'', ''a'', ''b'', ''u'', ''v''}" for u role
    using that
    by (auto simp: activeKeyOf_def revokedKeys_def signedDb_def aDb_def aKey_def aUser_def appendEntity_def
        intro!: exI [of _ "''k''"])
  moreover have "set (db_users signedDb) = {aUser ''1'' roleRoot, aUser ''a'' roleAdmin, aUser ''b'' roleAdmin,
      aUser ''u'' roleUser, aUser ''v'' roleUser}"
    by (simp add: signedDb_def aDb_def)
  moreover have "uniqueBy u_id (db_users signedDb)" by (simp add: signedDb_def aDb_def aUser_def)
  ultimately show ?thesis unfolding userRules_def by simp
qed

lemma signedDb_inv: "accountInv aServer signedDb"
proof -
  have "ownersKnown signedDb" by (simp add: ownersKnown_def signedDb_def aDb_def aKey_def aUser_def)
  moreover have "inviteRules signedDb" by (simp add: inviteRules_def signedDb_def aDb_def aUser_def)
  moreover have "nameRules aServer signedDb"
    by (simp add: nameRules_def nameAllowed_def signedDb_def aDb_def aUser_def equalFold_def aServer_def rootUsername_def
        isReservedUsername_def reservedUsernames_def)
  ultimately show ?thesis using signedDb_keys signedDb_users by (simp add: accountInv_def)
qed

definition rotateMsg :: addKeyMsg where
  "rotateMsg = \<lparr>km_user_id = ''u@s'', km_revoked_key_signature = ''q'', km_new_key_signature = ''q'',
     km_revocation_reason = ''r'', km_revocation_user_signature = ''q'', km_public_key = ''x'',
     km_revoked_key_fingerprint = ''k''\<rparr>"

definition rotateInput :: addKeyInput where
  "rotateInput = \<lparr>ak_id = ''u@s/n'', ak_user = ''u@s'', ak_created = 0, ak_armor = ''x'',
     ak_server_sig = \<lparr>ss_id = ''f@s'', ss_armor = ''a'', ss_at = aDay\<rparr>, ak_predecessor = ''u@s/k'', ak_handoff = ''q'',
     ak_reason = ''r'', ak_revocation_sig = ''q'',
     ak_revocation_server_sig = \<lparr>ss_id = ''f@s'', ss_armor = ''a'', ss_at = aDay\<rparr>\<rparr>"

lemma trim_short [simp]: "trimSpace ''u@s'' = ''u@s''" "trimSpace ''q'' = ''q''" "trimSpace ''x'' = ''x''"
  "trimSpace ''k'' = ''k''" "trimSpace ''i'' = ''i''" "trimSpace ''r'' = ''r''" "trimSpace ''0'' = ''0''"
  by code_simp+

lemma rotate_prepared: "prepareAddKey aServer aDay (Some rotateMsg) signedDb = Inr rotateInput"
proof -
  have "getPublicKey signedDb ''u@s/k'' = Some \<lparr>key_id = ''u@s/k'', key_user = ''u@s'', key_armor = ''k'',
      key_revoked = False, key_restricted = False\<rparr>"
    by (simp add: getPublicKey_def signedDb_def aDb_def aKey_def)
  moreover have "appendEntity ''u@s'' ''k'' = ''u@s/k''" "appendEntity ''u@s'' ''n'' = ''u@s/n''"
    by (simp_all add: appendEntity_def)
  moreover have "truncateSecond aDay = aDay" by (simp add: truncateSecond_def aDay_def hour_def minute_def second_def)
  moreover have "e_key_created aServer a = 0" for a by (simp add: aServer_def)
  ultimately show ?thesis by (simp add: prepareAddKey_def rotateMsg_def rotateInput_def Let_def)
qed

lemma rotate_stored: "\<exists>d'. addPublicKeyTx aDay rotateInput signedDb = Inr ((), d')"
proof -
  have "\<exists>d1. revokePredecessor aDay rotateInput signedDb = Inr ((), d1) \<and> \<not> hasActiveKey d1 ''u@s''"
    by (simp add: revokePredecessor_def rotateInput_def signedDb_def aDb_def aKey_def noServerSig_def
        keyRotationCooldown_def timeSub_def aDay_def hasActiveKey_def hour_def minute_def second_def)
  then obtain d1 where d1: "revokePredecessor aDay rotateInput signedDb = Inr ((), d1)" "\<not> hasActiveKey d1 ''u@s''" by blast
  have "ak_predecessor rotateInput = ''u@s/k''" "ak_user rotateInput = ''u@s''" "ak_id rotateInput = ''u@s/n''"
    by (simp_all add: rotateInput_def)
  moreover have "''u@s'' \<in> set (db_identities signedDb)" "''u@s/n'' \<notin> pk_id ` set (db_keys signedDb)"
    by (simp_all add: signedDb_def aDb_def aKey_def)
  ultimately show ?thesis using d1 by (simp add: addPublicKeyTx_def)
qed

lemma rotate_done: "\<exists>d' fx. addPublicKey aServer aDay (Some rotateMsg) signedDb = (Done 200 ''u@s/n'', d', fx)"
  using rotate_stored by (auto simp: addPublicKey_def rotate_prepared withAdminTx_def rotateInput_def)

text \<open>The server once \<open>u\<close> has rotated the key.\<close>

definition rotatedDb :: db where
  "rotatedDb = fst (snd (addPublicKey aServer aDay (Some rotateMsg) signedDb))"

lemma rotated: "\<exists>fx. addPublicKey aServer aDay (Some rotateMsg) signedDb = (Done 200 ''u@s/n'', rotatedDb, fx)"
  using rotate_done by (auto simp: rotatedDb_def)

lemma rotated_step: "accountStep aServer signedDb rotatedDb"
  using rotated keyRotated by blast

lemma rotated_inv: "accountInv aServer rotatedDb"
  using accountStep_inv [OF rotated_step signedDb_inv signedDb_plain] .

lemma rotated_rows:
  "\<exists>v \<in> set (db_key_revocations rotatedDb). kr_key v = ''u@s/k''" "aUser ''a'' roleAdmin \<in> set (db_users rotatedDb)"
  "\<exists>r \<in> set (db_users rotatedDb). u_id r = ''u@s'' \<and> u_active_key r = Some ''u@s/n''"
proof -
  have tx: "addPublicKeyTx aDay rotateInput signedDb = Inr ((), rotatedDb)"
    using rotate_stored by (auto simp: rotatedDb_def addPublicKey_def rotate_prepared withAdminTx_def)
  have ak: "ak_predecessor rotateInput = ''u@s/k''" "ak_user rotateInput = ''u@s''" "ak_id rotateInput = ''u@s/n''"
    by (simp_all add: rotateInput_def)
  obtain v where v: "kr_key v = ak_predecessor rotateInput" "db_key_revocations rotatedDb = db_key_revocations signedDb @ [v]"
    and u: "db_users rotatedDb = db_users (updUser (ak_user rotateInput) (\<lambda>r. r\<lparr>u_active_key := Some (ak_id rotateInput)\<rparr>) signedDb)"
    using addPublicKeyTx_rotates [OF tx signedDb_keys] by metis
  show "\<exists>v \<in> set (db_key_revocations rotatedDb). kr_key v = ''u@s/k''" using v ak by simp
  show "aUser ''a'' roleAdmin \<in> set (db_users rotatedDb)"
    "\<exists>r \<in> set (db_users rotatedDb). u_id r = ''u@s'' \<and> u_active_key r = Some ''u@s/n''"
    by (simp_all add: u ak updUser_rows updWhere_def signedDb_def aDb_def aUser_def)
qed

theorem one_active_key_witness:
  "\<exists>r \<in> set (db_users rotatedDb). \<exists>k. u_active_key r = Some ''u@s/n'' \<and> pk_id k = ''u@s/n'' \<and>
    {c \<in> set (db_keys rotatedDb). pk_owner c = Some (u_id r) \<and> pk_id c \<notin> kr_key ` set (db_key_revocations rotatedDb)} = {k}"
proof -
  obtain r where r: "r \<in> set (db_users rotatedDb)" "u_active_key r = Some ''u@s/n''" using rotated_rows(3) by blast
  obtain k where "k \<in> set (db_keys rotatedDb)" "u_active_key r = Some (pk_id k)"
    "\<forall>c \<in> set (db_keys rotatedDb). pk_owner c = Some (u_id r) \<and> pk_id c \<notin> kr_key ` set (db_key_revocations rotatedDb) \<longleftrightarrow> c = k"
    using one_active_key [OF signedDb_plain signedDb_inv r_into_rtranclp [of "accountStep aServer", OF rotated_step] r(1)] by blast
  moreover from this have "{c \<in> set (db_keys rotatedDb). pk_owner c = Some (u_id r) \<and>
      pk_id c \<notin> kr_key ` set (db_key_revocations rotatedDb)} = {k}" by blast
  ultimately show ?thesis using r by (intro bexI [of _ r] exI [of _ k]) simp_all
qed

theorem rotation_never_forks_witness:
  "\<exists>s. {c \<in> set (db_keys rotatedDb). pk_predecessor c = Some ''u@s/k''} = {s}"
proof -
  obtain v where v: "v \<in> set (db_key_revocations rotatedDb)" "kr_key v = ''u@s/k''" using rotated_rows(1) by blast
  show ?thesis
    using rotation_never_forks [OF signedDb_plain rotated_inv rtranclp.rtrancl_refl v(1)] unfolding v(2) by blast
qed


theorem account_rows_witness:
  "kr_key ` set (db_key_revocations rotatedDb) \<subseteq> pk_id ` set (db_keys rotatedDb)"
  using account_rows [OF signedDb_plain signedDb_inv r_into_rtranclp [of "accountStep aServer", OF rotated_step]] by blast

text \<open>\<open>u\<close> invites someone, who signs up.\<close>

definition aSecretHash :: string where "aSecretHash = replicate 32 CHR ''0''"

definition aInviteMsg :: "string \<Rightarrow> inviteMsg" where
  "aInviteMsg key = \<lparr>im_id = ''u@s/i'', im_token_hash = encodeHashHex aSecretHash, im_created = aDay, im_role = '''',
     im_sig = \<lparr>us_id = key, us_armor = ''q''\<rparr>, im_permissions = ''''\<rparr>"

definition aInvite :: "string \<Rightarrow> inviteRow" where
  "aInvite key = newInvite ''u@s/i'' ''u@s'' aSecretHash aDay roleUser \<lparr>us_id = key, us_armor = ''q''\<rparr>
     \<lparr>ss_id = ''f@s'', ss_armor = ''a'', ss_at = aDay\<rparr> []"

definition invitedBy :: "string \<Rightarrow> db" where
  "invitedBy key = signedDb\<lparr>db_invites := [aInvite key]\<rparr>"

abbreviation invitedDb :: db where "invitedDb \<equiv> invitedBy ''u@s/k''"

lemma aDay_whole [simp]: "truncateSecond aDay = aDay"
  by (simp add: truncateSecond_def aDay_def hour_def minute_def second_def)

lemma trimSpace_plain:
  assumes "\<forall>c \<in> set s. \<forall>w \<in> set goSpaces. c \<notin> set w"
  shows "trimSpace s = s"
proof -
  have ne: "\<forall>w \<in> set goSpaces. w \<noteq> []" by (simp add: goSpaces_def)
  have no: "\<not> prefix w t" if "w \<noteq> []" "set w \<inter> set t = {}" for w t :: string
    using that by (cases w) (auto simp: prefix_def)
  have dis: "set w \<inter> set s = {}" if "w \<in> set goSpaces" for w using assms that by blast
  have "trimLeftSpace s = s"
    unfolding trimLeftSpace_def by (rule trimPrefixes_none) (use ne no dis in \<open>auto simp: find_None_iff\<close>)
  moreover have "trimRightSpace s = s"
  proof -
    have "trimPrefixes (length s) (map rev goSpaces) (rev s) = rev s"
      by (rule trimPrefixes_none) (use ne no dis in \<open>auto simp: find_None_iff\<close>)
    then show ?thesis by (simp add: trimRightSpace_def)
  qed
  ultimately show ?thesis by (simp add: trimSpace_def)
qed

lemma hexChar_plain: "n < 16 \<Longrightarrow> w \<in> set goSpaces \<Longrightarrow> hexChar n \<notin> set w"
proof -
  have "list_all (\<lambda>n. list_all (\<lambda>w. hexChar n \<notin> set w) goSpaces) [0..<16]" by code_simp
  then show "n < 16 \<Longrightarrow> w \<in> set goSpaces \<Longrightarrow> hexChar n \<notin> set w" by (simp add: list_all_iff)
qed

text \<open>The hash an invite is answered with is read back as it was.\<close>

lemma decodeHashHex_encode: "length b = cryptoHashSize \<Longrightarrow> decodeHashHex (encodeHashHex b) = Some b"
proof -
  have "\<exists>n < 16. c = hexChar n" if c: "c \<in> set (encodeHashHex b)" for c
  proof -
    obtain x :: char where "c = hexChar (of_char x div 16) \<or> c = hexChar (of_char x mod 16)"
      using c by (auto simp: encodeHashHex_def)
    moreover have "of_char x div 16 < (16 :: nat)" using nat_of_char_less_256 [of x] by linarith
    moreover have "of_char x mod 16 < (16 :: nat)" by simp
    ultimately show ?thesis by blast
  qed
  then have "trimSpace (encodeHashHex b) = encodeHashHex b" by (intro trimSpace_plain) (metis hexChar_plain)
  then show "length b = cryptoHashSize \<Longrightarrow> ?thesis" by (simp add: decodeHashHex_def hexDecode_encode)
qed

lemma aHash_read: "decodeHashHex (encodeHashHex aSecretHash) = Some aSecretHash"
  by (rule decodeHashHex_encode) (simp add: aSecretHash_def cryptoHashSize_def)

lemma invite_created:
  assumes key: "key \<in> {''u@s/k'', ''v@s/k''}"
  shows "\<exists>w. createInvite aServer aDay (Some ''u@s'') (Some (aInviteMsg key)) signedDb = (Done 201 w, invitedBy key)"
proof -
  have "inviteToken aServer ''u@s'' (aInviteMsg key) = Inr aSecretHash"
  proof -
    have "parseKeyFingerprint ''u@s/i'' = Some (''u'', ''s'', ''i'')" "canonicalID ''s'' ''u'' = ''u@s''" by code_simp+
    then show ?thesis using key by (auto simp: inviteToken_def aInviteMsg_def aHash_read)
  qed
  moreover have "inviteGrant aServer aDay ''u@s'' (aInviteMsg key) signedDb = Inr (aDay, roleUser, [])"
  proof -
    have "parsePermissionSet '''' = Inr []" "trimSpace '''' = ''''" "roleUser \<noteq> roleAdmin" by code_simp+
    then show ?thesis
      by (simp add: inviteGrant_def aInviteMsg_def invitePermissions_def timeSub_def inviteCreateSkew_def isZeroTime_def)
        (simp add: aDay_def hour_def minute_def second_def)
  qed
  moreover have "inviteSigned aServer aDay ''u@s'' (aInviteMsg key) aSecretHash aDay roleUser signedDb =
      Inr \<lparr>ss_id = ''f@s'', ss_armor = ''a'', ss_at = aDay\<rparr>"
  proof -
    have "\<exists>k. getPublicKey signedDb key = Some k \<and> \<not> key_revoked k \<and> key_armor k = ''k''"
      using key by (auto simp: getPublicKey_def signedDb_def aDb_def aKey_def)
    then show ?thesis by (auto simp: inviteSigned_def aInviteMsg_def Let_def)
  qed
  ultimately have prep: "prepareInvite aServer aDay (Some ''u@s'') (Some (aInviteMsg key)) signedDb =
      Inr (''u@s'', aInviteMsg key, aSecretHash, aDay, roleUser, [], \<lparr>ss_id = ''f@s'', ss_armor = ''a'', ss_at = aDay\<rparr>)"
    by (simp add: prepareInvite_def Let_def) (simp add: aServer_def signupModeClosed_def)
  have signedDb_invites: "inviteLimitQ signedDb ''u@s'' ''s'' 5 = Inr 5" "key \<in> pk_id ` set (db_keys signedDb)"
    "db_invites signedDb = []" "''u@s'' \<in> set (db_identities signedDb)"
    by (code_simp, use key in \<open>auto simp: signedDb_def aDb_def aKey_def\<close>)
  then have "insertInviteWith aServer (im_id (aInviteMsg key)) ''u@s'' aSecretHash aDay roleUser (im_sig (aInviteMsg key))
      \<lparr>ss_id = ''f@s'', ss_armor = ''a'', ss_at = aDay\<rparr> 5 [] signedDb = Inr ((), invitedBy key)"
    using signedDb_invites by (simp add: insertInviteWith_def aInviteMsg_def invitedBy_def aInvite_def invitesOf_def roleUser_def)
  then show ?thesis by (simp add: createInvite_def prep withAdminTx_def)
qed

theorem invite_quota_witness:
  "\<exists>v. db_invites invitedDb = db_invites signedDb @ [v] \<and> iv_by v = ''u@s'' \<and>
    iv_id v \<notin> iv_id ` set (db_invites signedDb)"
  using invite_created [of "''u@s/k''"] invite_quota by blast

text \<open>An invite of \<open>u\<close>'s signed with \<open>v\<close>'s key is accepted: nobody asks whose the key is.\<close>

lemma invite_signed_by_other:
  "\<exists>w d'. createInvite aServer aDay (Some ''u@s'') (Some (aInviteMsg ''v@s/k'')) signedDb = (Done 201 w, d') \<and>
     pk_owner (aKey ''v'') = Some ''v@s'' \<and> us_id (im_sig (aInviteMsg ''v@s/k'')) = pk_id (aKey ''v'')"
  using invite_created [of "''v@s/k''"] by (auto simp: aKey_def aInviteMsg_def)

text \<open>An account's removal leaves its open invites as claimable as they were.\<close>

lemma removal_keeps_invites:
  assumes "storeAccountRemovalTx E cert u d = Inr (x, d')"
  shows "lookUpInvite E now d' i secret = lookUpInvite E now d i secret"
  using assms
proof (cases rule: storeAccountRemovalTx_cases)
  case (2 r)
  let ?e = "removalCore (removalRowOf cert u) u d"
  have rows: "db_users d' = updWhere (\<lambda>r. u_id r = u) clearedRow (db_users d)" "db_invites d' = db_invites d"
    by (simp_all add: 2(4) updUser_def bumpActiveUsers_def)
  have "(\<exists>r \<in> set (updWhere p clearedRow t). u_id r = v \<and> u_suspended r \<noteq> None) \<longleftrightarrow>
      (\<exists>r \<in> set t. u_id r = v \<and> u_suspended r \<noteq> None)" for p t v
    by (induction t) (auto simp: updWhere_def)
  then have "inviterSuspended d' v = inviterSuspended d v" for v by (simp add: inviterSuspended_def rows)
  then show ?thesis by (simp add: lookUpInvite_def getPendingInvite_def rows split: option.split)
qed simp

definition aSignupMsg :: signupMsg where
  "aSignupMsg = \<lparr>su_username = ''x'', su_public_key = ''k'', su_signature = ''q'', su_user_signature = ''q'',
     su_user_id = ''abcdefgh'', su_user_id_signature = ''q'', su_user_id_fingerprint = ''f'',
     su_invite_id = ''u@s/i'', su_invite_secret = ''0''\<rparr>"

definition aSignup :: signupInput where
  "aSignup = \<lparr>si_user = ''abcdefgh'', si_username = ''x'', si_armor = ''k'', si_key = ''abcdefgh@s/n'',
     si_key_created = 0, si_sig = ''q'', si_since = aDay,
     si_profile_sig = \<lparr>ss_id = ''f@s'', ss_armor = ''a'', ss_at = aDay\<rparr>,
     si_key_sig = \<lparr>ss_id = ''f@s'', ss_armor = ''a'', ss_at = aDay\<rparr>, si_invite = Some (aInvite ''u@s/k''), si_device = ''q''\<rparr>"

lemma signup_invite: "signupInvite aServer aDay ''u@s/i'' ''0'' invitedDb = Inr (Some (aInvite ''u@s/k''))"
proof -
  have trim: "trimSpace ''u@s/i'' = ''u@s/i''" by code_simp
  have hash: "e_hash aServer ''0'' = aSecretHash" by code_simp
  have pending: "inviteStatus aDay (aInvite ''u@s/k'') = ''pending''"
    by (simp add: inviteStatus_def aInvite_def newInvite_def roleUser_def roleAdmin_def)
  have "\<not> inviterSuspended invitedDb ''u@s''"
    by (simp add: inviterSuspended_def invitedBy_def signedDb_def aDb_def aUser_def)
  then have "lookUpInvite aServer aDay invitedDb ''u@s/i'' ''0'' = Some (aInvite ''u@s/k'')"
    using pending by (simp add: lookUpInvite_def getPendingInvite_def trim hash invitedBy_def)
      (simp add: aInvite_def)
  then show ?thesis using pending by (simp add: signupInvite_def resolveSignup_def Let_def trim) (simp add: aInvite_def)
qed

lemma signup_prepared: "prepareSignup aServer aDay ''q'' (Some aSignupMsg) invitedDb = Inr aSignup"
proof -
  have "isValidCryptoID ''abcdefgh''" "trimSpace ''abcdefgh'' = ''abcdefgh''" "trimInvisibleChars aServer ''x'' = ''x''"
    "trimSpace ''f'' = ''f''" "''abcdefgh'' \<noteq> rootUserID" by code_simp+
  then have "signupForm aServer ''q'' aSignupMsg = Inr (''x'', ''q'', ''abcdefgh'')"
    by (simp add: signupForm_def aSignupMsg_def parseDeviceID_def) (simp add: aServer_def)
  moreover have "signupProofs aServer aSignupMsg ''x'' ''abcdefgh'' invitedDb = Inr ''abcdefgh@s/n''"
  proof -
    have "canonicalID ''s'' ''abcdefgh'' = ''abcdefgh@s''" "canonicalID ''s'' ''f'' = ''f@s''"
      "appendEntity ''abcdefgh@s'' ''n'' = ''abcdefgh@s/n''" by code_simp+
    moreover have "rowBy pk_id ''f@s'' (db_keys invitedDb) = Some \<lparr>pk_id = ''f@s'', pk_owner = None, pk_armor = ''k'',
        pk_created = 0, pk_server_sig = None, pk_predecessor = None, pk_restricted = False\<rparr>"
      by (simp add: invitedBy_def signedDb_def aDb_def aKey_def)
    moreover have "\<not> usernameExists aServer invitedDb ''x'' ''abcdefgh@s''"
      by (simp add: usernameExists_def equalFold_def rootUsername_def isReservedUsername_def reservedUsernames_def
          usernameHeld_def invitedBy_def signedDb_def aDb_def aUser_def)
        (simp add: aServer_def)
    ultimately show ?thesis
      using \<open>trimSpace ''f'' = ''f''\<close> by (simp add: signupProofs_def aSignupMsg_def serverKeyArmor_def)
  qed
  moreover have "signupSigned aServer aDay aSignupMsg ''x'' ''abcdefgh'' ''abcdefgh@s/n'' (Some (aInvite ''u@s/k'')) invitedDb =
      Inr (\<lparr>ss_id = ''f@s'', ss_armor = ''a'', ss_at = aDay\<rparr>, \<lparr>ss_id = ''f@s'', ss_armor = ''a'', ss_at = aDay\<rparr>)"
    by (simp add: signupSigned_def Let_def)
  moreover have "\<not> recovering ''''" "e_signup_mode aServer \<noteq> signupModeClosed" "e_key_created aServer a = 0" for a
    by (simp_all add: recovering_def recoveryModeLockdown_def recoveryModeOperational_def aServer_def signupModeClosed_def)
  ultimately show ?thesis
    using signup_invite by (simp add: prepareSignup_def Let_def aSignup_def) (simp add: aSignupMsg_def)
qed

lemma signup_done: "\<exists>d' fx. signup aServer aDay ''q'' (Some aSignupMsg) invitedDb = (Done 201 ''abcdefgh@s'', d', fx)"
proof -
  let ?d1 = "accountRows aServer aSignup invitedDb"
  have self: "canonicalID ''s'' ''abcdefgh'' = ''abcdefgh@s''" by code_simp
  have si: "si_user aSignup = ''abcdefgh''" "si_key aSignup = ''abcdefgh@s/n''" "si_invite aSignup = Some (aInvite ''u@s/k'')"
    "si_username aSignup = ''x''" "si_device aSignup = ''q''" "si_since aSignup = aDay"
    by (simp_all add: aSignup_def)
  have stored: "insertAccount aServer aSignup invitedDb = Inr ((), ?d1)"
  proof -
    have "\<not> usernameHeld aServer invitedDb ''x'' ''abcdefgh@s''"
      by (simp add: usernameHeld_def invitedBy_def signedDb_def aDb_def aUser_def) (simp add: aServer_def)
    then show ?thesis
      by (simp add: insertAccount_Inr si self) (simp add: invitedBy_def signedDb_def aDb_def aKey_def aUser_def)
  qed
  have pending: "inviteStatus aDay (aInvite ''u@s/k'') = ''pending''" "iv_role (aInvite ''u@s/k'') \<noteq> roleAdmin" "iv_id (aInvite ''u@s/k'') = ''u@s/i''"
    by (simp_all add: inviteStatus_def aInvite_def newInvite_def roleUser_def roleAdmin_def)
  have "inviteClaimable aDay ?d1 (aInvite ''u@s/k'')"
    by (simp add: inviteClaimable_def inviterSuspended_def)
      (simp add: aInvite_def newInvite_def roleUser_def roleAdmin_def invitedBy_def signedDb_def aDb_def aUser_def)
  moreover have devices: "db_devices ?d1 = []" and invites: "db_invites ?d1 = [(aInvite ''u@s/k'')]"
    by (simp_all add: accountRows_def Let_def invitedBy_def signedDb_def aDb_def)
  ultimately have claimed: "\<exists>d2. claimInvite aServer aDay aSignup ?d1 = Inr ((), d2) \<and> db_users d2 = db_users ?d1 \<and> db_devices d2 = []"
    using devices invites by (simp add: claimInvite_def si markInviteClaimed_def pending(3))
  have role: "signupRoleOf aServer aSignup = roleUser"
    using pending(2) by (simp add: signupRoleOf_def si signupRole_def roleFromInviteGrant_def isRootIdentity_def
        rootUserID_def canonicalID_def canonicalIDs_def)
  have granted: "grantInvite aServer f aSignup d2 = Inr (None, d2)" for f d2
    by (simp add: grantInvite_def si role roleUser_def roleAdmin_def)
  have device: "\<exists>d4. bindDeviceTx aServer ''abcdefgh'' ''q'' aDay (bumpActiveUsers 1 d2) = Inr ((), d4) \<and>
      db_users d4 = db_users d2" if "db_devices d2 = []" for d2
    using that by (simp add: bindDeviceTx_def parseDeviceID_def bumpActiveUsers_def) (simp add: aServer_def)
  have "\<exists>d'. signupTx aServer aDay (onAdminClaim aServer aDay ''abcdefgh'') aSignup invitedDb = Inr (None, d') \<and>
      db_users d' = db_users ?d1"
  proof -
    obtain d2 where d2: "claimInvite aServer aDay aSignup ?d1 = Inr ((), d2)" "db_users d2 = db_users ?d1" "db_devices d2 = []"
      using claimed by blast
    obtain d4 where "bindDeviceTx aServer ''abcdefgh'' ''q'' aDay (bumpActiveUsers 1 d2) = Inr ((), d4)" "db_users d4 = db_users d2"
      using device [OF d2(3)] by blast
    then show ?thesis using pending(1) d2 by (simp add: signupTx_def si stored granted)
  qed
  then obtain d' where tx: "signupTx aServer aDay (onAdminClaim aServer aDay ''abcdefgh'') aSignup invitedDb = Inr (None, d')"
    and users: "db_users d' = db_users ?d1" by blast
  have "userRow d' ''abcdefgh@s'' = Some (signupRow ''abcdefgh@s'' roleUser aSignup)"
    by (simp add: userRow_def users si self role) (simp add: invitedBy_def signedDb_def aDb_def aUser_def)
  then have "getUserProfile d' ''abcdefgh@s'' = Inr True" by (simp add: getUserProfile_def signupRow_def)
  then show ?thesis by (simp add: signup_def signup_prepared withAdminTx_def si self tx Let_def)
qed

lemma invited_inv: "accountInv aServer invitedDb"
proof -
  obtain w where w: "createInvite aServer aDay (Some ''u@s'') (Some (aInviteMsg ''u@s/k'')) signedDb = (Done 201 w, invitedDb)"
    using invite_created [of "''u@s/k''"] by auto
  have "accountStep aServer signedDb invitedDb" by (rule inviteCreated [OF w])
  then show ?thesis by (rule accountStep_inv [OF _ signedDb_inv signedDb_plain])
qed

theorem signup_needs_invite_witness:
  "\<exists>(d' :: db) v. v \<in> set (db_invites invitedDb) \<and> iv_id v = trimSpace (su_invite_id aSignupMsg) \<and>
    v\<lparr>iv_claimed_at := Some aDay, iv_claimed_by := Some ''abcdefgh@s''\<rparr> \<in> set (db_invites d')"
proof -
  obtain d' fx where run: "signup aServer aDay ''q'' (Some aSignupMsg) invitedDb = (Done 201 ''abcdefgh@s'', d', fx)"
    using signup_done by blast
  have mode: "e_signup_mode aServer = signupModeInvite" by (simp add: aServer_def signupModeInvite_def)
  obtain m v where "Some aSignupMsg = Some m" "v \<in> set (db_invites invitedDb)" "iv_id v = trimSpace (su_invite_id m)"
    "v\<lparr>iv_claimed_at := Some (truncateSecond aDay), iv_claimed_by := Some ''abcdefgh@s''\<rparr> \<in> set (db_invites d')"
    using signup_needs_invite [OF run mode invited_inv] by blast
  then have "v \<in> set (db_invites invitedDb) \<and> iv_id v = trimSpace (su_invite_id aSignupMsg) \<and>
    v\<lparr>iv_claimed_at := Some aDay, iv_claimed_by := Some ''abcdefgh@s''\<rparr> \<in> set (db_invites d')" by simp
  then show ?thesis by blast
qed

theorem invite_claimed_once_witness:
  "\<exists>(d' :: db) v. v \<in> set (db_invites d') \<and> iv_claimed_by v = Some ''abcdefgh@s'' \<and>
    u_id ` {r \<in> set (db_users d'). u_invite r = Some (iv_id v)} = {''abcdefgh@s''}"
proof -
  obtain d' fx where run: "signup aServer aDay ''q'' (Some aSignupMsg) invitedDb = (Done 201 ''abcdefgh@s'', d', fx)"
    using signup_done by blast
  then have inv: "accountInv aServer d'" using accountStep_inv [OF signedUp invited_inv signedDb_plain] by blast
  obtain si entry where prep: "prepareSignup aServer aDay ''q'' (Some aSignupMsg) invitedDb = Inr si"
    and tx: "signupTx aServer aDay (onAdminClaim aServer aDay (si_user si)) si invitedDb = Inr (entry, d')"
    using signup_Done [OF run] by blast
  have self: "canonicalID ''s'' ''abcdefgh'' = ''abcdefgh@s''" by code_simp
  have si: "si = aSignup" using prep signup_prepared by simp
  have "\<exists>r \<in> set (db_users d'). u_id r = ''abcdefgh@s'' \<and> u_invite r = Some ''u@s/i''"
    using signupTx_Inr [OF tx] by (simp add: sameAccounts_def si) (simp add: aSignup_def aInvite_def self)
  then obtain r where r: "r \<in> set (db_users d')" "u_id r = ''abcdefgh@s''" "u_invite r = Some ''u@s/i''" by blast
  obtain v where v: "v \<in> set (db_invites d')" "iv_id v = ''u@s/i''" "iv_claimed_by v = Some (u_id r)"
    using inviteRulesD(6) [OF accountInvD(3) [OF inv] r(1,3)] by blast
  have "iv_claimed_at v \<noteq> None" using inviteRulesD(3) [OF accountInvD(3) [OF inv] v(1)] v(3) by simp
  then have only: "\<forall>s \<in> set (db_users d'). u_invite s = Some (iv_id v) \<longleftrightarrow> iv_claimed_by v = Some (u_id s)"
    using invite_claimed_once [OF signedDb_plain inv rtranclp.rtrancl_refl v(1)] by blast
  have "u_id ` {s \<in> set (db_users d'). u_invite s = Some (iv_id v)} = {u_id r}"
    using only r(1) unfolding v(3) by force
  then show ?thesis using v r(2) by (intro exI [of _ d'] exI [of _ v]) simp
qed

end
