(* ===== verification/Spec2Isabelle.thy ===== *)
theory Spec2Isabelle
  imports AdminProperties FlagProperties RecordProperties TextProperties FollowRules ReedProperties AccountProperties
begin

text \<open>
  Syrinx is a federated social server: a Go backend (\<open>src/backend\<close>) over PostgreSQL, where users
  sign what they say with OpenPGP keys, the server countersigns it, and peers exchange the signed
  records.  This library models the parts of the backend that decide who may do what and keep the
  records of it: the two-admin protocol with its executors, the ledger, the flag cases, the removal of
  accounts, the queue of events owed to peers, invites, sign-up, profiles and key rotation, follows,
  blocks and vouches, reeds (the posts) with their threads, replies, echoes and mentions, and the
  identities, permissions and signed payloads under them.

  The parts and the theories that model them.

    \<^item> \<open>Prelude\<close>: errors as sums (\<open>bindR\<close>, \<open>firstErr\<close>, \<open>forEach\<close>), table rows (\<open>rowBy\<close> is a select by
      key, \<open>updWhere\<close> an update, \<open>uniqueBy\<close> a key), and the \<open>transition_system\<close> locale that gives
      every step relation its invariants over runs.
    \<^item> \<open>GoText\<close>, \<open>GoTime\<close>: what is used of Go's \<open>strings\<close>, \<open>strconv\<close>, \<open>slices\<close>, \<open>utf8\<close> and \<open>time\<close>.
      A string is its bytes; a time is the nanoseconds since year 1.
    \<^item> \<open>Identity\<close> (\<open>identity_id.go\<close>, \<open>roles.go\<close>, \<open>mentions.go\<close>, parts of \<open>services.go\<close>): user, key
      and entity ids, root, roles at sign-up, mention claims.
    \<^item> \<open>Payloads\<close>, \<open>PayloadSafety\<close> (\<open>identity.go\<close>): every builder of signed bytes, and that no two
      records share theirs.
    \<^item> \<open>Store\<close> (\<open>db.go\<close>, \<open>services.go\<close>): the tables as one record \<open>db\<close>, the process's own settings and
      its OpenPGP operations as \<open>env\<close>, transactions, users and keys.
    \<^item> \<open>Permissions\<close>, \<open>Requests\<close>, \<open>AdminRequests\<close>, \<open>Executors\<close> (\<open>admin.go\<close>, \<open>admin_promote.go\<close>,
      \<open>admin_suspend.go\<close>, \<open>admin_kick.go\<close>, \<open>admin_rebind.go\<close>, \<open>admin_invites.go\<close>,
      \<open>admin_broadcast.go\<close>): an admin opens a request, another admin decides it, and what it asks for
      runs in the transaction that closes it.
    \<^item> \<open>Ledger\<close> (\<open>ledger.go\<close>, \<open>ledger_chain.go\<close>): the chain of countersigned entries.
    \<^item> \<open>Paging\<close>: the keyset pages of the listings.
    \<^item> \<open>Flags\<close>, \<open>FlagHandlers\<close> (\<open>flags.go\<close>, \<open>admin_records.go\<close>): flags, their cases, the routes, and
      which admins see what.
    \<^item> \<open>PeerQueue\<close> (\<open>peer_event_queue.go\<close>, \<open>federation_delivery.go\<close>): what peers are owed and how a
      queue is drained.
    \<^item> \<open>Removal\<close> (\<open>services.go\<close>): storing the certificate that ends an account.
    \<^item> \<open>Invites\<close>, \<open>Accounts\<close> (\<open>services.go\<close>, \<open>handlers.go\<close>): invites and their quota, signing up,
      usernames, the re-signed profile, the device an account is bound to, and a key's successor.
    \<^item> \<open>Social\<close>, \<open>Blocks\<close>, \<open>Follows\<close>, \<open>Vouches\<close> (\<open>blocks.go\<close>, \<open>follows.go\<close>, \<open>vouches.go\<close>,
      \<open>federation_vouches.go\<close>, \<open>verification_window.go\<close>): what users sign about each other, in the tables
      of \<open>social\<close>, a record that holds a \<open>db\<close>; the routes of users and of peers.
    \<^item> \<open>Reeds\<close>, \<open>ReedRoutes\<close> (\<open>services.go\<close>, \<open>handlers.go\<close>, \<open>federation_relay.go\<close>, the triggers of
      \<open>db.go\<close>): the tables of reeds and the counts their triggers keep, in \<open>feed\<close>, a record that holds a
      \<open>social\<close>; signing and removing reeds and threads, and what peers tell of theirs.

  How they interact.  An approved kick stores a removal, which settles the flag cases, owes peers the
  news and, once committed, drops the user from pending requests, which may close those as moot; every
  other approval changes users, permissions, keys, invites or suspensions; each executed request but a
  private message is appended to the ledger in the same transaction.  A sign-up claims its invite; that of
  an admin takes over the invite's permissions, while its creator holds them, and goes on the ledger.  The records are pushed to the
  admins who may see them.  A block undoes the blocked user's follow and is asked before a follow is
  taken; a follow or block of a peer's user is owed to the peer through the same queue; a vouch for a
  user here needs their verification window, one for a peer's user the peer's consent.  A reed that
  answers or echoes asks the other author's blocks first; publishing one and removing a published one
  owe peers the news; an account's removal takes its replies off the counts.

  How the code is translated.  A handler is a function of the environment, the time, the signed-in
  caller (\<open>None\<close> without one), the decoded body (\<open>None\<close> when it doesn't decode) and the database, to
  the answer, the database and the list of effects that follow the commit (pushes, device kicks,
  announcements).  A transaction is a function to \<open>err + 'a \<times> db\<close>; \<open>withAdminTx\<close> drops the database
  of one that fails.  Errors keep the code's split: \<open>Refusal\<close> carries its status and reason,
  \<open>Sentinel\<close> the package's error values, \<open>Internal\<close> anything answered with 500.  One \<open>now\<close> stands for
  all the clock readings of a call; UUIDs the code draws are a list argument, so a clash is a case of
  the model; calls to peers are functions of what is sent.  Loops with no bound of their own (the drain,
  a client that follows cursors) take fuel, and the theorem about each says how much is enough: one
  turn more than the queue has events, one page for each 50 cases or 100 entries.  The walks up a
  conversation are partial functions to an option: a walk, and the call that makes it, is \<open>None\<close> when
  it never ends.

  What the lemmas show.  \<open>AdminSafety\<close>: the invariant of requests and ledger, the abstract machine
  \<open>requestStep\<close> whose steps every handler refines, and what reachable tables keep.  \<open>Authority\<close>: what
  a commit may change of roles and permissions.  \<open>Moot\<close>: what a drop settles.  \<open>SmallServer\<close>: a server
  with root, two admins and two users on which the witnesses run.  The properties are stated in
  \<open>AdminProperties\<close> (dual control, finality, no escalation, effects, refinement, progress),
  \<open>FlagProperties\<close> (the rules of the tables over runs of the routes, one flag each, withdrawal,
  retention, listing, removal), \<open>RecordProperties\<close> (the ledger's chain and reading, the queue's order
  and completeness), \<open>TextProperties\<close> (unambiguous signatures, round trips, who sees what),
  \<open>VouchRules\<close> (the rules of the vouch tables over runs of their routes, what an accepted vouch rests
  on, the live set as a view of the history, listings) and \<open>FollowRules\<close> (the lists as the active
  certificates, blocks that hold, the newest certificate winning), each with an instance.
  \<open>AccountRules\<close> has what accounts keep over \<open>accountStep\<close>, the account routes beside the executors,
  removals and peers' keys: who owns which key, how keys and invites refer to what came of them, and the
  names; \<open>AccountProperties\<close> that a user has one key in use, a key one successor and an invite one
  account, and what a sign-up, an invite and a rotation have been checked for.
  \<open>ReedInvariant\<close> has what reeds keep: the rows of replies are a forest, the counts are those of the
  replies below, the parts of a thread go together; \<open>ReedRules\<close> that every call of \<open>feedCall\<close> keeps it and
  only adds rows; \<open>ReedProperties\<close> that an author's reeds don't fork, threads are whole and read back,
  counts are exact and signing returns, and four inputs on which the code fails what it means to do.

  What is assumed.  \<open>jcsFaithful\<close>: canonical JSON of two different objects differs, for valid UTF-8 and
  numbers a double holds.  \<open>idsPlain\<close>: the server's id and the fingerprints of keys, which are hexadecimal,
  hold no slash.  \<open>quietCalls\<close>: what runs beside a drain leaves the queue it drains alone.
  Where a property needs the server to be able to sign, it says so.  All are met by instances.

  Not modelled: OpenPGP, JSON and protobuf encodings, HTTP routing, logging and metrics; failures of
  the database driver (a query that fails rolls back and answers 500); the foreign keys and the cursor's
  base64 spelling; concurrent transactions on one row, which PostgreSQL serialises where the code locks
  (\<open>FOR UPDATE\<close>), beyond the interleaving a step relation gives; and the rest of the server, which is
  left out: likes, pins, ripples and the mailbox, login and sessions, the realtime relay, the
  federation handshake, recovery, and the rotation of the server's key.  Of Go's regular expressions only
  the seven of the visible character count are modelled, on bytes; case folding, what is printable and
  the parsing of UUIDs are parameters.
\<close>

end
